(* ===== verification/RustStr.thy ===== *)
theory RustStr
  imports Prelude "HOL-Library.Sublist"
begin

text \<open>
  The operations of Rust's \<open>str\<close>, \<open>char\<close> and \<open>std::fmt\<close> that the sources use. A Rust string is
  its UTF-8 bytes, a \<open>string\<close> of HOL: \<open>len()\<close> is \<open>length\<close>, a byte range is \<open>take\<close>/\<open>drop\<close>, and
  lexicographic comparison of bytes is the list order of \<open>HOL-Library.List_Lexorder\<close>. Operations
  that look at Unicode characters (\<open>trim\<close>, \<open>split_whitespace\<close>, \<open>chars\<close>, \<open>{:?}\<close>) work on the byte
  sequences that encode them.
\<close>

section \<open>Prefixes and suffixes\<close>

fun strip_prefix :: "string \<Rightarrow> string \<Rightarrow> string option" where
  "strip_prefix s [] = Some s"
| "strip_prefix [] (p # ps) = None"
| "strip_prefix (c # cs) (p # ps) = (if c = p then strip_prefix cs ps else None)"

definition strip_suffix :: "string \<Rightarrow> string \<Rightarrow> string option" where
  "strip_suffix s p = map_option rev (strip_prefix (rev s) (rev p))"

definition starts_with :: "string \<Rightarrow> string \<Rightarrow> bool" where
  "starts_with s p \<longleftrightarrow> strip_prefix s p \<noteq> None"

definition ends_with :: "string \<Rightarrow> string \<Rightarrow> bool" where
  "ends_with s p \<longleftrightarrow> strip_suffix s p \<noteq> None"

lemma strip_prefix_eq_Some [rust_str]: "strip_prefix s p = Some r \<longleftrightarrow> s = p @ r"
  by (induction s p rule: strip_prefix.induct) auto

lemma strip_prefix_append [simp]: "strip_prefix (p @ r) p = Some r"
  by (simp add: strip_prefix_eq_Some)

lemma strip_prefix_length: "strip_prefix s p = Some r \<Longrightarrow> length s = length p + length r"
  by (simp add: strip_prefix_eq_Some)

lemma strip_suffix_eq_Some [rust_str]: "strip_suffix s p = Some r \<longleftrightarrow> s = r @ p"
  unfolding strip_suffix_def
  by (auto simp: strip_prefix_eq_Some) (metis rev_append rev_rev_ident)

lemma starts_with_iff: "starts_with s p \<longleftrightarrow> (\<exists>r. s = p @ r)"
  by (auto simp: starts_with_def strip_prefix_eq_Some)

lemma ends_with_iff: "ends_with s p \<longleftrightarrow> (\<exists>r. s = r @ p)"
  by (auto simp: ends_with_def strip_suffix_eq_Some)

lemma starts_with_append [simp, rust_str]: "starts_with (p @ r) p"
  by (auto simp: starts_with_iff)

lemma starts_with_simps [simp, rust_str]:
  "starts_with s []"
  "\<not> starts_with [] (p # ps)"
  "starts_with (c # cs) (p # ps) \<longleftrightarrow> c = p \<and> starts_with cs ps"
  by (simp_all add: starts_with_def)

lemma ends_with_append [simp, rust_str]: "ends_with (r @ p) p"
  by (auto simp: ends_with_iff)

lemma ends_with_code [code]: "ends_with s p \<longleftrightarrow> starts_with (rev s) (rev p)"
  by (simp add: ends_with_def strip_suffix_def starts_with_def)

section \<open>Searching and splitting\<close>

text \<open>
  \<open>split_once s p\<close> splits at the first occurrence of \<open>p\<close>; \<open>find_str\<close> is its byte offset and
  \<open>contains\<close> whether there is one.
\<close>

fun split_once :: "string \<Rightarrow> string \<Rightarrow> (string \<times> string) option" where
  "split_once [] p = (if p = [] then Some ([], []) else None)"
| "split_once (c # cs) p =
     (case strip_prefix (c # cs) p of
        Some r \<Rightarrow> Some ([], r)
      | None \<Rightarrow> (case split_once cs p of None \<Rightarrow> None | Some (a, b) \<Rightarrow> Some (c # a, b)))"

definition find_str :: "string \<Rightarrow> string \<Rightarrow> nat option" where
  "find_str s p = map_option (\<lambda>(a, b). length a) (split_once s p)"

definition contains_str :: "string \<Rightarrow> string \<Rightarrow> bool" where
  "contains_str s p \<longleftrightarrow> split_once s p \<noteq> None"

lemma split_once_Some: "split_once s p = Some (a, b) \<Longrightarrow> s = a @ p @ b"
  by (induction s p arbitrary: a b rule: split_once.induct)
     (auto simp: strip_prefix_eq_Some split: option.splits if_splits)

lemma split_once_None: "split_once s p = None \<longleftrightarrow> (\<nexists>a b. s = a @ p @ b)"
proof (induction s p rule: split_once.induct)
  case (1 p)
  then show ?case by auto
next
  case (2 c cs p)
  have none: "strip_prefix (c # cs) p = None \<longleftrightarrow> (\<nexists>r. c # cs = p @ r)"
    by (metis not_None_eq strip_prefix_eq_Some)
  have split: "(\<exists>a b. c # cs = a @ p @ b) \<longleftrightarrow> (\<exists>r. c # cs = p @ r) \<or> (\<exists>a b. cs = a @ p @ b)"
    by (metis Cons_eq_append_conv append_Cons append_Nil)
  show ?case
    using "2.IH" none split by (auto split: option.splits)
qed

lemma contains_str_iff: "contains_str s p \<longleftrightarrow> (\<exists>a b. s = a @ p @ b)"
  by (auto simp: contains_str_def split_once_None)

lemma contains_str_sublist: "contains_str s p \<longleftrightarrow> sublist p s"
  by (auto simp: contains_str_iff sublist_def)

text \<open>Splitting at one character: the first part does not hold it.\<close>

lemma split_once_char [rust_str]:
  "c \<notin> set a \<Longrightarrow> split_once (a @ c # b) [c] = Some (a, b)"
  by (induction a) auto

lemma split_once_char_None [rust_str]: "split_once s [c] = None \<longleftrightarrow> c \<notin> set s"
  by (simp add: split_once_None) (metis append_Cons append_Nil in_set_conv_decomp)

lemma split_once_char_first: "split_once s [c] = Some (a, b) \<Longrightarrow> c \<notin> set a"
proof (induction s arbitrary: a)
  case Nil
  then show ?case by simp
next
  case (Cons d s)
  then show ?case by (auto split: option.splits if_splits)
qed

text \<open>\<open>split(c)\<close> for one character, never the empty list, and \<open>splitn(n, c)\<close>.\<close>

fun split_char :: "char \<Rightarrow> string \<Rightarrow> string list" where
  "split_char c [] = [[]]"
| "split_char c (d # ds) =
     (if d = c then [] # split_char c ds
      else (case split_char c ds of [] \<Rightarrow> [[d]] | s # ss \<Rightarrow> (d # s) # ss))"

lemma split_char_not_Nil [simp]: "split_char c s \<noteq> []"
  by (induction s) (auto split: list.splits)

lemma split_char_no_sep: "c \<notin> set s \<Longrightarrow> split_char c s = [s]"
  by (induction s) auto

lemma split_char_append [rust_str]:
  "c \<notin> set a \<Longrightarrow> split_char c (a @ c # b) = a # split_char c b"
  by (induction a) auto

lemma split_char_pieces: "x \<in> set (split_char c s) \<Longrightarrow> c \<notin> set x"
  by (induction s arbitrary: x) (auto split: list.splits if_splits)

fun splitn :: "nat \<Rightarrow> char \<Rightarrow> string \<Rightarrow> string list" where
  "splitn 0 c s = []"
| "splitn (Suc 0) c s = [s]"
| "splitn (Suc (Suc n)) c s =
     (case split_once s [c] of None \<Rightarrow> [s] | Some (a, b) \<Rightarrow> a # splitn (Suc n) c b)"

lemma length_splitn: "length (splitn n c s) \<le> n"
  by (induction n c s rule: splitn.induct) (auto split: option.splits)

text \<open>\<open>join(sep)\<close> of a list of strings.\<close>

fun join :: "string \<Rightarrow> string list \<Rightarrow> string" where
  "join sep [] = []"
| "join sep [x] = x"
| "join sep (x # y # zs) = x @ sep @ join sep (y # zs)"

lemma join_Cons: "xs \<noteq> [] \<Longrightarrow> join sep (x # xs) = x @ sep @ join sep xs"
  by (cases xs) auto

lemma split_char_join [rust_str]:
  "xs \<noteq> [] \<Longrightarrow> (\<And>x. x \<in> set xs \<Longrightarrow> c \<notin> set x) \<Longrightarrow> split_char c (join [c] xs) = xs"
proof (induction "[c]" xs rule: join.induct)
  case (3 x y zs)
  then show ?case by (simp add: split_char_append)
qed (auto simp: split_char_no_sep)

text \<open>\<open>replace(c, t)\<close> for a one-character pattern.\<close>

definition replace_char :: "char \<Rightarrow> string \<Rightarrow> string \<Rightarrow> string" where
  "replace_char c t s = concat (map (\<lambda>d. if d = c then t else [d]) s)"

lemma replace_char_simps [simp]:
  "replace_char c t [] = []"
  "replace_char c t (d # s) = (if d = c then t else [d]) @ replace_char c t s"
  by (simp_all add: replace_char_def)

section \<open>Characters and white space\<close>

definition ascii_ws :: "char \<Rightarrow> bool" where
  "ascii_ws c \<longleftrightarrow> c \<in> {CHR 0x09, CHR 0x0A, CHR 0x0B, CHR 0x0C, CHR 0x0D, CHR '' ''}"

definition is_ascii :: "char \<Rightarrow> bool" where
  "is_ascii c \<longleftrightarrow> (of_char c :: nat) < 128"

definition is_continuation :: "char \<Rightarrow> bool" where
  "is_continuation c \<longleftrightarrow> 128 \<le> (of_char c :: nat) \<and> (of_char c :: nat) < 192"

definition is_ascii_digit :: "char \<Rightarrow> bool" where
  "is_ascii_digit c \<longleftrightarrow> 48 \<le> (of_char c :: nat) \<and> (of_char c :: nat) \<le> 57"

definition is_ascii_hexdigit :: "char \<Rightarrow> bool" where
  "is_ascii_hexdigit c \<longleftrightarrow>
     is_ascii_digit c \<or> (65 \<le> (of_char c :: nat) \<and> (of_char c :: nat) \<le> 70)
       \<or> (97 \<le> (of_char c :: nat) \<and> (of_char c :: nat) \<le> 102)"

definition is_ascii_alphanumeric :: "char \<Rightarrow> bool" where
  "is_ascii_alphanumeric c \<longleftrightarrow>
     is_ascii_digit c \<or> (65 \<le> (of_char c :: nat) \<and> (of_char c :: nat) \<le> 90)
       \<or> (97 \<le> (of_char c :: nat) \<and> (of_char c :: nat) \<le> 122)"

definition to_ascii_lower :: "char \<Rightarrow> char" where
  "to_ascii_lower c =
     (if 65 \<le> (of_char c :: nat) \<and> (of_char c :: nat) \<le> 90 then char_of ((of_char c :: nat) + 32) else c)"

text \<open>Code equations on the bits of a character, and by table.\<close>

lemma is_ascii_code [code]: "is_ascii (Char b0 b1 b2 b3 b4 b5 b6 b7) \<longleftrightarrow> \<not> b7"
  by (cases b0; cases b1; cases b2; cases b3; cases b4; cases b5; cases b6; cases b7)
     (simp_all add: is_ascii_def)

lemma is_continuation_code [code]:
  "is_continuation (Char b0 b1 b2 b3 b4 b5 b6 b7) \<longleftrightarrow> b7 \<and> \<not> b6"
  by (cases b0; cases b1; cases b2; cases b3; cases b4; cases b5; cases b6; cases b7)
     (simp_all add: is_continuation_def)

lemma is_ascii_digit_code [code]:
  "is_ascii_digit (Char b0 b1 b2 b3 b4 b5 b6 b7) \<longleftrightarrow>
     \<not> b7 \<and> \<not> b6 \<and> b5 \<and> b4 \<and> (\<not> b3 \<or> (\<not> b2 \<and> \<not> b1))"
  by (cases b0; cases b1; cases b2; cases b3; cases b4; cases b5; cases b6; cases b7)
     (simp_all add: is_ascii_digit_def)

text \<open>
  The Unicode white space outside ASCII, as UTF-8: NEL, NBSP, Ogham space, U+2000 to U+200A,
  U+2028, U+2029, U+202F, U+205F and U+3000.
\<close>

definition wide_ws :: "string list" where
  "wide_ws =
    [[CHR 0xC2, CHR 0x85], [CHR 0xC2, CHR 0xA0], [CHR 0xE1, CHR 0x9A, CHR 0x80],
     [CHR 0xE2, CHR 0x80, CHR 0x80], [CHR 0xE2, CHR 0x80, CHR 0x81], [CHR 0xE2, CHR 0x80, CHR 0x82],
     [CHR 0xE2, CHR 0x80, CHR 0x83], [CHR 0xE2, CHR 0x80, CHR 0x84], [CHR 0xE2, CHR 0x80, CHR 0x85],
     [CHR 0xE2, CHR 0x80, CHR 0x86], [CHR 0xE2, CHR 0x80, CHR 0x87], [CHR 0xE2, CHR 0x80, CHR 0x88],
     [CHR 0xE2, CHR 0x80, CHR 0x89], [CHR 0xE2, CHR 0x80, CHR 0x8A], [CHR 0xE2, CHR 0x80, CHR 0xA8],
     [CHR 0xE2, CHR 0x80, CHR 0xA9], [CHR 0xE2, CHR 0x80, CHR 0xAF], [CHR 0xE2, CHR 0x81, CHR 0x9F],
     [CHR 0xE3, CHR 0x80, CHR 0x80]]"

text \<open>
  \<open>strip_any toks s\<close> removes the first of the given byte sequences that \<open>s\<close> starts with. One
  white-space character is removed from the front by \<open>strip_ws\<close>; from the back by \<open>strip_ws_rev\<close>,
  which works on the reversed string.
\<close>

fun strip_any :: "string list \<Rightarrow> string \<Rightarrow> string option" where
  "strip_any [] s = None"
| "strip_any (t # ts) s = (case strip_prefix s t of Some r \<Rightarrow> Some r | None \<Rightarrow> strip_any ts s)"

definition strip_ws :: "string \<Rightarrow> string option" where
  "strip_ws s =
     (case s of [] \<Rightarrow> None
      | c # cs \<Rightarrow> (if ascii_ws c then Some cs else if is_ascii c then None else strip_any wide_ws s))"

definition strip_ws_rev :: "string \<Rightarrow> string option" where
  "strip_ws_rev s =
     (case s of [] \<Rightarrow> None
      | c # cs \<Rightarrow> (if ascii_ws c then Some cs else if is_ascii c then None
                  else strip_any (map rev wide_ws) s))"

lemma strip_any_shape: "strip_any ts s = Some r \<Longrightarrow> \<exists>t \<in> set ts. s = t @ r"
  by (induction ts s rule: strip_any.induct) (auto simp: strip_prefix_eq_Some split: option.splits)

lemma wide_ws_not_Nil: "t \<in> set wide_ws \<Longrightarrow> t \<noteq> []"
  by (auto simp: wide_ws_def)

lemma strip_ws_suffix: "strip_ws s = Some r \<Longrightarrow> \<exists>t. t \<noteq> [] \<and> s = t @ r"
  by (auto simp: strip_ws_def split: list.splits if_splits dest!: strip_any_shape wide_ws_not_Nil)

lemma strip_ws_rev_suffix: "strip_ws_rev s = Some r \<Longrightarrow> \<exists>t. t \<noteq> [] \<and> s = t @ r"
  by (auto simp: strip_ws_rev_def split: list.splits if_splits dest!: strip_any_shape)
     (use wide_ws_not_Nil in \<open>metis append_Cons append_Nil rev_is_Nil_conv\<close>)+

lemma strip_ws_length: "strip_ws s = Some r \<Longrightarrow> length r < length s"
  by (drule strip_ws_suffix) auto

lemma strip_ws_rev_length: "strip_ws_rev s = Some r \<Longrightarrow> length r < length s"
  by (drule strip_ws_rev_suffix) auto

function trim_start :: "string \<Rightarrow> string" where
  "trim_start s = (case strip_ws s of None \<Rightarrow> s | Some r \<Rightarrow> trim_start r)"
  by pat_completeness auto
termination
  by (relation "measure length") (auto dest: strip_ws_length)

function trim_start_rev :: "string \<Rightarrow> string" where
  "trim_start_rev s = (case strip_ws_rev s of None \<Rightarrow> s | Some r \<Rightarrow> trim_start_rev r)"
  by pat_completeness auto
termination
  by (relation "measure length") (auto dest: strip_ws_rev_length)

declare trim_start.simps [simp del] trim_start_rev.simps [simp del]

definition trim_end :: "string \<Rightarrow> string" where
  "trim_end s = rev (trim_start_rev (rev s))"

definition trim :: "string \<Rightarrow> string" where
  "trim s = trim_end (trim_start s)"

text \<open>\<open>trim_start_matches(c)\<close> and \<open>trim_end_matches([c, d])\<close> for ASCII characters.\<close>

definition trim_start_chars :: "char list \<Rightarrow> string \<Rightarrow> string" where
  "trim_start_chars cs s = dropWhile (\<lambda>c. c \<in> set cs) s"

definition trim_end_chars :: "char list \<Rightarrow> string \<Rightarrow> string" where
  "trim_end_chars cs s = rev (dropWhile (\<lambda>c. c \<in> set cs) (rev s))"

text \<open>
  A string is tight when it neither starts nor ends with white space. Trimming gives a tight
  middle part of the string, and leaves a tight string alone.
\<close>

definition tight_start :: "string \<Rightarrow> bool" where
  "tight_start s \<longleftrightarrow> strip_ws s = None"

definition tight_end :: "string \<Rightarrow> bool" where
  "tight_end s \<longleftrightarrow> strip_ws_rev (rev s) = None"

lemma trim_start_decomp: "\<exists>t. s = t @ trim_start s"
proof (induction s rule: trim_start.induct)
  case (1 s)
  show ?case
  proof (cases "strip_ws s")
    case None
    then show ?thesis by (subst trim_start.simps) simp
  next
    case (Some r)
    from strip_ws_suffix [OF this] obtain t where "s = t @ r" by blast
    moreover obtain u where "r = u @ trim_start r" using "1.IH" Some by blast
    ultimately show ?thesis using Some by (subst trim_start.simps) (metis append.assoc option.simps(5))
  qed
qed

lemma trim_start_rev_decomp: "\<exists>t. s = t @ trim_start_rev s"
proof (induction s rule: trim_start_rev.induct)
  case (1 s)
  show ?case
  proof (cases "strip_ws_rev s")
    case None
    then show ?thesis by (subst trim_start_rev.simps) simp
  next
    case (Some r)
    from strip_ws_rev_suffix [OF this] obtain t where "s = t @ r" by blast
    moreover obtain u where "r = u @ trim_start_rev r" using "1.IH" Some by blast
    ultimately show ?thesis using Some
      by (subst trim_start_rev.simps) (metis append.assoc option.simps(5))
  qed
qed

lemma trim_end_decomp: "\<exists>t. s = trim_end s @ t"
  unfolding trim_end_def by (metis rev_append rev_rev_ident trim_start_rev_decomp)

lemma trim_decomp: "\<exists>a b. s = a @ trim s @ b"
  unfolding trim_def by (metis append.assoc trim_end_decomp trim_start_decomp)

lemma tight_start_trim_start: "tight_start (trim_start s)"
proof (induction s rule: trim_start.induct)
  case (1 s)
  then show ?case
    by (cases "strip_ws s") (simp_all add: trim_start.simps [of s] tight_start_def)
qed

lemma strip_ws_rev_trim: "strip_ws_rev (trim_start_rev s) = None"
proof (induction s rule: trim_start_rev.induct)
  case (1 s)
  then show ?case by (cases "strip_ws_rev s") (simp_all add: trim_start_rev.simps [of s])
qed

lemma tight_end_trim_end: "tight_end (trim_end s)"
  by (simp add: tight_end_def trim_end_def strip_ws_rev_trim)

lemma trim_start_tight [rust_str]: "tight_start s \<Longrightarrow> trim_start s = s"
  by (simp add: tight_start_def trim_start.simps)

lemma trim_end_tight [rust_str]: "tight_end s \<Longrightarrow> trim_end s = s"
  by (simp add: tight_end_def trim_end_def trim_start_rev.simps)

lemma trim_tight [rust_str]: "tight_start s \<Longrightarrow> tight_end s \<Longrightarrow> trim s = s"
  by (simp add: trim_def trim_start_tight trim_end_tight)

text \<open>
  Code equations with constructor patterns, so that evaluation by the simplifier does not unfold the
  recursion at a symbolic argument.
\<close>

lemma trim_start_code [code]:
  "trim_start [] = []"
  "trim_start (c # cs) =
     (if ascii_ws c then trim_start cs else if is_ascii c then c # cs
      else (case strip_any wide_ws (c # cs) of None \<Rightarrow> c # cs | Some r \<Rightarrow> trim_start r))"
  by (subst trim_start.simps, simp add: strip_ws_def)+

lemma trim_start_rev_code [code]:
  "trim_start_rev [] = []"
  "trim_start_rev (c # cs) =
     (if ascii_ws c then trim_start_rev cs else if is_ascii c then c # cs
      else (case strip_any (map rev wide_ws) (c # cs) of None \<Rightarrow> c # cs | Some r \<Rightarrow> trim_start_rev r))"
  by (subst trim_start_rev.simps, simp add: strip_ws_rev_def)+

lemma trim_Nil [simp]: "trim_start [] = []" "trim_end [] = []" "trim [] = []"
  by (simp_all add: trim_start_tight trim_end_tight trim_tight tight_start_def tight_end_def
      strip_ws_def strip_ws_rev_def)

lemma tight_Nil [simp]: "tight_start []" "tight_end []"
  by (simp_all add: tight_start_def tight_end_def strip_ws_def strip_ws_rev_def)

lemma trim_start_ws [rust_str]: "ascii_ws c \<Longrightarrow> trim_start (c # s) = trim_start s"
  by (subst trim_start.simps) (simp add: strip_ws_def)

lemma trim_end_ws [rust_str]: "ascii_ws c \<Longrightarrow> trim_end (s @ [c]) = trim_end s"
  unfolding trim_end_def by (subst trim_start_rev.simps) (simp add: strip_ws_rev_def)

lemma tight_start_ascii [rust_str]: "is_ascii c \<Longrightarrow> tight_start (c # s) \<longleftrightarrow> \<not> ascii_ws c"
  by (simp add: tight_start_def strip_ws_def)

lemma tight_end_ascii [rust_str]: "is_ascii c \<Longrightarrow> tight_end (s @ [c]) \<longleftrightarrow> \<not> ascii_ws c"
  by (simp add: tight_end_def strip_ws_rev_def)

text \<open>Trimming one side keeps the other side tight.\<close>

lemma strip_any_append: "strip_any ts s = Some r \<Longrightarrow> strip_any ts (s @ x) \<noteq> None"
proof (induction ts s rule: strip_any.induct)
  case (2 t ts s)
  show ?case
  proof (cases "strip_prefix s t")
    case None
    with 2 show ?thesis by (auto split: option.splits)
  next
    case (Some q)
    then have "strip_prefix (s @ x) t = Some (q @ x)" by (simp add: strip_prefix_eq_Some)
    then show ?thesis by simp
  qed
qed simp

lemma strip_ws_append: "strip_ws s = Some r \<Longrightarrow> strip_ws (s @ x) \<noteq> None"
  using strip_any_append [of wide_ws s r x]
  by (auto simp: strip_ws_def split: list.splits if_splits)

lemma tight_start_prefix: "tight_start (s @ x) \<Longrightarrow> tight_start s"
  unfolding tight_start_def by (metis not_None_eq strip_ws_append)

lemma tight_start_trim: "tight_start (trim s)"
  by (metis tight_start_prefix tight_start_trim_start trim_def trim_end_decomp)

lemma tight_end_trim: "tight_end (trim s)"
  by (simp add: trim_def tight_end_trim_end)

lemma trim_idem [simp]: "trim (trim s) = trim s"
  by (simp add: trim_tight tight_start_trim tight_end_trim)

lemma trim_ws [rust_str]: "ascii_ws c \<Longrightarrow> trim (c # s) = trim s"
  by (simp add: trim_def trim_start_ws)

lemma strip_any_rev_before_ascii:
  assumes "is_ascii c" and "strip_any (map rev ts) u = None" and "set ts \<subseteq> set wide_ws"
  shows "strip_any (map rev ts) (u @ c # r) = None"
  using assms(2,3)
proof (induction ts)
  case (Cons t ts)
  have none: "strip_prefix u (rev t) = None" "strip_any (map rev ts) u = None"
    using Cons.prems by (auto split: option.splits)
  have "strip_prefix (u @ c # r) (rev t) = None"
  proof (rule ccontr)
    assume "strip_prefix (u @ c # r) (rev t) \<noteq> None"
    then obtain x where x: "u @ c # r = rev t @ x" by (auto simp: strip_prefix_eq_Some)
    then consider us where "u = rev t @ us" | us where "rev t = u @ c # us"
      unfolding append_eq_append_conv2 Cons_eq_append_conv by (metis append_Nil2)
    then show False
    proof cases
      case 1
      then show False using none by simp
    next
      case 2
      then have "c \<in> set t" by (metis in_set_conv_decomp set_rev)
      then show False using Cons.prems assms(1) by (auto simp: wide_ws_def is_ascii_def)
    qed
  qed
  then show ?case using Cons none by simp
qed simp

lemma tight_end_after_ascii:
  assumes "is_ascii c" "tight_end v" "v \<noteq> []"
  shows "tight_end (x @ c # v)"
proof -
  obtain d w where rv: "rev v = d # w" using assms(3) by (cases "rev v") auto
  have "strip_ws_rev (rev v @ c # rev x) = None"
    using assms(1,2) rv strip_any_rev_before_ascii [of c wide_ws "rev v" "rev x"]
    by (auto simp: strip_ws_rev_def tight_end_def split: if_splits)
  then show ?thesis by (simp add: tight_end_def)
qed

text \<open>A string that is all white space starts with white space, so a tight one survives trimming.\<close>

lemma strip_any_token: "t \<in> set ts \<Longrightarrow> strip_any ts t \<noteq> None"
proof (induction ts)
  case (Cons u ts)
  have "strip_prefix t t = Some []" by (simp add: strip_prefix_eq_Some)
  with Cons show ?case by (auto split: option.splits)
qed simp

lemma strip_ws_rev_token:
  assumes "strip_ws_rev t = Some r"
  shows "\<exists>u. t = u @ r \<and> strip_ws (rev u) \<noteq> None"
proof -
  obtain c cs where t: "t = c # cs" using assms by (cases t) (auto simp: strip_ws_rev_def)
  show ?thesis
  proof (cases "ascii_ws c")
    case True
    then show ?thesis using assms t
      by (intro exI [of _ "[c]"]) (simp add: strip_ws_rev_def strip_ws_def)
  next
    case False
    then have "\<not> is_ascii c" and "strip_any (map rev wide_ws) t = Some r"
      using assms t by (auto simp: strip_ws_rev_def split: if_splits)
    then obtain w where w: "w \<in> set wide_ws" "t = rev w @ r" by (auto dest!: strip_any_shape)
    obtain d ds where wd: "w = d # ds" using wide_ws_not_Nil [OF w(1)] by (cases w) auto
    then have "\<not> is_ascii d" using w(1) by (auto simp: wide_ws_def is_ascii_def)
    then have "strip_ws w \<noteq> None"
      using strip_any_token [OF w(1)] wd by (auto simp: strip_ws_def)
    then show ?thesis using w(2) by (intro exI [of _ "rev w"]) simp
  qed
qed

lemma trim_start_rev_Nil: "trim_start_rev t = [] \<Longrightarrow> t \<noteq> [] \<Longrightarrow> strip_ws (rev t) \<noteq> None"
proof (induction t rule: trim_start_rev.induct)
  case (1 t)
  show ?case
  proof (cases "strip_ws_rev t")
    case None
    then show ?thesis using "1.prems" by (simp add: trim_start_rev.simps [of t])
  next
    case (Some r)
    then obtain u where u: "t = u @ r" "strip_ws (rev u) \<noteq> None" using strip_ws_rev_token by blast
    show ?thesis
    proof (cases "r = []")
      case False
      then have "strip_ws (rev r) \<noteq> None"
        using "1.IH" [OF Some] "1.prems"(1) Some by (simp add: trim_start_rev.simps [of t])
      then show ?thesis using u(1) strip_ws_append by fastforce
    qed (use u in simp)
  qed
qed

lemma trim_not_Nil: "tight_start s \<Longrightarrow> s \<noteq> [] \<Longrightarrow> trim s \<noteq> []"
  using trim_start_rev_Nil [of "rev s"]
  by (auto simp: trim_def trim_start_tight trim_end_def tight_start_def)

section \<open>Lines and words\<close>

abbreviation nl :: char where "nl \<equiv> CHR 0x0A"
abbreviation cr :: char where "cr \<equiv> CHR 0x0D"
abbreviation dquote :: char where "dquote \<equiv> CHR 0x22"
abbreviation squote :: char where "squote \<equiv> CHR 0x27"
abbreviation backslash :: char where "backslash \<equiv> CHR 0x5C"

fun split_inclusive :: "char \<Rightarrow> string \<Rightarrow> string list" where
  "split_inclusive c [] = []"
| "split_inclusive c (d # ds) =
     (if d = c then [c] # split_inclusive c ds
      else (case split_inclusive c ds of [] \<Rightarrow> [[d]] | s # ss \<Rightarrow> (d # s) # ss))"

lemma concat_split_inclusive [simp]: "concat (split_inclusive c s) = s"
  by (induction s) (auto split: list.splits)

lemma split_inclusive_append [rust_str]:
  "c \<notin> set a \<Longrightarrow> split_inclusive c (a @ c # b) = (a @ [c]) # split_inclusive c b"
  by (induction a) auto

lemma split_inclusive_single [rust_str]:
  "c \<notin> set a \<Longrightarrow> a \<noteq> [] \<Longrightarrow> split_inclusive c a = [a]"
proof (induction a)
  case (Cons d a)
  then show ?case by (cases a) auto
qed simp

lemma split_inclusive_not_Nil: "x \<in> set (split_inclusive c s) \<Longrightarrow> x \<noteq> []"
  by (induction s) (auto split: list.splits if_splits)

text \<open>\<open>lines()\<close> drops the line feed of each line and a carriage return before it.\<close>

definition line_content :: "string \<Rightarrow> string" where
  "line_content seg =
     (case strip_suffix seg [nl] of
        None \<Rightarrow> seg
      | Some l \<Rightarrow> (case strip_suffix l [cr] of None \<Rightarrow> l | Some l' \<Rightarrow> l'))"

definition lines :: "string \<Rightarrow> string list" where
  "lines s = map line_content (split_inclusive nl s)"

lemma line_content_nl:
  "line_content (a @ [nl]) = (case strip_suffix a [cr] of None \<Rightarrow> a | Some l \<Rightarrow> l)"
  by (simp add: line_content_def strip_suffix_def)

lemma line_content_no_cr: "cr \<notin> set a \<Longrightarrow> line_content (a @ [nl]) = a"
  by (auto simp: line_content_nl strip_suffix_eq_Some split: option.splits)

lemma lines_Nil [simp]: "lines [] = []"
  by (simp add: lines_def)

lemma lines_append [rust_str]:
  "nl \<notin> set a \<Longrightarrow> cr \<notin> set a \<Longrightarrow> lines (a @ nl # b) = a # lines b"
  by (simp add: lines_def split_inclusive_append line_content_no_cr)

lemma line_content_subset: "set (line_content seg) \<subseteq> set seg"
  by (auto simp: line_content_def strip_suffix_eq_Some split: option.splits)

lemma split_inclusive_body:
  "seg \<in> set (split_inclusive c s) \<Longrightarrow> c \<notin> set (butlast seg)"
  by (induction s arbitrary: seg) (auto split: list.splits if_splits)

lemma lines_no_nl: "l \<in> set (lines s) \<Longrightarrow> nl \<notin> set l"
proof -
  assume "l \<in> set (lines s)"
  then obtain seg where seg: "seg \<in> set (split_inclusive nl s)" and l: "l = line_content seg"
    by (auto simp: lines_def)
  have body: "nl \<notin> set (butlast seg)" using seg by (rule split_inclusive_body)
  show ?thesis
  proof (cases "strip_suffix seg [nl]")
    case None
    then have "last seg \<noteq> nl \<or> seg = []"
      by (metis append_butlast_last_id not_None_eq strip_suffix_eq_Some)
    with body have "nl \<notin> set seg"
      by (metis append_butlast_last_id empty_iff empty_set in_set_butlastD rotate1.simps(2)
          set_ConsD set_append set_rotate1 Un_iff)
    then show ?thesis using None l by (simp add: line_content_def)
  next
    case (Some m)
    then have "seg = m @ [nl]" by (simp add: strip_suffix_eq_Some)
    with body l show ?thesis
      by (auto simp: line_content_nl strip_suffix_eq_Some split: option.splits)
  qed
qed

text \<open>Lines, each with its line feed.\<close>

definition unlines :: "string list \<Rightarrow> string" where
  "unlines ls = concat (map (\<lambda>l. l @ [nl]) ls)"

lemma unlines_append [simp]: "unlines (xs @ ys) = unlines xs @ unlines ys"
  by (simp add: unlines_def)

lemma unlines_simps [simp]: "unlines [] = []" "unlines (l # ls) = l @ nl # unlines ls"
  by (simp_all add: unlines_def)

text \<open>\<open>split_whitespace()\<close>.\<close>

fun take_word :: "string \<Rightarrow> string \<times> string" where
  "take_word [] = ([], [])"
| "take_word (c # cs) =
     (if strip_ws (c # cs) \<noteq> None then ([], c # cs)
      else (let (w, r) = take_word cs in (c # w, r)))"

lemma take_word_append: "take_word s = (w, r) \<Longrightarrow> s = w @ r"
  by (induction s arbitrary: w r) (auto split: if_splits prod.splits)

lemma take_word_length: "take_word s = (w, r) \<Longrightarrow> length s = length w + length r"
  by (drule take_word_append) simp

function split_whitespace :: "string \<Rightarrow> string list" where
  "split_whitespace s =
     (case trim_start s of [] \<Rightarrow> []
      | c # cs \<Rightarrow> (let (w, r) = take_word cs in (c # w) # split_whitespace r))"
  by pat_completeness auto
termination
proof (relation "measure length", goal_cases)
  case (2 s c cs p w r)
  obtain t where "s = t @ c # cs" using trim_start_decomp [of s] 2(1) by auto
  then have "length cs < length s" by simp
  moreover have "length r \<le> length cs" using take_word_length [of cs w r] 2(2,3) by simp
  ultimately show ?case by simp
qed simp

declare split_whitespace.simps [simp del]

lemma split_whitespace_code [code]:
  "split_whitespace [] = []"
  "split_whitespace (c # cs) =
     (case trim_start (c # cs) of [] \<Rightarrow> []
      | d # ds \<Rightarrow> (let (w, r) = take_word ds in (d # w) # split_whitespace r))"
  by (subst split_whitespace.simps, simp)+

lemma split_whitespace_not_Nil: "w \<in> set (split_whitespace s) \<Longrightarrow> w \<noteq> []"
proof (induction s rule: split_whitespace.induct)
  case (1 s)
  show ?case
  proof (cases "trim_start s")
    case Nil
    with "1.prems" show ?thesis by (simp add: split_whitespace.simps [of s])
  next
    case (Cons c cs)
    obtain w' r where tw: "take_word cs = (w', r)" by fastforce
    with "1.prems" Cons have "w = c # w' \<or> w \<in> set (split_whitespace r)"
      by (simp add: split_whitespace.simps [of s])
    then show ?thesis using "1.IH" [OF Cons tw [symmetric] refl] by auto
  qed
qed

text \<open>A word holds no white space at any position.\<close>

fun no_ws :: "string \<Rightarrow> bool" where
  "no_ws [] \<longleftrightarrow> True"
| "no_ws (c # cs) \<longleftrightarrow> strip_ws (c # cs) = None \<and> no_ws cs"

lemma wide_ws_not_ascii: "t \<in> set wide_ws \<Longrightarrow> c \<in> set t \<Longrightarrow> \<not> is_ascii c"
  by (auto simp: wide_ws_def is_ascii_def)

lemma strip_any_before_ascii:
  assumes "is_ascii c" and "strip_any ts u = None" and "set ts \<subseteq> set wide_ws"
  shows "strip_any ts (u @ c # r) = None"
  using assms(2,3)
proof (induction ts)
  case (Cons t ts)
  have none: "strip_prefix u t = None" "strip_any ts u = None"
    using Cons.prems by (auto split: option.splits)
  have "strip_prefix (u @ c # r) t = None"
  proof (rule ccontr)
    assume "strip_prefix (u @ c # r) t \<noteq> None"
    then obtain x where x: "u @ c # r = t @ x" by (auto simp: strip_prefix_eq_Some)
    then consider us where "u = t @ us" | us where "t = u @ c # us"
      by (auto simp: append_eq_append_conv2 Cons_eq_append_conv)
    then show False
    proof cases
      case 1
      then show False using none by simp
    next
      case 2
      then show False using Cons.prems assms(1) wide_ws_not_ascii by fastforce
    qed
  qed
  then show ?case using Cons none by simp
qed simp

lemma strip_ws_before_ascii:
  "is_ascii c \<Longrightarrow> u \<noteq> [] \<Longrightarrow> strip_ws u = None \<Longrightarrow> strip_ws (u @ c # r) = None"
  using strip_any_before_ascii [of c wide_ws u r]
  by (cases u) (auto simp: strip_ws_def split: if_splits)

lemma take_word_no_ws:
  "no_ws u \<Longrightarrow> ascii_ws c \<Longrightarrow> is_ascii c \<Longrightarrow> take_word (u @ c # r) = (u, c # r)"
proof (induction u)
  case Nil
  then show ?case by (simp add: strip_ws_def)
next
  case (Cons d u)
  then show ?case using strip_ws_before_ascii [of c "d # u" r] by simp
qed

lemma take_word_no_ws_end: "no_ws u \<Longrightarrow> take_word u = (u, [])"
  by (induction u) auto

lemma no_ws_tight: "no_ws (c # u) \<Longrightarrow> tight_start (c # u)"
  by (simp add: tight_start_def)

lemma split_whitespace_word [rust_str]:
  assumes "no_ws u" "u \<noteq> []" "ascii_ws c" "is_ascii c"
  shows "split_whitespace (u @ c # r) = u # split_whitespace r"
proof -
  obtain d v where u: "u = d # v" using assms(2) by (cases u) auto
  have "tight_start (u @ c # r)"
    using assms u strip_ws_before_ascii [of c u r] by (simp add: tight_start_def)
  then have "split_whitespace (u @ c # r) = u # split_whitespace (c # r)"
    using assms u by (subst split_whitespace.simps) (simp add: trim_start_tight take_word_no_ws)
  also have "split_whitespace (c # r) = split_whitespace r"
    by (subst (1 2) split_whitespace.simps) (simp add: trim_start_ws assms(3))
  finally show ?thesis .
qed

lemma split_whitespace_last [rust_str]:
  assumes "no_ws u" "u \<noteq> []"
  shows "split_whitespace u = [u]"
proof -
  obtain d v where u: "u = d # v" using assms(2) by (cases u) auto
  have "split_whitespace [] = []" by (subst split_whitespace.simps) simp
  then show ?thesis
    using assms u by (subst split_whitespace.simps)
      (simp add: trim_start_tight no_ws_tight take_word_no_ws_end)
qed

section \<open>Characters of a string, numbers, and debug formatting\<close>

text \<open>The characters of a string, each as its UTF-8 bytes.\<close>

function chars :: "string \<Rightarrow> string list" where
  "chars [] = []"
| "chars (c # cs) = (c # takeWhile is_continuation cs) # chars (dropWhile is_continuation cs)"
  by pat_completeness auto
termination
  by (relation "measure length") (auto simp: length_dropWhile_le le_imp_less_Suc)

lemma concat_chars [simp]: "concat (chars s) = s"
  by (induction s rule: chars.induct) simp_all

lemma length_chars_le: "length (chars s) \<le> length s"
proof (induction s rule: chars.induct)
  case (2 c cs)
  have "length (dropWhile is_continuation cs) \<le> length cs" by (rule length_dropWhile_le)
  with 2 show ?case by simp
qed simp

text \<open>Whether a byte range may start or end at \<open>i\<close>: \<open>is_char_boundary\<close>.\<close>

definition is_char_boundary :: "string \<Rightarrow> nat \<Rightarrow> bool" where
  "is_char_boundary s i \<longleftrightarrow>
     i = 0 \<or> i = length s \<or> (i < length s \<and> \<not> is_continuation (s ! i))"

text \<open>
  Slicing \<open>&s[..i]\<close> panics when \<open>i\<close> is out of range or inside a character: the panic is \<open>None\<close>.
\<close>

definition slice_to :: "string \<Rightarrow> nat \<Rightarrow> string option" where
  "slice_to s i = (if is_char_boundary s i then Some (take i s) else None)"

text \<open>\<open>str::parse::<u32>()\<close>: an optional plus sign, then decimal digits, without overflow.\<close>

definition digit_val :: "char \<Rightarrow> int" where
  "digit_val c = of_char c - 48"

definition digits_val :: "string \<Rightarrow> int" where
  "digits_val s = fold (\<lambda>c v. 10 * v + digit_val c) s 0"

definition parse_unsigned :: "int \<Rightarrow> string \<Rightarrow> int option" where
  "parse_unsigned bound s =
     (let d = (case s of [] \<Rightarrow> [] | c # cs \<Rightarrow> if c = CHR ''+'' then cs else s)
      in if d = [] \<or> \<not> list_all is_ascii_digit d \<or> bound \<le> digits_val d then None
         else Some (digits_val d))"

definition parse_u32 :: "string \<Rightarrow> u32 option" where
  "parse_u32 s = map_option of_int (parse_unsigned (2 ^ 32) s)"

text \<open>
  \<open>{:?}\<close> of a string. Which characters outside ASCII Rust writes as an escape is a Unicode table
  of the standard library: it is the argument \<open>np\<close> (not printable, or a grapheme extension), and a
  character with \<open>np\<close> is written with its code point.
\<close>

definition code_point :: "string \<Rightarrow> nat" where
  "code_point ch =
     (case ch of [] \<Rightarrow> 0
      | c # cs \<Rightarrow>
          fold (\<lambda>d v. v * 64 + of_char d mod 64) cs
            (let b = of_char c in if b < 128 then b else if b < 224 then b mod 32
             else if b < 240 then b mod 16 else b mod 8))"

definition debug_char :: "(string \<Rightarrow> bool) \<Rightarrow> string \<Rightarrow> string" where
  "debug_char np ch =
     (let esc = [backslash, CHR ''u'', CHR 0x7B] @ show_base 16 (code_point ch) @ [CHR 0x7D] in
      if ch = [dquote] then [backslash, dquote]
      else if ch = [backslash] then [backslash, backslash]
      else if ch = [nl] then [backslash, CHR ''n'']
      else if ch = [cr] then [backslash, CHR ''r'']
      else if ch = [CHR 0x09] then [backslash, CHR ''t'']
      else if ch = [CHR 0x00] then [backslash, CHR ''0'']
      else if (case ch of [c] \<Rightarrow> is_ascii c \<and> ((of_char c :: nat) < 32 \<or> c = CHR 0x7F) | _ \<Rightarrow> False)
      then esc
      else if (case ch of c # _ \<Rightarrow> \<not> is_ascii c | [] \<Rightarrow> False) \<and> np ch then esc
      else ch)"

definition debug_str :: "(string \<Rightarrow> bool) \<Rightarrow> string \<Rightarrow> string" where
  "debug_str np s = [dquote] @ concat (map (debug_char np) (chars s)) @ [dquote]"

text \<open>A string that debug formatting only puts between quotes.\<close>

definition debug_plain :: "(string \<Rightarrow> bool) \<Rightarrow> string \<Rightarrow> bool" where
  "debug_plain np s \<longleftrightarrow> list_all (\<lambda>ch. debug_char np ch = ch) (chars s)"

lemma debug_str_plain [rust_str]: "debug_plain np s \<Longrightarrow> debug_str np s = [dquote] @ s @ [dquote]"
proof -
  assume "debug_plain np s"
  then have "map (debug_char np) (chars s) = map id (chars s)"
    by (simp add: debug_plain_def list_all_iff cong: map_cong)
  then show ?thesis by (simp add: debug_str_def)
qed

lemma chars_ascii: "list_all is_ascii s \<Longrightarrow> chars s = map (\<lambda>c. [c]) s"
proof (induction s rule: chars.induct)
  case (2 c cs)
  have "takeWhile is_continuation cs = []"
    using 2 by (cases cs) (auto simp: is_ascii_def is_continuation_def)
  moreover from this have "dropWhile is_continuation cs = cs"
    by (metis append_Nil takeWhile_dropWhile_id)
  ultimately show ?case using 2 by simp
qed simp

definition plain_ascii :: "char \<Rightarrow> bool" where
  "plain_ascii c \<longleftrightarrow>
     32 \<le> (of_char c :: nat) \<and> (of_char c :: nat) < 127 \<and> c \<noteq> dquote \<and> c \<noteq> backslash"

lemma debug_plain_ascii: "list_all plain_ascii s \<Longrightarrow> debug_plain np s"
proof -
  assume plain: "list_all plain_ascii s"
  have "is_ascii c" if "plain_ascii c" for c
    using that unfolding plain_ascii_def is_ascii_def by linarith
  with plain have ascii: "list_all is_ascii s" by (simp add: list_all_iff)
  have "debug_char np [c] = [c]" if "plain_ascii c" for c
  proof -
    have c: "32 \<le> (of_char c :: nat)" "(of_char c :: nat) < 127" "c \<noteq> dquote" "c \<noteq> backslash"
      using that unfolding plain_ascii_def by blast+
    have "c \<noteq> nl" "c \<noteq> cr" "c \<noteq> CHR 0x09" "c \<noteq> CHR 0x00" "c \<noteq> CHR 0x7F"
      using c(1,2) by auto
    with c show ?thesis by (simp add: debug_char_def is_ascii_def Let_def)
  qed
  with plain show ?thesis by (simp add: debug_plain_def chars_ascii [OF ascii] list_all_iff)
qed

text \<open>Digits are no line ends.\<close>

lemma digit_char_printable: "d < 16 \<Longrightarrow> digit_char d \<noteq> nl \<and> digit_char d \<noteq> cr"
proof -
  assume "d < 16"
  then have "48 \<le> (of_char (digit_char d) :: nat)" by (simp add: digit_char_def)
  then show ?thesis by auto
qed

lemma show_base_printable: "2 \<le> b \<Longrightarrow> b \<le> 16 \<Longrightarrow> nl \<notin> set (show_base b n) \<and> cr \<notin> set (show_base b n)"
proof (induction n rule: less_induct)
  case (less n)
  show ?case
  proof (cases "n < b")
    case True
    then show ?thesis using digit_char_printable [of n] less.prems by (subst (1 2) show_base.simps) auto
  next
    case False
    then have "n div b < n" using less.prems by (intro div_less_dividend) auto
    moreover have "n mod b < 16" using less.prems mod_less_divisor [of b n] by linarith
    ultimately show ?thesis
      using False less.prems less.IH [of "n div b"] digit_char_printable [of "n mod b"] by (subst (1 2) show_base.simps) auto
  qed
qed

section \<open>Padding\<close>

text \<open>The width of a format specifier counts characters.\<close>

definition pad_right :: "nat \<Rightarrow> string \<Rightarrow> string" where
  "pad_right n s = s @ replicate (n - length (chars s)) (CHR '' '')"

definition pad_left :: "nat \<Rightarrow> string \<Rightarrow> string" where
  "pad_left n s = replicate (n - length (chars s)) (CHR '' '') @ s"

text \<open>The debug format of an optional string.\<close>

definition debug_opt :: "(string \<Rightarrow> bool) \<Rightarrow> string option \<Rightarrow> string" where
  "debug_opt np v = (case v of None \<Rightarrow> ''None'' | Some s \<Rightarrow> ''Some('' @ debug_str np s @ '')'')"

end
