(* ===== verification/Frontmatter.thy ===== *)
theory Frontmatter
  imports RustStr
begin

text \<open>
  The OKF frontmatter of \<open>wkp-core/src/frontmatter.rs\<close>: the data model, the tolerant parser
  \<open>parse\<close> and the serializer \<open>render\<close>, with the enum round trips, the recovery of the body and the
  round trip of \<open>parse\<close> after \<open>render\<close>.
\<close>

section \<open>Data model\<close>

datatype item_type =
  ProjectState | Knowledge | Reference | Feedback | Skill | Instruction | Memory | OtherType string

definition parse_item_type :: "string \<Rightarrow> item_type" where
  "parse_item_type raw =
     (if raw = ''project-state'' then ProjectState
      else if raw = ''knowledge'' then Knowledge
      else if raw = ''reference'' then Reference
      else if raw = ''feedback'' then Feedback
      else if raw = ''skill'' then Skill
      else if raw = ''instruction'' then Instruction
      else if raw = ''memory'' then Memory
      else OtherType raw)"

fun show_item_type :: "item_type \<Rightarrow> string" where
  "show_item_type ProjectState = ''project-state''"
| "show_item_type Knowledge = ''knowledge''"
| "show_item_type Reference = ''reference''"
| "show_item_type Feedback = ''feedback''"
| "show_item_type Skill = ''skill''"
| "show_item_type Instruction = ''instruction''"
| "show_item_type Memory = ''memory''"
| "show_item_type (OtherType s) = s"

datatype scope = UserScope | ProjectScope | OrgScope | OtherScope string

definition parse_scope :: "string \<Rightarrow> scope" where
  "parse_scope raw =
     (if raw = ''user'' then UserScope
      else if raw = ''project'' then ProjectScope
      else if raw = ''org'' then OrgScope
      else OtherScope raw)"

fun show_scope :: "scope \<Rightarrow> string" where
  "show_scope UserScope = ''user''"
| "show_scope ProjectScope = ''project''"
| "show_scope OrgScope = ''org''"
| "show_scope (OtherScope s) = s"

datatype visibility = Shared | Private | OtherVisibility string

definition parse_visibility :: "string \<Rightarrow> visibility" where
  "parse_visibility raw =
     (if raw = ''shared'' then Shared
      else if raw = ''private'' then Private
      else OtherVisibility raw)"

fun show_visibility :: "visibility \<Rightarrow> string" where
  "show_visibility Shared = ''shared''"
| "show_visibility Private = ''private''"
| "show_visibility (OtherVisibility s) = s"

datatype confidence = Stated | Inferred | Proposed | OtherConfidence string

definition parse_confidence :: "string \<Rightarrow> confidence" where
  "parse_confidence raw =
     (if raw = ''stated'' then Stated
      else if raw = ''inferred'' then Inferred
      else if raw = ''proposed'' then Proposed
      else OtherConfidence raw)"

fun show_confidence :: "confidence \<Rightarrow> string" where
  "show_confidence Stated = ''stated''"
| "show_confidence Inferred = ''inferred''"
| "show_confidence Proposed = ''proposed''"
| "show_confidence (OtherConfidence s) = s"

datatype source_kind = Conversation | FileSource | ToolSource | ImportSource | OtherSource string

definition parse_source_kind :: "string \<Rightarrow> source_kind" where
  "parse_source_kind raw =
     (if raw = ''conversation'' then Conversation
      else if raw = ''file'' then FileSource
      else if raw = ''tool'' then ToolSource
      else if raw = ''import'' then ImportSource
      else OtherSource raw)"

fun show_source_kind :: "source_kind \<Rightarrow> string" where
  "show_source_kind Conversation = ''conversation''"
| "show_source_kind FileSource = ''file''"
| "show_source_kind ToolSource = ''tool''"
| "show_source_kind ImportSource = ''import''"
| "show_source_kind (OtherSource s) = s"

record provenance =
  prov_actor :: "string option"
  prov_session :: "string option"
  prov_source :: "source_kind option"

record frontmatter =
  fm_title :: "string option"
  fm_item_type :: "item_type option"
  fm_scope :: "scope option"
  fm_workspace :: "string option"
  fm_visibility :: "visibility option"
  fm_provenance :: provenance
  fm_confidence :: "confidence option"
  fm_expires :: "string option"
  fm_tokens_raw :: "string option"
  fm_tokens :: "u32 option"
  fm_tags :: "string list"
  fm_refs :: "string list"
  fm_updated :: "string option"

definition default_provenance :: provenance where
  "default_provenance = \<lparr>prov_actor = None, prov_session = None, prov_source = None\<rparr>"

definition default_frontmatter :: frontmatter where
  "default_frontmatter =
     \<lparr>fm_title = None, fm_item_type = None, fm_scope = None, fm_workspace = None,
      fm_visibility = None, fm_provenance = default_provenance, fm_confidence = None,
      fm_expires = None, fm_tokens_raw = None, fm_tokens = None, fm_tags = [], fm_refs = [],
      fm_updated = None\<rparr>"

text \<open>The warnings of a parse, one constructor per message, and the message text.\<close>

datatype warning =
  Unterminated
| UnexpectedIndent string
| NoKey string
| TopLevelProvenance string
| MalformedProvenance string

definition warning_text :: "(string \<Rightarrow> bool) \<Rightarrow> warning \<Rightarrow> string" where
  "warning_text np w =
     (case w of
        Unterminated \<Rightarrow> ''unterminated frontmatter block: no closing `---` line found; ''
          @ ''treating entire file as body''
      | UnexpectedIndent c \<Rightarrow> ''ignoring unexpected indented line: '' @ debug_str np c
      | NoKey c \<Rightarrow> ''ignoring line with no `key:`: '' @ debug_str np c
      | TopLevelProvenance k \<Rightarrow>
          ''`'' @ k @ ''` found at top level, expected under `provenance:`; using it anyway''
      | MalformedProvenance c \<Rightarrow> ''ignoring malformed `provenance` line: '' @ debug_str np c)"

record parse_result =
  pr_frontmatter :: frontmatter
  pr_body :: string
  pr_warnings :: "warning list"

section \<open>The parser\<close>

definition is_delimiter_line :: "string \<Rightarrow> bool" where
  "is_delimiter_line line \<longleftrightarrow> trim (trim_end_chars [nl, cr] line) = ''---''"

definition strip_opening_delimiter :: "string \<Rightarrow> string option" where
  "strip_opening_delimiter input =
     (case split_inclusive nl input of
        [] \<Rightarrow> None
      | first # _ \<Rightarrow> if is_delimiter_line first then Some (drop (length first) input) else None)"

fun closing_loop :: "string \<Rightarrow> nat \<Rightarrow> string list \<Rightarrow> (string \<times> string) option" where
  "closing_loop after_open offset [] = None"
| "closing_loop after_open offset (line # ls) =
     (if is_delimiter_line line
      then Some (take offset after_open, drop (offset + length line) after_open)
      else closing_loop after_open (offset + length line) ls)"

definition split_at_closing_delimiter :: "string \<Rightarrow> (string \<times> string) option" where
  "split_at_closing_delimiter after_open =
     closing_loop after_open 0 (split_inclusive nl after_open)"

record line =
  line_indent :: nat
  line_text :: string

definition logical_line :: "string \<Rightarrow> line option" where
  "logical_line raw =
     (let content = trim_end_chars [cr] raw;
          trimmed = trim_start_chars [CHR '' ''] content;
          indent = length content - length trimmed;
          trimmed = trim_end trimmed
      in if trimmed = [] \<or> starts_with trimmed ''#'' then None
         else Some \<lparr>line_indent = indent, line_text = trimmed\<rparr>)"

definition logical_lines :: "string \<Rightarrow> line list" where
  "logical_lines block = List.map_filter logical_line (lines block)"

definition split_key_value :: "string \<Rightarrow> (string \<times> string) option" where
  "split_key_value content =
     (case split_once content '':'' of
        None \<Rightarrow> None
      | Some (key, rest) \<Rightarrow> (let key = trim key in if key = [] then None else Some (key, trim rest)))"

definition quoted_by :: "char \<Rightarrow> string \<Rightarrow> bool" where
  "quoted_by q v \<longleftrightarrow> 2 \<le> length v \<and> starts_with v [q] \<and> ends_with v [q]"

definition unquote :: "string \<Rightarrow> string" where
  "unquote value =
     (let v = trim value in
      if quoted_by dquote v then drop 1 (take (length v - 1) v)
      else if quoted_by squote v then drop 1 (take (length v - 1) v)
      else v)"

definition is_null :: "string \<Rightarrow> bool" where
  "is_null value \<longleftrightarrow> value = ''null'' \<or> value = ''~'' \<or> value = ''''"

definition parse_inline_list :: "string \<Rightarrow> string list option" where
  "parse_inline_list value =
     (case strip_prefix value ''['' of
        None \<Rightarrow> None
      | Some v \<Rightarrow>
          (case strip_suffix v '']'' of
             None \<Rightarrow> None
           | Some inner \<Rightarrow>
               (if trim inner = [] then Some []
                else Some (filter (\<lambda>item. item \<noteq> [])
                       (map (\<lambda>item. unquote (trim item)) (split_char (CHR '','') inner))))))"

definition parse_tokens :: "string \<Rightarrow> u32 option" where
  "parse_tokens raw =
     (let digits = filter is_ascii_digit raw in if digits = [] then None else parse_u32 digits)"

definition single_item :: "string \<Rightarrow> string list" where
  "single_item value = (if is_null value then [] else [value])"

definition opt_string :: "string \<Rightarrow> string option" where
  "opt_string value = (if is_null value then None else Some value)"

definition apply_provenance_field :: "provenance \<Rightarrow> string \<Rightarrow> string \<Rightarrow> provenance" where
  "apply_provenance_field prov key value =
     (if key = ''actor'' then prov\<lparr>prov_actor := opt_string value\<rparr>
      else if key = ''session'' then prov\<lparr>prov_session := opt_string value\<rparr>
      else if key = ''source''
      then prov\<lparr>prov_source := map_option parse_source_kind (opt_string value)\<rparr>
      else prov)"

definition list_value :: "string \<Rightarrow> string list" where
  "list_value unquoted =
     (case parse_inline_list unquoted of Some xs \<Rightarrow> xs | None \<Rightarrow> single_item unquoted)"

text \<open>
  \<open>apply_scalar_value\<close> sets one field and may push a warning: the model returns the frontmatter
  and the warnings pushed.
\<close>

definition apply_scalar_value ::
  "frontmatter \<Rightarrow> string \<Rightarrow> string \<Rightarrow> frontmatter \<times> warning list" where
  "apply_scalar_value fm key value =
     (let unquoted = unquote value in
      if key = ''title'' then (fm\<lparr>fm_title := opt_string unquoted\<rparr>, [])
      else if key = ''type''
      then (fm\<lparr>fm_item_type := map_option parse_item_type (opt_string unquoted)\<rparr>, [])
      else if key = ''scope''
      then (fm\<lparr>fm_scope := map_option parse_scope (opt_string unquoted)\<rparr>, [])
      else if key = ''workspace'' then (fm\<lparr>fm_workspace := opt_string unquoted\<rparr>, [])
      else if key = ''visibility''
      then (fm\<lparr>fm_visibility := map_option parse_visibility (opt_string unquoted)\<rparr>, [])
      else if key = ''confidence''
      then (fm\<lparr>fm_confidence := map_option parse_confidence (opt_string unquoted)\<rparr>, [])
      else if key = ''expires'' then (fm\<lparr>fm_expires := opt_string unquoted\<rparr>, [])
      else if key = ''updated'' then (fm\<lparr>fm_updated := opt_string unquoted\<rparr>, [])
      else if key = ''tokens''
      then (if is_null unquoted then (fm\<lparr>fm_tokens_raw := None, fm_tokens := None\<rparr>, [])
            else (fm\<lparr>fm_tokens_raw := Some unquoted, fm_tokens := parse_tokens unquoted\<rparr>, []))
      else if key = ''tags'' then (fm\<lparr>fm_tags := list_value unquoted\<rparr>, [])
      else if key = ''refs'' then (fm\<lparr>fm_refs := list_value unquoted\<rparr>, [])
      else if key = ''actor'' \<or> key = ''session'' \<or> key = ''source''
      then (fm\<lparr>fm_provenance := apply_provenance_field (fm_provenance fm) key unquoted\<rparr>,
            [TopLevelProvenance key])
      else (fm, []))"

fun apply_provenance_children ::
  "provenance \<Rightarrow> line list \<Rightarrow> provenance \<times> warning list" where
  "apply_provenance_children prov [] = (prov, [])"
| "apply_provenance_children prov (child # cs) =
     (case split_key_value (line_text child) of
        Some (k, v) \<Rightarrow> apply_provenance_children (apply_provenance_field prov k (unquote v)) cs
      | None \<Rightarrow> (let (p, ws) = apply_provenance_children prov cs
                in (p, MalformedProvenance (line_text child) # ws)))"

definition block_items :: "line list \<Rightarrow> string list" where
  "block_items children =
     filter (\<lambda>item. item \<noteq> [])
       (map (\<lambda>item. unquote (trim item))
         (List.map_filter (\<lambda>child. strip_prefix (line_text child) ''-'') children))"

definition apply_block_value ::
  "frontmatter \<Rightarrow> string \<Rightarrow> line list \<Rightarrow> frontmatter \<times> warning list" where
  "apply_block_value fm key children =
     (if key = ''provenance''
      then (let (p, ws) = apply_provenance_children (fm_provenance fm) children
            in (fm\<lparr>fm_provenance := p\<rparr>, ws))
      else if key = ''tags'' then (fm\<lparr>fm_tags := block_items children\<rparr>, [])
      else if key = ''refs'' then (fm\<lparr>fm_refs := block_items children\<rparr>, [])
      else (fm, []))"

text \<open>
  The loop of \<open>parse_block\<close>, over the lines from index \<open>i\<close> on: an indented line or a line without a
  key is skipped with a warning, a key with no value takes the indented lines below it.
\<close>

function parse_lines ::
  "line list \<Rightarrow> frontmatter \<Rightarrow> warning list \<Rightarrow> frontmatter \<times> warning list" where
  "parse_lines [] fm ws = (fm, ws)"
| "parse_lines (l # ls) fm ws =
     (if line_indent l \<noteq> 0 then parse_lines ls fm (ws @ [UnexpectedIndent (line_text l)])
      else (case split_key_value (line_text l) of
          None \<Rightarrow> parse_lines ls fm (ws @ [NoKey (line_text l)])
        | Some (key, rest) \<Rightarrow>
            (if rest = []
             then (let children = takeWhile (\<lambda>c. 0 < line_indent c) ls;
                       (fm', ws') = apply_block_value fm key children
                   in parse_lines (dropWhile (\<lambda>c. 0 < line_indent c) ls) fm' (ws @ ws'))
             else (let (fm', ws') = apply_scalar_value fm key rest
                   in parse_lines ls fm' (ws @ ws')))))"
  by pat_completeness auto
termination
  by (relation "measure (\<lambda>(ls, _, _). length ls)")
     (auto simp: length_dropWhile_le le_imp_less_Suc)

definition parse_block :: "string \<Rightarrow> frontmatter \<times> warning list" where
  "parse_block block = parse_lines (logical_lines block) default_frontmatter []"

definition parse :: "string \<Rightarrow> parse_result" where
  "parse input =
     (case strip_opening_delimiter input of
        None \<Rightarrow> \<lparr>pr_frontmatter = default_frontmatter, pr_body = input, pr_warnings = []\<rparr>
      | Some after_open \<Rightarrow>
          (case split_at_closing_delimiter after_open of
             None \<Rightarrow> \<lparr>pr_frontmatter = default_frontmatter, pr_body = input,
                      pr_warnings = [Unterminated]\<rparr>
           | Some (block, body) \<Rightarrow>
               (let (fm, ws) = parse_block block
                in \<lparr>pr_frontmatter = fm, pr_body = body, pr_warnings = ws\<rparr>)))"

section \<open>The serializer\<close>

definition opt_field :: "string \<Rightarrow> string option \<Rightarrow> string" where
  "opt_field key value = (case value of None \<Rightarrow> [] | Some v \<Rightarrow> key @ '': '' @ v @ [nl])"

definition has_provenance :: "provenance \<Rightarrow> bool" where
  "has_provenance p \<longleftrightarrow> prov_actor p \<noteq> None \<or> prov_session p \<noteq> None \<or> prov_source p \<noteq> None"

definition render_list :: "string list \<Rightarrow> string" where
  "render_list xs = ''['' @ join '', '' xs @ '']''"

definition render :: "(string \<Rightarrow> bool) \<Rightarrow> frontmatter \<Rightarrow> string" where
  "render np fm =
     ''---'' @ [nl]
     @ opt_field ''title'' (map_option (debug_str np) (fm_title fm))
     @ opt_field ''type'' (map_option show_item_type (fm_item_type fm))
     @ opt_field ''scope'' (map_option show_scope (fm_scope fm))
     @ opt_field ''workspace'' (fm_workspace fm)
     @ opt_field ''visibility'' (map_option show_visibility (fm_visibility fm))
     @ (let p = fm_provenance fm in
        if has_provenance p
        then ''provenance:'' @ [nl]
          @ opt_field ''  actor'' (map_option (debug_str np) (prov_actor p))
          @ opt_field ''  session'' (map_option (debug_str np) (prov_session p))
          @ opt_field ''  source'' (map_option show_source_kind (prov_source p))
        else [])
     @ opt_field ''confidence'' (map_option show_confidence (fm_confidence fm))
     @ opt_field ''expires'' (map_option (debug_str np) (fm_expires fm))
     @ (case fm_tokens_raw fm of
          Some r \<Rightarrow> opt_field ''tokens'' (Some r)
        | None \<Rightarrow> opt_field ''tokens'' (map_option (\<lambda>t. show_nat (unat t)) (fm_tokens fm)))
     @ (if fm_tags fm = [] then [] else opt_field ''tags'' (Some (render_list (fm_tags fm))))
     @ (if fm_refs fm = [] then [] else opt_field ''refs'' (Some (render_list (fm_refs fm))))
     @ opt_field ''updated'' (map_option (debug_str np) (fm_updated fm))
     @ ''---'' @ [nl]"

section \<open>Enum round trips\<close>

lemmas enum_defs = parse_item_type_def parse_scope_def parse_visibility_def parse_confidence_def
  parse_source_kind_def

lemma show_parse_enums:
  "show_item_type (parse_item_type s) = s"
  "show_scope (parse_scope s) = s"
  "show_visibility (parse_visibility s) = s"
  "show_confidence (parse_confidence s) = s"
  "show_source_kind (parse_source_kind s) = s"
  by (simp_all add: enum_defs)

text \<open>
  A value is canonical when its fallback constructor does not hold the name of a known value: these
  are the values the parser makes.
\<close>

definition canonical_type :: "item_type \<Rightarrow> bool" where
  "canonical_type t \<longleftrightarrow> parse_item_type (show_item_type t) = t"

definition canonical_scope :: "scope \<Rightarrow> bool" where
  "canonical_scope t \<longleftrightarrow> parse_scope (show_scope t) = t"

definition canonical_visibility :: "visibility \<Rightarrow> bool" where
  "canonical_visibility t \<longleftrightarrow> parse_visibility (show_visibility t) = t"

definition canonical_confidence :: "confidence \<Rightarrow> bool" where
  "canonical_confidence t \<longleftrightarrow> parse_confidence (show_confidence t) = t"

definition canonical_source :: "source_kind \<Rightarrow> bool" where
  "canonical_source t \<longleftrightarrow> parse_source_kind (show_source_kind t) = t"

lemmas canonical_defs = canonical_type_def canonical_scope_def canonical_visibility_def
  canonical_confidence_def canonical_source_def

lemma canonical_parse:
  "canonical_type (parse_item_type s)" "canonical_scope (parse_scope s)"
  "canonical_visibility (parse_visibility s)" "canonical_confidence (parse_confidence s)"
  "canonical_source (parse_source_kind s)"
  by (simp_all add: canonical_defs show_parse_enums)

section \<open>The body is always recoverable\<close>

lemma closing_loop_Some:
  assumes "closing_loop s off ls = Some (a, b)" and "s = pre @ concat ls" and "off = length pre"
  shows "\<exists>l1 l l2. ls = l1 @ l # l2 \<and> (\<forall>x \<in> set l1. \<not> is_delimiter_line x) \<and> is_delimiter_line l
           \<and> a = pre @ concat l1 \<and> b = concat l2"
  using assms
proof (induction s off ls arbitrary: pre rule: closing_loop.induct)
  case (2 s off line ls)
  show ?case
  proof (cases "is_delimiter_line line")
    case True
    with "2.prems" show ?thesis by (intro exI [of _ "[]"] exI [of _ line] exI [of _ ls]) auto
  next
    case False
    with "2.prems" "2.IH" [of "pre @ line"] obtain l1 l l2 where
      "ls = l1 @ l # l2" "\<forall>x \<in> set l1. \<not> is_delimiter_line x" "is_delimiter_line l"
      "a = pre @ line @ concat l1" "b = concat l2" by auto
    with False show ?thesis by (intro exI [of _ "line # l1"] exI [of _ l] exI [of _ l2]) auto
  qed
qed simp

lemma closing_loop_forward:
  "\<forall>x \<in> set l1. \<not> is_delimiter_line x \<Longrightarrow> is_delimiter_line l \<Longrightarrow> s = pre @ concat (l1 @ l # l2)
   \<Longrightarrow> closing_loop s (length pre) (l1 @ l # l2) = Some (pre @ concat l1, concat l2)"
proof (induction l1 arbitrary: pre)
  case (Cons x l1)
  from Cons.IH [of "pre @ x"] Cons.prems show ?case by (simp add: add.commute)
qed simp

lemma closing_loop_None: "closing_loop s off ls = None \<longleftrightarrow> (\<forall>x \<in> set ls. \<not> is_delimiter_line x)"
  by (induction s off ls rule: closing_loop.induct) auto

lemma strip_opening_Some:
  "strip_opening_delimiter input = Some r \<Longrightarrow> \<exists>l. input = l @ r \<and> is_delimiter_line l"
proof -
  assume open_Some: "strip_opening_delimiter input = Some r"
  then obtain l ls where l: "split_inclusive nl input = l # ls" "is_delimiter_line l"
    "r = drop (length l) input"
    by (auto simp: strip_opening_delimiter_def split: list.splits if_splits)
  have "input = l @ concat ls" using concat_split_inclusive [of nl input] l(1) by simp
  then show ?thesis using l by auto
qed

lemma split_at_closing_Some:
  assumes "split_at_closing_delimiter s = Some (block, body)"
  shows "\<exists>close. s = block @ close @ body \<and> is_delimiter_line close"
proof -
  from closing_loop_Some [where pre = "[]", OF assms [unfolded split_at_closing_delimiter_def]]
  obtain l1 l l2 where *: "split_inclusive nl s = l1 @ l # l2" "is_delimiter_line l"
    "block = concat l1" "body = concat l2" by auto
  then have "s = concat l1 @ l @ concat l2"
    using concat_split_inclusive [of nl s] by simp
  with * show ?thesis by blast
qed

lemma parse_cases:
  obtains
    (no_block) "strip_opening_delimiter input = None"
      "parse input = \<lparr>pr_frontmatter = default_frontmatter, pr_body = input, pr_warnings = []\<rparr>"
  | (unterminated) after_open where "strip_opening_delimiter input = Some after_open"
      "split_at_closing_delimiter after_open = None"
      "parse input = \<lparr>pr_frontmatter = default_frontmatter, pr_body = input,
                       pr_warnings = [Unterminated]\<rparr>"
  | (block) open_line block close body fm ws where
      "input = open_line @ block @ close @ body" "is_delimiter_line open_line"
      "is_delimiter_line close" "parse_block block = (fm, ws)"
      "parse input = \<lparr>pr_frontmatter = fm, pr_body = body, pr_warnings = ws\<rparr>"
proof (cases "strip_opening_delimiter input")
  case None
  then show ?thesis by (intro no_block) (simp_all add: parse_def)
next
  case (Some after_open)
  show ?thesis
  proof (cases "split_at_closing_delimiter after_open")
    case None
    with Some show ?thesis by (intro unterminated) (simp_all add: parse_def)
  next
    case closed: (Some bb)
    obtain blk body where bb: "bb = (blk, body)" by fastforce
    obtain fm ws where fm: "parse_block blk = (fm, ws)" by fastforce
    obtain l where l: "input = l @ after_open" "is_delimiter_line l"
      using strip_opening_Some [OF Some] by blast
    obtain close where c: "after_open = blk @ close @ body" "is_delimiter_line close"
      using split_at_closing_Some closed bb by blast
    have "parse input = \<lparr>pr_frontmatter = fm, pr_body = body, pr_warnings = ws\<rparr>"
      using Some closed bb fm by (simp add: parse_def)
    with l c fm show ?thesis by (intro block [of l blk close body fm ws]) simp_all
  qed
qed

text \<open>
  Parsing never loses the body: the input is the returned body behind either nothing (no
  frontmatter block, or an unterminated one: then the frontmatter is the default and the whole file
  is the body), or an opening delimiter line, a block and a closing delimiter line, and then the
  frontmatter and the warnings are those of that block.
\<close>

lemma parse_body_recoverable:
  "(pr_body (parse input) = input \<and> pr_frontmatter (parse input) = default_frontmatter
      \<and> pr_warnings (parse input) \<in> {[], [Unterminated]})
   \<or> (\<exists>open_line block close.
        input = open_line @ block @ close @ pr_body (parse input)
        \<and> is_delimiter_line open_line \<and> is_delimiter_line close
        \<and> parse_block block = (pr_frontmatter (parse input), pr_warnings (parse input)))"
  by (cases rule: parse_cases [of input]) fastforce+

section \<open>Parsing what the serializer writes\<close>

text \<open>
  The lines of a rendered block, without their line feeds; \<open>unlines\<close> puts the line feeds back.
\<close>

definition opt_line :: "string \<Rightarrow> string option \<Rightarrow> string list" where
  "opt_line key value = (case value of None \<Rightarrow> [] | Some v \<Rightarrow> [key @ '': '' @ v])"

definition list_line :: "string \<Rightarrow> string list \<Rightarrow> string list" where
  "list_line key xs = (if xs = [] then [] else [key @ '': '' @ render_list xs])"

definition provenance_lines :: "(string \<Rightarrow> bool) \<Rightarrow> provenance \<Rightarrow> string list" where
  "provenance_lines np p =
     (if has_provenance p
      then [''provenance:''] @ opt_line ''  actor'' (map_option (debug_str np) (prov_actor p))
        @ opt_line ''  session'' (map_option (debug_str np) (prov_session p))
        @ opt_line ''  source'' (map_option show_source_kind (prov_source p))
      else [])"

definition tokens_line :: "frontmatter \<Rightarrow> string list" where
  "tokens_line fm =
     opt_line ''tokens''
       (case fm_tokens_raw fm of Some r \<Rightarrow> Some r
        | None \<Rightarrow> map_option (\<lambda>t. show_nat (unat t)) (fm_tokens fm))"

definition rendered_lines :: "(string \<Rightarrow> bool) \<Rightarrow> frontmatter \<Rightarrow> string list" where
  "rendered_lines np fm =
     opt_line ''title'' (map_option (debug_str np) (fm_title fm))
     @ opt_line ''type'' (map_option show_item_type (fm_item_type fm))
     @ opt_line ''scope'' (map_option show_scope (fm_scope fm))
     @ opt_line ''workspace'' (fm_workspace fm)
     @ opt_line ''visibility'' (map_option show_visibility (fm_visibility fm))
     @ provenance_lines np (fm_provenance fm)
     @ opt_line ''confidence'' (map_option show_confidence (fm_confidence fm))
     @ opt_line ''expires'' (map_option (debug_str np) (fm_expires fm))
     @ tokens_line fm
     @ list_line ''tags'' (fm_tags fm)
     @ list_line ''refs'' (fm_refs fm)
     @ opt_line ''updated'' (map_option (debug_str np) (fm_updated fm))"

lemma unlines_opt_line: "unlines (opt_line key v) = opt_field key v"
  by (simp add: unlines_def opt_line_def opt_field_def split: option.splits)

lemma render_unlines: "render np fm = ''---'' @ [nl] @ unlines (rendered_lines np fm) @ ''---'' @ [nl]"
proof -
  have prov: "unlines (provenance_lines np p) =
     (if has_provenance p
      then ''provenance:'' @ [nl]
        @ opt_field ''  actor'' (map_option (debug_str np) (prov_actor p))
        @ opt_field ''  session'' (map_option (debug_str np) (prov_session p))
        @ opt_field ''  source'' (map_option show_source_kind (prov_source p))
      else [])" for p
    by (simp add: provenance_lines_def unlines_opt_line)
  have lists: "unlines (list_line key xs)
      = (if xs = [] then [] else opt_field key (Some (render_list xs)))" for key xs
    by (simp add: list_line_def opt_field_def)
  have tok: "unlines (tokens_line fm) =
     (case fm_tokens_raw fm of
          Some r \<Rightarrow> opt_field ''tokens'' (Some r)
        | None \<Rightarrow> opt_field ''tokens'' (map_option (\<lambda>t. show_nat (unat t)) (fm_tokens fm)))"
    by (simp add: tokens_line_def unlines_opt_line split: option.splits)
  show ?thesis
    unfolding render_def rendered_lines_def unlines_append unlines_opt_line prov lists tok Let_def
    by simp
qed

subsection \<open>Values that are written as they are read\<close>

definition scalar_ok :: "string \<Rightarrow> bool" where
  "scalar_ok s \<longleftrightarrow>
     s \<noteq> [] \<and> tight_start s \<and> tight_end s \<and> nl \<notin> set s \<and> cr \<notin> set s
     \<and> \<not> quoted_by dquote s \<and> \<not> quoted_by squote s \<and> \<not> is_null s"

definition quotable :: "(string \<Rightarrow> bool) \<Rightarrow> string \<Rightarrow> bool" where
  "quotable np s \<longleftrightarrow> debug_plain np s \<and> nl \<notin> set s \<and> cr \<notin> set s \<and> \<not> is_null s"

definition list_item_ok :: "string \<Rightarrow> bool" where
  "list_item_ok s \<longleftrightarrow>
     s \<noteq> [] \<and> tight_start s \<and> tight_end s \<and> nl \<notin> set s \<and> cr \<notin> set s \<and> CHR '','' \<notin> set s
     \<and> \<not> quoted_by dquote s \<and> \<not> quoted_by squote s"

text \<open>What a value of a line must be for the line to survive.\<close>

definition value_ok :: "string \<Rightarrow> bool" where
  "value_ok v \<longleftrightarrow> v \<noteq> [] \<and> tight_start v \<and> tight_end v \<and> nl \<notin> set v \<and> cr \<notin> set v"

lemma unquote_plain: "tight_start v \<Longrightarrow> tight_end v \<Longrightarrow> \<not> quoted_by dquote v \<Longrightarrow> \<not> quoted_by squote v
   \<Longrightarrow> unquote v = v"
  by (simp add: unquote_def trim_tight Let_def)

lemma unquote_scalar: "scalar_ok v \<Longrightarrow> unquote v = v"
  by (simp add: scalar_ok_def unquote_plain)

lemma value_ok_scalar: "scalar_ok v \<Longrightarrow> value_ok v"
  by (simp add: scalar_ok_def value_ok_def)

lemma tight_bracketed:
  "is_ascii a \<Longrightarrow> \<not> ascii_ws a \<Longrightarrow> is_ascii b \<Longrightarrow> \<not> ascii_ws b
   \<Longrightarrow> tight_start (a # v @ [b]) \<and> tight_end (a # v @ [b])"
  using tight_end_ascii [of b "a # v"] by (simp add: tight_start_ascii)

lemma ascii_facts:
  "is_ascii dquote" "\<not> ascii_ws dquote" "is_ascii CHR ''[''" "\<not> ascii_ws CHR ''[''"
  "is_ascii CHR '']''" "\<not> ascii_ws CHR '']''" "is_ascii CHR '':''" "\<not> ascii_ws CHR '':''"
  "is_ascii CHR '' ''" "ascii_ws CHR '' ''" "is_ascii CHR '',''" "is_ascii nl" "ascii_ws nl"
  "is_ascii cr" "ascii_ws cr" "ascii_ws CHR 0x09" "is_ascii CHR 0x09"
  by (simp_all add: is_ascii_def ascii_ws_def)

lemma value_ok_quotable: "quotable np s \<Longrightarrow> value_ok (debug_str np s)"
  using tight_bracketed [of dquote dquote s]
  by (simp add: quotable_def debug_str_plain value_ok_def ascii_facts)

lemma unquote_debug: "quotable np s \<Longrightarrow> unquote (debug_str np s) = s"
proof -
  assume q: "quotable np s"
  then have eq: "debug_str np s = dquote # s @ [dquote]"
    by (simp add: quotable_def debug_str_plain)
  have "tight_start (dquote # s @ [dquote])" "tight_end (dquote # s @ [dquote])"
    using tight_bracketed [of dquote dquote s] by (simp_all add: ascii_facts)
  moreover have "quoted_by dquote (dquote # s @ [dquote])"
    using ends_with_append [of "dquote # s" "[dquote]"] by (simp add: quoted_by_def)
  ultimately show ?thesis by (simp add: eq unquote_def trim_tight Let_def)
qed

text \<open>Lists: the bracketed, comma-separated text splits back into its items.\<close>

lemma split_join_items:
  "xs \<noteq> [] \<Longrightarrow> (\<And>x. x \<in> set xs \<Longrightarrow> CHR '','' \<notin> set x) \<Longrightarrow>
   split_char (CHR '','') (join '', '' xs) = hd xs # map (\<lambda>x. CHR '' '' # x) (tl xs)"
proof (induction "'', ''" xs rule: join.induct)
  case (3 x y zs)
  have "split_char (CHR '','') (join '', '' (x # y # zs))
      = x # split_char (CHR '','') (CHR '' '' # join '', '' (y # zs))"
    using 3 by (simp add: split_char_append)
  also have "split_char (CHR '','') (CHR '' '' # join '', '' (y # zs))
      = (CHR '' '' # y) # map (\<lambda>x. CHR '' '' # x) zs"
    using 3 by simp
  finally show ?case by simp
qed (auto simp: split_char_no_sep)

lemma unquote_item: "list_item_ok x \<Longrightarrow> unquote (trim x) = x" "list_item_ok x \<Longrightarrow> unquote (trim (CHR '' '' # x)) = x"
  by (simp_all add: list_item_ok_def trim_tight trim_ws ascii_facts unquote_plain)

lemma join_tight:
  assumes "xs \<noteq> []" and "\<And>x. x \<in> set xs \<Longrightarrow> list_item_ok x"
  shows "trim (join '', '' xs) \<noteq> []"
proof -
  obtain x ys where xs: "xs = x # ys" using assms(1) by (cases xs) auto
  have x: "x \<noteq> []" "tight_start x" using assms(2) [of x] xs by (simp_all add: list_item_ok_def)
  have "tight_start (join '', '' xs)"
  proof (cases ys)
    case (Cons y zs)
    then show ?thesis using xs x strip_ws_before_ascii [of "CHR '',''" x] ascii_facts
      by (simp add: tight_start_def)
  qed (use xs x in simp)
  moreover have "join '', '' xs \<noteq> []" using xs x by (cases ys) auto
  ultimately show ?thesis by (rule trim_not_Nil)
qed

lemma list_value_render:
  assumes "xs \<noteq> []" and ok: "\<And>x. x \<in> set xs \<Longrightarrow> list_item_ok x"
  shows "list_value (render_list xs) = xs" "value_ok (render_list xs)"
    "unquote (render_list xs) = render_list xs"
proof -
  let ?j = "join '', '' xs"
  have inner: "strip_suffix (?j @ '']'') '']'' = Some ?j" by (simp add: strip_suffix_eq_Some)
  obtain x ys where xs: "xs = x # ys" using assms(1) by (cases xs) auto
  have comma: "CHR '','' \<notin> set x" if "x \<in> set xs" for x using ok that by (simp add: list_item_ok_def)
  have ne: "\<forall>x \<in> set xs. x \<noteq> []" using ok by (simp add: list_item_ok_def)
  have items: "map (\<lambda>item. unquote (trim item)) (split_char (CHR '','') ?j) = xs"
    using split_join_items [OF assms(1) comma] ok xs
    by (simp add: unquote_item map_idI)
  have "parse_inline_list (render_list xs) = Some xs"
    using join_tight [OF assms] inner items ne
    by (simp add: parse_inline_list_def render_list_def filter_id_conv)
  then show "list_value (render_list xs) = xs" by (simp add: list_value_def)
  have tight: "tight_start (render_list xs)" "tight_end (render_list xs)"
    using tight_bracketed [of "CHR ''[''" "CHR '']''" ?j]
    by (simp_all add: render_list_def ascii_facts)
  have "nl \<notin> set ?j" "cr \<notin> set ?j"
    using ok by (induction "'', ''" xs rule: join.induct) (auto simp: list_item_ok_def)
  then show "value_ok (render_list xs)" using tight by (auto simp: value_ok_def render_list_def)
  show "unquote (render_list xs) = render_list xs"
    using tight by (intro unquote_plain) (simp_all add: quoted_by_def render_list_def)
qed

subsection \<open>Lines of the block\<close>

text \<open>
  A rendered line is a key of ASCII letters, perhaps indented by two spaces, a colon, and nothing or
  a space and a value.
\<close>

definition key_ok :: "string \<Rightarrow> bool" where
  "key_ok k \<longleftrightarrow>
     k \<noteq> [] \<and> list_all (\<lambda>c. is_ascii c \<and> \<not> ascii_ws c \<and> c \<notin> set '':#-'') k"

lemma key_ok_tight: "key_ok k \<Longrightarrow> tight_start k \<and> tight_end k"
proof -
  assume ok: "key_ok k"
  then obtain c cs where k: "k = c # cs" by (cases k) (auto simp: key_ok_def)
  obtain ds d where k': "k = ds @ [d]" using ok by (cases k rule: rev_cases) (auto simp: key_ok_def)
  have "tight_start k" using ok k by (simp add: key_ok_def tight_start_ascii)
  moreover have "tight_end k" using ok k' by (simp add: key_ok_def tight_end_ascii)
  ultimately show ?thesis by blast
qed

lemma key_ok_chars: "key_ok k \<Longrightarrow> CHR '':'' \<notin> set k \<and> nl \<notin> set k \<and> cr \<notin> set k \<and> CHR '' '' \<notin> set k"
  using ascii_facts by (auto simp: key_ok_def list_all_iff)

lemma split_key_value_line:
  "key_ok k \<Longrightarrow> value_ok v \<Longrightarrow> split_key_value (k @ '': '' @ v) = Some (k, v)"
  "key_ok k \<Longrightarrow> split_key_value (k @ '':'') = Some (k, [])"
  using split_once_char [of "CHR '':''" k "'' '' @ v"] split_once_char [of "CHR '':''" k "[]"]
    key_ok_tight [of k] key_ok_chars [of k]
  by (auto simp: split_key_value_def value_ok_def trim_tight trim_ws ascii_facts key_ok_def)

lemma tight_end_line: "value_ok v \<Longrightarrow> tight_end (k @ '': '' @ v)"
  using tight_end_after_ascii [of "CHR '' ''" v "k @ '':''"]
  by (simp add: value_ok_def ascii_facts)

lemma trim_end_cr: "cr \<notin> set s \<Longrightarrow> trim_end_chars [cr] s = s"
  by (cases s rule: rev_cases) (auto simp: trim_end_chars_def)

lemma logical_line_body:
  assumes "key_ok k" "cr \<notin> set (k @ t)" "tight_end (k @ t)"
  shows "logical_line (k @ t) = Some \<lparr>line_indent = 0, line_text = k @ t\<rparr>"
    "logical_line (''  '' @ k @ t) = Some \<lparr>line_indent = 2, line_text = k @ t\<rparr>"
proof -
  obtain c cs where k: "k = c # cs" using assms(1) by (cases k) (auto simp: key_ok_def)
  have c: "c \<noteq> CHR '' ''" "c \<noteq> CHR ''#''" using assms(1) k ascii_facts by (auto simp: key_ok_def)
  have start: "trim_start_chars [CHR '' ''] (k @ t) = k @ t"
    "trim_start_chars [CHR '' ''] (''  '' @ k @ t) = k @ t"
    using k c by (simp_all add: trim_start_chars_def)
  have noend: "trim_end_chars [cr] (k @ t) = k @ t" "trim_end_chars [cr] (''  '' @ k @ t) = ''  '' @ k @ t"
    using assms(2) by (intro trim_end_cr; simp)+
  have hash: "\<not> starts_with (k @ t) ''#''" using k c by simp
  have te: "trim_end (k @ t) = k @ t" by (rule trim_end_tight [OF assms(3)])
  show "logical_line (k @ t) = Some \<lparr>line_indent = 0, line_text = k @ t\<rparr>"
    "logical_line (''  '' @ k @ t) = Some \<lparr>line_indent = 2, line_text = k @ t\<rparr>"
    unfolding logical_line_def Let_def noend start te
    using k hash by simp_all
qed

definition clean_line :: "string \<Rightarrow> bool" where
  "clean_line l \<longleftrightarrow> nl \<notin> set l \<and> cr \<notin> set l \<and> \<not> is_delimiter_line (l @ [nl])"

lemma delimiter_needs_dash:
  assumes "is_ascii c" "\<not> ascii_ws c" "c \<noteq> CHR ''-''" "set ws \<subseteq> {CHR '' ''}" "nl \<notin> set (c # t)" "cr \<notin> set (c # t)"
  shows "\<not> is_delimiter_line (ws @ c # t @ [nl])"
proof
  assume delim: "is_delimiter_line (ws @ c # t @ [nl])"
  have sp: "nl \<notin> set ws" "cr \<notin> set ws" using assms(4) by auto
  have "trim_end_chars [nl, cr] (ws @ c # t @ [nl]) = ws @ c # t"
    using assms(5,6) sp by (cases t rule: rev_cases) (auto simp: trim_end_chars_def)
  with delim have "trim (ws @ c # t) = ''---''" by (simp add: is_delimiter_line_def)
  moreover have "trim (ws @ c # t) = trim (c # t)"
    using assms(4) by (induction ws) (auto simp: trim_ws ascii_facts)
  moreover have "trim (c # t) = trim_end (c # t)"
    using assms(1,2) by (simp add: trim_def trim_start_tight tight_start_ascii)
  ultimately have "trim_end (c # t) = ''---''" by simp
  then show False using trim_end_decomp [of "c # t"] assms(3) by auto
qed

lemma clean_key_line:
  assumes "key_ok k" "nl \<notin> set t" "cr \<notin> set t" "set ws \<subseteq> {CHR '' ''}"
  shows "clean_line (ws @ k @ t)"
proof -
  obtain c cs where k: "k = c # cs" using assms(1) by (cases k) (auto simp: key_ok_def)
  have "nl \<notin> set ws" "cr \<notin> set ws" using assms(4) by auto
  moreover have "\<not> is_delimiter_line (ws @ c # (cs @ t) @ [nl])"
    using assms k key_ok_chars [OF assms(1)]
    by (intro delimiter_needs_dash) (auto simp: key_ok_def)
  ultimately show ?thesis
    using assms k key_ok_chars [OF assms(1)] by (simp add: clean_line_def)
qed

lemma delimiter_self: "is_delimiter_line (''---'' @ [nl])"
  by code_simp

lemma split_inclusive_unlines:
  "(\<And>l. l \<in> set ls \<Longrightarrow> nl \<notin> set l) \<Longrightarrow>
   split_inclusive nl (unlines ls @ rest) = map (\<lambda>l. l @ [nl]) ls @ split_inclusive nl rest"
  by (induction ls) (simp_all add: split_inclusive_append)

lemma lines_unlines: "(\<And>l. l \<in> set ls \<Longrightarrow> nl \<notin> set l \<and> cr \<notin> set l) \<Longrightarrow> lines (unlines ls) = ls"
  by (induction ls) (simp_all add: lines_append)

lemma concat_unlines: "concat (map (\<lambda>l. l @ [nl]) ls) = unlines ls"
  by (simp add: unlines_def)

lemma parse_delimited:
  assumes "\<And>l. l \<in> set ls \<Longrightarrow> clean_line l"
    and "parse_lines (List.map_filter logical_line ls) default_frontmatter [] = (fm, ws)"
  shows "parse (''---'' @ [nl] @ unlines ls @ ''---'' @ [nl] @ body)
           = \<lparr>pr_frontmatter = fm, pr_body = body, pr_warnings = ws\<rparr>"
proof -
  let ?rest = "unlines ls @ ''---'' @ [nl] @ body"
  have clean: "\<And>l. l \<in> set ls \<Longrightarrow> nl \<notin> set l \<and> cr \<notin> set l \<and> \<not> is_delimiter_line (l @ [nl])"
    using assms(1) by (simp add: clean_line_def)
  have delim: "is_delimiter_line (''---'' @ [nl])" by (rule delimiter_self)
  have "split_inclusive nl (''---'' @ nl # ?rest) = (''---'' @ [nl]) # split_inclusive nl ?rest"
    by (rule split_inclusive_append) simp
  then have op: "strip_opening_delimiter (''---'' @ [nl] @ ?rest) = Some ?rest"
    using delim by (simp add: strip_opening_delimiter_def)
  have "split_inclusive nl (''---'' @ nl # body) = (''---'' @ [nl]) # split_inclusive nl body"
    by (rule split_inclusive_append) simp
  then have segs: "split_inclusive nl ?rest
      = map (\<lambda>l. l @ [nl]) ls @ (''---'' @ [nl]) # split_inclusive nl body"
    using split_inclusive_unlines [of ls "''---'' @ [nl] @ body"] clean by simp
  have "closing_loop ?rest (length ([] :: string))
      (map (\<lambda>l. l @ [nl]) ls @ (''---'' @ [nl]) # split_inclusive nl body)
      = Some ([] @ concat (map (\<lambda>l. l @ [nl]) ls), concat (split_inclusive nl body))"
    using clean delim by (intro closing_loop_forward) (auto simp: concat_unlines)
  then have cl: "split_at_closing_delimiter ?rest = Some (unlines ls, body)"
    unfolding split_at_closing_delimiter_def segs by (simp add: concat_unlines)
  have "logical_lines (unlines ls) = List.map_filter logical_line ls"
    using clean by (simp add: logical_lines_def lines_unlines)
  then show ?thesis using op cl assms(2) by (simp add: parse_def parse_block_def)
qed

subsection \<open>One field at a time\<close>

text \<open>\<open>line_of\<close> is the logical line of a field; \<open>fields\<close> those of an optional field.\<close>

definition fields :: "nat \<Rightarrow> string \<Rightarrow> string option \<Rightarrow> line list" where
  "fields n key value =
     (case value of None \<Rightarrow> [] | Some v \<Rightarrow> [\<lparr>line_indent = n, line_text = key @ '': '' @ v\<rparr>])"

lemma cr_notin_line: "key_ok k \<Longrightarrow> value_ok v \<Longrightarrow> cr \<notin> set (k @ '': '' @ v)"
  using key_ok_chars [of k] by (simp add: value_ok_def)

lemma map_filter_opt_line:
  assumes "key_ok k" "\<And>v. value = Some v \<Longrightarrow> value_ok v"
  shows "List.map_filter logical_line (opt_line k value) = fields 0 k value"
    "List.map_filter logical_line (opt_line (''  '' @ k) value) = fields 2 k value"
  using logical_line_body [OF assms(1) cr_notin_line [OF assms(1)] tight_end_line] assms(2)
  by (cases "value"; simp add: opt_line_def fields_def map_filter_simps)+

lemma clean_opt_line:
  assumes "key_ok k" "\<And>v. value = Some v \<Longrightarrow> value_ok v" "set ws \<subseteq> {CHR '' ''}"
    "l \<in> set (opt_line (ws @ k) value)"
  shows "clean_line l"
proof -
  obtain v where v: "value = Some v" "l = ws @ k @ '': '' @ v"
    using assms(4) by (auto simp: opt_line_def split: option.splits)
  then show ?thesis using assms(1-3) clean_key_line [of k "'': '' @ v" ws] by (simp add: value_ok_def)
qed

lemma parse_scalar_field:
  assumes "key_ok k" "\<And>v. shown = Some v \<Longrightarrow> value_ok v"
    and "\<And>v. shown = Some v \<Longrightarrow> apply_scalar_value fm k v = (f v, [])"
  shows "parse_lines (fields 0 k shown @ ls) fm ws
           = parse_lines ls (case shown of None \<Rightarrow> fm | Some v \<Rightarrow> f v) ws"
proof (cases shown)
  case (Some v)
  have "value_ok v" using assms(2) Some by simp
  then show ?thesis
    using Some assms split_key_value_line(1) [OF assms(1), of v]
    by (simp add: fields_def value_ok_def)
qed (simp add: fields_def)

text \<open>Reading back the value that a field was written from.\<close>

lemma opt_string_ok: "\<not> is_null s \<Longrightarrow> opt_string s = Some s"
  by (simp add: opt_string_def)

lemma option_update_self:
  "(case map_option g value of None \<Rightarrow> fm | Some v \<Rightarrow> f v)
     = (case value of None \<Rightarrow> fm | Some x \<Rightarrow> f (g x))"
  by (cases "value") auto

text \<open>The frontmatters that \<open>render\<close> writes without loss.\<close>

definition renderable_provenance :: "(string \<Rightarrow> bool) \<Rightarrow> provenance \<Rightarrow> bool" where
  "renderable_provenance np p \<longleftrightarrow>
     pred_option (quotable np) (prov_actor p) \<and> pred_option (quotable np) (prov_session p)
     \<and> pred_option (\<lambda>s. canonical_source s \<and> scalar_ok (show_source_kind s)) (prov_source p)"

definition renderable_tokens :: "frontmatter \<Rightarrow> bool" where
  "renderable_tokens fm \<longleftrightarrow>
     (case fm_tokens_raw fm of
        None \<Rightarrow> fm_tokens fm = None
      | Some r \<Rightarrow> scalar_ok r \<and> fm_tokens fm = parse_tokens r)"

definition renderable :: "(string \<Rightarrow> bool) \<Rightarrow> frontmatter \<Rightarrow> bool" where
  "renderable np fm \<longleftrightarrow>
     pred_option (quotable np) (fm_title fm)
     \<and> pred_option (\<lambda>t. canonical_type t \<and> scalar_ok (show_item_type t)) (fm_item_type fm)
     \<and> pred_option (\<lambda>t. canonical_scope t \<and> scalar_ok (show_scope t)) (fm_scope fm)
     \<and> pred_option scalar_ok (fm_workspace fm)
     \<and> pred_option (\<lambda>t. canonical_visibility t \<and> scalar_ok (show_visibility t)) (fm_visibility fm)
     \<and> renderable_provenance np (fm_provenance fm)
     \<and> pred_option (\<lambda>t. canonical_confidence t \<and> scalar_ok (show_confidence t)) (fm_confidence fm)
     \<and> pred_option (quotable np) (fm_expires fm)
     \<and> renderable_tokens fm
     \<and> list_all list_item_ok (fm_tags fm)
     \<and> list_all list_item_ok (fm_refs fm)
     \<and> pred_option (quotable np) (fm_updated fm)"

lemma keys_ok:
  "key_ok ''title''" "key_ok ''type''" "key_ok ''scope''" "key_ok ''workspace''"
  "key_ok ''visibility''" "key_ok ''provenance''" "key_ok ''actor''" "key_ok ''session''"
  "key_ok ''source''" "key_ok ''confidence''" "key_ok ''expires''" "key_ok ''tokens''"
  "key_ok ''tags''" "key_ok ''refs''" "key_ok ''updated''"
  by (simp_all add: key_ok_def is_ascii_def ascii_ws_def)

lemma value_ok_shown: "pred_option (\<lambda>t. P t \<and> scalar_ok (f t)) x \<Longrightarrow> map_option f x = Some v \<Longrightarrow> value_ok v"
  by (cases x) (auto intro: value_ok_scalar)

lemma value_ok_quoted: "pred_option (quotable np) x \<Longrightarrow> map_option (debug_str np) x = Some v \<Longrightarrow> value_ok v"
  by (cases x) (auto intro: value_ok_quotable)

lemma quotable_not_null: "quotable np s \<Longrightarrow> \<not> is_null s"
  by (simp add: quotable_def)

lemma scalar_not_null: "scalar_ok s \<Longrightarrow> \<not> is_null s"
  by (simp add: scalar_ok_def)

lemma fm_update_self:
  "fm_title fm = None \<Longrightarrow> fm\<lparr>fm_title := None\<rparr> = fm"
  "fm_item_type fm = None \<Longrightarrow> fm\<lparr>fm_item_type := None\<rparr> = fm"
  "fm_scope fm = None \<Longrightarrow> fm\<lparr>fm_scope := None\<rparr> = fm"
  "fm_workspace fm = None \<Longrightarrow> fm\<lparr>fm_workspace := None\<rparr> = fm"
  "fm_visibility fm = None \<Longrightarrow> fm\<lparr>fm_visibility := None\<rparr> = fm"
  "fm_confidence fm = None \<Longrightarrow> fm\<lparr>fm_confidence := None\<rparr> = fm"
  "fm_expires fm = None \<Longrightarrow> fm\<lparr>fm_expires := None\<rparr> = fm"
  "fm_updated fm = None \<Longrightarrow> fm\<lparr>fm_updated := None\<rparr> = fm"
  "fm_tokens_raw fm = None \<Longrightarrow> fm_tokens fm = None \<Longrightarrow> fm\<lparr>fm_tokens_raw := None, fm_tokens := None\<rparr> = fm"
  "fm_tags fm = [] \<Longrightarrow> fm\<lparr>fm_tags := []\<rparr> = fm"
  "fm_refs fm = [] \<Longrightarrow> fm\<lparr>fm_refs := []\<rparr> = fm"
  by (cases fm; simp)+

lemmas read_back = unquote_debug unquote_scalar opt_string_ok quotable_not_null scalar_not_null
  apply_scalar_value_def fm_update_self

text \<open>Each optional field, read into a frontmatter that does not have it yet.\<close>

lemma parse_title:
  "pred_option (quotable np) t \<Longrightarrow> fm_title fm = None \<Longrightarrow>
   parse_lines (fields 0 ''title'' (map_option (debug_str np) t) @ ls) fm ws
     = parse_lines ls (fm\<lparr>fm_title := t\<rparr>) ws"
  by (subst parse_scalar_field [where f = "\<lambda>v. fm\<lparr>fm_title := opt_string (unquote v)\<rparr>"])
     (auto simp: keys_ok read_back value_ok_quoted split: option.split)

lemma parse_expires:
  "pred_option (quotable np) t \<Longrightarrow> fm_expires fm = None \<Longrightarrow>
   parse_lines (fields 0 ''expires'' (map_option (debug_str np) t) @ ls) fm ws
     = parse_lines ls (fm\<lparr>fm_expires := t\<rparr>) ws"
  by (subst parse_scalar_field [where f = "\<lambda>v. fm\<lparr>fm_expires := opt_string (unquote v)\<rparr>"])
     (auto simp: keys_ok read_back value_ok_quoted split: option.split)

lemma parse_updated:
  "pred_option (quotable np) t \<Longrightarrow> fm_updated fm = None \<Longrightarrow>
   parse_lines (fields 0 ''updated'' (map_option (debug_str np) t) @ ls) fm ws
     = parse_lines ls (fm\<lparr>fm_updated := t\<rparr>) ws"
  by (subst parse_scalar_field [where f = "\<lambda>v. fm\<lparr>fm_updated := opt_string (unquote v)\<rparr>"])
     (auto simp: keys_ok read_back value_ok_quoted split: option.split)

lemma parse_workspace:
  "pred_option scalar_ok t \<Longrightarrow> fm_workspace fm = None \<Longrightarrow>
   parse_lines (fields 0 ''workspace'' t @ ls) fm ws = parse_lines ls (fm\<lparr>fm_workspace := t\<rparr>) ws"
  by (subst parse_scalar_field [where f = "\<lambda>v. fm\<lparr>fm_workspace := opt_string (unquote v)\<rparr>"])
     (auto simp: keys_ok read_back value_ok_scalar split: option.split)

lemma parse_type_field:
  "pred_option (\<lambda>t. canonical_type t \<and> scalar_ok (show_item_type t)) t \<Longrightarrow> fm_item_type fm = None \<Longrightarrow>
   parse_lines (fields 0 ''type'' (map_option show_item_type t) @ ls) fm ws
     = parse_lines ls (fm\<lparr>fm_item_type := t\<rparr>) ws"
  by (subst parse_scalar_field
        [where f = "\<lambda>v. fm\<lparr>fm_item_type := map_option parse_item_type (opt_string (unquote v))\<rparr>"])
     (auto simp: keys_ok read_back value_ok_scalar canonical_defs split: option.split)

lemma parse_scope_field:
  "pred_option (\<lambda>t. canonical_scope t \<and> scalar_ok (show_scope t)) t \<Longrightarrow> fm_scope fm = None \<Longrightarrow>
   parse_lines (fields 0 ''scope'' (map_option show_scope t) @ ls) fm ws
     = parse_lines ls (fm\<lparr>fm_scope := t\<rparr>) ws"
  by (subst parse_scalar_field
        [where f = "\<lambda>v. fm\<lparr>fm_scope := map_option parse_scope (opt_string (unquote v))\<rparr>"])
     (auto simp: keys_ok read_back value_ok_scalar canonical_defs split: option.split)

lemma parse_visibility_field:
  "pred_option (\<lambda>t. canonical_visibility t \<and> scalar_ok (show_visibility t)) t \<Longrightarrow>
   fm_visibility fm = None \<Longrightarrow>
   parse_lines (fields 0 ''visibility'' (map_option show_visibility t) @ ls) fm ws
     = parse_lines ls (fm\<lparr>fm_visibility := t\<rparr>) ws"
  by (subst parse_scalar_field
        [where f = "\<lambda>v. fm\<lparr>fm_visibility := map_option parse_visibility (opt_string (unquote v))\<rparr>"])
     (auto simp: keys_ok read_back value_ok_scalar canonical_defs split: option.split)

lemma parse_confidence_field:
  "pred_option (\<lambda>t. canonical_confidence t \<and> scalar_ok (show_confidence t)) t \<Longrightarrow>
   fm_confidence fm = None \<Longrightarrow>
   parse_lines (fields 0 ''confidence'' (map_option show_confidence t) @ ls) fm ws
     = parse_lines ls (fm\<lparr>fm_confidence := t\<rparr>) ws"
  by (subst parse_scalar_field
        [where f = "\<lambda>v. fm\<lparr>fm_confidence := map_option parse_confidence (opt_string (unquote v))\<rparr>"])
     (auto simp: keys_ok read_back value_ok_scalar canonical_defs split: option.split)

lemma parse_tokens_field:
  "fm_tokens_raw fm = None \<Longrightarrow> fm_tokens fm = None \<Longrightarrow> pred_option scalar_ok r \<Longrightarrow>
   parse_lines (fields 0 ''tokens'' r @ ls) fm ws
     = parse_lines ls (fm\<lparr>fm_tokens_raw := r, fm_tokens := Option.bind r parse_tokens\<rparr>) ws"
  by (subst parse_scalar_field
        [where f = "\<lambda>v. fm\<lparr>fm_tokens_raw := Some v, fm_tokens := parse_tokens v\<rparr>"])
     (auto simp: keys_ok read_back value_ok_scalar split: option.split)

definition list_fields :: "string \<Rightarrow> string list \<Rightarrow> line list" where
  "list_fields key xs = fields 0 key (if xs = [] then None else Some (render_list xs))"

lemma parse_list_fields:
  assumes "list_all list_item_ok xs"
  shows "fm_tags fm = [] \<Longrightarrow> parse_lines (list_fields ''tags'' xs @ ls) fm ws
      = parse_lines ls (fm\<lparr>fm_tags := xs\<rparr>) ws"
    and "fm_refs fm = [] \<Longrightarrow> parse_lines (list_fields ''refs'' xs @ ls) fm ws
      = parse_lines ls (fm\<lparr>fm_refs := xs\<rparr>) ws"
proof -
  have ok: "\<And>x. x \<in> set xs \<Longrightarrow> list_item_ok x" using assms by (simp add: list_all_iff)
  have v: "xs \<noteq> [] \<Longrightarrow> value_ok (render_list xs)" and u: "xs \<noteq> [] \<Longrightarrow> unquote (render_list xs) = render_list xs"
    and l: "xs \<noteq> [] \<Longrightarrow> list_value (render_list xs) = xs"
    using list_value_render [of xs] ok by auto
  show "fm_tags fm = [] \<Longrightarrow> parse_lines (list_fields ''tags'' xs @ ls) fm ws
      = parse_lines ls (fm\<lparr>fm_tags := xs\<rparr>) ws"
    unfolding list_fields_def
    by (subst parse_scalar_field [where f = "\<lambda>v. fm\<lparr>fm_tags := list_value (unquote v)\<rparr>"])
       (auto simp: keys_ok apply_scalar_value_def fm_update_self v u l split: if_splits)
  show "fm_refs fm = [] \<Longrightarrow> parse_lines (list_fields ''refs'' xs @ ls) fm ws
      = parse_lines ls (fm\<lparr>fm_refs := xs\<rparr>) ws"
    unfolding list_fields_def
    by (subst parse_scalar_field [where f = "\<lambda>v. fm\<lparr>fm_refs := list_value (unquote v)\<rparr>"])
       (auto simp: keys_ok apply_scalar_value_def fm_update_self v u l split: if_splits)
qed

text \<open>The nested provenance block.\<close>

definition provenance_fields :: "(string \<Rightarrow> bool) \<Rightarrow> provenance \<Rightarrow> line list" where
  "provenance_fields np p =
     fields 2 ''actor'' (map_option (debug_str np) (prov_actor p))
     @ fields 2 ''session'' (map_option (debug_str np) (prov_session p))
     @ fields 2 ''source'' (map_option show_source_kind (prov_source p))"

lemma apply_children_append:
  "apply_provenance_children p (xs @ ys) =
     (let (p', ws) = apply_provenance_children p xs; (p'', ws') = apply_provenance_children p' ys
      in (p'', ws @ ws'))"
  by (induction xs arbitrary: p) (auto simp: Let_def split: option.splits prod.splits)

lemma apply_children_field:
  assumes "key_ok k" "\<And>v. value = Some v \<Longrightarrow> value_ok v"
  shows "apply_provenance_children p (fields n k value)
           = ((case value of None \<Rightarrow> p | Some v \<Rightarrow> apply_provenance_field p k (unquote v)), [])"
  using split_key_value_line(1) [OF assms(1)] assms(2)
  by (cases "value") (simp_all add: fields_def)

lemma apply_provenance_rendered:
  assumes "renderable_provenance np p"
  shows "apply_provenance_children default_provenance (provenance_fields np p) = (p, [])"
proof -
  obtain a s k where p: "p = \<lparr>prov_actor = a, prov_session = s, prov_source = k\<rparr>" by (cases p) auto
  have ok: "pred_option (quotable np) a" "pred_option (quotable np) s"
    "pred_option (\<lambda>s. canonical_source s \<and> scalar_ok (show_source_kind s)) k"
    using assms p by (simp_all add: renderable_provenance_def)
  have vs: "\<And>v. map_option (debug_str np) a = Some v \<Longrightarrow> value_ok v"
    "\<And>v. map_option (debug_str np) s = Some v \<Longrightarrow> value_ok v"
    "\<And>v. map_option show_source_kind k = Some v \<Longrightarrow> value_ok v"
    using ok by (auto intro: value_ok_quotable value_ok_scalar)
  show ?thesis
    unfolding provenance_fields_def p
    using ok
    by (auto simp: apply_children_append apply_children_field [OF _ vs(1)] apply_children_field [OF _ vs(2)]
        apply_children_field [OF _ vs(3)] keys_ok apply_provenance_field_def default_provenance_def
        read_back canonical_defs split: option.split)
qed

lemma provenance_fields_indented: "\<forall>c \<in> set (provenance_fields np p). 0 < line_indent c"
  by (auto simp: provenance_fields_def fields_def split: option.splits)

lemma parse_provenance_block:
  assumes "renderable_provenance np p" "fm_provenance fm = default_provenance"
    and "\<forall>l \<in> set ls. line_indent l = 0"
  shows "parse_lines ((if has_provenance p
            then \<lparr>line_indent = 0, line_text = ''provenance:''\<rparr> # provenance_fields np p else []) @ ls) fm ws
           = parse_lines ls (fm\<lparr>fm_provenance := p\<rparr>) ws"
proof (cases "has_provenance p")
  case False
  then have "p = default_provenance" by (cases p) (auto simp: has_provenance_def default_provenance_def)
  then have "fm\<lparr>fm_provenance := p\<rparr> = fm" using assms(2) by (cases fm) simp
  then show ?thesis using False by simp
next
  case True
  have "takeWhile (\<lambda>c. 0 < line_indent c) ls = []" "dropWhile (\<lambda>c. 0 < line_indent c) ls = ls"
    using assms(3) by (cases ls; simp)+
  then have children: "takeWhile (\<lambda>c. 0 < line_indent c) (provenance_fields np p @ ls) = provenance_fields np p"
    "dropWhile (\<lambda>c. 0 < line_indent c) (provenance_fields np p @ ls) = ls"
    using provenance_fields_indented [of np p] by (simp_all add: takeWhile_append dropWhile_append)
  have key: "split_key_value ''provenance:'' = Some (''provenance'', [])"
    using split_key_value_line(2) [of "''provenance''"] keys_ok by simp
  have ap: "apply_block_value fm ''provenance'' (provenance_fields np p) = (fm\<lparr>fm_provenance := p\<rparr>, [])"
    using apply_provenance_rendered [OF assms(1)] assms(2) by (simp add: apply_block_value_def)
  show ?thesis
    unfolding if_P [OF True] append_Cons parse_lines.simps
    using children key ap by simp
qed

subsection \<open>The round trip\<close>

lemma renderable_values:
  assumes "renderable np fm"
  shows "\<And>v. map_option (debug_str np) (fm_title fm) = Some v \<Longrightarrow> value_ok v"
    "\<And>v. map_option show_item_type (fm_item_type fm) = Some v \<Longrightarrow> value_ok v"
    "\<And>v. map_option show_scope (fm_scope fm) = Some v \<Longrightarrow> value_ok v"
    "\<And>v. fm_workspace fm = Some v \<Longrightarrow> value_ok v"
    "\<And>v. map_option show_visibility (fm_visibility fm) = Some v \<Longrightarrow> value_ok v"
    "\<And>v. map_option (debug_str np) (prov_actor (fm_provenance fm)) = Some v \<Longrightarrow> value_ok v"
    "\<And>v. map_option (debug_str np) (prov_session (fm_provenance fm)) = Some v \<Longrightarrow> value_ok v"
    "\<And>v. map_option show_source_kind (prov_source (fm_provenance fm)) = Some v \<Longrightarrow> value_ok v"
    "\<And>v. map_option show_confidence (fm_confidence fm) = Some v \<Longrightarrow> value_ok v"
    "\<And>v. map_option (debug_str np) (fm_expires fm) = Some v \<Longrightarrow> value_ok v"
    "\<And>v. fm_tokens_raw fm = Some v \<Longrightarrow> value_ok v"
    "fm_tags fm \<noteq> [] \<Longrightarrow> value_ok (render_list (fm_tags fm))"
    "fm_refs fm \<noteq> [] \<Longrightarrow> value_ok (render_list (fm_refs fm))"
    "\<And>v. map_option (debug_str np) (fm_updated fm) = Some v \<Longrightarrow> value_ok v"
  using assms list_value_render(2) [of "fm_tags fm"] list_value_render(2) [of "fm_refs fm"]
  by (auto simp: renderable_def renderable_provenance_def renderable_tokens_def list_all_iff
      intro: value_ok_quotable value_ok_scalar)

lemma renderable_tokens_line:
  "renderable np fm \<Longrightarrow> tokens_line fm = opt_line ''tokens'' (fm_tokens_raw fm)"
  by (auto simp: renderable_def renderable_tokens_def tokens_line_def split: option.splits)

lemma pred_optionI: "(\<And>v. x = Some v \<Longrightarrow> P v) \<Longrightarrow> pred_option P x"
  by (cases x) auto

lemma renderable_ok:
  assumes "renderable np fm"
  shows "pred_option value_ok (map_option (debug_str np) (fm_title fm))"
    "pred_option value_ok (map_option show_item_type (fm_item_type fm))"
    "pred_option value_ok (map_option show_scope (fm_scope fm))"
    "pred_option value_ok (fm_workspace fm)"
    "pred_option value_ok (map_option show_visibility (fm_visibility fm))"
    "pred_option value_ok (map_option (debug_str np) (prov_actor (fm_provenance fm)))"
    "pred_option value_ok (map_option (debug_str np) (prov_session (fm_provenance fm)))"
    "pred_option value_ok (map_option show_source_kind (prov_source (fm_provenance fm)))"
    "pred_option value_ok (map_option show_confidence (fm_confidence fm))"
    "pred_option value_ok (map_option (debug_str np) (fm_expires fm))"
    "pred_option value_ok (fm_tokens_raw fm)"
    "fm_tags fm = [] \<or> value_ok (render_list (fm_tags fm))"
    "fm_refs fm = [] \<or> value_ok (render_list (fm_refs fm))"
    "pred_option value_ok (map_option (debug_str np) (fm_updated fm))"
proof -
  note v = renderable_values [OF assms]
  show "pred_option value_ok (map_option (debug_str np) (fm_title fm))" by (rule pred_optionI) (rule v(1))
  show "pred_option value_ok (map_option show_item_type (fm_item_type fm))" by (rule pred_optionI) (rule v(2))
  show "pred_option value_ok (map_option show_scope (fm_scope fm))" by (rule pred_optionI) (rule v(3))
  show "pred_option value_ok (fm_workspace fm)" by (rule pred_optionI) (rule v(4))
  show "pred_option value_ok (map_option show_visibility (fm_visibility fm))" by (rule pred_optionI) (rule v(5))
  show "pred_option value_ok (map_option (debug_str np) (prov_actor (fm_provenance fm)))"
    by (rule pred_optionI) (rule v(6))
  show "pred_option value_ok (map_option (debug_str np) (prov_session (fm_provenance fm)))"
    by (rule pred_optionI) (rule v(7))
  show "pred_option value_ok (map_option show_source_kind (prov_source (fm_provenance fm)))"
    by (rule pred_optionI) (rule v(8))
  show "pred_option value_ok (map_option show_confidence (fm_confidence fm))" by (rule pred_optionI) (rule v(9))
  show "pred_option value_ok (map_option (debug_str np) (fm_expires fm))" by (rule pred_optionI) (rule v(10))
  show "pred_option value_ok (fm_tokens_raw fm)" by (rule pred_optionI) (rule v(11))
  show "fm_tags fm = [] \<or> value_ok (render_list (fm_tags fm))" using v(12) by blast
  show "fm_refs fm = [] \<or> value_ok (render_list (fm_refs fm))" using v(13) by blast
  show "pred_option value_ok (map_option (debug_str np) (fm_updated fm))" by (rule pred_optionI) (rule v(14))
qed

lemma clean_opt_lines:
  assumes "key_ok k" "pred_option value_ok vo"
  shows "l \<in> set (opt_line k vo) \<Longrightarrow> clean_line l"
    "l \<in> set (opt_line (CHR '' '' # CHR '' '' # k) vo) \<Longrightarrow> clean_line l"
  using assms clean_opt_line [of k vo "[]" l] clean_opt_line [of k vo "''  ''" l] by (cases vo; simp)+

lemma clean_list_line:
  assumes "key_ok k" "xs = [] \<or> value_ok (render_list xs)"
  shows "l \<in> set (list_line k xs) \<Longrightarrow> clean_line l"
  using assms clean_key_line [of k "'': '' @ render_list xs" "[]"]
  by (auto simp: list_line_def value_ok_def split: if_splits)

lemma logical_opt_lines:
  assumes "key_ok k" "pred_option value_ok vo"
  shows "List.map_filter logical_line (opt_line k vo) = fields 0 k vo"
    "List.map_filter logical_line (opt_line (CHR '' '' # CHR '' '' # k) vo) = fields 2 k vo"
  using assms map_filter_opt_line [of k vo] by (cases vo; simp)+

lemma logical_list_line:
  assumes "key_ok k" "xs = [] \<or> value_ok (render_list xs)"
  shows "List.map_filter logical_line (list_line k xs) = list_fields k xs"
  using assms map_filter_opt_line(1) [of k "if xs = [] then None else Some (render_list xs)"]
  by (auto simp: list_line_def list_fields_def opt_line_def map_filter_simps split: if_splits)

lemma clean_rendered_lines:
  assumes "renderable np fm" "l \<in> set (rendered_lines np fm)"
  shows "clean_line l"
proof -
  note v = renderable_ok [OF assms(1)]
  note one = clean_opt_lines(1)
  note two = clean_opt_lines(2)
  note lists = clean_list_line
  have head: "clean_line ''provenance:''"
    using clean_key_line [of "''provenance''" "'':''" "[]"] keys_ok by simp
  have prov: "clean_line x" if "x \<in> set (provenance_lines np (fm_provenance fm))" for x
    using that head two [OF keys_ok(7) v(6)] two [OF keys_ok(8) v(7)] two [OF keys_ok(9) v(8)]
    unfolding provenance_lines_def by (cases "has_provenance (fm_provenance fm)") auto
  show ?thesis
    using assms(2) one [OF keys_ok(1) v(1)] one [OF keys_ok(2) v(2)] one [OF keys_ok(3) v(3)]
      one [OF keys_ok(4) v(4)] one [OF keys_ok(5) v(5)] prov one [OF keys_ok(10) v(9)]
      one [OF keys_ok(11) v(10)] one [OF keys_ok(12) v(11)] lists [OF keys_ok(13) v(12)]
      lists [OF keys_ok(14) v(13)] one [OF keys_ok(15) v(14)]
    unfolding rendered_lines_def renderable_tokens_line [OF assms(1)] set_append Un_iff by blast
qed

lemma logical_rendered_lines:
  assumes "renderable np fm"
  shows "List.map_filter logical_line (rendered_lines np fm) =
     fields 0 ''title'' (map_option (debug_str np) (fm_title fm))
     @ fields 0 ''type'' (map_option show_item_type (fm_item_type fm))
     @ fields 0 ''scope'' (map_option show_scope (fm_scope fm))
     @ fields 0 ''workspace'' (fm_workspace fm)
     @ fields 0 ''visibility'' (map_option show_visibility (fm_visibility fm))
     @ (if has_provenance (fm_provenance fm)
        then \<lparr>line_indent = 0, line_text = ''provenance:''\<rparr> # provenance_fields np (fm_provenance fm) else [])
     @ fields 0 ''confidence'' (map_option show_confidence (fm_confidence fm))
     @ fields 0 ''expires'' (map_option (debug_str np) (fm_expires fm))
     @ fields 0 ''tokens'' (fm_tokens_raw fm)
     @ list_fields ''tags'' (fm_tags fm)
     @ list_fields ''refs'' (fm_refs fm)
     @ fields 0 ''updated'' (map_option (debug_str np) (fm_updated fm))"
proof -
  note v = renderable_ok [OF assms]
  note one = logical_opt_lines(1)
  note lists = logical_list_line
  note prov2 = logical_opt_lines(2) [OF keys_ok(7) v(6)] logical_opt_lines(2) [OF keys_ok(8) v(7)]
    logical_opt_lines(2) [OF keys_ok(9) v(8)]
  have head: "logical_line ''provenance:'' = Some \<lparr>line_indent = 0, line_text = ''provenance:''\<rparr>"
    by code_simp
  have prov: "List.map_filter logical_line (provenance_lines np (fm_provenance fm)) =
     (if has_provenance (fm_provenance fm)
      then \<lparr>line_indent = 0, line_text = ''provenance:''\<rparr> # provenance_fields np (fm_provenance fm) else [])"
    by (simp add: provenance_lines_def provenance_fields_def map_filter_append map_filter_simps head prov2
        del: map_option_eq_Some)
  show ?thesis
    unfolding rendered_lines_def renderable_tokens_line [OF assms] map_filter_append prov
      one [OF keys_ok(1) v(1)] one [OF keys_ok(2) v(2)] one [OF keys_ok(3) v(3)]
      one [OF keys_ok(4) v(4)] one [OF keys_ok(5) v(5)] one [OF keys_ok(10) v(9)]
      one [OF keys_ok(11) v(10)] one [OF keys_ok(12) v(11)] one [OF keys_ok(15) v(14)]
      lists [OF keys_ok(13) v(12)] lists [OF keys_ok(14) v(13)] by (rule refl)
qed

lemma fields_top: "l \<in> set (fields 0 k vo) \<Longrightarrow> line_indent l = 0"
  "l \<in> set (list_fields k xs) \<Longrightarrow> line_indent l = 0"
  by (auto simp: fields_def list_fields_def split: option.splits if_splits)

lemma parse_rendered_lines:
  assumes "renderable np fm"
  shows "parse_lines (List.map_filter logical_line (rendered_lines np fm)) default_frontmatter [] = (fm, [])"
proof -
  have ok: "pred_option (quotable np) (fm_title fm)"
    "pred_option (\<lambda>t. canonical_type t \<and> scalar_ok (show_item_type t)) (fm_item_type fm)"
    "pred_option (\<lambda>t. canonical_scope t \<and> scalar_ok (show_scope t)) (fm_scope fm)"
    "pred_option scalar_ok (fm_workspace fm)"
    "pred_option (\<lambda>t. canonical_visibility t \<and> scalar_ok (show_visibility t)) (fm_visibility fm)"
    "renderable_provenance np (fm_provenance fm)"
    "pred_option (\<lambda>t. canonical_confidence t \<and> scalar_ok (show_confidence t)) (fm_confidence fm)"
    "pred_option (quotable np) (fm_expires fm)" "pred_option scalar_ok (fm_tokens_raw fm)"
    "list_all list_item_ok (fm_tags fm)" "list_all list_item_ok (fm_refs fm)"
    "pred_option (quotable np) (fm_updated fm)"
    "fm_tokens fm = Option.bind (fm_tokens_raw fm) parse_tokens"
    using assms by (auto simp: renderable_def renderable_tokens_def split: option.splits)
  have tail: "parse_lines (fields 0 ''updated'' (map_option (debug_str np) (fm_updated fm))) fm' ws
      = (fm'\<lparr>fm_updated := fm_updated fm\<rparr>, ws)" if "fm_updated fm' = None" for fm' ws
    using parse_updated [OF ok(12) that, of "[]" ws] by simp
  have top: "\<forall>l \<in> set (fields 0 ''confidence'' a @ fields 0 ''expires'' b @ fields 0 ''tokens'' c
      @ list_fields ''tags'' d @ list_fields ''refs'' e @ fields 0 ''updated'' f). line_indent l = 0" for a b c d e f
    by (auto dest: fields_top)
  show ?thesis
    unfolding logical_rendered_lines [OF assms]
    by (simp add: default_frontmatter_def tail parse_title [OF ok(1)] parse_type_field [OF ok(2)]
        parse_scope_field [OF ok(3)] parse_workspace [OF ok(4)] parse_visibility_field [OF ok(5)]
        parse_provenance_block [OF ok(6) _ top] parse_confidence_field [OF ok(7)] parse_expires [OF ok(8)]
        parse_tokens_field [OF _ _ ok(9)] parse_list_fields(1) [OF ok(10)]
        parse_list_fields(2) [OF ok(11)] ok(13) [symmetric])
qed

lemma render_parse:
  "renderable np fm \<Longrightarrow> parse (render np fm @ body)
     = \<lparr>pr_frontmatter = fm, pr_body = body, pr_warnings = []\<rparr>"
  using parse_delimited [where ls = "rendered_lines np fm" and body = body, OF clean_rendered_lines parse_rendered_lines]
  by (simp add: render_unlines)

text \<open>
  C1. The serializer and the parser agree: a frontmatter whose values are renderable (quoted values
  that debug-escaping leaves alone, bare values with no comment, quote or list syntax in them)
  comes back from \<open>render\<close> followed by \<open>parse\<close> field for field, with no warning, and
  whatever body follows it comes back unchanged.
\<close>

theorem parse_render_roundtrip:
  assumes "renderable np fm"
  shows "parse (render np fm @ body) = \<lparr>pr_frontmatter = fm, pr_body = body, pr_warnings = []\<rparr>"
  using render_parse [OF assms] .

definition sample_item :: frontmatter where
  "sample_item = default_frontmatter\<lparr>
     fm_title := Some ''Use axum 0.8'', fm_item_type := Some Knowledge, fm_scope := Some ProjectScope,
     fm_workspace := Some ''acme'', fm_visibility := Some Shared,
     fm_provenance := \<lparr>prov_actor = Some ''agent:claude'', prov_session = None, prov_source = Some ToolSource\<rparr>,
     fm_confidence := Some Stated, fm_tags := [''http'', ''rust''], fm_updated := Some ''2026-07-26''\<rparr>"

lemma pred_option_code [code]: "pred_option P None = True" "pred_option P (Some x) = P x"
  by simp_all

lemma sample_item_renderable: "renderable (\<lambda>_. False) sample_item"
  by code_simp

lemma parse_render_roundtrip_witness:
  "parse (render (\<lambda>_. False) sample_item @ ''## Why'')
     = \<lparr>pr_frontmatter = sample_item, pr_body = ''## Why'', pr_warnings = []\<rparr>"
  by (rule parse_render_roundtrip) (rule sample_item_renderable)

end
