(* ===== verification/Merge.thy ===== *)
theory Merge
  imports Frontmatter
begin

text \<open>
  The frontmatter merge driver (crates/wkp-core/src/merge.rs): the three-way rule of one scalar
  field, the fields that always merge, the fallback that keeps both documents, and what a merge
  keeps of each side. The parameter \<open>np\<close> is the table of characters that \<open>{:?}\<close> escapes
  because they do not print.
\<close>

section \<open>The driver\<close>

definition CONFLICT_MARKER :: string where
  "CONFLICT_MARKER = ''<!-- wkp-merge-conflict -->''"

text \<open>The field after the call, and whether it was a conflict.\<close>

definition resolve_scalar :: "'a \<Rightarrow> 'a \<Rightarrow> 'a \<Rightarrow> 'a \<Rightarrow> 'a \<times> bool" where
  "resolve_scalar fld base ours theirs =
     (if ours = theirs then (ours, False)
      else if ours = base then (theirs, False)
      else if theirs = base then (ours, False)
      else (fld, True))"

fun union_loop :: "string list \<Rightarrow> string list \<Rightarrow> string list" where
  "union_loop acc [] = acc"
| "union_loop acc (tag # tags) = union_loop (if tag \<in> set acc then acc else acc @ [tag]) tags"

definition union_tags :: "string list \<Rightarrow> string list \<Rightarrow> string list" where
  "union_tags ours theirs = union_loop ours theirs"

fun max_updated :: "string option \<Rightarrow> string option \<Rightarrow> string option" where
  "max_updated (Some x) (Some y) = Some (if y \<le> x then x else y)"
| "max_updated (Some x) None = Some x"
| "max_updated None (Some y) = Some y"
| "max_updated None None = None"

definition actor_of :: "string \<Rightarrow> string" where
  "actor_of doc =
     (case prov_actor (fm_provenance (pr_frontmatter (parse doc))) of
        Some a \<Rightarrow> a | None \<Rightarrow> ''unknown'')"

definition render_conflict :: "(string \<Rightarrow> bool) \<Rightarrow> string \<Rightarrow> string \<Rightarrow> string" where
  "render_conflict np ours theirs =
     CONFLICT_MARKER @ [nl]
     @ ''<!-- wkp: this item could not be merged structurally; both ''
     @ ''versions are kept below. Resolve by hand and commit normally. -->'' @ [nl, nl]
     @ ''<!-- ours (provenance.actor: '' @ debug_str np (actor_of ours) @ '') -->'' @ [nl]
     @ trim_end ours @ [nl, nl]
     @ ''<!-- theirs (provenance.actor: '' @ debug_str np (actor_of theirs) @ '') -->'' @ [nl]
     @ trim_end theirs @ [nl]"

text \<open>
  The first half of \<open>merge\<close>: the merged frontmatter, which starts as a copy of ours, and the
  accumulated \<open>hard_conflict\<close> flag.
\<close>

definition merge_fields :: "frontmatter \<Rightarrow> frontmatter \<Rightarrow> frontmatter \<Rightarrow> frontmatter \<times> bool" where
  "merge_fields base ours theirs =
     (let merged = ours\<lparr>fm_tags := union_tags (fm_tags ours) (fm_tags theirs)\<rparr>;
          merged = merged\<lparr>fm_updated := max_updated (fm_updated ours) (fm_updated theirs)\<rparr>;
          (v, hard1) = resolve_scalar (fm_title merged) (fm_title base) (fm_title ours) (fm_title theirs);
          merged = merged\<lparr>fm_title := v\<rparr>;
          (v, hard2) = resolve_scalar (fm_item_type merged) (fm_item_type base) (fm_item_type ours)
                         (fm_item_type theirs);
          merged = merged\<lparr>fm_item_type := v\<rparr>;
          (v, hard3) = resolve_scalar (fm_scope merged) (fm_scope base) (fm_scope ours) (fm_scope theirs);
          merged = merged\<lparr>fm_scope := v\<rparr>;
          (v, hard4) = resolve_scalar (fm_workspace merged) (fm_workspace base) (fm_workspace ours)
                         (fm_workspace theirs);
          merged = merged\<lparr>fm_workspace := v\<rparr>;
          (v, hard5) = resolve_scalar (fm_visibility merged) (fm_visibility base) (fm_visibility ours)
                         (fm_visibility theirs);
          merged = merged\<lparr>fm_visibility := v\<rparr>;
          (v, hard6) = resolve_scalar (fm_confidence merged) (fm_confidence base) (fm_confidence ours)
                         (fm_confidence theirs);
          merged = merged\<lparr>fm_confidence := v\<rparr>;
          (v, hard7) = resolve_scalar (fm_expires merged) (fm_expires base) (fm_expires ours)
                         (fm_expires theirs)
      in (merged\<lparr>fm_expires := v\<rparr>,
          hard1 \<or> hard2 \<or> hard3 \<or> hard4 \<or> hard5 \<or> hard6 \<or> hard7))"

definition merge :: "(string \<Rightarrow> bool) \<Rightarrow> string \<Rightarrow> string \<Rightarrow> string \<Rightarrow> string" where
  "merge np base ours theirs =
     (let base_parsed = parse base;
          ours_parsed = parse ours;
          theirs_parsed = parse theirs;
          (merged, hard_conflict) = merge_fields (pr_frontmatter base_parsed)
             (pr_frontmatter ours_parsed) (pr_frontmatter theirs_parsed);
          body_conflict = (pr_body ours_parsed \<noteq> pr_body base_parsed
             \<and> pr_body theirs_parsed \<noteq> pr_body base_parsed
             \<and> pr_body ours_parsed \<noteq> pr_body theirs_parsed)
      in if hard_conflict \<or> body_conflict then render_conflict np ours theirs
         else (let body = (if pr_body ours_parsed \<noteq> pr_body base_parsed then pr_body ours_parsed
                           else pr_body theirs_parsed)
               in render np merged @ [nl] @ body))"

section \<open>Specification\<close>

text \<open>
  The three-way contract of one field: a side that changed it is obeyed, and if none did it stays.
  Two sides that changed it differently have no result.
\<close>

definition three_way :: "'a \<Rightarrow> 'a \<Rightarrow> 'a \<Rightarrow> 'a option" where
  "three_way base ours theirs =
     (if ours = theirs then Some ours
      else if base = ours then Some theirs
      else if base = theirs then Some ours
      else None)"

definition obeys :: "'a \<Rightarrow> 'a \<Rightarrow> 'a \<Rightarrow> 'a \<Rightarrow> bool" where
  "obeys base ours theirs result \<longleftrightarrow>
     (ours \<noteq> base \<longrightarrow> result = ours) \<and> (theirs \<noteq> base \<longrightarrow> result = theirs)
     \<and> (ours = base \<and> theirs = base \<longrightarrow> result = base)"

lemma resolve_scalar_three_way:
  "resolve_scalar fld base ours theirs
     = (case three_way base ours theirs of None \<Rightarrow> (fld, True) | Some r \<Rightarrow> (r, False))"
  by (auto simp: resolve_scalar_def three_way_def)

lemma three_way_obeys: "three_way base ours theirs = Some r \<longleftrightarrow> obeys base ours theirs r"
  by (auto simp: three_way_def obeys_def)

lemma three_way_None:
  "three_way base ours theirs = None \<longleftrightarrow> ours \<noteq> base \<and> theirs \<noteq> base \<and> ours \<noteq> theirs"
  by (auto simp: three_way_def)

lemma three_way_commute: "three_way base ours theirs = three_way base theirs ours"
  by (auto simp: three_way_def)

text \<open>The scalar fields of a header, and when two sides conflict on one of them.\<close>

definition scalars_conflict :: "frontmatter \<Rightarrow> frontmatter \<Rightarrow> frontmatter \<Rightarrow> bool" where
  "scalars_conflict base ours theirs \<longleftrightarrow>
     three_way (fm_title base) (fm_title ours) (fm_title theirs) = None
     \<or> three_way (fm_item_type base) (fm_item_type ours) (fm_item_type theirs) = None
     \<or> three_way (fm_scope base) (fm_scope ours) (fm_scope theirs) = None
     \<or> three_way (fm_workspace base) (fm_workspace ours) (fm_workspace theirs) = None
     \<or> three_way (fm_visibility base) (fm_visibility ours) (fm_visibility theirs) = None
     \<or> three_way (fm_confidence base) (fm_confidence ours) (fm_confidence theirs) = None
     \<or> three_way (fm_expires base) (fm_expires ours) (fm_expires theirs) = None"

definition documents_conflict :: "string \<Rightarrow> string \<Rightarrow> string \<Rightarrow> bool" where
  "documents_conflict base ours theirs \<longleftrightarrow>
     scalars_conflict (pr_frontmatter (parse base)) (pr_frontmatter (parse ours)) (pr_frontmatter (parse theirs))
     \<or> three_way (pr_body (parse base)) (pr_body (parse ours)) (pr_body (parse theirs)) = None"

text \<open>What a merged header is, against the three it came from.\<close>

definition merged_header :: "frontmatter \<Rightarrow> frontmatter \<Rightarrow> frontmatter \<Rightarrow> frontmatter \<Rightarrow> bool" where
  "merged_header base ours theirs m \<longleftrightarrow>
     obeys (fm_title base) (fm_title ours) (fm_title theirs) (fm_title m)
     \<and> obeys (fm_item_type base) (fm_item_type ours) (fm_item_type theirs) (fm_item_type m)
     \<and> obeys (fm_scope base) (fm_scope ours) (fm_scope theirs) (fm_scope m)
     \<and> obeys (fm_workspace base) (fm_workspace ours) (fm_workspace theirs) (fm_workspace m)
     \<and> obeys (fm_visibility base) (fm_visibility ours) (fm_visibility theirs) (fm_visibility m)
     \<and> obeys (fm_confidence base) (fm_confidence ours) (fm_confidence theirs) (fm_confidence m)
     \<and> obeys (fm_expires base) (fm_expires ours) (fm_expires theirs) (fm_expires m)
     \<and> set (fm_tags m) = set (fm_tags ours) \<union> set (fm_tags theirs)
     \<and> fm_updated m = (if fm_updated ours = None then fm_updated theirs
                        else if fm_updated theirs = None then fm_updated ours
                        else Some (max (the (fm_updated ours)) (the (fm_updated theirs))))
     \<and> fm_provenance m = fm_provenance ours \<and> fm_refs m = fm_refs ours
     \<and> fm_tokens_raw m = fm_tokens_raw ours \<and> fm_tokens m = fm_tokens ours"

lemma set_union_loop: "set (union_loop acc tags) = set acc \<union> set tags"
  by (induction acc tags rule: union_loop.induct) auto

lemma distinct_union_loop: "distinct acc \<Longrightarrow> distinct (union_loop acc tags)"
  by (induction acc tags rule: union_loop.induct) auto

lemma union_loop_prefix: "\<exists>extra. union_loop acc tags = acc @ extra"
proof (induction acc tags rule: union_loop.induct)
  case (2 acc tag tags)
  then show ?case by (cases "tag \<in> set acc") auto
qed simp

lemma max_updated_max:
  "max_updated x y = (if x = None then y else if y = None then x else Some (max (the x) (the y)))"
  by (cases x; cases y) (auto simp: max_def)

lemmas merge_parts = resolve_scalar_three_way scalars_conflict_def union_tags_def set_union_loop
  max_updated_max three_way_obeys [symmetric]

lemma merge_fields_conflict:
  "snd (merge_fields base ours theirs) \<longleftrightarrow> scalars_conflict base ours theirs"
  by (simp add: merge_fields_def resolve_scalar_three_way scalars_conflict_def Let_def split: option.splits)

lemma merge_fields_header:
  assumes "\<not> scalars_conflict base ours theirs"
  shows "merged_header base ours theirs (fst (merge_fields base ours theirs))"
proof -
  from assms obtain a b c d e f g where three:
    "three_way (fm_title base) (fm_title ours) (fm_title theirs) = Some a"
    "three_way (fm_item_type base) (fm_item_type ours) (fm_item_type theirs) = Some b"
    "three_way (fm_scope base) (fm_scope ours) (fm_scope theirs) = Some c"
    "three_way (fm_workspace base) (fm_workspace ours) (fm_workspace theirs) = Some d"
    "three_way (fm_visibility base) (fm_visibility ours) (fm_visibility theirs) = Some e"
    "three_way (fm_confidence base) (fm_confidence ours) (fm_confidence theirs) = Some f"
    "three_way (fm_expires base) (fm_expires ours) (fm_expires theirs) = Some g"
    by (auto simp: scalars_conflict_def)
  then show ?thesis
    by (simp add: merge_fields_def merged_header_def resolve_scalar_three_way union_tags_def set_union_loop
        max_updated_max three_way_obeys [symmetric])
qed

lemma scalars_conflict_commute: "scalars_conflict base ours theirs = scalars_conflict base theirs ours"
  by (simp add: scalars_conflict_def three_way_commute [of _ "f ours" for f])

lemma documents_conflict_commute: "documents_conflict base ours theirs = documents_conflict base theirs ours"
  by (simp add: documents_conflict_def scalars_conflict_commute three_way_commute)

lemma merge_cases:
  "merge np base ours theirs =
     (if documents_conflict base ours theirs then render_conflict np ours theirs
      else render np (fst (merge_fields (pr_frontmatter (parse base)) (pr_frontmatter (parse ours))
                             (pr_frontmatter (parse theirs))))
           @ [nl] @ (if pr_body (parse ours) \<noteq> pr_body (parse base) then pr_body (parse ours)
                     else pr_body (parse theirs)))"
proof -
  obtain m h where mf: "merge_fields (pr_frontmatter (parse base)) (pr_frontmatter (parse ours))
      (pr_frontmatter (parse theirs)) = (m, h)" by (cases "merge_fields (pr_frontmatter (parse base))
      (pr_frontmatter (parse ours)) (pr_frontmatter (parse theirs))") auto
  then have "h = scalars_conflict (pr_frontmatter (parse base)) (pr_frontmatter (parse ours))
      (pr_frontmatter (parse theirs))" using merge_fields_conflict by (metis snd_conv)
  with mf show ?thesis
    by (simp add: merge_def documents_conflict_def three_way_None Let_def)
qed

lemma merge_fields_cong:
  assumes "fm_title t = fm_title t'" "fm_item_type t = fm_item_type t'" "fm_scope t = fm_scope t'"
    "fm_workspace t = fm_workspace t'" "fm_visibility t = fm_visibility t'"
    "fm_confidence t = fm_confidence t'" "fm_expires t = fm_expires t'" "fm_tags t = fm_tags t'"
    "fm_updated t = fm_updated t'"
  shows "merge_fields b ours t = merge_fields b ours t'"
  using assms by (simp add: merge_fields_def)

lemma render_conflict_shape:
  "\<exists>intro middle. render_conflict np ours theirs
     = CONFLICT_MARKER @ intro @ trim_end ours @ middle @ trim_end theirs @ [nl]"
proof -
  define intro where "intro = [nl] @ ''<!-- wkp: this item could not be merged structurally; both ''
     @ ''versions are kept below. Resolve by hand and commit normally. -->'' @ [nl, nl]
     @ ''<!-- ours (provenance.actor: '' @ debug_str np (actor_of ours) @ '') -->'' @ [nl]"
  define middle where "middle = [nl, nl]
     @ ''<!-- theirs (provenance.actor: '' @ debug_str np (actor_of theirs) @ '') -->'' @ [nl]"
  have "render_conflict np ours theirs
      = CONFLICT_MARKER @ intro @ trim_end ours @ middle @ trim_end theirs @ [nl]"
    by (simp add: render_conflict_def intro_def middle_def)
  then show ?thesis by blast
qed

section \<open>What a merge keeps\<close>


text \<open>
  What a clean merge writes is a document again: reading it back gives the merged header with no
  warning and the merged body, one line feed longer than the body that was merged.
\<close>

lemma merge_clean_parse:
  assumes "\<not> documents_conflict base ours theirs"
    and "m = fst (merge_fields (pr_frontmatter (parse base)) (pr_frontmatter (parse ours))
                    (pr_frontmatter (parse theirs)))"
    and "renderable np m"
  shows "parse (merge np base ours theirs)
     = \<lparr>pr_frontmatter = m,
        pr_body = nl # (if pr_body (parse ours) \<noteq> pr_body (parse base) then pr_body (parse ours)
                        else pr_body (parse theirs)),
        pr_warnings = []\<rparr>"
  using assms render_parse [OF assms(3)] by (simp add: merge_cases)

text \<open>
  The header fields that the driver does not look at on their side are lost in a clean merge: two
  versions of theirs that differ only in references, token count and provenance merge to the same
  document, so what they say about these fields reaches the output in no form.
\<close>

lemma merge_ignores_their_refs:
  assumes "pr_body (parse theirs') = pr_body (parse theirs)"
    and "pr_frontmatter (parse theirs')
           = (pr_frontmatter (parse theirs))\<lparr>fm_refs := refs, fm_tokens_raw := raw, fm_tokens := tokens,
                fm_provenance := p\<rparr>"
    and "\<not> documents_conflict base ours theirs"
  shows "merge np base ours theirs' = merge np base ours theirs"
proof -
  have same: "merge_fields b f (pr_frontmatter (parse theirs')) = merge_fields b f (pr_frontmatter (parse theirs))" for b f
    by (rule merge_fields_cong) (simp_all add: assms(2))
  have "documents_conflict base ours theirs' = documents_conflict base ours theirs"
    by (simp add: documents_conflict_def scalars_conflict_def assms(1,2))
  then show ?thesis using assms(3) by (simp add: merge_cases same assms(1))
qed

text \<open>The document of these examples, and the version that adds a reference to it.\<close>

definition doc_base :: string where
  "doc_base = ''---'' @ [nl] @ ''title: A'' @ [nl] @ ''---'' @ [nl] @ ''x''"

definition doc_retitled :: string where
  "doc_retitled = ''---'' @ [nl] @ ''title: B'' @ [nl] @ ''---'' @ [nl] @ ''x''"

definition doc_with_ref :: string where
  "doc_with_ref = ''---'' @ [nl] @ ''title: A'' @ [nl] @ ''refs: [y.md]'' @ [nl] @ ''---'' @ [nl] @ ''x''"

lemma parse_docs:
  "parse doc_base = \<lparr>pr_frontmatter = default_frontmatter\<lparr>fm_title := Some ''A''\<rparr>, pr_body = ''x'', pr_warnings = []\<rparr>"
  "parse doc_retitled = \<lparr>pr_frontmatter = default_frontmatter\<lparr>fm_title := Some ''B''\<rparr>, pr_body = ''x'', pr_warnings = []\<rparr>"
  "parse doc_with_ref = \<lparr>pr_frontmatter = default_frontmatter\<lparr>fm_title := Some ''A'', fm_refs := [''y.md'']\<rparr>,
     pr_body = ''x'', pr_warnings = []\<rparr>"
  by code_simp+

lemma merge_docs:
  "\<not> documents_conflict doc_base doc_retitled doc_base"
  "fst (merge_fields (pr_frontmatter (parse doc_base)) (pr_frontmatter (parse doc_retitled))
          (pr_frontmatter (parse doc_base))) = default_frontmatter\<lparr>fm_title := Some ''B''\<rparr>"
  "renderable (\<lambda>_. False) (default_frontmatter\<lparr>fm_title := Some ''B''\<rparr>)"
  by (simp_all add: documents_conflict_def scalars_conflict_def three_way_def parse_docs default_frontmatter_def
      merge_fields_def resolve_scalar_def union_tags_def) code_simp

lemma merge_clean_parse_witness:
  "parse (merge (\<lambda>_. False) doc_base doc_retitled doc_base)
     = \<lparr>pr_frontmatter = default_frontmatter\<lparr>fm_title := Some ''B''\<rparr>, pr_body = nl # ''x'', pr_warnings = []\<rparr>"
  using merge_clean_parse [OF merge_docs(1) merge_docs(2) [symmetric] merge_docs(3)]
  by (simp add: parse_docs)

lemma merge_ignores_their_refs_witness:
  "fm_refs (pr_frontmatter (parse doc_with_ref)) = [''y.md'']
   \<and> merge (\<lambda>_. False) doc_base doc_retitled doc_with_ref = merge (\<lambda>_. False) doc_base doc_retitled doc_base"
proof (rule conjI)
  show "fm_refs (pr_frontmatter (parse doc_with_ref)) = [''y.md'']" by (simp add: parse_docs)
  show "merge (\<lambda>_. False) doc_base doc_retitled doc_with_ref = merge (\<lambda>_. False) doc_base doc_retitled doc_base"
    by (rule merge_ignores_their_refs [OF _ _ merge_docs(1), where refs = "[''y.md'']" and raw = None
          and tokens = None and p = default_provenance])
       (simp_all add: parse_docs default_frontmatter_def)
qed

end
