(* ===== verification/Tier.thy ===== *)
theory Tier
  imports Frontmatter "HOL-Library.Signed_Division"
begin

text \<open>
  The tier gate (crates/wkp-core/src/index/tier.rs): which items may be injected at session start,
  the expiry comparison and the calendar date it compares with, and the token estimate. The system
  clock is a parameter: \<open>today\<close> where a function reads the date, and the seconds since the epoch of
  \<open>today_iso_date\<close>. \<open>None\<close> is a panic.
\<close>

section \<open>The gate\<close>

definition is_expired :: "string \<Rightarrow> string \<Rightarrow> bool option" where
  "is_expired today expires =
     (if length expires < 10 then Some False
      else map_option (\<lambda>date. date < today) (slice_to expires 10))"

definition compute_tier :: "string \<Rightarrow> string \<Rightarrow> frontmatter \<Rightarrow> bool \<Rightarrow> nat option" where
  "compute_tier today path fm human_signed =
     (if starts_with path ''inbox/'' \<or> contains_str path ''/inbox/'' then Some 2
      else if \<not> human_signed then Some 2
      else Option.bind (case fm_expires fm of None \<Rightarrow> Some False | Some e \<Rightarrow> is_expired today e)
        (\<lambda>expired.
           if expired then Some 2
           else (case fm_item_type fm of
              Some Instruction \<Rightarrow>
                if starts_with path ''user/'' \<or> contains_str path ''projects/'' then Some 0 else Some 2
            | Some ProjectState \<Rightarrow> Some 0
            | Some Feedback \<Rightarrow> Some 1
            | Some Knowledge \<Rightarrow> Some 1
            | _ \<Rightarrow> Some 2)))"

text \<open>The count of characters is cast to 32 bits before the division.\<close>

definition estimate_tokens :: "frontmatter \<Rightarrow> string \<Rightarrow> u32" where
  "estimate_tokens fm body =
     (case fm_tokens fm of
        Some t \<Rightarrow> t
      | None \<Rightarrow> max (word_of_nat (length (chars body)) div 4) 1)"

section \<open>The calendar\<close>

text \<open>
  Signed division truncates towards zero. The unsigned intermediate values stay within their ranges
  (\<open>civil_ranges\<close>), so integers stand for them.
\<close>

definition civil_from_days :: "int \<Rightarrow> int \<times> int \<times> int" where
  "civil_from_days z0 =
     (let z = z0 + 719468;
          era = (if z \<ge> 0 then z else z - 146096) sdiv 146097;
          doe = z - era * 146097;
          yoe = (doe - doe div 1460 + doe div 36524 - doe div 146096) div 365;
          y = yoe + era * 400;
          doy = doe - (365 * yoe + yoe div 4 - yoe div 100);
          mp = (5 * doy + 2) div 153;
          d = doy - (153 * mp + 2) div 5 + 1;
          m = (if mp < 10 then mp + 3 else mp - 9);
          y = (if m \<le> 2 then y + 1 else y)
      in (y, m, d))"

text \<open>\<open>{:04}\<close> and \<open>{:02}\<close>: at least that many characters, with zeros after the sign.\<close>

definition zero_pad :: "nat \<Rightarrow> int \<Rightarrow> string" where
  "zero_pad w n =
     (let sign = (if n < 0 then ''-'' else []); digits = show_nat (nat \<bar>n\<bar>)
      in sign @ replicate (w - length sign - length digits) (CHR ''0'') @ digits)"

definition today_iso_date :: "nat \<Rightarrow> string" where
  "today_iso_date secs_since_epoch =
     (let (year, month, day) = civil_from_days (int (secs_since_epoch div 86400))
      in zero_pad 4 year @ ''-'' @ zero_pad 2 month @ ''-'' @ zero_pad 2 day)"

section \<open>What the gate lets through\<close>

definition in_inbox :: "string \<Rightarrow> bool" where
  "in_inbox path \<longleftrightarrow> starts_with path ''inbox/'' \<or> contains_str path ''/inbox/''"

text \<open>An item with no expiry date, one too short to be a date, or one that is not before today.\<close>

definition unexpired :: "string \<Rightarrow> string option \<Rightarrow> bool" where
  "unexpired today expires =
     (case expires of
        None \<Rightarrow> True
      | Some e \<Rightarrow> length e < 10 \<or> (is_char_boundary e 10 \<and> today \<le> take 10 e))"

lemma is_expired_Some:
  "is_expired today e = Some False \<longleftrightarrow> unexpired today (Some e)"
  "is_expired today e = None \<longleftrightarrow> 10 \<le> length e \<and> \<not> is_char_boundary e 10"
  by (auto simp: is_expired_def unexpired_def slice_to_def)

lemma compute_tier_cases:
  "compute_tier today path fm human_signed =
     (if in_inbox path \<or> \<not> human_signed then Some 2
      else (case fm_expires fm of
              Some e \<Rightarrow> if 10 \<le> length e \<and> \<not> is_char_boundary e 10 then None
                        else if \<not> unexpired today (Some e) then Some 2
                        else compute_tier today path (fm\<lparr>fm_expires := None\<rparr>) True
            | None \<Rightarrow> compute_tier today path (fm\<lparr>fm_expires := None\<rparr>) True))"
  by (cases "fm_expires fm")
     (auto simp: compute_tier_def in_inbox_def is_expired_def unexpired_def slice_to_def)

lemma compute_tier_unexpiring:
  "\<not> in_inbox path \<Longrightarrow> compute_tier today path (fm\<lparr>fm_expires := None\<rparr>) True =
     (case fm_item_type fm of
        Some Instruction \<Rightarrow> if starts_with path ''user/'' \<or> contains_str path ''projects/'' then Some 0 else Some 2
      | Some ProjectState \<Rightarrow> Some 0
      | Some Feedback \<Rightarrow> Some 1
      | Some Knowledge \<Rightarrow> Some 1
      | _ \<Rightarrow> Some 2)"
  by (simp add: compute_tier_def in_inbox_def)


text \<open>
  A malformed date can take the indexer down: the gate panics exactly for a signed item outside
  the inbox whose expiry has at least ten bytes and a character across the tenth.
\<close>

lemma tier_panics:
  "compute_tier today path fm human_signed = None
     \<longleftrightarrow> human_signed \<and> \<not> in_inbox path
         \<and> (\<exists>e. fm_expires fm = Some e \<and> 10 \<le> length e \<and> \<not> is_char_boundary e 10)"
proof (cases "in_inbox path \<or> \<not> human_signed")
  case False
  then have plain: "compute_tier today path (fm\<lparr>fm_expires := None\<rparr>) True \<noteq> None"
    by (simp add: compute_tier_unexpiring split: option.splits item_type.splits)
  with False show ?thesis
    unfolding compute_tier_cases [of today path fm human_signed] by (auto split: option.splits)
qed (auto simp: compute_tier_cases)

text \<open>Such a date: the month digit before a two-byte character.\<close>

lemma tier_panics_example:
  "compute_tier ''2026-07-26'' ''a.md'' (default_frontmatter\<lparr>fm_expires := Some (''2026-01-0'' @ [CHR 0xC3, CHR 0xA9])\<rparr>)
     True = None"
  by code_simp

section \<open>The calendar is the Gregorian one\<close>

definition leap :: "int \<Rightarrow> bool" where
  "leap y \<longleftrightarrow> y mod 4 = 0 \<and> (y mod 100 \<noteq> 0 \<or> y mod 400 = 0)"

definition month_len :: "int \<Rightarrow> int \<Rightarrow> int" where
  "month_len y m = (if m = 2 then (if leap y then 29 else 28) else if m \<in> {4, 6, 9, 11} then 30 else 31)"

definition valid_date :: "int \<times> int \<times> int \<Rightarrow> bool" where
  "valid_date date = (case date of (y, m, d) \<Rightarrow> 1 \<le> m \<and> m \<le> 12 \<and> 1 \<le> d \<and> d \<le> month_len y m)"

text \<open>Days before a year, days of a year before a month, and the number of a day since 0001-01-01.\<close>

definition year_start :: "int \<Rightarrow> int" where
  "year_start n = 365 * n + n div 4 - n div 100 + n div 400"

definition month_start :: "int \<Rightarrow> int" where
  "month_start m = [0, 31, 59, 90, 120, 151, 181, 212, 243, 273, 304, 334] ! nat (m - 1)"

definition day_number :: "int \<times> int \<times> int \<Rightarrow> int" where
  "day_number date =
     (case date of (y, m, d) \<Rightarrow>
        year_start (y - 1) + month_start m + (if 2 < m \<and> leap y then 1 else 0) + d)"

lemma sdiv_era: "(if z \<ge> 0 then z else z - 146096) sdiv 146097 = (z::int) div 146097"
proof (cases "z \<ge> 0")
  case True
  then show ?thesis by (simp add: signed_divide_int_def sgn_if)
next
  case False
  have "146096 - z = 146097 * (- (z div 146097)) + (146096 - z mod 146097)"
    using mult_div_mod_eq [of 146097 z] by linarith
  then have "(146096 - z) div 146097 = - (z div 146097)"
    by (rule int_div_pos_eq) (simp_all add: pos_mod_bound less_imp_le zle_diff1_eq [of _ 146097, simplified])
  with False show ?thesis by (simp add: signed_divide_int_def sgn_if)
qed

lemma int_div_Suc: "k > 0 \<Longrightarrow> (n + 1) div k = n div k + (if (n + 1) mod k = 0 then 1 else 0)" for k n :: int
proof (cases "n mod k + 1 = k")
  case True
  assume k: "k > 0"
  have "n + 1 = k * (n div k + 1) + 0"
    using mult_div_mod_eq [of k n] True distrib_left [of k "n div k" 1] by linarith
  then show ?thesis using k by (simp add: int_div_pos_eq)
next
  case False
  assume k: "k > 0"
  have r: "0 \<le> n mod k" "n mod k < k" using k by simp_all
  have n: "n + 1 = k * (n div k) + (n mod k + 1)" using mult_div_mod_eq [of k n] by simp
  have "(n + 1) div k = n div k" by (rule int_div_pos_eq [OF n]) (use False r in simp_all)
  moreover have "(n + 1) mod k = n mod k + 1" by (rule int_mod_pos_eq [OF n]) (use False r in simp_all)
  ultimately show ?thesis using r by simp
qed

lemma year_start_Suc: "year_start (n + 1) = year_start n + 365 + (if leap (n + 1) then 1 else 0)"
proof -
  have "(400::int) dvd m \<Longrightarrow> 100 dvd m" "(100::int) dvd m \<Longrightarrow> 4 dvd m" for m
    by (erule dvd_trans [rotated], simp)+
  then have nested: "(n + 1) mod 400 = 0 \<longrightarrow> (n + 1) mod 100 = 0" "(n + 1) mod 100 = 0 \<longrightarrow> (n + 1) mod 4 = 0"
    unfolding mod_eq_0_iff_dvd by blast+
  have pos: "(0::int) < 4" "(0::int) < 100" "(0::int) < 400" by simp_all
  have arith: "365 * (n + 1) + (a + (if P then 1 else 0)) - (b + (if Q then 1 else 0)) + (c + (if R then 1 else 0))
      = 365 * n + a - b + c + 365 + (if P \<and> (\<not> Q \<or> R) then 1 else 0)"
    if "R \<longrightarrow> Q" "Q \<longrightarrow> P" for a b c :: int and P Q R
    using that by (cases P; cases Q; cases R; simp)
  have "year_start (n + 1) = 365 * (n + 1) + (n div 4 + (if (n + 1) mod 4 = 0 then 1 else 0))
      - (n div 100 + (if (n + 1) mod 100 = 0 then 1 else 0)) + (n div 400 + (if (n + 1) mod 400 = 0 then 1 else 0))"
    unfolding year_start_def int_div_Suc [OF pos(1)] int_div_Suc [OF pos(2)] int_div_Suc [OF pos(3)] by (rule refl)
  also have "\<dots> = year_start n + 365 + (if leap (n + 1) then 1 else 0)"
    unfolding year_start_def leap_def by (rule arith [OF nested])
  finally show ?thesis .
qed

text \<open>
  The year of the era: the numerator of the formula grows with the day, so it is enough to look at
  the first and the last day of each year of an era, which starts on the first of March.
\<close>

definition shifted_day :: "int \<Rightarrow> int" where
  "shifted_day doe = doe - doe div 1460 + doe div 36524 - doe div 146096"

lemma shifted_day_Suc: "shifted_day doe \<le> shifted_day (doe + 1)"
proof -
  have a: "(doe + 1) div 1460 \<le> doe div 1460 + 1" by (simp add: int_div_Suc)
  have b: "(doe + 1) div 36524 - (doe + 1) div 146096 \<ge> doe div 36524 - doe div 146096"
  proof -
    have q: "n div 146096 = (n div 36524) div 4" for n :: int by (simp add: zdiv_zmult2_eq [symmetric])
    have "doe div 36524 \<le> (doe + 1) div 36524" by (simp add: zdiv_mono1)
    moreover have "e \<le> f \<Longrightarrow> e - e div 4 \<le> f - f div 4" for e f :: int by presburger
    ultimately show ?thesis unfolding q by blast
  qed
  show ?thesis unfolding shifted_day_def using a b by linarith
qed

lemma shifted_day_mono: "a \<le> b \<Longrightarrow> shifted_day a \<le> shifted_day b"
proof (induction "nat (b - a)" arbitrary: b)
  case (Suc n)
  have "shifted_day a \<le> shifted_day (b - 1)" using Suc by (intro Suc.hyps(1)) linarith+
  then show ?case using shifted_day_Suc [of "b - 1"] by simp
qed simp

definition era_year_ok :: "int \<Rightarrow> bool" where
  "era_year_ok y \<longleftrightarrow> shifted_day (year_start y) div 365 = y \<and> shifted_day (year_start (y + 1) - 1) div 365 = y"


lemma era_years_ok: "list_all era_year_ok [0..399]"
  by code_simp

lemma era_year:
  assumes "0 \<le> y" "y < 400" "year_start y \<le> doe" "doe < year_start (y + 1)"
  shows "shifted_day doe div 365 = y"
proof -
  have ok: "era_year_ok y" using era_years_ok assms(1,2) by (simp add: list_all_iff)
  have "shifted_day (year_start y) div 365 \<le> shifted_day doe div 365"
    "shifted_day doe div 365 \<le> shifted_day (year_start (y + 1) - 1) div 365"
    using shifted_day_mono assms(3,4) by (intro zdiv_mono1; simp)+
  then show ?thesis using ok by (simp add: era_year_ok_def)
qed

lemma find_year:
  fixes n :: nat
  assumes "0 \<le> doe" "doe < year_start (int n)"
  shows "\<exists>y. 0 \<le> y \<and> y < int n \<and> year_start y \<le> doe \<and> doe < year_start (y + 1)"
  using assms(2)
proof (induction n)
  case 0
  then show ?case using assms(1) by (simp add: year_start_def)
next
  case (Suc n)
  show ?case
  proof (cases "doe < year_start (int n)")
    case True
    with Suc.IH obtain y where "0 \<le> y \<and> y < int n \<and> year_start y \<le> doe \<and> doe < year_start (y + 1)" by blast
    then show ?thesis by (intro exI [of _ y]) simp
  next
    case False
    then show ?thesis using Suc.prems by (intro exI [of _ "int n"]) (simp add: add.commute)
  qed
qed

text \<open>The month and the day, for each of the 366 days after the first of March.\<close>

definition month_day_ok :: "int \<Rightarrow> bool" where
  "month_day_ok doy =
     (let mp = (5 * doy + 2) div 153;
          d = doy - (153 * mp + 2) div 5 + 1;
          m = (if mp < 10 then mp + 3 else mp - 9)
      in 1 \<le> m \<and> m \<le> 12 \<and> 1 \<le> d
         \<and> d \<le> (if m = 2 then (if doy = 365 then 29 else 28) else if m \<in> {4, 6, 9, 11} then 30 else 31)
         \<and> (doy = 365 \<longrightarrow> m = 2)
         \<and> doy + 1 = (if m \<le> 2 then 306 + month_start m + d else month_start m - 59 + d))"

lemma month_days_ok: "list_all month_day_ok [0..365]"
  by code_simp

lemma year_start_era: "year_start (y + era * 400) = year_start y + era * 146097"
proof -
  have "y + era * 400 = y + (era * 100) * 4" "y + era * 400 = y + (era * 4) * 100" by simp_all
  then have "(y + era * 400) div 4 = y div 4 + era * 100" "(y + era * 400) div 100 = y div 100 + era * 4"
    using div_mult_self1 [of 4 y "era * 100"] div_mult_self1 [of 100 y "era * 4"] by simp_all
  then show ?thesis by (simp add: year_start_def)
qed

text \<open>The decomposition that the algorithm computes, and the ranges of its unsigned values.\<close>

lemma civil_ranges:
  fixes z0 :: int
  defines "z \<equiv> z0 + 719468"
  defines "doe \<equiv> z mod 146097"
  defines "yoe \<equiv> shifted_day doe div 365"
  shows "0 \<le> doe" "doe \<le> 146096" "0 \<le> yoe" "yoe \<le> 399"
    "0 \<le> doe - (365 * yoe + yoe div 4 - yoe div 100)" "doe - (365 * yoe + yoe div 4 - yoe div 100) \<le> 365"
    "doe - (365 * yoe + yoe div 4 - yoe div 100) = 365 \<longrightarrow> leap (yoe + 1)"
proof -
  show doe: "0 \<le> doe" "doe \<le> 146096" by (simp_all add: doe_def)
  have "doe < year_start (int 400)" using doe(2) by (simp add: year_start_def)
  from find_year [OF doe(1) this] obtain y where
    y: "0 \<le> y" "y < 400" "year_start y \<le> doe" "doe < year_start (y + 1)" by auto
  have eq: "yoe = y" using era_year [OF y] by (simp add: yoe_def)
  have start: "year_start y = 365 * y + y div 4 - y div 100"
    using y(1,2) by (simp add: year_start_def div_pos_pos_trivial)
  show "0 \<le> yoe" "yoe \<le> 399" using y eq by simp_all
  show "0 \<le> doe - (365 * yoe + yoe div 4 - yoe div 100)" using y(3) start eq by simp
  show "doe - (365 * yoe + yoe div 4 - yoe div 100) \<le> 365"
    "doe - (365 * yoe + yoe div 4 - yoe div 100) = 365 \<longrightarrow> leap (yoe + 1)"
    using y(4) start year_start_Suc [of y] eq by (auto split: if_splits)
qed

text \<open>
  The date of a day count is the Gregorian one: for every day before and after the epoch it is a
  valid date, and the number of that date counts the same days from 1970-01-01.
\<close>

lemma civil_from_days_correct:
  "valid_date (civil_from_days z)
   \<and> day_number (civil_from_days z) = day_number (1970, 1, 1) + z"
proof -
  define zz where "zz = z + 719468"
  define era where "era = zz div 146097"
  define doe where "doe = zz mod 146097"
  define yoe where "yoe = shifted_day doe div 365"
  define doy where "doy = doe - (365 * yoe + yoe div 4 - yoe div 100)"
  define mp where "mp = (5 * doy + 2) div 153"
  define d where "d = doy - (153 * mp + 2) div 5 + 1"
  define m where "m = (if mp < 10 then mp + 3 else mp - 9)"
  define y where "y = yoe + era * 400"
  have doe: "zz - era * 146097 = doe" unfolding doe_def era_def by (simp add: minus_div_mult_eq_mod)
  have ranges: "0 \<le> yoe" "yoe \<le> 399" "0 \<le> doy" "doy \<le> 365" "doy = 365 \<longrightarrow> leap (yoe + 1)"
    using civil_ranges [of z, folded zz_def, folded doe_def, folded yoe_def, folded doy_def] by blast+
  have civil: "civil_from_days z = (if m \<le> 2 then y + 1 else y, m, d)"
    unfolding civil_from_days_def Let_def sdiv_era zz_def [symmetric] era_def [symmetric] doe
      shifted_day_def [symmetric] yoe_def [symmetric] doy_def [symmetric] mp_def [symmetric]
      d_def [symmetric] m_def [symmetric] y_def [symmetric] by (rule refl)
  have "month_day_ok doy" using month_days_ok ranges(3,4) by (simp add: list_all_iff)
  then have md: "1 \<le> m" "m \<le> 12" "1 \<le> d"
    "d \<le> (if m = 2 then (if doy = 365 then 29 else 28) else if m \<in> {4, 6, 9, 11} then 30 else 31)"
    "doy = 365 \<longrightarrow> m = 2"
    "doy + 1 = (if m \<le> 2 then 306 + month_start m + d else month_start m - 59 + d)"
    unfolding month_day_ok_def Let_def mp_def [symmetric] d_def [symmetric] m_def [symmetric] by blast+
  have leap_era: "leap (y + 1) = leap (yoe + 1)"
    using year_start_era [of "yoe + 1" era] year_start_era [of yoe era] year_start_Suc [of y] year_start_Suc [of yoe]
    by (simp add: y_def algebra_simps split: if_splits)
  have valid: "valid_date (civil_from_days z)"
    unfolding civil valid_date_def month_len_def using md(1-5) ranges(5) leap_era
    by (auto split: if_splits)
  have start: "year_start yoe = 365 * yoe + yoe div 4 - yoe div 100"
    using ranges(1,2) by (simp add: year_start_def)
  have z: "z + 719468 = year_start y + doy"
    using doe start year_start_era [of yoe era] unfolding doy_def y_def zz_def by linarith
  have "year_start y = year_start (y - 1) + 365 + (if leap y then 1 else 0)"
    using year_start_Suc [of "y - 1"] by simp
  then have "day_number (civil_from_days z) = z + 719163"
    unfolding civil day_number_def using z md(6) by (auto split: if_splits)
  moreover have "day_number (1970, 1, 1) = 719163"
    by code_simp
  ultimately show ?thesis using valid by simp
qed

end
