(* ===== verification/Graph.thy ===== *)
theory Graph
  imports RustStr
begin

text \<open>
  Reference extraction (crates/wkp-core/src/graph.rs): the names of the \<open>[[wikilink]]\<close> mentions of
  a body, and the normalization of a \<open>refs:\<close> entry to a path below the store root.
\<close>

section \<open>Wikilinks\<close>

lemma split_once_shorter:
  "split_once s p = Some (a, b) \<Longrightarrow> p \<noteq> [] \<Longrightarrow> length b < length s"
  by (auto dest!: split_once_Some)

definition link_name :: "string \<Rightarrow> string" where
  "link_name inner = trim (takeWhile (\<lambda>c. c \<noteq> CHR ''|'' \<and> c \<noteq> CHR ''#'') inner)"

text \<open>The loop of \<open>extract_wikilink_names\<close>, with the names it has pushed.\<close>

function wikilink_loop :: "string \<Rightarrow> string list \<Rightarrow> string list" where
  "wikilink_loop rest names =
     (case split_once rest ''[['' of
        None \<Rightarrow> names
      | Some (before, after) \<Rightarrow>
          (case split_once after '']]'' of
             None \<Rightarrow> names
           | Some (inner, rest') \<Rightarrow>
               (let name = link_name inner
                in wikilink_loop rest' (if name \<noteq> [] then names @ [name] else names))))"
  by pat_completeness auto
termination
proof (relation "measure (\<lambda>(rest, names). length rest)")
  fix rest names :: "string list" and x before after y inner rest' name
  fix rest :: string
  assume "split_once rest ''[['' = Some x" "(before, after) = x"
    "split_once after '']]'' = Some y" "(inner, rest') = y"
  then have "length after < length rest" "length rest' < length after"
    using split_once_shorter [of rest "''[[''" before after] split_once_shorter [of after "'']]''" inner rest']
    by auto
  then show "((rest', if name \<noteq> [] then names @ [name] else names), rest, names)
      \<in> measure (\<lambda>(rest, names). length rest)" by simp
qed simp

declare wikilink_loop.simps [simp del]

definition extract_wikilink_names :: "string \<Rightarrow> string list" where
  "extract_wikilink_names body = wikilink_loop body []"

section \<open>Paths\<close>

text \<open>
  A Unix path as the standard library reads it: \<open>components\<close> keeps the root, drops empty parts and
  every \<open>.\<close> except a leading one of a relative path. Path operations work on these components.
\<close>

datatype component = RootDir | CurDir | ParentDir | Normal string

definition part_component :: "string \<Rightarrow> component option" where
  "part_component part =
     (if part = [] \<or> part = ''.'' then None else if part = ''..'' then Some ParentDir else Some (Normal part))"

definition components :: "string \<Rightarrow> component list" where
  "components path =
     (let parts = split_char (CHR ''/'') path;
          rest = List.map_filter part_component parts
      in if starts_with path ''/'' then RootDir # rest
         else if hd parts = ''.'' then CurDir # rest
         else rest)"

text \<open>\<open>Path::parent\<close> and \<open>PathBuf::pop\<close>: nothing below an empty path or the root.\<close>

definition path_parent :: "component list \<Rightarrow> component list option" where
  "path_parent p = (if p = [] \<or> last p = RootDir then None else Some (butlast p))"

definition path_join :: "component list \<Rightarrow> component list \<Rightarrow> component list" where
  "path_join p q =
     (if q \<noteq> [] \<and> hd q = RootDir then q
      else if p = [] then q
      else p @ (if q \<noteq> [] \<and> hd q = CurDir then tl q else q))"

fun component_str :: "component \<Rightarrow> string" where
  "component_str RootDir = ''/''"
| "component_str CurDir = ''.''"
| "component_str ParentDir = ''..''"
| "component_str (Normal n) = n"

fun path_str :: "component list \<Rightarrow> string" where
  "path_str (RootDir # p) = ''/'' @ join ''/'' (map component_str p)"
| "path_str p = join ''/'' (map component_str p)"

text \<open>One round of the loop of \<open>normalize_path\<close>; \<open>push\<close> of a root replaces the path.\<close>

definition normalize_step :: "component list \<Rightarrow> component \<Rightarrow> component list" where
  "normalize_step out c =
     (case c of
        ParentDir \<Rightarrow> (case path_parent out of Some up \<Rightarrow> up | None \<Rightarrow> path_join out [ParentDir])
      | CurDir \<Rightarrow> out
      | other \<Rightarrow> path_join out [other])"

definition normalize_path :: "component list \<Rightarrow> component list" where
  "normalize_path path = foldl normalize_step [] path"

definition normalize_ref :: "string \<Rightarrow> string \<Rightarrow> string option" where
  "normalize_ref source_path raw_ref =
     (let source_dir = (case path_parent (components source_path) of Some d \<Rightarrow> d | None \<Rightarrow> []);
          joined = path_join source_dir (components raw_ref);
          normalized_str = replace_char backslash ''/'' (path_str (normalize_path joined))
      in if normalized_str = ''..'' \<or> starts_with normalized_str ''../'' then None
         else Some normalized_str)"

section \<open>What the wikilinks of a body are\<close>

lemma split_once_pair [rust_str]: "c \<notin> set a \<Longrightarrow> split_once (a @ c # d # b) [c, d] = Some (a, b)"
  by (induction a) auto

lemma split_once_absent: "c \<notin> set s \<Longrightarrow> split_once s (c # p) = None"
  by (auto simp: split_once_None)

lemma wikilink_loop_acc: "wikilink_loop rest names = names @ wikilink_loop rest []"
proof (induction "length rest" arbitrary: rest names rule: less_induct)
  case less
  show ?case
  proof (cases "split_once rest ''[[''")
    case (Some p)
    then obtain before after where p: "split_once rest ''[['' = Some (before, after)" by (cases p) auto
    show ?thesis
    proof (cases "split_once after '']]''")
      case (Some q)
      then obtain inner rest' where q: "split_once after '']]'' = Some (inner, rest')" by (cases q) auto
      have short: "length rest' < length rest"
        using split_once_shorter [OF p] split_once_shorter [OF q] by simp
      have step: "wikilink_loop rest ns
          = wikilink_loop rest' (if link_name inner \<noteq> [] then ns @ [link_name inner] else ns)" for ns
        by (subst wikilink_loop.simps) (simp add: p q Let_def)
      show ?thesis
        using less [OF short, of "names @ [link_name inner]"] less [OF short, of "[link_name inner]"]
          less [OF short, of names] step [of names] step [of "[]"] by simp
    qed (simp add: p wikilink_loop.simps [of rest])
  qed (simp add: wikilink_loop.simps [of rest])
qed

lemma extract_wikilink_step:
  assumes "split_once rest ''[['' = Some (before, after)" "split_once after '']]'' = Some (inner, rest')"
  shows "extract_wikilink_names rest
     = (if link_name inner \<noteq> [] then [link_name inner] else []) @ extract_wikilink_names rest'"
  unfolding extract_wikilink_names_def
  by (subst wikilink_loop.simps) (simp add: assms Let_def wikilink_loop_acc [of _ "[_]"])

lemma extract_wikilink_none: "split_once rest ''[['' = None \<Longrightarrow> extract_wikilink_names rest = []"
  by (simp add: extract_wikilink_names_def wikilink_loop.simps)

lemma extract_wikilink_open:
  "split_once rest ''[['' = Some (before, after) \<Longrightarrow> split_once after '']]'' = None
     \<Longrightarrow> extract_wikilink_names rest = []"
  by (simp add: extract_wikilink_names_def wikilink_loop.simps)

lemma link_name_chars: "c \<in> set (link_name inner) \<Longrightarrow> c \<noteq> CHR ''|'' \<and> c \<noteq> CHR ''#''"
proof -
  assume c: "c \<in> set (link_name inner)"
  obtain a b where "takeWhile (\<lambda>c. c \<noteq> CHR ''|'' \<and> c \<noteq> CHR ''#'') inner = a @ link_name inner @ b"
    using trim_decomp unfolding link_name_def by blast
  then have "c \<in> set (takeWhile (\<lambda>c. c \<noteq> CHR ''|'' \<and> c \<noteq> CHR ''#'') inner)" using c by simp
  then show ?thesis by (auto dest: set_takeWhileD)
qed

text \<open>
  Every name that the extraction returns is a mention of the body: the trimmed text between two
  opening and two closing brackets up to the first bar or hash, which is never empty, has no white
  space at its ends and holds neither bar nor hash.
\<close>

lemma wikilink_names_sound:
  assumes "name \<in> set (extract_wikilink_names body)"
  shows "\<exists>pre inner post. body = pre @ ''[['' @ inner @ '']]'' @ post \<and> name = link_name inner
           \<and> name \<noteq> [] \<and> trim name = name \<and> CHR ''|'' \<notin> set name \<and> CHR ''#'' \<notin> set name"
  using assms
proof (induction "length body" arbitrary: body rule: less_induct)
  case less
  obtain before after where p: "split_once body ''[['' = Some (before, after)"
    using less.prems extract_wikilink_none [of body] by (cases "split_once body ''[[''") auto
  obtain inner rest where q: "split_once after '']]'' = Some (inner, rest)"
    using less.prems extract_wikilink_open [OF p] by (cases "split_once after '']]''") auto
  have body: "body = (before @ ''[['' @ inner @ '']]'') @ rest"
    using split_once_Some [OF p] split_once_Some [OF q] by simp
  have short: "length rest < length body" using body by simp
  consider "name = link_name inner" "name \<noteq> []" | "name \<in> set (extract_wikilink_names rest)"
    using less.prems unfolding extract_wikilink_step [OF p q] by (auto split: if_splits)
  then show ?case
  proof cases
    case 1
    have "body = before @ ''[['' @ inner @ '']]'' @ rest" using body by simp
    moreover have "trim (link_name inner) = link_name inner" by (simp add: link_name_def)
    moreover have "CHR ''|'' \<notin> set (link_name inner)" "CHR ''#'' \<notin> set (link_name inner)"
      using link_name_chars by blast+
    ultimately show ?thesis using 1 by blast
  next
    case 2
    from less.hyps [OF short 2] obtain pre i post where
      i: "rest = pre @ ''[['' @ i @ '']]'' @ post" "name = link_name i" "name \<noteq> [] \<and> trim name = name
        \<and> CHR ''|'' \<notin> set name \<and> CHR ''#'' \<notin> set name" by blast
    have "body = ((before @ ''[['' @ inner @ '']]'') @ pre) @ ''[['' @ i @ '']]'' @ post"
      using body i(1) by simp
    with i(2,3) show ?thesis by blast
  qed
qed

text \<open>A body written from its parts: text before each mention, the inside of the mention, the tail.\<close>

definition mention :: "string \<times> string \<Rightarrow> string" where
  "mention p = fst p @ ''[['' @ snd p @ '']]''"

text \<open>
  No mention is missed: the names of a body are exactly the non-empty names of its mentions, in
  order, when the brackets of the body are those of the mentions.
\<close>

lemma wikilink_names_complete:
  assumes "\<forall>p \<in> set mentions. CHR ''['' \<notin> set (fst p) \<and> CHR '']'' \<notin> set (snd p)" "CHR ''['' \<notin> set post"
  shows "extract_wikilink_names (concat (map mention mentions) @ post)
     = filter (\<lambda>n. n \<noteq> []) (map (\<lambda>p. link_name (snd p)) mentions)"
  using assms
proof (induction mentions)
  case Nil
  then show ?case by (simp add: extract_wikilink_none split_once_absent)
next
  case (Cons p ps)
  let ?rest = "concat (map mention ps) @ post"
  have "split_once (concat (map mention (p # ps)) @ post) ''[['' = Some (fst p, snd p @ '']]'' @ ?rest)"
    using Cons.prems split_once_pair [of "CHR ''[''" "fst p" "CHR ''[''"] by (simp add: mention_def)
  moreover have "split_once (snd p @ '']]'' @ ?rest) '']]'' = Some (snd p, ?rest)"
    using Cons.prems split_once_pair [of "CHR '']''" "snd p" "CHR '']''"] by simp
  ultimately show ?case using Cons by (simp add: extract_wikilink_step)
qed

lemma wikilink_names_complete_witness:
  "extract_wikilink_names ''see [[ auth#login ]] and [[b|B]].'' = [''auth'', ''b'']"
proof -
  have eq: "concat (map mention [(''see '', '' auth#login ''), ('' and '', ''b|B'')]) @ ''.''
      = ''see [[ auth#login ]] and [[b|B]].''" by (simp add: mention_def)
  have names: "filter (\<lambda>n. n \<noteq> []) (map (\<lambda>p. link_name (snd p)) [(''see '', '' auth#login ''), ('' and '', ''b|B'')])
      = [''auth'', ''b'']" by code_simp
  show ?thesis
    using wikilink_names_complete [of "[(''see '', '' auth#login ''), ('' and '', ''b|B'')]" "''.''"]
    unfolding eq names by simp
qed

lemma wikilink_names_sound_witness:
  "\<exists>pre inner post. ''[[a]]'' = pre @ ''[['' @ inner @ '']]'' @ post \<and> ''a'' = link_name inner
     \<and> ''a'' \<noteq> [] \<and> trim ''a'' = ''a'' \<and> CHR ''|'' \<notin> set ''a'' \<and> CHR ''#'' \<notin> set ''a''"
proof (rule wikilink_names_sound)
  have "split_once ''[[a]]'' ''[['' = Some ([], ''a]]'')" "split_once ''a]]'' '']]'' = Some (''a'', [])"
    "link_name ''a'' = ''a''" by code_simp+
  then show "''a'' \<in> set (extract_wikilink_names ''[[a]]'')" by (simp add: extract_wikilink_step)
qed

section \<open>Where a reference leads\<close>

text \<open>
  The reference semantics of a path below a directory of the store, as the list of names from the
  root: an absolute path, or one parent step more than there are directories, leads outside.
\<close>

fun resolve :: "string list \<Rightarrow> component list \<Rightarrow> string list option" where
  "resolve dir [] = Some dir"
| "resolve dir (Normal n # cs) = resolve (dir @ [n]) cs"
| "resolve dir (CurDir # cs) = resolve dir cs"
| "resolve dir (ParentDir # cs) = (if dir = [] then None else resolve (butlast dir) cs)"
| "resolve dir (RootDir # cs) = None"

definition name_ok :: "string \<Rightarrow> bool" where
  "name_ok n \<longleftrightarrow> n \<noteq> [] \<and> n \<noteq> ''.'' \<and> n \<noteq> ''..'' \<and> CHR ''/'' \<notin> set n"

lemma components_Normal: "Normal n \<in> set (components s) \<Longrightarrow> name_ok n"
  using split_char_pieces [of n "CHR ''/''" s]
  by (auto simp: components_def Let_def set_map_filter part_component_def name_ok_def split: if_splits)

lemma components_root: "RootDir \<in> set (components s) \<longleftrightarrow> starts_with s ''/''"
  by (auto simp: components_def Let_def set_map_filter part_component_def split: if_splits)

lemma path_join_Normal: "path_join (map Normal dir) [Normal n] = map Normal (dir @ [n])"
  by (simp add: path_join_def)

lemma path_parent_Normal:
  "path_parent (map Normal dir) = (if dir = [] then None else Some (map Normal (butlast dir)))"
  by (simp add: path_parent_def last_map map_butlast)

lemma normalize_resolve:
  "resolve dir cs = Some names \<Longrightarrow> foldl normalize_step (map Normal dir) cs = map Normal names"
proof (induction dir cs rule: resolve.induct)
  case (2 dir n cs)
  then show ?case using path_join_Normal [of dir n] by (simp add: normalize_step_def)
next
  case (4 dir cs)
  then show ?case by (simp add: normalize_step_def path_parent_Normal split: if_splits)
qed (simp_all add: normalize_step_def)

lemma resolve_names: "resolve dir cs = Some names \<Longrightarrow> \<forall>n \<in> set dir. P n
   \<Longrightarrow> \<forall>n. Normal n \<in> set cs \<longrightarrow> P n \<Longrightarrow> \<forall>n \<in> set names. P n"
  by (induction dir cs rule: resolve.induct) (auto split: if_splits dest: in_set_butlastD)

lemma path_str_Normal: "path_str (map Normal names) = join ''/'' names"
  by (cases names) (simp_all add: comp_def)

lemma component_names: "map component_str (map Normal names) = names"
  by (simp add: comp_def)

lemma join_inside:
  assumes "\<forall>n \<in> set names. name_ok n"
  shows "join ''/'' names \<noteq> ''..''" "\<not> starts_with (join ''/'' names) ''../''"
proof -
  have "split_char (CHR ''/'') (join ''/'' names) = names" if "names \<noteq> []"
    using split_char_join [OF that, of "CHR ''/''"] assms by (simp add: name_ok_def)
  moreover have "''..'' \<in> set (split_char (CHR ''/'') (''..'' @ r))" if "r = [] \<or> (\<exists>q. r = CHR ''/'' # q)" for r
    using that split_char_append [of "CHR ''/''" "''..''"] by auto
  ultimately have neq: "join ''/'' names \<noteq> ''..'' @ r" if "r = [] \<or> (\<exists>q. r = CHR ''/'' # q)" for r
    using assms that by (cases "names = []") (force simp: name_ok_def)+
  show "join ''/'' names \<noteq> ''..''" using neq [of "[]"] by simp
  show "\<not> starts_with (join ''/'' names) ''../''"
    using neq [of "CHR ''/'' # _"] by (auto simp: starts_with_iff)
qed

lemma replace_char_absent: "c \<notin> set s \<Longrightarrow> replace_char c t s = s"
  by (induction s) auto

text \<open>
  A reference that stays below the store root is normalized to the names it resolves to, from the
  directory of the document that holds it.
\<close>

lemma normalize_ref_resolves:
  assumes source: "components source_path = map Normal (dir @ [file])"
    and inside: "resolve dir (components raw_ref) = Some names"
    and plain: "backslash \<notin> set (join ''/'' names)"
  shows "normalize_ref source_path raw_ref = Some (join ''/'' names)"
proof -
  have not_root: "components raw_ref = [] \<or> hd (components raw_ref) \<noteq> RootDir"
    using inside by (cases "components raw_ref") auto
  have "resolve dir (path_join [] (components raw_ref)) = Some names"
    using inside by (simp add: path_join_def)
  have joined: "path_join (map Normal dir) (components raw_ref)
      = map Normal dir @ (if dir \<noteq> [] \<and> components raw_ref \<noteq> [] \<and> hd (components raw_ref) = CurDir
                          then tl (components raw_ref) else components raw_ref)"
    using not_root by (auto simp: path_join_def)
  have rest: "resolve dir (if dir \<noteq> [] \<and> components raw_ref \<noteq> [] \<and> hd (components raw_ref) = CurDir
                          then tl (components raw_ref) else components raw_ref) = Some names"
    using inside by (cases "components raw_ref") auto
  have self: "resolve [] (map Normal ds) = Some ds" for ds
  proof -
    have "resolve es (map Normal ds) = Some (es @ ds)" for es
      by (induction ds arbitrary: es) auto
    then show ?thesis by simp
  qed
  have "normalize_path (path_join (map Normal dir) (components raw_ref)) = map Normal names"
    unfolding normalize_path_def joined foldl_append
    using normalize_resolve [OF self [of dir]] normalize_resolve [OF rest] by simp
  moreover have "path_parent (components source_path) = Some (map Normal dir)"
    by (simp add: source path_parent_def butlast_append)
  moreover have "\<forall>n \<in> set names. name_ok n"
  proof (rule resolve_names [OF inside])
    show "\<forall>n \<in> set dir. name_ok n" using components_Normal [of _ source_path] source by auto
    show "\<forall>n. Normal n \<in> set (components raw_ref) \<longrightarrow> name_ok n" using components_Normal by blast
  qed
  ultimately show ?thesis
    using join_inside [of names] replace_char_absent [OF plain]
    by (simp add: normalize_ref_def path_str_Normal Let_def)
qed

lemma normalize_ref_resolves_witness:
  "normalize_ref ''projects/acme/a.md'' ''../x/./b.md'' = Some ''projects/x/b.md''"
proof -
  have "components ''projects/acme/a.md'' = map Normal ([''projects'', ''acme''] @ [''a.md''])"
    "resolve [''projects'', ''acme''] (components ''../x/./b.md'') = Some [''projects'', ''x'', ''b.md'']"
    by code_simp+
  from normalize_ref_resolves [OF this] show ?thesis by simp
qed

text \<open>
  The escape check does not see every reference that leaves the store root. From a document in
  the root directory two parent steps cancel, so a reference two (four, ...) levels above the root is
  taken for one below it; and an absolute reference is returned as it is.
\<close>

lemma normalize_ref_escapes:
  assumes "components source_path = [Normal file]" and "\<not> starts_with raw_ref ''/''"
  shows "normalize_ref source_path (''../../'' @ raw_ref) = normalize_ref source_path raw_ref
     \<and> normalize_ref source_path ''/etc/passwd'' = Some ''/etc/passwd''"
proof
  have dir: "path_parent (components source_path) = Some []"
    by (simp add: assms(1) path_parent_def)
  have up: "components (''../../'' @ raw_ref)
      = [ParentDir, ParentDir] @ List.map_filter part_component (split_char (CHR ''/'') raw_ref)"
    using split_char_append [of "CHR ''/''" "''..''" "''../'' @ raw_ref"]
      split_char_append [of "CHR ''/''" "''..''" raw_ref]
    by (simp add: components_def part_component_def map_filter_simps)
  have two: "foldl normalize_step [] ([ParentDir, ParentDir] @ cs) = foldl normalize_step [] cs" for cs
    by (simp add: normalize_step_def path_parent_def path_join_def)
  have raw: "foldl normalize_step [] (components raw_ref)
      = foldl normalize_step [] (List.map_filter part_component (split_char (CHR ''/'') raw_ref))"
    using assms(2) by (simp add: components_def Let_def normalize_step_def)
  have joined: "path_join [] cs = cs" for cs by (simp add: path_join_def)
  show "normalize_ref source_path (''../../'' @ raw_ref) = normalize_ref source_path raw_ref"
    unfolding normalize_ref_def Let_def dir option.case joined normalize_path_def up two raw by (rule refl)
  have "normalize_path (components ''/etc/passwd'') = [RootDir, Normal ''etc'', Normal ''passwd'']"
    by code_simp
  then show "normalize_ref source_path ''/etc/passwd'' = Some ''/etc/passwd''"
    unfolding normalize_ref_def Let_def dir option.case joined by simp
qed

lemma normalize_ref_escapes_witness:
  "normalize_ref ''a.md'' ''../../b.md'' = Some ''b.md''"
proof -
  have one: "components ''a.md'' = [Normal ''a.md'']" "\<not> starts_with ''b.md'' ''/''"
    and b: "normalize_ref ''a.md'' ''b.md'' = Some ''b.md''" by code_simp+
  show ?thesis using normalize_ref_escapes [OF one] b by simp
qed

end
