(* ===== verification/Embed.thy ===== *)
theory Embed
  imports RustStr
begin

text \<open>
  Embedding vectors as the index stores them (crates/wkp-core/src/embed.rs): serialization to
  little-endian bytes and back, the JSON string the request body is made of, and the scan of a response
  for its first vector. A 32-bit float is its bit pattern; reading a float from decimal text is a
  parameter.
\<close>

unbundle bit_operations_syntax

type_synonym f32 = u32

section \<open>Serialization\<close>

definition to_le_bytes :: "f32 \<Rightarrow> u8 list" where
  "to_le_bytes w = [ucast w, ucast (drop_bit 8 w), ucast (drop_bit 16 w), ucast (drop_bit 24 w)]"

definition from_le_bytes :: "u8 \<Rightarrow> u8 \<Rightarrow> u8 \<Rightarrow> u8 \<Rightarrow> f32" where
  "from_le_bytes a b c d =
     ucast a OR push_bit 8 (ucast b) OR push_bit 16 (ucast c) OR push_bit 24 (ucast d)"

definition serialize_embedding :: "f32 list \<Rightarrow> u8 list" where
  "serialize_embedding vector = concat (map to_le_bytes vector)"

fun deserialize_embedding :: "u8 list \<Rightarrow> f32 list" where
  "deserialize_embedding (a # b # c # d # rest) = from_le_bytes a b c d # deserialize_embedding rest"
| "deserialize_embedding _ = []"

lemma from_to_le_bytes:
  "from_le_bytes (ucast w) (ucast (drop_bit 8 w)) (ucast (drop_bit 16 w)) (ucast (drop_bit 24 w)) = w"
  unfolding from_le_bytes_def
proof (rule bit_word_eqI)
  fix n assume "n < LENGTH(32)"
  then show "bit (ucast (ucast w :: u8) OR push_bit 8 (ucast (ucast (drop_bit 8 w) :: u8))
      OR push_bit 16 (ucast (ucast (drop_bit 16 w) :: u8)) OR push_bit 24 (ucast (ucast (drop_bit 24 w) :: u8)) :: f32) n
      = bit w n"
    by (cases "n < 8"; cases "n < 16"; cases "n < 24") (auto simp: bit_simps not_le not_less)
qed

text \<open>
  A stored vector is read back as it was written, bit for bit; and bytes after the last whole value,
  as a truncated blob has them, are dropped instead of changing the vector.
\<close>

lemma embedding_roundtrip:
  "length partial < 4 \<Longrightarrow> deserialize_embedding (serialize_embedding vector @ partial) = vector"
proof (induction vector)
  case Nil
  then show ?case by (cases "partial" rule: deserialize_embedding.cases) (auto simp: serialize_embedding_def)
next
  case (Cons w ws)
  then show ?case by (simp add: serialize_embedding_def to_le_bytes_def from_to_le_bytes)
qed

lemma embedding_roundtrip_witness:
  "deserialize_embedding (serialize_embedding [0x3F800000, 0xDEADBEEF] @ [1, 2]) = [0x3F800000, 0xDEADBEEF]"
  by (rule embedding_roundtrip) simp

lemma length_serialize: "length (serialize_embedding v) = 4 * length v"
  by (induction v) (simp_all add: serialize_embedding_def to_le_bytes_def)

section \<open>JSON text\<close>

definition hex4 :: "nat \<Rightarrow> string" where
  "hex4 n = (let digits = show_base 16 n in replicate (4 - length digits) (CHR ''0'') @ digits)"

definition json_char :: "string \<Rightarrow> string" where
  "json_char c =
     (if c = [dquote] then [backslash, dquote]
      else if c = [backslash] then [backslash, backslash]
      else if c = [nl] then [backslash, CHR ''n'']
      else if c = [cr] then [backslash, CHR ''r'']
      else if c = [CHR 0x09] then [backslash, CHR ''t'']
      else if code_point c < 0x20 then [backslash, CHR ''u''] @ hex4 (code_point c)
      else c)"

definition json_string :: "string \<Rightarrow> string" where
  "json_string s = [dquote] @ concat (map json_char (chars s)) @ [dquote]"

text \<open>\<open>parse_f32\<close> is the standard library's decimal reader.\<close>

fun parse_parts :: "(string \<Rightarrow> f32 option) \<Rightarrow> string list \<Rightarrow> f32 list \<Rightarrow> f32 list option" where
  "parse_parts parse_f32 [] out = Some out"
| "parse_parts parse_f32 (part # parts) out =
     (let part = trim part
      in if part = [] then parse_parts parse_f32 parts out
         else (case parse_f32 part of
                 None \<Rightarrow> None
               | Some x \<Rightarrow> parse_parts parse_f32 parts (out @ [x])))"

definition extract_embedding :: "(string \<Rightarrow> f32 option) \<Rightarrow> string \<Rightarrow> f32 list option" where
  "extract_embedding parse_f32 body =
     Option.bind (split_once body ([dquote] @ ''embedding'' @ [dquote])) (\<lambda>(_, after_key).
     Option.bind (split_once after_key '':'') (\<lambda>(_, after_colon).
     Option.bind (strip_prefix (trim_start after_colon) ''['') (\<lambda>inside.
     Option.bind (split_once inside '']'') (\<lambda>(numbers, _).
     Option.bind (parse_parts parse_f32 (split_char (CHR '','') numbers) []) (\<lambda>out.
       if out = [] then None else Some out)))))"

end
