(* ===== verification/Sql.thy ===== *)
theory Sql
  imports RustStr
begin

text \<open>
  The SQL that the sources write, on tables that are lists of rows in insertion order. A rowid table
  pairs each row with its rowid; a row that is inserted without one gets the largest rowid plus one.
  The locales are the contracts the stores rely on: a table with a unique key, and a store whose
  content is a map from keys to rows.
\<close>

section \<open>Rowid tables\<close>

type_synonym 'r table = "(nat \<times> 'r) list"

definition next_rowid :: "'r table \<Rightarrow> nat" where
  "next_rowid t = (if t = [] then 1 else Max (fst ` set t) + 1)"

definition has_rowid :: "'r table \<Rightarrow> nat \<Rightarrow> bool" where
  "has_rowid t i \<longleftrightarrow> i \<in> fst ` set t"

definition delete_rowid :: "nat \<Rightarrow> 'r table \<Rightarrow> 'r table" where
  "delete_rowid i t = filter (\<lambda>r. fst r \<noteq> i) t"

text \<open>\<open>SELECT rowid FROM t WHERE key = k\<close> with at most one answer.\<close>

definition rowid_of :: "'r table \<Rightarrow> 'r \<Rightarrow> nat option" where
  "rowid_of t k = map_option fst (List.find (\<lambda>r. snd r = k) t)"

text \<open>An insert into a table whose column is \<open>PRIMARY KEY\<close> (or \<open>UNIQUE\<close>).\<close>

definition insert_unique :: "'r \<Rightarrow> 'r table \<Rightarrow> (nat \<times> 'r table) option" where
  "insert_unique k t =
     (if k \<in> snd ` set t then None else (let i = next_rowid t in Some (i, t @ [(i, k)])))"

lemma next_rowid_fresh: "next_rowid t \<notin> fst ` set t"
proof
  assume *: "next_rowid t \<in> fst ` set t"
  then have "next_rowid t = Max (fst ` set t) + 1" by (auto simp: next_rowid_def)
  moreover have "next_rowid t \<le> Max (fst ` set t)" using * by (intro Max_ge) auto
  ultimately show False by simp
qed

lemma next_rowid_pos: "0 < next_rowid t"
  by (simp add: next_rowid_def)

lemma next_rowid_code [code]: "next_rowid t = foldr (\<lambda>r m. max (Suc (fst r)) m) t 1"
proof (induction t)
  case Nil
  then show ?case by (simp add: next_rowid_def)
next
  case (Cons r t)
  then show ?case by (cases "t = []") (auto simp: next_rowid_def max_def)
qed

definition keyed_ok :: "'r table \<Rightarrow> bool" where
  "keyed_ok t \<longleftrightarrow> distinct (map fst t) \<and> distinct (map snd t)"

lemma keyed_ok_Nil [simp]: "keyed_ok []"
  by (simp add: keyed_ok_def)

lemma rowid_of_None: "rowid_of t k = None \<longleftrightarrow> k \<notin> snd ` set t"
  by (force simp: rowid_of_def find_None_iff)

lemma rowid_of_Some:
  assumes "keyed_ok t"
  shows "rowid_of t k = Some i \<longleftrightarrow> (i, k) \<in> set t"
  using assms find_Some_iff_unique [of snd t k] by (auto simp: rowid_of_def keyed_ok_def)

lemma insert_unique_Some:
  "insert_unique k t = Some (i, t') \<longleftrightarrow> k \<notin> snd ` set t \<and> i = next_rowid t \<and> t' = t @ [(i, k)]"
  by (auto simp: insert_unique_def Let_def)

lemma rowid_of_append: "k \<notin> snd ` set t \<Longrightarrow> rowid_of (t @ [(i, k)]) = (rowid_of t)(k \<mapsto> i)"
proof
  fix l
  assume "k \<notin> snd ` set t"
  then have "List.find (\<lambda>r. snd r = k) t = None" using rowid_of_None [of t k] by (simp add: rowid_of_def)
  then show "rowid_of (t @ [(i, k)]) l = ((rowid_of t)(k \<mapsto> i)) l"
    by (auto simp: rowid_of_def find_append split: option.split)
qed

lemma insert_unique_ok: "insert_unique k t = Some (i, t') \<Longrightarrow> keyed_ok t \<Longrightarrow> keyed_ok t'"
  using next_rowid_fresh [of t] by (auto simp: insert_unique_Some keyed_ok_def)

lemma delete_rowid_ok: "keyed_ok t \<Longrightarrow> keyed_ok (delete_rowid i t)"
  by (simp add: keyed_ok_def delete_rowid_def distinct_map_filter)

lemma set_delete_rowid [simp]: "set (delete_rowid i t) = {r \<in> set t. fst r \<noteq> i}"
  by (auto simp: delete_rowid_def)

section \<open>A table with a unique key\<close>

text \<open>
  What the stores use of a table that gives its rows an identity by key: \<open>ident\<close> finds the identity of
  a key, \<open>add\<close> makes one for a new key, \<open>drop\<close> forgets an identity.
\<close>

locale unique_key =
  fixes ok :: "'t \<Rightarrow> bool"
    and ident :: "'t \<Rightarrow> 'k \<Rightarrow> nat option"
    and add :: "'k \<Rightarrow> 't \<Rightarrow> (nat \<times> 't) option"
    and remove :: "nat \<Rightarrow> 't \<Rightarrow> 't"
  assumes ident_inj: "ok t \<Longrightarrow> ident t k = Some i \<Longrightarrow> ident t l = Some i \<Longrightarrow> k = l"
    and add_None: "add k t = None \<longleftrightarrow> ident t k \<noteq> None"
    and add_Some: "ok t \<Longrightarrow> add k t = Some (i, t') \<Longrightarrow> ok t' \<and> ident t' = (ident t)(k \<mapsto> i)"
    and add_fresh: "ok t \<Longrightarrow> add k t = Some (i, t') \<Longrightarrow> ident t l \<noteq> Some i"
    and remove_ident: "ok t \<Longrightarrow> ident (remove i t) l = (if ident t l = Some i then None else ident t l)"
    and remove_ok: "ok t \<Longrightarrow> ok (remove i t)"
begin

definition forget :: "'k \<Rightarrow> 't \<Rightarrow> 't" where
  "forget k t = (case ident t k of None \<Rightarrow> t | Some i \<Rightarrow> remove i t)"

lemma forget_ok: "ok t \<Longrightarrow> ok (forget k t)"
  by (auto simp: forget_def remove_ok split: option.split)

lemma forget_ident: "ok t \<Longrightarrow> ident (forget k t) = (ident t)(k := None)"
proof
  fix l
  assume ok: "ok t"
  show "ident (forget k t) l = ((ident t)(k := None)) l"
    using ident_inj [OF ok] by (auto simp: forget_def remove_ident [OF ok] split: option.split)
qed

text \<open>Looking a key up, and making it when there is none: the identity of a key never changes.\<close>

definition get_or_add :: "'k \<Rightarrow> 't \<Rightarrow> nat \<times> 't" where
  "get_or_add k t = (case ident t k of Some i \<Rightarrow> (i, t) | None \<Rightarrow> the (add k t))"

lemma get_or_add_correct:
  assumes "ok t" "get_or_add k t = (i, t')"
  shows "ok t'" "ident t' k = Some i" "ident t l = Some j \<Longrightarrow> ident t' l = Some j"
    "\<And>l. l \<noteq> k \<Longrightarrow> ident t' l = ident t l"
proof -
  consider "ident t k = Some i" "t' = t" | "ident t k = None" "add k t = Some (i, t')"
    using assms(2) add_None [of k t] by (cases "ident t k"; cases "add k t") (auto simp: get_or_add_def)
  then have "ok t' \<and> ident t' = (ident t)(k \<mapsto> i) \<and> ident t k \<in> {None, Some i}"
    by cases (use assms(1) add_Some in \<open>auto simp: fun_upd_idem\<close>)
  then show "ok t'" "ident t' k = Some i" "ident t l = Some j \<Longrightarrow> ident t' l = Some j"
    "\<And>l. l \<noteq> k \<Longrightarrow> ident t' l = ident t l"
    by auto
qed

end

interpretation rowid_key: unique_key keyed_ok rowid_of insert_unique delete_rowid
proof
  show "rowid_of t k = Some i \<Longrightarrow> rowid_of t l = Some i \<Longrightarrow> k = l" if "keyed_ok t"
    for t :: "'k table" and k l i
    using that by (auto simp: rowid_of_Some keyed_ok_def dest: eq_key_imp_eq_value)
  show "insert_unique k t = None \<longleftrightarrow> rowid_of t k \<noteq> None" for k and t :: "'k table"
    by (auto simp: insert_unique_def rowid_of_None Let_def simp del: not_None_eq)
  show "keyed_ok t' \<and> rowid_of t' = (rowid_of t)(k \<mapsto> i)" if "keyed_ok t" "insert_unique k t = Some (i, t')"
    for t t' :: "'k table" and k i
    using that insert_unique_ok [OF that(2,1)] by (auto simp: insert_unique_Some rowid_of_append)
  show "rowid_of t l \<noteq> Some i" if "keyed_ok t" "insert_unique k t = Some (i, t')" for t t' :: "'k table" and k l i
    using that next_rowid_fresh [of t] by (force simp: insert_unique_Some rowid_of_Some)
  show "rowid_of (delete_rowid i t) l = (if rowid_of t l = Some i then None else rowid_of t l)"
    if "keyed_ok t" for t :: "'k table" and l i
  proof (cases "rowid_of (delete_rowid i t) l")
    case None
    then have gone: "l \<notin> snd ` set (delete_rowid i t)" by (rule iffD1 [OF rowid_of_None])
    show ?thesis
    proof (cases "rowid_of t l")
      case (Some j)
      then have "(j, l) \<in> set t" using rowid_of_Some [OF that] by blast
      then have "j = i" using gone by force
      with Some None show ?thesis by simp
    qed (simp add: None)
  next
    case (Some j)
    then have "(j, l) \<in> set t" "j \<noteq> i" using rowid_of_Some [OF delete_rowid_ok [OF that]] by force+
    then have "rowid_of t l = Some j" using rowid_of_Some [OF that] by blast
    with Some \<open>j \<noteq> i\<close> show ?thesis by simp
  qed
  show "keyed_ok (delete_rowid i t)" if "keyed_ok t" for t :: "'k table" and i
    using that by (rule delete_rowid_ok)
qed

section \<open>A store whose content is a map\<close>

text \<open>
  The contract of a store that keeps one row per key: \<open>view\<close> is its content, \<open>content r\<close> the row that
  \<open>r\<close> becomes (none when it cannot be stored), \<open>add\<close> refuses a key that has a row.
\<close>

locale row_store =
  fixes inv :: "'s \<Rightarrow> bool"
    and view :: "'s \<Rightarrow> 'k \<Rightarrow> 'v option"
    and key :: "'r \<Rightarrow> 'k"
    and content :: "'r \<Rightarrow> 'v option"
    and add :: "'r \<Rightarrow> 's \<Rightarrow> ('e, 's) result"
    and drop :: "'k \<Rightarrow> 's \<Rightarrow> 's"
  assumes drop_inv: "inv s \<Longrightarrow> inv (drop k s)"
    and drop_view: "inv s \<Longrightarrow> view (drop k s) = (view s)(k := None)"
    and add_ok: "inv s \<Longrightarrow> add r s = Inr t \<Longrightarrow> content r \<noteq> None \<and> view s (key r) = None \<and> inv t
                   \<and> view t = (view s)(key r := content r)"
    and add_succeeds: "inv s \<Longrightarrow> content r \<noteq> None \<Longrightarrow> view s (key r) = None \<Longrightarrow> \<exists>t. add r s = Inr t"
begin

definition upsert :: "'r \<Rightarrow> 's \<Rightarrow> ('e, 's) result" where
  "upsert r s = add r (drop (key r) s)"

definition overlay :: "'r list \<Rightarrow> ('k \<Rightarrow> 'v option) \<Rightarrow> 'k \<Rightarrow> 'v option" where
  "overlay rs m = foldl (\<lambda>m r. m(key r := content r)) m rs"

lemma drop_all: "inv s \<Longrightarrow> inv (fold drop ks s) \<and> view (fold drop ks s) = (\<lambda>k. if k \<in> set ks then None else view s k)"
proof (induction ks arbitrary: s)
  case (Cons k ks)
  then show ?case using drop_inv [of s k] drop_view [of s k] by (auto simp: fun_eq_iff)
qed simp

lemma upsert_result:
  assumes "inv s"
  shows "(\<exists>t. upsert r s = Inr t) \<longleftrightarrow> content r \<noteq> None"
    and "upsert r s = Inr t \<Longrightarrow> inv t \<and> view t = (view s)(key r := content r)"
proof -
  note d = drop_inv [OF assms, of "key r"] drop_view [OF assms, of "key r"]
  show "(\<exists>t. upsert r s = Inr t) \<longleftrightarrow> content r \<noteq> None"
    using add_ok [OF d(1), of r] add_succeeds [OF d(1), of r] d(2) by (auto simp: upsert_def)
  show "upsert r s = Inr t \<Longrightarrow> inv t \<and> view t = (view s)(key r := content r)"
    using add_ok [OF d(1), of r t] d(2) by (simp add: upsert_def fun_eq_iff)
qed

lemma overlay_simps: "overlay [] m = m" "overlay (r # rs) m = overlay rs (m(key r := content r))"
  by (simp_all add: overlay_def)

text \<open>A batch of upserts is the overlay of the rows, last one first, and fails only for a bad row.\<close>

lemma upserts:
  assumes "inv s"
  shows "(\<exists>t. fold_result upsert rs s = Inr t) \<longleftrightarrow> (\<forall>r \<in> set rs. content r \<noteq> None)"
    and "fold_result upsert rs s = Inr t \<Longrightarrow> inv t \<and> view t = overlay rs (view s)"
proof -
  show "(\<exists>t. fold_result upsert rs s = Inr t) \<longleftrightarrow> (\<forall>r \<in> set rs. content r \<noteq> None)"
    using assms
  proof (induction rs arbitrary: s)
    case (Cons r rs)
    show ?case
    proof (cases "content r = None")
      case True
      then show ?thesis using upsert_result(1) [OF Cons.prems, of r] by auto
    next
      case False
      then obtain u where u: "upsert r s = Inr u" using upsert_result(1) [OF Cons.prems] by blast
      then show ?thesis
        using Cons.IH [of u] upsert_result(2) [OF Cons.prems u] False by simp
    qed
  qed simp
  show "fold_result upsert rs s = Inr t \<Longrightarrow> inv t \<and> view t = overlay rs (view s)"
    using assms
  proof (induction rs arbitrary: s)
    case (Cons r rs)
    then obtain u where "upsert r s = Inr u" "fold_result upsert rs u = Inr t" by auto
    then show ?case
      using Cons.IH [of u] upsert_result(2) [OF Cons.prems(2), of r u] unfolding overlay_simps by metis
  qed (simp add: overlay_def)
qed

text \<open>Filling a store: all rows are storable, none has a row yet, and no key comes twice.\<close>

lemma adds:
  assumes "inv s"
  shows "(\<exists>t. fold_result add rs s = Inr t)
           \<longleftrightarrow> (\<forall>r \<in> set rs. content r \<noteq> None) \<and> distinct (map key rs) \<and> (\<forall>r \<in> set rs. view s (key r) = None)"
    and "fold_result add rs s = Inr t \<Longrightarrow> inv t \<and> view t = overlay rs (view s)"
proof -
  show "(\<exists>t. fold_result add rs s = Inr t)
           \<longleftrightarrow> (\<forall>r \<in> set rs. content r \<noteq> None) \<and> distinct (map key rs) \<and> (\<forall>r \<in> set rs. view s (key r) = None)"
    using assms
  proof (induction rs arbitrary: s)
    case (Cons r rs)
    show ?case
    proof (cases "content r = None \<or> view s (key r) \<noteq> None")
      case True
      then have "add r s \<noteq> Inr t" for t using add_ok [OF Cons.prems, of r t] by metis
      with True show ?thesis by auto
    next
      case False
      then obtain u where u: "add r s = Inr u" using add_succeeds [OF Cons.prems] by blast
      then have "inv u" "view u = (view s)(key r := content r)"
        using add_ok [OF Cons.prems, of r u] by blast+
      then have free: "(\<forall>x \<in> set rs. view u (key x) = None)
          \<longleftrightarrow> key r \<notin> key ` set rs \<and> (\<forall>x \<in> set rs. view s (key x) = None)"
      proof -
        have "view u (key x) = None \<longleftrightarrow> key x \<noteq> key r \<and> view s (key x) = None" for x
          unfolding \<open>view u = (view s)(key r := content r)\<close> fun_upd_apply using False by simp
        then show ?thesis by (simp add: image_iff) metis
      qed
      have "(\<exists>t. fold_result add (r # rs) s = Inr t) \<longleftrightarrow> (\<exists>t. fold_result add rs u = Inr t)"
        using u by simp
      also have "\<dots> \<longleftrightarrow> (\<forall>r \<in> set rs. content r \<noteq> None) \<and> distinct (map key rs)
          \<and> (\<forall>x \<in> set rs. view u (key x) = None)"
        using Cons.IH \<open>inv u\<close> by blast
      finally show ?thesis unfolding free using False by auto
    qed
  qed simp
  show "fold_result add rs s = Inr t \<Longrightarrow> inv t \<and> view t = overlay rs (view s)"
    using assms
  proof (induction rs arbitrary: s)
    case (Cons r rs)
    then obtain u where u: "add r s = Inr u" "fold_result add rs u = Inr t" by auto
    then show ?case
      using Cons.IH [of u] add_ok [OF Cons.prems(2), of r u] unfolding overlay_simps by metis
  qed (simp add: overlay_def)
qed

lemma overlay_key: "k \<notin> key ` set rs \<Longrightarrow> overlay rs m k = m k"
  unfolding overlay_def by (induction rs arbitrary: m) auto

lemma overlay_last: "overlay (rs @ [r]) m = (overlay rs m)(key r := content r)"
  by (simp add: overlay_def)

lemma overlay_distinct: "distinct (map key rs) \<Longrightarrow> r \<in> set rs \<Longrightarrow> overlay rs m (key r) = content r"
proof (induction rs rule: rev_induct)
  case (snoc x xs)
  show ?case
  proof (cases "r = x")
    case False
    then have r: "r \<in> set xs" using snoc.prems(2) by simp
    then have "key r \<noteq> key x" using snoc.prems(1) by (auto simp: image_iff)
    then show ?thesis using snoc r by (simp add: overlay_last)
  qed (simp add: overlay_last)
qed simp

lemma overlay_dom:
  "(\<And>r. r \<in> set rs \<Longrightarrow> content r \<noteq> None) \<Longrightarrow> overlay rs m k \<noteq> None \<longleftrightarrow> m k \<noteq> None \<or> k \<in> key ` set rs"
proof (induction rs rule: rev_induct)
  case (snoc r rs)
  then have "content r \<noteq> None" "overlay rs m k \<noteq> None \<longleftrightarrow> m k \<noteq> None \<or> k \<in> key ` set rs" by simp_all
  then show ?case by (auto simp: overlay_last)
qed (simp add: overlay_def)

lemma overlay_row: "overlay rs m k = Some v \<Longrightarrow> m k = Some v \<or> (\<exists>r \<in> set rs. key r = k \<and> content r = Some v)"
proof (induction rs rule: rev_induct)
  case (snoc r rs)
  then show ?case by (auto simp: overlay_last split: if_splits)
qed (simp add: overlay_def)

end

end
