(* ===== verification/IndexStore.thy ===== *)
theory IndexStore
  imports Tier Graph Embed Sql
begin

text \<open>
  The index database (crates/wkp-core/src/index/schema.rs and store.rs): its tables, the insertion and
  deletion of an item, edge extraction, building an index and updating one in place. The date of
  \<open>compute_tier\<close> is the parameter \<open>today\<close>. An error is a violated uniqueness constraint or the panic of
  the tier gate; failures of the disk are not modelled.
\<close>

section \<open>Tables\<close>

record item =
  it_path :: string
  it_frontmatter :: frontmatter
  it_body :: string
  it_embedding :: "f32 list option"
  it_human_signed :: bool

datatype index_error = Sqlite_constraint | Panicked

record item_row =
  ir_path :: string
  ir_title :: string
  ir_content :: string
  ir_tags :: string
  ir_item_type :: "string option"
  ir_workspace :: "string option"
  ir_visibility :: "string option"
  ir_scope :: "string option"
  ir_confidence :: "string option"
  ir_provenance_source :: "string option"
  ir_tokens :: "u32 option"
  ir_updated :: "string option"
  ir_expires :: "string option"
  ir_refs :: string
  ir_tier :: nat
  ir_tokens_estimate :: u32
  ir_embedding :: "u8 list option"
  ir_embedding_dim :: "nat option"

datatype edge_type = Refs | Mentions

type_synonym edge = "string \<times> string \<times> edge_type"

text \<open>\<open>paths\<close> and the two full-text tables with their rowids, and the edges.\<close>

record index_db =
  db_paths :: "string table"
  db_items :: "item_row table"
  db_trigram :: "(string \<times> string) table"
  db_edges :: "edge list"

definition create_schema :: index_db where
  "create_schema = \<lparr>db_paths = [], db_items = [], db_trigram = [], db_edges = []\<rparr>"

section \<open>Items\<close>

definition item_row :: "string \<Rightarrow> item \<Rightarrow> item_row option" where
  "item_row today item =
     (let fm = it_frontmatter item in
      map_option (\<lambda>tier.
        \<lparr>ir_path = it_path item,
         ir_title = (case fm_title fm of Some t \<Rightarrow> t | None \<Rightarrow> []),
         ir_content = it_body item,
         ir_tags = join '' '' (fm_tags fm),
         ir_item_type = map_option show_item_type (fm_item_type fm),
         ir_workspace = fm_workspace fm,
         ir_visibility = map_option show_visibility (fm_visibility fm),
         ir_scope = map_option show_scope (fm_scope fm),
         ir_confidence = map_option show_confidence (fm_confidence fm),
         ir_provenance_source = map_option show_source_kind (prov_source (fm_provenance fm)),
         ir_tokens = fm_tokens fm,
         ir_updated = fm_updated fm,
         ir_expires = fm_expires fm,
         ir_refs = join '' '' (fm_refs fm),
         ir_tier = tier,
         ir_tokens_estimate = estimate_tokens fm (it_body item),
         ir_embedding = map_option serialize_embedding (it_embedding item),
         ir_embedding_dim = map_option length (it_embedding item)\<rparr>)
        (compute_tier today (it_path item) fm (it_human_signed item)))"

definition trigram_content :: "item \<Rightarrow> string" where
  "trigram_content item =
     it_path item @ [nl] @ (case fm_title (it_frontmatter item) of Some t \<Rightarrow> t | None \<Rightarrow> []) @ [nl]
     @ it_body item"

text \<open>
  The row of \<open>paths\<close> first, then both full-text tables under the rowid it got. An explicit rowid that
  is taken is a constraint error.
\<close>

definition insert_item :: "string \<Rightarrow> item \<Rightarrow> index_db \<Rightarrow> (index_error, index_db) result" where
  "insert_item today item db =
     (case item_row today item of
        None \<Rightarrow> Inl Panicked
      | Some row \<Rightarrow>
          (case insert_unique (it_path item) (db_paths db) of
             None \<Rightarrow> Inl Sqlite_constraint
           | Some (rowid, paths) \<Rightarrow>
               if has_rowid (db_items db) rowid \<or> has_rowid (db_trigram db) rowid
               then Inl Sqlite_constraint
               else Inr (db\<lparr>db_paths := paths,
                            db_items := db_items db @ [(rowid, row)],
                            db_trigram := db_trigram db @ [(rowid, (it_path item, trigram_content item))]\<rparr>)))"

section \<open>Edges\<close>

definition delete_edges_from :: "string \<Rightarrow> index_db \<Rightarrow> index_db" where
  "delete_edges_from source db = db\<lparr>db_edges := filter (\<lambda>(s, _). s \<noteq> source) (db_edges db)\<rparr>"

text \<open>\<open>INSERT OR IGNORE\<close>, and \<open>LIKE\<close> on the characters of its operands.\<close>

definition insert_edge :: "edge \<Rightarrow> index_db \<Rightarrow> index_db" where
  "insert_edge e db = (if e \<in> set (db_edges db) then db else db\<lparr>db_edges := db_edges db @ [e]\<rparr>)"

definition fold_case :: "string \<Rightarrow> string" where
  "fold_case s = map to_ascii_lower s"

fun like_chars :: "string list \<Rightarrow> string list \<Rightarrow> bool" where
  "like_chars [] s = (s = [])"
| "like_chars (p # ps) [] = (p = ''%'' \<and> like_chars ps [])"
| "like_chars (p # ps) (c # cs) =
     (if p = ''%'' then like_chars ps (c # cs) \<or> like_chars (p # ps) cs
      else (p = ''_'' \<or> fold_case p = fold_case c) \<and> like_chars ps cs)"

definition like :: "string \<Rightarrow> string \<Rightarrow> bool" where
  "like pattern s = like_chars (chars pattern) (chars s)"

definition resolve_wikilink :: "string \<Rightarrow> index_db \<Rightarrow> string option" where
  "resolve_wikilink name db =
     (let exact = name @ ''.md'';
          suffix = ''%/'' @ name @ ''.md'';
          matches = filter (\<lambda>p. p = exact \<or> like suffix p) (map snd (db_paths db))
      in (case sort matches of [] \<Rightarrow> None | p # _ \<Rightarrow> Some p))"

definition insert_ref :: "string \<Rightarrow> string \<Rightarrow> index_db \<Rightarrow> index_db" where
  "insert_ref path raw_ref db =
     (case normalize_ref path raw_ref of
        Some target \<Rightarrow> insert_edge (path, target, Refs) db
      | None \<Rightarrow> db)"

definition insert_mention :: "string \<Rightarrow> string \<Rightarrow> index_db \<Rightarrow> index_db" where
  "insert_mention path name db =
     (case resolve_wikilink name db of
        Some target \<Rightarrow> insert_edge (path, target, Mentions) db
      | None \<Rightarrow> db)"

definition insert_edges_for_item :: "item \<Rightarrow> index_db \<Rightarrow> index_db" where
  "insert_edges_for_item item db =
     (let db = delete_edges_from (it_path item) db;
          db = fold (insert_ref (it_path item)) (fm_refs (it_frontmatter item)) db
      in fold (insert_mention (it_path item)) (extract_wikilink_names (it_body item)) db)"

section \<open>Building and updating\<close>

definition populate :: "string \<Rightarrow> item list \<Rightarrow> (index_error, index_db) result" where
  "populate today items =
     bind_result (fold_result (insert_item today) items create_schema)
       (\<lambda>db. Inr (fold insert_edges_for_item items db))"

definition build_in_memory :: "string \<Rightarrow> item list \<Rightarrow> (index_error, index_db) result" where
  "build_in_memory today items = populate today items"

text \<open>
  The published database is what is at \<open>dest\<close>, if anything. A build works on a temporary file and moves
  it into place only when it is complete; an update is one transaction, rolled back on any error.
\<close>

definition build_index :: "string \<Rightarrow> item list \<Rightarrow> index_db option \<Rightarrow> (index_error, unit) result \<times> index_db option" where
  "build_index today items dest =
     (case populate today items of
        Inr tmp \<Rightarrow> (Inr (), Some tmp)
      | Inl e \<Rightarrow> (Inl e, dest))"

definition delete_item :: "string \<Rightarrow> index_db \<Rightarrow> index_db" where
  "delete_item path db =
     (let db = (case rowid_of (db_paths db) path of
                  Some rowid \<Rightarrow>
                    db\<lparr>db_paths := delete_rowid rowid (db_paths db),
                       db_items := delete_rowid rowid (db_items db),
                       db_trigram := delete_rowid rowid (db_trigram db)\<rparr>
                | None \<Rightarrow> db)
      in delete_edges_from path db)"

definition upsert_item :: "string \<Rightarrow> item \<Rightarrow> index_db \<Rightarrow> (index_error, index_db) result" where
  "upsert_item today item db = insert_item today item (delete_item (it_path item) db)"

definition update_index ::
  "string \<Rightarrow> item list \<Rightarrow> string list \<Rightarrow> index_db option \<Rightarrow> (index_error, unit) result \<times> index_db option" where
  "update_index today upserts deleted_paths dest =
     (case dest of
        None \<Rightarrow> build_index today upserts dest
      | Some db \<Rightarrow>
          (case fold_result (upsert_item today) upserts (fold delete_item deleted_paths db) of
             Inl e \<Rightarrow> (Inl e, dest)
           | Inr tx \<Rightarrow> (Inr (), Some (fold insert_edges_for_item upserts tx))))"

definition known_paths :: "index_db \<Rightarrow> string set" where
  "known_paths db = set (map snd (db_paths db))"

section \<open>The invariant\<close>

text \<open>
  The three tables hold the same paths under the same rowids, in the same order, and neither a path nor
  a rowid comes twice.
\<close>

definition index_inv :: "index_db \<Rightarrow> bool" where
  "index_inv db \<longleftrightarrow>
     keyed_ok (db_paths db)
     \<and> map (\<lambda>r. (fst r, ir_path (snd r))) (db_items db) = db_paths db
     \<and> map (\<lambda>r. (fst r, fst (snd r))) (db_trigram db) = db_paths db"

text \<open>The content of the index: the row of each path.\<close>

definition item_view :: "index_db \<Rightarrow> string \<Rightarrow> item_row option" where
  "item_view db path = map_option snd (List.find (\<lambda>r. ir_path (snd r) = path) (db_items db))"

lemma create_schema_inv: "index_inv create_schema" "item_view create_schema = (\<lambda>_. None)"
  by (auto simp: index_inv_def create_schema_def item_view_def)

lemma index_inv_keys:
  assumes "index_inv db"
  shows "map fst (db_items db) = map fst (db_paths db)" "map fst (db_trigram db) = map fst (db_paths db)"
    "map (\<lambda>r. ir_path (snd r)) (db_items db) = map snd (db_paths db)"
  using assms map_map [of fst "\<lambda>r. (fst r, ir_path (snd r))" "db_items db"]
    map_map [of fst "\<lambda>r. (fst r, fst (snd r))" "db_trigram db"]
    map_map [of snd "\<lambda>r. (fst r, ir_path (snd r))" "db_items db"]
  by (auto simp: index_inv_def comp_def)

lemma item_view_Some:
  assumes "index_inv db"
  shows "item_view db path = Some row \<longleftrightarrow> ir_path row = path \<and> row \<in> snd ` set (db_items db)"
proof -
  have "distinct (map (\<lambda>r. ir_path (snd r)) (db_items db))"
    using assms index_inv_keys(3) [OF assms] by (simp add: index_inv_def keyed_ok_def)
  from find_Some_iff_unique [OF this, of path] show ?thesis
    by (auto simp: item_view_def image_iff) force
qed

lemma item_view_None:
  assumes "index_inv db"
  shows "item_view db path = None \<longleftrightarrow> path \<notin> known_paths db"
  using index_inv_keys(3) [OF assms]
  by (simp add: item_view_def find_None_iff_key known_paths_def flip: set_map)

lemma known_paths_dom:
  assumes "index_inv db"
  shows "known_paths db = {p. item_view db p \<noteq> None}"
proof (rule set_eqI)
  fix p
  show "p \<in> known_paths db \<longleftrightarrow> p \<in> {p. item_view db p \<noteq> None}"
    using item_view_None [OF assms, of p] by (simp del: not_None_eq)
qed

lemma index_inv_no_rowid:
  assumes "index_inv db" "i \<notin> fst ` set (db_paths db)"
  shows "\<not> has_rowid (db_items db) i" "\<not> has_rowid (db_trigram db) i"
  using assms index_inv_keys(1,2) [OF assms(1)] unfolding has_rowid_def set_map [symmetric] by auto

text \<open>Edge operations leave the tables alone.\<close>

lemma edge_ops_tables [simp]:
  "db_paths (delete_edges_from s db) = db_paths db" "db_items (delete_edges_from s db) = db_items db"
  "db_trigram (delete_edges_from s db) = db_trigram db"
  "db_paths (insert_edge e db) = db_paths db" "db_items (insert_edge e db) = db_items db"
  "db_trigram (insert_edge e db) = db_trigram db"
  by (simp_all add: delete_edges_from_def insert_edge_def)

lemma edge_inserts_tables [simp]:
  "db_paths (insert_ref s r db) = db_paths db" "db_items (insert_ref s r db) = db_items db"
  "db_trigram (insert_ref s r db) = db_trigram db"
  "db_paths (insert_mention s n db) = db_paths db" "db_items (insert_mention s n db) = db_items db"
  "db_trigram (insert_mention s n db) = db_trigram db"
  by (simp_all add: insert_ref_def insert_mention_def split: option.split)

lemma fold_keeps: "(\<And>x s. g (f x s) = g s) \<Longrightarrow> g (fold f xs s) = g s"
  by (induction xs arbitrary: s) auto

lemma insert_edges_tables [simp]:
  "db_paths (insert_edges_for_item item db) = db_paths db"
  "db_items (insert_edges_for_item item db) = db_items db"
  "db_trigram (insert_edges_for_item item db) = db_trigram db"
  by (simp_all add: insert_edges_for_item_def Let_def fold_keeps [where g = db_paths]
      fold_keeps [where g = db_items] fold_keeps [where g = db_trigram])

lemma fold_edges_tables [simp]:
  "db_paths (fold insert_edges_for_item items db) = db_paths db"
  "db_items (fold insert_edges_for_item items db) = db_items db"
  "db_trigram (fold insert_edges_for_item items db) = db_trigram db"
  by (simp_all add: fold_keeps [where g = db_paths] fold_keeps [where g = db_items] fold_keeps [where g = db_trigram])

lemma tables_inv:
  assumes "db_paths db' = db_paths db" "db_items db' = db_items db" "db_trigram db' = db_trigram db"
  shows "index_inv db' = index_inv db" "item_view db' = item_view db" "known_paths db' = known_paths db"
  using assms by (simp_all add: index_inv_def item_view_def known_paths_def fun_eq_iff)

lemmas edges_inv = tables_inv [OF fold_edges_tables]

text \<open>The operations implement the map contract.\<close>

lemma item_row_path: "item_row today item = Some row \<Longrightarrow> ir_path row = it_path item"
  by (auto simp: item_row_def Let_def)

lemma insert_item_Inr:
  assumes "index_inv db" "insert_item today item db = Inr db'"
  shows "item_row today item \<noteq> None \<and> item_view db (it_path item) = None \<and> index_inv db'
    \<and> item_view db' = (item_view db)(it_path item := item_row today item)"
proof -
  from assms(2) obtain row i paths where *: "item_row today item = Some row"
    "insert_unique (it_path item) (db_paths db) = Some (i, paths)"
    "db' = db\<lparr>db_paths := paths, db_items := db_items db @ [(i, row)],
              db_trigram := db_trigram db @ [(i, (it_path item, trigram_content item))]\<rparr>"
    by (auto simp: insert_item_def split: option.splits if_splits)
  note path = item_row_path [OF *(1)]
  have inv: "index_inv db'"
    using assms(1) * path insert_unique_ok [OF *(2)] by (auto simp: index_inv_def insert_unique_Some)
  have none: "item_view db (it_path item) = None"
    using *(2) item_view_None [OF assms(1)] by (auto simp: insert_unique_Some known_paths_def)
  have "item_view db' = (item_view db)(it_path item := Some row)"
  proof
    fix p
    show "item_view db' p = ((item_view db)(it_path item := Some row)) p"
      using none path by (auto simp: *(3) item_view_def find_append split: option.splits)
  qed
  with inv none * show ?thesis by simp
qed

lemma insert_item_succeeds:
  assumes "index_inv db" "item_row today item \<noteq> None" "item_view db (it_path item) = None"
  shows "\<exists>db'. insert_item today item db = Inr db'"
proof -
  have "it_path item \<notin> snd ` set (db_paths db)"
    using assms(3) item_view_None [OF assms(1)] by (simp add: known_paths_def)
  then have "insert_unique (it_path item) (db_paths db)
      = Some (next_rowid (db_paths db), db_paths db @ [(next_rowid (db_paths db), it_path item)])"
    by (simp add: insert_unique_Some)
  with assms(2) index_inv_no_rowid [OF assms(1) next_rowid_fresh] show ?thesis
    by (auto simp: insert_item_def)
qed

lemma map_filter_key:
  "map f xs = ys \<Longrightarrow> (\<And>r. r \<in> set xs \<Longrightarrow> fst (f r) = fst r) \<Longrightarrow> map f (delete_rowid i xs) = delete_rowid i ys"
  unfolding delete_rowid_def by (induction xs arbitrary: ys) auto

lemma delete_item_inv: "index_inv db \<Longrightarrow> index_inv (delete_item path db)"
  using delete_rowid_ok map_filter_key [of "\<lambda>r. (fst r, ir_path (snd r))" "db_items db" "db_paths db"]
    map_filter_key [of "\<lambda>r. (fst r, fst (snd r))" "db_trigram db" "db_paths db"]
  by (auto simp: delete_item_def index_inv_def split: option.split)

lemma option_eqI: "(\<And>v. x = Some v \<longleftrightarrow> y = Some v) \<Longrightarrow> x = y"
  by (cases x; cases y) auto

lemma delete_item_view:
  assumes "index_inv db"
  shows "item_view (delete_item path db) = (item_view db)(path := None)"
proof
  fix p
  note inv' = delete_item_inv [OF assms, of path]
  have ok: "keyed_ok (db_paths db)" using assms by (simp add: index_inv_def)
  have items: "db_items (delete_item path db)
      = (case rowid_of (db_paths db) path of Some i \<Rightarrow> delete_rowid i (db_items db) | None \<Rightarrow> db_items db)"
    by (simp add: delete_item_def split: option.split)
  have pair: "(fst r, ir_path (snd r)) \<in> set (db_paths db)" if "r \<in> set (db_items db)" for r
    using that assms unfolding index_inv_def by (metis (mono_tags, lifting) image_eqI list.set_map)
  have "row \<in> snd ` set (db_items (delete_item path db)) \<longleftrightarrow> ir_path row \<noteq> path \<and> row \<in> snd ` set (db_items db)" for row
  proof (cases "rowid_of (db_paths db) path")
    case None
    then have "path \<notin> snd ` set (db_paths db)" by (rule iffD1 [OF rowid_of_None])
    then show ?thesis using None pair by (force simp: items)
  next
    case (Some i)
    have "fst r = i \<longleftrightarrow> ir_path (snd r) = path" if "r \<in> set (db_items db)" for r
      using pair [OF that] Some ok unfolding rowid_of_Some [OF ok] keyed_ok_def
      by (metis distinct_map eq_key_imp_eq_value fst_conv inj_onD snd_conv)
    then show ?thesis using Some by (force simp: items)
  qed
  then have "item_view (delete_item path db) p = Some row \<longleftrightarrow> ((item_view db)(path := None)) p = Some row" for row
    unfolding item_view_Some [OF inv', of p row] fun_upd_apply using item_view_Some [OF assms, of p row] by auto
  then show "item_view (delete_item path db) p = ((item_view db)(path := None)) p"
    by (rule option_eqI)
qed

interpretation index: row_store index_inv item_view it_path "item_row today" "insert_item today" delete_item
  for today
proof
  show "index_inv (delete_item k s)" if "index_inv s" for k s using that by (rule delete_item_inv)
  show "item_view (delete_item k s) = (item_view s)(k := None)" if "index_inv s" for k s
    using that by (rule delete_item_view)
  show "item_row today r \<noteq> None \<and> item_view s (it_path r) = None \<and> index_inv t
      \<and> item_view t = (item_view s)(it_path r := item_row today r)"
    if "index_inv s" "insert_item today r s = Inr t" for r s t
    using that by (rule insert_item_Inr)
  show "\<exists>t. insert_item today r s = Inr t"
    if "index_inv s" "item_row today r \<noteq> None" "item_view s (it_path r) = None" for r s
    using that by (rule insert_item_succeeds)
qed

lemmas row_store_facts = index.upserts index.adds index.drop_all

lemma upsert_item_eq: "upsert_item today = index.upsert today"
  by (rule ext)+ (simp add: upsert_item_def index.upsert_def)

section \<open>Building\<close>

lemma populate_cases:
  "(\<exists>db. populate today items = Inr db)
     \<longleftrightarrow> distinct (map it_path items) \<and> (\<forall>item \<in> set items. item_row today item \<noteq> None)"
  "populate today items = Inr db \<Longrightarrow> index_inv db \<and> item_view db = index.overlay today items (\<lambda>_. None)"
proof -
  note adds = index.adds [OF create_schema_inv(1), where rs = items and today = today]
  show "(\<exists>db. populate today items = Inr db)
     \<longleftrightarrow> distinct (map it_path items) \<and> (\<forall>item \<in> set items. item_row today item \<noteq> None)"
    using adds(1) by (auto simp: populate_def create_schema_inv(2))
  assume "populate today items = Inr db"
  then obtain db0 where "fold_result (insert_item today) items create_schema = Inr db0"
    "db = fold insert_edges_for_item items db0" by (auto simp: populate_def)
  then show "index_inv db \<and> item_view db = index.overlay today items (\<lambda>_. None)"
    using adds(2) [of db0] create_schema_inv(2) by (simp add: edges_inv)
qed

text \<open>The content that a list of items stands for.\<close>

definition items_view :: "string \<Rightarrow> item list \<Rightarrow> string \<Rightarrow> item_row option" where
  "items_view today items path =
     Option.bind (List.find (\<lambda>item. it_path item = path) items) (item_row today)"

lemma items_view_overlay:
  assumes "distinct (map it_path items)"
  shows "index.overlay today items (\<lambda>_. None) = items_view today items"
proof
  fix p
  show "index.overlay today items (\<lambda>_. None) p = items_view today items p"
  proof (cases "List.find (\<lambda>item. it_path item = p) items")
    case None
    then have "p \<notin> it_path ` set items" by (auto simp: find_None_iff)
    then show ?thesis using None index.overlay_key [of p items today "\<lambda>_. None"] by (simp add: items_view_def)
  next
    case (Some item)
    then have "item \<in> set items" "it_path item = p"
      using find_Some_iff_unique [OF assms] by blast+
    then show ?thesis using Some index.overlay_distinct [OF assms] by (auto simp: items_view_def)
  qed
qed

text \<open>
  C4. Building publishes exactly the given items, or nothing: when it succeeds the new database keeps
  the invariant of the tables, and the row of each path is the one of the item with that path; when it
  fails, a path came twice or the tier gate panicked, and what was published before is untouched.
\<close>

theorem build_index_correct:
  "case build_index today items dest of
     (Inr u, published) \<Rightarrow>
       (\<exists>db. published = Some db \<and> index_inv db \<and> item_view db = items_view today items)
       \<and> distinct (map it_path items)
   | (Inl e, published) \<Rightarrow>
       published = dest \<and> (\<not> distinct (map it_path items) \<or> None \<in> item_row today ` set items)"
proof (cases "populate today items")
  case (Inl e)
  then have "\<not> (\<exists>db. populate today items = Inr db)" by simp
  then have "\<not> distinct (map it_path items) \<or> None \<in> item_row today ` set items"
    using populate_cases(1) [of today items] by (metis imageI)
  with Inl show ?thesis by (simp add: build_index_def)
next
  case (Inr db)
  then have "distinct (map it_path items)" using populate_cases(1) [of today items] by blast
  with Inr show ?thesis
    using populate_cases(2) [OF Inr] by (simp add: build_index_def items_view_overlay)
qed

section \<open>Updating in place\<close>

lemma update_cases:
  assumes "index_inv db"
  shows "(\<exists>published. update_index today ups dels (Some db) = (Inr (), published))
           \<longleftrightarrow> (\<forall>item \<in> set ups. item_row today item \<noteq> None)"
    and "update_index today ups dels (Some db) = (Inr (), published) \<Longrightarrow>
           \<exists>db'. published = Some db' \<and> index_inv db'
             \<and> item_view db' = index.overlay today ups (\<lambda>p. if p \<in> set dels then None else item_view db p)"
    and "update_index today ups dels (Some db) = (Inl e, published) \<Longrightarrow> published = Some db"
proof -
  let ?db = "fold delete_item dels db"
  have db: "index_inv ?db" "item_view ?db = (\<lambda>p. if p \<in> set dels then None else item_view db p)"
    using index.drop_all [OF assms] by blast+
  note ups = index.upserts [OF db(1), where rs = ups and today = today, folded upsert_item_eq]
  show "(\<exists>published. update_index today ups dels (Some db) = (Inr (), published))
           \<longleftrightarrow> (\<forall>item \<in> set ups. item_row today item \<noteq> None)"
    using ups(1) by (auto simp: update_index_def split: sum.splits)
  show "update_index today ups dels (Some db) = (Inl e, published) \<Longrightarrow> published = Some db"
    by (auto simp: update_index_def split: sum.splits)
  assume "update_index today ups dels (Some db) = (Inr (), published)"
  then obtain tx where "fold_result (upsert_item today) ups ?db = Inr tx"
    "published = Some (fold insert_edges_for_item ups tx)"
    by (auto simp: update_index_def split: sum.splits)
  then show "\<exists>db'. published = Some db' \<and> index_inv db'
      \<and> item_view db' = index.overlay today ups (\<lambda>p. if p \<in> set dels then None else item_view db p)"
    using ups(2) [of tx] db(2) by (simp add: edges_inv)
qed

text \<open>The content after an update: the deleted paths go, then each upsert replaces the row of its path.\<close>

definition updated_view ::
  "string \<Rightarrow> item list \<Rightarrow> string list \<Rightarrow> (string \<Rightarrow> item_row option) \<Rightarrow> string \<Rightarrow> item_row option" where
  "updated_view today ups dels view =
     foldl (\<lambda>m item. m(it_path item := item_row today item)) (\<lambda>p. if p \<in> set dels then None else view p) ups"

text \<open>
  C5. An update in place refines the update of the content, and is all or nothing: it keeps the
  invariant of the tables, and the published content is the old one without the deleted paths and with
  the upserted rows; it fails only when the tier gate panics on one of the upserts, and then what was
  published is untouched.
\<close>

theorem update_index_refines:
  assumes "index_inv db"
  shows "case update_index today ups dels (Some db) of
     (Inr u, published) \<Rightarrow>
       \<exists>db'. published = Some db' \<and> index_inv db' \<and> item_view db' = updated_view today ups dels (item_view db)
   | (Inl e, published) \<Rightarrow> published = Some db \<and> None \<in> item_row today ` set ups"
proof -
  obtain r published where u: "update_index today ups dels (Some db) = (r, published)" by force
  show ?thesis
  proof (cases r)
    case (Inl e)
    then have "\<not> (\<exists>published. update_index today ups dels (Some db) = (Inr (), published))"
      using u by simp
    then have "None \<in> item_row today ` set ups"
      using update_cases(1) [OF assms, of today ups dels] by (metis imageI)
    then show ?thesis using u Inl update_cases(3) [OF assms, of today ups dels e published] by simp
  next
    case (Inr a)
    then show ?thesis
      using u update_cases(2) [OF assms, of today ups dels published]
      by (simp add: updated_view_def index.overlay_def)
  qed
qed

text \<open>
  C6. Indexing incrementally is the same as rebuilding: updating a built index with a change set gives
  the content that a fresh build from the changed list of items gives.
\<close>

theorem update_equals_rebuild:
  assumes "build_in_memory today items = Inr db"
    and "update_index today ups dels (Some db) = (Inr (), Some db')"
    and "build_in_memory today
           (filter (\<lambda>i. it_path i \<notin> set dels \<and> it_path i \<notin> it_path ` set ups) items @ ups) = Inr db''"
  shows "item_view db' = item_view db''"
proof
  fix p
  let ?kept = "filter (\<lambda>i. it_path i \<notin> set dels \<and> it_path i \<notin> it_path ` set ups) items"
  note pop = assms(1,3) [unfolded build_in_memory_def]
  have inv: "index_inv db" and old: "item_view db = items_view today items"
    using populate_cases(2) [OF pop(1)] populate_cases(1) [of today items] pop(1)
    by (auto simp: items_view_overlay)
  have dist: "distinct (map it_path (?kept @ ups))"
    using populate_cases(1) [of today "?kept @ ups"] pop(2) by blast
  have new: "item_view db'' = items_view today (?kept @ ups)"
    using populate_cases(2) [OF pop(2)] items_view_overlay [OF dist] by simp
  have upd: "item_view db' = index.overlay today ups (\<lambda>p. if p \<in> set dels then None else items_view today items p)"
    using update_cases(2) [OF inv assms(2)] unfolding old by simp
  show "item_view db' p = item_view db'' p"
  proof (cases "p \<in> it_path ` set ups")
    case True
    then obtain item where item: "item \<in> set ups" "p = it_path item" by blast
    moreover have "distinct (map it_path ups)" using dist by simp
    ultimately have "item_view db' p = item_row today item"
      using index.overlay_distinct [of ups item today] by (simp add: upd)
    moreover have "List.find (\<lambda>i. it_path i = p) (?kept @ ups) = Some item"
      using find_Some_iff_unique [OF dist, of p item] item by simp
    ultimately show ?thesis by (simp add: new items_view_def)
  next
    case False
    then have "List.find (\<lambda>i. it_path i = p) ups = None" by (auto simp: find_None_iff)
    moreover have "List.find (\<lambda>i. it_path i = p) ?kept
        = (if p \<in> set dels then None else List.find (\<lambda>i. it_path i = p) items)"
      using False by (induction items) auto
    ultimately show ?thesis
      using index.overlay_key [OF False, of today] by (simp add: upd new items_view_def find_append split: option.split)
  qed
qed

section \<open>Edges\<close>

text \<open>The outgoing edges of an item, by the paths the index knows.\<close>

definition item_edges :: "index_db \<Rightarrow> item \<Rightarrow> edge set" where
  "item_edges db item =
     {(it_path item, target, Refs) | target.
        Some target \<in> normalize_ref (it_path item) ` set (fm_refs (it_frontmatter item))}
     \<union> {(it_path item, target, Mentions) | target.
        Some target \<in> (\<lambda>name. resolve_wikilink name db) ` set (extract_wikilink_names (it_body item))}"

lemma item_edges_cong: "db_paths db = db_paths db' \<Longrightarrow> item_edges db item = item_edges db' item"
  by (simp add: item_edges_def resolve_wikilink_def)

lemma set_insert_edge: "set (db_edges (insert_edge e db)) = insert e (set (db_edges db))"
  by (auto simp: insert_edge_def)

lemma set_fold_refs:
  "set (db_edges (fold (insert_ref path) refs db))
     = set (db_edges db) \<union> {(path, target, Refs) | target. Some target \<in> normalize_ref path ` set refs}"
proof (induction refs arbitrary: db)
  case (Cons r rs)
  then show ?case by (cases "normalize_ref path r") (auto simp: insert_ref_def set_insert_edge)
qed simp

lemma set_fold_mentions:
  "set (db_edges (fold (insert_mention path) names db))
     = set (db_edges db) \<union> {(path, target, Mentions) | target. Some target \<in> (\<lambda>n. resolve_wikilink n db) ` set names}"
proof (induction names arbitrary: db)
  case (Cons n ns)
  have "resolve_wikilink m (insert_mention path n db) = resolve_wikilink m db" for m
    by (simp add: resolve_wikilink_def)
  then show ?case
    using Cons.IH [of "insert_mention path n db"]
    by (cases "resolve_wikilink n db") (auto simp: insert_mention_def set_insert_edge)
qed simp

lemma set_insert_edges:
  "set (db_edges (insert_edges_for_item item db))
     = {e \<in> set (db_edges db). fst e \<noteq> it_path item} \<union> item_edges db item"
proof -
  let ?db = "fold (insert_ref (it_path item)) (fm_refs (it_frontmatter item)) (delete_edges_from (it_path item) db)"
  have "resolve_wikilink n ?db = resolve_wikilink n db" for n
    by (simp add: resolve_wikilink_def fold_keeps [where g = db_paths])
  then show ?thesis
    unfolding insert_edges_for_item_def Let_def set_fold_mentions set_fold_refs item_edges_def
    by (auto simp: delete_edges_from_def)
qed

lemma item_edges_source: "e \<in> item_edges db item \<Longrightarrow> fst e = it_path item"
  by (auto simp: item_edges_def)

lemma set_fold_insert_edges:
  assumes "distinct (map it_path items)"
  shows "set (db_edges (fold insert_edges_for_item items db))
     = {e \<in> set (db_edges db). fst e \<notin> it_path ` set items} \<union> \<Union> (item_edges db ` set items)"
  using assms
proof (induction items arbitrary: db)
  case (Cons item items)
  let ?db = "insert_edges_for_item item db"
  have same: "item_edges ?db = item_edges db" by (rule ext) (rule item_edges_cong, simp)
  have "set (db_edges (fold insert_edges_for_item (item # items) db))
      = {e \<in> {e \<in> set (db_edges db). fst e \<noteq> it_path item} \<union> item_edges db item. fst e \<notin> it_path ` set items}
        \<union> \<Union> (item_edges db ` set items)"
    using Cons.IH [of ?db] Cons.prems unfolding same set_insert_edges by simp
  then show ?case using Cons.prems item_edges_source [of _ db item] by auto
qed simp

lemma insert_item_edges: "insert_item today item db = Inr db' \<Longrightarrow> db_edges db' = db_edges db"
  by (auto simp: insert_item_def split: option.splits if_splits)

lemma delete_item_edges: "db_edges (delete_item path db) = filter (\<lambda>e. fst e \<noteq> path) (db_edges db)"
  by (auto simp: delete_item_def delete_edges_from_def split_def split: option.split)

lemma delete_items_edges: "set (db_edges (fold delete_item paths db)) = {e \<in> set (db_edges db). fst e \<notin> set paths}"
  by (induction paths arbitrary: db) (auto simp: delete_item_edges)

lemma upserts_edges:
  "fold_result (upsert_item today) ups db = Inr db'
     \<Longrightarrow> set (db_edges db') = {e \<in> set (db_edges db). fst e \<notin> it_path ` set ups}"
proof (induction ups arbitrary: db)
  case (Cons item ups)
  then obtain u where u: "upsert_item today item db = Inr u" "fold_result (upsert_item today) ups u = Inr db'" by auto
  then show ?case using Cons.IH [OF u(2)] insert_item_edges [of today item _ u]
    by (auto simp: upsert_item_def delete_item_edges)
qed simp

text \<open>
  The graph follows the content: after an update the edges that leave a deleted or upserted item are
  exactly those its new text has, a reference where it leads and a wikilink to the path it resolves to
  among all paths of the updated index, and every other edge is kept.
\<close>

lemma update_index_edges:
  assumes "distinct (map it_path ups)"
    and "update_index today ups dels (Some db) = (Inr (), Some db')"
  shows "set (db_edges db')
     = {e \<in> set (db_edges db). fst e \<notin> set dels \<and> fst e \<notin> it_path ` set ups} \<union> \<Union> (item_edges db' ` set ups)"
proof -
  from assms(2) obtain tx where tx: "fold_result (upsert_item today) ups (fold delete_item dels db) = Inr tx"
    "db' = fold insert_edges_for_item ups tx"
    by (auto simp: update_index_def split: sum.splits)
  have same: "item_edges db' = item_edges tx" by (rule ext) (rule item_edges_cong, simp add: tx(2))
  have "set (db_edges tx) = {e \<in> set (db_edges db). fst e \<notin> set dels \<and> fst e \<notin> it_path ` set ups}"
    using upserts_edges [OF tx(1)] by (auto simp: delete_items_edges)
  then show ?thesis
    unfolding same unfolding tx(2) set_fold_insert_edges [OF assms(1)] by blast
qed

section \<open>Examples\<close>

definition plain_item :: "string \<Rightarrow> string \<Rightarrow> item" where
  "plain_item path body = \<lparr>it_path = path, it_frontmatter = default_frontmatter, it_body = body,
     it_embedding = None, it_human_signed = False\<rparr>"

definition built :: "(index_error, index_db) result \<Rightarrow> index_db" where
  "built r = (case r of Inr db \<Rightarrow> db | Inl e \<Rightarrow> create_schema)"

definition published_db :: "(index_error, unit) result \<times> index_db option \<Rightarrow> index_db" where
  "published_db r = (case snd r of Some db \<Rightarrow> db | None \<Rightarrow> create_schema)"

text \<open>A store with one item that mentions another one, which an update adds.\<close>

definition example_db :: index_db where
  "example_db = built (build_in_memory ''2026-07-26'' [plain_item ''a.md'' ''[[b]]''])"

definition example_updated :: index_db where
  "example_updated = published_db (update_index ''2026-07-26'' [plain_item ''b.md'' ''see [[a]]''] [''c.md''] (Some example_db))"

definition example_rebuilt :: index_db where
  "example_rebuilt = built (build_in_memory ''2026-07-26'' [plain_item ''a.md'' ''[[b]]'', plain_item ''b.md'' ''see [[a]]''])"

lemma example_built:
  "build_in_memory ''2026-07-26'' [plain_item ''a.md'' ''[[b]]''] = Inr example_db"
  "update_index ''2026-07-26'' [plain_item ''b.md'' ''see [[a]]''] [''c.md''] (Some example_db) = (Inr (), Some example_updated)"
  "build_in_memory ''2026-07-26''
     (filter (\<lambda>i. it_path i \<notin> set [''c.md''] \<and> it_path i \<notin> it_path ` set [plain_item ''b.md'' ''see [[a]]''])
        [plain_item ''a.md'' ''[[b]]''] @ [plain_item ''b.md'' ''see [[a]]'']) = Inr example_rebuilt"
  by code_simp+

lemma example_inv: "index_inv example_db"
  using populate_cases(2) example_built(1) unfolding build_in_memory_def by blast

lemma build_index_correct_witness:
  "case build_index ''2026-07-26'' [plain_item ''a.md'' ''x'', plain_item ''a.md'' ''y''] (Some example_db) of
     (Inr u, published) \<Rightarrow>
       (\<exists>db. published = Some db \<and> index_inv db
          \<and> item_view db = items_view ''2026-07-26'' [plain_item ''a.md'' ''x'', plain_item ''a.md'' ''y''])
       \<and> distinct (map it_path [plain_item ''a.md'' ''x'', plain_item ''a.md'' ''y''])
   | (Inl e, published) \<Rightarrow>
       published = Some example_db
       \<and> (\<not> distinct (map it_path [plain_item ''a.md'' ''x'', plain_item ''a.md'' ''y''])
          \<or> None \<in> item_row ''2026-07-26'' ` set [plain_item ''a.md'' ''x'', plain_item ''a.md'' ''y''])"
  by (rule build_index_correct)

lemma update_index_refines_witness:
  "case update_index ''2026-07-26'' [plain_item ''b.md'' ''see [[a]]''] [''a.md''] (Some example_db) of
     (Inr u, published) \<Rightarrow>
       \<exists>db'. published = Some db' \<and> index_inv db'
         \<and> item_view db' = updated_view ''2026-07-26'' [plain_item ''b.md'' ''see [[a]]''] [''a.md''] (item_view example_db)
   | (Inl e, published) \<Rightarrow> published = Some example_db
       \<and> None \<in> item_row ''2026-07-26'' ` set [plain_item ''b.md'' ''see [[a]]'']"
  by (rule update_index_refines [OF example_inv])

lemma update_equals_rebuild_witness: "item_view example_updated = item_view example_rebuilt"
  by (rule update_equals_rebuild [OF example_built(1,2,3)])

lemma update_index_edges_witness:
  "set (db_edges example_updated) = {(''b.md'', ''a.md'', Mentions)}"
proof -
  have "db_edges example_db = []" "db_edges example_updated = [(''b.md'', ''a.md'', Mentions)]"
    by code_simp+
  moreover have "distinct (map it_path [plain_item ''b.md'' ''see [[a]]''])" by simp
  note update_index_edges [OF this example_built(2)]
  ultimately show ?thesis by simp
qed

text \<open>
  The graph is not the one of a rebuild: the mention of an unchanged item that only the update makes
  resolvable stays without its edge until that item is indexed again.
\<close>

lemma update_leaves_mention_unresolved:
  "(''a.md'', ''b.md'', Mentions) \<notin> set (db_edges example_updated)"
  "(''a.md'', ''b.md'', Mentions) \<in> set (db_edges example_rebuilt)"
  by code_simp+

text \<open>
  A wikilink is not resolved by its stem alone: the underscore and the percent sign of a name are
  wildcards of \<open>LIKE\<close>, so a mention of a name that no file has can resolve to another file.
\<close>

lemma wikilink_wildcard:
  "resolve_wikilink ''meeting_notes'' (built (build_in_memory ''2026-07-26'' [plain_item ''x/meeting-notes.md'' ''b'']))
     = Some ''x/meeting-notes.md''
   \<and> resolve_wikilink ''%'' (built (build_in_memory ''2026-07-26'' [plain_item ''x/meeting-notes.md'' ''b'']))
     = Some ''x/meeting-notes.md''"
  by code_simp

end
