(* ===== verification/IndexSearch.thy ===== *)
theory IndexSearch
  imports IndexStore Complex_Main "HOL-Library.Multiset"
begin

text \<open>
  Reading the index (crates/wkp-core/src/index/search.rs): the query sanitizer, full-text search with
  its filters and token budget, substring search, graph traversal, context assembly and the rendering
  of a tier. The full-text engine of SQLite is the parameter \<open>fts\<close>: which rows match a query expression
  and with what score; the reciprocal of a float is a parameter too.
\<close>

unbundle bit_operations_syntax

section \<open>Filters and hits\<close>

record search_filter =
  sf_item_type :: "string option"
  sf_workspace :: "string option"
  sf_visibility :: "string option"
  sf_scope :: "string option"
  sf_tier :: "nat option"
  sf_budget :: "u32 option"
  sf_limit :: "nat option"

record search_hit =
  sh_path :: string
  sh_title :: string
  sh_score :: rat
  sh_tier :: nat
  sh_tokens :: u32
  sh_hop_distance :: nat

record fts_engine =
  fe_match :: "string \<Rightarrow> item_row \<Rightarrow> bool"
  fe_score :: "string \<Rightarrow> item_row \<Rightarrow> rat"
  fe_trigram :: "string \<Rightarrow> string \<Rightarrow> bool"
  fe_recip :: "nat \<Rightarrow> rat"

section \<open>Queries\<close>

definition quote_word :: "string \<Rightarrow> string" where
  "quote_word word = [dquote] @ replace_char dquote [dquote, dquote] word @ [dquote] @ ''*''"

definition sanitize_fts_query_joined :: "string \<Rightarrow> string \<Rightarrow> string" where
  "sanitize_fts_query_joined raw joiner =
     join joiner (map quote_word (split_whitespace (replace_char (CHR 0x00) [] raw)))"

definition sanitize_fts_query :: "string \<Rightarrow> string" where
  "sanitize_fts_query raw = sanitize_fts_query_joined raw '' ''"

definition sanitize_fts_query_any :: "string \<Rightarrow> string" where
  "sanitize_fts_query_any raw = sanitize_fts_query_joined raw '' OR ''"

text \<open>The loop of \<open>apply_budget\<close>: what was spent and kept so far. The sums are 64-bit.\<close>

fun budget_loop :: "u32 \<Rightarrow> search_hit list \<Rightarrow> u64 \<Rightarrow> search_hit list \<Rightarrow> search_hit list" where
  "budget_loop budget [] spent kept = kept"
| "budget_loop budget (hit # hits) spent kept =
     (let would_spend = spent + ucast (sh_tokens hit)
      in if kept \<noteq> [] \<and> would_spend > ucast budget then kept
         else budget_loop budget hits would_spend (kept @ [hit]))"

definition apply_budget :: "search_hit list \<Rightarrow> u32 option \<Rightarrow> search_hit list" where
  "apply_budget hits budget =
     (case budget of None \<Rightarrow> hits | Some b \<Rightarrow> budget_loop b hits 0 [])"

text \<open>A comparison with a bound value; a NULL column is not equal to anything.\<close>

definition sql_eq :: "string option \<Rightarrow> string option \<Rightarrow> bool" where
  "sql_eq wanted column = (case wanted of None \<Rightarrow> True | Some v \<Rightarrow> column = Some v)"

definition passes :: "search_filter \<Rightarrow> item_row \<Rightarrow> bool" where
  "passes f row \<longleftrightarrow>
     sql_eq (sf_item_type f) (ir_item_type row) \<and> sql_eq (sf_workspace f) (ir_workspace row)
     \<and> sql_eq (sf_visibility f) (ir_visibility row) \<and> sql_eq (sf_scope f) (ir_scope row)
     \<and> (case sf_tier f of None \<Rightarrow> True | Some t \<Rightarrow> ir_tier row \<le> t)"

definition sql_limit :: "nat option \<Rightarrow> 'a list \<Rightarrow> 'a list" where
  "sql_limit l xs = (case l of None \<Rightarrow> xs | Some n \<Rightarrow> take n xs)"

definition bm25_hit :: "fts_engine \<Rightarrow> string \<Rightarrow> item_row \<Rightarrow> search_hit" where
  "bm25_hit fts sanitized r =
     \<lparr>sh_path = ir_path r, sh_title = ir_title r, sh_score = fe_score fts sanitized r,
      sh_tier = ir_tier r, sh_tokens = ir_tokens_estimate r, sh_hop_distance = 0\<rparr>"

definition run_bm25_query :: "fts_engine \<Rightarrow> index_db \<Rightarrow> string \<Rightarrow> search_filter \<Rightarrow> search_hit list" where
  "run_bm25_query fts db sanitized f =
     (if sanitized = [] then []
      else (let rows = filter (\<lambda>r. fe_match fts sanitized r \<and> passes f r) (map snd (db_items db));
                ranked = sort_key (\<lambda>r. - fe_score fts sanitized r) rows;
                hits = map (bm25_hit fts sanitized) (sql_limit (sf_limit f) ranked)
            in apply_budget hits (sf_budget f)))"

definition search :: "fts_engine \<Rightarrow> index_db \<Rightarrow> string \<Rightarrow> search_filter \<Rightarrow> search_hit list" where
  "search fts db query f = run_bm25_query fts db (sanitize_fts_query query) f"

definition search_any_term :: "fts_engine \<Rightarrow> index_db \<Rightarrow> string \<Rightarrow> search_filter \<Rightarrow> search_hit list" where
  "search_any_term fts db query f = run_bm25_query fts db (sanitize_fts_query_any query) f"

definition search_trigram :: "fts_engine \<Rightarrow> index_db \<Rightarrow> string \<Rightarrow> nat \<Rightarrow> search_hit list" where
  "search_trigram fts db substring limit =
     (let escaped = replace_char dquote [dquote, dquote] substring;
          match_expr = [dquote] @ escaped @ [dquote]
      in map (\<lambda>(_, path, _). \<lparr>sh_path = path, sh_title = [], sh_score = 0, sh_tier = 0, sh_tokens = 0,
                             sh_hop_distance = 0\<rparr>)
           (take limit (filter (\<lambda>(_, _, content). fe_trigram fts match_expr content) (db_trigram db))))"

section \<open>Traversal\<close>

text \<open>
  The recursive query: the rows it adds in each round, with a row per way to reach a path, as long as
  the depth is below the bound.
\<close>

fun round_rows :: "edge list \<Rightarrow> string \<Rightarrow> nat \<Rightarrow> string list" where
  "round_rows edges start 0 = [start]"
| "round_rows edges start (Suc n) =
     concat (map (\<lambda>p. map (\<lambda>(s, t, e). t) (filter (\<lambda>(s, t, e). s = p) edges)) (round_rows edges start n))"

definition reachable_rows :: "edge list \<Rightarrow> string \<Rightarrow> nat \<Rightarrow> (string \<times> nat) list" where
  "reachable_rows edges start max_depth =
     concat (map (\<lambda>d. map (\<lambda>p. (p, d)) (round_rows edges start d)) [0..<Suc max_depth])"

text \<open>The smallest depth of a path among the rows, none when it is in no row.\<close>

fun min_depth :: "string \<Rightarrow> (string \<times> nat) list \<Rightarrow> nat option" where
  "min_depth p [] = None"
| "min_depth p ((q, d) # rows) =
     (if q = p then (case min_depth p rows of None \<Rightarrow> Some d | Some e \<Rightarrow> Some (min d e))
      else min_depth p rows)"

definition traverse :: "fts_engine \<Rightarrow> index_db \<Rightarrow> string \<Rightarrow> nat \<Rightarrow> search_hit list" where
  "traverse fts db start_path max_depth =
     (let reachable = reachable_rows (db_edges db) start_path max_depth;
          joined = List.map_filter (\<lambda>r. map_option (Pair r) (min_depth (ir_path r) reachable))
                     (filter (\<lambda>r. ir_path r \<noteq> start_path) (map snd (db_items db)))
      in map (\<lambda>(r, depth). \<lparr>sh_path = ir_path r, sh_title = ir_title r, sh_score = fe_recip fts (1 + depth),
                             sh_tier = ir_tier r, sh_tokens = ir_tokens_estimate r, sh_hop_distance = depth\<rparr>)
           (sort_key (\<lambda>(r, depth). depth) (sort_key (\<lambda>(r, depth). ir_tier r) joined)))"

section \<open>Context assembly\<close>

fun push_new :: "search_hit list \<Rightarrow> search_hit list \<Rightarrow> search_hit list" where
  "push_new combined [] = combined"
| "push_new combined (hit # hits) =
     push_new (if sh_path hit \<in> sh_path ` set combined then combined else combined @ [hit]) hits"

definition below_tier :: "nat option \<Rightarrow> search_hit \<Rightarrow> bool" where
  "below_tier tier hit = (case tier of None \<Rightarrow> True | Some t \<Rightarrow> sh_tier hit \<le> t)"

definition context_hits :: "fts_engine \<Rightarrow> index_db \<Rightarrow> string \<Rightarrow> search_filter \<Rightarrow> search_hit list" where
  "context_hits fts db topic f =
     (let search_filter = f\<lparr>sf_budget := None, sf_limit := Some 20\<rparr>;
          combined = push_new [] (search fts db topic search_filter);
          seeds = map sh_path (take 3 combined)
      in fold (\<lambda>seed combined. push_new combined (filter (below_tier (sf_tier f)) (traverse fts db seed 2)))
           seeds combined)"

definition context_assembly :: "fts_engine \<Rightarrow> index_db \<Rightarrow> string \<Rightarrow> search_filter \<Rightarrow> search_hit list" where
  "context_assembly fts db topic f = apply_budget (context_hits fts db topic f) (sf_budget f)"

section \<open>Rendering a tier\<close>

definition tier_rows :: "index_db \<Rightarrow> nat \<Rightarrow> item_row list" where
  "tier_rows db tier = sort_key ir_path (filter (\<lambda>r. ir_tier r = tier) (map snd (db_items db)))"

definition materialize :: "index_db \<Rightarrow> nat \<Rightarrow> string" where
  "materialize db tier =
     (let body = concat (map (\<lambda>r. ''## '' @ ir_title r @ [nl, nl] @ ''<!-- source: '' @ ir_path r @ '' -->''
                              @ [nl, nl] @ ir_content r @ [nl, nl]) (tier_rows db tier))
      in ''<wkp-context tier='' @ [dquote] @ show_nat tier @ [dquote] @ ''>'' @ [nl, nl]
         @ body @ ''</wkp-context>'' @ [nl])"

text \<open>The dash between title and path is three bytes of UTF-8.\<close>

definition routing_table :: "index_db \<Rightarrow> nat \<Rightarrow> string" where
  "routing_table db tier =
     concat (map (\<lambda>r. ''- '' @ ir_title r @ '' '' @ [CHR 0xE2, CHR 0x80, CHR 0x94] @ '' '' @ ir_path r @ [nl])
       (tier_rows db tier))"

definition fetch_item_metadata :: "index_db \<Rightarrow> string \<Rightarrow> (string \<times> nat \<times> u32) option" where
  "fetch_item_metadata db path =
     map_option (\<lambda>(_, r). (ir_title r, ir_tier r, ir_tokens_estimate r))
       (List.find (\<lambda>(_, r). ir_path r = path) (db_items db))"

section \<open>No query escapes its quotes\<close>

text \<open>
  How the full-text engine reads a sequence of prefix phrases: a phrase ends at the first quote that is
  not doubled, a star follows it, and phrases are separated by \<open>sep\<close>.
\<close>

fun read_phrase :: "string \<Rightarrow> (string \<times> string) option" where
  "read_phrase [] = None"
| "read_phrase (c # cs) =
     (if c \<noteq> dquote then map_option (apfst (Cons c)) (read_phrase cs)
      else (case cs of
              [] \<Rightarrow> Some ([], [])
            | d # ds \<Rightarrow> if d = dquote then map_option (apfst (Cons dquote)) (read_phrase ds) else Some ([], cs)))"

lemma read_phrase_length: "read_phrase s = Some (w, r) \<Longrightarrow> length r < length s"
proof (induction s arbitrary: w rule: read_phrase.induct)
  case (2 c cs)
  then show ?case by (fastforce split: if_splits list.splits)
qed simp

function read_query :: "string \<Rightarrow> string \<Rightarrow> string list option" where
  "read_query sep s =
     (case strip_prefix s [dquote] of
        None \<Rightarrow> None
      | Some body \<Rightarrow>
          (case read_phrase body of
             None \<Rightarrow> None
           | Some (w, star) \<Rightarrow>
               (case strip_prefix star ''*'' of
                  None \<Rightarrow> None
                | Some rest \<Rightarrow>
                    if rest = [] then Some [w]
                    else (case strip_prefix rest sep of
                            None \<Rightarrow> None
                          | Some next \<Rightarrow> map_option (Cons w) (read_query sep next)))))"
  by pat_completeness auto
termination
  by (relation "measure (\<lambda>(sep, s). length s)") (auto dest!: strip_prefix_length read_phrase_length)

declare read_query.simps [simp del]

lemma read_quoted:
  "(\<And>q. r \<noteq> dquote # q) \<Longrightarrow> read_phrase (replace_char dquote [dquote, dquote] w @ dquote # r) = Some (w, r)"
  by (induction w) (auto split: list.split)

lemma read_query_step:
  "read_query sep (quote_word w @ r)
     = (if r = [] then Some [w]
        else (case strip_prefix r sep of None \<Rightarrow> None | Some next \<Rightarrow> map_option (Cons w) (read_query sep next)))"
  by (subst read_query.simps) (simp add: quote_word_def read_quoted)

lemma read_query_words:
  assumes "words \<noteq> []"
  shows "read_query sep (join sep (map quote_word words)) = Some words"
  using assms
proof (induction words)
  case (Cons w ws)
  show ?case
  proof (cases "ws = []")
    case True
    then show ?thesis using read_query_step [of sep w "[]"] by simp
  next
    case False
    have "join sep (map quote_word (w # ws)) = quote_word w @ sep @ join sep (map quote_word ws)"
      using False by (simp add: join_Cons)
    moreover have "join sep (map quote_word ws) \<noteq> []"
      using False by (cases ws; cases "tl ws") (auto simp: quote_word_def)
    ultimately show ?thesis
      using Cons.IH [OF False] read_query_step [of sep w "sep @ join sep (map quote_word ws)"] by simp
  qed
qed simp

text \<open>
  C7. No query text is read as query syntax: the engine reads back from a sanitized query exactly the
  words the user typed, as prefix phrases, whatever quotes, operators or column filters they hold; the
  empty expression comes only from a query without words.
\<close>

theorem sanitized_query_reads_back:
  "(let words = split_whitespace (replace_char (CHR 0x00) [] raw) in
     if words = [] then sanitize_fts_query raw = [] \<and> sanitize_fts_query_any raw = []
     else read_query '' '' (sanitize_fts_query raw) = Some words
        \<and> read_query '' OR '' (sanitize_fts_query_any raw) = Some words)"
  by (simp add: sanitize_fts_query_def sanitize_fts_query_any_def sanitize_fts_query_joined_def Let_def read_query_words)

section \<open>The budget\<close>

definition spent_tokens :: "search_hit list \<Rightarrow> nat" where
  "spent_tokens hits = sum_list (map (\<lambda>h. unat (sh_tokens h)) hits)"

lemma spent_tokens_simps [simp]: "spent_tokens [] = 0" "spent_tokens (h # hs) = unat (sh_tokens h) + spent_tokens hs"
  "spent_tokens (hs @ hs') = spent_tokens hs + spent_tokens hs'"
  by (simp_all add: spent_tokens_def)

lemma spent_tokens_bound: "spent_tokens hits \<le> length hits * (2 ^ 32 - 1)"
proof (induction hits)
  case (Cons h hs)
  have "unat (sh_tokens h) \<le> 2 ^ 32 - 1" using unsigned_less [of "sh_tokens h", where 'a = nat] by simp
  then show ?case using Cons by simp
qed simp

text \<open>What the budget keeps: as many hits as fit, one at least.\<close>

fun fitting :: "nat \<Rightarrow> search_hit list \<Rightarrow> nat \<Rightarrow> search_hit list" where
  "fitting budget [] spent = []"
| "fitting budget (h # hs) spent =
     (if spent + unat (sh_tokens h) > budget then [] else h # fitting budget hs (spent + unat (sh_tokens h)))"

definition within_budget :: "nat \<Rightarrow> search_hit list \<Rightarrow> search_hit list" where
  "within_budget budget hits =
     (case hits of [] \<Rightarrow> [] | h # hs \<Rightarrow> h # fitting budget hs (unat (sh_tokens h)))"

lemma unat_widen: "unat (ucast w :: u64) = unat w" for w :: u32
  using unsigned_less [of w, where 'a = nat] by (simp add: unsigned_ucast_eq take_bit_nat_eq_self)

lemma budget_loop_fitting:
  assumes "unat spent + spent_tokens hits < 2 ^ 64" "kept \<noteq> []"
  shows "budget_loop budget hits spent kept = kept @ fitting (unat budget) hits (unat spent)"
  using assms
proof (induction hits arbitrary: spent kept)
  case (Cons h hs)
  note tok = unat_widen [of "sh_tokens h"]
  note bud = unat_widen [of budget]
  have sum: "unat (spent + ucast (sh_tokens h)) = unat spent + unat (sh_tokens h)"
    using Cons.prems(1) by (subst unat_add_lem [THEN iffD1]) (simp_all add: tok)
  have over: "spent + ucast (sh_tokens h) > ucast budget \<longleftrightarrow> unat spent + unat (sh_tokens h) > unat budget"
    unfolding word_less_nat_alt bud sum by (rule refl)
  show ?case
    using Cons.IH [of "spent + ucast (sh_tokens h)" "kept @ [h]"] Cons.prems over sum
    by (simp add: Let_def)
qed simp

lemma apply_budget_within:
  assumes "spent_tokens hits < 2 ^ 64"
  shows "apply_budget hits (Some b) = within_budget (unat b) hits"
proof (cases hits)
  case (Cons h hs)
  have "unat (ucast (sh_tokens h) :: u64) + spent_tokens hs < 2 ^ 64"
    using assms Cons unat_widen [of "sh_tokens h"] by simp
  from budget_loop_fitting [OF this, of "[h]" b] show ?thesis
    using Cons by (simp add: apply_budget_def within_budget_def unat_widen Let_def)
qed (simp add: apply_budget_def within_budget_def)

lemma fitting_take:
  "\<exists>n. fitting b hits spent = take n hits
     \<and> (fitting b hits spent \<noteq> [] \<longrightarrow> spent + spent_tokens (fitting b hits spent) \<le> b)
     \<and> (n < length hits \<longrightarrow> spent + spent_tokens (take (Suc n) hits) > b)"
proof (induction b hits spent rule: fitting.induct)
  case (2 b h hs spent)
  show ?case
  proof (cases "spent + unat (sh_tokens h) > b")
    case True
    then show ?thesis by (intro exI [of _ 0]) simp
  next
    case False
    with "2.IH" obtain n where n: "fitting b hs (spent + unat (sh_tokens h)) = take n hs"
      "fitting b hs (spent + unat (sh_tokens h)) \<noteq> [] \<longrightarrow>
         spent + unat (sh_tokens h) + spent_tokens (fitting b hs (spent + unat (sh_tokens h))) \<le> b"
      "n < length hs \<longrightarrow> spent + unat (sh_tokens h) + spent_tokens (take (Suc n) hs) > b" by blast
    then show ?thesis
      using False by (intro exI [of _ "Suc n"]) (cases "take n hs = []"; simp add: add.assoc)
  qed
qed simp

text \<open>
  C8. The budget keeps a prefix of the ranking: at least the best hit, no more than the budget unless
  that is the best hit alone, and no hit less than fits. The 64-bit sum does not wrap for less than
  2^32 hits.
\<close>

theorem budget_prefix:
  assumes "length hits < 2 ^ 32" "hits \<noteq> []"
  shows "\<exists>n. apply_budget hits (Some b) = take n hits \<and> 1 \<le> n \<and> n \<le> length hits
           \<and> (n = 1 \<or> spent_tokens (take n hits) \<le> unat b)
           \<and> (n = length hits \<or> spent_tokens (take (Suc n) hits) > unat b)"
proof -
  have "spent_tokens hits \<le> length hits * (2 ^ 32 - 1)" by (rule spent_tokens_bound)
  also have "\<dots> \<le> 2 ^ 32 * (2 ^ 32 - 1)" using assms(1) by (intro mult_le_mono1) simp
  finally have "spent_tokens hits < 2 ^ 64" by simp
  from apply_budget_within [OF this] have eq: "apply_budget hits (Some b) = within_budget (unat b) hits" .
  obtain h hs where hits: "hits = h # hs" using assms(2) by (cases hits) auto
  obtain n where n: "fitting (unat b) hs (unat (sh_tokens h)) = take n hs"
    "fitting (unat b) hs (unat (sh_tokens h)) \<noteq> [] \<longrightarrow>
       unat (sh_tokens h) + spent_tokens (fitting (unat b) hs (unat (sh_tokens h))) \<le> unat b"
    "n < length hs \<longrightarrow> unat (sh_tokens h) + spent_tokens (take (Suc n) hs) > unat b"
    using fitting_take [of "unat b" hs "unat (sh_tokens h)"] by blast
  let ?n = "min n (length hs)"
  have take: "take ?n hs = take n hs" by (cases "n \<le> length hs") (simp_all add: min_def)
  show ?thesis
    unfolding eq using hits n take
    by (intro exI [of _ "Suc ?n"]) (cases "take n hs = []"; auto simp: within_budget_def min_def)
qed

text \<open>Three hits of three tokens each, and a budget of seven.\<close>

definition hit3 :: "string \<Rightarrow> search_hit" where
  "hit3 p = \<lparr>sh_path = p, sh_title = [], sh_score = 0, sh_tier = 1, sh_tokens = 3, sh_hop_distance = 0\<rparr>"

lemma budget_prefix_witness:
  "\<exists>n. apply_budget [hit3 ''a'', hit3 ''b'', hit3 ''c''] (Some 7) = take n [hit3 ''a'', hit3 ''b'', hit3 ''c'']
     \<and> 1 \<le> n \<and> n \<le> length [hit3 ''a'', hit3 ''b'', hit3 ''c'']
     \<and> (n = 1 \<or> spent_tokens (take n [hit3 ''a'', hit3 ''b'', hit3 ''c'']) \<le> unat (7 :: u32))
     \<and> (n = length [hit3 ''a'', hit3 ''b'', hit3 ''c'']
        \<or> spent_tokens (take (Suc n) [hit3 ''a'', hit3 ''b'', hit3 ''c'']) > unat (7 :: u32))"
  by (rule budget_prefix) simp_all

section \<open>Traversal finds the shortest ways\<close>

text \<open>One edge of the graph, and the ways of a length.\<close>

definition linked :: "edge list \<Rightarrow> (string \<times> string) set" where
  "linked edges = {(s, t). \<exists>e. (s, t, e) \<in> set edges}"

lemma round_rows_way: "p \<in> set (round_rows edges start n) \<longleftrightarrow> (start, p) \<in> linked edges ^^ n"
proof (induction n arbitrary: p)
  case (Suc n)
  have "p \<in> set (round_rows edges start (Suc n))
      \<longleftrightarrow> (\<exists>q. q \<in> set (round_rows edges start n) \<and> (q, p) \<in> linked edges)"
    by (force simp: linked_def)
  also have "\<dots> \<longleftrightarrow> (start, p) \<in> linked edges ^^ Suc n" by (auto simp: Suc.IH)
  finally show ?case .
qed auto

lemma reachable_rows_way:
  "(p, d) \<in> set (reachable_rows edges start k) \<longleftrightarrow> d \<le> k \<and> (start, p) \<in> linked edges ^^ d"
  by (auto simp: reachable_rows_def round_rows_way image_iff simp del: upt_Suc intro!: bexI [of _ d])

lemma min_depth_None: "min_depth p rows = None \<longleftrightarrow> (\<forall>d. (p, d) \<notin> set rows)"
  by (induction p rows rule: min_depth.induct) (auto split: option.split)

lemma min_depth_least: "min_depth p rows = Some d \<Longrightarrow> (p, d) \<in> set rows \<and> (\<forall>e. (p, e) \<in> set rows \<longrightarrow> d \<le> e)"
proof (induction p rows arbitrary: d rule: min_depth.induct)
  case (2 p q c rows)
  show ?case
  proof (cases "q = p")
    case True
    then show ?thesis
      using "2.prems" "2.IH"(1) min_depth_None [of p rows] by (cases "min_depth p rows") (auto simp: min_def split: if_splits)
  next
    case False
    then show ?thesis using "2.prems" "2.IH"(2) by auto
  qed
qed simp

lemma min_depth_Some:
  "min_depth p rows = Some d \<longleftrightarrow> (p, d) \<in> set rows \<and> (\<forall>e. (p, e) \<in> set rows \<longrightarrow> d \<le> e)"
proof
  assume *: "(p, d) \<in> set rows \<and> (\<forall>e. (p, e) \<in> set rows \<longrightarrow> d \<le> e)"
  then obtain c where c: "min_depth p rows = Some c" using min_depth_None [of p rows] by fastforce
  then show "min_depth p rows = Some d" using min_depth_least [OF c] * by (auto intro: antisym)
qed (rule min_depth_least)

definition distance :: "edge list \<Rightarrow> string \<Rightarrow> string \<Rightarrow> nat \<Rightarrow> bool" where
  "distance edges start p d \<longleftrightarrow>
     (start, p) \<in> linked edges ^^ d \<and> (\<forall>e < d. (start, p) \<notin> linked edges ^^ e)"

lemma min_depth_distance:
  "min_depth p (reachable_rows edges start k) = Some d \<longleftrightarrow> d \<le> k \<and> distance edges start p d"
  by (auto simp: min_depth_Some reachable_rows_way distance_def not_less) (meson le_trans nat_le_linear not_le)+

lemma distinct_map_sort_key: "distinct (map f (sort_key k xs)) = distinct (map f xs)"
  by (rule mset_eq_imp_distinct_iff) simp

lemma distinct_map_filter_pair:
  "distinct (map f xs) \<Longrightarrow> distinct (map (\<lambda>(r, d). f r) (List.map_filter (\<lambda>r. map_option (Pair r) (g r)) xs))"
proof (induction xs)
  case (Cons x xs)
  have "f x \<notin> set (map (\<lambda>(r, d). f r) (List.map_filter (\<lambda>r. map_option (Pair r) (g r)) xs))"
    using Cons.prems by (auto simp: map_filter_def)
  then show ?case using Cons by (simp add: map_filter_simps split: option.split)
qed (simp add: map_filter_simps)

lemma db_items_paths:
  assumes "index_inv db"
  shows "distinct (map ir_path (map snd (db_items db)))" "ir_path ` snd ` set (db_items db) = known_paths db"
proof -
  have eq: "map ir_path (map snd (db_items db)) = map snd (db_paths db)"
    using index_inv_keys(3) [OF assms] by (simp add: comp_def)
  then show "distinct (map ir_path (map snd (db_items db)))"
    using assms by (simp add: index_inv_def keyed_ok_def)
  show "ir_path ` snd ` set (db_items db) = known_paths db"
    using eq unfolding known_paths_def by (metis list.set_map)
qed

lemma image_key_pairs:
  "(\<lambda>(r, d). (f r, d)) ` {(r, d). r \<in> S \<and> Q (f r) d} = {(p, d). p \<in> f ` S \<and> Q p d}"
  by force

text \<open>The rows that traversal joins, with their depth.\<close>

lemma joined_rows:
  "(r, d) \<in> set (List.map_filter (\<lambda>r. map_option (Pair r) (min_depth (ir_path r) (reachable_rows edges start k)))
                   (filter (\<lambda>r. ir_path r \<noteq> start) rows))
     \<longleftrightarrow> r \<in> set rows \<and> ir_path r \<noteq> start \<and> d \<le> k \<and> distance edges start (ir_path r) d"
  by (auto simp: set_map_filter min_depth_distance)

text \<open>
  C9. Traversal is breadth-first search: it returns exactly the other paths of the index that a chain of
  at most \<open>max_depth\<close> edges leads to, each once, with the length of its shortest chain, nearest first;
  cycles and the many ways to a path make no difference.
\<close>

theorem traverse_shortest:
  assumes "index_inv db"
  shows "{(sh_path h, sh_hop_distance h) | h. h \<in> set (traverse fts db start k)}
           = {(p, d). p \<in> known_paths db \<and> p \<noteq> start \<and> d \<le> k \<and> distance (db_edges db) start p d}
     \<and> distinct (map sh_path (traverse fts db start k))
     \<and> sorted (map sh_hop_distance (traverse fts db start k))"
proof (intro conjI)
  let ?joined = "List.map_filter (\<lambda>r. map_option (Pair r) (min_depth (ir_path r) (reachable_rows (db_edges db) start k)))
                   (filter (\<lambda>r. ir_path r \<noteq> start) (map snd (db_items db)))"
  let ?sorted = "sort_key (\<lambda>(r, depth). depth) (sort_key (\<lambda>(r, depth). ir_tier r) ?joined)"
  have paths: "map sh_path (traverse fts db start k) = map (\<lambda>(r, d). ir_path r) ?sorted"
    "map sh_hop_distance (traverse fts db start k) = map (\<lambda>(r, d). d) ?sorted"
    by (simp_all add: traverse_def Let_def comp_def split_def)
  have "{(sh_path h, sh_hop_distance h) | h. h \<in> set (traverse fts db start k)} = (\<lambda>(r, d). (ir_path r, d)) ` set ?joined"
    by (force simp: traverse_def Let_def)
  also have "\<dots> = {(p, d). p \<in> ir_path ` snd ` set (db_items db) \<and> p \<noteq> start \<and> d \<le> k \<and> distance (db_edges db) start p d}"
  proof -
    have "set ?joined = {(r, d). r \<in> snd ` set (db_items db)
        \<and> (ir_path r \<noteq> start \<and> d \<le> k \<and> distance (db_edges db) start (ir_path r) d)}"
    proof (rule set_eqI)
      fix x :: "item_row \<times> nat"
      obtain r d where "x = (r, d)" by (cases x)
      then show "x \<in> set ?joined \<longleftrightarrow> x \<in> {(r, d). r \<in> snd ` set (db_items db)
          \<and> (ir_path r \<noteq> start \<and> d \<le> k \<and> distance (db_edges db) start (ir_path r) d)}"
        by (simp only: joined_rows mem_Collect_eq prod.case set_map)
    qed
    then show ?thesis
      using image_key_pairs [of ir_path "snd ` set (db_items db)" "\<lambda>p d. p \<noteq> start \<and> d \<le> k \<and> distance (db_edges db) start p d"]
      by (simp only:)
  qed
  finally show "{(sh_path h, sh_hop_distance h) | h. h \<in> set (traverse fts db start k)}
           = {(p, d). p \<in> known_paths db \<and> p \<noteq> start \<and> d \<le> k \<and> distance (db_edges db) start p d}"
    unfolding db_items_paths(2) [OF assms] .
  have "distinct (map ir_path (filter (\<lambda>r. ir_path r \<noteq> start) (map snd (db_items db))))"
    using db_items_paths(1) [OF assms] by (rule distinct_map_filter)
  from distinct_map_filter_pair [OF this] show "distinct (map sh_path (traverse fts db start k))"
    unfolding paths distinct_map_sort_key .
  show "sorted (map sh_hop_distance (traverse fts db start k))"
    unfolding paths by (rule sorted_sort_key)
qed

section \<open>Context\<close>

lemma budget_loop_prefix: "\<exists>n. budget_loop b hits spent kept = kept @ take n hits"
proof (induction b hits spent kept rule: budget_loop.induct)
  case (2 b hit hits spent kept)
  show ?case
  proof (cases "kept \<noteq> [] \<and> spent + ucast (sh_tokens hit) > ucast b")
    case True
    then show ?thesis by (intro exI [of _ 0]) (simp add: Let_def)
  next
    case False
    with "2.IH" [OF refl] obtain n where
      "budget_loop b hits (spent + ucast (sh_tokens hit)) (kept @ [hit]) = (kept @ [hit]) @ take n hits" by blast
    then show ?thesis using False by (intro exI [of _ "Suc n"]) (auto simp: Let_def)
  qed
qed simp

lemma apply_budget_prefix: "\<exists>n. apply_budget hits b = take n hits"
  using budget_loop_prefix [of _ hits 0 "[]"]
  by (cases b) (auto simp: apply_budget_def intro: exI [of _ "length hits"])

lemma apply_budget_keeps:
  "set (apply_budget hits b) \<subseteq> set hits" "distinct (map sh_path hits) \<Longrightarrow> distinct (map sh_path (apply_budget hits b))"
  using apply_budget_prefix [of hits b] by (auto simp: take_map [symmetric] dest: in_set_takeD)

lemma push_new_distinct: "distinct (map sh_path combined) \<Longrightarrow> distinct (map sh_path (push_new combined hits))"
  by (induction combined hits rule: push_new.induct) auto

lemma push_new_set: "set (push_new combined hits) \<subseteq> set combined \<union> set hits"
proof (induction combined hits rule: push_new.induct)
  case (2 combined hit hits)
  then show ?case by (cases "sh_path hit \<in> sh_path ` set combined") auto
qed simp

lemma push_new_paths: "sh_path ` set (push_new combined hits) = sh_path ` set combined \<union> sh_path ` set hits"
proof (induction combined hits rule: push_new.induct)
  case (2 combined hit hits)
  then show ?case by (cases "sh_path hit \<in> sh_path ` set combined") auto
qed simp



lemma search_below_tier: "set (search fts db topic f) \<subseteq> {h. below_tier (sf_tier f) h}"
proof -
  let ?q = "sanitize_fts_query topic"
  let ?rows = "filter (\<lambda>r. fe_match fts ?q r \<and> passes f r) (map snd (db_items db))"
  let ?hits = "map (bm25_hit fts ?q) (sql_limit (sf_limit f) (sort_key (\<lambda>r. - fe_score fts ?q r) ?rows))"
  have "set (sql_limit (sf_limit f) (sort_key (\<lambda>r. - fe_score fts ?q r) ?rows)) \<subseteq> set ?rows"
    by (auto simp: sql_limit_def dest: in_set_takeD split: option.splits)
  moreover have "below_tier (sf_tier f) (bm25_hit fts ?q r)" if "r \<in> set ?rows" for r
    using that by (cases "sf_tier f") (simp_all add: below_tier_def passes_def bm25_hit_def)
  ultimately have "set ?hits \<subseteq> {h. below_tier (sf_tier f) h}" unfolding set_map by blast
  with apply_budget_keeps(1) [of ?hits "sf_budget f"]
  have "set (apply_budget ?hits (sf_budget f)) \<subseteq> {h. below_tier (sf_tier f) h}" by (rule subset_trans)
  then show ?thesis by (cases "?q = []") (simp_all add: search_def run_bm25_query_def Let_def)
qed

lemma fold_push_new:
  assumes "distinct (map sh_path combined)" "set combined \<subseteq> {h. P h}" "\<And>seed. set (g seed) \<subseteq> {h. P h}"
  shows "distinct (map sh_path (fold (\<lambda>seed c. push_new c (g seed)) seeds combined))
     \<and> set (fold (\<lambda>seed c. push_new c (g seed)) seeds combined) \<subseteq> {h. P h}"
  using assms(1,2)
proof (induction seeds arbitrary: combined)
  case (Cons seed seeds)
  have "set (push_new combined (g seed)) \<subseteq> {h. P h}"
    using push_new_set [of combined "g seed"] Cons.prems(2) assms(3) [of seed] by blast
  then show ?case using Cons.IH push_new_distinct [OF Cons.prems(1)] by simp
qed simp

text \<open>
  An assembled context names no item twice and, when the caller bounds the tier, holds nothing above
  the bound, neither among the matches nor among their neighbours in the graph.
\<close>

lemma context_contract:
  "distinct (map sh_path (context_assembly fts db topic f))
   \<and> set (context_assembly fts db topic f) \<subseteq> {h. below_tier (sf_tier f) h}"
proof -
  let ?f = "f\<lparr>sf_budget := None, sf_limit := Some 20\<rparr>"
  let ?start = "push_new [] (search fts db topic ?f)"
  have start: "distinct (map sh_path ?start)" "set ?start \<subseteq> {h. below_tier (sf_tier f) h}"
    using push_new_distinct [of "[]"] push_new_set [of "[]" "search fts db topic ?f"]
      search_below_tier [of fts db topic ?f] by auto
  have near: "set (filter (below_tier (sf_tier f)) (traverse fts db seed 2)) \<subseteq> {h. below_tier (sf_tier f) h}" for seed
    by auto
  have all: "distinct (map sh_path (context_hits fts db topic f)) \<and> set (context_hits fts db topic f) \<subseteq> {h. below_tier (sf_tier f) h}"
    unfolding context_hits_def Let_def by (rule fold_push_new [OF start near])
  then show ?thesis
    using apply_budget_keeps [of "context_hits fts db topic f" "sf_budget f"] unfolding context_assembly_def by blast
qed

text \<open>A shared item that refers to a private one.\<close>

definition scoped_item :: "string \<Rightarrow> visibility \<Rightarrow> string list \<Rightarrow> item" where
  "scoped_item path vis refs = (plain_item path ''text'')\<lparr>it_frontmatter :=
     default_frontmatter\<lparr>fm_visibility := Some vis, fm_refs := refs\<rparr>\<rparr>"

definition any_match :: fts_engine where
  "any_match = \<lparr>fe_match = (\<lambda>q r. True), fe_score = (\<lambda>q r. 0), fe_trigram = (\<lambda>q s. True), fe_recip = (\<lambda>n. 0)\<rparr>"

lemma traverse_shortest_witness:
  "{(sh_path h, sh_hop_distance h) | h. h \<in> set (traverse any_match example_db ''a.md'' 2)}
     = {(p, d). p \<in> known_paths example_db \<and> p \<noteq> ''a.md'' \<and> d \<le> 2 \<and> distance (db_edges example_db) ''a.md'' p d}
   \<and> distinct (map sh_path (traverse any_match example_db ''a.md'' 2))
   \<and> sorted (map sh_hop_distance (traverse any_match example_db ''a.md'' 2))"
  by (rule traverse_shortest [OF example_inv])

definition shared_only :: search_filter where
  "shared_only = \<lparr>sf_item_type = None, sf_workspace = None, sf_visibility = Some ''shared'', sf_scope = None,
     sf_tier = None, sf_budget = None, sf_limit = None\<rparr>"

definition scoped_db :: index_db where
  "scoped_db = built (build_in_memory ''2026-07-26'' [scoped_item ''a.md'' Shared [''b.md''], scoped_item ''b.md'' Private []])"

text \<open>
  The other filters of a context request do not reach the graph: with a filter on shared items a
  search returns only the shared one, but the assembled context holds the private item it refers to.
\<close>

lemma context_ignores_visibility:
  "map sh_path (search any_match scoped_db ''text'' shared_only) = [''a.md'']
   \<and> map sh_path (context_assembly any_match scoped_db ''text'' shared_only) = [''a.md'', ''b.md'']"
  by code_simp

end
