(* ===== verification/Secrets.thy ===== *)
theory Secrets
  imports RustStr Complex_Main
begin

text \<open>
  Write-path secret detection (crates/wkp-core/src/secrets.rs): the scan over the bundled rules and the
  redacted excerpt of a match. The regex engine is a parameter: what a rule matches, in order, and what
  its first capture group holds; the entropy of a string, a floating-point sum, is one too.
\<close>

record finding =
  fd_rule :: string
  fd_start :: nat
  fd_end :: nat
  fd_redacted_excerpt :: string

text \<open>The marker, with its quotation marks as two bytes of UTF-8 each.\<close>

definition REDACTION_MARKER :: string where
  "REDACTION_MARKER = [CHR 0xC2, CHR 0xAB] @ ''redacted'' @ [CHR 0xC2, CHR 0xBB]"

definition CONTEXT_BYTES :: nat where
  "CONTEXT_BYTES = 20"

text \<open>A rule: its name, the spans of its matches, the value of a match that starts somewhere.\<close>

record rule =
  ru_name :: string
  ru_find_iter :: "string \<Rightarrow> (nat \<times> nat) list"
  ru_captures_at :: "string \<Rightarrow> nat \<Rightarrow> string option"
  ru_min_entropy :: "rat option"

fun floor_loop :: "string \<Rightarrow> nat \<Rightarrow> nat" where
  "floor_loop content 0 = 0"
| "floor_loop content (Suc pos) = (if is_char_boundary content (Suc pos) then Suc pos else floor_loop content pos)"

definition floor_char_boundary :: "string \<Rightarrow> nat \<Rightarrow> nat" where
  "floor_char_boundary content pos = floor_loop content (min pos (length content))"

function ceil_loop :: "string \<Rightarrow> nat \<Rightarrow> nat" where
  "ceil_loop content pos =
     (if pos < length content \<and> \<not> is_char_boundary content pos then ceil_loop content (Suc pos) else pos)"
  by pat_completeness auto
termination by (relation "measure (\<lambda>(content, pos). length content - pos)") auto

declare ceil_loop.simps [simp del]

definition ceil_char_boundary :: "string \<Rightarrow> nat \<Rightarrow> nat" where
  "ceil_char_boundary content pos = ceil_loop content (min pos (length content))"

text \<open>A slice panics unless its ends are ordered character boundaries.\<close>

definition slice :: "string \<Rightarrow> nat \<Rightarrow> nat \<Rightarrow> string option" where
  "slice s a b =
     (if a \<le> b \<and> is_char_boundary s a \<and> is_char_boundary s b then Some (drop a (take b s)) else None)"

definition redacted_excerpt :: "string \<Rightarrow> nat \<Rightarrow> nat \<Rightarrow> string option" where
  "redacted_excerpt content start end' =
     (let before_start = floor_char_boundary content (start - CONTEXT_BYTES);
          after_end = ceil_char_boundary content (min (end' + CONTEXT_BYTES) (length content))
      in Option.bind (slice content before_start start) (\<lambda>before.
         Option.bind (slice content end' after_end) (\<lambda>after.
           Some (before @ REDACTION_MARKER @ after))))"

text \<open>The inner loop over the matches of one rule, and the outer one over the rules.\<close>

definition high_enough :: "(string \<Rightarrow> rat) \<Rightarrow> rule \<Rightarrow> string \<Rightarrow> nat \<Rightarrow> bool" where
  "high_enough shannon_entropy rule content start =
     (case ru_min_entropy rule of
        None \<Rightarrow> True
      | Some min_entropy \<Rightarrow>
          (case ru_captures_at rule content start of
             None \<Rightarrow> False
           | Some value \<Rightarrow> \<not> shannon_entropy value < min_entropy))"

fun scan_matches ::
  "(string \<Rightarrow> rat) \<Rightarrow> rule \<Rightarrow> string \<Rightarrow> (nat \<times> nat) list \<Rightarrow> finding list \<Rightarrow> finding list option" where
  "scan_matches entropy rule content [] findings = Some findings"
| "scan_matches entropy rule content ((start, end') # ms) findings =
     (if high_enough entropy rule content start
      then Option.bind (redacted_excerpt content start end') (\<lambda>excerpt.
             scan_matches entropy rule content ms
               (findings @ [\<lparr>fd_rule = ru_name rule, fd_start = start, fd_end = end',
                             fd_redacted_excerpt = excerpt\<rparr>]))
      else scan_matches entropy rule content ms findings)"

fun scan_rules :: "(string \<Rightarrow> rat) \<Rightarrow> rule list \<Rightarrow> string \<Rightarrow> finding list \<Rightarrow> finding list option" where
  "scan_rules entropy [] content findings = Some findings"
| "scan_rules entropy (rule # rules) content findings =
     Option.bind (scan_matches entropy rule content (ru_find_iter rule content) findings)
       (scan_rules entropy rules content)"

definition scan :: "(string \<Rightarrow> rat) \<Rightarrow> rule list \<Rightarrow> string \<Rightarrow> finding list option" where
  "scan entropy rules content = scan_rules entropy rules content []"

section \<open>The excerpt\<close>

lemma is_char_boundary_ends: "is_char_boundary s 0" "is_char_boundary s (length s)"
  by (simp_all add: is_char_boundary_def)

lemma floor_char_boundary_ok:
  "is_char_boundary s (floor_char_boundary s pos)" "floor_char_boundary s pos \<le> pos"
proof -
  have "is_char_boundary s (floor_loop s n) \<and> floor_loop s n \<le> n" for n
    by (induction s n rule: floor_loop.induct) (auto simp: is_char_boundary_ends)
  then show "is_char_boundary s (floor_char_boundary s pos)" "floor_char_boundary s pos \<le> pos"
    unfolding floor_char_boundary_def by (meson min.cobounded1 le_trans)+
qed

lemma ceil_char_boundary_ok:
  "is_char_boundary s (ceil_char_boundary s pos)" "min pos (length s) \<le> ceil_char_boundary s pos"
  "ceil_char_boundary s pos \<le> length s"
proof -
  have "n \<le> length s \<Longrightarrow> is_char_boundary s (ceil_loop s n) \<and> n \<le> ceil_loop s n \<and> ceil_loop s n \<le> length s" for n
  proof (induction s n rule: ceil_loop.induct)
    case (1 s n)
    show ?case
    proof (cases "n < length s \<and> \<not> is_char_boundary s n")
      case True
      then have "ceil_loop s n = ceil_loop s (Suc n)" by (subst ceil_loop.simps) simp
      then show ?thesis using "1.IH" True by simp
    next
      case False
      then have "ceil_loop s n = n" by (subst ceil_loop.simps) (simp only: if_False)
      then show ?thesis using False "1.prems" is_char_boundary_ends(2) [of s] by (cases "n = length s") simp_all
    qed
  qed
  then show "is_char_boundary s (ceil_char_boundary s pos)" "min pos (length s) \<le> ceil_char_boundary s pos"
    "ceil_char_boundary s pos \<le> length s"
    unfolding ceil_char_boundary_def by simp_all
qed

text \<open>
  An excerpt is always produced and shows the context of the match without the match: for a match
  whose ends are character boundaries, as the regex engine guarantees, no slice panics, and the excerpt
  is a piece of the text that ends where the match starts, the marker, and a piece that starts where the
  match ends, both on character boundaries.
\<close>

lemma redacted_excerpt_shape:
  assumes "is_char_boundary content start" "is_char_boundary content end'" "start \<le> end'" "end' \<le> length content"
  shows "\<exists>a b. redacted_excerpt content start end'
             = Some (drop a (take start content) @ REDACTION_MARKER @ drop end' (take b content))
           \<and> a \<le> start \<and> end' \<le> b \<and> b \<le> length content
           \<and> is_char_boundary content a \<and> is_char_boundary content b"
proof -
  let ?a = "floor_char_boundary content (start - CONTEXT_BYTES)"
  let ?b = "ceil_char_boundary content (min (end' + CONTEXT_BYTES) (length content))"
  have a: "?a \<le> start" "is_char_boundary content ?a"
    using floor_char_boundary_ok [where s = content and pos = "start - CONTEXT_BYTES"] by auto
  have b: "end' \<le> ?b" "?b \<le> length content" "is_char_boundary content ?b"
    using ceil_char_boundary_ok [where s = content and pos = "min (end' + CONTEXT_BYTES) (length content)"] assms(4)
    by auto
  have "redacted_excerpt content start end'
      = Some (drop ?a (take start content) @ REDACTION_MARKER @ drop end' (take ?b content))"
    using a b assms by (simp add: redacted_excerpt_def slice_def Let_def)
  with a b show ?thesis by blast
qed

lemma redacted_excerpt_shape_witness:
  "\<exists>a b. redacted_excerpt ''key = AKIAX'' 6 11
       = Some (drop a (take 6 ''key = AKIAX'') @ REDACTION_MARKER @ drop 11 (take b ''key = AKIAX''))
     \<and> a \<le> 6 \<and> 11 \<le> b \<and> b \<le> length ''key = AKIAX''
     \<and> is_char_boundary ''key = AKIAX'' a \<and> is_char_boundary ''key = AKIAX'' b"
  by (rule redacted_excerpt_shape) (code_simp, code_simp, simp, simp)

text \<open>
  Redaction does not cover what stands next to a match: up to twenty bytes of text that follow it
  are shown as they are, also when they are the rest of a secret longer than its pattern matches.
\<close>

lemma redaction_shows_tail:
  assumes "content = pre @ matched @ tail" "is_char_boundary content (length pre)"
    and "is_char_boundary content (length pre + length matched)" "length tail \<le> CONTEXT_BYTES"
  shows "\<exists>before. redacted_excerpt content (length pre) (length pre + length matched)
           = Some (before @ REDACTION_MARKER @ tail)"
proof -
  let ?e = "length pre + length matched"
  have "min (?e + CONTEXT_BYTES) (length content) = length content" using assms(1,4) by simp
  moreover have "ceil_char_boundary content (length content) = length content"
    using ceil_char_boundary_ok(2,3) [where s = content and pos = "length content"] by simp
  moreover have "slice content ?e (length content) = Some tail"
    using assms(1,3) is_char_boundary_ends(2) [of content] by (simp add: slice_def)
  moreover have "slice content (floor_char_boundary content (length pre - CONTEXT_BYTES)) (length pre)
      = Some (drop (floor_char_boundary content (length pre - CONTEXT_BYTES)) (take (length pre) content))"
    using floor_char_boundary_ok [where s = content and pos = "length pre - CONTEXT_BYTES"] assms(2)
      diff_le_self [of "length pre" CONTEXT_BYTES]
    unfolding slice_def by (simp only: le_trans simp_thms if_True)
  ultimately show ?thesis by (simp add: redacted_excerpt_def Let_def)
qed

lemma redaction_shows_tail_witness:
  "\<exists>before. redacted_excerpt ''token=AAAAAAAAAAAAAAAABBBB'' 0 22 = Some (before @ REDACTION_MARKER @ ''BBBB'')"
proof -
  have b: "is_char_boundary ''token=AAAAAAAAAAAAAAAABBBB'' (length [])"
    "is_char_boundary ''token=AAAAAAAAAAAAAAAABBBB'' (length [] + length ''token=AAAAAAAAAAAAAAAA'')"
    by code_simp+
  show ?thesis
    using redaction_shows_tail [OF _ b, where tail = "''BBBB''"] by (simp add: CONTEXT_BYTES_def eval_nat_numeral)
qed

end
