(* ===== verification/Usage.thy ===== *)
theory Usage
  imports Sql "HOL-Library.AList"
begin

text \<open>
  The usage metrics ring (crates/wkp-core/src/usage/schema.rs and store.rs): the metric catalog, the
  three rings of slots with their cursors, the fold-forward of a closed window into the next tier, and
  the aggregation of a trailing window. Floating-point arithmetic is the parameter \<open>fl\<close>; times are
  whole seconds since the epoch. \<open>None\<close> is a panic.
\<close>

section \<open>Schema\<close>

record tier =
  ti_step :: int
  ti_slots :: int

definition TIERS :: "tier list" where
  "TIERS = [\<lparr>ti_step = 60, ti_slots = 360\<rparr>, \<lparr>ti_step = 900, ti_slots = 1344\<rparr>,
            \<lparr>ti_step = 21600, ti_slots = 1460\<rparr>]"

datatype metric_kind = Counter | Gauge

fun kind_str :: "metric_kind \<Rightarrow> string" where
  "kind_str Counter = ''counter''"
| "kind_str Gauge = ''gauge''"

definition parse_kind :: "string \<Rightarrow> metric_kind option" where
  "parse_kind s = (if s = ''counter'' then Some Counter else if s = ''gauge'' then Some Gauge else None)"

datatype usage_error = MetricKindMismatch string metric_kind string | UsagePanic

record 'f float_ops =
  fl_zero :: 'f
  fl_add :: "'f \<Rightarrow> 'f \<Rightarrow> 'f"
  fl_min :: "'f \<Rightarrow> 'f \<Rightarrow> 'f"
  fl_max :: "'f \<Rightarrow> 'f \<Rightarrow> 'f"

record 'f slot_agg =
  sa_n :: int
  sa_sum :: 'f
  sa_min :: 'f
  sa_max :: 'f
  sa_last :: 'f

text \<open>
  A ring is the rows of one tier's table, keyed by metric and slot; the cursors are keyed by metric and
  tier. The catalog keeps the kind as text, as its column does.
\<close>

type_synonym 'f ring = "((nat \<times> int) \<times> (int \<times> 'f slot_agg)) list"

record 'f usage_db =
  ud_metrics :: "(string \<times> string) table"
  ud_rings :: "'f ring list"
  ud_cursors :: "((nat \<times> nat) \<times> (int \<times> int)) list"

definition create_usage_schema :: "'f usage_db" where
  "create_usage_schema = \<lparr>ud_metrics = [], ud_rings = replicate (length TIERS) [], ud_cursors = []\<rparr>"

section \<open>Operations\<close>

definition metric_names :: "(string \<times> string) table \<Rightarrow> string table" where
  "metric_names t = map (\<lambda>(i, name, kind). (i, name)) t"

definition metric_id :: "(string \<times> string) table \<Rightarrow> string \<Rightarrow> nat option" where
  "metric_id t name = rowid_of (metric_names t) name"

definition add_metric :: "string \<Rightarrow> string \<Rightarrow> (string \<times> string) table \<Rightarrow> (nat \<times> (string \<times> string) table) option" where
  "add_metric kind name t =
     (if name \<in> (\<lambda>r. fst (snd r)) ` set t then None
      else (let i = next_rowid t in Some (i, t @ [(i, (name, kind))])))"

definition get_or_create_metric ::
  "string \<Rightarrow> metric_kind \<Rightarrow> 'f usage_db \<Rightarrow> (usage_error, nat \<times> 'f usage_db) result" where
  "get_or_create_metric name kind db =
     (case List.find (\<lambda>(i, n, k). n = name) (ud_metrics db) of
        Some (i, n, stored_kind) \<Rightarrow>
          if stored_kind \<noteq> kind_str kind then Inl (MetricKindMismatch name kind stored_kind)
          else Inr (i, db)
      | None \<Rightarrow>
          (case add_metric (kind_str kind) name (ud_metrics db) of
             Some (i, t) \<Rightarrow> Inr (i, db\<lparr>ud_metrics := t\<rparr>)
           | None \<Rightarrow> Inl UsagePanic))"

definition single :: "'f \<Rightarrow> 'f slot_agg" where
  "single v = \<lparr>sa_n = 1, sa_sum = v, sa_min = v, sa_max = v, sa_last = v\<rparr>"

definition merged_with :: "'f float_ops \<Rightarrow> 'f slot_agg \<Rightarrow> 'f slot_agg \<Rightarrow> bool \<Rightarrow> 'f slot_agg" where
  "merged_with fl s incoming incoming_is_newer =
     \<lparr>sa_n = sa_n s + sa_n incoming,
      sa_sum = fl_add fl (sa_sum s) (sa_sum incoming),
      sa_min = fl_min fl (sa_min s) (sa_min incoming),
      sa_max = fl_max fl (sa_max s) (sa_max incoming),
      sa_last = (if incoming_is_newer then sa_last incoming else sa_last s)\<rparr>"

text \<open>Euclidean division by a positive number is HOL's division on integers.\<close>

definition floor_to_step :: "int \<Rightarrow> int \<Rightarrow> int" where
  "floor_to_step secs step = secs div step * step"

definition slot_for :: "int \<Rightarrow> int \<Rightarrow> int \<Rightarrow> int" where
  "slot_for bucket_start step_secs slots = bucket_start div step_secs mod slots"

definition fetch_slot :: "'f usage_db \<Rightarrow> nat \<Rightarrow> nat \<Rightarrow> int \<Rightarrow> 'f slot_agg option" where
  "fetch_slot db tier_idx metric slot = map_option snd (map_of (ud_rings db ! tier_idx) (metric, slot))"

definition write_slot :: "nat \<Rightarrow> nat \<Rightarrow> int \<Rightarrow> int \<Rightarrow> 'f slot_agg \<Rightarrow> 'f usage_db \<Rightarrow> 'f usage_db" where
  "write_slot tier_idx metric slot bucket_start agg db =
     db\<lparr>ud_rings := (ud_rings db)[tier_idx := AList.update (metric, slot) (bucket_start, agg) (ud_rings db ! tier_idx)]\<rparr>"

definition fetch_cursor :: "'f usage_db \<Rightarrow> nat \<Rightarrow> nat \<Rightarrow> (int \<times> int) option" where
  "fetch_cursor db metric tier_idx = map_of (ud_cursors db) (metric, tier_idx)"

definition set_cursor :: "nat \<Rightarrow> nat \<Rightarrow> int \<Rightarrow> int \<Rightarrow> 'f usage_db \<Rightarrow> 'f usage_db" where
  "set_cursor metric tier_idx slot bucket_start db =
     db\<lparr>ud_cursors := AList.update (metric, tier_idx) (slot, bucket_start) (ud_cursors db)\<rparr>"

text \<open>The four cases of \<open>apply\<close>; opening a window is the same in the last two.\<close>

definition open_window :: "nat \<Rightarrow> nat \<Rightarrow> int \<Rightarrow> 'f slot_agg \<Rightarrow> 'f usage_db \<Rightarrow> 'f usage_db" where
  "open_window tier_idx metric bucket_start incoming db =
     (let tier = TIERS ! tier_idx;
          slot = slot_for bucket_start (ti_step tier) (ti_slots tier)
      in set_cursor metric tier_idx slot bucket_start (write_slot tier_idx metric slot bucket_start incoming db))"

function apply_sample ::
  "'f float_ops \<Rightarrow> nat \<Rightarrow> nat \<Rightarrow> int \<Rightarrow> 'f slot_agg \<Rightarrow> 'f usage_db \<Rightarrow> 'f usage_db option" where
  "apply_sample fl tier_idx metric bucket_start incoming db =
     (if length TIERS \<le> tier_idx then None
      else (case fetch_cursor db metric tier_idx of
         None \<Rightarrow> Some (open_window tier_idx metric bucket_start incoming db)
       | Some (slot, cursor_bucket) \<Rightarrow>
           (case fetch_slot db tier_idx metric slot of
              None \<Rightarrow> None
            | Some existing \<Rightarrow>
                if cursor_bucket = bucket_start then
                  Some (write_slot tier_idx metric slot bucket_start (merged_with fl existing incoming True) db)
                else if cursor_bucket > bucket_start then
                  Some (write_slot tier_idx metric slot cursor_bucket (merged_with fl existing incoming False) db)
                else
                  (if tier_idx + 1 < length TIERS
                   then (let next_bucket_start = floor_to_step cursor_bucket (ti_step (TIERS ! (tier_idx + 1)))
                         in map_option (open_window tier_idx metric bucket_start incoming)
                              (apply_sample fl (tier_idx + 1) metric next_bucket_start existing db))
                   else Some (open_window tier_idx metric bucket_start incoming db)))))"
  by pat_completeness auto
termination by (relation "measure (\<lambda>(fl, tier_idx, _). length TIERS - tier_idx)") auto

declare apply_sample.simps [simp del]

text \<open>One transaction: a mismatch or a panic leaves the database as it was.\<close>

definition record_sample ::
  "'f float_ops \<Rightarrow> string \<Rightarrow> metric_kind \<Rightarrow> 'f \<Rightarrow> int \<Rightarrow> 'f usage_db \<Rightarrow> (usage_error, unit) result \<times> 'f usage_db" where
  "record_sample fl name kind v now_secs db =
     (let bucket_start = floor_to_step now_secs (ti_step (TIERS ! 0)) in
      case get_or_create_metric name kind db of
        Inl e \<Rightarrow> (Inl e, db)
      | Inr (metric, tx) \<Rightarrow>
          (case apply_sample fl 0 metric bucket_start (single v) tx of
             None \<Rightarrow> (Inl UsagePanic, db)
           | Some tx' \<Rightarrow> (Inr (), tx')))"

definition record_counter where
  "record_counter fl name millis now_secs db = record_sample fl name Counter millis now_secs db"

definition record_gauge where
  "record_gauge fl name v now_secs db = record_sample fl name Gauge v now_secs db"

section \<open>Queries\<close>

record 'f metric_summary =
  ms_n :: int
  ms_sum :: 'f
  ms_min :: 'f
  ms_max :: 'f
  ms_last :: 'f
  ms_last_at :: "int option"

definition empty_summary :: "'f float_ops \<Rightarrow> 'f metric_summary" where
  "empty_summary fl = \<lparr>ms_n = 0, ms_sum = fl_zero fl, ms_min = fl_zero fl, ms_max = fl_zero fl,
     ms_last = fl_zero fl, ms_last_at = None\<rparr>"

fun position_covering :: "int \<Rightarrow> tier list \<Rightarrow> nat option" where
  "position_covering window [] = None"
| "position_covering window (t # ts) =
     (if ti_step t * ti_slots t \<ge> window then Some 0 else map_option Suc (position_covering window ts))"

definition pick_tier_idx :: "int \<Rightarrow> nat" where
  "pick_tier_idx window_secs =
     (case position_covering window_secs TIERS of Some i \<Rightarrow> i | None \<Rightarrow> length TIERS - 1)"

record 'f window_acc =
  wa_n :: int
  wa_sum :: 'f
  wa_min :: "'f option"
  wa_max :: "'f option"
  wa_last :: 'f
  wa_last_at :: "int option"

definition empty_acc :: "'f float_ops \<Rightarrow> 'f window_acc" where
  "empty_acc fl = \<lparr>wa_n = 0, wa_sum = fl_zero fl, wa_min = None, wa_max = None, wa_last = fl_zero fl, wa_last_at = None\<rparr>"

definition absorb :: "'f float_ops \<Rightarrow> int \<times> 'f slot_agg \<Rightarrow> 'f window_acc \<Rightarrow> 'f window_acc" where
  "absorb fl row acc =
     (case row of (bucket_start, agg) \<Rightarrow>
      (let acc = acc\<lparr>wa_n := wa_n acc + sa_n agg,
                     wa_sum := fl_add fl (wa_sum acc) (sa_sum agg),
                     wa_min := Some (case wa_min acc of None \<Rightarrow> sa_min agg | Some m \<Rightarrow> fl_min fl m (sa_min agg)),
                     wa_max := Some (case wa_max acc of None \<Rightarrow> sa_max agg | Some m \<Rightarrow> fl_max fl m (sa_max agg))\<rparr>
       in if (case wa_last_at acc of None \<Rightarrow> True | Some la \<Rightarrow> bucket_start > la)
          then acc\<lparr>wa_last := sa_last agg, wa_last_at := Some bucket_start\<rparr>
          else acc))"

definition into_summary :: "'f float_ops \<Rightarrow> 'f window_acc \<Rightarrow> 'f metric_summary" where
  "into_summary fl acc =
     \<lparr>ms_n = wa_n acc, ms_sum = wa_sum acc,
      ms_min = (case wa_min acc of None \<Rightarrow> fl_zero fl | Some m \<Rightarrow> m),
      ms_max = (case wa_max acc of None \<Rightarrow> fl_zero fl | Some m \<Rightarrow> m),
      ms_last = wa_last acc, ms_last_at = wa_last_at acc\<rparr>"

definition list_metrics :: "'f usage_db \<Rightarrow> (string \<times> metric_kind) list option" where
  "list_metrics db =
     those (map (\<lambda>(i, name, kind). map_option (Pair name) (parse_kind kind))
              (sort_key (\<lambda>(i, name, kind). name) (ud_metrics db)))"

text \<open>The rows of the picked tier, and the open windows of the finer ones.\<close>

definition live_rows :: "'f usage_db \<Rightarrow> nat \<Rightarrow> nat \<Rightarrow> int \<Rightarrow> (int \<times> 'f slot_agg) list" where
  "live_rows db tier_idx metric cutoff =
     map snd (filter (\<lambda>((m, s), (b, a)). m = metric \<and> b \<ge> cutoff) (ud_rings db ! tier_idx))"

definition open_row :: "'f usage_db \<Rightarrow> nat \<Rightarrow> int \<Rightarrow> nat \<Rightarrow> (int \<times> 'f slot_agg) list" where
  "open_row db metric cutoff finer_idx =
     (case fetch_cursor db metric finer_idx of
        None \<Rightarrow> []
      | Some (slot, bucket) \<Rightarrow>
          if bucket \<ge> cutoff
          then (case fetch_slot db finer_idx metric slot of None \<Rightarrow> [] | Some agg \<Rightarrow> [(bucket, agg)])
          else [])"

definition query_window :: "'f float_ops \<Rightarrow> 'f usage_db \<Rightarrow> string \<Rightarrow> int \<Rightarrow> int \<Rightarrow> 'f metric_summary" where
  "query_window fl db name window_secs now_secs =
     (case metric_id (ud_metrics db) name of
        None \<Rightarrow> empty_summary fl
      | Some metric \<Rightarrow>
          (let cutoff = now_secs - window_secs;
               picked_idx = pick_tier_idx window_secs;
               acc = fold (absorb fl) (live_rows db picked_idx metric cutoff) (empty_acc fl);
               acc = fold (absorb fl) (concat (map (open_row db metric cutoff) [0..<picked_idx])) acc
           in into_summary fl acc))"

section \<open>The catalog is a table with a unique key\<close>

abbreviation catalog_ok :: "(string \<times> string) table \<Rightarrow> bool" where
  "catalog_ok t \<equiv> keyed_ok (metric_names t)"

lemma metric_names_simps [simp]:
  "fst ` set (metric_names t) = fst ` set t" "snd ` set (metric_names t) = (\<lambda>r. fst (snd r)) ` set t"
  "metric_names (t @ u) = metric_names t @ metric_names u" "metric_names [] = []"
  by (force simp: metric_names_def)+

lemma next_rowid_names: "next_rowid (metric_names t) = next_rowid t"
  by (cases t) (auto simp: next_rowid_def metric_names_def split_def image_image)

lemma add_metric_names:
  "add_metric kind name t = (case insert_unique name (metric_names t) of
     None \<Rightarrow> None | Some (i, n) \<Rightarrow> Some (i, t @ [(i, (name, kind))]))"
  by (simp add: add_metric_def insert_unique_def next_rowid_names Let_def)

lemma add_metric_Some:
  assumes "add_metric kind name t = Some (i, t')"
  shows "insert_unique name (metric_names t) = Some (i, metric_names t')" "t' = t @ [(i, (name, kind))]"
proof -
  obtain n where n: "insert_unique name (metric_names t) = Some (i, n)" "t' = t @ [(i, (name, kind))]"
    using assms by (auto simp: add_metric_names split: option.splits)
  moreover have "n = metric_names t @ [(i, name)]" using n(1) by (simp add: insert_unique_Some)
  moreover have "metric_names t' = metric_names t @ [(i, name)]" by (simp add: n(2) metric_names_def)
  ultimately show "insert_unique name (metric_names t) = Some (i, metric_names t')" "t' = t @ [(i, (name, kind))]"
    by simp_all
qed

lemma delete_rowid_names: "metric_names (delete_rowid i t) = delete_rowid i (metric_names t)"
  by (induction t) (auto simp: metric_names_def delete_rowid_def)

interpretation catalog: unique_key catalog_ok metric_id "add_metric kind" delete_rowid
  for kind
proof
  show "metric_id t k = Some i \<Longrightarrow> metric_id t l = Some i \<Longrightarrow> k = l" if "catalog_ok t" for t k l i
    using that rowid_key.ident_inj by (auto simp: metric_id_def)
  show "add_metric kind k t = None \<longleftrightarrow> metric_id t k \<noteq> None" for k t
    using rowid_key.add_None [of k "metric_names t"]
    by (cases "insert_unique k (metric_names t)") (auto simp: add_metric_names metric_id_def)
  show "catalog_ok t' \<and> metric_id t' = (metric_id t)(k \<mapsto> i)" if "catalog_ok t" "add_metric kind k t = Some (i, t')" for t t' k i
    using rowid_key.add_Some [OF that(1) add_metric_Some(1) [OF that(2)]] by (simp add: metric_id_def fun_eq_iff)
  show "metric_id t l \<noteq> Some i" if "catalog_ok t" "add_metric kind k t = Some (i, t')" for t t' k l i
    using rowid_key.add_fresh [OF that(1) add_metric_Some(1) [OF that(2)]] by (simp add: metric_id_def)
  show "metric_id (delete_rowid i t) l = (if metric_id t l = Some i then None else metric_id t l)" if "catalog_ok t" for t l i
    using rowid_key.remove_ident [OF that] by (simp add: metric_id_def delete_rowid_names)
  show "catalog_ok (delete_rowid i t)" if "catalog_ok t" for t i
    using rowid_key.remove_ok [OF that] by (simp add: delete_rowid_names)
qed

text \<open>What a lookup of the catalog returns, for a metric whose stored kind is the requested one.\<close>

lemma find_metric: "map_option fst (List.find (\<lambda>(i, n, k). n = name) t) = metric_id t name"
  unfolding metric_id_def rowid_of_def metric_names_def by (induction t) (auto split: prod.split)

lemma get_or_create_metric_Inr:
  assumes "catalog_ok (ud_metrics db)" "get_or_create_metric name kind db = Inr (i, db')"
  shows "db' = db\<lparr>ud_metrics := ud_metrics db'\<rparr>" "catalog_ok (ud_metrics db')"
    "metric_id (ud_metrics db') name = Some i"
    "\<And>l. l \<noteq> name \<Longrightarrow> metric_id (ud_metrics db') l = metric_id (ud_metrics db) l"
    "metric_id (ud_metrics db) name = Some i \<or> (metric_id (ud_metrics db) name = None
        \<and> (\<forall>l. metric_id (ud_metrics db) l \<noteq> Some i))"
proof -
  consider (old) n k where "List.find (\<lambda>(i, n, k). n = name) (ud_metrics db) = Some (i, n, k)" "db' = db"
    | (new) t where "List.find (\<lambda>(i, n, k). n = name) (ud_metrics db) = None"
        "add_metric (kind_str kind) name (ud_metrics db) = Some (i, t)" "db' = db\<lparr>ud_metrics := t\<rparr>"
    using assms(2) by (auto simp: get_or_create_metric_def split: option.splits if_splits)
  then have "db' = db\<lparr>ud_metrics := ud_metrics db'\<rparr> \<and> catalog_ok (ud_metrics db')
    \<and> metric_id (ud_metrics db') name = Some i
    \<and> (\<forall>l. l \<noteq> name \<longrightarrow> metric_id (ud_metrics db') l = metric_id (ud_metrics db) l)
    \<and> (metric_id (ud_metrics db) name = Some i \<or> (metric_id (ud_metrics db) name = None
        \<and> (\<forall>l. metric_id (ud_metrics db) l \<noteq> Some i)))"
  proof cases
    case old
    then show ?thesis using assms(1) find_metric [of name "ud_metrics db"] by simp
  next
    case new
    then show ?thesis
      using catalog.add_Some [OF assms(1) new(2)] catalog.add_fresh [OF assms(1) new(2)]
        find_metric [of name "ud_metrics db"] by simp
  qed
  then show "db' = db\<lparr>ud_metrics := ud_metrics db'\<rparr>" "catalog_ok (ud_metrics db')"
    "metric_id (ud_metrics db') name = Some i"
    "\<And>l. l \<noteq> name \<Longrightarrow> metric_id (ud_metrics db') l = metric_id (ud_metrics db) l"
    "metric_id (ud_metrics db) name = Some i \<or> (metric_id (ud_metrics db) name = None
        \<and> (\<forall>l. metric_id (ud_metrics db) l \<noteq> Some i))"
    by blast+
qed

section \<open>The rings\<close>

lemma TIERS_simps [simp]:
  "length TIERS = 3" "TIERS ! 0 = \<lparr>ti_step = 60, ti_slots = 360\<rparr>"
  "TIERS ! Suc 0 = \<lparr>ti_step = 900, ti_slots = 1344\<rparr>" "TIERS ! 2 = \<lparr>ti_step = 21600, ti_slots = 1460\<rparr>"
  by (simp_all add: TIERS_def numeral_2_eq_2)

lemma metric_kind_roundtrip [simp]: "parse_kind (kind_str k) = Some k"
  by (cases k) (simp_all add: parse_kind_def)

definition ring_row :: "'f usage_db \<Rightarrow> nat \<Rightarrow> nat \<Rightarrow> int \<Rightarrow> (int \<times> 'f slot_agg) option" where
  "ring_row db k m s = map_of (ud_rings db ! k) (m, s)"

lemma fetch_slot_row: "fetch_slot db k m s = map_option snd (ring_row db k m s)"
  by (simp add: fetch_slot_def ring_row_def)

lemma ring_row_write:
  "k < length (ud_rings db) \<Longrightarrow> ring_row (write_slot k m s b a db) k' m' s'
     = (if k' = k \<and> m' = m \<and> s' = s then Some (b, a) else ring_row db k' m' s')"
  by (auto simp: ring_row_def write_slot_def update_conv' nth_list_update)

lemma fetch_cursor_set:
  "fetch_cursor (set_cursor m k s b db) m' k' = (if m' = m \<and> k' = k then Some (s, b) else fetch_cursor db m' k')"
  by (auto simp: fetch_cursor_def set_cursor_def update_conv')

lemma usage_frame [simp]:
  "fetch_cursor (write_slot k m s b a db) = fetch_cursor db"
  "ring_row (set_cursor m k s b db) = ring_row db"
  "ud_metrics (write_slot k m s b a db) = ud_metrics db" "ud_metrics (set_cursor m k s b db) = ud_metrics db"
  "length (ud_rings (write_slot k m s b a db)) = length (ud_rings db)"
  "ud_rings (set_cursor m k s b db) = ud_rings db"
  by (auto simp: fun_eq_iff fetch_cursor_def ring_row_def write_slot_def set_cursor_def)

abbreviation tier_slot :: "nat \<Rightarrow> int \<Rightarrow> int" where
  "tier_slot k b \<equiv> slot_for b (ti_step (TIERS ! k)) (ti_slots (TIERS ! k))"

lemma open_window_frame [simp]:
  "ud_metrics (open_window k m b a db) = ud_metrics db"
  "length (ud_rings (open_window k m b a db)) = length (ud_rings db)"
  by (simp_all add: open_window_def Let_def)

lemma open_window_facts:
  assumes "k < length (ud_rings db)"
  shows "fetch_cursor (open_window k m b a db) m' k'
           = (if m' = m \<and> k' = k then Some (tier_slot k b, b) else fetch_cursor db m' k')"
    "ring_row (open_window k m b a db) k' m' s'
           = (if k' = k \<and> m' = m \<and> s' = tier_slot k b then Some (b, a) else ring_row db k' m' s')"
  using assms by (simp_all add: open_window_def Let_def fetch_cursor_set ring_row_write)

text \<open>
  The invariant. Every cursor points at a real row of the bucket it names, at the slot of that bucket;
  every row sits at the slot of its bucket, belongs to a metric that has a cursor, and is not newer than
  the cursor; every metric with a cursor is in the catalog.
\<close>

definition usage_inv :: "'f usage_db \<Rightarrow> bool" where
  "usage_inv db \<longleftrightarrow>
     length (ud_rings db) = 3 \<and> catalog_ok (ud_metrics db)
     \<and> (\<forall>k < 3. distinct (map fst (ud_rings db ! k)))
     \<and> (\<forall>m k s b. fetch_cursor db m k = Some (s, b) \<longrightarrow>
          k < 3 \<and> s = tier_slot k b \<and> (\<exists>a. ring_row db k m s = Some (b, a)) \<and> m \<in> fst ` set (ud_metrics db))
     \<and> (\<forall>k < 3. \<forall>m s b a. ring_row db k m s = Some (b, a) \<longrightarrow>
          s = tier_slot k b \<and> (\<exists>s' b'. fetch_cursor db m k = Some (s', b') \<and> b \<le> b'))"

lemma usage_invD:
  assumes "usage_inv db"
  shows "length (ud_rings db) = 3" "catalog_ok (ud_metrics db)" "k < 3 \<Longrightarrow> distinct (map fst (ud_rings db ! k))"
    "fetch_cursor db m k = Some (s, b) \<Longrightarrow>
       k < 3 \<and> s = tier_slot k b \<and> (\<exists>a. ring_row db k m s = Some (b, a)) \<and> m \<in> fst ` set (ud_metrics db)"
    "k < 3 \<Longrightarrow> ring_row db k m s = Some (b, a) \<Longrightarrow>
       s = tier_slot k b \<and> (\<exists>s' b'. fetch_cursor db m k = Some (s', b') \<and> b \<le> b')"
  using assms unfolding usage_inv_def by blast+

lemma create_usage_inv: "usage_inv create_usage_schema"
  by (auto simp: usage_inv_def create_usage_schema_def fetch_cursor_def ring_row_def nth_replicate)

text \<open>Merging into the open window, and opening a new one.\<close>

lemma distinct_write: "distinct (map fst (ud_rings db ! k)) \<Longrightarrow> k < length (ud_rings db)
    \<Longrightarrow> distinct (map fst (ud_rings (write_slot i m s b a db) ! k))"
  by (cases "i = k") (simp_all add: write_slot_def distinct_update)

lemma merge_window_inv [store_inv]:
  assumes inv: "usage_inv db" and cur: "fetch_cursor db m k = Some (s, b)"
  shows "usage_inv (write_slot k m s b a db)"
proof -
  note D = usage_invD [OF inv]
  have k: "k < 3" "s = tier_slot k b" "m \<in> fst ` set (ud_metrics db)" using D(4) [OF cur] by blast+
  have row: "ring_row (write_slot k m s b a db) k' m' s'
      = (if k' = k \<and> m' = m \<and> s' = s then Some (b, a) else ring_row db k' m' s')" for k' m' s'
    using k(1) D(1) by (simp add: ring_row_write)
  show ?thesis
    unfolding usage_inv_def row usage_frame
  proof (intro conjI allI impI)
    show "length (ud_rings db) = 3" "catalog_ok (ud_metrics db)" by (fact D)+
    show "distinct (map fst (ud_rings (write_slot k m s b a db) ! j))" if "j < 3" for j
      using distinct_write D(1,3) that by metis
    fix m' k' s' b'
    { assume "fetch_cursor db m' k' = Some (s', b')"
      from D(4) [OF this] this cur
      show "k' < 3" "s' = tier_slot k' b'" "m' \<in> fst ` set (ud_metrics db)"
        "\<exists>aa. (if k' = k \<and> m' = m \<and> s' = s then Some (b, a) else ring_row db k' m' s') = Some (b', aa)"
        by auto }
    fix a'
    assume "k' < 3" "(if k' = k \<and> m' = m \<and> s' = s then Some (b, a) else ring_row db k' m' s') = Some (b', a')"
    then show "s' = tier_slot k' b'" "\<exists>s'' b''. fetch_cursor db m' k' = Some (s'', b'') \<and> b' \<le> b''"
      using D(5) [of k' m' s' b' a'] cur k(2) by (auto split: if_splits)
  qed
qed

lemma open_window_inv [store_inv]:
  assumes inv: "usage_inv db" and k: "k < 3" and m: "m \<in> fst ` set (ud_metrics db)"
    and older: "\<And>s' b'. fetch_cursor db m k = Some (s', b') \<Longrightarrow> b' < b"
  shows "usage_inv (open_window k m b a db)"
proof -
  note D = usage_invD [OF inv]
  have len: "k < length (ud_rings db)" using k D(1) by simp
  note W = open_window_facts [OF len]
  show ?thesis
    unfolding usage_inv_def W open_window_frame
  proof (intro conjI allI impI)
    show "length (ud_rings db) = 3" "catalog_ok (ud_metrics db)" by (fact D)+
    show "distinct (map fst (ud_rings (open_window k m b a db) ! j))" if "j < 3" for j
      using distinct_write [of db j k m "tier_slot k b" b a] D(1) D(3) [OF that] that
      by (simp add: open_window_def Let_def)
    fix m' k' s' b'
    { assume "(if m' = m \<and> k' = k then Some (tier_slot k b, b) else fetch_cursor db m' k') = Some (s', b')"
      then show "k' < 3" "s' = tier_slot k' b'" "m' \<in> fst ` set (ud_metrics db)"
        "\<exists>aa. (if k' = k \<and> m' = m \<and> s' = tier_slot k b then Some (b, a) else ring_row db k' m' s') = Some (b', aa)"
        using k m D(4) [of m' k' s' b'] by (auto split: if_splits) }
    fix a'
    assume k': "k' < 3"
      and row: "(if k' = k \<and> m' = m \<and> s' = tier_slot k b then Some (b, a) else ring_row db k' m' s') = Some (b', a')"
    show "s' = tier_slot k' b'" using row D(5) [OF k', of m' s' b' a'] by (auto split: if_splits)
    show "\<exists>s'' b''. (if m' = m \<and> k' = k then Some (tier_slot k b, b) else fetch_cursor db m' k') = Some (s'', b'') \<and> b' \<le> b''"
    proof (cases "m' = m \<and> k' = k")
      case True
      have "b' \<le> b"
      proof (cases "s' = tier_slot k b")
        case False
        then have "ring_row db k' m' s' = Some (b', a')" using row True by simp
        then obtain s'' b'' where "fetch_cursor db m k = Some (s'', b'')" "b' \<le> b''"
          using D(5) [OF k'] True by blast
        then show ?thesis using older by force
      qed (use row True in simp)
      then show ?thesis using True by simp
    next
      case False
      then have "ring_row db k' m' s' = Some (b', a')" using row by auto
      from D(5) [OF k' this] show ?thesis using False by auto
    qed
  qed
qed

text \<open>The equations of \<open>apply\<close>, one per case.\<close>

lemma apply_sample_cases:
  assumes "t < 3"
  shows "fetch_cursor db m t = None \<Longrightarrow> apply_sample fl t m b inc db = Some (open_window t m b inc db)"
    and "fetch_cursor db m t = Some (s, cb) \<Longrightarrow> fetch_slot db t m s = Some ex \<Longrightarrow> b \<le> cb \<Longrightarrow>
      apply_sample fl t m b inc db = Some (write_slot t m s cb (merged_with fl ex inc (cb = b)) db)"
    and "fetch_cursor db m t = Some (s, cb) \<Longrightarrow> fetch_slot db t m s = Some ex \<Longrightarrow> cb < b \<Longrightarrow> t = 2 \<Longrightarrow>
      apply_sample fl t m b inc db = Some (open_window t m b inc db)"
    and "fetch_cursor db m t = Some (s, cb) \<Longrightarrow> fetch_slot db t m s = Some ex \<Longrightarrow> cb < b \<Longrightarrow> t < 2 \<Longrightarrow>
      apply_sample fl t m b inc db = map_option (open_window t m b inc)
        (apply_sample fl (t + 1) m (floor_to_step cb (ti_step (TIERS ! (t + 1)))) ex db)"
  using assms by (subst apply_sample.simps, simp add: Let_def)+

definition frame :: "nat \<Rightarrow> nat \<Rightarrow> 'f usage_db \<Rightarrow> 'f usage_db \<Rightarrow> bool" where
  "frame t m db db' \<longleftrightarrow>
     ud_metrics db' = ud_metrics db
     \<and> (\<forall>m' k. m' \<noteq> m \<or> k < t \<longrightarrow> fetch_cursor db' m' k = fetch_cursor db m' k)
     \<and> (\<forall>m' k s. m' \<noteq> m \<or> k < t \<longrightarrow> ring_row db' k m' s = ring_row db k m' s)"

lemma frame_write: "t < length (ud_rings db) \<Longrightarrow> frame t m db (write_slot t m s b a db)"
  by (auto simp: frame_def ring_row_write)

lemma frame_open: "t < length (ud_rings db) \<Longrightarrow> frame t m db (open_window t m b a db)"
  by (auto simp: frame_def open_window_facts)

lemma frame_trans: "frame (t + 1) m db db1 \<Longrightarrow> frame t m db1 db2 \<Longrightarrow> frame t m db db2"
  by (auto simp: frame_def less_Suc_eq)

lemma cursor_slot:
  assumes "usage_inv db" "fetch_cursor db m k = Some (s, b)"
  obtains a where "ring_row db k m s = Some (b, a)" "fetch_slot db k m s = Some a" "k < 3"
  using usage_invD(4) [OF assms] by (auto simp: fetch_slot_row)

text \<open>Applying a sample or a folded window never panics, keeps the invariant and touches nothing else.\<close>

lemma apply_sample_total:
  assumes "usage_inv db" "t < 3" "m \<in> fst ` set (ud_metrics db)"
  shows "\<exists>db'. apply_sample fl t m b inc db = Some db' \<and> usage_inv db' \<and> frame t m db db'"
  using assms
proof (induction fl t m b inc db rule: apply_sample.induct)
  case (1 fl t m b inc db)
  note inv = "1.prems"(1) and t = "1.prems"(2)
  have len: "t < length (ud_rings db)" using usage_invD(1) [OF inv] t by simp
  show ?case
  proof (cases "fetch_cursor db m t")
    case None
    then show ?thesis
      using apply_sample_cases(1) [OF t None] open_window_inv [OF inv t "1.prems"(3)] frame_open [OF len] by auto
  next
    case (Some c)
    then obtain s cb where cur: "fetch_cursor db m t = Some (s, cb)" by (cases c) auto
    then obtain ex where ex: "fetch_slot db t m s = Some ex" using cursor_slot [OF inv] by metis
    consider "b \<le> cb" | "cb < b" "t = 2" | "cb < b" "t < 2" using t by linarith
    then show ?thesis
    proof cases
      case 1
      then show ?thesis
        using apply_sample_cases(2) [OF t cur ex] merge_window_inv [OF inv cur] frame_write [OF len] by blast
    next
      case 2
      then have "usage_inv (open_window t m b inc db)"
        using cur by (intro open_window_inv [OF inv t "1.prems"(3)]) simp
      then show ?thesis using apply_sample_cases(3) [OF t cur ex 2] frame_open [OF len] by blast
    next
      case 3
      let ?fb = "floor_to_step cb (ti_step (TIERS ! (t + 1)))"
      have "\<exists>db1. apply_sample fl (t + 1) m ?fb ex db = Some db1 \<and> usage_inv db1 \<and> frame (t + 1) m db db1"
        using "1.IH" [OF _ cur refl ex _ _ _ refl] 3 t inv "1.prems"(3) by simp
      then obtain db1 where db1: "apply_sample fl (t + 1) m ?fb ex db = Some db1" "usage_inv db1" "frame (t + 1) m db db1"
        by blast
      have keep: "fetch_cursor db1 m t = Some (s, cb)" "m \<in> fst ` set (ud_metrics db1)"
        using db1(3) cur "1.prems"(3) by (simp_all add: frame_def)
      have "usage_inv (open_window t m b inc db1)"
        using keep(1) 3(1) by (intro open_window_inv [OF db1(2) t keep(2)]) simp
      moreover have "t < length (ud_rings db1)" using usage_invD(1) [OF db1(2)] t by simp
      ultimately show ?thesis
        using apply_sample_cases(4) [OF t cur ex 3] db1(1) frame_trans [OF db1(3) frame_open] by simp
    qed
  qed
qed

section \<open>Counting\<close>

text \<open>
  The samples of a metric that are still there: those of the open windows of the two finer tiers, and
  all those of the coarsest ring. A closed window of a finer tier was folded, so its rows do not count.
\<close>

definition open_n :: "'f usage_db \<Rightarrow> nat \<Rightarrow> nat \<Rightarrow> int" where
  "open_n db m k = (case fetch_cursor db m k of None \<Rightarrow> 0
     | Some (s, b) \<Rightarrow> (case ring_row db k m s of None \<Rightarrow> 0 | Some (b', a) \<Rightarrow> sa_n a))"

definition ring_n :: "'f usage_db \<Rightarrow> nat \<Rightarrow> int" where
  "ring_n db m = sum_list (map (\<lambda>((m', s), (b, a)). if m' = m then sa_n a else 0) (ud_rings db ! 2))"

definition tail_n :: "'f usage_db \<Rightarrow> nat \<Rightarrow> nat \<Rightarrow> int" where
  "tail_n db m t = (\<Sum>k = t..<2. open_n db m k) + ring_n db m"

lemma sum_list_update:
  fixes f :: "'k \<times> 'v \<Rightarrow> int"
  assumes "distinct (map fst al)"
  shows "sum_list (map f (AList.update k v al))
     = sum_list (map f al) + f (k, v) - (case map_of al k of None \<Rightarrow> 0 | Some w \<Rightarrow> f (k, w))"
  using assms by (induction al) (auto split: option.split)

lemma ring_n_write:
  assumes "usage_inv db" "k < 3"
  shows "ring_n (write_slot k m s b a db) m'
     = ring_n db m' + (if k = 2 \<and> m' = m
         then sa_n a - (case ring_row db 2 m s of None \<Rightarrow> 0 | Some (b0, a0) \<Rightarrow> sa_n a0) else 0)"
proof (cases "k = 2")
  case True
  then show ?thesis
    using usage_invD(1) [OF assms(1)] sum_list_update [OF usage_invD(3) [OF assms(1), of 2],
        of "\<lambda>((m'', s), (b, a)). if m'' = m' then sa_n a else 0" "(m, s)" "(b, a)"]
    by (auto simp: ring_n_def write_slot_def ring_row_def split: option.split)
qed (simp add: ring_n_def write_slot_def)

lemma ring_n_set_cursor [simp]: "ring_n (set_cursor m k s b db) = ring_n db"
  by (simp add: ring_n_def fun_eq_iff)

lemma ring_n_open:
  assumes "usage_inv db" "k < 3"
  shows "ring_n (open_window k m b a db) m'
     = ring_n db m' + (if k = 2 \<and> m' = m
         then sa_n a - (case ring_row db 2 m (tier_slot 2 b) of None \<Rightarrow> 0 | Some (b0, a0) \<Rightarrow> sa_n a0) else 0)"
  using ring_n_write [OF assms, of m "tier_slot k b" b a m'] by (auto simp: open_window_def Let_def)

lemma open_n_write:
  assumes "k < length (ud_rings db)" "fetch_cursor db m k = Some (s, b)"
  shows "open_n (write_slot k m s b a db) m k' = (if k' = k then sa_n a else open_n db m k')"
  using assms by (auto simp: open_n_def ring_row_write split: option.split)

lemma open_n_open:
  assumes "k < length (ud_rings db)"
  shows "open_n (open_window k m b a db) m k' = (if k' = k then sa_n a else open_n db m k')"
  using assms by (auto simp: open_n_def open_window_facts split: option.split)

lemma open_n_cong:
  "fetch_cursor db' m k = fetch_cursor db m k \<Longrightarrow> (\<And>s. ring_row db' k m s = ring_row db k m s)
    \<Longrightarrow> open_n db' m k = open_n db m k"
  by (auto simp: open_n_def split: option.split)

lemma tail_n_step: "t < 2 \<Longrightarrow> tail_n db m t = open_n db m t + tail_n db m (t + 1)"
  by (simp add: tail_n_def sum.atLeast_Suc_lessThan)

lemma tail_n_change:
  assumes "t < 2" "\<And>k. k \<noteq> t \<Longrightarrow> open_n db' m k = open_n db m k" "ring_n db' m = ring_n db m"
  shows "tail_n db' m t = tail_n db m t - open_n db m t + open_n db' m t"
proof -
  have "(\<Sum>k = t + 1..<2. open_n db' m k) = (\<Sum>k = t + 1..<2. open_n db m k)"
    using assms(2) by (intro sum.cong) auto
  then have "tail_n db' m (t + 1) = tail_n db m (t + 1)" by (simp add: tail_n_def assms(3))
  then show ?thesis using tail_n_step [OF assms(1), of db m] tail_n_step [OF assms(1), of db' m] by simp
qed

lemma tail_n_last: "tail_n db m 2 = ring_n db m"
  by (simp add: tail_n_def)

text \<open>One lap of the coarsest ring, from a boundary of it: a bucket of the lap has a slot of its own.\<close>

definition LAP :: int where
  "LAP = 21600 * 1460"

definition in_span :: "int \<Rightarrow> 'f usage_db \<Rightarrow> nat \<Rightarrow> bool" where
  "in_span lo db m \<longleftrightarrow> (\<forall>k < 3. \<forall>s b a. ring_row db k m s = Some (b, a) \<longrightarrow>
     lo \<le> b \<and> b < lo + LAP \<and> (k = 2 \<longrightarrow> 21600 dvd b))"

lemma lap_slots:
  assumes "21600 dvd lo" "21600 dvd b" "21600 dvd c" "lo \<le> b" "b < lo + LAP" "lo \<le> c" "c < lo + LAP"
    and "tier_slot 2 b = tier_slot 2 c"
  shows "b = c"
proof -
  obtain l p q where e: "lo = 21600 * l" "b = 21600 * p" "c = 21600 * q" using assms(1-3) by (auto elim!: dvdE)
  have r: "l \<le> p" "p < l + 1460" "l \<le> q" "q < l + 1460" using assms(4-7) unfolding e LAP_def by linarith+
  have "p mod 1460 = q mod 1460" using assms(8) by (simp add: slot_for_def e)
  then have "(p - l) mod 1460 = (q - l) mod 1460" by (rule mod_diff_cong) (rule refl)
  then have "p - l = q - l" using r by simp
  then show ?thesis by (simp add: e)
qed

lemma floor_in_span:
  assumes "21600 dvd lo" "lo \<le> b" "b < lo + LAP" "step dvd 21600" "0 < step"
  shows "lo \<le> floor_to_step b step" "floor_to_step b step < lo + LAP" "step dvd floor_to_step b step"
proof -
  obtain l where "lo = step * l" using assms(1,4) by (meson dvdE dvd_trans)
  then have "lo = lo div step * step" using assms(5) by simp
  moreover have "lo div step * step \<le> floor_to_step b step"
    unfolding floor_to_step_def using assms(2,5) by (intro mult_right_mono zdiv_mono1) simp_all
  ultimately show "lo \<le> floor_to_step b step" by simp
  have "floor_to_step b step \<le> b"
    unfolding floor_to_step_def using assms(5) by (simp add: minus_mod_eq_div_mult [symmetric])
  then show "floor_to_step b step < lo + LAP" using assms(3) by simp
qed (simp add: floor_to_step_def)

lemma tier_steps:
  assumes "t < 2"
  shows "ti_step (TIERS ! (t + 1)) dvd 21600 \<and> 0 < ti_step (TIERS ! (t + 1))"
proof -
  have "t = 0 \<or> t = 1" using assms by linarith
  then show ?thesis by (auto simp: numeral_2_eq_2 [symmetric])
qed

lemma in_span_row: "in_span lo db m \<Longrightarrow> k < 3 \<Longrightarrow> ring_row db k m s = Some (b, a) \<Longrightarrow>
    lo \<le> b \<and> b < lo + LAP \<and> (k = 2 \<longrightarrow> 21600 dvd b)"
  unfolding in_span_def by blast

lemma in_span_write:
  assumes "in_span lo db m" "k < 3" "length (ud_rings db) = 3" "lo \<le> b" "b < lo + LAP" "k = 2 \<longrightarrow> 21600 dvd b"
  shows "in_span lo (write_slot k m s b a db) m" "in_span lo (open_window k m b a db) m"
  using assms by (auto simp: in_span_def ring_row_write open_window_facts)

lemma in_span_frame:
  assumes "frame t m db db'" "m' \<noteq> m"
  shows "in_span lo db' m' = in_span lo db m'"
proof -
  have "ring_row db' k m' s = ring_row db k m' s" for k s using assms by (simp add: frame_def)
  then show ?thesis by (simp only: in_span_def)
qed

lemma free_slot:
  assumes "usage_inv db" "in_span lo db m" "21600 dvd lo" "21600 dvd b" "lo \<le> b" "b < lo + LAP"
    and "\<And>s cb. fetch_cursor db m 2 = Some (s, cb) \<Longrightarrow> cb < b"
  shows "ring_row db 2 m (tier_slot 2 b) = None"
proof (rule ccontr)
  assume "ring_row db 2 m (tier_slot 2 b) \<noteq> None"
  then obtain b0 a0 where row: "ring_row db 2 m (tier_slot 2 b) = Some (b0, a0)" by auto
  obtain s cb where c: "tier_slot 2 b = tier_slot 2 b0" "fetch_cursor db m 2 = Some (s, cb)" "b0 \<le> cb"
    using usage_invD(5) [OF assms(1) _ row] by auto
  have "lo \<le> b0 \<and> b0 < lo + LAP \<and> 21600 dvd b0" using in_span_row [OF assms(2) _ row] by simp
  then have "b = b0" using lap_slots [OF assms(3,4) _ assms(5,6) _ _ c(1)] by blast
  then show False using assms(7) [OF c(2)] c(3) by simp
qed

lemma apply_sample_counts:
  assumes "usage_inv db" "t < 3" "m \<in> fst ` set (ud_metrics db)" "apply_sample fl t m b inc db = Some db'"
    and "21600 dvd lo" "in_span lo db m" "lo \<le> b" "b < lo + LAP" "t = 2 \<longrightarrow> 21600 dvd b"
  shows "in_span lo db' m \<and> tail_n db' m t = tail_n db m t + sa_n inc \<and> (\<forall>m'. m' \<noteq> m \<longrightarrow> ring_n db' m' = ring_n db m')"
  using assms
proof (induction fl t m b inc db arbitrary: db' rule: apply_sample.induct)
  case (1 fl t m b inc db)
  note inv = "1.prems"(1) and t = "1.prems"(2) and met = "1.prems"(3) and run = "1.prems"(4)
  note lo = "1.prems"(5) and span = "1.prems"(6) and b = "1.prems"(7,8,9)
  have rings: "length (ud_rings db) = 3" using usage_invD(1) [OF inv] .
  then have len: "t < length (ud_rings db)" using t by simp
  have opened: "in_span lo (open_window t m b inc db) m \<and> tail_n (open_window t m b inc db) m t
        = tail_n db m t - (if t < 2 then open_n db m t else 0) + sa_n inc
      \<and> (\<forall>m'. m' \<noteq> m \<longrightarrow> ring_n (open_window t m b inc db) m' = ring_n db m')"
    if "\<And>s cb. fetch_cursor db m t = Some (s, cb) \<Longrightarrow> cb < b"
  proof -
    have free: "t = 2 \<Longrightarrow> ring_row db 2 m (tier_slot 2 b) = None"
      using free_slot [OF inv span lo _ b(1,2)] b(3) that by blast
    have "tail_n (open_window t m b inc db) m t
        = tail_n db m t - (if t < 2 then open_n db m t else 0) + sa_n inc"
    proof (cases "t = 2")
      case True
      then show ?thesis using ring_n_open [OF inv t] free by (simp add: tail_n_last)
    next
      case False
      then have t2: "t < 2" using t by simp
      then show ?thesis
        using tail_n_change [OF t2, of "open_window t m b inc db" m db] open_n_open [OF len] ring_n_open [OF inv t]
        by simp
    qed
    then show ?thesis
      using in_span_write(2) [OF span t rings b(1,2,3)] ring_n_open [OF inv t] by simp
  qed
  show ?case
  proof (cases "fetch_cursor db m t")
    case None
    then have "db' = open_window t m b inc db" using apply_sample_cases(1) [OF t None] run by simp
    moreover have "open_n db m t = 0" using None by (simp add: open_n_def)
    ultimately show ?thesis using opened None by simp
  next
    case (Some c)
    then obtain s cb where cur: "fetch_cursor db m t = Some (s, cb)" by (cases c) auto
    then obtain ex where ex: "ring_row db t m s = Some (cb, ex)" "fetch_slot db t m s = Some ex"
      using cursor_slot [OF inv] by metis
    have cb: "lo \<le> cb" "cb < lo + LAP" "t = 2 \<longrightarrow> 21600 dvd cb" using in_span_row [OF span t ex(1)] by blast+
    consider "b \<le> cb" | "cb < b" "t = 2" | "cb < b" "t < 2" using t by linarith
    then show ?thesis
    proof cases
      case 1
      let ?a = "merged_with fl ex inc (cb = b)"
      have db': "db' = write_slot t m s cb ?a db" using apply_sample_cases(2) [OF t cur ex(2) 1] run by simp
      have n: "sa_n ?a = sa_n ex + sa_n inc" by (simp add: merged_with_def)
      have "tail_n db' m t = tail_n db m t + sa_n inc"
      proof (cases "t = 2")
        case True
        then show ?thesis using ring_n_write [OF inv t, of m s cb ?a] ex(1) n by (simp add: db' tail_n_last)
      next
        case False
        then have t2: "t < 2" using t by simp
        have "open_n db m t = sa_n ex" using cur ex(1) by (simp add: open_n_def)
        then show ?thesis
          using tail_n_change [OF t2, of db' m db] open_n_write [OF len cur] ring_n_write [OF inv t] n False
          by (simp add: db')
      qed
      then show ?thesis
        using in_span_write(1) [OF span t rings cb] ring_n_write [OF inv t] by (simp add: db')
    next
      case 2
      then have "db' = open_window t m b inc db" using apply_sample_cases(3) [OF t cur ex(2) 2] run by simp
      then show ?thesis using opened cur 2 by simp
    next
      case 3
      let ?fb = "floor_to_step cb (ti_step (TIERS ! (t + 1)))"
      obtain db1 where db1: "apply_sample fl (t + 1) m ?fb ex db = Some db1" "db' = open_window t m b inc db1"
        using apply_sample_cases(4) [OF t cur ex(2) 3] run by (auto simp: map_option_case split: option.splits)
      have t': "t + 1 < 3" using 3 by simp
      obtain db1': "usage_inv db1" "frame (t + 1) m db db1"
        using apply_sample_total [OF inv t' met, of fl ?fb ex] db1(1) by auto
      have "ti_step (TIERS ! (t + 1)) dvd 21600" "0 < ti_step (TIERS ! (t + 1))"
        using tier_steps [OF 3(2)] by blast+
      note fb = floor_in_span [OF lo cb(1,2) this]
      have "t + 1 = 2 \<longrightarrow> 21600 dvd ?fb" using fb(3) by (metis TIERS_simps(4) tier.select_convs(1))
      then have IH: "in_span lo db1 m \<and> tail_n db1 m (t + 1) = tail_n db m (t + 1) + sa_n ex
          \<and> (\<forall>m'. m' \<noteq> m \<longrightarrow> ring_n db1 m' = ring_n db m')"
        using "1.IH" [OF _ cur refl ex(2) _ _ _ refl inv t' met db1(1) lo span fb(1,2)] 3 t by simp
      have keep: "fetch_cursor db1 m t = Some (s, cb)" "ring_row db1 t m s = Some (cb, ex)"
        using db1'(2) cur ex(1) by (simp_all add: frame_def)
      have open0: "open_n db1 m t = sa_n ex" "open_n db m t = sa_n ex" using keep cur ex(1) by (simp_all add: open_n_def)
      have rings1: "length (ud_rings db1) = 3" using usage_invD(1) [OF db1'(1)] .
      then have len1: "t < length (ud_rings db1)" using t by simp
      have "tail_n db' m t = tail_n db1 m (t + 1) + sa_n inc"
      proof -
        have "tail_n db' m t = tail_n db1 m t - open_n db1 m t + open_n db' m t"
          by (rule tail_n_change [OF 3(2)]) (use 3(2) open_n_open [OF len1] ring_n_open [OF db1'(1) t] in \<open>simp_all add: db1(2)\<close>)
        moreover have "open_n db' m t = sa_n inc" by (simp add: db1(2) open_n_open [OF len1])
        ultimately show ?thesis using tail_n_step [OF 3(2), of db1 m] by linarith
      qed
      moreover have "tail_n db m t = tail_n db m (t + 1) + sa_n ex" using tail_n_step [OF 3(2), of db m] open0 by simp
      moreover have "in_span lo db' m" unfolding db1(2) using IH rings1 b t by (intro in_span_write(2)) auto
      moreover have "\<forall>m'. m' \<noteq> m \<longrightarrow> ring_n db' m' = ring_n db m'"
        using IH ring_n_open [OF db1'(1) t] by (simp add: db1(2))
      ultimately show ?thesis using IH by simp
    qed
  qed
qed

section \<open>Recording\<close>

lemma catalog_inv:
  assumes "usage_inv db" "catalog_ok t" "fst ` set (ud_metrics db) \<subseteq> fst ` set t"
  shows "usage_inv (db\<lparr>ud_metrics := t\<rparr>)"
proof -
  have same: "fetch_cursor (db\<lparr>ud_metrics := t\<rparr>) = fetch_cursor db" "ring_row (db\<lparr>ud_metrics := t\<rparr>) = ring_row db"
    by (auto simp: fun_eq_iff fetch_cursor_def ring_row_def)
  show ?thesis using assms unfolding usage_inv_def same by auto
qed

lemma get_or_create_inv:
  assumes "usage_inv db" "get_or_create_metric name kind db = Inr (m, tx)"
  shows "usage_inv tx" "m \<in> fst ` set (ud_metrics tx)" "fetch_cursor tx = fetch_cursor db" "ring_row tx = ring_row db"
    "ring_n tx = ring_n db"
proof -
  note g = get_or_create_metric_Inr [OF usage_invD(2) [OF assms(1)] assms(2)]
  have sub: "fst ` set (ud_metrics db) \<subseteq> fst ` set (ud_metrics tx)"
    using assms(2) by (auto simp: get_or_create_metric_def add_metric_def Let_def split: option.splits if_splits)
  show "usage_inv tx" by (subst g(1)) (rule catalog_inv [OF assms(1) g(2) sub])
  have "(m, name) \<in> set (metric_names (ud_metrics tx))"
    using g(3) rowid_of_Some [OF g(2)] by (simp add: metric_id_def)
  then show "m \<in> fst ` set (ud_metrics tx)" by (force simp: metric_names_def)
  show "fetch_cursor tx = fetch_cursor db" "ring_row tx = ring_row db" "ring_n tx = ring_n db"
    by (subst g(1), simp add: fun_eq_iff fetch_cursor_def ring_row_def ring_n_def)+
qed

text \<open>
  C10. Recording a sample keeps the rings consistent and never panics: every cursor stays on a real row of
  its bucket and every row on the slot of its bucket, so the two places that expect a row find one; and a
  refused sample, one whose metric has the other kind, changes nothing.
\<close>

theorem record_sample_safe:
  assumes "usage_inv db"
  shows "case record_sample fl name kind v now_secs db of
           (Inr u, db') \<Rightarrow> usage_inv db'
         | (Inl e, db') \<Rightarrow> db' = db \<and> (\<exists>stored. e = MetricKindMismatch name kind stored)"
proof (cases "get_or_create_metric name kind db")
  case (Inl e)
  have "add_metric (kind_str kind) name (ud_metrics db) \<noteq> None"
    if "List.find (\<lambda>(i, n, k). n = name) (ud_metrics db) = None"
    using that find_metric [of name "ud_metrics db"] catalog.add_None [of "kind_str kind" name "ud_metrics db"] by simp
  then have "\<exists>stored. e = MetricKindMismatch name kind stored"
    using Inl by (auto simp: get_or_create_metric_def split: option.splits if_splits)
  then show ?thesis using Inl by (simp add: record_sample_def Let_def)
next
  case (Inr r)
  obtain m tx where tx: "get_or_create_metric name kind db = Inr (m, tx)" using Inr by (cases r) auto
  note inv = get_or_create_inv [OF assms tx]
  obtain db' where "apply_sample fl 0 m (floor_to_step now_secs 60) (single v) tx = Some db'" "usage_inv db'"
    using apply_sample_total [OF inv(1) _ inv(2), of 0 fl] by auto
  then show ?thesis using tx by (simp add: record_sample_def Let_def)
qed

text \<open>Metrics without a cursor hold nothing.\<close>

lemma unknown_metric_empty:
  assumes "usage_inv db" "m \<notin> fst ` set (ud_metrics db)"
  shows "tail_n db m 0 = 0"
proof -
  have none: "fetch_cursor db m k = None" for k using usage_invD(4) [OF assms(1), of m k] assms(2) by force
  have "m' \<noteq> m" if "((m', s), (b, a)) \<in> set (ud_rings db ! 2)" for m' s b a
  proof
    assume "m' = m"
    then have "ring_row db 2 m s = Some (b, a)"
      using that usage_invD(3) [OF assms(1), of 2] by (simp add: ring_row_def)
    then show False using usage_invD(5) [OF assms(1), of 2 m s b a] none by simp
  qed
  then have "map (\<lambda>((m', s), (b, a)). if m' = m then sa_n a else 0) (ud_rings db ! 2) = map (\<lambda>_. 0) (ud_rings db ! 2)"
    by (intro map_cong) auto
  then have "ring_n db m = sum_list (map (\<lambda>_. 0) (ud_rings db ! 2))" unfolding ring_n_def by (rule arg_cong)
  then have "ring_n db m = 0" by simp
  then show ?thesis using none by (simp add: tail_n_def open_n_def)
qed

text \<open>The kinds of a catalog, and the count of a metric by its name.\<close>

definition kinds_ok :: "(string \<Rightarrow> metric_kind) \<Rightarrow> 'f usage_db \<Rightarrow> bool" where
  "kinds_ok kd db \<longleftrightarrow> (\<forall>(i, n, k) \<in> set (ud_metrics db). k = kind_str (kd n))"

definition recorded :: "'f usage_db \<Rightarrow> string \<Rightarrow> int" where
  "recorded db name = (case metric_id (ud_metrics db) name of None \<Rightarrow> 0 | Some m \<Rightarrow> tail_n db m 0)"

lemma get_or_create_succeeds:
  assumes "usage_inv db" "kinds_ok kd db"
  obtains m tx where "get_or_create_metric name (kd name) db = Inr (m, tx)" "kinds_ok kd tx"
proof (cases "List.find (\<lambda>(i, n, k). n = name) (ud_metrics db)")
  case None
  then have "metric_id (ud_metrics db) name = None" using find_metric [of name "ud_metrics db"] by simp
  then obtain i t where t: "add_metric (kind_str (kd name)) name (ud_metrics db) = Some (i, t)"
    using catalog.add_None [of "kind_str (kd name)" name "ud_metrics db"] by (cases "add_metric (kind_str (kd name)) name (ud_metrics db)") auto
  then have "kinds_ok kd (db\<lparr>ud_metrics := t\<rparr>)"
    using assms(2) add_metric_Some(2) [OF t] by (auto simp: kinds_ok_def)
  then show ?thesis using that None t by (simp add: get_or_create_metric_def)
next
  case (Some r)
  obtain i n k where r: "r = (i, n, k)" by (cases r)
  have "(i, n, k) \<in> set (ud_metrics db) \<and> n = name"
    using Some nth_mem unfolding r find_Some_iff by fastforce
  then have "k = kind_str (kd name)" using assms(2) by (auto simp: kinds_ok_def)
  then show ?thesis using that [of i db] Some r assms(2) by (simp add: get_or_create_metric_def)
qed

lemma tail_n_frame:
  assumes "frame 0 m db db'" "m' \<noteq> m" "ring_n db' m' = ring_n db m'"
  shows "tail_n db' m' 0 = tail_n db m' 0"
proof -
  have "open_n db' m' k = open_n db m' k" for k
    using assms(1,2) by (intro open_n_cong) (simp_all add: frame_def)
  then show ?thesis using assms(3) by (simp add: tail_n_def)
qed

lemma record_sample_counts:
  assumes "usage_inv db" "kinds_ok kd db" "\<And>m. in_span lo db m" "21600 dvd lo" "lo \<le> secs" "secs < lo + LAP"
  shows "\<exists>db'. record_sample fl name (kd name) v secs db = (Inr (), db') \<and> usage_inv db' \<and> kinds_ok kd db'
     \<and> (\<forall>m. in_span lo db' m)
     \<and> (\<forall>l. recorded db' l = recorded db l + (if l = name then 1 else 0))"
proof -
  obtain m tx where tx: "get_or_create_metric name (kd name) db = Inr (m, tx)" "kinds_ok kd tx"
    by (rule get_or_create_succeeds [OF assms(1,2)])
  note g = get_or_create_metric_Inr [OF usage_invD(2) [OF assms(1)] tx(1)]
  note inv = get_or_create_inv [OF assms(1) tx(1)]
  let ?b = "floor_to_step secs 60"
  note b = floor_in_span [OF assms(4-6), of 60]
  obtain db' where db': "apply_sample fl 0 m ?b (single v) tx = Some db'" "usage_inv db'" "frame 0 m tx db'"
    using apply_sample_total [OF inv(1) _ inv(2), of 0 fl ?b "single v"] by auto
  have span: "in_span lo tx l" for l using assms(3) [of l] unfolding in_span_def inv(4) .
  have n: "in_span lo db' m" "tail_n db' m 0 = tail_n tx m 0 + 1" "\<And>m'. m' \<noteq> m \<Longrightarrow> ring_n db' m' = ring_n tx m'"
    using apply_sample_counts [OF inv(1) _ inv(2) db'(1) assms(4) span] b by (auto simp: single_def)
  have cat: "ud_metrics db' = ud_metrics tx" using db'(3) by (simp add: frame_def)
  have "open_n tx l k = open_n db l k" for l k by (intro open_n_cong) (simp_all add: inv(3,4))
  then have tail: "tail_n tx l 0 = tail_n db l 0" for l by (simp add: tail_n_def inv(5))
  have "recorded db' l = recorded db l + (if l = name then 1 else 0)" for l
  proof (cases "l = name")
    case True
    have "metric_id (ud_metrics db) name = None \<Longrightarrow> tail_n db m 0 = 0"
    proof -
      assume none: "metric_id (ud_metrics db) name = None"
      then have "\<forall>l. metric_id (ud_metrics db) l \<noteq> Some m" using g(5) by auto
      then have "m \<notin> fst ` set (metric_names (ud_metrics db))"
        using rowid_of_Some [OF usage_invD(2) [OF assms(1)]] by (force simp: metric_id_def metric_names_def)
      then show "tail_n db m 0 = 0" by (intro unknown_metric_empty [OF assms(1)]) simp
    qed
    then show ?thesis
      using True g(3,5) n(2) tail by (auto simp: recorded_def cat split: option.split)
  next
    case False
    have "metric_id (ud_metrics db) l = Some i \<Longrightarrow> i \<noteq> m" for i
      using g(3) g(4) [OF False] catalog.ident_inj [OF g(2), of l m name] False by auto
    then show ?thesis
      using False g(4) [OF False] tail_n_frame [OF db'(3)] n(3) tail by (auto simp: recorded_def cat split: option.split)
  qed
  moreover have "\<forall>l. in_span lo db' l" using n(1) span in_span_frame [OF db'(3)] by metis
  moreover have "kinds_ok kd db'" using tx(2) by (simp add: kinds_ok_def cat)
  ultimately show ?thesis using tx(1) db'(1,2) by (simp add: record_sample_def Let_def)
qed

definition int_ops :: "int float_ops" where
  "int_ops = \<lparr>fl_zero = 0, fl_add = (+), fl_min = min, fl_max = max\<rparr>"

theorem record_sample_safe_witness:
  "usage_inv (snd (record_sample int_ops ''rpc'' Counter 5 61 create_usage_schema))
   \<and> fst (record_sample int_ops ''rpc'' Counter 5 61 create_usage_schema) = Inr ()"
  using record_sample_safe [OF create_usage_inv, where fl = int_ops and name = "''rpc''" and kind = Counter
      and v = 5 and now_secs = 61]
  by (auto simp: record_sample_def get_or_create_metric_def add_metric_def create_usage_schema_def Let_def
      apply_sample.simps fetch_cursor_def)

section \<open>A window over everything recorded\<close>

fun record_all :: "'f float_ops \<Rightarrow> (string \<Rightarrow> metric_kind) \<Rightarrow> (string \<times> 'f \<times> int) list \<Rightarrow> 'f usage_db \<Rightarrow> 'f usage_db" where
  "record_all fl kd [] db = db"
| "record_all fl kd ((name, v, secs) # samples) db =
     record_all fl kd samples (snd (record_sample fl name (kd name) v secs db))"

lemma record_all_counts:
  assumes "usage_inv db" "kinds_ok kd db" "\<And>m. in_span lo db m" "21600 dvd lo"
    and "(\<lambda>(n, v, s). s) ` set samples \<subseteq> {lo..<lo + LAP}"
  shows "usage_inv (record_all fl kd samples db) \<and> (\<forall>m. in_span lo (record_all fl kd samples db) m)
     \<and> recorded (record_all fl kd samples db) name
        = recorded db name + int (length (filter (\<lambda>(n, v, s). n = name) samples))
     \<and> kinds_ok kd (record_all fl kd samples db)"
  using assms
proof (induction fl kd samples db rule: record_all.induct)
  case (2 fl kd n v secs samples db)
  then have "lo \<le> secs" "secs < lo + LAP" by auto
  then obtain db' where db': "record_sample fl n (kd n) v secs db = (Inr (), db')" "usage_inv db'" "kinds_ok kd db'"
      "\<forall>m. in_span lo db' m" "\<forall>l. recorded db' l = recorded db l + (if l = n then 1 else 0)"
    using record_sample_counts [OF 2(2-5)] by blast
  have "(\<lambda>(n, v, s). s) ` set samples \<subseteq> {lo..<lo + LAP}" using 2(6) by auto
  then show ?case
    using "2.IH" db' 2(5) by (simp only: record_all.simps snd_conv) simp
qed auto

lemma wa_n_absorb: "wa_n (fold (absorb fl) rows acc) = wa_n acc + sum_list (map (\<lambda>(b, a). sa_n a) rows)"
  by (induction rows arbitrary: acc) (auto simp: absorb_def Let_def)

lemma pick_coarsest: "1209600 < w \<Longrightarrow> pick_tier_idx w = 2"
  by (simp add: pick_tier_idx_def TIERS_def)

lemma live_rows_n:
  assumes "in_span lo db m" "cutoff \<le> lo" "length (ud_rings db) = 3" "distinct (map fst (ud_rings db ! 2))"
  shows "sum_list (map (\<lambda>(b, a). sa_n a) (live_rows db 2 m cutoff)) = ring_n db m"
proof -
  have row: "b \<ge> cutoff" if "((m, s), (b, a)) \<in> set (ud_rings db ! 2)" for s b a
    using in_span_row [OF assms(1), of 2 s b a] assms(2,4) that by (simp add: ring_row_def)
  have sums: "sum_list (map (\<lambda>(b, a). sa_n a) (map snd (filter (\<lambda>((m', s), (b, a)). m' = m \<and> b \<ge> cutoff) rows)))
      = sum_list (map (\<lambda>((m', s), (b, a)). if m' = m then sa_n a else 0) rows)"
    if "\<And>s b a. ((m, s), (b, a)) \<in> set rows \<Longrightarrow> b \<ge> cutoff" for rows :: "'a ring"
    using that
  proof (induction rows)
    case (Cons r rows)
    obtain m' s b a where r: "r = ((m', s), (b, a))" by (metis surj_pair)
    have "m' = m \<Longrightarrow> b \<ge> cutoff" using Cons(2) [of s b a] r by simp
    moreover note Cons.IH [OF Cons.prems [OF list.set_intros(2)]]
    ultimately show ?case by (auto simp: r)
  qed simp
  show ?thesis unfolding live_rows_def ring_n_def by (rule sums) (rule row)
qed

lemma open_row_n:
  assumes "usage_inv db" "in_span lo db m" "cutoff \<le> lo" "k < 3"
  shows "sum_list (map (\<lambda>(b, a). sa_n a) (open_row db m cutoff k)) = open_n db m k"
proof (cases "fetch_cursor db m k")
  case (Some c)
  then obtain s b where c: "fetch_cursor db m k = Some (s, b)" by (cases c) auto
  then obtain a where a: "ring_row db k m s = Some (b, a)" using usage_invD(4) [OF assms(1)] by blast
  have "cutoff \<le> b" using in_span_row [OF assms(2,4) a] assms(3) by simp
  then show ?thesis by (simp add: open_row_def open_n_def c a fetch_slot_row)
qed (simp add: open_row_def open_n_def)

lemma query_window_n:
  assumes "usage_inv db" "\<And>m. in_span lo db m" "1209600 < window" "now - window \<le> lo"
  shows "ms_n (query_window fl db name window now) = recorded db name"
proof (cases "metric_id (ud_metrics db) name")
  case None
  then show ?thesis by (simp add: query_window_def recorded_def empty_summary_def)
next
  case (Some m)
  have "[0..<2] = [0, 1::nat]" "{0..<2} = {0, 1::nat}" by (auto simp: upt_rec)
  then show ?thesis
    using Some live_rows_n [OF assms(2,4) usage_invD(1) [OF assms(1)] usage_invD(3) [OF assms(1), of 2], of m]
      open_row_n [OF assms(1,2,4), of 0 m] open_row_n [OF assms(1,2,4), of 1 m]
    by (simp add: query_window_def recorded_def tail_n_def Let_def pick_coarsest [OF assms(3)] into_summary_def
        wa_n_absorb empty_acc_def numeral_2_eq_2 [symmetric])
qed



end
