(* ===== verification/World.thy ===== *)
theory World
  imports Graph
begin

text \<open>
  The world the command-line tools act on: a file system and a git repository. The file system is
  modelled; git is a program the sources call, so it is the parameter \<open>git\<close>, any function of its
  arguments, its standard input and the world. \<open>wd_log\<close> is a history variable: the argument lists git
  has been run with. A tool is a program that returns a result and the world it leaves; the locale
  states what a property needs to be kept by every program built from the combinators.
\<close>

section \<open>The world\<close>

text \<open>
  Files and directories are keyed by the components of their path. \<open>wd_fault\<close> is the operating system's
  refusal of a call on a path (permissions, a full disk, a file that is not UTF-8 text), with its message.
\<close>

datatype fs_op = FsRead | FsWrite | FsRemove | FsRename | FsMkdir | FsList | FsOpen

record 'g world =
  wd_files :: "component list \<Rightarrow> string option"
  wd_dirs :: "component list list"
  wd_fault :: "fs_op \<Rightarrow> component list \<Rightarrow> string option"
  wd_nanos :: nat
  wd_pid :: nat
  wd_git :: 'g
  wd_log :: "string list list"

datatype git_outcome = GitExit bool string string | GitSpawnError string

type_synonym 'g git = "string list \<Rightarrow> string \<Rightarrow> 'g world \<Rightarrow> git_outcome \<times> 'g world"

section \<open>Programs\<close>

type_synonym ('w, 'a) prog = "'w \<Rightarrow> (string, 'a) result \<times> 'w"

definition ret :: "'a \<Rightarrow> ('w, 'a) prog" where
  "ret a w = (Inr a, w)"

definition err :: "string \<Rightarrow> ('w, 'a) prog" where
  "err e w = (Inl e, w)"

text \<open>\<open>attempt\<close> hands the result of a program to the next one; \<open>andthen\<close> is the question-mark operator.\<close>

definition attempt :: "('w, 'a) prog \<Rightarrow> ((string, 'a) result \<Rightarrow> ('w, 'b) prog) \<Rightarrow> ('w, 'b) prog" where
  "attempt m f w = (case m w of (r, w') \<Rightarrow> f r w')"

definition andthen :: "('w, 'a) prog \<Rightarrow> ('a \<Rightarrow> ('w, 'b) prog) \<Rightarrow> ('w, 'b) prog" where
  "andthen m f = attempt m (\<lambda>r. case r of Inl e \<Rightarrow> err e | Inr a \<Rightarrow> f a)"

definition map_err :: "(string \<Rightarrow> string) \<Rightarrow> ('w, 'a) prog \<Rightarrow> ('w, 'a) prog" where
  "map_err g m = attempt m (\<lambda>r. case r of Inl e \<Rightarrow> err (g e) | Inr a \<Rightarrow> ret a)"

definition check :: "bool \<Rightarrow> string \<Rightarrow> ('w, unit) prog" where
  "check b e = (if b then ret () else err e)"

definition query :: "('w \<Rightarrow> 'a) \<Rightarrow> ('w, 'a) prog" where
  "query q w = (Inr (q w), w)"

text \<open>A loop whose body may fail, carrying the values it has pushed.\<close>

fun collect :: "('a \<Rightarrow> ('w, 'b option) prog) \<Rightarrow> 'a list \<Rightarrow> ('w, 'b list) prog" where
  "collect f [] = ret []"
| "collect f (x # xs) = andthen (f x) (\<lambda>y. andthen (collect f xs) (\<lambda>ys. ret (case y of None \<Rightarrow> ys | Some b \<Rightarrow> b # ys)))"

fun for_each :: "('a \<Rightarrow> ('w, unit) prog) \<Rightarrow> 'a list \<Rightarrow> ('w, unit) prog" where
  "for_each f [] = ret ()"
| "for_each f (x # xs) = andthen (f x) (\<lambda>_. for_each f xs)"

lemma prog_simps [simp]:
  "ret a w = (Inr a, w)" "err e w = (Inl e, w)" "query q w = (Inr (q w), w)"
  by (simp_all add: ret_def err_def query_def)

lemma check_simps [simp]: "check True e = ret ()" "check False e = err e"
  by (simp_all add: check_def)

lemma attempt_eq: "m w = (r, w') \<Longrightarrow> attempt m f w = f r w'"
  by (simp add: attempt_def)

lemma andthen_Inr: "m w = (Inr a, w') \<Longrightarrow> andthen m f w = f a w'"
  by (simp add: andthen_def attempt_def)

lemma andthen_Inl: "m w = (Inl e, w') \<Longrightarrow> andthen m f w = (Inl e, w')"
  by (simp add: andthen_def attempt_def)

lemma andthen_ret [simp]: "andthen (ret a) f = f a"
  by (simp add: fun_eq_iff andthen_def attempt_def)

lemma andthen_err [simp]: "andthen (err e) f = err e"
  by (simp add: fun_eq_iff andthen_def attempt_def)

lemma andthen_result:
  "andthen m f w = (r, w') \<Longrightarrow>
     (\<exists>e. m w = (Inl e, w') \<and> r = Inl e) \<or> (\<exists>a w1. m w = (Inr a, w1) \<and> f a w1 = (r, w'))"
  by (auto simp: andthen_def attempt_def split: prod.splits sum.splits)

lemma andthen_ok:
  assumes "andthen m f w = (Inr b, w')"
  obtains a w1 where "m w = (Inr a, w1)" "f a w1 = (Inr b, w')"
  using andthen_result [OF assms] by auto

section \<open>Files\<close>

text \<open>\<open>PathBuf\<close>s keep the text they were made from; the components say which file they name.\<close>

definition join_path :: "string \<Rightarrow> string \<Rightarrow> string" where
  "join_path p q =
     (if starts_with q ''/'' then q
      else if p = [] \<or> ends_with p ''/'' then p @ q
      else p @ ''/'' @ q)"

definition file_name :: "string \<Rightarrow> string option" where
  "file_name p = (if components p = [] then None
     else (case last (components p) of Normal n \<Rightarrow> Some n | _ \<Rightarrow> None))"

definition not_found :: string where
  "not_found = ''No such file or directory (os error 2)''"

definition read_to_string :: "string \<Rightarrow> ('g world, string) prog" where
  "read_to_string p w =
     (case wd_fault w FsRead (components p) of
        Some e \<Rightarrow> (Inl e, w)
      | None \<Rightarrow> (case wd_files w (components p) of None \<Rightarrow> (Inl not_found, w) | Some s \<Rightarrow> (Inr s, w)))"

definition fs_write :: "component list \<Rightarrow> string \<Rightarrow> ('g world, unit) prog" where
  "fs_write p s w =
     (case wd_fault w FsWrite p of
        Some e \<Rightarrow> (Inl e, w)
      | None \<Rightarrow> (Inr (), w\<lparr>wd_files := (wd_files w)(p \<mapsto> s)\<rparr>))"

definition fs_remove :: "component list \<Rightarrow> ('g world, unit) prog" where
  "fs_remove p w =
     (case wd_fault w FsRemove p of
        Some e \<Rightarrow> (Inl e, w)
      | None \<Rightarrow> (case wd_files w p of
          None \<Rightarrow> (Inl not_found, w)
        | Some s \<Rightarrow> (Inr (), w\<lparr>wd_files := (wd_files w)(p := None)\<rparr>)))"

definition fs_rename :: "component list \<Rightarrow> component list \<Rightarrow> ('g world, unit) prog" where
  "fs_rename p q w =
     (case wd_fault w FsRename q of
        Some e \<Rightarrow> (Inl e, w)
      | None \<Rightarrow> (case wd_files w p of
          None \<Rightarrow> (Inl not_found, w)
        | Some s \<Rightarrow> (Inr (), w\<lparr>wd_files := ((wd_files w)(p := None))(q \<mapsto> s)\<rparr>)))"

definition path_exists :: "string \<Rightarrow> 'g world \<Rightarrow> bool" where
  "path_exists p w \<longleftrightarrow> wd_files w (components p) \<noteq> None \<or> components p \<in> set (wd_dirs w)"

definition prefixes_of :: "component list \<Rightarrow> component list list" where
  "prefixes_of p = map (\<lambda>n. take n p) [1..<Suc (length p)]"

definition create_dir_all :: "component list \<Rightarrow> ('g world, unit) prog" where
  "create_dir_all p w =
     (case wd_fault w FsMkdir p of
        Some e \<Rightarrow> (Inl e, w)
      | None \<Rightarrow> (Inr (), w\<lparr>wd_dirs := wd_dirs w @ filter (\<lambda>d. d \<notin> set (wd_dirs w)) (prefixes_of p)\<rparr>))"

definition create_parent :: "string \<Rightarrow> ('g world, unit) prog" where
  "create_parent p = (case path_parent (components p) of None \<Rightarrow> ret () | Some d \<Rightarrow> create_dir_all d)"

text \<open>\<open>atomic_write\<close> of the command-line crate: a temporary file beside the destination, renamed into place.\<close>

definition tmp_name :: "string \<Rightarrow> 'g world \<Rightarrow> string" where
  "tmp_name dest w =
     ''.'' @ (case file_name dest of Some n \<Rightarrow> n | None \<Rightarrow> ''materialized.md'')
       @ ''.tmp-'' @ show_nat (wd_pid w) @ ''-'' @ show_nat (wd_nanos w)"

definition with_file_name :: "string \<Rightarrow> string \<Rightarrow> component list" where
  "with_file_name p name =
     (if file_name p = None then components p @ [Normal name] else butlast (components p) @ [Normal name])"

definition atomic_write :: "string \<Rightarrow> string \<Rightarrow> ('g world, unit) prog" where
  "atomic_write dest content w =
     (let tmp = with_file_name dest (tmp_name dest w) in
      attempt (fs_write tmp content)
        (\<lambda>r. case r of
           Inr u \<Rightarrow> fs_rename tmp (components dest)
         | Inl e \<Rightarrow> attempt (fs_remove tmp) (\<lambda>_. err e)) w)"

section \<open>Running git\<close>

text \<open>
  Every call of git goes through \<open>Command::new("git").arg("-C").arg(repo_dir).args(args)\<close>; the call is
  logged with its own arguments.
\<close>

definition spawn_git :: "'g git \<Rightarrow> string \<Rightarrow> string list \<Rightarrow> string \<Rightarrow> 'g world \<Rightarrow> git_outcome \<times> 'g world" where
  "spawn_git git repo_dir args stdin w =
     (case git (''-C'' # repo_dir # args) stdin w of (out, w') \<Rightarrow> (out, w'\<lparr>wd_log := wd_log w @ [args]\<rparr>))"

definition run_git_stdout :: "'g git \<Rightarrow> string \<Rightarrow> string list \<Rightarrow> ('g world, string) prog" where
  "run_git_stdout git repo_dir args w =
     (case spawn_git git repo_dir args [] w of
        (GitSpawnError e, w') \<Rightarrow> (Inl e, w')
      | (GitExit success stdout stderr, w') \<Rightarrow> (if success then Inr stdout else Inl (trim stderr), w'))"

text \<open>
  \<open>from_utf8_lossy\<close> leaves UTF-8 text unchanged; the commands whose output is read as a string print UTF-8
  text, and the one that prints any bytes is read as bytes.
\<close>

definition run_git_stdout_bytes :: "'g git \<Rightarrow> string \<Rightarrow> string list \<Rightarrow> ('g world, string) prog" where
  "run_git_stdout_bytes git repo_dir args w =
     (case spawn_git git repo_dir args [] w of
        (GitSpawnError e, w') \<Rightarrow> (Inl e, w')
      | (GitExit success stdout stderr, w') \<Rightarrow> (if success then Inr stdout else Inl (trim stderr), w'))"

definition run_git_with_stdin :: "'g git \<Rightarrow> string \<Rightarrow> string list \<Rightarrow> string \<Rightarrow> ('g world, string) prog" where
  "run_git_with_stdin git repo_dir args stdin w =
     (case spawn_git git repo_dir args stdin w of
        (GitSpawnError e, w') \<Rightarrow> (Inl e, w')
      | (GitExit success stdout stderr, w') \<Rightarrow> (if success then Inr stdout else Inl (trim stderr), w'))"

definition run_git :: "'g git \<Rightarrow> string \<Rightarrow> string list \<Rightarrow> ('g world, unit) prog" where
  "run_git git repo_dir args w =
     (case spawn_git git repo_dir args [] w of
        (GitSpawnError e, w') \<Rightarrow> (Inl e, w')
      | (GitExit success stdout stderr, w') \<Rightarrow> (if success then Inr () else Inl (trim stderr), w'))"

section \<open>What programs keep\<close>

text \<open>
  A property of worlds that git and the file system keep is kept by every program made of the
  combinators: the contract of a trace property, proved once.
\<close>

definition keeps :: "('w \<Rightarrow> bool) \<Rightarrow> ('w, 'a) prog \<Rightarrow> bool" where
  "keeps I m \<longleftrightarrow> (\<forall>w. I w \<longrightarrow> I (snd (m w)))"

named_theorems keeps_rules

lemma keepsD: "keeps I m \<Longrightarrow> m w = (r, w') \<Longrightarrow> I w \<Longrightarrow> I w'"
  by (auto simp: keeps_def split: prod.splits)

lemma keeps_basic [keeps_rules]: "keeps I (ret a)" "keeps I (err e)" "keeps I (query q)" "keeps I (check b e)"
  by (simp_all add: keeps_def check_def)

lemma keeps_attempt [keeps_rules]:
  "keeps I m \<Longrightarrow> (\<And>r. keeps I (f r)) \<Longrightarrow> keeps I (attempt m f)"
  by (fastforce simp: keeps_def attempt_def split: prod.splits)

lemma keeps_case_sum [keeps_rules]:
  "(\<And>e. keeps I (f e)) \<Longrightarrow> (\<And>a. keeps I (g a)) \<Longrightarrow> keeps I (case r of Inl e \<Rightarrow> f e | Inr a \<Rightarrow> g a)"
  by (cases r) simp_all

lemma keeps_case_option [keeps_rules]:
  "keeps I f \<Longrightarrow> (\<And>a. keeps I (g a)) \<Longrightarrow> keeps I (case r of None \<Rightarrow> f | Some a \<Rightarrow> g a)"
  by (cases r) simp_all

lemma keeps_case_prod [keeps_rules]: "(\<And>a b. keeps I (f a b)) \<Longrightarrow> keeps I (case p of (a, b) \<Rightarrow> f a b)"
  by (cases p) simp

lemma keeps_if [keeps_rules]: "keeps I f \<Longrightarrow> keeps I g \<Longrightarrow> keeps I (if b then f else g)"
  by simp

lemma keeps_let [keeps_rules]: "(\<And>a. keeps I (f a)) \<Longrightarrow> keeps I (let a = b in f a)"
  by simp

lemma keeps_andthen [keeps_rules]:
  "keeps I m \<Longrightarrow> (\<And>a. keeps I (f a)) \<Longrightarrow> keeps I (andthen m f)"
  unfolding andthen_def by (intro keeps_rules)

lemma keeps_map_err [keeps_rules]: "keeps I m \<Longrightarrow> keeps I (map_err g m)"
  unfolding map_err_def by (intro keeps_rules)

lemma keeps_for_each [keeps_rules]: "(\<And>x. keeps I (f x)) \<Longrightarrow> keeps I (for_each f xs)"
  by (induction xs) (auto intro!: keeps_rules)

lemma keeps_collect [keeps_rules]: "(\<And>x. keeps I (f x)) \<Longrightarrow> keeps I (collect f xs)"
  by (induction xs) (auto intro!: keeps_rules)

text \<open>The contract of a property of the log: files do not touch it, and git commands add to it.\<close>

locale log_property =
  fixes ok :: "string list \<Rightarrow> bool" and holds :: "'g world \<Rightarrow> bool"
  assumes holds_files: "wd_log w' = wd_log w \<Longrightarrow> holds w \<Longrightarrow> holds w'"
    and holds_log: "ok args \<Longrightarrow> wd_log w' = wd_log w @ [args] \<Longrightarrow> holds w \<Longrightarrow> holds w'"
begin

lemma keeps_fs:
  "keeps holds (read_to_string p)" "keeps holds (fs_write q s)" "keeps holds (fs_remove q)"
  "keeps holds (fs_rename q q')" "keeps holds (create_dir_all q)"
  by (auto simp: keeps_def read_to_string_def fs_write_def fs_remove_def fs_rename_def create_dir_all_def
      split: option.splits elim!: holds_files [rotated])

lemma keeps_create_parent: "keeps holds (create_parent p)"
  unfolding create_parent_def by (intro keeps_rules keeps_fs)

lemma keeps_atomic_write: "keeps holds (atomic_write dest content)"
proof -
  have "keeps holds (attempt (fs_write tmp content)
        (\<lambda>r. case r of Inr u \<Rightarrow> fs_rename tmp (components dest) | Inl e \<Rightarrow> attempt (fs_remove tmp) (\<lambda>_. err e)))" for tmp
    by (intro keeps_rules keeps_fs)
  then show ?thesis unfolding keeps_def atomic_write_def Let_def by blast
qed

lemma holds_spawn: "ok args \<Longrightarrow> spawn_git git repo args stdin w = (out, w') \<Longrightarrow> holds w \<Longrightarrow> holds w'"
  by (auto simp: spawn_git_def split: prod.splits elim!: holds_log [rotated 2])

lemma keeps_git:
  "ok args \<Longrightarrow> keeps holds (run_git_stdout git repo args)"
  "ok args \<Longrightarrow> keeps holds (run_git_stdout_bytes git repo args)"
  "ok args \<Longrightarrow> keeps holds (run_git_with_stdin git repo args stdin)"
  "ok args \<Longrightarrow> keeps holds (run_git git repo args)"
  unfolding keeps_def run_git_stdout_def run_git_stdout_bytes_def run_git_with_stdin_def run_git_def
  by (auto split: prod.splits git_outcome.splits dest: holds_spawn)

lemmas keeps_all = keeps_rules keeps_fs keeps_create_parent keeps_atomic_write keeps_git

end

text \<open>Every command that was added to a log satisfies a condition.\<close>

definition log_since :: "string list list \<Rightarrow> (string list \<Rightarrow> bool) \<Rightarrow> 'g world \<Rightarrow> bool" where
  "log_since before ok w \<longleftrightarrow> (\<exists>added. wd_log w = before @ added \<and> (\<forall>args \<in> set added. ok args))"

interpretation commands: log_property ok "log_since before ok" for before ok
proof
  show "log_since before ok w'" if "wd_log w' = wd_log w" "log_since before ok w" for w' w :: "'a world"
    using that by (simp add: log_since_def)
  fix args and w' w :: "'a world"
  assume args: "ok args" "wd_log w' = wd_log w @ [args]" and "log_since before ok w"
  then obtain added where "wd_log w = before @ added" "\<forall>a \<in> set added. ok a" by (auto simp: log_since_def)
  then show "log_since before ok w'"
    unfolding log_since_def using args by (intro exI [of _ "added @ [args]"]) simp
qed

lemma log_since_refl [simp]: "log_since (wd_log w) ok w"
  by (auto simp: log_since_def)

end
