(* ===== verification/Args.thy ===== *)
theory Args
  imports World
begin

text \<open>
  The argument parsers of the command-line tools (crates/wkp-cli/src: remember.rs, promote.rs, forget.rs,
  sync_cmd.rs, bundle.rs, resolve_conflicts.rs). Each is a loop over the arguments: a flag takes the next
  argument as its value, anything else is a position or an error. The current directory is the argument
  \<open>cwd\<close>, the result of asking the operating system for it.
\<close>

section \<open>The loop\<close>

text \<open>
  \<open>flag a\<close> is what the value of flag \<open>a\<close> sets; \<open>other\<close> treats an argument that is not a flag.
\<close>

fun arg_loop ::
  "(string \<Rightarrow> (string \<Rightarrow> 'o \<Rightarrow> 'o) option) \<Rightarrow> (string \<Rightarrow> 'o \<Rightarrow> (string, 'o) result)
    \<Rightarrow> string list \<Rightarrow> 'o \<Rightarrow> (string, 'o) result" where
  "arg_loop flag other [] opts = Inr opts"
| "arg_loop flag other (arg # args) opts =
     (case flag arg of
        Some set_opt \<Rightarrow>
          (case args of
             [] \<Rightarrow> Inl (arg @ '' requires a value'')
           | v # rest \<Rightarrow> arg_loop flag other rest (set_opt v opts))
      | None \<Rightarrow> bind_result (other arg opts) (arg_loop flag other args))"

definition unrecognized :: "string \<Rightarrow> 'o \<Rightarrow> (string, 'o) result" where
  "unrecognized arg opts = Inl (''unrecognized argument: '' @ arg)"

definition required :: "string \<Rightarrow> 'a option \<Rightarrow> (string, 'a) result" where
  "required message v = (case v of None \<Rightarrow> Inl message | Some a \<Rightarrow> Inr a)"

section \<open>wkp remember\<close>

record remember_options =
  ro_path :: string
  ro_item_type :: string
  ro_scope :: "string option"
  ro_title :: "string option"
  ro_principal :: string
  ro_signing_key_file :: string
  ro_session :: "string option"

record remember_args =
  ra_path :: string
  ra_item_type :: "string option"
  ra_scope :: "string option"
  ra_title :: "string option"
  ra_principal :: "string option"
  ra_signing_key_file :: "string option"
  ra_session :: "string option"

definition remember_flag :: "string \<Rightarrow> (string \<Rightarrow> remember_args \<Rightarrow> remember_args) option" where
  "remember_flag arg =
     (if arg = ''--type'' then Some (\<lambda>v a. a\<lparr>ra_item_type := Some v\<rparr>)
      else if arg = ''--scope'' then Some (\<lambda>v a. a\<lparr>ra_scope := Some v\<rparr>)
      else if arg = ''--title'' then Some (\<lambda>v a. a\<lparr>ra_title := Some v\<rparr>)
      else if arg = ''--principal'' then Some (\<lambda>v a. a\<lparr>ra_principal := Some v\<rparr>)
      else if arg = ''--signing-key-file'' then Some (\<lambda>v a. a\<lparr>ra_signing_key_file := Some v\<rparr>)
      else if arg = ''--session'' then Some (\<lambda>v a. a\<lparr>ra_session := Some v\<rparr>)
      else if arg = ''--path'' then Some (\<lambda>v a. a\<lparr>ra_path := v\<rparr>)
      else None)"

definition remember_example :: string where
  "remember_example = ''e.g. `wkp remember --type knowledge --principal agent:claude --signing-key-file ''
     @ ''~/.ssh/id_ed25519 <<EOF'' @ [nl] @ ''<your content>'' @ [nl] @ ''EOF`'' @ [nl]
     @ ''(content is read from stdin, never argv)''"

definition parse_remember_args :: "(string, string) result \<Rightarrow> string list \<Rightarrow> (string, remember_options) result" where
  "parse_remember_args cwd args =
     bind_result cwd (\<lambda>path.
     bind_result (arg_loop remember_flag unrecognized args
       \<lparr>ra_path = path, ra_item_type = None, ra_scope = None, ra_title = None, ra_principal = None,
        ra_signing_key_file = None, ra_session = None\<rparr>) (\<lambda>a.
     bind_result (required (''remember requires --type <type>, '' @ remember_example) (ra_item_type a)) (\<lambda>item_type.
     bind_result (required (''remember requires --principal <principal>, '' @ remember_example) (ra_principal a)) (\<lambda>who.
     bind_result (required (''remember requires --signing-key-file <path>, '' @ remember_example)
       (ra_signing_key_file a)) (\<lambda>key.
     Inr \<lparr>ro_path = ra_path a, ro_item_type = item_type, ro_scope = ra_scope a, ro_title = ra_title a,
          ro_principal = who, ro_signing_key_file = key, ro_session = ra_session a\<rparr>)))))"

section \<open>wkp promote and wkp forget\<close>

record promote_options =
  po_path :: string
  po_inbox_path :: string
  po_to :: "string option"
  po_principal :: string
  po_signing_key_file :: string

record promote_args =
  pa_path :: string
  pa_inbox_path :: "string option"
  pa_to :: "string option"
  pa_principal :: "string option"
  pa_signing_key_file :: "string option"

definition promote_flag :: "string \<Rightarrow> (string \<Rightarrow> promote_args \<Rightarrow> promote_args) option" where
  "promote_flag arg =
     (if arg = ''--to'' then Some (\<lambda>v a. a\<lparr>pa_to := Some v\<rparr>)
      else if arg = ''--principal'' then Some (\<lambda>v a. a\<lparr>pa_principal := Some v\<rparr>)
      else if arg = ''--signing-key-file'' then Some (\<lambda>v a. a\<lparr>pa_signing_key_file := Some v\<rparr>)
      else if arg = ''--path'' then Some (\<lambda>v a. a\<lparr>pa_path := v\<rparr>)
      else None)"

definition promote_other :: "string \<Rightarrow> promote_args \<Rightarrow> (string, promote_args) result" where
  "promote_other arg a =
     (if pa_inbox_path a = None \<and> \<not> starts_with arg ''-'' then Inr (a\<lparr>pa_inbox_path := Some arg\<rparr>)
      else unrecognized arg a)"

definition parse_promote_args :: "(string, string) result \<Rightarrow> string list \<Rightarrow> (string, promote_options) result" where
  "parse_promote_args cwd args =
     bind_result cwd (\<lambda>path.
     bind_result (arg_loop promote_flag promote_other args
       \<lparr>pa_path = path, pa_inbox_path = None, pa_to = None, pa_principal = None, pa_signing_key_file = None\<rparr>) (\<lambda>a.
     bind_result (required ''promote requires a path, e.g. `wkp promote inbox/foo.md`'' (pa_inbox_path a)) (\<lambda>inbox_path.
     bind_result (required ''promote requires --principal <principal>'' (pa_principal a)) (\<lambda>who.
     bind_result (required ''promote requires --signing-key-file <path>'' (pa_signing_key_file a)) (\<lambda>key.
     Inr \<lparr>po_path = pa_path a, po_inbox_path = inbox_path, po_to = pa_to a, po_principal = who,
          po_signing_key_file = key\<rparr>)))))"

datatype forget_target = ForgetItem string | ForgetDevice string

record forget_options =
  fo_path :: string
  fo_target :: forget_target
  fo_principal :: string
  fo_signing_key_file :: string

record forget_args =
  fa_path :: string
  fa_item_path :: "string option"
  fa_device :: "string option"
  fa_principal :: "string option"
  fa_signing_key_file :: "string option"

definition forget_flag :: "string \<Rightarrow> (string \<Rightarrow> forget_args \<Rightarrow> forget_args) option" where
  "forget_flag arg =
     (if arg = ''--device'' then Some (\<lambda>v a. a\<lparr>fa_device := Some v\<rparr>)
      else if arg = ''--principal'' then Some (\<lambda>v a. a\<lparr>fa_principal := Some v\<rparr>)
      else if arg = ''--signing-key-file'' then Some (\<lambda>v a. a\<lparr>fa_signing_key_file := Some v\<rparr>)
      else if arg = ''--path'' then Some (\<lambda>v a. a\<lparr>fa_path := v\<rparr>)
      else None)"

definition forget_other :: "string \<Rightarrow> forget_args \<Rightarrow> (string, forget_args) result" where
  "forget_other arg a =
     (if fa_item_path a = None \<and> \<not> starts_with arg ''-'' then Inr (a\<lparr>fa_item_path := Some arg\<rparr>)
      else unrecognized arg a)"

definition forget_example :: string where
  "forget_example = ''e.g. `wkp forget inbox/item.md --principal human:alice --signing-key-file ~/.ssh/id_ed25519`''"

definition forget_target_of :: "string option \<Rightarrow> string option \<Rightarrow> (string, forget_target) result" where
  "forget_target_of item_path device =
     (case (item_path, device) of
        (Some _, Some _) \<Rightarrow>
          Inl ''forget takes either a path (item removal) or --device <id> (device revocation), not both''
      | (Some p, None) \<Rightarrow> Inr (ForgetItem p)
      | (None, Some d) \<Rightarrow> Inr (ForgetDevice d)
      | (None, None) \<Rightarrow>
          Inl (''forget requires either a path (`wkp forget <path>`) or --device <id> ''
            @ ''(`wkp forget --device <id>`)''))"

definition parse_forget_args :: "(string, string) result \<Rightarrow> string list \<Rightarrow> (string, forget_options) result" where
  "parse_forget_args cwd args =
     bind_result cwd (\<lambda>path.
     bind_result (arg_loop forget_flag forget_other args
       \<lparr>fa_path = path, fa_item_path = None, fa_device = None, fa_principal = None, fa_signing_key_file = None\<rparr>) (\<lambda>a.
     bind_result (required (''forget requires --principal <principal>, '' @ forget_example) (fa_principal a)) (\<lambda>who.
     bind_result (required (''forget requires --signing-key-file <path>, '' @ forget_example)
       (fa_signing_key_file a)) (\<lambda>key.
     bind_result (forget_target_of (fa_item_path a) (fa_device a)) (\<lambda>target.
     Inr \<lparr>fo_path = fa_path a, fo_target = target, fo_principal = who, fo_signing_key_file = key\<rparr>)))))"

section \<open>wkp sync, wkp bundle and wkp resolve-conflicts\<close>

record sync_options =
  so_path :: string
  so_remote :: string

definition sync_flag :: "string \<Rightarrow> (string \<Rightarrow> sync_options \<Rightarrow> sync_options) option" where
  "sync_flag arg =
     (if arg = ''--remote'' then Some (\<lambda>v a. a\<lparr>so_remote := v\<rparr>)
      else if arg = ''--path'' then Some (\<lambda>v a. a\<lparr>so_path := v\<rparr>)
      else None)"

definition parse_sync_args :: "(string, string) result \<Rightarrow> string list \<Rightarrow> (string, sync_options) result" where
  "parse_sync_args cwd args =
     bind_result cwd (\<lambda>path. arg_loop sync_flag unrecognized args \<lparr>so_path = path, so_remote = ''origin''\<rparr>)"

definition parse_sync_status_args :: "(string, string) result \<Rightarrow> string list \<Rightarrow> (string, string) result" where
  "parse_sync_status_args cwd args =
     bind_result cwd (arg_loop (\<lambda>arg. if arg = ''--path'' then Some (\<lambda>v a. v) else None) unrecognized args)"

record bundle_export_options =
  be_path :: string
  be_bundle_path :: string
  be_since :: "string option"

record bundle_args =
  ba_path :: string
  ba_bundle_path :: "string option"
  ba_since :: "string option"

definition bundle_other :: "string \<Rightarrow> bundle_args \<Rightarrow> (string, bundle_args) result" where
  "bundle_other arg a =
     (if \<not> starts_with arg ''-'' \<and> ba_bundle_path a = None then Inr (a\<lparr>ba_bundle_path := Some arg\<rparr>)
      else unrecognized arg a)"

definition parse_bundle_export_args :: "(string, string) result \<Rightarrow> string list \<Rightarrow> (string, bundle_export_options) result" where
  "parse_bundle_export_args cwd args =
     bind_result cwd (\<lambda>path.
     bind_result (arg_loop (\<lambda>arg. if arg = ''--since'' then Some (\<lambda>v a. a\<lparr>ba_since := Some v\<rparr>)
                              else if arg = ''--path'' then Some (\<lambda>v a. a\<lparr>ba_path := v\<rparr>) else None)
       bundle_other args \<lparr>ba_path = path, ba_bundle_path = None, ba_since = None\<rparr>) (\<lambda>a.
     bind_result (required ''bundle export requires an output path, e.g. `wkp bundle export /path/to/out.bundle`''
       (ba_bundle_path a)) (\<lambda>p.
     Inr \<lparr>be_path = ba_path a, be_bundle_path = p, be_since = ba_since a\<rparr>)))"

record bundle_import_options =
  bi_path :: string
  bi_bundle_path :: string

definition parse_bundle_import_args :: "(string, string) result \<Rightarrow> string list \<Rightarrow> (string, bundle_import_options) result" where
  "parse_bundle_import_args cwd args =
     bind_result cwd (\<lambda>path.
     bind_result (arg_loop (\<lambda>arg. if arg = ''--path'' then Some (\<lambda>v a. a\<lparr>ba_path := v\<rparr>) else None)
       bundle_other args \<lparr>ba_path = path, ba_bundle_path = None, ba_since = None\<rparr>) (\<lambda>a.
     bind_result (required ''bundle import requires a bundle path, e.g. `wkp bundle import /path/to/in.bundle`''
       (ba_bundle_path a)) (\<lambda>p.
     Inr \<lparr>bi_path = ba_path a, bi_bundle_path = p\<rparr>)))"

definition parse_resolve_conflicts_args :: "(string, string) result \<Rightarrow> string list \<Rightarrow> (string, string) result" where
  "parse_resolve_conflicts_args cwd args =
     bind_result cwd (arg_loop (\<lambda>_. None) (\<lambda>arg path. if \<not> starts_with arg ''-'' then Inr arg else unrecognized arg path) args)"

section \<open>What the parsers refuse\<close>

text \<open>A value that starts with a dash is still a value: the flag takes whatever follows it.\<close>

lemma arg_loop_flags:
  "list_all (\<lambda>(f, v). flag f \<noteq> None) fvs \<Longrightarrow>
   arg_loop flag other (concat (map (\<lambda>(f, v). [f, v]) fvs) @ args) opts
     = arg_loop flag other args (fold (\<lambda>(f, v). the (flag f) v) fvs opts)"
  by (induction fvs arbitrary: opts) auto

lemma arg_loop_dangling:
  assumes "list_all (\<lambda>(f, v). flag f \<noteq> None) fvs" "flag f \<noteq> None"
  shows "arg_loop flag other (concat (map (\<lambda>(f, v). [f, v]) fvs) @ [f]) opts = Inl (f @ '' requires a value'')"
  using assms(2) by (subst arg_loop_flags [OF assms(1)]) (auto split: option.split)

end
