(* ===== verification/LineFile.thy ===== *)
theory LineFile
  imports World
begin

text \<open>
  Files of one entry per line that the sources append to and read back: the \<open>allowed_signers\<close> file and
  the \<open>recipients\<close> file. The facts about \<open>lines\<close> and \<open>trim\<close> they share, and the locale of their
  contract: what appending and removing does to the entries that are read back.
\<close>

section \<open>Trimming at the end\<close>

lemma wide_ws_prefix_free: "list_all (\<lambda>t. list_all (\<lambda>u. take (length t) u = t \<longrightarrow> t = u) wide_ws) wide_ws"
  by (simp add: wide_ws_def)

lemma wide_ws_unique:
  assumes "t \<in> set wide_ws" "u \<in> set wide_ws" "t @ r = u @ q"
  shows "t = u"
proof -
  have "take (length t) u = t \<or> take (length u) t = u"
    using assms(3) by (auto simp: append_eq_append_conv2)
  then show ?thesis using wide_ws_prefix_free assms(1,2) by (auto simp: list_all_iff)
qed

lemma strip_ws_append_exact: "strip_ws s = Some r \<Longrightarrow> strip_ws (s @ x) = Some (r @ x)"
proof (cases s)
  case (Cons c cs)
  assume s: "strip_ws s = Some r"
  show ?thesis
  proof (cases "ascii_ws c \<or> is_ascii c")
    case True
    then show ?thesis using s Cons by (auto simp: strip_ws_def split: if_splits)
  next
    case False
    then have r: "strip_any wide_ws s = Some r" using s Cons by (simp add: strip_ws_def)
    obtain q where q: "strip_any wide_ws (s @ x) = Some q" using strip_any_append [OF r, of x] by auto
    obtain t u where tu: "t \<in> set wide_ws" "s = t @ r" "u \<in> set wide_ws" "s @ x = u @ q"
      using strip_any_shape [OF r] strip_any_shape [OF q] by blast
    then have "t @ (r @ x) = u @ q" by simp
    then have "q = r @ x" using wide_ws_unique [OF tu(1,3)] by blast
    then show ?thesis using q False Cons by (simp add: strip_ws_def)
  qed
qed (simp add: strip_ws_def)

lemma trim_start_snoc:
  assumes "ascii_ws c" "is_ascii c"
  shows "trim_start (s @ [c]) = (if trim_start s = [] then [] else trim_start s @ [c])"
proof (induction s rule: trim_start.induct)
  case (1 s)
  show ?case
  proof (cases "strip_ws s")
    case None
    have "trim_start [c] = []" using assms by (simp add: trim_start_ws)
    moreover have "s \<noteq> [] \<Longrightarrow> strip_ws (s @ [c]) = None"
      using strip_ws_before_ascii [OF assms(2) _ None, of "[]"] by simp
    ultimately show ?thesis
      using None by (cases "s = []") (simp_all add: trim_start.simps [of s] trim_start.simps [of "s @ [c]"])
  next
    case (Some r)
    then show ?thesis
      using 1 [OF Some] strip_ws_append_exact [OF Some, of "[c]"]
      by (simp add: trim_start.simps [of s] trim_start.simps [of "s @ [c]"])
  qed
qed

lemma trim_snoc: "ascii_ws c \<Longrightarrow> is_ascii c \<Longrightarrow> trim (s @ [c]) = trim s"
  by (simp add: trim_def trim_start_snoc trim_end_ws)

lemma ascii_ws_line [simp]: "ascii_ws nl" "ascii_ws cr" "is_ascii nl" "is_ascii cr" "ascii_ws CHR 0x20" "is_ascii CHR 0x20"
  by (simp_all add: ascii_ws_def is_ascii_def)

lemma trim_line_content: "trim (line_content (l @ [nl])) = trim l"
  by (auto simp: line_content_nl strip_suffix_eq_Some trim_snoc split: option.split)

section \<open>Lines of a terminated text\<close>

lemma split_inclusive_terminated: "split_inclusive c (a @ c # b) = split_inclusive c (a @ [c]) @ split_inclusive c b"
proof (induction a)
  case (Cons d a)
  moreover have "split_inclusive c (a @ [c]) \<noteq> []" using concat_split_inclusive [of c "a @ [c]"] by fastforce
  ultimately show ?case by (cases "split_inclusive c (a @ [c])") (auto split: list.split)
qed simp

lemma lines_terminated: "lines (a @ nl # b) = lines (a @ [nl]) @ lines b"
  unfolding lines_def by (subst split_inclusive_terminated) simp

lemma split_inclusive_open:
  "s \<noteq> [] \<Longrightarrow> last s \<noteq> c \<Longrightarrow>
     \<exists>ls l. split_inclusive c s = ls @ [l] \<and> split_inclusive c (s @ [c]) = ls @ [l @ [c]] \<and> c \<notin> set l"
proof (induction s)
  case (Cons d s)
  show ?case
  proof (cases "s = []")
    case True
    then show ?thesis using Cons.prems by simp
  next
    case False
    then obtain ls l where IH: "split_inclusive c s = ls @ [l]" "split_inclusive c (s @ [c]) = ls @ [l @ [c]]" "c \<notin> set l"
      using Cons by auto
    show ?thesis
    proof (cases "d = c")
      case True
      then show ?thesis using IH by (intro exI [of _ "[c] # ls"] exI [of _ l]) simp
    next
      case d: False
      show ?thesis
      proof (cases ls)
        case Nil
        then show ?thesis using IH d by (intro exI [of _ "[]"] exI [of _ "d # l"]) simp
      next
        case (Cons m ms)
        then show ?thesis using IH d by (intro exI [of _ "(d # m) # ms"] exI [of _ l]) simp
      qed
    qed
  qed
qed simp

lemma trim_lines_open:
  assumes "s \<noteq> []" "last s \<noteq> nl"
  shows "map trim (lines (s @ [nl])) = map trim (lines s)"
proof -
  obtain ls l where l: "split_inclusive nl s = ls @ [l]" "split_inclusive nl (s @ [nl]) = ls @ [l @ [nl]]" "nl \<notin> set l"
    using split_inclusive_open [OF assms] by blast
  have "line_content l = l" using l(3) by (auto simp: line_content_def strip_suffix_eq_Some split: option.split)
  then show ?thesis by (simp add: lines_def l(1,2) trim_line_content)
qed

lemma trim_lines_single: "nl \<notin> set l \<Longrightarrow> map trim (lines (l @ [nl])) = [trim l]"
  using split_inclusive_append [of nl l "[]"] by (simp add: lines_def trim_line_content)

lemma trim_lines_unlines: "nl \<notin> \<Union> (set ` set ls) \<Longrightarrow> map trim (lines (unlines ls)) = map trim ls"
proof (induction ls)
  case (Cons l ls)
  have "lines (unlines (l # ls)) = lines (l @ [nl]) @ lines (unlines ls)"
    using lines_terminated [of l "unlines ls"] by (simp add: unlines_def)
  then show ?case using Cons by (simp add: trim_lines_single)
qed (simp add: unlines_def)

lemma join_unlines: "ls \<noteq> [] \<Longrightarrow> join [nl] ls @ [nl] = unlines ls"
  by (induction "[nl]" ls rule: join.induct) (auto simp: unlines_def)

section \<open>The contract\<close>

text \<open>What \<open>append\<close> writes; \<open>None\<close> when the line is there already.\<close>

definition appended :: "string \<Rightarrow> string \<Rightarrow> string \<Rightarrow> string option" where
  "appended header existing new_line =
     (if new_line \<in> set (map trim (lines existing)) then None
      else Some (let updated = if existing = [] then header else existing;
                     updated = if ends_with updated [nl] then updated else updated @ [nl]
                 in updated @ new_line @ [nl]))"

text \<open>
  Entries are read from trimmed lines; the rendering of an entry that fits is one line that reads back
  as the entry; the header reads as nothing.
\<close>

locale line_file =
  fixes entry_of :: "string \<Rightarrow> 'e option" and render :: "'e \<Rightarrow> string" and fits :: "'e \<Rightarrow> bool" and header :: string
  assumes entry_trim: "entry_of (trim l) = entry_of l"
    and render_line: "fits e \<Longrightarrow> entry_of (render e) = Some e \<and> nl \<notin> set (render e)"
    and header_empty: "List.map_filter entry_of (lines header) = []" "header \<noteq> []"
    and blank: "entry_of [] = None"
begin

lemma entries_trim: "map trim ls = map trim ks \<Longrightarrow> List.map_filter entry_of ls = List.map_filter entry_of ks"
proof (induction ls arbitrary: ks)
  case (Cons l ls)
  then obtain k ks' where "ks = k # ks'" "trim l = trim k" "map trim ls = map trim ks'" by auto
  moreover from this have "entry_of l = entry_of k" by (metis entry_trim)
  ultimately show ?case using Cons.IH by (simp add: List.map_filter_def)
qed (simp add: List.map_filter_def)

lemma entries_append: "List.map_filter entry_of (ls @ ks) = List.map_filter entry_of ls @ List.map_filter entry_of ks"
  by (simp add: List.map_filter_def)

lemma entries_line:
  assumes "fits e"
  shows "List.map_filter entry_of (lines (render e @ [nl])) = [e]"
proof -
  have "List.map_filter entry_of (lines (render e @ [nl])) = List.map_filter entry_of [render e]"
    using trim_lines_single [of "render e"] render_line [OF assms] by (intro entries_trim) simp
  then show ?thesis using render_line [OF assms] by (simp add: List.map_filter_def)
qed

lemma appended_entries:
  assumes "fits e" "appended header existing (render e) = Some updated"
  shows "List.map_filter entry_of (lines updated) = List.map_filter entry_of (lines existing) @ [e]"
proof -
  obtain base where base_eq: "base = (if existing = [] then header else existing)" by blast
  obtain closed where closed_eq: "closed = (if ends_with base [nl] then base else base @ [nl])" by blast
  have base: "List.map_filter entry_of (lines base) = List.map_filter entry_of (lines existing)" "base \<noteq> []"
    using header_empty by (simp_all add: base_eq List.map_filter_def)
  have closed: "List.map_filter entry_of (lines closed) = List.map_filter entry_of (lines base)"
  proof (cases "ends_with base [nl]")
    case False
    then have "last base \<noteq> nl" using base(2) by (metis append_butlast_last_id ends_with_append)
    then have "map trim (lines closed) = map trim (lines base)"
      using trim_lines_open [OF base(2)] False by (simp add: closed_eq)
    then show ?thesis by (rule entries_trim)
  qed (simp add: closed_eq)
  have "\<exists>a. closed = a @ [nl]"
  proof (cases "ends_with base [nl]")
    case True
    then obtain r where "base = r @ [nl]" unfolding ends_with_iff by blast
    then show ?thesis using True by (simp only: closed_eq if_True) blast
  next
    case False
    then show ?thesis by (simp only: closed_eq if_False) blast
  qed
  then obtain a where a: "closed = a @ [nl]" by blast
  have "updated = closed @ render e @ [nl]"
    using assms(2) unfolding appended_def Let_def base_eq [symmetric] closed_eq [symmetric]
    by (simp split: if_splits)
  then have "lines updated = lines closed @ lines (render e @ [nl])"
    using lines_terminated [of a "render e @ [nl]"] a by simp
  then show ?thesis by (simp only: entries_append closed base(1) entries_line [OF assms(1)])
qed

lemma appended_present:
  assumes "fits e" "appended header existing (render e) = None"
  shows "e \<in> set (List.map_filter entry_of (lines existing))"
proof -
  obtain l where l: "l \<in> set (lines existing)" "render e = trim l"
    using assms(2) by (auto simp: appended_def split: if_splits)
  then have "entry_of l = Some e" using render_line [OF assms(1)] entry_trim by metis
  then show ?thesis using l(1) by (force simp: List.map_filter_def)
qed

text \<open>Rewriting the file with some of its lines.\<close>

lemma rewritten_entries:
  assumes "kept = filter P (lines existing)"
  shows "List.map_filter entry_of (lines (if join [nl] kept = [] then [] else join [nl] kept @ [nl]))
    = List.map_filter entry_of kept"
proof (cases "join [nl] kept = []")
  case True
  then have "kept = [] \<or> kept = [[]]" by (cases kept rule: remdups_adj.cases) auto
  then show ?thesis using True by (auto simp: List.map_filter_def blank)
next
  case False
  then have "kept \<noteq> []" by auto
  then have "join [nl] kept @ [nl] = unlines kept" by (rule join_unlines)
  moreover have "nl \<notin> \<Union> (set ` set kept)" using lines_no_nl by (auto simp: assms)
  ultimately have "map trim (lines (join [nl] kept @ [nl])) = map trim kept" using trim_lines_unlines by metis
  then show ?thesis unfolding if_not_P [OF False] by (rule entries_trim)
qed

end

end
