(* ===== verification/Signers.thy ===== *)
theory Signers
  imports LineFile
begin

text \<open>
  The \<open>allowed_signers\<close> file (crates/wkp-git/src/allowed_signers.rs): the role of a principal, the
  reader and the writer of the file, and who signed a commit.
\<close>

section \<open>Principals\<close>

datatype signer_role = Human | Agent | OtherRole

definition from_principal :: "string \<Rightarrow> signer_role" where
  "from_principal who =
     (if starts_with who ''human:'' then Human
      else if starts_with who ''agent:'' then Agent
      else OtherRole)"

definition parse_signer_line :: "string \<Rightarrow> (string \<times> signer_role) option" where
  "parse_signer_line output =
     (let fields = splitn 2 (CHR 0x09) (trim_end_chars [nl] output);
          validity = (case fields of [] \<Rightarrow> [] | v # _ \<Rightarrow> v);
          signer = (case fields of _ # s # _ \<Rightarrow> s | _ \<Rightarrow> [])
      in if validity = ''G'' \<and> signer \<noteq> [] then Some (signer, from_principal signer) else None)"

definition last_signer_for_path :: "'g git \<Rightarrow> string \<Rightarrow> string \<Rightarrow> ('g world, (string \<times> signer_role) option) prog" where
  "last_signer_for_path git repo_dir path =
     attempt (run_git_stdout git repo_dir [''log'', ''-1'', ''--format=%G?%x09%GS'', ''--'', path])
       (\<lambda>r. case r of Inl _ \<Rightarrow> ret None | Inr output \<Rightarrow> ret (parse_signer_line output))"

definition signer_for_commit :: "'g git \<Rightarrow> string \<Rightarrow> string \<Rightarrow> ('g world, (string \<times> signer_role) option) prog" where
  "signer_for_commit git repo_dir commit =
     attempt (run_git_stdout git repo_dir [''log'', ''-1'', ''--format=%G?%x09%GS'', commit])
       (\<lambda>r. case r of Inl _ \<Rightarrow> ret None | Inr output \<Rightarrow> ret (parse_signer_line output))"

section \<open>The file\<close>

record signer_entry =
  se_principal :: string
  se_role :: signer_role
  se_key_type :: string
  se_key_base64 :: string

definition SIGNERS_HEADER :: string where
  "SIGNERS_HEADER = unlines
     [''# wkp allowed_signers (design 7.3). One SSH signer per line:'',
      ''#   <principal> <key-type> <base64-key>'',
      ''# <principal> is `human:<id>` or `agent:<harness>[:<model>]` (design 5.4'' @ [squote] @ ''s'',
      ''# provenance.actor convention) -- role (human/agent) is read from that'',
      ''# prefix, not a separate column. Consumed directly by git itself via'',
      ''# gpg.ssh.allowedSignersFile; see `git help config` for the format.'']"

definition signer_of_line :: "string \<Rightarrow> signer_entry option" where
  "signer_of_line line =
     (let line = trim line in
      if line = [] \<or> starts_with line ''#'' then None
      else (case split_whitespace line of
              [who, key_type, key_base64] \<Rightarrow>
                Some \<lparr>se_principal = who, se_role = from_principal who,
                      se_key_type = key_type, se_key_base64 = key_base64\<rparr>
            | _ \<Rightarrow> None))"

definition parse_signers :: "string \<Rightarrow> signer_entry list" where
  "parse_signers contents = List.map_filter signer_of_line (lines contents)"

definition render_signer :: "signer_entry \<Rightarrow> string" where
  "render_signer e = se_principal e @ '' '' @ se_key_type e @ '' '' @ se_key_base64 e"

definition append_signer :: "string \<Rightarrow> signer_entry \<Rightarrow> ('g world, unit) prog" where
  "append_signer path entry =
     attempt (read_to_string path)
       (\<lambda>r. case appended SIGNERS_HEADER (case r of Inl _ \<Rightarrow> [] | Inr s \<Rightarrow> s) (render_signer entry) of
          None \<Rightarrow> ret ()
        | Some updated \<Rightarrow> andthen (create_parent path) (\<lambda>_. fs_write (components path) updated))"

definition configure_ssh_signing :: "'g git \<Rightarrow> (string \<Rightarrow> 'g world \<Rightarrow> (string, string) result) \<Rightarrow> string \<Rightarrow> ('g world, unit) prog" where
  "configure_ssh_signing git canonicalize repo_dir =
     (let signers_path = join_path repo_dir ''allowed_signers'' in
      andthen (query (path_exists signers_path)) (\<lambda>present.
      andthen (if present then ret () else fs_write (components signers_path) SIGNERS_HEADER) (\<lambda>_.
      andthen (\<lambda>w. (canonicalize signers_path w, w)) (\<lambda>absolute.
      andthen (map_err (\<lambda>e. ''wkp: failed to set git config gpg.format=ssh: '' @ e)
                (run_git git repo_dir [''config'', ''--local'', ''gpg.format'', ''ssh''])) (\<lambda>_.
      map_err (\<lambda>e. ''wkp: failed to set git config gpg.ssh.allowedSignersFile: '' @ e)
        (run_git git repo_dir [''config'', ''--local'', ''gpg.ssh.allowedSignersFile'', absolute]))))))"

section \<open>The file as a line file\<close>

lemma no_ws_suffix: "no_ws (a @ t) \<Longrightarrow> no_ws t"
  by (induction a) auto

lemma no_ws_tight_end:
  assumes "no_ws s"
  shows "tight_end s"
proof (rule ccontr)
  assume "\<not> tight_end s"
  then obtain r where "strip_ws_rev (rev s) = Some r" unfolding tight_end_def by auto
  then obtain u where u: "rev s = u @ r" "strip_ws (rev u) \<noteq> None" using strip_ws_rev_token by blast
  then have "s = rev r @ rev u" by (metis rev_append rev_rev_ident)
  then have "no_ws (rev u)" using assms no_ws_suffix by metis
  then show False using u(2) by (cases "rev u") (simp_all add: strip_ws_def)
qed

definition one_word :: "string \<Rightarrow> bool" where
  "one_word s \<longleftrightarrow> s \<noteq> [] \<and> no_ws s"

lemma word_no_line: "one_word s \<Longrightarrow> nl \<notin> set s"
proof
  assume "one_word s" "nl \<in> set s"
  then obtain a b where "s = a @ nl # b" by (meson split_list)
  then have "no_ws (nl # b)" using no_ws_suffix \<open>one_word s\<close> unfolding one_word_def by blast
  then show False by (simp add: strip_ws_def)
qed

lemma tight_end_append: "is_ascii c \<Longrightarrow> one_word t \<Longrightarrow> tight_end (a @ c # t)"
proof (rule ccontr)
  assume c: "is_ascii c" "one_word t" and "\<not> tight_end (a @ c # t)"
  then obtain r where "strip_ws_rev (rev t @ (c # rev a)) = Some r" unfolding tight_end_def by auto
  then have "strip_ws_rev (rev t @ c # rev a) \<noteq> None" by simp
  moreover have "strip_ws_rev (rev t) = None" "rev t \<noteq> []"
    using no_ws_tight_end c(2) by (auto simp: one_word_def tight_end_def)
  moreover have "strip_any (map rev wide_ws) (rev t @ c # rev a) = None" if "strip_any (map rev wide_ws) (rev t) = None"
    using strip_any_rev_before_ascii c(1) that by blast
  ultimately show False by (cases "rev t") (auto simp: strip_ws_rev_def split: if_splits)
qed

lemma word_tight_start: "one_word s \<Longrightarrow> tight_start (s @ '' '' @ x)"
  using strip_ws_before_ascii [of "CHR 0x20" s x] no_ws_tight [of "hd s" "tl s"]
  by (auto simp: one_word_def tight_start_def)

lemma split_words:
  "one_word a \<Longrightarrow> one_word b \<Longrightarrow> split_whitespace (a @ '' '' @ b) = [a, b]"
  "one_word a \<Longrightarrow> one_word b \<Longrightarrow> one_word c \<Longrightarrow> split_whitespace (a @ '' '' @ b @ '' '' @ c) = [a, b, c]"
  using split_whitespace_word [of a "CHR 0x20"] split_whitespace_word [of b "CHR 0x20"]
    split_whitespace_last [of b] split_whitespace_last [of c]
  by (simp_all add: one_word_def)

definition signer_fits :: "signer_entry \<Rightarrow> bool" where
  "signer_fits e \<longleftrightarrow> one_word (se_principal e) \<and> one_word (se_key_type e) \<and> one_word (se_key_base64 e)
     \<and> \<not> starts_with (se_principal e) ''#'' \<and> se_role e = from_principal (se_principal e)"

lemma starts_with_hash: "s \<noteq> [] \<Longrightarrow> starts_with (s @ t) ''#'' \<longleftrightarrow> starts_with s ''#''"
  by (cases s) (auto simp: starts_with_iff)

lemma signer_reads_back:
  assumes "signer_fits e"
  shows "signer_of_line (render_signer e) = Some e"
proof -
  have w: "one_word (se_principal e)" "one_word (se_key_type e)" "one_word (se_key_base64 e)"
    using assms by (simp_all add: signer_fits_def)
  have "tight_end (render_signer e)"
    using tight_end_append [of "CHR 0x20" "se_key_base64 e" "se_principal e @ '' '' @ se_key_type e"] w(3)
    by (simp add: render_signer_def)
  moreover have "tight_start (render_signer e)" using word_tight_start [OF w(1)] by (simp add: render_signer_def)
  ultimately have t: "trim (render_signer e) = render_signer e" by (rule trim_tight [rotated])
  have h: "render_signer e \<noteq> []" "\<not> starts_with (render_signer e) ''#''"
    using w(1) assms starts_with_hash by (auto simp: render_signer_def one_word_def signer_fits_def)
  have "split_whitespace (render_signer e) = [se_principal e, se_key_type e, se_key_base64 e]"
    unfolding render_signer_def using split_words(2) [OF w] .
  then have "signer_of_line (render_signer e) = Some \<lparr>se_principal = se_principal e,
      se_role = from_principal (se_principal e), se_key_type = se_key_type e, se_key_base64 = se_key_base64 e\<rparr>"
    unfolding signer_of_line_def t Let_def using h by simp
  moreover have "se_role e = from_principal (se_principal e)" using assms by (simp add: signer_fits_def)
  ultimately show ?thesis by simp
qed

interpretation signers_file: line_file signer_of_line render_signer signer_fits SIGNERS_HEADER
proof
  show "signer_of_line (trim l) = signer_of_line l" for l by (simp add: signer_of_line_def)
  show "signer_of_line (render_signer e) = Some e \<and> nl \<notin> set (render_signer e)" if "signer_fits e" for e
    using signer_reads_back [OF that] that word_no_line by (auto simp: render_signer_def signer_fits_def)
  show "List.map_filter signer_of_line (lines SIGNERS_HEADER) = []" by code_simp
  show "SIGNERS_HEADER \<noteq> []" by (simp add: SIGNERS_HEADER_def unlines_def)
  show "signer_of_line [] = None" by (simp add: signer_of_line_def)
qed

text \<open>The signers a store names, read from its file.\<close>

definition signers_at :: "string \<Rightarrow> 'g world \<Rightarrow> signer_entry list" where
  "signers_at path w = (case wd_files w (components path) of None \<Rightarrow> [] | Some s \<Rightarrow> parse_signers s)"

text \<open>
  Registering a signer. When the file can be read or is not there, a registration that succeeds adds
  exactly its entry at the end of the signers that are read back, or leaves them alone because the entry is
  among them: registering the same key on every start does not grow the file, and no other signer is
  lost, also when the file does not end with a line feed.
\<close>

lemma append_signer_reads_back:
  assumes "signer_fits e" "wd_fault w FsRead (components path) = None" "append_signer path e w = (Inr (), w')"
  shows "signers_at path w' = signers_at path w @ [e]
    \<or> (w' = w \<and> e \<in> set (signers_at path w))"
proof -
  let ?existing = "case wd_files w (components path) of None \<Rightarrow> [] | Some s \<Rightarrow> s"
  have before: "signers_at path w = parse_signers ?existing"
    by (auto simp: signers_at_def parse_signers_def List.map_filter_def split: option.split)
  have run: "append_signer path e w =
      (case appended SIGNERS_HEADER ?existing (render_signer e) of None \<Rightarrow> ret ()
       | Some updated \<Rightarrow> andthen (create_parent path) (\<lambda>_. fs_write (components path) updated)) w"
    using assms(2) by (auto simp: append_signer_def attempt_def read_to_string_def split: option.split)
  show ?thesis
  proof (cases "appended SIGNERS_HEADER ?existing (render_signer e)")
    case None
    then show ?thesis
      using run assms(3) signers_file.appended_present [OF assms(1) None] by (simp add: before parse_signers_def)
  next
    case (Some updated)
    then have "andthen (create_parent path) (\<lambda>_. fs_write (components path) updated) w = (Inr (), w')"
      using run assms(3) by simp
    then obtain w1 where "fs_write (components path) updated w1 = (Inr (), w')" by (rule andthen_ok)
    then have "wd_files w' (components path) = Some updated" by (auto simp: fs_write_def split: option.splits)
    then have "signers_at path w' = parse_signers updated" by (simp add: signers_at_def)
    then show ?thesis
      using signers_file.appended_entries [OF assms(1) Some] unfolding before parse_signers_def by simp
  qed
qed

definition empty_world :: "unit world" where
  "empty_world = \<lparr>wd_files = (\<lambda>_. None), wd_dirs = [], wd_fault = (\<lambda>_ _. None), wd_nanos = 7, wd_pid = 1, wd_git = (), wd_log = []\<rparr>"

lemma append_signer_reads_back_witness:
  "signers_at ''s/allowed_signers'' (snd (append_signer ''s/allowed_signers''
      \<lparr>se_principal = ''human:ann'', se_role = Human, se_key_type = ''ssh-ed25519'', se_key_base64 = ''AAAA''\<rparr> empty_world))
    = [\<lparr>se_principal = ''human:ann'', se_role = Human, se_key_type = ''ssh-ed25519'', se_key_base64 = ''AAAA''\<rparr>]"
  (is "signers_at ?p (snd (append_signer ?p ?e empty_world)) = _")
proof -
  have fits: "signer_fits ?e" by code_simp
  have ok: "wd_fault empty_world FsRead (components ?p) = None" by (simp add: empty_world_def)
  have run: "append_signer ?p ?e empty_world = (Inr (), snd (append_signer ?p ?e empty_world))"
    by (simp add: append_signer_def attempt_def read_to_string_def empty_world_def appended_def create_parent_def
        create_dir_all_def fs_write_def andthen_def Let_def split: option.split)
  have none: "signers_at ?p empty_world = []" by (simp add: signers_at_def empty_world_def)
  show ?thesis using append_signer_reads_back [OF fits ok run] unfolding none by auto
qed

end
