(* ===== verification/GitStatus.thy ===== *)
theory GitStatus
  imports World
begin

text \<open>
  Reading \<open>git status --porcelain=v2\<close> (crates/wkp-git/src/changes.rs and conflicts.rs): the changed
  files of a working tree, and the paths a stopped merge left unmerged. A \<open>PathBuf\<close> is its text.
\<close>

section \<open>Changes\<close>

record renamed =
  rn_from :: string
  rn_to :: string

record change_set =
  cs_added :: "string list"
  cs_modified :: "string list"
  cs_deleted :: "string list"
  cs_renamed :: "renamed list"

definition no_changes :: change_set where
  "no_changes = \<lparr>cs_added = [], cs_modified = [], cs_deleted = [], cs_renamed = []\<rparr>"

definition change_set_is_empty :: "change_set \<Rightarrow> bool" where
  "change_set_is_empty c \<longleftrightarrow> cs_added c = [] \<and> cs_modified c = [] \<and> cs_deleted c = [] \<and> cs_renamed c = []"

text \<open>The first two characters of the status, a full stop for each that is missing.\<close>

definition status_chars :: "string \<Rightarrow> string \<times> string" where
  "status_chars xy =
     (case chars xy of [] \<Rightarrow> (''.'', ''.'') | [x] \<Rightarrow> (x, ''.'') | x # y # _ \<Rightarrow> (x, y))"

definition classify_ordinary :: "string \<Rightarrow> string \<Rightarrow> change_set \<Rightarrow> change_set" where
  "classify_ordinary xy path changes =
     (case status_chars xy of (x, y) \<Rightarrow>
        if x = ''D'' \<or> y = ''D'' then changes\<lparr>cs_deleted := cs_deleted changes @ [path]\<rparr>
        else if x = ''A'' then changes\<lparr>cs_added := cs_added changes @ [path]\<rparr>
        else changes\<lparr>cs_modified := cs_modified changes @ [path]\<rparr>)"

definition porcelain_line :: "string \<Rightarrow> change_set \<Rightarrow> change_set" where
  "porcelain_line line changes =
     (case split_once line '' '' of
        None \<Rightarrow> changes
      | Some (kind, rest) \<Rightarrow>
          if kind = ''1'' then
            (let fields = splitn 8 (CHR '' '') rest in
             if length fields \<le> 7 then changes else classify_ordinary (fields ! 0) (fields ! 7) changes)
          else if kind = ''2'' then
            (let fields = splitn 9 (CHR '' '') rest in
             if length fields \<le> 8 then changes
             else (case split_once (fields ! 8) [CHR 0x09] of
                     None \<Rightarrow> changes
                   | Some (to', from') \<Rightarrow>
                       changes\<lparr>cs_renamed := cs_renamed changes @ [\<lparr>rn_from = from', rn_to = to'\<rparr>]\<rparr>))
          else if kind = ''?'' then changes\<lparr>cs_added := cs_added changes @ [rest]\<rparr>
          else if kind = ''u'' then
            (let fields = splitn 10 (CHR '' '') rest in
             if length fields \<le> 9 then changes
             else changes\<lparr>cs_modified := cs_modified changes @ [fields ! 9]\<rparr>)
          else changes)"

definition parse_porcelain_v2 :: "string \<Rightarrow> change_set" where
  "parse_porcelain_v2 output = fold porcelain_line (lines output) no_changes"

definition detect_changes :: "'g git \<Rightarrow> string \<Rightarrow> ('g world, change_set) prog" where
  "detect_changes git repo_dir =
     attempt (run_git git repo_dir [''update-index'', ''-q'', ''--refresh''])
       (\<lambda>_. andthen (run_git_stdout git repo_dir [''status'', ''--porcelain=v2'', ''--untracked-files=all''])
             (\<lambda>stdout. ret (parse_porcelain_v2 stdout)))"

definition list_tracked_files :: "'g git \<Rightarrow> string \<Rightarrow> ('g world, string list) prog" where
  "list_tracked_files git repo_dir = andthen (run_git_stdout git repo_dir [''ls-files'']) (\<lambda>stdout. ret (lines stdout))"

definition read_blob :: "'g git \<Rightarrow> string \<Rightarrow> string \<Rightarrow> ('g world, string) prog" where
  "read_blob git repo_dir rev_path = run_git_stdout_bytes git repo_dir [''cat-file'', ''-p'', rev_path]"

definition list_files_at_ref :: "'g git \<Rightarrow> string \<Rightarrow> string \<Rightarrow> ('g world, string list) prog" where
  "list_files_at_ref git repo_dir revision =
     andthen (run_git_stdout git repo_dir [''ls-tree'', ''-r'', ''--name-only'', revision]) (\<lambda>stdout. ret (lines stdout))"

definition remove_from_index :: "'g git \<Rightarrow> string \<Rightarrow> string \<Rightarrow> ('g world, unit) prog" where
  "remove_from_index git repo_dir path = run_git git repo_dir [''update-index'', ''--remove'', ''--'', path]"

section \<open>Conflicts\<close>

datatype deleted_by = Ours | Theirs

datatype conflict_kind = ModifyDelete deleted_by | Content | AddAdd | BothDeleted | OtherConflict

record conflict =
  cf_path :: string
  cf_kind :: conflict_kind

definition kind_of_xy :: "string \<Rightarrow> conflict_kind" where
  "kind_of_xy xy =
     (if xy = ''DU'' then ModifyDelete Ours
      else if xy = ''UD'' then ModifyDelete Theirs
      else if xy = ''UU'' then Content
      else if xy = ''AA'' then AddAdd
      else if xy = ''DD'' then BothDeleted
      else OtherConflict)"

definition conflict_line :: "string \<Rightarrow> conflict option" where
  "conflict_line line =
     (case split_once line '' '' of
        None \<Rightarrow> None
      | Some (kind, rest) \<Rightarrow>
          if kind \<noteq> ''u'' then None
          else (let fields = splitn 10 (CHR '' '') rest in
                if length fields \<le> 9 then None
                else Some \<lparr>cf_path = fields ! 9, cf_kind = kind_of_xy (fields ! 0)\<rparr>))"

definition conflicts :: "'g git \<Rightarrow> string \<Rightarrow> ('g world, conflict list) prog" where
  "conflicts git repo_dir =
     andthen (run_git_stdout git repo_dir [''status'', ''--porcelain=v2''])
       (\<lambda>stdout. ret (List.map_filter conflict_line (lines stdout)))"

record modify_delete_conflict =
  md_path :: string
  md_deleted_by :: deleted_by

definition modify_delete_of :: "conflict \<Rightarrow> modify_delete_conflict option" where
  "modify_delete_of c =
     (case cf_kind c of
        ModifyDelete d \<Rightarrow> Some \<lparr>md_path = cf_path c, md_deleted_by = d\<rparr>
      | _ \<Rightarrow> None)"

definition modify_delete_conflicts :: "'g git \<Rightarrow> string \<Rightarrow> ('g world, modify_delete_conflict list) prog" where
  "modify_delete_conflicts git repo_dir =
     andthen (conflicts git repo_dir) (\<lambda>cs. ret (List.map_filter modify_delete_of cs))"

definition stage_path :: "'g git \<Rightarrow> string \<Rightarrow> string \<Rightarrow> ('g world, unit) prog" where
  "stage_path git repo_dir path = run_git git repo_dir [''add'', ''--'', path]"

section \<open>The porcelain format\<close>

text \<open>
  Git's documented format, version 2: an entry and the line that reports it. Fields other than the paths
  hold no space, paths no line break, and a path that was renamed no tab.
\<close>

datatype status_entry =
    Ordinary string "string list" string
  | Rename string "string list" string string
  | Untracked string
  | Unmerged string "string list" string

fun entry_line :: "status_entry \<Rightarrow> string" where
  "entry_line (Ordinary xy fs path) = join '' '' (''1'' # xy # fs @ [path])"
| "entry_line (Rename xy fs to' from') = join '' '' (''2'' # xy # fs @ [to' @ [CHR 0x09] @ from'])"
| "entry_line (Untracked path) = join '' '' [''?'', path]"
| "entry_line (Unmerged xy fs path) = join '' '' (''u'' # xy # fs @ [path])"

definition no_space :: "string \<Rightarrow> bool" where
  "no_space s \<longleftrightarrow> CHR '' '' \<notin> set s"

definition one_line :: "string \<Rightarrow> bool" where
  "one_line s \<longleftrightarrow> nl \<notin> set s \<and> cr \<notin> set s"

fun entry_ok :: "status_entry \<Rightarrow> bool" where
  "entry_ok (Ordinary xy fs path) \<longleftrightarrow> list_all no_space (xy # fs) \<and> length fs = 6
     \<and> list_all one_line (xy # path # fs)"
| "entry_ok (Rename xy fs to' from') \<longleftrightarrow> list_all no_space (xy # fs) \<and> length fs = 7
     \<and> list_all one_line (xy # to' # from' # fs) \<and> CHR 0x09 \<notin> set to'"
| "entry_ok (Untracked path) \<longleftrightarrow> one_line path"
| "entry_ok (Unmerged xy fs path) \<longleftrightarrow> list_all no_space (xy # fs) \<and> length fs = 8
     \<and> list_all one_line (xy # path # fs)"

text \<open>What the entries say, list by list: the reference the reader is compared with.\<close>

definition deletes :: "string \<Rightarrow> bool" where
  "deletes xy \<longleftrightarrow> fst (status_chars xy) = ''D'' \<or> snd (status_chars xy) = ''D''"

definition adds :: "string \<Rightarrow> bool" where
  "adds xy \<longleftrightarrow> \<not> deletes xy \<and> fst (status_chars xy) = ''A''"

definition added_path :: "status_entry \<Rightarrow> string option" where
  "added_path e = (case e of Untracked p \<Rightarrow> Some p | Ordinary xy _ p \<Rightarrow> if adds xy then Some p else None | _ \<Rightarrow> None)"

definition deleted_path :: "status_entry \<Rightarrow> string option" where
  "deleted_path e = (case e of Ordinary xy _ p \<Rightarrow> if deletes xy then Some p else None | _ \<Rightarrow> None)"

definition modified_path :: "status_entry \<Rightarrow> string option" where
  "modified_path e = (case e of Ordinary xy _ p \<Rightarrow> if adds xy \<or> deletes xy then None else Some p
     | Unmerged _ _ p \<Rightarrow> Some p | _ \<Rightarrow> None)"

definition renamed_paths :: "status_entry \<Rightarrow> renamed option" where
  "renamed_paths e = (case e of Rename _ _ t f \<Rightarrow> Some \<lparr>rn_from = f, rn_to = t\<rparr> | _ \<Rightarrow> None)"

definition entry_conflict :: "status_entry \<Rightarrow> conflict option" where
  "entry_conflict e = (case e of Unmerged xy _ p \<Rightarrow> Some \<lparr>cf_path = p, cf_kind = kind_of_xy xy\<rparr> | _ \<Rightarrow> None)"

definition reported :: "status_entry list \<Rightarrow> change_set" where
  "reported es =
     \<lparr>cs_added = List.map_filter added_path es, cs_modified = List.map_filter modified_path es,
      cs_deleted = List.map_filter deleted_path es, cs_renamed = List.map_filter renamed_paths es\<rparr>"

text \<open>Splitting what was joined.\<close>

lemma splitn_join:
  "list_all no_space fs \<Longrightarrow> splitn (Suc (length fs)) (CHR '' '') (join '' '' (fs @ [p])) = fs @ [p]"
proof (induction fs)
  case (Cons f fs)
  have "split_once (f @ '' '' @ join '' '' (fs @ [p])) '' '' = Some (f, join '' '' (fs @ [p]))"
    using Cons.prems split_once_char [of "CHR '' ''" f] by (simp add: no_space_def)
  then show ?case using Cons by (simp add: join_Cons)
qed simp

lemma splitn_fields:
  "list_all no_space fs \<Longrightarrow> n = Suc (length fs) \<Longrightarrow> splitn n (CHR '' '') (join '' '' (fs @ [p])) = fs @ [p]"
  by (simp only: splitn_join)

lemma split_kind: "no_space k \<Longrightarrow> xs \<noteq> [] \<Longrightarrow> split_once (join '' '' (k # xs)) '' '' = Some (k, join '' '' xs)"
  using split_once_char [of "CHR '' ''" k] by (simp add: join_Cons no_space_def)

lemma porcelain_entry:
  assumes "entry_ok e"
  shows "porcelain_line (entry_line e) c =
    \<lparr>cs_added = cs_added c @ List.map_filter added_path [e], cs_modified = cs_modified c @ List.map_filter modified_path [e],
     cs_deleted = cs_deleted c @ List.map_filter deleted_path [e], cs_renamed = cs_renamed c @ List.map_filter renamed_paths [e]\<rparr>"
    and "conflict_line (entry_line e) = entry_conflict e"
proof -
  have kinds: "no_space ''1''" "no_space ''2''" "no_space ''?''" "no_space ''u''" by (simp_all add: no_space_def)
  note defs = porcelain_line_def conflict_line_def Let_def classify_ordinary_def added_path_def modified_path_def
    deleted_path_def renamed_paths_def entry_conflict_def List.map_filter_def adds_def deletes_def
  have "porcelain_line (entry_line e) c =
    \<lparr>cs_added = cs_added c @ List.map_filter added_path [e], cs_modified = cs_modified c @ List.map_filter modified_path [e],
     cs_deleted = cs_deleted c @ List.map_filter deleted_path [e], cs_renamed = cs_renamed c @ List.map_filter renamed_paths [e]\<rparr>
    \<and> conflict_line (entry_line e) = entry_conflict e"
  proof (cases e)
    case (Ordinary xy fs p)
    then have "splitn 8 (CHR '' '') (join '' '' (xy # fs @ [p])) = xy # fs @ [p]" "length fs = 6"
      using splitn_fields [of "xy # fs" 8 p] assms by simp_all
    then show ?thesis
      using split_kind [OF kinds(1), of "xy # fs @ [p]"] Ordinary
      by (simp add: defs nth_append split: prod.split)
  next
    case (Rename xy fs t f)
    then have "splitn 9 (CHR '' '') (join '' '' (xy # fs @ [t @ [CHR 0x09] @ f])) = xy # fs @ [t @ [CHR 0x09] @ f]" "length fs = 7"
      using splitn_fields [of "xy # fs" 9 "t @ [CHR 0x09] @ f"] assms by simp_all
    moreover have "split_once (t @ [CHR 0x09] @ f) [CHR 0x09] = Some (t, f)"
      using split_once_char [of "CHR 0x09" t f] assms Rename by simp
    ultimately show ?thesis
      using split_kind [OF kinds(2), of "xy # fs @ [t @ [CHR 0x09] @ f]"] Rename
      by (simp add: defs nth_append)
  next
    case (Untracked p)
    then show ?thesis using split_kind [OF kinds(3), of "[p]"] by (simp add: defs)
  next
    case (Unmerged xy fs p)
    then have "splitn 10 (CHR '' '') (join '' '' (xy # fs @ [p])) = xy # fs @ [p]" "length fs = 8"
      using splitn_fields [of "xy # fs" 10 p] assms by simp_all
    then show ?thesis
      using split_kind [OF kinds(4), of "xy # fs @ [p]"] Unmerged by (simp add: defs nth_append)
  qed
  then show "porcelain_line (entry_line e) c =
    \<lparr>cs_added = cs_added c @ List.map_filter added_path [e], cs_modified = cs_modified c @ List.map_filter modified_path [e],
     cs_deleted = cs_deleted c @ List.map_filter deleted_path [e], cs_renamed = cs_renamed c @ List.map_filter renamed_paths [e]\<rparr>"
    "conflict_line (entry_line e) = entry_conflict e" by blast+
qed

lemma set_join: "set (join sep xs) \<subseteq> set sep \<union> \<Union> (set ` set xs)"
  by (induction sep xs rule: join.induct) auto

lemma entry_line_one_line: "entry_ok e \<Longrightarrow> one_line (entry_line e)"
  using set_join [of "'' ''"] by (cases e) (fastforce simp: one_line_def list_all_iff)+

lemma lines_unlines_clean: "list_all one_line ls \<Longrightarrow> lines (concat (map (\<lambda>l. l @ [nl]) ls)) = ls"
  by (induction ls) (simp_all add: one_line_def lines_append)

text \<open>
  The reader of \<open>git status --porcelain=v2\<close> agrees with the format: for any report git may print,
  entry after entry, the change set lists exactly the added (and untracked), modified (and unmerged),
  deleted and renamed paths, each in the order of the report, and the conflicts are exactly its unmerged
  entries with their class. Paths may hold spaces.
\<close>

lemma porcelain_reader:
  assumes "list_all entry_ok es"
  shows "parse_porcelain_v2 (concat (map (\<lambda>e. entry_line e @ [nl]) es)) = reported es
    \<and> List.map_filter conflict_line (lines (concat (map (\<lambda>e. entry_line e @ [nl]) es)))
      = List.map_filter entry_conflict es"
proof -
  have "list_all one_line (map entry_line es)" using assms by (auto simp: list_all_iff entry_line_one_line)
  from lines_unlines_clean [OF this] have ls: "lines (concat (map (\<lambda>e. entry_line e @ [nl]) es)) = map entry_line es"
    by (simp add: comp_def)
  have "fold porcelain_line (map entry_line es) c =
    \<lparr>cs_added = cs_added c @ cs_added (reported es), cs_modified = cs_modified c @ cs_modified (reported es),
     cs_deleted = cs_deleted c @ cs_deleted (reported es), cs_renamed = cs_renamed c @ cs_renamed (reported es)\<rparr>" for c
    using assms
  proof (induction es arbitrary: c)
    case (Cons e es)
    then show ?case by (simp add: porcelain_entry reported_def List.map_filter_def)
  qed (simp add: reported_def List.map_filter_def)
  moreover have "List.map_filter conflict_line (map entry_line es) = List.map_filter entry_conflict es"
    using assms by (induction es) (simp_all add: List.map_filter_def porcelain_entry)
  ultimately show ?thesis by (simp add: parse_porcelain_v2_def ls no_changes_def)
qed

lemma porcelain_reader_witness:
  "parse_porcelain_v2 (concat (map (\<lambda>e. entry_line e @ [nl])
      [Unmerged ''UD'' (replicate 8 ''0'') ''a b.md'', Untracked ''n.md'', Ordinary ''.M'' (replicate 6 ''0'') ''c.md'']))
     = \<lparr>cs_added = [''n.md''], cs_modified = [''a b.md'', ''c.md''], cs_deleted = [], cs_renamed = []\<rparr>"
  using porcelain_reader [of "[Unmerged ''UD'' (replicate 8 ''0'') ''a b.md'', Untracked ''n.md'',
      Ordinary ''.M'' (replicate 6 ''0'') ''c.md'']"]
  by (simp add: no_space_def one_line_def reported_def List.map_filter_def added_path_def modified_path_def
      deleted_path_def renamed_paths_def adds_def deletes_def status_chars_def is_continuation_def list_all_iff)

end
