(* ===== verification/GitCmd.thy ===== *)
theory GitCmd
  imports Signers GitStatus
begin

text \<open>
  The git commands of the crate wkp-git as programs over the world: version check, configuration,
  repositories, branches and remotes, bundles, provenance trailers, signed commits, and the branch of a
  device (version.rs, config.rs, init.rs, remote.rs, bundle.rs, purge.rs, provenance.rs,
  signed_commit.rs, sync.rs).
\<close>

section \<open>Versions\<close>

type_synonym git_version = "u32 \<times> u32 \<times> u32"

definition MIN_GIT_VERSION :: git_version where
  "MIN_GIT_VERSION = (2, 34, 0)"

datatype git_version_check = VersionOk git_version | TooOld git_version | Unparseable string | NotFound

definition parse_git_version :: "string \<Rightarrow> git_version option" where
  "parse_git_version raw =
     (case strip_prefix raw ''git version '' of
        None \<Rightarrow> None
      | Some version_str \<Rightarrow>
          (case split_whitespace version_str of
             [] \<Rightarrow> None
           | core # _ \<Rightarrow>
               (case split_char (CHR ''.'') core of
                  major # minor # rest \<Rightarrow>
                    (case (parse_u32 major, parse_u32 minor) of
                       (Some ma, Some mi) \<Rightarrow>
                         (case rest of
                            [] \<Rightarrow> Some (ma, mi, 0)
                          | p # _ \<Rightarrow>
                              (let digits = takeWhile is_ascii_digit p in
                               if digits = [] then Some (ma, mi, 0)
                               else map_option (\<lambda>pa. (ma, mi, pa)) (parse_u32 digits)))
                     | _ \<Rightarrow> None)
                | _ \<Rightarrow> None)))"

definition version_le :: "git_version \<Rightarrow> git_version \<Rightarrow> bool" where
  "version_le v w = (case v of (a, b, c) \<Rightarrow> case w of (a', b', c') \<Rightarrow>
     a < a' \<or> (a = a' \<and> (b < b' \<or> (b = b' \<and> c \<le> c'))))"

text \<open>The argument is what running \<open>git --version\<close> came to, if it ran at all.\<close>

definition check_git_version :: "(bool \<times> string) option \<Rightarrow> git_version_check" where
  "check_git_version output =
     (case output of
        Some (True, stdout) \<Rightarrow>
          (let raw = trim stdout in
           case parse_git_version raw of
             Some found \<Rightarrow> (if version_le MIN_GIT_VERSION found then VersionOk found else TooOld found)
           | None \<Rightarrow> Unparseable raw)
      | _ \<Rightarrow> NotFound)"

definition show_version :: "git_version \<Rightarrow> string" where
  "show_version v = (case v of (a, b, c) \<Rightarrow> show_nat (unat a) @ ''.'' @ show_nat (unat b) @ ''.'' @ show_nat (unat c))"

definition ensure_min_git_version :: "(string \<Rightarrow> bool) \<Rightarrow> (bool \<times> string) option \<Rightarrow> (string, unit) result" where
  "ensure_min_git_version np output =
     (case check_git_version output of
        VersionOk _ \<Rightarrow> Inr ()
      | TooOld found \<Rightarrow>
          Inl (''wkp: git '' @ show_version found @ '' found, but wkp requires git >= '' @ show_version MIN_GIT_VERSION
            @ '' (needed for SSH commit signing; see docs/adr/0001-git-minimum-version.md). Upgrade git and try again.'')
      | Unparseable raw \<Rightarrow>
          Inl (''wkp: could not parse a version from `git --version` output '' @ debug_str np raw
            @ ''; wkp requires git >= '' @ show_version MIN_GIT_VERSION @ ''.'')
      | NotFound \<Rightarrow>
          Inl (''wkp: git not found on PATH; wkp requires git >= '' @ show_version MIN_GIT_VERSION @ ''.''))"

section \<open>Configuration and repositories\<close>

definition set_local_config :: "'g git \<Rightarrow> string \<Rightarrow> string \<Rightarrow> string \<Rightarrow> ('g world, unit) prog" where
  "set_local_config git repo_dir key v = run_git git repo_dir [''config'', ''--local'', key, v]"

definition get_local_config :: "'g git \<Rightarrow> string \<Rightarrow> string \<Rightarrow> ('g world, string option) prog" where
  "get_local_config git repo_dir key =
     attempt (run_git_stdout git repo_dir [''config'', ''--local'', ''--get'', key])
       (\<lambda>r. ret (case r of Inl _ \<Rightarrow> None | Inr s \<Rightarrow> Some (trim s)))"

definition fsmonitor_enabled :: "'g git \<Rightarrow> string \<Rightarrow> ('g world, bool) prog" where
  "fsmonitor_enabled git repo_dir =
     attempt (run_git_stdout git repo_dir [''config'', ''--get'', ''core.fsmonitor''])
       (\<lambda>r. ret (case r of Inl _ \<Rightarrow> False | Inr v \<Rightarrow> trim v = ''true''))"

definition INIT_CONFIG_SETTINGS :: "(string \<times> string) list" where
  "INIT_CONFIG_SETTINGS =
     [(''protocol.version'', ''2''), (''receive.fsckObjects'', ''true''), (''transfer.fsckObjects'', ''true''),
      (''core.untrackedCache'', ''true''), (''maintenance.commit-graph.enabled'', ''true'')]"

definition init_repo :: "'g git \<Rightarrow> string \<Rightarrow> ('g world, unit) prog" where
  "init_repo git path =
     andthen (create_dir_all (components path)) (\<lambda>_. run_git git path [''init'', ''--quiet'', ''--initial-branch=main''])"

definition init_bare_repo :: "'g git \<Rightarrow> string \<Rightarrow> ('g world, unit) prog" where
  "init_bare_repo git path =
     andthen (create_dir_all (components path))
       (\<lambda>_. run_git git path [''init'', ''--quiet'', ''--bare'', ''--initial-branch=main''])"

definition commit_staged :: "'g git \<Rightarrow> string \<Rightarrow> string \<Rightarrow> ('g world, unit) prog" where
  "commit_staged git repo_dir message =
     run_git git repo_dir [''-c'', ''user.email=wkp-test@example.com'', ''-c'', ''user.name=wkp test'',
       ''commit'', ''-q'', ''-m'', message]"

definition commit_all :: "'g git \<Rightarrow> string \<Rightarrow> string \<Rightarrow> ('g world, unit) prog" where
  "commit_all git repo_dir message =
     andthen (run_git git repo_dir [''add'', ''-A'']) (\<lambda>_. commit_staged git repo_dir message)"

definition apply_init_settings ::
  "'g git \<Rightarrow> (string \<Rightarrow> 'g world \<Rightarrow> (string, string) result) \<Rightarrow> string \<Rightarrow> ('g world, unit) prog" where
  "apply_init_settings git canonicalize repo_dir =
     andthen (for_each (\<lambda>(key, v). map_err (\<lambda>e. ''wkp: failed to set git config '' @ key @ ''='' @ v @ '': '' @ e)
               (run_git git repo_dir [''config'', ''--local'', key, v])) INIT_CONFIG_SETTINGS) (\<lambda>_.
     andthen (configure_ssh_signing git canonicalize repo_dir) (\<lambda>_.
     attempt (run_git git repo_dir [''maintenance'', ''start'']) (\<lambda>_. ret ())))"

section \<open>Provenance trailers\<close>

record trailers =
  tr_actor :: "string option"
  tr_session :: "string option"
  tr_source :: "string option"
  tr_confidence :: "string option"

definition no_trailers :: trailers where
  "no_trailers = \<lparr>tr_actor = None, tr_session = None, tr_source = None, tr_confidence = None\<rparr>"

definition trailer_pairs :: "trailers \<Rightarrow> (string \<times> string) list" where
  "trailer_pairs p =
     (let opt = (\<lambda>key v. case v of None \<Rightarrow> [] | Some s \<Rightarrow> [(key, s)])
      in opt ''Wkp-Actor'' (tr_actor p) @ opt ''Wkp-Session'' (tr_session p)
         @ opt ''Wkp-Source'' (tr_source p) @ opt ''Wkp-Confidence'' (tr_confidence p))"

definition format_message :: "'g git \<Rightarrow> string \<Rightarrow> trailers \<Rightarrow> string \<Rightarrow> ('g world, string) prog" where
  "format_message git repo_dir p subject =
     (let pairs = trailer_pairs p in
      if pairs = [] then ret subject
      else run_git_with_stdin git repo_dir
             (''interpret-trailers'' # concat (map (\<lambda>(key, v). [''--trailer'', key @ ''='' @ v]) pairs)) subject)"

definition trailer_line :: "string \<Rightarrow> trailers \<Rightarrow> trailers" where
  "trailer_line line p =
     (case split_once line '':'' of
        None \<Rightarrow> p
      | Some (key, v) \<Rightarrow>
          (let v = trim v; key = trim key in
           if key = ''Wkp-Actor'' then p\<lparr>tr_actor := Some v\<rparr>
           else if key = ''Wkp-Session'' then p\<lparr>tr_session := Some v\<rparr>
           else if key = ''Wkp-Source'' then p\<lparr>tr_source := Some v\<rparr>
           else if key = ''Wkp-Confidence'' then p\<lparr>tr_confidence := Some v\<rparr>
           else p))"

definition parse_trailers :: "string \<Rightarrow> trailers option" where
  "parse_trailers block =
     (let p = fold trailer_line (lines block) no_trailers in if p = no_trailers then None else Some p)"

definition read_provenance_trailers :: "'g git \<Rightarrow> string \<Rightarrow> string \<Rightarrow> ('g world, trailers option) prog" where
  "read_provenance_trailers git repo_dir commit =
     andthen (run_git_stdout git repo_dir [''log'', ''-1'', ''--format=%B'', commit]) (\<lambda>body.
     andthen (run_git_with_stdin git repo_dir [''interpret-trailers'', ''--parse'', ''--only-trailers''] body)
       (\<lambda>block. ret (parse_trailers block)))"

section \<open>Signed commits\<close>

definition ok_opt :: "(string, string) result \<Rightarrow> string option" where
  "ok_opt r = (case r of Inl _ \<Rightarrow> None | Inr s \<Rightarrow> if trim s = [] then None else Some (trim s))"

definition commit_tree_args :: "string \<Rightarrow> string \<Rightarrow> string \<Rightarrow> string \<Rightarrow> string option \<Rightarrow> string list" where
  "commit_tree_args tree message who key parent =
     [''-c'', ''gpg.format=ssh'', ''-c'', ''user.signingkey='' @ key, ''-c'', ''user.name='' @ who,
      ''-c'', ''user.email='' @ who, ''commit-tree'', ''-S'', tree, ''-m'', message]
     @ (case parent of None \<Rightarrow> [] | Some p \<Rightarrow> [''-p'', p])"

definition commit_current_index ::
  "'g git \<Rightarrow> string \<Rightarrow> string \<Rightarrow> string \<Rightarrow> string \<Rightarrow> trailers \<Rightarrow> ('g world, string) prog" where
  "commit_current_index git repo_dir subject who key p =
     andthen (run_git_stdout git repo_dir [''write-tree'']) (\<lambda>tree.
     attempt (run_git_stdout git repo_dir [''rev-parse'', ''--verify'', ''-q'', ''HEAD'']) (\<lambda>head_ref.
     andthen (format_message git repo_dir p subject) (\<lambda>message.
     andthen (run_git_stdout git repo_dir (commit_tree_args (trim tree) message who key (ok_opt head_ref))) (\<lambda>commit.
     andthen (run_git git repo_dir [''update-ref'', ''HEAD'', trim commit]) (\<lambda>_.
     ret (trim commit))))))"

definition stage_blob :: "'g git \<Rightarrow> string \<Rightarrow> string \<Rightarrow> ('g world, unit) prog" where
  "stage_blob git repo_dir path =
     andthen (run_git_stdout git repo_dir [''hash-object'', ''-w'', ''--'', join_path repo_dir path]) (\<lambda>blob.
     run_git git repo_dir [''update-index'', ''--add'', ''--cacheinfo'', ''100644,'' @ trim blob @ '','' @ path])"

definition signed_commit ::
  "'g git \<Rightarrow> string \<Rightarrow> string list \<Rightarrow> string \<Rightarrow> string \<Rightarrow> string \<Rightarrow> trailers \<Rightarrow> ('g world, string) prog" where
  "signed_commit git repo_dir paths subject who key p =
     (if paths = [] then err ''signed_commit: no paths given''
      else andthen (for_each (stage_blob git repo_dir) paths)
             (\<lambda>_. commit_current_index git repo_dir subject who key p))"

definition signed_removal_commit ::
  "'g git \<Rightarrow> string \<Rightarrow> string list \<Rightarrow> string \<Rightarrow> string \<Rightarrow> string \<Rightarrow> trailers \<Rightarrow> ('g world, string) prog" where
  "signed_removal_commit git repo_dir paths subject who key p =
     (if paths = [] then err ''signed_removal_commit: no paths given''
      else andthen (for_each (\<lambda>path. run_git git repo_dir [''update-index'', ''--remove'', ''--'', path]) paths)
             (\<lambda>_. commit_current_index git repo_dir subject who key p))"

definition verify_commit :: "'g git \<Rightarrow> string \<Rightarrow> string \<Rightarrow> ('g world, unit) prog" where
  "verify_commit git repo_dir commit = run_git git repo_dir [''verify-commit'', commit]"

section \<open>The branch of a device\<close>

definition hex2 :: "nat \<Rightarrow> string" where
  "hex2 b = [digit_char (b div 16), digit_char (b mod 16)]"

text \<open>The sixteen bytes read off \<open>/dev/urandom\<close> are the argument \<open>urandom\<close>.\<close>

definition generate_device_id :: "(string, nat list) result \<Rightarrow> (string, string) result" where
  "generate_device_id urandom =
     (case urandom of Inl e \<Rightarrow> Inl e | Inr bytes \<Rightarrow> Inr (concat (map hex2 bytes)))"

definition device_id :: "(string, nat list) result \<Rightarrow> string \<Rightarrow> ('g world, string) prog" where
  "device_id urandom store_path =
     (let path = join_path store_path ''.wkp/device-id'' in
      attempt (read_to_string path) (\<lambda>existing.
        case ok_opt existing of
          Some trimmed \<Rightarrow> ret trimmed
        | None \<Rightarrow>
            (case generate_device_id urandom of
               Inl e \<Rightarrow> err e
             | Inr generated \<Rightarrow>
                 andthen (create_parent path) (\<lambda>_.
                 andthen (fs_write (components path) (generated @ [nl])) (\<lambda>_. ret generated)))))"

definition device_branch_name :: "string \<Rightarrow> string" where
  "device_branch_name dev = ''sync/'' @ dev"

definition ensure_device_branch :: "'g git \<Rightarrow> string \<Rightarrow> string \<Rightarrow> ('g world, unit) prog" where
  "ensure_device_branch git repo_dir dev =
     attempt (run_git git repo_dir [''rev-parse'', ''--verify'', ''-q'', ''refs/heads/'' @ device_branch_name dev])
       (\<lambda>r. if \<not> isl r then ret () else run_git git repo_dir [''branch'', device_branch_name dev])"

datatype previous_ref = Branch string | DetachedAt string

definition capture_current_ref :: "'g git \<Rightarrow> string \<Rightarrow> ('g world, previous_ref) prog" where
  "capture_current_ref git repo_dir =
     attempt (run_git_stdout git repo_dir [''symbolic-ref'', ''--short'', ''-q'', ''HEAD'']) (\<lambda>r.
       case ok_opt r of
         Some branch \<Rightarrow> ret (Branch branch)
       | None \<Rightarrow> andthen (run_git_stdout git repo_dir [''rev-parse'', ''HEAD'']) (\<lambda>sha. ret (DetachedAt (trim sha))))"

fun ref_target :: "previous_ref \<Rightarrow> string" where
  "ref_target (Branch b) = b"
| "ref_target (DetachedAt sha) = sha"

definition restore_ref :: "'g git \<Rightarrow> string \<Rightarrow> previous_ref \<Rightarrow> ('g world, unit) prog" where
  "restore_ref git repo_dir previous = run_git git repo_dir [''checkout'', ''--quiet'', ref_target previous]"

definition commit_to_device_branch ::
  "'g git \<Rightarrow> string \<Rightarrow> string \<Rightarrow> string list \<Rightarrow> string \<Rightarrow> string \<Rightarrow> string \<Rightarrow> trailers \<Rightarrow> ('g world, string) prog" where
  "commit_to_device_branch git repo_dir dev paths subject who key p =
     (let branch = device_branch_name dev in
      attempt (run_git git repo_dir [''rev-parse'', ''--verify'', ''-q'', ''HEAD'']) (\<lambda>has_any_commit.
        if isl has_any_commit then
          andthen (run_git git repo_dir [''symbolic-ref'', ''HEAD'', ''refs/heads/'' @ branch]) (\<lambda>_.
          signed_commit git repo_dir paths subject who key p)
        else
          andthen (ensure_device_branch git repo_dir dev) (\<lambda>_.
          andthen (capture_current_ref git repo_dir) (\<lambda>previous.
          andthen (run_git git repo_dir [''checkout'', ''--quiet'', branch]) (\<lambda>_.
          attempt (signed_commit git repo_dir paths subject who key p) (\<lambda>committed.
          attempt (restore_ref git repo_dir previous) (\<lambda>restored.
          case committed of
            Inl commit_err \<Rightarrow> err commit_err
          | Inr commit \<Rightarrow>
              (case restored of
                 Inr _ \<Rightarrow> ret commit
               | Inl restore_err \<Rightarrow>
                   err (''commit succeeded but failed to restore the previous branch: '' @ restore_err)))))))))"

section \<open>Branches, remotes and bundles\<close>

definition checkout_branch :: "'g git \<Rightarrow> string \<Rightarrow> string \<Rightarrow> bool \<Rightarrow> ('g world, unit) prog" where
  "checkout_branch git repo_dir branch_name create =
     (if create then run_git git repo_dir [''checkout'', ''--quiet'', ''-b'', branch_name]
      else run_git git repo_dir [''checkout'', ''--quiet'', branch_name])"

definition current_branch :: "'g git \<Rightarrow> string \<Rightarrow> ('g world, string) prog" where
  "current_branch git repo_dir =
     andthen (run_git_stdout git repo_dir [''symbolic-ref'', ''--short'', ''HEAD'']) (\<lambda>s. ret (trim s))"

definition current_commit :: "'g git \<Rightarrow> string \<Rightarrow> ('g world, string) prog" where
  "current_commit git repo_dir = andthen (run_git_stdout git repo_dir [''rev-parse'', ''HEAD'']) (\<lambda>s. ret (trim s))"

definition log_entry :: "string \<Rightarrow> string \<times> string" where
  "log_entry line = (case splitn 2 (CHR 0x09) line of [] \<Rightarrow> ([], []) | [sha] \<Rightarrow> (sha, []) | sha # subject # _ \<Rightarrow> (sha, subject))"

definition commits_between :: "'g git \<Rightarrow> string \<Rightarrow> string \<Rightarrow> string \<Rightarrow> ('g world, (string \<times> string) list) prog" where
  "commits_between git repo_dir since until' =
     andthen (run_git_stdout git repo_dir [''log'', ''--format=%H%x09%s'', since @ ''..'' @ until'])
       (\<lambda>stdout. ret (map log_entry (lines stdout)))"

definition is_merge_commit :: "'g git \<Rightarrow> string \<Rightarrow> string \<Rightarrow> ('g world, bool) prog" where
  "is_merge_commit git repo_dir commit =
     andthen (run_git_stdout git repo_dir [''rev-list'', ''--parents'', ''-n'', ''1'', commit])
       (\<lambda>stdout. ret (length (split_whitespace stdout) > 2))"

definition merge_branch :: "'g git \<Rightarrow> string \<Rightarrow> string \<Rightarrow> ('g world, bool) prog" where
  "merge_branch git repo_dir branch_name w =
     (case spawn_git git repo_dir [''-c'', ''user.email=wkp@localhost'', ''-c'', ''user.name=wkp'',
         ''merge'', ''--no-edit'', ''--allow-unrelated-histories'', branch_name] [] w of
        (GitSpawnError e, w') \<Rightarrow> (Inl e, w')
      | (GitExit success stdout stderr, w') \<Rightarrow> (Inr success, w'))"

definition finish_merge :: "'g git \<Rightarrow> string \<Rightarrow> ('g world, unit) prog" where
  "finish_merge git repo_dir =
     run_git git repo_dir [''-c'', ''user.email=wkp@localhost'', ''-c'', ''user.name=wkp'', ''commit'', ''--no-edit'']"

definition fetch :: "'g git \<Rightarrow> string \<Rightarrow> string \<Rightarrow> ('g world, unit) prog" where
  "fetch git repo_dir remote = run_git git repo_dir [''fetch'', ''--quiet'', remote]"

definition push_branch :: "'g git \<Rightarrow> string \<Rightarrow> string \<Rightarrow> string \<Rightarrow> ('g world, unit) prog" where
  "push_branch git repo_dir remote branch_name = run_git git repo_dir [''push'', ''--quiet'', remote, branch_name]"

definition other_device_sync_refs :: "'g git \<Rightarrow> string \<Rightarrow> string \<Rightarrow> string \<Rightarrow> ('g world, string list) prog" where
  "other_device_sync_refs git repo_dir remote own_device_id =
     (let own_branch = remote @ ''/'' @ device_branch_name own_device_id in
      andthen (run_git_stdout git repo_dir [''for-each-ref'', ''--format=%(refname:short)'', ''refs/remotes/'' @ remote @ ''/sync/''])
        (\<lambda>stdout. ret (filter (\<lambda>line. line \<noteq> [] \<and> line \<noteq> own_branch) (map trim (lines stdout)))))"

definition remote_branch_exists :: "'g git \<Rightarrow> string \<Rightarrow> string \<Rightarrow> string \<Rightarrow> ('g world, bool) prog" where
  "remote_branch_exists git repo_dir remote branch_name =
     attempt (run_git git repo_dir [''rev-parse'', ''--verify'', ''-q'', ''refs/remotes/'' @ remote @ ''/'' @ branch_name])
       (\<lambda>r. ret (\<not> isl r))"

definition local_branch_exists :: "'g git \<Rightarrow> string \<Rightarrow> string \<Rightarrow> ('g world, bool) prog" where
  "local_branch_exists git repo_dir branch_name =
     attempt (run_git git repo_dir [''rev-parse'', ''--verify'', ''-q'', ''refs/heads/'' @ branch_name]) (\<lambda>r. ret (\<not> isl r))"

definition refs_matching :: "'g git \<Rightarrow> string \<Rightarrow> string \<Rightarrow> ('g world, string list) prog" where
  "refs_matching git repo_dir ref_prefix =
     andthen (run_git_stdout git repo_dir [''for-each-ref'', ''--format=%(refname)'', ref_prefix])
       (\<lambda>stdout. ret (filter (\<lambda>line. line \<noteq> []) (map trim (lines stdout))))"

definition bundle_create :: "'g git \<Rightarrow> string \<Rightarrow> string \<Rightarrow> string list \<Rightarrow> string option \<Rightarrow> ('g world, unit) prog" where
  "bundle_create git repo_dir bundle_path refs since =
     run_git git repo_dir ([''bundle'', ''create'', bundle_path]
       @ map (\<lambda>r. case since of Some since_ref \<Rightarrow> since_ref @ ''..'' @ r | None \<Rightarrow> r) refs)"

definition bundle_verify :: "'g git \<Rightarrow> string \<Rightarrow> string \<Rightarrow> ('g world, unit) prog" where
  "bundle_verify git repo_dir bundle_path = run_git git repo_dir [''bundle'', ''verify'', ''--quiet'', bundle_path]"

definition bundle_fetch :: "'g git \<Rightarrow> string \<Rightarrow> string \<Rightarrow> ('g world, unit) prog" where
  "bundle_fetch git repo_dir bundle_path =
     run_git git repo_dir [''fetch'', ''--quiet'', bundle_path, ''refs/heads/*:refs/remotes/bundle/*'']"

definition purge_path :: "'g git \<Rightarrow> string \<Rightarrow> string \<Rightarrow> ('g world, string) prog" where
  "purge_path git repo_dir path =
     attempt (run_git git repo_dir [''filter-repo'', ''--invert-paths'', ''--path'', path, ''--force'']) (\<lambda>r.
       case r of
         Inr _ \<Rightarrow> ret path
       | Inl stderr \<Rightarrow>
           if contains_str stderr ''is not a git command'' then
             err (''git-filter-repo is not installed (or not on PATH) -- wkp purge wraps the upstream ''
               @ ''`git-filter-repo` tool (https://github.com/newren/git-filter-repo), which this project ''
               @ ''deliberately does not vendor (CLAUDE.md: no vendoring a Python dependency). Install it via your ''
               @ ''OS package manager (e.g. `apt install git-filter-repo`, `brew install git-filter-repo`, or ''
               @ ''`pip install git-filter-repo`), then re-run `wkp purge '' @ path @ ''`. git'' @ [squote] @ ''s own error: '' @ stderr)
           else err stderr)"

end
