(* ===== verification/Recipients.thy ===== *)
theory Recipients
  imports Signers Frontmatter
begin

text \<open>
  The \<open>recipients\<close> file and the encryption filter (crates/wkp-crypto/src/recipients.rs and lib.rs,
  crates/wkp-cli/src/filter.rs): who private items are encrypted to, and what git stores and checks out.
  The age library is the parameter \<open>ag\<close>: its text encodings, its encryption and its decryption.
\<close>

section \<open>Encryption\<close>

record ('r, 'i) age =
  ag_parse :: "string \<Rightarrow> 'r option"
  ag_show :: "'r \<Rightarrow> string"
  ag_encrypt :: "'r list \<Rightarrow> string \<Rightarrow> (string, string) result"
  ag_decrypt :: "'i \<Rightarrow> string \<Rightarrow> (string, string) result"

datatype crypto_error =
    InvalidIdentity string | InvalidRecipient string | NoRecipients | Encrypt string | Decrypt string
  | CryptoIo string | Keystore string | SshKey string | Certificate string

fun crypto_error_str :: "crypto_error \<Rightarrow> string" where
  "crypto_error_str (InvalidIdentity s) = ''invalid age identity: '' @ s"
| "crypto_error_str (InvalidRecipient s) = ''invalid age recipient: '' @ s"
| "crypto_error_str NoRecipients = ''encrypt requires at least one recipient''"
| "crypto_error_str (Encrypt e) = ''age encryption failed: '' @ e"
| "crypto_error_str (Decrypt e) = ''age decryption failed: '' @ e"
| "crypto_error_str (CryptoIo e) = ''I/O error during age streaming: '' @ e"
| "crypto_error_str (Keystore e) = ''OS keystore error: '' @ e"
| "crypto_error_str (SshKey e) = ''SSH key error: '' @ e"
| "crypto_error_str (Certificate m) = ''certificate error: '' @ m"

definition AGE_HEADER :: string where
  "AGE_HEADER = ''age-encryption.org/v1''"

definition recipient_from_string :: "('r, 'i) age \<Rightarrow> string \<Rightarrow> (crypto_error, 'r) result" where
  "recipient_from_string ag s = (case ag_parse ag s of None \<Rightarrow> Inl (InvalidRecipient s) | Some r \<Rightarrow> Inr r)"

definition encrypt :: "('r, 'i) age \<Rightarrow> string \<Rightarrow> 'r list \<Rightarrow> (crypto_error, string) result" where
  "encrypt ag plaintext recipients =
     (if recipients = [] then Inl NoRecipients
      else (case ag_encrypt ag recipients plaintext of Inl e \<Rightarrow> Inl (Encrypt e) | Inr c \<Rightarrow> Inr c))"

definition decrypt :: "('r, 'i) age \<Rightarrow> string \<Rightarrow> 'i \<Rightarrow> (crypto_error, string) result" where
  "decrypt ag ciphertext identity =
     (case ag_decrypt ag identity ciphertext of Inl e \<Rightarrow> Inl (Decrypt e) | Inr p \<Rightarrow> Inr p)"

section \<open>The recipients file\<close>

datatype recipient_kind = DeviceKey | RecoveryKey | OtherKey

definition from_label :: "string \<Rightarrow> recipient_kind" where
  "from_label label =
     (if starts_with label ''device:'' then DeviceKey
      else if starts_with label ''recovery:'' then RecoveryKey
      else OtherKey)"

record 'r recipient_entry =
  re_label :: string
  re_kind :: recipient_kind
  re_recipient :: 'r

definition RECIPIENTS_HEADER :: string where
  "RECIPIENTS_HEADER = unlines
     [''# wkp recipients (design 7.2). One age recipient per line:'',
      ''#   <label> <recipient>'',
      ''# <label> is `device:<name>` or `recovery:<name>` -- kind is read from'',
      ''# that prefix, not a separate column (mirrors allowed_signers'' @ [squote] @ '' human:/'',
      ''# agent: convention). Not itself encrypted: every line here is a public'',
      ''# key. Consumed by the encryption filter to decide who private content'',
      ''# is encrypted to.'']"

definition recipient_of_line :: "('r, 'i) age \<Rightarrow> string \<Rightarrow> 'r recipient_entry option" where
  "recipient_of_line ag line =
     (let line = trim line in
      if line = [] \<or> starts_with line ''#'' then None
      else (case split_whitespace line of
              [label, recipient_str] \<Rightarrow>
                (case recipient_from_string ag recipient_str of
                   Inl _ \<Rightarrow> None
                 | Inr recipient \<Rightarrow>
                     Some \<lparr>re_label = label, re_kind = from_label label, re_recipient = recipient\<rparr>)
            | _ \<Rightarrow> None))"

definition parse_recipients :: "('r, 'i) age \<Rightarrow> string \<Rightarrow> 'r recipient_entry list" where
  "parse_recipients ag contents = List.map_filter (recipient_of_line ag) (lines contents)"

definition render_recipient :: "('r, 'i) age \<Rightarrow> 'r recipient_entry \<Rightarrow> string" where
  "render_recipient ag e = re_label e @ '' '' @ ag_show ag (re_recipient e)"

definition append_recipient :: "('r, 'i) age \<Rightarrow> string \<Rightarrow> 'r recipient_entry \<Rightarrow> ('g world, unit) prog" where
  "append_recipient ag path entry =
     attempt (read_to_string path)
       (\<lambda>r. case appended RECIPIENTS_HEADER (case r of Inl _ \<Rightarrow> [] | Inr s \<Rightarrow> s) (render_recipient ag entry) of
          None \<Rightarrow> ret ()
        | Some updated \<Rightarrow> andthen (create_parent path) (\<lambda>_. fs_write (components path) updated))"

definition line_matches :: "string \<Rightarrow> string \<Rightarrow> bool" where
  "line_matches label line =
     (let trimmed = trim line in
      trimmed \<noteq> [] \<and> \<not> starts_with trimmed ''#''
      \<and> (case split_whitespace trimmed of [] \<Rightarrow> False | w # _ \<Rightarrow> w = label))"

definition remove_recipient :: "string \<Rightarrow> string \<Rightarrow> ('g world, bool) prog" where
  "remove_recipient path label =
     attempt (read_to_string path)
       (\<lambda>r. case r of
          Inl _ \<Rightarrow> ret False
        | Inr existing \<Rightarrow>
            (let kept_lines = filter (\<lambda>l. \<not> line_matches label l) (lines existing) in
             if \<not> list_ex (line_matches label) (lines existing) then ret False
             else (let updated = join [nl] kept_lines;
                       updated = (if updated = [] then updated else updated @ [nl])
                   in andthen (fs_write (components path) updated) (\<lambda>_. ret True))))"

definition generate_recovery_key ::
  "('r, 'i) age \<Rightarrow> ('i \<Rightarrow> 'r) \<Rightarrow> 'i \<Rightarrow> string \<Rightarrow> string \<Rightarrow> ('g world, 'i) prog" where
  "generate_recovery_key ag to_recipient identity path label =
     andthen (append_recipient ag path
        \<lparr>re_label = ''recovery:'' @ label, re_kind = RecoveryKey, re_recipient = to_recipient identity\<rparr>)
       (\<lambda>_. ret identity)"

section \<open>The filter\<close>

text \<open>\<open>std::str::from_utf8\<close>: the well-formed byte sequences of UTF-8.\<close>

definition byte_in :: "nat \<Rightarrow> nat \<Rightarrow> char \<Rightarrow> bool" where
  "byte_in lo hi c \<longleftrightarrow> lo \<le> of_char c \<and> of_char c \<le> hi"

fun valid_utf8 :: "string \<Rightarrow> bool" where
  "valid_utf8 [] \<longleftrightarrow> True"
| "valid_utf8 (c # cs) \<longleftrightarrow>
     (if byte_in 0 127 c then valid_utf8 cs
      else if byte_in 194 223 c then
        (case cs of d # r \<Rightarrow> byte_in 128 191 d \<and> valid_utf8 r | _ \<Rightarrow> False)
      else if byte_in 224 239 c then
        (case cs of d # e # r \<Rightarrow>
           byte_in (if of_char c = (224 :: nat) then 160 else 128) (if of_char c = (237 :: nat) then 159 else 191) d
           \<and> byte_in 128 191 e \<and> valid_utf8 r
         | _ \<Rightarrow> False)
      else if byte_in 240 244 c then
        (case cs of d # e # f # r \<Rightarrow>
           byte_in (if of_char c = (240 :: nat) then 144 else 128) (if of_char c = (244 :: nat) then 143 else 191) d
           \<and> byte_in 128 191 e \<and> byte_in 128 191 f \<and> valid_utf8 r
         | _ \<Rightarrow> False)
      else False)"

definition RECIPIENTS_FILENAME :: string where
  "RECIPIENTS_FILENAME = ''recipients''"

definition run_filter_clean :: "('r, 'i) age \<Rightarrow> string \<Rightarrow> string \<Rightarrow> ('g world, string) prog" where
  "run_filter_clean ag store_root content =
     (if \<not> valid_utf8 content then ret content
      else if fm_visibility (pr_frontmatter (Frontmatter.parse content)) \<noteq> Some Private then ret content
      else (let recipients_path = join_path store_root RECIPIENTS_FILENAME in
        andthen (map_err (\<lambda>e. ''reading recipients file '' @ recipients_path @ '': '' @ e
                   @ '' (a visibility: private file cannot be committed until this store has at least one registered ''
                   @ ''recipient -- run `wkp init` to register this device)'')
                 (read_to_string recipients_path))
          (\<lambda>contents. case encrypt ag content (map re_recipient (parse_recipients ag contents)) of
             Inl e \<Rightarrow> err (crypto_error_str e)
           | Inr ciphertext \<Rightarrow> ret ciphertext)))"

text \<open>Smudging takes the identity of the device as an argument: what \<open>device_id\<close> and \<open>ensure\<close> returned.\<close>

definition run_filter_smudge :: "('r, 'i) age \<Rightarrow> (string, 'i) result \<Rightarrow> string \<Rightarrow> string" where
  "run_filter_smudge ag identity content =
     (if \<not> starts_with content AGE_HEADER then content
      else (case identity of
          Inl _ \<Rightarrow> content
        | Inr i \<Rightarrow> (case decrypt ag content i of Inr plaintext \<Rightarrow> plaintext | Inl _ \<Rightarrow> content)))"

section \<open>The file as a line file\<close>

definition recipient_fits :: "('r, 'i) age \<Rightarrow> 'r recipient_entry \<Rightarrow> bool" where
  "recipient_fits ag e \<longleftrightarrow> one_word (re_label e) \<and> one_word (ag_show ag (re_recipient e))
     \<and> \<not> starts_with (re_label e) ''#'' \<and> ag_parse ag (ag_show ag (re_recipient e)) = Some (re_recipient e)
     \<and> re_kind e = from_label (re_label e)"

lemma recipient_reads_back:
  assumes "recipient_fits ag e"
  shows "recipient_of_line ag (render_recipient ag e) = Some e"
proof -
  have w: "one_word (re_label e)" "one_word (ag_show ag (re_recipient e))"
    using assms by (simp_all add: recipient_fits_def)
  have "tight_end (render_recipient ag e)"
    using tight_end_append [of "CHR 0x20" "ag_show ag (re_recipient e)" "re_label e"] w(2)
    by (simp add: render_recipient_def)
  moreover have "tight_start (render_recipient ag e)"
    using word_tight_start [OF w(1)] by (simp add: render_recipient_def)
  ultimately have t: "trim (render_recipient ag e) = render_recipient ag e" by (rule trim_tight [rotated])
  have h: "render_recipient ag e \<noteq> []" "\<not> starts_with (render_recipient ag e) ''#''"
    using w(1) assms starts_with_hash by (auto simp: render_recipient_def one_word_def recipient_fits_def)
  have "split_whitespace (render_recipient ag e) = [re_label e, ag_show ag (re_recipient e)]"
    unfolding render_recipient_def using split_words(1) [OF w] .
  then have "recipient_of_line ag (render_recipient ag e) = Some \<lparr>re_label = re_label e,
      re_kind = from_label (re_label e), re_recipient = re_recipient e\<rparr>"
    unfolding recipient_of_line_def t Let_def using h assms by (simp add: recipient_from_string_def recipient_fits_def)
  moreover have "re_kind e = from_label (re_label e)" using assms by (simp add: recipient_fits_def)
  ultimately show ?thesis by simp
qed

interpretation recipients_file: line_file "recipient_of_line ag" "render_recipient ag" "recipient_fits ag" RECIPIENTS_HEADER
  for ag :: "('r, 'i) age"
proof
  show "recipient_of_line ag (trim l) = recipient_of_line ag l" for l by (simp add: recipient_of_line_def)
  show "recipient_of_line ag (render_recipient ag e) = Some e \<and> nl \<notin> set (render_recipient ag e)"
    if "recipient_fits ag e" for e
    using recipient_reads_back [OF that] that word_no_line by (auto simp: render_recipient_def recipient_fits_def)
  have "list_all (\<lambda>l. starts_with (trim l) ''#'') (lines RECIPIENTS_HEADER)" by code_simp
  then have "recipient_of_line ag l = None" if "l \<in> set (lines RECIPIENTS_HEADER)" for l
    using that by (auto simp: recipient_of_line_def list_all_iff)
  then show "List.map_filter (recipient_of_line ag) (lines RECIPIENTS_HEADER) = []"
    by (auto simp: List.map_filter_def filter_empty_conv)
  show "RECIPIENTS_HEADER \<noteq> []" by (simp add: RECIPIENTS_HEADER_def unlines_def)
  show "recipient_of_line ag [] = None" by (simp add: recipient_of_line_def)
qed

definition recipients_at :: "('r, 'i) age \<Rightarrow> string \<Rightarrow> 'g world \<Rightarrow> 'r recipient_entry list" where
  "recipients_at ag path w = (case wd_files w (components path) of None \<Rightarrow> [] | Some s \<Rightarrow> parse_recipients ag s)"

text \<open>A line that reads as an entry matches exactly the entry's label.\<close>

lemma recipient_line_matches:
  "recipient_of_line ag l = Some e \<Longrightarrow> line_matches label l \<longleftrightarrow> re_label e = label"
  by (auto simp: recipient_of_line_def line_matches_def Let_def split: if_splits list.splits sum.splits)

lemma recipients_kept:
  "List.map_filter (recipient_of_line ag) (filter (\<lambda>l. \<not> line_matches label l) ls)
    = filter (\<lambda>e. re_label e \<noteq> label) (List.map_filter (recipient_of_line ag) ls)"
proof (induction ls)
  case (Cons l ls)
  then show ?case
    using recipient_line_matches [of ag l _ label]
    by (cases "recipient_of_line ag l") (auto simp: List.map_filter_def)
qed (simp add: List.map_filter_def)

lemma remove_recipient_effect:
  assumes "remove_recipient path label w = (Inr True, w')"
  shows "recipients_at ag path w' = filter (\<lambda>e. re_label e \<noteq> label) (recipients_at ag path w)"
    "w' = w\<lparr>wd_files := wd_files w'\<rparr>" "\<And>p. p \<noteq> components path \<Longrightarrow> wd_files w' p = wd_files w p"
proof -
  obtain existing where e: "wd_files w (components path) = Some existing" "wd_fault w FsRead (components path) = None"
    using assms by (auto simp: remove_recipient_def attempt_def read_to_string_def split: option.splits)
  let ?kept = "filter (\<lambda>l. \<not> line_matches label l) (lines existing)"
  let ?updated = "if join [nl] ?kept = [] then [] else join [nl] ?kept @ [nl]"
  have w: "andthen (fs_write (components path) ?updated) (\<lambda>_. ret True) w = (Inr True, w')"
    using assms e by (auto simp: remove_recipient_def attempt_def read_to_string_def Let_def split: if_splits)
  then have w': "w' = w\<lparr>wd_files := (wd_files w)(components path \<mapsto> ?updated)\<rparr>"
    by (auto simp: andthen_def attempt_def fs_write_def split: option.splits)
  have "recipients_at ag path w' = List.map_filter (recipient_of_line ag) ?kept"
    using recipients_file.rewritten_entries [OF refl, of ag] by (simp add: recipients_at_def w' parse_recipients_def)
  then show "recipients_at ag path w' = filter (\<lambda>e. re_label e \<noteq> label) (recipients_at ag path w)"
    by (simp add: recipients_kept recipients_at_def e(1) parse_recipients_def)
  show "w' = w\<lparr>wd_files := wd_files w'\<rparr>" "\<And>p. p \<noteq> components path \<Longrightarrow> wd_files w' p = wd_files w p"
    by (simp_all add: w')
qed

text \<open>
  Revoking a device. Once its line was removed, whatever private item the clean filter is given, the
  only thing it can hand to git is age's ciphertext under the remaining recipients, in their order and
  without the revoked label; if none remains, or age fails, it fails. The item itself is never handed on.
\<close>

lemma revoked_device_excluded:
  assumes "remove_recipient (join_path root RECIPIENTS_FILENAME) label w = (Inr True, w')"
    and "valid_utf8 content" "fm_visibility (pr_frontmatter (Frontmatter.parse content)) = Some Private"
  shows "case run_filter_clean ag root content w' of
      (Inr out, w2) \<Rightarrow> w2 = w'
        \<and> filter (\<lambda>e. re_label e \<noteq> label) (recipients_at ag (join_path root RECIPIENTS_FILENAME) w) \<noteq> []
        \<and> ag_encrypt ag (map re_recipient (filter (\<lambda>e. re_label e \<noteq> label)
            (recipients_at ag (join_path root RECIPIENTS_FILENAME) w))) content = Inr out
    | (Inl e, w2) \<Rightarrow> w2 = w'"
proof -
  let ?p = "join_path root RECIPIENTS_FILENAME"
  note r = remove_recipient_effect [OF assms(1)]
  show ?thesis
  proof (cases "read_to_string ?p w'")
    case (Pair res w2)
    then have w2: "w2 = w'" by (auto simp: read_to_string_def split: option.splits)
    show ?thesis
    proof (cases res)
      case (Inl e)
      then show ?thesis
        using Pair w2 assms(2,3) by (simp add: run_filter_clean_def Let_def andthen_def map_err_def attempt_def)
    next
      case (Inr contents)
      then have "wd_files w' (components ?p) = Some contents"
        using Pair by (auto simp: read_to_string_def split: option.splits)
      then have "recipients_at ag ?p w' = parse_recipients ag contents" by (simp add: recipients_at_def)
      then have "run_filter_clean ag root content w' =
          (case encrypt ag content (map re_recipient (filter (\<lambda>e. re_label e \<noteq> label) (recipients_at ag ?p w))) of
             Inl e \<Rightarrow> err (crypto_error_str e) | Inr ciphertext \<Rightarrow> ret ciphertext) w'"
        using Pair w2 assms(2,3) Inr r(1) [of ag]
        by (simp add: run_filter_clean_def Let_def andthen_def map_err_def attempt_def)
      then show ?thesis by (auto simp: encrypt_def split: sum.splits if_splits)
    qed
  qed
qed

definition tiny_age :: "(string, unit) age" where
  "tiny_age = \<lparr>ag_parse = Some, ag_show = id, ag_encrypt = (\<lambda>rs p. Inr (concat rs @ ''|'' @ p)),
     ag_decrypt = (\<lambda>_ _. Inl ''no key'')\<rparr>"

definition private_item :: string where
  "private_item = unlines [''---'', ''visibility: private'', ''---'', ''pin 1234'']"

definition two_devices :: "unit world" where
  "two_devices = empty_world\<lparr>wd_files := [components ''s/recipients'' \<mapsto>
     unlines [''# comment'', ''device:a K1'', ''device:b K2'']]\<rparr>"

lemma revoked_device_excluded_witness:
  "fst (run_filter_clean tiny_age ''s'' private_item
     (snd (remove_recipient (join_path ''s'' RECIPIENTS_FILENAME) ''device:a'' two_devices))) = Inr (''K2|'' @ private_item)"
  (is "fst (run_filter_clean _ _ _ ?w) = _")
proof -
  have "fst (remove_recipient (join_path ''s'' RECIPIENTS_FILENAME) ''device:a'' two_devices) = Inr True" by code_simp
  then have run: "remove_recipient (join_path ''s'' RECIPIENTS_FILENAME) ''device:a'' two_devices = (Inr True, ?w)"
    by (metis prod.collapse)
  have item: "valid_utf8 private_item" "fm_visibility (pr_frontmatter (Frontmatter.parse private_item)) = Some Private"
    by code_simp+
  have ok: "\<not> isl (fst (run_filter_clean tiny_age ''s'' private_item ?w))" by code_simp
  have left: "map re_recipient (filter (\<lambda>e. re_label e \<noteq> ''device:a'')
      (recipients_at tiny_age (join_path ''s'' RECIPIENTS_FILENAME) two_devices)) = [''K2'']" by code_simp
  show ?thesis
    using revoked_device_excluded [OF run item, of tiny_age] ok unfolding left
    by (auto simp: tiny_age_def split: prod.splits sum.splits)
qed

end
