(* ===== verification/CliWrite.thy ===== *)
theory CliWrite
  imports Args GitCmd Recipients Secrets
begin

text \<open>
  The commands that write the store (crates/wkp-cli/src: remember.rs, promote.rs, forget.rs):
  an agent's note into the inbox, the promotion of an inbox item, and
  the removal of an item or of a device. The rules of the secret scan, the entropy sum and the table of
  unprintable characters are arguments.
\<close>

section \<open>wkp remember\<close>

definition remember_frontmatter_block ::
  "(string \<Rightarrow> bool) \<Rightarrow> string \<Rightarrow> string \<Rightarrow> string option \<Rightarrow> string \<Rightarrow> string option \<Rightarrow> string" where
  "remember_frontmatter_block np title item_type scope actor session =
     ''---'' @ [nl] @ ''title: '' @ debug_str np title @ [nl] @ ''type: '' @ item_type @ [nl]
     @ (case scope of None \<Rightarrow> [] | Some s \<Rightarrow> ''scope: '' @ s @ [nl])
     @ ''provenance:'' @ [nl]
     @ ''  actor: '' @ debug_str np actor @ [nl]
     @ (case session of None \<Rightarrow> [] | Some s \<Rightarrow> ''  session: '' @ debug_str np s @ [nl])
     @ ''  source: conversation'' @ [nl]
     @ ''confidence: proposed'' @ [nl] @ ''---'' @ [nl]"

text \<open>The loop over the characters: the slug so far and whether it ends with a dash.\<close>

definition slug_step :: "string \<Rightarrow> string \<times> bool \<Rightarrow> string \<times> bool" where
  "slug_step ch acc =
     (case acc of (slug, last_was_dash) \<Rightarrow>
        (case ch of
           [c] \<Rightarrow>
             if is_ascii_alphanumeric c then (slug @ [to_ascii_lower c], False)
             else if \<not> last_was_dash \<and> slug \<noteq> [] then (slug @ ''-'', True) else (slug, last_was_dash)
         | _ \<Rightarrow> if \<not> last_was_dash \<and> slug \<noteq> [] then (slug @ ''-'', True) else (slug, last_was_dash)))"

definition slugify :: "string \<Rightarrow> string" where
  "slugify input =
     (let slug = trim_end_chars [CHR ''-''] (fst (fold slug_step (chars input) ([], False)))
      in if slug = [] then ''memory'' else slug)"

record 'c write_summary =
  ws_from :: string
  ws_to :: string
  ws_commit :: 'c

definition remember_summary_str :: "string write_summary \<Rightarrow> string" where
  "remember_summary_str s = ''wkp: remembered '' @ ws_to s @ '' ('' @ ws_commit s @ '')''"

definition refusal_message :: "finding list \<Rightarrow> string" where
  "refusal_message findings =
     ''refusing to write: content matches a credential pattern'' @ [nl]
     @ concat (map (\<lambda>f. ''  ['' @ fd_rule f @ ''] ...'' @ fd_redacted_excerpt f @ ''...'' @ [nl]) findings)"

record env =
  en_np :: "string \<Rightarrow> bool"
  en_entropy :: "string \<Rightarrow> rat"
  en_rules :: "rule list"
  en_urandom :: "(string, nat list) result"

definition remember_path :: "string \<Rightarrow> nat \<Rightarrow> string" where
  "remember_path title nanos = ''inbox/'' @ slugify title @ ''-'' @ show_nat nanos @ ''.md''"

definition remember_content :: "(string \<Rightarrow> bool) \<Rightarrow> remember_options \<Rightarrow> string \<Rightarrow> string" where
  "remember_content np opts body =
     remember_frontmatter_block np (case ro_title opts of Some t \<Rightarrow> t | None \<Rightarrow> ro_item_type opts)
       (ro_item_type opts) (ro_scope opts) (ro_principal opts) (ro_session opts)
     @ [nl] @ trim body @ [nl]"

definition run_remember_with_body ::
  "'g git \<Rightarrow> env \<Rightarrow> remember_options \<Rightarrow> string \<Rightarrow> ('g world, string write_summary) prog" where
  "run_remember_with_body git ev opts body =
     (case scan (en_entropy ev) (en_rules ev) body of
        None \<Rightarrow> err ''panic''
      | Some findings \<Rightarrow>
          if findings \<noteq> [] then err (refusal_message findings)
          else (let title = (case ro_title opts of Some t \<Rightarrow> t | None \<Rightarrow> ro_item_type opts) in
            andthen (query wd_nanos) (\<lambda>nanos.
            let relative_path = remember_path title nanos;
                dest = join_path (ro_path opts) relative_path in
            andthen (create_parent dest) (\<lambda>_.
            andthen (atomic_write dest (remember_content (en_np ev) opts body)) (\<lambda>_.
            andthen (device_id (en_urandom ev) (ro_path opts)) (\<lambda>dev.
            andthen (commit_to_device_branch git (ro_path opts) dev [relative_path] (''remember: '' @ title)
                (ro_principal opts) (ro_signing_key_file opts)
                \<lparr>tr_actor = Some (ro_principal opts), tr_session = ro_session opts,
                 tr_source = Some ''conversation'', tr_confidence = Some ''proposed''\<rparr>) (\<lambda>commit.
            ret \<lparr>ws_from = [], ws_to = relative_path, ws_commit = commit\<rparr>)))))))"

section \<open>wkp promote\<close>

definition trim_matches :: "char \<Rightarrow> string \<Rightarrow> string" where
  "trim_matches c s = trim_end_chars [c] (trim_start_chars [c] s)"

definition auto_line :: "string \<Rightarrow> bool \<times> string list \<Rightarrow> bool \<times> string list" where
  "auto_line line acc =
     (case acc of (in_promote_section, found) \<Rightarrow>
       (let trimmed = trim line in
        if starts_with trimmed ''['' then (trimmed = ''[promote]'', found)
        else if \<not> in_promote_section then (in_promote_section, found)
        else (case strip_prefix trimmed ''auto'' of
          None \<Rightarrow> (in_promote_section, found)
        | Some rest \<Rightarrow>
            (case strip_prefix (trim_start rest) ''='' of
               None \<Rightarrow> (in_promote_section, found)
             | Some rest \<Rightarrow>
                 (case Option.bind (strip_prefix (trim rest) ''['') (\<lambda>s. strip_suffix s '']'') of
                    None \<Rightarrow> (in_promote_section, found)
                  | Some inner \<Rightarrow>
                      (in_promote_section,
                       found @ filter (\<lambda>p. p \<noteq> [])
                         (map (\<lambda>p. trim_matches squote (trim_matches dquote (trim p)))
                           (split_char (CHR '','') inner))))))))"

definition read_promote_auto_list :: "string \<Rightarrow> ('g world, string list) prog" where
  "read_promote_auto_list store_path =
     attempt (read_to_string (join_path store_path ''.wkp/config.toml''))
       (\<lambda>r. ret (case r of Inl _ \<Rightarrow> [] | Inr contents \<Rightarrow> snd (fold auto_line (lines contents) (False, []))))"

definition child_dir :: "component list \<Rightarrow> component list \<Rightarrow> string option" where
  "child_dir base d =
     (if d \<noteq> [] \<and> butlast d = base then (case last d of Normal n \<Rightarrow> Some n | _ \<Rightarrow> None) else None)"

definition list_project_dirs :: "string \<Rightarrow> ('g world, string list) prog" where
  "list_project_dirs store_path w =
     (let projects_root = components (join_path store_path ''projects'') in
      if projects_root \<notin> set (wd_dirs w) then (Inr [], w)
      else (case wd_fault w FsList projects_root of
              Some e \<Rightarrow> (Inl e, w)
            | None \<Rightarrow> (Inr (sort (List.map_filter (child_dir projects_root) (wd_dirs w))), w)))"

definition infer_promote_destination :: "string \<Rightarrow> string \<Rightarrow> scope option \<Rightarrow> ('g world, string) prog" where
  "infer_promote_destination store_path inbox_path scope =
     (case file_name inbox_path of
        None \<Rightarrow> err (inbox_path @ '' has no file name'')
      | Some basename \<Rightarrow>
          (case scope of
             Some UserScope \<Rightarrow> ret (''user/'' @ basename)
           | Some ProjectScope \<Rightarrow>
               andthen (list_project_dirs store_path) (\<lambda>project_dirs.
                 case project_dirs of
                   [only] \<Rightarrow> ret (''projects/'' @ only @ ''/'' @ basename)
                 | [] \<Rightarrow> err (''scope: project but this store has no projects/<name>/ directory yet -- ''
                           @ ''use --to to specify the destination'')
                 | _ \<Rightarrow> err (''scope: project but this store has multiple projects ('' @ join '', '' project_dirs
                           @ '') -- use --to to specify which one''))
           | Some OrgScope \<Rightarrow> err ''scope: org has no default destination -- use --to to specify one''
           | Some (OtherScope other) \<Rightarrow> err (''unrecognized scope: '' @ other @ '' -- use --to to specify a destination'')
           | None \<Rightarrow> err ''no scope: field to infer a destination from -- use --to to specify one''))"

definition promote_summary_str :: "string write_summary \<Rightarrow> string" where
  "promote_summary_str s = ''wkp: promoted '' @ ws_from s @ '' -> '' @ ws_to s @ '' ('' @ ws_commit s @ '')''"

definition actor_trailers :: "string \<Rightarrow> trailers" where
  "actor_trailers who = \<lparr>tr_actor = Some who, tr_session = None, tr_source = None, tr_confidence = None\<rparr>"

definition run_promote :: "'g git \<Rightarrow> promote_options \<Rightarrow> ('g world, string write_summary) prog" where
  "run_promote git opts =
     andthen (check (starts_with (po_inbox_path opts) ''inbox/'')
       (po_inbox_path opts @ '' is not under inbox/ -- wkp promote only moves items out of inbox/'')) (\<lambda>_.
     andthen (read_promote_auto_list (po_path opts)) (\<lambda>allowed_auto.
     andthen (check (from_principal (po_principal opts) = Human \<or> po_principal opts \<in> set allowed_auto)
       (''principal '' @ po_principal opts @ '' is not role:human and is not in this store''  @ [squote]
        @ ''s [promote] auto list (.wkp/config.toml) -- promotion requires a human-signed commit'')) (\<lambda>_.
     let src = join_path (po_path opts) (po_inbox_path opts) in
     andthen (map_err (\<lambda>e. ''reading '' @ po_inbox_path opts @ '': '' @ e) (read_to_string src)) (\<lambda>contents.
     andthen (case po_to opts of
                Some to \<Rightarrow> ret to
              | None \<Rightarrow> infer_promote_destination (po_path opts) (po_inbox_path opts)
                          (fm_scope (pr_frontmatter (Frontmatter.parse contents)))) (\<lambda>dest_relative.
     let dest = join_path (po_path opts) dest_relative in
     andthen (query (path_exists dest)) (\<lambda>present.
     andthen (check (\<not> present) (dest_relative @ '' already exists -- refusing to overwrite'')) (\<lambda>_.
     andthen (create_parent dest) (\<lambda>_.
     andthen (atomic_write dest contents) (\<lambda>_.
     andthen (map_err (\<lambda>e. ''removing '' @ po_inbox_path opts @ '': '' @ e) (fs_remove (components src))) (\<lambda>_.
     andthen (remove_from_index git (po_path opts) (po_inbox_path opts)) (\<lambda>_.
     andthen (signed_commit git (po_path opts) [dest_relative]
       (''promote: '' @ po_inbox_path opts @ '' -> '' @ dest_relative) (po_principal opts) (po_signing_key_file opts)
       (actor_trailers (po_principal opts))) (\<lambda>commit.
     ret \<lparr>ws_from = po_inbox_path opts, ws_to = dest_relative, ws_commit = commit\<rparr>))))))))))))"

section \<open>wkp forget\<close>

definition require_human :: "string \<Rightarrow> ('w, unit) prog" where
  "require_human who =
     check (from_principal who = Human)
       (''principal '' @ who @ '' is not role:human -- wkp forget always requires a human-signed commit, with no ''
        @ ''auto-forget escape hatch (see docs/adr/0007-wkp-forget-scope.md)'')"

definition reject_path_escape :: "string \<Rightarrow> ('w, unit) prog" where
  "reject_path_escape item_path =
     check (\<not> (starts_with item_path ''/'' \<or> ParentDir \<in> set (components item_path)))
       (item_path @ '' is not a store-relative path -- wkp forget only removes paths inside the store'')"

definition run_forget_item :: "'g git \<Rightarrow> forget_options \<Rightarrow> string \<Rightarrow> ('g world, string write_summary) prog" where
  "run_forget_item git opts item_path =
     andthen (require_human (fo_principal opts)) (\<lambda>_.
     andthen (reject_path_escape item_path) (\<lambda>_.
     andthen (list_tracked_files git (fo_path opts)) (\<lambda>tracked.
     andthen (check (components item_path \<in> components ` set tracked) (item_path @ '' is not tracked in this store'')) (\<lambda>_.
     andthen (map_err (\<lambda>e. ''removing '' @ item_path @ '': '' @ e) (fs_remove (components (join_path (fo_path opts) item_path)))) (\<lambda>_.
     andthen (signed_removal_commit git (fo_path opts) [item_path] (''forget: '' @ item_path) (fo_principal opts)
       (fo_signing_key_file opts) (actor_trailers (fo_principal opts))) (\<lambda>commit.
     ret \<lparr>ws_from = item_path, ws_to = [], ws_commit = commit\<rparr>))))))"

definition forget_item_summary_str :: "string write_summary \<Rightarrow> string" where
  "forget_item_summary_str s = ''wkp: forgot '' @ ws_from s @ '' ('' @ ws_commit s @ '')''"

record forget_device_summary =
  fd_device_label :: string
  fd_reencrypted :: "string list"
  fd_commit :: string

definition forget_device_summary_str :: "forget_device_summary \<Rightarrow> string" where
  "forget_device_summary_str s =
     ''wkp: revoked '' @ fd_device_label s @ '', re-encrypted '' @ show_nat (length (fd_reencrypted s))
     @ '' private item(s) ('' @ fd_commit s @ '')''"

text \<open>\<open>Path::extension\<close>: what follows the last full stop of the file name, unless that starts the name.\<close>

definition extension :: "string \<Rightarrow> string option" where
  "extension p =
     (case file_name p of
        None \<Rightarrow> None
      | Some n \<Rightarrow>
          (let parts = split_char (CHR ''.'') n in
           if length parts \<le> 1 \<or> (length parts = 2 \<and> hd parts = []) then None else Some (last parts)))"

text \<open>The tracked items that are private in the working tree; a file that cannot be read is skipped.\<close>

definition private_path :: "string \<Rightarrow> string \<Rightarrow> ('g world, string option) prog" where
  "private_path store_path relative =
     (if extension relative \<noteq> Some ''md'' then ret None
      else attempt (read_to_string (join_path store_path relative))
        (\<lambda>r. case r of
           Inl _ \<Rightarrow> ret None
         | Inr contents \<Rightarrow>
             ret (if fm_visibility (pr_frontmatter (Frontmatter.parse contents)) = Some Private
                  then Some relative else None)))"

definition run_forget_device ::
  "'g git \<Rightarrow> ('r, 'i) age \<Rightarrow> forget_options \<Rightarrow> string \<Rightarrow> ('g world, forget_device_summary) prog" where
  "run_forget_device git ag opts dev =
     andthen (require_human (fo_principal opts)) (\<lambda>_.
     let recipients_path = join_path (fo_path opts) RECIPIENTS_FILENAME;
         label = ''device:'' @ dev in
     andthen (map_err (\<lambda>e. ''reading recipients file: '' @ e) (read_to_string recipients_path)) (\<lambda>existing.
     let entries = parse_recipients ag existing in
     andthen (check (label \<in> re_label ` set entries) (label @ '' is not a registered recipient in this store'')) (\<lambda>_.
     andthen (check (filter (\<lambda>e. re_label e \<noteq> label) entries \<noteq> [])
       (''revoking '' @ label @ '' would leave this store with zero registered recipients -- register another ''
        @ ''device or recovery key before revoking this one'')) (\<lambda>_.
     andthen (list_tracked_files git (fo_path opts)) (\<lambda>tracked.
     andthen (collect (private_path (fo_path opts)) tracked) (\<lambda>private_paths.
     andthen (remove_recipient recipients_path label) (\<lambda>removed.
     andthen (check removed (label @ '' disappeared from the recipients file mid-operation -- concurrent modification?'')) (\<lambda>_.
     andthen (signed_commit git (fo_path opts) (RECIPIENTS_FILENAME # private_paths)
       (''forget --device '' @ dev @ '': revoke and re-encrypt '' @ show_nat (length private_paths) @ '' item(s)'')
       (fo_principal opts) (fo_signing_key_file opts) (actor_trailers (fo_principal opts))) (\<lambda>commit.
     ret \<lparr>fd_device_label = label, fd_reencrypted = private_paths, fd_commit = commit\<rparr>)))))))))"

section \<open>What an atomic write leaves\<close>

text \<open>The temporary file has another name than the destination.\<close>

lemma tmp_differs: "with_file_name dest (tmp_name dest w) \<noteq> components dest"
proof (cases "file_name dest")
  case (Some n)
  then have "last (components dest) = Normal n" by (auto simp: file_name_def split: if_splits component.splits)
  moreover have "length (tmp_name dest w) > length n" by (simp add: tmp_name_def Some)
  ultimately show ?thesis by (auto simp: with_file_name_def Some dest!: arg_cong [of _ _ last])
qed (simp add: with_file_name_def)

lemma atomic_write_effect:
  assumes "atomic_write dest content w = (r, w')"
  shows "wd_files w' (components dest) = (case r of Inr _ \<Rightarrow> Some content | Inl _ \<Rightarrow> wd_files w (components dest))"
    and "q \<noteq> components dest \<Longrightarrow> q \<noteq> with_file_name dest (tmp_name dest w) \<Longrightarrow> wd_files w' q = wd_files w q"
proof -
  note defs = atomic_write_def Let_def attempt_def fs_write_def fs_rename_def fs_remove_def
  show "wd_files w' (components dest) = (case r of Inr _ \<Rightarrow> Some content | Inl _ \<Rightarrow> wd_files w (components dest))"
    using assms tmp_differs [of dest w] by (auto simp: defs split: option.splits)
  show "q \<noteq> components dest \<Longrightarrow> q \<noteq> with_file_name dest (tmp_name dest w) \<Longrightarrow> wd_files w' q = wd_files w q"
    using assms by (auto simp: defs split: option.splits)
qed

lemma atomic_write_replaces:
  assumes "atomic_write dest content w = (Inr (), w')"
  shows "wd_files w' = (wd_files w)(with_file_name dest (tmp_name dest w) := None, components dest \<mapsto> content)"
    "wd_fault w' = wd_fault w"
  using assms tmp_differs [of dest w] by (auto simp: atomic_write_def Let_def attempt_def fs_write_def fs_rename_def fs_remove_def
      split: option.splits prod.splits sum.splits)

end
