(* ===== verification/RememberProps.thy ===== *)
theory RememberProps
  imports CliWrite Tier
begin

text \<open>
  What an agent's note says of itself: the header that \<open>wkp remember\<close> writes reads back as proposed, for
  every title, actor and session; and the scope that closes the header early.
\<close>

section \<open>Debug formatting stays on one line\<close>

lemma valid_utf8_head: "valid_utf8 (c # cs) \<Longrightarrow> \<not> is_continuation c"
  by (auto simp: byte_in_def is_continuation_def split: if_splits)

lemma valid_utf8_take:
  "valid_utf8 s \<Longrightarrow> takeWhile is_continuation s = []" "valid_utf8 s \<Longrightarrow> dropWhile is_continuation s = s"
  using valid_utf8_head by (cases s; fastforce)+

lemma byte_in_continuation: "byte_in lo hi c \<Longrightarrow> 128 \<le> lo \<Longrightarrow> hi \<le> 191 \<Longrightarrow> is_continuation c"
  by (auto simp: byte_in_def is_continuation_def)

text \<open>The characters of a valid string: an ASCII byte, or bytes outside ASCII.\<close>

definition one_char :: "string \<Rightarrow> bool" where
  "one_char ch \<longleftrightarrow> ch \<noteq> [] \<and> (length ch = 1 \<or> list_all (\<lambda>c. \<not> is_ascii c) ch)"

lemma byte_in_high: "byte_in lo hi c \<Longrightarrow> 128 \<le> lo \<Longrightarrow> \<not> is_ascii c"
  by (simp add: byte_in_def is_ascii_def)

lemma chars_one_char: "valid_utf8 s \<Longrightarrow> list_all one_char (chars s)"
proof (induction s rule: valid_utf8.induct)
  case (2 c cs)
  note prems = "2.prems" and IH = "2.IH"
  show ?case
  proof (cases "byte_in 0 127 c")
    case True
    then have "valid_utf8 cs" using prems by simp
    then show ?thesis using IH(1) [OF True] valid_utf8_take [of cs] by (simp add: one_char_def)
  next
    case n1: False
    show ?thesis
    proof (cases "byte_in 194 223 c")
      case True
      then obtain d r where cs: "cs = d # r" "byte_in 128 191 d" "valid_utf8 r"
        using prems n1 by (simp split: list.splits)
      then show ?thesis
        using IH(2) [OF n1 True cs(1)] valid_utf8_take [of r] byte_in_continuation [OF cs(2)] byte_in_high [OF cs(2)]
          byte_in_high [OF True] by (simp add: one_char_def)
    next
      case n2: False
      show ?thesis
      proof (cases "byte_in 224 239 c")
        case True
        then obtain d e r where cs: "cs = d # e # r" "byte_in 128 191 e" "valid_utf8 r"
            "byte_in (if of_char c = (224 :: nat) then 160 else 128) (if of_char c = (237 :: nat) then 159 else 191) d"
          using prems n1 n2 by (simp split: list.splits)
        have "is_continuation d" using byte_in_continuation [OF cs(4)] by simp
        then show ?thesis
          using IH(3) [OF n1 n2 True cs(1) refl] cs valid_utf8_take [of r] byte_in_continuation [OF cs(2)] byte_in_high [OF cs(2)]
            byte_in_high [OF True] byte_in_high [OF cs(4)] by (simp add: one_char_def)
      next
        case n3: False
        then have True: "byte_in 240 244 c" using prems n1 n2 by (simp split: if_splits)
        then obtain d e f r where cs: "cs = d # e # f # r" "byte_in 128 191 e" "valid_utf8 r" "byte_in 128 191 f"
            "byte_in (if of_char c = (240 :: nat) then 144 else 128) (if of_char c = (244 :: nat) then 143 else 191) d"
          using prems n1 n2 n3 by (simp split: list.splits)
        have "is_continuation d" using byte_in_continuation [OF cs(5)] by simp
        then show ?thesis
          using IH(4) [OF n1 n2 n3 True cs(1) refl refl] cs valid_utf8_take [of r] byte_in_continuation [OF cs(2)]
            byte_in_high [OF cs(2)] byte_in_continuation [OF cs(4)] byte_in_high [OF cs(4)]
            byte_in_high [OF True] byte_in_high [OF cs(5)] by (simp add: one_char_def)
      qed
    qed
  qed
qed simp

lemmas show_base_16_printable = show_base_printable [of 16, simplified]

lemma debug_char_line: "one_char ch \<Longrightarrow> nl \<notin> set (debug_char np ch) \<and> cr \<notin> set (debug_char np ch)"
proof -
  assume ch: "one_char ch"
  have "nl \<notin> set ch \<and> cr \<notin> set ch" if "ch \<noteq> [nl]" "ch \<noteq> [cr]"
    using ch that unfolding one_char_def by (cases ch) (auto simp: is_ascii_def list_all_iff)
  then show ?thesis using show_base_16_printable [of "code_point ch"] by (auto simp: debug_char_def Let_def)
qed

lemma debug_value: "valid_utf8 s \<Longrightarrow> value_ok (debug_str np s)"
proof -
  assume "valid_utf8 s"
  then have "list_all one_char (chars s)" by (rule chars_one_char)
  then have "nl \<notin> set (concat (map (debug_char np) (chars s))) \<and> cr \<notin> set (concat (map (debug_char np) (chars s)))"
    using debug_char_line by (fastforce simp: list_all_iff)
  then show ?thesis
    using tight_bracketed [of dquote dquote "concat (map (debug_char np) (chars s))"]
    by (simp add: debug_str_def value_ok_def ascii_facts)
qed

section \<open>The header of a note\<close>

definition provenance_children :: "(string \<Rightarrow> bool) \<Rightarrow> string \<Rightarrow> string option \<Rightarrow> string list" where
  "provenance_children np actor session =
     opt_line ''  actor'' (Some (debug_str np actor)) @ opt_line ''  session'' (map_option (debug_str np) session)
     @ opt_line ''  source'' (Some ''conversation'')"

definition remember_lines :: "(string \<Rightarrow> bool) \<Rightarrow> string \<Rightarrow> string \<Rightarrow> string option \<Rightarrow> string \<Rightarrow> string option \<Rightarrow> string list" where
  "remember_lines np title item_type scope actor session =
     opt_line ''title'' (Some (debug_str np title)) @ opt_line ''type'' (Some item_type) @ opt_line ''scope'' scope
     @ [''provenance:''] @ provenance_children np actor session @ opt_line ''confidence'' (Some ''proposed'')"

lemma remember_block_lines:
  "remember_frontmatter_block np title item_type scope actor session
     = ''---'' @ [nl] @ unlines (remember_lines np title item_type scope actor session) @ ''---'' @ [nl]"
  by (simp add: remember_frontmatter_block_def remember_lines_def provenance_children_def opt_line_def split: option.split)

lemma parse_block_field:
  assumes "\<forall>c \<in> set ch. 0 < line_indent c" "\<forall>l \<in> set ls. line_indent l = 0"
    and "split_key_value t = Some (key, [])" "apply_block_value fm key ch = (fm', ws')"
  shows "parse_lines (\<lparr>line_indent = 0, line_text = t\<rparr> # ch @ ls) fm ws = parse_lines ls fm' (ws @ ws')"
proof -
  have "takeWhile (\<lambda>c. 0 < line_indent c) ls = []" "dropWhile (\<lambda>c. 0 < line_indent c) ls = ls"
    using assms(2) by (cases ls; simp)+
  then have "takeWhile (\<lambda>c. 0 < line_indent c) (ch @ ls) = ch" "dropWhile (\<lambda>c. 0 < line_indent c) (ch @ ls) = ls"
    using assms(1) by (simp_all add: takeWhile_append dropWhile_append)
  then show ?thesis using assms(3,4) by simp
qed

lemma fixed_values: "value_ok ''conversation''" "value_ok ''proposed''" "unquote ''conversation'' = ''conversation''"
    "unquote ''proposed'' = ''proposed''"
  by code_simp+

text \<open>The fields every note opens with, and its confidence, read back.\<close>

definition opening_fields :: "string \<Rightarrow> string \<Rightarrow> string option \<Rightarrow> line list" where
  "opening_fields title item_type scope =
     Frontmatter.fields 0 ''title'' (Some title) @ Frontmatter.fields 0 ''type'' (Some item_type) @ Frontmatter.fields 0 ''scope'' scope"

lemma parse_opening:
  assumes "value_ok title" "value_ok item_type" "pred_option value_ok scope"
  shows "\<exists>fm. fm_provenance fm = default_provenance \<and> fm_updated fm = None
    \<and> (\<forall>ls. parse_lines (opening_fields title item_type scope @ ls) default_frontmatter [] = parse_lines ls fm [])"
proof -
  let ?fm1 = "default_frontmatter\<lparr>fm_title := opt_string (unquote title)\<rparr>"
  let ?fm2 = "?fm1\<lparr>fm_item_type := map_option parse_item_type (opt_string (unquote item_type))\<rparr>"
  let ?fm3 = "case scope of None \<Rightarrow> ?fm2 | Some v \<Rightarrow> ?fm2\<lparr>fm_scope := map_option parse_scope (opt_string (unquote v))\<rparr>"
  have title: "parse_lines (Frontmatter.fields 0 ''title'' (Some title) @ ls) default_frontmatter [] = parse_lines ls ?fm1 []" for ls
    using parse_scalar_field [OF keys_ok(1), where shown = "Some title" and fm = default_frontmatter and ws = "[]"
        and f = "\<lambda>v. default_frontmatter\<lparr>fm_title := opt_string (unquote v)\<rparr>"] assms(1)
    by (simp add: apply_scalar_value_def Let_def)
  have itype: "parse_lines (Frontmatter.fields 0 ''type'' (Some item_type) @ ls) ?fm1 [] = parse_lines ls ?fm2 []" for ls
    using parse_scalar_field [OF keys_ok(2), where shown = "Some item_type" and fm = ?fm1 and ws = "[]"
        and f = "\<lambda>v. ?fm1\<lparr>fm_item_type := map_option parse_item_type (opt_string (unquote v))\<rparr>"] assms(2)
    by (simp add: apply_scalar_value_def Let_def)
  have scope: "parse_lines (Frontmatter.fields 0 ''scope'' scope @ ls) ?fm2 [] = parse_lines ls ?fm3 []" for ls
    using parse_scalar_field [OF keys_ok(3), where shown = scope and fm = ?fm2 and ws = "[]"
        and f = "\<lambda>v. ?fm2\<lparr>fm_scope := map_option parse_scope (opt_string (unquote v))\<rparr>"] assms(3)
    by (cases scope) (simp_all add: apply_scalar_value_def Let_def Frontmatter.fields_def)
  have "parse_lines (opening_fields title item_type scope @ ls) default_frontmatter [] = parse_lines ls ?fm3 []" for ls
    by (simp only: opening_fields_def append_assoc title itype scope)
  moreover have "fm_provenance ?fm3 = default_provenance" "fm_updated ?fm3 = None"
    by (simp_all add: default_frontmatter_def split: option.split)
  ultimately show ?thesis by blast
qed

lemma parse_proposed:
  "parse_lines (Frontmatter.fields 0 ''confidence'' (Some ''proposed'') @ ls) fm [] = parse_lines ls (fm\<lparr>fm_confidence := Some Proposed\<rparr>) []"
  using parse_scalar_field [OF keys_ok(10), where shown = "Some ''proposed''" and fm = fm and ws = "[]" and ls = ls
      and f = "\<lambda>v. fm\<lparr>fm_confidence := map_option parse_confidence (opt_string (unquote v))\<rparr>"] fixed_values
  by (simp add: apply_scalar_value_def Let_def opt_string_def is_null_def parse_confidence_def)

lemma remember_parse_lines:
  assumes "valid_utf8 title" "valid_utf8 actor" "pred_option valid_utf8 session" "value_ok item_type" "pred_option value_ok scope"
  shows "\<exists>fm. parse_lines (List.map_filter logical_line (remember_lines np title item_type scope actor session))
      default_frontmatter [] = (fm, []) \<and> fm_confidence fm = Some Proposed
      \<and> prov_source (fm_provenance fm) = Some Conversation"
proof -
  have v: "value_ok (debug_str np title)" "value_ok (debug_str np actor)" "pred_option value_ok (map_option (debug_str np) session)"
    using assms debug_value by (auto simp: pred_option_def split: option.splits)
  have key: "split_key_value ''provenance:'' = Some (''provenance'', [])" "logical_line ''provenance:'' = Some \<lparr>line_indent = 0, line_text = ''provenance:''\<rparr>"
    by code_simp+
  let ?ch = "Frontmatter.fields 2 ''actor'' (Some (debug_str np actor)) @ Frontmatter.fields 2 ''session'' (map_option (debug_str np) session)
    @ Frontmatter.fields 2 ''source'' (Some ''conversation'')"
  have "List.map_filter logical_line (provenance_children np actor session) = ?ch"
    unfolding provenance_children_def map_filter_append
    using logical_opt_lines(2) [OF keys_ok(7), of "Some (debug_str np actor)"]
      logical_opt_lines(2) [OF keys_ok(8), of "map_option (debug_str np) session"]
      logical_opt_lines(2) [OF keys_ok(9), of "Some ''conversation''"] v fixed_values by simp
  then have lines: "List.map_filter logical_line (remember_lines np title item_type scope actor session)
      = Frontmatter.fields 0 ''title'' (Some (debug_str np title)) @ Frontmatter.fields 0 ''type'' (Some item_type) @ Frontmatter.fields 0 ''scope'' scope
        @ \<lparr>line_indent = 0, line_text = ''provenance:''\<rparr> # ?ch @ Frontmatter.fields 0 ''confidence'' (Some ''proposed'')"
    unfolding remember_lines_def map_filter_append
    using logical_opt_lines(1) [OF keys_ok(1), of "Some (debug_str np title)"] logical_opt_lines(1) [OF keys_ok(2), of "Some item_type"]
      logical_opt_lines(1) [OF keys_ok(3), of scope] logical_opt_lines(1) [OF keys_ok(10), of "Some ''proposed''"]
      v assms key(2) fixed_values by (simp add: map_filter_simps)
  obtain p where p: "apply_provenance_children default_provenance ?ch = (p, [])" "prov_source p = Some Conversation"
    using apply_children_field [OF keys_ok(7), of "Some (debug_str np actor)"] apply_children_field [OF keys_ok(9), of "Some ''conversation''"]
      apply_children_field [OF keys_ok(8), of "map_option (debug_str np) session"] v fixed_values
    by (auto simp: apply_children_append Let_def apply_provenance_field_def opt_string_def is_null_def parse_source_kind_def
        pred_option_def split: option.splits)
  have block: "apply_block_value fm ''provenance'' ?ch = (fm\<lparr>fm_provenance := p\<rparr>, [])"
    if "fm_provenance fm = default_provenance" for fm
    using p(1) that by (simp add: apply_block_value_def)
  have kids: "\<forall>c \<in> set ?ch. 0 < line_indent c" by (auto simp: Frontmatter.fields_def split: option.splits)
  have top: "\<forall>l \<in> set (Frontmatter.fields 0 ''confidence'' (Some ''proposed'')). line_indent l = 0"
    by (simp add: Frontmatter.fields_def)
  obtain fm where fm: "fm_provenance fm = default_provenance"
    "\<And>ls. parse_lines (opening_fields (debug_str np title) item_type scope @ ls) default_frontmatter [] = parse_lines ls fm []"
    using parse_opening [OF v(1) assms(4,5)] by blast
  have conf: "parse_lines (Frontmatter.fields 0 ''confidence'' (Some ''proposed'')) fm [] = (fm\<lparr>fm_confidence := Some Proposed\<rparr>, [])" for fm
    using parse_proposed [of "[]" fm] by simp
  have front: "parse_lines (List.map_filter logical_line (remember_lines np title item_type scope actor session)) default_frontmatter []
      = parse_lines (\<lparr>line_indent = 0, line_text = ''provenance:''\<rparr> # ?ch @ Frontmatter.fields 0 ''confidence'' (Some ''proposed'')) fm []"
    using fm(2) [of "\<lparr>line_indent = 0, line_text = ''provenance:''\<rparr> # ?ch @ Frontmatter.fields 0 ''confidence'' (Some ''proposed'')"]
    by (simp only: lines opening_fields_def append_assoc)
  show ?thesis
    unfolding front parse_block_field [OF kids top key(1) block [OF fm(1)]] conf append_Nil using p(2) by simp
qed


definition sample_note :: remember_options where
  "sample_note = \<lparr>ro_path = ''s'', ro_item_type = ''knowledge'', ro_scope = Some ''user'',
     ro_title = Some (''a '' @ [dquote] @ nl # ''---'' @ [nl]), ro_principal = ''agent:x'', ro_signing_key_file = ''k'', ro_session = None\<rparr>"


text \<open>
  The type and the scope are written as they are given. A scope that holds a line feed and the closing
  delimiter ends the header early: the note then claims the confidence its writer chose, and the lines
  that were to say where it comes from are part of its body.
\<close>

lemma remember_scope_injection:
  "pr_frontmatter (Frontmatter.parse (remember_content np
      \<lparr>ro_path = store, ro_item_type = ''knowledge'',
       ro_scope = Some (''user'' @ [nl] @ ''confidence: stated'' @ [nl] @ ''---''), ro_title = None,
       ro_principal = who, ro_signing_key_file = key, ro_session = session\<rparr> body))
    = default_frontmatter\<lparr>fm_title := Some ''knowledge'', fm_item_type := Some Knowledge, fm_scope := Some UserScope,
        fm_confidence := Some Stated\<rparr>"
proof -
  let ?ls = "[''title: '' @ [dquote] @ ''knowledge'' @ [dquote], ''type: knowledge'', ''scope: user'', ''confidence: stated'']"
  have plain: "debug_str np ''knowledge'' = [dquote] @ ''knowledge'' @ [dquote]"
    by (rule debug_str_plain) (rule debug_plain_ascii, simp add: plain_ascii_def)
  have "list_all clean_line ?ls" by code_simp
  then have clean: "clean_line l" if "l \<in> set ?ls" for l using that unfolding list_all_iff by blast
  have run: "parse_lines (List.map_filter logical_line ?ls) default_frontmatter []
      = (default_frontmatter\<lparr>fm_title := Some ''knowledge'', fm_item_type := Some Knowledge, fm_scope := Some UserScope,
        fm_confidence := Some Stated\<rparr>, [])" by code_simp
  obtain rest where "remember_content np
      \<lparr>ro_path = store, ro_item_type = ''knowledge'',
       ro_scope = Some (''user'' @ [nl] @ ''confidence: stated'' @ [nl] @ ''---''), ro_title = None,
       ro_principal = who, ro_signing_key_file = key, ro_session = session\<rparr> body
     = ''---'' @ [nl] @ unlines ?ls @ ''---'' @ [nl] @ rest"
    by (simp add: remember_content_def remember_frontmatter_block_def plain)
  then show ?thesis using parse_delimited [OF clean run, of rest] by simp
qed

end
