(* ===== verification/WriteProps.thy ===== *)
theory WriteProps
  imports CliWrite
begin

text \<open>
  What the writing commands may do: no promotion and no removal without authority, what a promotion moves,
  and the branch a commit leaves checked out. Git is any function; where a property relies on what git
  documents, that is a named hypothesis.
\<close>

section \<open>Authority\<close>

text \<open>The principals a store lets promote, as the command reads them.\<close>

definition auto_principals :: "string \<Rightarrow> 'g world \<Rightarrow> string list" where
  "auto_principals store w = (case fst (read_promote_auto_list store w) of Inr ps \<Rightarrow> ps | Inl _ \<Rightarrow> [])"

lemma read_to_string_frame: "read_to_string p w = (r, w') \<Longrightarrow> w' = w"
  by (auto simp: read_to_string_def split: option.splits)

lemma read_promote_auto_list_eq: "read_promote_auto_list store w = (Inr (auto_principals store w), w)"
proof -
  obtain r where "read_to_string (join_path store ''.wkp/config.toml'') w = (r, w)"
    by (metis read_to_string_frame surj_pair)
  then show ?thesis by (simp add: auto_principals_def read_promote_auto_list_def attempt_def)
qed

lemma andthen_auto_list: "andthen (read_promote_auto_list store) f w = f (auto_principals store w) w"
  by (rule andthen_Inr) (rule read_promote_auto_list_eq)

text \<open>
  C13. Nothing is written without authority. A promotion by a principal that is neither human nor in the
  list the store's own configuration gives, or of a path outside the inbox, and a removal of an item or of
  a device by a principal that is not human, fail before git is run and before any file is touched, whatever
  git is and whatever the store holds.
\<close>

theorem no_write_without_authority:
  assumes "from_principal (po_principal opts) \<noteq> Human \<and> po_principal opts \<notin> set (auto_principals (po_path opts) w)
      \<or> \<not> starts_with (po_inbox_path opts) ''inbox/''"
    and "from_principal (fo_principal fopts) \<noteq> Human"
  shows "(\<exists>e. run_promote git opts w = (Inl e, w))
    \<and> (\<exists>e. run_forget_item git fopts item w = (Inl e, w))
    \<and> (\<exists>e. run_forget_device git ag fopts dev w = (Inl e, w))"
proof -
  have "\<exists>e. run_promote git opts w = (Inl e, w)"
  proof (cases "starts_with (po_inbox_path opts) ''inbox/''")
    case True
    then show ?thesis
      using assms(1) by (simp add: run_promote_def andthen_auto_list)
  qed (simp add: run_promote_def)
  moreover have "\<exists>e. run_forget_item git fopts item w = (Inl e, w)"
    using assms(2) by (simp add: run_forget_item_def require_human_def)
  moreover have "\<exists>e. run_forget_device git ag fopts dev w = (Inl e, w)"
    using assms(2) by (simp add: run_forget_device_def require_human_def)
  ultimately show ?thesis by blast
qed

definition agent_promote :: promote_options where
  "agent_promote = \<lparr>po_path = ''s'', po_inbox_path = ''inbox/a.md'', po_to = Some ''user/a.md'', po_principal = ''agent:x'',
     po_signing_key_file = ''k''\<rparr>"

definition agent_forget :: forget_options where
  "agent_forget = \<lparr>fo_path = ''s'', fo_target = ForgetItem ''user/a.md'', fo_principal = ''agent:x'', fo_signing_key_file = ''k''\<rparr>"

theorem no_write_without_authority_witness:
  "\<exists>e. run_promote (\<lambda>_ _ w. (GitExit True [] [], w)) agent_promote (empty_world :: unit world) = (Inl e, empty_world)"
proof -
  have "auto_principals (po_path agent_promote) (empty_world :: unit world) = []"
    by (simp add: auto_principals_def read_promote_auto_list_def attempt_def read_to_string_def empty_world_def)
  moreover have "from_principal (po_principal agent_promote) \<noteq> Human" by code_simp
  ultimately have h: "from_principal (po_principal agent_promote) \<noteq> Human
      \<and> po_principal agent_promote \<notin> set (auto_principals (po_path agent_promote) (empty_world :: unit world))
      \<or> \<not> starts_with (po_inbox_path agent_promote) ''inbox/''" by simp
  have "from_principal (fo_principal agent_forget) \<noteq> Human" by code_simp
  from no_write_without_authority [OF h this] show ?thesis by blast
qed

section \<open>What a promotion moves\<close>

text \<open>Git's plumbing commands do not touch the working tree (the checkout and merge commands do).\<close>

definition plumbing_leaves_files :: "'g git \<Rightarrow> bool" where
  "plumbing_leaves_files git \<longleftrightarrow>
     (\<forall>dir args stdin w. hd args \<notin> {''checkout'', ''merge'', ''filter-repo''}
        \<longrightarrow> wd_files (snd (git (''-C'' # dir # args) stdin w)) = wd_files w)"

lemma plumbing_keeps:
  assumes "plumbing_leaves_files git" "hd args \<notin> {''checkout'', ''merge'', ''filter-repo''}"
  shows "keeps (\<lambda>w. wd_files w = fs) (run_git git dir args)" "keeps (\<lambda>w. wd_files w = fs) (run_git_stdout git dir args)"
    "keeps (\<lambda>w. wd_files w = fs) (run_git_with_stdin git dir args stdin)"
proof -
  have g: "wd_files (snd (git (''-C'' # dir # args) stdin w)) = wd_files w" for stdin w
    using assms unfolding plumbing_leaves_files_def by blast
  have "wd_files w' = wd_files w" if "spawn_git git dir args stdin w = (out, w')" for stdin w out w'
    using g [of stdin w] that by (auto simp: spawn_git_def split: prod.splits)
  then show "keeps (\<lambda>w. wd_files w = fs) (run_git git dir args)" "keeps (\<lambda>w. wd_files w = fs) (run_git_stdout git dir args)"
    "keeps (\<lambda>w. wd_files w = fs) (run_git_with_stdin git dir args stdin)"
    unfolding keeps_def run_git_def run_git_stdout_def run_git_with_stdin_def
    by (auto split: prod.splits git_outcome.splits)
qed

lemma signed_commit_keeps_files:
  assumes "plumbing_leaves_files git"
  shows "keeps (\<lambda>w. wd_files w = fs) (signed_commit git dir paths subject who key p)"
  unfolding signed_commit_def stage_blob_def commit_current_index_def format_message_def Let_def
  by (intro keeps_rules plumbing_keeps [OF assms]; simp add: commit_tree_args_def)

lemma create_parent_frame: "create_parent p w = (r, w') \<Longrightarrow> wd_files w' = wd_files w \<and> wd_nanos w' = wd_nanos w \<and> wd_pid w' = wd_pid w"
  by (auto simp: create_parent_def create_dir_all_def split: option.splits)

lemma map_err_ok: "map_err g m w = (Inr a, w') \<Longrightarrow> m w = (Inr a, w')"
  by (auto simp: map_err_def attempt_def split: prod.splits sum.splits)

lemma check_ok: "check b e w = (Inr u, w') \<Longrightarrow> b \<and> w' = w"
  by (simp add: check_def split: if_splits)

lemma infer_frame: "infer_promote_destination store p sc w = (r, w') \<Longrightarrow> w' = w"
  by (auto simp: infer_promote_destination_def andthen_def attempt_def list_project_dirs_def Let_def
      split: option.splits scope.splits list.splits if_splits sum.splits)

lemma destination_frame:
  "(case to of None \<Rightarrow> infer_promote_destination store p sc | Some t \<Rightarrow> ret t) w = (r, w') \<Longrightarrow> w' = w"
  by (auto dest: infer_frame split: option.splits)


text \<open>A git whose every command succeeds and prints nothing.\<close>

definition quiet_git :: "'g git" where
  "quiet_git args stdin w = (GitExit True [] [], w)"

definition human_promote :: promote_options where
  "human_promote = agent_promote\<lparr>po_principal := ''human:ann''\<rparr>"

definition note_world :: "unit world" where
  "note_world = empty_world\<lparr>wd_files := [components ''s/inbox/a.md'' \<mapsto> ''note'']\<rparr>"


end
