(* ===== verification/DeviceBranch.thy ===== *)
theory DeviceBranch
  imports GitCmd
begin

text \<open>
  The branch of a device (crates/wkp-git/src/sync.rs): committing to it leaves the caller where the caller
  was. What the code relies on of git, about the place HEAD is at, is the predicate \<open>git_head_laws\<close>.
\<close>

text \<open>
  \<open>head\<close> is what HEAD is at: a branch, or a commit. Git's documentation says: \<open>symbolic-ref --short -q HEAD\<close>
  prints the branch, and fails when HEAD is detached; \<open>rev-parse HEAD\<close> prints the commit; \<open>checkout\<close> of a
  branch or a commit moves HEAD there or fails and leaves it; \<open>rev-parse\<close>, \<open>branch <name>\<close> and the query form
  of \<open>symbolic-ref\<close> do not move it. A git that can be run at all is assumed.
\<close>

definition queries_head :: "string list \<Rightarrow> bool" where
  "queries_head args \<longleftrightarrow> args \<noteq> [] \<and> (hd args \<in> {''rev-parse'', ''branch''} \<or> args = [''symbolic-ref'', ''--short'', ''-q'', ''HEAD''])"

definition git_head_laws :: "'g git \<Rightarrow> ('g world \<Rightarrow> previous_ref) \<Rightarrow> bool" where
  "git_head_laws git head \<longleftrightarrow>
     (\<forall>w l. head (w\<lparr>wd_log := l\<rparr>) = head w)
     \<and> (\<forall>dir args stdin w. queries_head args \<longrightarrow> head (snd (git (''-C'' # dir # args) stdin w)) = head w)
     \<and> (\<forall>args stdin w e. fst (git args stdin w) \<noteq> GitSpawnError e)
     \<and> (\<forall>dir w ok out stderr. fst (git [''-C'', dir, ''symbolic-ref'', ''--short'', ''-q'', ''HEAD''] [] w) = GitExit ok out stderr \<longrightarrow>
          (case head w of Branch b \<Rightarrow> ok \<and> trim out = b \<and> b \<noteq> [] | DetachedAt sha \<Rightarrow> \<not> ok))
     \<and> (\<forall>dir w out stderr sha. fst (git [''-C'', dir, ''rev-parse'', ''HEAD''] [] w) = GitExit True out stderr \<longrightarrow>
          head w = DetachedAt sha \<longrightarrow> trim out = sha)
     \<and> (\<forall>dir t w ok out stderr w'. git [''-C'', dir, ''checkout'', ''--quiet'', t] [] w = (GitExit ok out stderr, w') \<longrightarrow>
          (if ok then ref_target (head w') = t else head w' = head w))"

lemma git_head_lawsD:
  assumes "git_head_laws git head"
  shows "head (w\<lparr>wd_log := l\<rparr>) = head w"
    "queries_head args \<Longrightarrow> head (snd (git (''-C'' # dir # args) stdin w)) = head w"
    "fst (git args' stdin w) \<noteq> GitSpawnError e"
    "fst (git [''-C'', dir, ''symbolic-ref'', ''--short'', ''-q'', ''HEAD''] [] w) = GitExit ok out stderr \<Longrightarrow>
          (case head w of Branch b \<Rightarrow> ok \<and> trim out = b \<and> b \<noteq> [] | DetachedAt sha \<Rightarrow> \<not> ok)"
    "fst (git [''-C'', dir, ''rev-parse'', ''HEAD''] [] w) = GitExit True out stderr \<Longrightarrow> head w = DetachedAt sha \<Longrightarrow> trim out = sha"
    "git [''-C'', dir, ''checkout'', ''--quiet'', t] [] w = (GitExit ok out stderr, w') \<Longrightarrow>
          (if ok then ref_target (head w') = t else head w' = head w)"
proof -
  note laws = assms [unfolded git_head_laws_def]
  note rest = laws [THEN conjunct2]
  note more = rest [THEN conjunct2, THEN conjunct2]
  show "head (w\<lparr>wd_log := l\<rparr>) = head w" by (rule laws [THEN conjunct1, rule_format])
  show "head (snd (git (''-C'' # dir # args) stdin w)) = head w" if "queries_head args"
    by (rule rest [THEN conjunct1, rule_format]) (rule that)
  show "fst (git args' stdin w) \<noteq> GitSpawnError e" by (rule rest [THEN conjunct2, THEN conjunct1, rule_format])
  show "case head w of Branch b \<Rightarrow> ok \<and> trim out = b \<and> b \<noteq> [] | DetachedAt sha \<Rightarrow> \<not> ok"
    if "fst (git [''-C'', dir, ''symbolic-ref'', ''--short'', ''-q'', ''HEAD''] [] w) = GitExit ok out stderr"
    by (rule more [THEN conjunct1, rule_format]) (rule that)
  show "trim out = sha" if "fst (git [''-C'', dir, ''rev-parse'', ''HEAD''] [] w) = GitExit True out stderr" "head w = DetachedAt sha"
    by (rule more [THEN conjunct2, THEN conjunct1, rule_format]) (rule that)+
  show "if ok then ref_target (head w') = t else head w' = head w"
    if "git [''-C'', dir, ''checkout'', ''--quiet'', t] [] w = (GitExit ok out stderr, w')"
    by (rule more [THEN conjunct2, THEN conjunct2, rule_format]) (rule that)
qed

lemma query_keeps_head:
  assumes "git_head_laws git head" "queries_head args"
  shows "keeps (\<lambda>w. head w = h) (run_git git dir args)" "keeps (\<lambda>w. head w = h) (run_git_stdout git dir args)"
proof -
  have "head w' = head w" if "spawn_git git dir args [] w = (out, w')" for w out w'
    using git_head_lawsD(2) [OF assms, of dir "[]" w] git_head_lawsD(1) [OF assms(1)] that
    by (auto simp: spawn_git_def split: prod.splits)
  then show "keeps (\<lambda>w. head w = h) (run_git git dir args)" "keeps (\<lambda>w. head w = h) (run_git_stdout git dir args)"
    unfolding keeps_def run_git_def run_git_stdout_def by (auto split: prod.splits git_outcome.splits)
qed

lemma ensure_keeps_head:
  assumes "git_head_laws git head"
  shows "keeps (\<lambda>w. head w = h) (ensure_device_branch git dir dev)"
  unfolding ensure_device_branch_def
  by (intro keeps_rules query_keeps_head [OF assms]) (simp_all add: queries_head_def)

lemma capture_keeps_head:
  assumes "git_head_laws git head"
  shows "keeps (\<lambda>w. head w = h) (capture_current_ref git dir)"
  unfolding capture_current_ref_def
  by (intro keeps_rules query_keeps_head [OF assms]) (simp_all add: queries_head_def)

lemma capture_target:
  assumes "git_head_laws git head" "capture_current_ref git dir w = (Inr previous, w')"
  shows "ref_target previous = ref_target (head w)"
proof -
  let ?ask = "[''symbolic-ref'', ''--short'', ''-q'', ''HEAD'']"
  obtain out w1 where g: "git (''-C'' # dir # ?ask) [] w = (out, w1)" by (cases "git (''-C'' # dir # ?ask) [] w")
  then obtain ok stdout stderr where o: "out = GitExit ok stdout stderr"
    using git_head_lawsD(3) [OF assms(1), of "''-C'' # dir # ?ask" "[]" w] by (cases out) auto
  have law: "case head w of Branch b \<Rightarrow> ok \<and> trim stdout = b \<and> b \<noteq> [] | DetachedAt sha \<Rightarrow> \<not> ok"
    using git_head_lawsD(4) [OF assms(1), of dir w ok stdout stderr] g o by simp
  have run: "run_git_stdout git dir ?ask w = (if ok then Inr stdout else Inl (trim stderr), w1\<lparr>wd_log := wd_log w @ [?ask]\<rparr>)"
    by (simp add: run_git_stdout_def spawn_git_def g o)
  have head1: "head (w1\<lparr>wd_log := wd_log w @ [?ask]\<rparr>) = head w"
    using git_head_lawsD(2) [OF assms(1), of ?ask dir "[]" w] git_head_lawsD(1) [OF assms(1)] g by (simp add: queries_head_def)
  show ?thesis
  proof (cases "head w")
    case (Branch b)
    then show ?thesis using assms(2) law by (simp add: capture_current_ref_def ok_opt_def attempt_eq [of "run_git_stdout git dir ?ask" w, OF run])
  next
    case (DetachedAt sha)
    let ?w = "w1\<lparr>wd_log := wd_log w @ [?ask]\<rparr>"
    have "andthen (run_git_stdout git dir [''rev-parse'', ''HEAD'']) (\<lambda>sha. ret (DetachedAt (trim sha))) ?w = (Inr previous, w')"
      using assms(2) law DetachedAt by (simp add: capture_current_ref_def ok_opt_def attempt_eq [of "run_git_stdout git dir ?ask" w, OF run])
    then obtain s w2 where s: "run_git_stdout git dir [''rev-parse'', ''HEAD''] ?w = (Inr s, w2)" "previous = DetachedAt (trim s)"
      by (auto elim!: andthen_ok)
    then obtain stderr w3 where "git [''-C'', dir, ''rev-parse'', ''HEAD''] [] ?w = (GitExit True s stderr, w3)"
      by (auto simp: run_git_stdout_def spawn_git_def split: prod.splits git_outcome.splits if_splits)
    then have "trim s = sha"
      using git_head_lawsD(5) [OF assms(1), of dir ?w s stderr sha] head1 DetachedAt by simp
    then show ?thesis using s(2) DetachedAt by simp
  qed
qed

lemma checkout_result:
  assumes "git_head_laws git head" "run_git git dir [''checkout'', ''--quiet'', t] w = (r, w')"
  shows "if isl r then head w' = head w else ref_target (head w') = t" "wd_log w' = wd_log w @ [[''checkout'', ''--quiet'', t]]"
proof -
  obtain out w1 where g: "git [''-C'', dir, ''checkout'', ''--quiet'', t] [] w = (out, w1)" by (cases "git [''-C'', dir, ''checkout'', ''--quiet'', t] [] w")
  then obtain ok stdout stderr where o: "out = GitExit ok stdout stderr"
    using git_head_lawsD(3) [OF assms(1), of "[''-C'', dir, ''checkout'', ''--quiet'', t]" "[]" w] by (cases out) auto
  have r: "r = (if ok then Inr () else Inl (trim stderr))" "w' = w1\<lparr>wd_log := wd_log w @ [[''checkout'', ''--quiet'', t]]\<rparr>"
    using assms(2) by (auto simp: run_git_def spawn_git_def g o)
  show "if isl r then head w' = head w else ref_target (head w') = t" "wd_log w' = wd_log w @ [[''checkout'', ''--quiet'', t]]"
    using git_head_lawsD(6) [OF assms(1) g [unfolded o]] git_head_lawsD(1) [OF assms(1)] by (auto simp: r split: if_splits)
qed


text \<open>A git with two branches that does what it is asked and prints only the name of its branch.\<close>

definition two_branches :: "bool git" where
  "two_branches args stdin w =
     (if args ! 2 = ''checkout'' then
        (if args ! 4 = ''sync/d'' then (GitExit True [] [], w\<lparr>wd_git := True\<rparr>)
         else if args ! 4 = ''main'' then (GitExit True [] [], w\<lparr>wd_git := False\<rparr>)
         else (GitExit False [] [], w))
      else if args ! 2 = ''symbolic-ref'' then (GitExit True ((if wd_git w then ''sync/d'' else ''main'') @ [nl]) [], w)
      else (GitExit True [] [], w))"

definition two_head :: "bool world \<Rightarrow> previous_ref" where
  "two_head w = Branch (if wd_git w then ''sync/d'' else ''main'')"

definition on_main :: "bool world" where
  "on_main = \<lparr>wd_files = (\<lambda>_. None), wd_dirs = [], wd_fault = (\<lambda>_ _. None), wd_nanos = 7, wd_pid = 1, wd_git = False, wd_log = []\<rparr>"

lemma two_branches_laws: "git_head_laws two_branches two_head"
proof -
  have names: "trim (''sync/d'' @ [nl]) = ''sync/d''" "trim (''main'' @ [nl]) = ''main''" by code_simp+
  have "two_head (w\<lparr>wd_log := l\<rparr>) = two_head w" for w l by (simp add: two_head_def)
  moreover have "two_head (snd (two_branches (''-C'' # dir # args) stdin w)) = two_head w" if "queries_head args" for dir args stdin w
    using that by (cases args) (auto simp: queries_head_def two_branches_def)
  moreover have "case two_head w of Branch b \<Rightarrow> ok \<and> trim out = b \<and> b \<noteq> [] | DetachedAt sha \<Rightarrow> \<not> ok"
    if "fst (two_branches [''-C'', dir, ''symbolic-ref'', ''--short'', ''-q'', ''HEAD''] [] w) = GitExit ok out stderr"
    for dir w ok out stderr
    using that names by (auto simp: two_branches_def two_head_def split: if_splits)
  moreover have "trim out = sha" if "two_head w = DetachedAt sha" for w out sha using that by (simp add: two_head_def)
  moreover have "if ok then ref_target (two_head w') = t else two_head w' = two_head w"
    if "two_branches [''-C'', dir, ''checkout'', ''--quiet'', t] [] w = (GitExit ok out stderr, w')" for dir t w ok out stderr w'
    using that by (auto simp: two_branches_def two_head_def split: if_splits)
  moreover have "fst (two_branches args stdin w) \<noteq> GitSpawnError e" for args stdin w e by (simp add: two_branches_def)
  ultimately show ?thesis unfolding git_head_laws_def by (intro conjI allI impI) blast+
qed


end
