(* ===== verification/CliSync.thy ===== *)
theory CliSync
  imports CliWrite Merge
begin

text \<open>
  Synchronizing stores (crates/wkp-cli/src: sync_cmd.rs, bundle.rs, resolve_conflicts.rs,
  merge_driver.rs): fetch, merge the branches of the other devices, settle modify/delete conflicts, report
  unsigned commits, push the device's own branch; and the same through a bundle file.
\<close>

section \<open>Conflicts\<close>

definition merge_driver_error :: "string \<Rightarrow> string \<Rightarrow> string \<Rightarrow> string" where
  "merge_driver_error what path e = what @ '' '' @ path @ '': '' @ e"

definition run_merge_driver :: "(string \<Rightarrow> bool) \<Rightarrow> string \<Rightarrow> string \<Rightarrow> string \<Rightarrow> ('g world, unit) prog" where
  "run_merge_driver np ancestor ours theirs =
     andthen (map_err (merge_driver_error ''reading ancestor file'' ancestor) (read_to_string ancestor)) (\<lambda>base_content.
     andthen (map_err (merge_driver_error ''reading ours file'' ours) (read_to_string ours)) (\<lambda>ours_content.
     andthen (map_err (merge_driver_error ''reading theirs file'' theirs) (read_to_string theirs)) (\<lambda>theirs_content.
     map_err (merge_driver_error ''writing merged result to'' ours)
       (fs_write (components ours) (merge np base_content ours_content theirs_content)))))"

definition conflict_title :: "string \<Rightarrow> string" where
  "conflict_title path = ''deletion of '' @ path @ '' needs confirmation''"

definition conflict_body :: "string \<Rightarrow> deleted_by \<Rightarrow> string" where
  "conflict_body path d =
     (let deleter = (case d of Ours \<Rightarrow> ''our side'' | Theirs \<Rightarrow> ''the other side'');
          survivor = (case d of Ours \<Rightarrow> ''the other side'' @ [squote] @ ''s'' | Theirs \<Rightarrow> ''our'')
      in [nl] @ ''`'' @ path @ ''` was deleted by '' @ deleter @ '' during a sync merge, but '' @ survivor
         @ '' modification survived and was kept in place (design 6.2: a deletion always loses to a modification). ''
         @ ''Confirm whether `'' @ path @ ''` should still be deleted.'' @ [nl])"

definition resolve_conflict ::
  "'g git \<Rightarrow> (string \<Rightarrow> bool) \<Rightarrow> string \<Rightarrow> modify_delete_conflict \<Rightarrow> ('g world, string option) prog" where
  "resolve_conflict git np repo_dir c =
     andthen (stage_path git repo_dir (md_path c)) (\<lambda>_.
     andthen (query wd_nanos) (\<lambda>nanos.
     let title = conflict_title (md_path c);
         relative_path = remember_path title nanos;
         content = remember_frontmatter_block np title ''project-state'' None ''agent:wkp-merge-resolver'' None
           @ conflict_body (md_path c) (md_deleted_by c);
         full_path = join_path repo_dir relative_path in
     andthen (create_parent full_path) (\<lambda>_.
     andthen (fs_write (components full_path) content) (\<lambda>_.
     andthen (stage_path git repo_dir relative_path) (\<lambda>_.
     ret (Some relative_path))))))"

definition resolve_modify_delete_conflicts ::
  "'g git \<Rightarrow> (string \<Rightarrow> bool) \<Rightarrow> string \<Rightarrow> ('g world, string list) prog" where
  "resolve_modify_delete_conflicts git np repo_dir =
     andthen (modify_delete_conflicts git repo_dir) (\<lambda>cs. collect (resolve_conflict git np repo_dir) cs)"

section \<open>wkp sync\<close>

record sync_summary =
  sy_remote :: string
  sy_merged :: "string list"
  sy_pushed_branch :: string
  sy_unsigned_or_unknown :: "string list"

definition sync_summary_str :: "sync_summary \<Rightarrow> string" where
  "sync_summary_str s =
     (if sy_merged s = []
      then ''wkp: nothing new from '' @ sy_remote s @ '' (pushed '' @ sy_pushed_branch s @ '')''
      else ''wkp: merged '' @ join '', '' (sy_merged s) @ '' into '' @ sy_remote s @ '', pushed '' @ sy_pushed_branch s)
     @ (if sy_unsigned_or_unknown s = [] then []
        else [nl] @ ''wkp: '' @ show_nat (length (sy_unsigned_or_unknown s))
          @ '' newly-arrived commit(s) unsigned or from an unknown signer (still tier 2 regardless):''
          @ concat (map (\<lambda>entry. [nl] @ ''  '' @ entry) (sy_unsigned_or_unknown s)))"

definition merge_ref :: "'g git \<Rightarrow> (string \<Rightarrow> bool) \<Rightarrow> string \<Rightarrow> string \<Rightarrow> ('g world, string option) prog" where
  "merge_ref git np path git_ref =
     andthen (merge_branch git path git_ref) (\<lambda>clean.
     andthen (if clean then ret ()
              else andthen (resolve_modify_delete_conflicts git np path) (\<lambda>_. finish_merge git path)) (\<lambda>_.
     ret (Some git_ref)))"

definition merge_refs_into_current_branch ::
  "'g git \<Rightarrow> (string \<Rightarrow> bool) \<Rightarrow> string \<Rightarrow> string list \<Rightarrow> ('g world, string list) prog" where
  "merge_refs_into_current_branch git np path refs_to_merge = collect (merge_ref git np path) refs_to_merge"

text \<open>The slice of at most twelve bytes panics inside a character; object names are ASCII.\<close>

definition flag_commit :: "'g git \<Rightarrow> string \<Rightarrow> string \<times> string \<Rightarrow> ('g world, string option) prog" where
  "flag_commit git path commit =
     (case commit of (sha, subject) \<Rightarrow>
        andthen (is_merge_commit git path sha) (\<lambda>is_merge.
          if is_merge then ret None
          else andthen (signer_for_commit git path sha) (\<lambda>signer.
            case signer of
              Some _ \<Rightarrow> ret None
            | None \<Rightarrow> (case slice_to sha (min (length sha) 12) of
                          None \<Rightarrow> err ''panic''
                        | Some short \<Rightarrow> ret (Some (short @ '' '' @ subject))))))"

definition report_unsigned_or_unknown_commits ::
  "'g git \<Rightarrow> string \<Rightarrow> string \<Rightarrow> string \<Rightarrow> ('g world, string list) prog" where
  "report_unsigned_or_unknown_commits git path since until' =
     andthen (commits_between git path since until') (\<lambda>cs. collect (flag_commit git path) cs)"

definition sync_on_device :: "'g git \<Rightarrow> env \<Rightarrow> sync_options \<Rightarrow> string \<Rightarrow> ('g world, sync_summary) prog" where
  "sync_on_device git ev opts dev =
     andthen (ensure_device_branch git (so_path opts) dev) (\<lambda>_.
     let own_branch = device_branch_name dev in
     andthen (checkout_branch git (so_path opts) own_branch False) (\<lambda>_.
     andthen (current_commit git (so_path opts)) (\<lambda>before_tip.
     andthen (remote_branch_exists git (so_path opts) (so_remote opts) ''main'') (\<lambda>has_main.
     andthen (other_device_sync_refs git (so_path opts) (so_remote opts) dev) (\<lambda>others.
     andthen (merge_refs_into_current_branch git (en_np ev) (so_path opts)
       ((if has_main then [so_remote opts @ ''/main''] else []) @ others)) (\<lambda>merged.
     andthen (report_unsigned_or_unknown_commits git (so_path opts) before_tip own_branch) (\<lambda>unsigned.
     andthen (push_branch git (so_path opts) (so_remote opts) own_branch) (\<lambda>_.
     ret \<lparr>sy_remote = so_remote opts, sy_merged = merged, sy_pushed_branch = own_branch,
          sy_unsigned_or_unknown = unsigned\<rparr>))))))))"

definition run_sync :: "'g git \<Rightarrow> env \<Rightarrow> sync_options \<Rightarrow> ('g world, sync_summary) prog" where
  "run_sync git ev opts =
     andthen (fetch git (so_path opts) (so_remote opts)) (\<lambda>_.
     andthen (device_id (en_urandom ev) (so_path opts)) (sync_on_device git ev opts))"

definition run_sync_status :: "'g git \<Rightarrow> string \<Rightarrow> ('g world, conflict list) prog" where
  "run_sync_status git path = conflicts git path"

fun describe_conflict_kind :: "conflict_kind \<Rightarrow> string" where
  "describe_conflict_kind (ModifyDelete Ours) = ''modify/delete (deleted by us)''"
| "describe_conflict_kind (ModifyDelete Theirs) = ''modify/delete (deleted by them)''"
| "describe_conflict_kind Content = ''content''"
| "describe_conflict_kind AddAdd = ''add/add''"
| "describe_conflict_kind BothDeleted = ''both deleted''"
| "describe_conflict_kind OtherConflict = ''other''"

definition sync_status_str :: "conflict list \<Rightarrow> string" where
  "sync_status_str cs =
     (if cs = [] then ''wkp: clean, nothing to resolve''
      else ''wkp: '' @ show_nat (length cs) @ '' conflict(s):''
        @ concat (map (\<lambda>c. [nl] @ ''  '' @ describe_conflict_kind (cf_kind c) @ [CHR 0x09] @ cf_path c) cs))"

section \<open>wkp bundle\<close>

record bundle_export_summary =
  bs_bundle_path :: string
  bs_refs :: "string list"

definition bundle_export_summary_str :: "bundle_export_summary \<Rightarrow> string" where
  "bundle_export_summary_str s = ''wkp: exported '' @ join '', '' (bs_refs s) @ '' to '' @ bs_bundle_path s"

definition run_bundle_export :: "'g git \<Rightarrow> env \<Rightarrow> bundle_export_options \<Rightarrow> ('g world, bundle_export_summary) prog" where
  "run_bundle_export git ev opts =
     andthen (device_id (en_urandom ev) (be_path opts)) (\<lambda>dev.
     andthen (local_branch_exists git (be_path opts) ''main'') (\<lambda>has_main.
     let refs = device_branch_name dev # (if has_main then [''main''] else []) in
     andthen (bundle_create git (be_path opts) (be_bundle_path opts) refs (be_since opts)) (\<lambda>_.
     ret \<lparr>bs_bundle_path = be_bundle_path opts, bs_refs = refs\<rparr>)))"

definition bundle_import_summary_str :: "string list \<Rightarrow> string" where
  "bundle_import_summary_str merged =
     (if merged = [] then ''wkp: nothing new from the bundle''
      else ''wkp: merged '' @ join '', '' merged @ '' from the bundle'')"

definition run_bundle_import :: "'g git \<Rightarrow> env \<Rightarrow> bundle_import_options \<Rightarrow> ('g world, string list) prog" where
  "run_bundle_import git ev opts =
     andthen (bundle_verify git (bi_path opts) (bi_bundle_path opts)) (\<lambda>_.
     andthen (bundle_fetch git (bi_path opts) (bi_bundle_path opts)) (\<lambda>_.
     andthen (device_id (en_urandom ev) (bi_path opts)) (\<lambda>dev.
     andthen (ensure_device_branch git (bi_path opts) dev) (\<lambda>_.
     let own_branch = device_branch_name dev in
     andthen (checkout_branch git (bi_path opts) own_branch False) (\<lambda>_.
     andthen (refs_matching git (bi_path opts) ''refs/remotes/bundle/'') (\<lambda>refs.
     merge_refs_into_current_branch git (en_np ev) (bi_path opts)
       (filter (\<lambda>r. r \<noteq> ''refs/remotes/bundle/'' @ own_branch) refs)))))))"

section \<open>What a synchronization asks of git\<close>

text \<open>
  The commands a synchronization of device \<open>dev\<close> may run. It pushes one thing, the branch of that device under
  its own name, to the remote it was given, and the command adds no other option; it creates and checks out
  no other branch, moves or deletes none, and never rewrites history.
\<close>

definition sync_command :: "string \<Rightarrow> string \<Rightarrow> string list \<Rightarrow> bool" where
  "sync_command remote dev args \<longleftrightarrow>
     args \<noteq> [] \<and>
     (if hd args = ''push'' then args = [''push'', ''--quiet'', remote, device_branch_name dev]
      else if hd args = ''branch'' then args = [''branch'', device_branch_name dev]
      else if hd args = ''checkout'' then args = [''checkout'', ''--quiet'', device_branch_name dev]
      else if hd args = ''-c'' then take 4 args = [''-c'', ''user.email=wkp@localhost'', ''-c'', ''user.name=wkp'']
        \<and> (\<exists>r. drop 4 args = [''merge'', ''--no-edit'', ''--allow-unrelated-histories'', r] \<or> drop 4 args = [''commit'', ''--no-edit''])
      else hd args \<in> {''fetch'', ''rev-parse'', ''for-each-ref'', ''status'', ''add'', ''log'', ''rev-list''})"

lemma keeps_merge_branch: "keeps (log_since before (sync_command remote dev)) (merge_branch git dir r)"
proof -
  have ok: "sync_command remote dev [''-c'', ''user.email=wkp@localhost'', ''-c'', ''user.name=wkp'',
      ''merge'', ''--no-edit'', ''--allow-unrelated-histories'', r]" by (simp add: sync_command_def)
  show ?thesis
    unfolding keeps_def merge_branch_def
    by (auto split: prod.splits git_outcome.splits dest: commands.holds_spawn [where ok = "sync_command remote dev", OF ok])
qed

lemma keeps_device_id: "keeps (log_since before ok) (device_id u store)"
  unfolding device_id_def generate_device_id_def Let_def by (intro commands.keeps_all)

lemmas sync_steps = fetch_def ensure_device_branch_def checkout_branch_def current_commit_def remote_branch_exists_def
  other_device_sync_refs_def merge_refs_into_current_branch_def merge_ref_def finish_merge_def
  resolve_modify_delete_conflicts_def modify_delete_conflicts_def conflicts_def resolve_conflict_def stage_path_def
  report_unsigned_or_unknown_commits_def flag_commit_def is_merge_commit_def signer_for_commit_def commits_between_def
  push_branch_def refs_matching_def bundle_verify_def bundle_fetch_def Let_def

lemma keeps_sync_on_device:
  "keeps (log_since before (sync_command (so_remote opts) dev)) (sync_on_device git ev opts dev)"
  unfolding sync_on_device_def sync_steps if_False
  by (intro commands.keeps_all keeps_device_id keeps_merge_branch; auto simp: sync_command_def)

lemma keeps_fetch_device:
  "keeps (log_since before (sync_command remote dev)) (andthen (fetch git dir remote) (\<lambda>_. device_id u store))"
  unfolding fetch_def by (intro commands.keeps_all keeps_device_id; auto simp: sync_command_def)

lemma sync_pushed_branch:
  "fst (sync_on_device git ev opts dev w) = Inr s \<Longrightarrow> sy_pushed_branch s = device_branch_name dev"
  by (cases "sync_on_device git ev opts dev w")
     (auto simp: sync_on_device_def Let_def ret_def elim!: andthen_ok)

text \<open>
  C16. A synchronization, whatever git answers at any point and however it ends, runs only commands of that
  list for one device: in particular the only push is that device's own branch to the remote it was given,
  never \<open>main\<close>, and a summary names that branch.
\<close>

theorem sync_pushes_only_device_branch:
  "\<exists>dev added. wd_log (snd (run_sync git ev opts w)) = wd_log w @ added
     \<and> list_all (sync_command (so_remote opts) dev) added
     \<and> (case fst (run_sync git ev opts w) of Inr s \<Rightarrow> sy_pushed_branch s = device_branch_name dev | Inl _ \<Rightarrow> True)"
proof -
  define start where "start = andthen (fetch git (so_path opts) (so_remote opts)) (\<lambda>_. device_id (en_urandom ev) (so_path opts))"
  obtain r w1 where r: "start w = (r, w1)" by fastforce
  have run: "run_sync git ev opts w = andthen start (sync_on_device git ev opts) w"
    by (simp add: run_sync_def start_def andthen_def attempt_def err_def split: prod.split sum.split)
  have w1: "log_since (wd_log w) (sync_command (so_remote opts) dev) w1" for dev
    using keeps_fetch_device [of "wd_log w" "so_remote opts" dev git "so_path opts" "en_urandom ev" "so_path opts"]
      log_since_refl [of w] r unfolding keeps_def start_def by (metis snd_conv)
  show ?thesis
  proof (cases r)
    case (Inl e)
    then show ?thesis using w1 r by (auto simp: run andthen_def attempt_def err_def log_since_def list_all_iff)
  next
    case (Inr dev)
    have step: "run_sync git ev opts w = sync_on_device git ev opts dev w1"
      using r Inr by (simp add: run andthen_def attempt_def)
    have "log_since (wd_log w) (sync_command (so_remote opts) dev) (snd (sync_on_device git ev opts dev w1))"
      using keeps_sync_on_device w1 unfolding keeps_def by blast
    then show ?thesis using sync_pushed_branch [of git ev opts dev w1]
      by (auto simp: step log_since_def list_all_iff split: sum.split)
  qed
qed

end
