(* ===== verification/Registry.thy ===== *)
theory Registry
  imports Prelude "HOL-Library.AList"
begin

text \<open>
  Closing connections that are already open when a device is revoked
  (crates/wkp-hub/src/connection_registry.rs): the registry of open connections by certificate serial, the
  stream that stops working once its token is cancelled, and the thread that listens for revocations. The
  connections of the front door are a step relation; the notifications, the database and the wrapped
  stream are whatever the environment makes them.
\<close>

section \<open>The registry\<close>

text \<open>
  Tokens are shared objects: a token is its number, and \<open>rg_cancelled\<close> holds the numbers of the cancelled
  ones. The two nested hash maps are association lists; ids are 64-bit and wrap.
\<close>

type_synonym token = nat

record registry =
  rg_connections :: "(string \<times> (u64 \<times> token) list) list"
  rg_next_id :: u64
  rg_next_token :: token
  rg_cancelled :: "token set"

type_synonym guard = "string \<times> u64"

definition new_registry :: registry where
  "new_registry = \<lparr>rg_connections = [], rg_next_id = 0, rg_next_token = 0, rg_cancelled = {}\<rparr>"

definition new_token :: "registry \<Rightarrow> token \<times> registry" where
  "new_token r = (rg_next_token r, r\<lparr>rg_next_token := Suc (rg_next_token r)\<rparr>)"

definition by_id :: "registry \<Rightarrow> string \<Rightarrow> (u64 \<times> token) list" where
  "by_id r serial = (case map_of (rg_connections r) serial of None \<Rightarrow> [] | Some m \<Rightarrow> m)"

definition register :: "string \<Rightarrow> registry \<Rightarrow> (token \<times> guard) \<times> registry" where
  "register serial r =
     (case new_token r of (token, r1) \<Rightarrow>
        (let cid = rg_next_id r1 in
         ((token, (serial, cid)),
          r1\<lparr>rg_next_id := cid + 1,
             rg_connections := AList.update serial (AList.update cid token (by_id r1 serial)) (rg_connections r1)\<rparr>)))"

definition deregister :: "guard \<Rightarrow> registry \<Rightarrow> registry" where
  "deregister g r =
     (case g of (serial, cid) \<Rightarrow>
        (case map_of (rg_connections r) serial of
           None \<Rightarrow> r
         | Some m \<Rightarrow>
             (let m' = AList.delete cid m in
              if m' = [] then r\<lparr>rg_connections := AList.delete serial (rg_connections r)\<rparr>
              else r\<lparr>rg_connections := AList.update serial m' (rg_connections r)\<rparr>)))"

definition close_device :: "string \<Rightarrow> registry \<Rightarrow> nat \<times> registry" where
  "close_device serial r =
     (case map_of (rg_connections r) serial of
        None \<Rightarrow> (0, r)
      | Some m \<Rightarrow> (length m, r\<lparr>rg_connections := AList.delete serial (rg_connections r),
                              rg_cancelled := set (map snd m) \<union> rg_cancelled r\<rparr>))"

definition close_all :: "registry \<Rightarrow> nat \<times> registry" where
  "close_all r =
     (sum_list (map (length \<circ> snd) (rg_connections r)),
      r\<lparr>rg_connections := [], rg_cancelled := set (map snd (concat (map snd (rg_connections r)))) \<union> rg_cancelled r\<rparr>)"

section \<open>The stream of a connection\<close>

datatype 'a poll = Pending | Ready "(string, 'a) result"

record 'i stream =
  st_inner :: 'i
  st_token :: token
  st_is_cancelled :: bool
  st_guard :: "guard option"

definition new_stream :: "'i \<Rightarrow> token \<Rightarrow> guard option \<Rightarrow> 'i stream" where
  "new_stream inner token g = \<lparr>st_inner = inner, st_token = token, st_is_cancelled = False, st_guard = g\<rparr>"

definition revoked_error :: string where
  "revoked_error = ''device revoked; connection force-closed''"

definition poll_cancelled :: "registry \<Rightarrow> 'i stream \<Rightarrow> (string, unit) result \<times> 'i stream" where
  "poll_cancelled r st =
     (let st' = (if \<not> st_is_cancelled st \<and> st_token st \<in> rg_cancelled r then st\<lparr>st_is_cancelled := True\<rparr> else st)
      in (if st_is_cancelled st' then Inl revoked_error else Inr (), st'))"

text \<open>
  Reading, writing and flushing ask for the cancellation first; shutting down does not. The wrapped
  stream answers by \<open>inner\<close>.
\<close>

definition checked_poll :: "registry \<Rightarrow> ('i \<Rightarrow> 'a poll \<times> 'i) \<Rightarrow> 'i stream \<Rightarrow> 'a poll \<times> 'i stream" where
  "checked_poll r inner st =
     (case poll_cancelled r st of
        (Inl e, st') \<Rightarrow> (Ready (Inl e), st')
      | (Inr _, st') \<Rightarrow> (case inner (st_inner st') of (p, i) \<Rightarrow> (p, st'\<lparr>st_inner := i\<rparr>)))"

definition poll_read :: "registry \<Rightarrow> ('i \<Rightarrow> string poll \<times> 'i) \<Rightarrow> 'i stream \<Rightarrow> string poll \<times> 'i stream" where
  "poll_read r inner st = checked_poll r inner st"

definition poll_write :: "registry \<Rightarrow> (string \<Rightarrow> 'i \<Rightarrow> nat poll \<times> 'i) \<Rightarrow> string \<Rightarrow> 'i stream \<Rightarrow> nat poll \<times> 'i stream" where
  "poll_write r inner buf st = checked_poll r (inner buf) st"

definition poll_flush :: "registry \<Rightarrow> ('i \<Rightarrow> unit poll \<times> 'i) \<Rightarrow> 'i stream \<Rightarrow> unit poll \<times> 'i stream" where
  "poll_flush r inner st = checked_poll r inner st"

definition poll_shutdown :: "('i \<Rightarrow> unit poll \<times> 'i) \<Rightarrow> 'i stream \<Rightarrow> unit poll \<times> 'i stream" where
  "poll_shutdown inner st = (case inner (st_inner st) of (p, i) \<Rightarrow> (p, st\<lparr>st_inner := i\<rparr>))"

text \<open>Dropping the stream drops its guard, which takes the entry out of the registry.\<close>

definition drop_stream :: "'i stream \<Rightarrow> registry \<Rightarrow> registry" where
  "drop_stream st r = (case st_guard st of None \<Rightarrow> r | Some g \<Rightarrow> deregister g r)"

section \<open>The connections of the front door\<close>

text \<open>
  A connection is accepted with the serial of its certificate, or without one; any open connection is
  polled or ends at any time; a revocation or a reset comes at any time. \<open>sys_accepted\<close> counts the
  registrations.
\<close>

record 'i conns =
  sys_reg :: registry
  sys_open :: "'i stream list"
  sys_accepted :: nat

definition accept :: "'i \<Rightarrow> string option \<Rightarrow> registry \<Rightarrow> 'i stream \<times> registry" where
  "accept inner cert_serial r =
     (case cert_serial of
        Some serial \<Rightarrow> (case register serial r of ((token, g), r') \<Rightarrow> (new_stream inner token (Some g), r'))
      | None \<Rightarrow> (case new_token r of (token, r') \<Rightarrow> (new_stream inner token None, r')))"

inductive conn_step :: "'i conns \<Rightarrow> 'i conns \<Rightarrow> bool" where
  opens: "accept inner cert r = (st, r') \<Longrightarrow>
    conn_step \<lparr>sys_reg = r, sys_open = sts, sys_accepted = n\<rparr>
      \<lparr>sys_reg = r', sys_open = sts @ [st], sys_accepted = (if cert = None then n else Suc n)\<rparr>"
| ends: "conn_step \<lparr>sys_reg = r, sys_open = xs @ st # ys, sys_accepted = n\<rparr>
      \<lparr>sys_reg = drop_stream st r, sys_open = xs @ ys, sys_accepted = n\<rparr>"
| polls: "st' \<in> {snd (poll_read r rd st), snd (poll_write r wr buf st), snd (poll_flush r fl st), snd (poll_shutdown fl st)} \<Longrightarrow>
    conn_step \<lparr>sys_reg = r, sys_open = xs @ st # ys, sys_accepted = n\<rparr>
      \<lparr>sys_reg = r, sys_open = xs @ st' # ys, sys_accepted = n\<rparr>"
| revokes: "conn_step \<lparr>sys_reg = r, sys_open = sts, sys_accepted = n\<rparr>
      \<lparr>sys_reg = snd (close_device serial r), sys_open = sts, sys_accepted = n\<rparr>"
| resets: "conn_step \<lparr>sys_reg = r, sys_open = sts, sys_accepted = n\<rparr>
      \<lparr>sys_reg = snd (close_all r), sys_open = sts, sys_accepted = n\<rparr>"

inductive_cases conn_stepE: "conn_step s s'"

definition no_conns :: "'i conns" where
  "no_conns = \<lparr>sys_reg = new_registry, sys_open = [], sys_accepted = 0\<rparr>"

inductive conn_reachable :: "'i conns \<Rightarrow> bool" where
  start: "conn_reachable no_conns"
| step: "conn_reachable s \<Longrightarrow> conn_step s s' \<Longrightarrow> conn_reachable s'"

section \<open>What the registry knows\<close>

text \<open>The entry of a connection, and the shape of the two maps: distinct keys, no serial without a connection.\<close>

definition entry :: "registry \<Rightarrow> string \<Rightarrow> u64 \<Rightarrow> token option" where
  "entry r serial cid = map_of (by_id r serial) cid"

lemma entry_map: "entry r serial = map_of (by_id r serial)"
  by (simp add: entry_def fun_eq_iff)

definition maps_ok :: "(string \<times> (u64 \<times> token) list) list \<Rightarrow> bool" where
  "maps_ok cs \<longleftrightarrow> distinct (map fst cs) \<and> (\<forall>(serial, m) \<in> set cs. m \<noteq> [] \<and> distinct (map fst m))"

lemma set_update_subset: "set (AList.update k m al) \<subseteq> insert (k, m) (set al)"
  by (induction al) auto

lemma maps_ok_update: "maps_ok cs \<Longrightarrow> m \<noteq> [] \<Longrightarrow> distinct (map fst m) \<Longrightarrow> maps_ok (AList.update k m cs)"
  using set_update_subset [of k m cs] by (auto simp: maps_ok_def AList.distinct_update)

lemma maps_ok_delete: "maps_ok cs \<Longrightarrow> maps_ok (AList.delete k cs)"
  by (auto simp: maps_ok_def AList.distinct_delete) (auto simp: AList.delete_eq)

lemma maps_ok_lookup: "maps_ok cs \<Longrightarrow> map_of cs serial = Some m \<Longrightarrow> m \<noteq> [] \<and> distinct (map fst m)"
  by (auto simp: maps_ok_def dest: map_of_SomeD)

lemma by_id_distinct: "maps_ok (rg_connections r) \<Longrightarrow> distinct (map fst (by_id r serial))"
  by (auto simp: by_id_def dest: maps_ok_lookup split: option.split)

lemma delete_Nil_None: "AList.delete i m = [] \<Longrightarrow> x \<noteq> i \<Longrightarrow> map_of m x = None"
  using AList.delete_conv' [of i m] by (auto dest: fun_cong [where x = x])

text \<open>What each operation does to the entries, and to nothing else.\<close>

lemma new_token_effect:
  assumes "new_token r = (t, r')"
  shows "t = rg_next_token r" "r' = r\<lparr>rg_next_token := Suc (rg_next_token r)\<rparr>"
  using assms by (auto simp: new_token_def)

lemma entry_next_token [simp]: "entry (r\<lparr>rg_next_token := t\<rparr>) = entry r"
  by (simp add: entry_def by_id_def fun_eq_iff)

lemma register_effect:
  assumes "register serial r = ((t, g), r')"
  shows "t = rg_next_token r" "g = (serial, rg_next_id r)" "rg_next_token r' = Suc (rg_next_token r)"
    "rg_next_id r' = rg_next_id r + 1" "rg_cancelled r' = rg_cancelled r"
    "entry r' = (entry r)(serial := (entry r serial)(rg_next_id r \<mapsto> t))"
    "maps_ok (rg_connections r) \<Longrightarrow> maps_ok (rg_connections r')"
  using assms
  by (auto simp: register_def new_token_def Let_def entry_def by_id_def fun_eq_iff AList.update_conv'
      intro!: maps_ok_update AList.distinct_update split: option.split dest: maps_ok_lookup)

lemma deregister_effect:
  shows "rg_next_token (deregister (serial, i) r) = rg_next_token r" "rg_next_id (deregister (serial, i) r) = rg_next_id r"
    "rg_cancelled (deregister (serial, i) r) = rg_cancelled r"
    "entry (deregister (serial, i) r) = (entry r)(serial := (entry r serial)(i := None))"
    "maps_ok (rg_connections r) \<Longrightarrow> maps_ok (rg_connections (deregister (serial, i) r))"
  by (auto simp: deregister_def Let_def entry_def by_id_def fun_eq_iff AList.update_conv' AList.delete_conv' delete_Nil_None
      intro!: maps_ok_update maps_ok_delete AList.distinct_delete split: option.splits dest: maps_ok_lookup)

lemma entry_iff:
  assumes "maps_ok (rg_connections r)"
  shows "entry r serial i = Some t \<longleftrightarrow> (\<exists>m. (serial, m) \<in> set (rg_connections r) \<and> (i, t) \<in> set m)"
proof -
  have "distinct (map fst (rg_connections r))" using assms by (simp add: maps_ok_def)
  note conns = map_of_eq_Some_iff [OF this]
  show ?thesis
  proof (cases "map_of (rg_connections r) serial")
    case None
    then show ?thesis by (simp add: entry_def by_id_def flip: conns)
  next
    case (Some m)
    have "distinct (map fst m)" using maps_ok_lookup [OF assms Some] by simp
    then show ?thesis using Some by (simp add: entry_def by_id_def flip: conns)
  qed
qed

lemma close_device_effect:
  assumes "maps_ok (rg_connections r)"
  shows "rg_next_token (snd (close_device serial r)) = rg_next_token r"
    "rg_next_id (snd (close_device serial r)) = rg_next_id r"
    "t \<in> rg_cancelled (snd (close_device serial r)) \<longleftrightarrow> t \<in> rg_cancelled r \<or> (\<exists>i. entry r serial i = Some t)"
    "entry (snd (close_device serial r)) = (entry r)(serial := Map.empty)"
    "maps_ok (rg_connections (snd (close_device serial r)))"
    "fst (close_device serial r) = card (dom (entry r serial))"
proof -
  have "(t \<in> rg_cancelled (snd (close_device serial r)) \<longleftrightarrow> t \<in> rg_cancelled r \<or> (\<exists>i. entry r serial i = Some t))
      \<and> fst (close_device serial r) = card (dom (entry r serial))"
  proof (cases "map_of (rg_connections r) serial")
    case (Some m)
    have m: "distinct (map fst m)" using maps_ok_lookup [OF assms Some] by simp
    have tokens: "(\<exists>i. map_of m i = Some t) \<longleftrightarrow> t \<in> snd ` set m" by (force simp: map_of_eq_Some_iff [OF m])
    have "card (dom (map_of m)) = length m" using distinct_card [OF m] by (simp add: dom_map_of_conv_image_fst)
    then show ?thesis using Some tokens by (auto simp: close_device_def entry_map by_id_def)
  qed (simp add: close_device_def entry_map by_id_def)
  then show "t \<in> rg_cancelled (snd (close_device serial r)) \<longleftrightarrow> t \<in> rg_cancelled r \<or> (\<exists>i. entry r serial i = Some t)"
      "fst (close_device serial r) = card (dom (entry r serial))" by simp_all
qed (use assms in \<open>auto simp: close_device_def entry_map by_id_def fun_eq_iff AList.delete_conv' intro: maps_ok_delete
      split: option.split\<close>)

lemma close_all_effect:
  assumes "maps_ok (rg_connections r)"
  shows "rg_next_token (snd (close_all r)) = rg_next_token r" "rg_next_id (snd (close_all r)) = rg_next_id r"
    "t \<in> rg_cancelled (snd (close_all r)) \<longleftrightarrow> t \<in> rg_cancelled r \<or> (\<exists>serial i. entry r serial i = Some t)"
    "entry (snd (close_all r)) = (\<lambda>_. Map.empty)"
    "maps_ok (rg_connections (snd (close_all r)))"
  by (auto simp: close_all_def entry_map by_id_def maps_ok_def) (force simp: entry_iff [OF assms, unfolded entry_map by_id_def])+

section \<open>The invariant of the connections\<close>

text \<open>
  The registry holds exactly the open connections with a certificate whose token is not cancelled. Ids are
  not reused before 2^64 registrations; a stream that has seen its cancellation was cancelled.
\<close>

definition guarded_ids :: "'i stream list \<Rightarrow> u64 list" where
  "guarded_ids sts = map snd (List.map_filter st_guard sts)"

definition stream_ok :: "registry \<Rightarrow> nat \<Rightarrow> 'i stream \<Rightarrow> bool" where
  "stream_ok r n st \<longleftrightarrow> st_token st < rg_next_token r \<and> (st_is_cancelled st \<longrightarrow> st_token st \<in> rg_cancelled r)
     \<and> (case st_guard st of None \<Rightarrow> True
        | Some (serial, i) \<Rightarrow> unat i < n \<and> (st_token st \<in> rg_cancelled r \<or> entry r serial i = Some (st_token st)))"

definition held :: "'i stream list \<Rightarrow> (guard option \<times> token) set" where
  "held sts = (\<lambda>st. (st_guard st, st_token st)) ` set sts"

definition entries_ok :: "registry \<Rightarrow> 'i stream list \<Rightarrow> bool" where
  "entries_ok r sts \<longleftrightarrow>
     (\<forall>serial i t. entry r serial i = Some t \<longrightarrow> t \<notin> rg_cancelled r \<and> (Some (serial, i), t) \<in> held sts)"

definition conn_inv :: "'i conns \<Rightarrow> bool" where
  "conn_inv s \<longleftrightarrow>
     maps_ok (rg_connections (sys_reg s)) \<and> rg_next_id (sys_reg s) = of_nat (sys_accepted s)
     \<and> distinct (map st_token (sys_open s)) \<and> distinct (guarded_ids (sys_open s))
     \<and> (\<forall>st \<in> set (sys_open s). stream_ok (sys_reg s) (sys_accepted s) st)
     \<and> entries_ok (sys_reg s) (sys_open s)
     \<and> (\<forall>t \<in> rg_cancelled (sys_reg s). t < rg_next_token (sys_reg s))"

lemma conn_invD:
  assumes "conn_inv \<lparr>sys_reg = r, sys_open = sts, sys_accepted = n\<rparr>"
  shows "maps_ok (rg_connections r)" "rg_next_id r = of_nat n" "distinct (map st_token sts)" "distinct (guarded_ids sts)"
    "st \<in> set sts \<Longrightarrow> stream_ok r n st" "entries_ok r sts" "t \<in> rg_cancelled r \<Longrightarrow> t < rg_next_token r"
  using assms by (auto simp: conn_inv_def)

lemma conn_invI:
  assumes "maps_ok (rg_connections r)" "rg_next_id r = of_nat n" "distinct (map st_token sts)" "distinct (guarded_ids sts)"
    and "\<And>st. st \<in> set sts \<Longrightarrow> stream_ok r n st"
    and "\<And>serial i t. entry r serial i = Some t \<Longrightarrow> t \<notin> rg_cancelled r"
    and "\<And>serial i t. entry r serial i = Some t \<Longrightarrow> (Some (serial, i), t) \<in> held sts"
    and "\<And>t. t \<in> rg_cancelled r \<Longrightarrow> t < rg_next_token r"
  shows "conn_inv \<lparr>sys_reg = r, sys_open = sts, sys_accepted = n\<rparr>"
  using assms by (auto simp: conn_inv_def entries_ok_def)

lemma entries_okD:
  "entries_ok r sts \<Longrightarrow> entry r serial i = Some t \<Longrightarrow> t \<notin> rg_cancelled r"
  "entries_ok r sts \<Longrightarrow> entry r serial i = Some t \<Longrightarrow> (Some (serial, i), t) \<in> held sts"
  by (auto simp: entries_ok_def)

lemma held_simps [simp]:
  "held [] = {}" "held (st # sts) = insert (st_guard st, st_token st) (held sts)" "held (xs @ ys) = held xs \<union> held ys"
  by (auto simp: held_def)

lemma heldE:
  assumes "(g, t) \<in> held sts"
  obtains st where "st \<in> set sts" "st_guard st = g" "st_token st = t"
  using assms by (auto simp: held_def)

lemma guarded_ids_simps [simp]:
  "guarded_ids [] = []" "guarded_ids (xs @ ys) = guarded_ids xs @ guarded_ids ys"
  "guarded_ids (st # ys) = (case st_guard st of None \<Rightarrow> guarded_ids ys | Some g \<Rightarrow> snd g # guarded_ids ys)"
  by (auto simp: guarded_ids_def List.map_filter_def split: option.split)

lemma set_guarded_ids: "i \<in> set (guarded_ids sts) \<longleftrightarrow> (\<exists>st \<in> set sts. \<exists>serial. st_guard st = Some (serial, i))"
  by (induction sts) (auto split: option.splits)

lemma held_ids: "(Some (serial, i), t) \<in> held sts \<Longrightarrow> i \<in> set (guarded_ids sts)"
  unfolding set_guarded_ids by (elim heldE) blast

lemma conn_inv_init: "conn_inv no_conns"
  by (simp add: conn_inv_def no_conns_def new_registry_def maps_ok_def entry_def by_id_def entries_ok_def)

text \<open>A poll changes only what the stream has seen of the cancellation, and the wrapped stream.\<close>

lemma checked_poll_frame:
  "st_token (snd (checked_poll r inner st)) = st_token st" "st_guard (snd (checked_poll r inner st)) = st_guard st"
  "st_is_cancelled (snd (checked_poll r inner st)) \<longleftrightarrow> st_is_cancelled st \<or> st_token st \<in> rg_cancelled r"
  by (auto simp: checked_poll_def poll_cancelled_def Let_def split: prod.split)

lemma poll_shutdown_frame:
  "st_token (snd (poll_shutdown inner st)) = st_token st" "st_guard (snd (poll_shutdown inner st)) = st_guard st"
  "st_is_cancelled (snd (poll_shutdown inner st)) = st_is_cancelled st"
  by (auto simp: poll_shutdown_def split: prod.split)

lemmas poll_frames = checked_poll_frame poll_shutdown_frame
lemmas poll_defs = poll_read_def poll_write_def poll_flush_def

lemma conn_inv_polls:
  assumes "conn_inv \<lparr>sys_reg = r, sys_open = xs @ st # ys, sys_accepted = n\<rparr>"
    and "st_token st' = st_token st" "st_guard st' = st_guard st"
      "st_is_cancelled st' \<Longrightarrow> st_is_cancelled st \<or> st_token st \<in> rg_cancelled r"
  shows "conn_inv \<lparr>sys_reg = r, sys_open = xs @ st' # ys, sys_accepted = n\<rparr>"
proof -
  note i = conn_invD [OF assms(1)]
  show ?thesis
  proof (rule conn_invI)
    fix u assume "u \<in> set (xs @ st' # ys)"
    moreover have "stream_ok r n st'" using i(5) [of st] assms(2-4) by (auto simp: stream_ok_def split: option.splits)
    ultimately show "stream_ok r n u" using i(5) by auto
  qed (use i assms(2,3) in \<open>auto dest: entries_okD\<close>)
qed

lemma conn_inv_register:
  assumes inv: "conn_inv \<lparr>sys_reg = r, sys_open = sts, sys_accepted = n\<rparr>" and bound: "Suc n < 2 ^ 64"
    and reg: "register serial r = ((t, g), r')"
  shows "conn_inv \<lparr>sys_reg = r', sys_open = sts @ [new_stream inner t (Some g)], sys_accepted = Suc n\<rparr>"
proof -
  note e = register_effect [OF reg] and i = conn_invD [OF inv]
  have fresh: "unat (rg_next_id r) = n" using i(2) bound by (simp add: unat_of_nat)
  have no_id: "rg_next_id r \<notin> set (guarded_ids sts)"
    using i(5) fresh by (fastforce simp: set_guarded_ids stream_ok_def)
  have no_entry: "entry r serial' (rg_next_id r) = None" for serial'
    using entries_okD(2) [OF i(6)] held_ids no_id by (metis not_None_eq)
  have token: "rg_next_token r \<notin> rg_cancelled r" "\<And>st. st \<in> set sts \<Longrightarrow> st_token st < rg_next_token r"
    using i(5,7) by (auto simp: stream_ok_def)
  show ?thesis
  proof (rule conn_invI)
    fix st assume "st \<in> set (sts @ [new_stream inner t (Some g)])"
    then show "stream_ok r' (Suc n) st"
    proof (simp, elim disjE)
      assume "st \<in> set sts"
      then have "stream_ok r n st" using i(5) by blast
      then show "stream_ok r' (Suc n) st"
        using no_entry by (auto simp: stream_ok_def e(3,5,6) split: option.splits)
    qed (simp add: stream_ok_def new_stream_def e(1-6) fresh)
  next
    fix serial' j u
    assume en: "entry r' serial' j = Some u"
    then show "u \<notin> rg_cancelled r'" using entries_okD(1) [OF i(6)] token(1) by (auto simp: e(1,5,6) split: if_splits)
    show "(Some (serial', j), u) \<in> held (sts @ [new_stream inner t (Some g)])"
      using en entries_okD(2) [OF i(6)] by (auto simp: e(2,6) new_stream_def split: if_splits)
  next
    fix u assume "u \<in> rg_cancelled r'"
    then show "u < rg_next_token r'" using i(7) by (simp add: e less_Suc_eq)
  next
    show "distinct (map st_token (sts @ [new_stream inner t (Some g)]))"
      using i(3) token(2) by (auto simp: e(1) new_stream_def) blast
  qed (use i e(7) no_id in \<open>auto simp: e(1-4) new_stream_def\<close>)
qed

lemma conn_inv_anonymous:
  assumes inv: "conn_inv \<lparr>sys_reg = r, sys_open = sts, sys_accepted = n\<rparr>" and "new_token r = (t, r')"
  shows "conn_inv \<lparr>sys_reg = r', sys_open = sts @ [new_stream inner t None], sys_accepted = n\<rparr>"
proof -
  note i = conn_invD [OF inv] and e = new_token_effect [OF assms(2)]
  have token: "\<And>st. st \<in> set sts \<Longrightarrow> st_token st < rg_next_token r" using i(5) by (auto simp: stream_ok_def)
  show ?thesis
  proof (rule conn_invI)
    show "distinct (map st_token (sts @ [new_stream inner t None]))"
      using i(3) token by (auto simp: e(1) new_stream_def) blast
  next
    fix st assume "st \<in> set (sts @ [new_stream inner t None])"
    then show "stream_ok r' n st"
    proof (simp, elim disjE)
      assume "st \<in> set sts"
      then show "stream_ok r' n st" using i(5) [of st] by (auto simp: stream_ok_def e(2) split: option.splits)
    qed (simp add: stream_ok_def new_stream_def e)
  next
    fix u assume "u \<in> rg_cancelled r'"
    then show "u < rg_next_token r'" using i(7) by (simp add: e(2) less_Suc_eq)
  qed (use i in \<open>auto simp: e new_stream_def dest: entries_okD\<close>)
qed

lemma conn_inv_drop:
  assumes inv: "conn_inv \<lparr>sys_reg = r, sys_open = xs @ st # ys, sys_accepted = n\<rparr>"
  shows "conn_inv \<lparr>sys_reg = drop_stream st r, sys_open = xs @ ys, sys_accepted = n\<rparr>"
proof -
  note i = conn_invD [OF inv]
  show ?thesis
  proof (cases "st_guard st")
    case None
    show ?thesis
    proof (rule conn_invI)
      fix serial j u assume en: "entry (drop_stream st r) serial j = Some u"
      then have "entry r serial j = Some u" by (simp add: drop_stream_def None)
      from entries_okD [OF i(6) this] show "u \<notin> rg_cancelled (drop_stream st r)"
        and "(Some (serial, j), u) \<in> held (xs @ ys)" by (auto simp: drop_stream_def None)
    qed (use i in \<open>auto simp: drop_stream_def None\<close>)
  next
    case (Some g)
    obtain serial j where g: "g = (serial, j)" by (cases g)
    have d: "drop_stream st r = deregister (serial, j) r" by (simp add: drop_stream_def Some g)
    note e = deregister_effect [where serial = serial and i = j and r = r, folded d]
    have no_id: "j \<notin> set (guarded_ids (xs @ ys))" using i(4) by (auto simp: Some g)
    show ?thesis
    proof (rule conn_invI)
      fix u assume "u \<in> set (xs @ ys)"
      then have "stream_ok r n u" "st_guard u \<noteq> Some (serial', j)" for serial'
        using i(5) no_id by (auto simp: set_guarded_ids)
      then show "stream_ok (drop_stream st r) n u" by (auto simp: stream_ok_def e(1-4) split: option.splits)
    next
      fix serial' k u assume en: "entry (drop_stream st r) serial' k = Some u"
      then have old: "entry r serial' k = Some u" by (auto simp: e(4) split: if_splits)
      from entries_okD [OF i(6) old] show "u \<notin> rg_cancelled (drop_stream st r)" by (simp add: e(3))
      show "(Some (serial', k), u) \<in> held (xs @ ys)"
        using entries_okD(2) [OF i(6) old] en by (auto simp: e(4) Some g split: if_splits)
    qed (use i e in \<open>auto split: option.splits\<close>)
  qed
qed

text \<open>
  Closing takes entries out and cancels their tokens, be it the entries of one serial or all of them.
\<close>

lemma conn_inv_close:
  assumes inv: "conn_inv \<lparr>sys_reg = r, sys_open = sts, sys_accepted = n\<rparr>"
    and e: "rg_next_token r' = rg_next_token r" "rg_next_id r' = rg_next_id r"
      "\<And>t. t \<in> rg_cancelled r' \<longleftrightarrow> t \<in> rg_cancelled r \<or> (\<exists>serial \<in> S. \<exists>i. entry r serial i = Some t)"
      "entry r' = (\<lambda>serial. if serial \<in> S then Map.empty else entry r serial)" "maps_ok (rg_connections r')"
  shows "conn_inv \<lparr>sys_reg = r', sys_open = sts, sys_accepted = n\<rparr>"
proof -
  note i = conn_invD [OF inv]
  have same: "serial = serial'" if en: "entry r serial j = Some u" "entry r serial' k = Some u" for serial serial' j k u
  proof -
    obtain st st' where "st \<in> set sts" "st_guard st = Some (serial, j)" "st_token st = u"
        "st' \<in> set sts" "st_guard st' = Some (serial', k)" "st_token st' = u"
      using entries_okD(2) [OF i(6) en(1)] entries_okD(2) [OF i(6) en(2)] by (auto elim!: heldE)
    moreover from this have "st = st'" using i(3) by (simp add: distinct_map inj_on_def)
    ultimately show ?thesis by simp
  qed
  show ?thesis
  proof (rule conn_invI)
    fix st assume "st \<in> set sts"
    then have "stream_ok r n st" by (rule i(5))
    then show "stream_ok r' n st" by (auto simp: stream_ok_def e(1,3,4) split: option.splits)
  next
    fix serial j u assume "entry r' serial j = Some u"
    then have old: "entry r serial j = Some u" "serial \<notin> S" by (auto simp: e(4) split: if_splits)
    then show "u \<notin> rg_cancelled r'" using entries_okD(1) [OF i(6)] same by (metis e(3))
    show "(Some (serial, j), u) \<in> held sts" using entries_okD(2) [OF i(6) old(1)] .
  next
    fix u assume "u \<in> rg_cancelled r'"
    then consider "u \<in> rg_cancelled r" | serial j where "entry r serial j = Some u" by (auto simp: e(3))
    then show "u < rg_next_token r'"
    proof cases
      case 2
      from entries_okD(2) [OF i(6) this] show ?thesis using i(5) by (auto simp: e(1) stream_ok_def elim!: heldE)
    qed (simp add: e(1) i(7))
  qed (use i e in auto)
qed

lemma conn_inv_step:
  assumes "conn_step s s'" "conn_inv s" "sys_accepted s' < 2 ^ 64"
  shows "conn_inv s'"
  using assms
proof cases
  case (opens inner cert r st r' sts n)
  then show ?thesis using assms(2,3)
    by (auto simp: accept_def split: option.splits prod.splits intro: conn_inv_register conn_inv_anonymous)
next
  case (ends r xs st ys n)
  then show ?thesis using assms(2) conn_inv_drop by blast
next
  case (polls st' r rd st wr buf fl xs ys n)
  then show ?thesis using assms(2)
    by (auto simp: poll_defs poll_frames intro!: conn_inv_polls [where st = st])
next
  case (revokes r sts n serial)
  have inv: "conn_inv \<lparr>sys_reg = r, sys_open = sts, sys_accepted = n\<rparr>" using assms(2) revokes by simp
  note e = close_device_effect [OF conn_invD(1) [OF inv], where serial = serial]
  show ?thesis unfolding revokes
    by (rule conn_inv_close [OF inv e(1,2), where S = "{serial}"]) (simp_all add: e(3-5) fun_upd_def fun_eq_iff)
next
  case (resets r sts n)
  have inv: "conn_inv \<lparr>sys_reg = r, sys_open = sts, sys_accepted = n\<rparr>" using assms(2) resets by simp
  note e = close_all_effect [OF conn_invD(1) [OF inv]]
  show ?thesis unfolding resets
    by (rule conn_inv_close [OF inv e(1,2), where S = UNIV]) (simp_all add: e(3-5))
qed

lemma step_accepted: "conn_step s s' \<Longrightarrow> sys_accepted s \<le> sys_accepted s'"
  by (cases rule: conn_step.cases) auto

lemma reachable_inv: "conn_reachable s \<Longrightarrow> sys_accepted s < 2 ^ 64 \<Longrightarrow> conn_inv s"
proof (induction rule: conn_reachable.induct)
  case (step s s')
  then show ?case using step_accepted [OF step.hyps(2)] conn_inv_step by fastforce
qed (simp add: conn_inv_init)

section \<open>Revocation\<close>

text \<open>Once the entries of a serial are gone, no connection registered before comes back to life.\<close>

definition cut_off :: "string \<Rightarrow> nat \<Rightarrow> 'i conns \<Rightarrow> bool" where
  "cut_off serial n s \<longleftrightarrow> conn_inv s \<and> n \<le> sys_accepted s
     \<and> (\<forall>i. unat i < n \<longrightarrow> entry (sys_reg s) serial i = None)"

lemma entry_drop:
  "entry (drop_stream st r) serial i \<in> {None, entry r serial i}"
  by (auto simp: drop_stream_def deregister_effect split: option.split prod.split)

lemma cut_off_step:
  assumes "conn_step s s'" "cut_off serial n s" "sys_accepted s' < 2 ^ 64"
  shows "cut_off serial n s'"
proof -
  have inv: "conn_inv s'" using conn_inv_step [OF assms(1) _ assms(3)] assms(2) by (simp add: cut_off_def)
  have le: "n \<le> sys_accepted s'" using step_accepted [OF assms(1)] assms(2) by (simp add: cut_off_def)
  have "entry (sys_reg s') serial i = None" if i: "unat i < n" for i
    using assms(1)
  proof cases
    case (opens inner cert r st r' sts m)
    have old: "entry r serial i = None" and m: "n \<le> m" "rg_next_id r = of_nat m" "cert \<noteq> None \<longrightarrow> Suc m < 2 ^ 64"
      using assms(2,3) i by (auto simp: cut_off_def conn_inv_def opens split: if_splits)
    show ?thesis
    proof (cases cert)
      case None
      then show ?thesis using old opens by (auto simp: accept_def new_token_def split: prod.splits)
    next
      case (Some serial')
      have "unat (rg_next_id r) = m" using m Some by (simp add: unat_of_nat)
      then show ?thesis using old opens Some i m
        by (auto simp: accept_def register_effect(6) split: prod.splits)
    qed
  next
    case (ends r xs st ys m)
    then show ?thesis using assms(2) i entry_drop [of st r serial i] by (auto simp: cut_off_def)
  next
    case (revokes r sts m serial')
    have "maps_ok (rg_connections r)" using assms(2) by (simp add: cut_off_def conn_inv_def revokes)
    then show ?thesis using assms(2) i by (auto simp: cut_off_def revokes close_device_effect)
  next
    case (resets r sts m)
    have "maps_ok (rg_connections r)" using assms(2) by (simp add: cut_off_def conn_inv_def resets)
    then show ?thesis by (simp add: resets close_all_effect)
  qed (use assms(2) i in \<open>auto simp: cut_off_def\<close>)
  with inv le show ?thesis by (simp add: cut_off_def)
qed

lemma steps_accepted: "conn_step\<^sup>*\<^sup>* s s' \<Longrightarrow> sys_accepted s \<le> sys_accepted s'"
  by (induction rule: rtranclp_induct) (auto dest: step_accepted)

lemma cut_off_steps:
  assumes "conn_step\<^sup>*\<^sup>* s s'" "cut_off serial n s" "sys_accepted s' < 2 ^ 64"
  shows "cut_off serial n s'"
  using assms
proof (induction rule: rtranclp_induct)
  case (step t t')
  then show ?case using step_accepted [OF step.hyps(2)] cut_off_step by fastforce
qed

lemma cut_off_cancelled:
  assumes "cut_off serial n s" "st \<in> set (sys_open s)" "st_guard st = Some (serial, i)" "unat i < n"
  shows "st_token st \<in> rg_cancelled (sys_reg s)"
  using assms by (auto simp: cut_off_def conn_inv_def stream_ok_def)

lemma cancelled_poll:
  "st_token st \<in> rg_cancelled r \<Longrightarrow> fst (checked_poll r inner st) = Ready (Inl revoked_error)"
  by (auto simp: checked_poll_def poll_cancelled_def Let_def)

lemma checked_poll_cong:
  "(st_token st \<in> rg_cancelled r \<longleftrightarrow> st_token st \<in> rg_cancelled r') \<Longrightarrow> checked_poll r inner st = checked_poll r' inner st"
  by (simp add: checked_poll_def poll_cancelled_def)

lemma close_device_cut_off:
  assumes "conn_inv s"
  shows "cut_off serial (sys_accepted s) (s\<lparr>sys_reg := snd (close_device serial (sys_reg s))\<rparr>)"
proof -
  obtain r sts n where s: "s = \<lparr>sys_reg = r, sys_open = sts, sys_accepted = n\<rparr>" by (cases s) simp
  note e = close_device_effect [OF conn_invD(1) [OF assms [unfolded s]], where serial = serial]
  have "conn_inv \<lparr>sys_reg = snd (close_device serial r), sys_open = sts, sys_accepted = n\<rparr>"
    by (rule conn_inv_close [OF assms [unfolded s] e(1,2), where S = "{serial}"]) (simp_all add: e(3-5) fun_upd_def fun_eq_iff)
  then show ?thesis by (simp add: cut_off_def s e(4))
qed

text \<open>
  C17. Revoking a device ends its open connections for good, and nobody else's: whatever connections were
  opened, polled, ended or closed before, once \<open>close_device\<close> has run for a serial every read, write and flush on
  a connection that was registered for it fails with the revocation error, at any later time and whatever
  happens in between, while every connection of another certificate or of none answers as it would have.
  (Fewer than 2^64 connections are registered in all.)
\<close>

theorem revocation_closes_connections:
  assumes "conn_reachable s" "s1 = s\<lparr>sys_reg := snd (close_device serial (sys_reg s))\<rparr>"
    and "conn_step\<^sup>*\<^sup>* s1 s2" "sys_accepted s2 < 2 ^ 64"
  shows "(\<forall>st \<in> set (sys_open s2). \<forall>i. st_guard st = Some (serial, i) \<and> unat i < sys_accepted s \<longrightarrow>
           fst (poll_read (sys_reg s2) rd st) = Ready (Inl revoked_error)
         \<and> fst (poll_write (sys_reg s2) wr buf st) = Ready (Inl revoked_error)
         \<and> fst (poll_flush (sys_reg s2) fl st) = Ready (Inl revoked_error))
       \<and> (\<forall>st \<in> set (sys_open s). (\<forall>i. st_guard st \<noteq> Some (serial, i)) \<longrightarrow>
           poll_read (sys_reg s1) rd st = poll_read (sys_reg s) rd st
         \<and> poll_write (sys_reg s1) wr buf st = poll_write (sys_reg s) wr buf st
         \<and> poll_flush (sys_reg s1) fl st = poll_flush (sys_reg s) fl st)"
proof -
  have "sys_accepted s < 2 ^ 64" using steps_accepted [OF assms(3)] assms(2,4) by simp
  then have inv: "conn_inv s" by (rule reachable_inv [OF assms(1)])
  have "cut_off serial (sys_accepted s) s1" unfolding assms(2) by (rule close_device_cut_off [OF inv])
  note cut = cut_off_steps [OF assms(3) this assms(4)]
  have "st_token st \<in> rg_cancelled (sys_reg s1) \<longleftrightarrow> st_token st \<in> rg_cancelled (sys_reg s)"
    if st: "st \<in> set (sys_open s)" "\<forall>i. st_guard st \<noteq> Some (serial, i)" for st
  proof -
    have maps: "maps_ok (rg_connections (sys_reg s))" using inv by (simp add: conn_inv_def)
    have "entry (sys_reg s) serial i \<noteq> Some (st_token st)" for i
    proof
      assume "entry (sys_reg s) serial i = Some (st_token st)"
      moreover have "entries_ok (sys_reg s) (sys_open s)" using inv by (simp add: conn_inv_def)
      ultimately obtain st' where "st' \<in> set (sys_open s)" "st_guard st' = Some (serial, i)" "st_token st' = st_token st"
        by (metis entries_okD(2) heldE)
      moreover from this have "st' = st" using inv st(1) by (auto simp: conn_inv_def distinct_map inj_on_def)
      ultimately show False using st(2) by blast
    qed
    then show ?thesis by (simp add: assms(2) close_device_effect(3) [OF maps])
  qed
  then show ?thesis using cut_off_cancelled [OF cut] by (auto simp: poll_defs cancelled_poll intro!: checked_poll_cong)
qed

text \<open>Two devices and a client without a certificate; then the first device is revoked.\<close>

definition three_conns :: "nat conns" where
  "three_conns =
     (let (a, r1) = accept 1 (Some ''aa'') new_registry; (b, r2) = accept 2 (Some ''bb'') r1; (c, r3) = accept 3 None r2
      in \<lparr>sys_reg = r3, sys_open = [a, b, c], sys_accepted = 2\<rparr>)"

lemma three_conns_reachable: "conn_reachable three_conns"
proof -
  let ?a = "accept (1::nat) (Some ''aa'') new_registry"
  let ?b = "accept (2::nat) (Some ''bb'') (snd ?a)"
  let ?c = "accept (3::nat) None (snd ?b)"
  have "conn_reachable \<lparr>sys_reg = new_registry, sys_open = [] :: nat stream list, sys_accepted = 0\<rparr>"
    using conn_reachable.start by (simp add: no_conns_def)
  from conn_reachable.step [OF this opens [OF prod.collapse [of ?a, symmetric]]]
  have "conn_reachable \<lparr>sys_reg = snd ?a, sys_open = [fst ?a], sys_accepted = 1\<rparr>" by simp
  from conn_reachable.step [OF this opens [OF prod.collapse [of ?b, symmetric]]]
  have "conn_reachable \<lparr>sys_reg = snd ?b, sys_open = [fst ?a, fst ?b], sys_accepted = 2\<rparr>"
    by (simp add: numeral_2_eq_2)
  from conn_reachable.step [OF this opens [OF prod.collapse [of ?c, symmetric]]]
  show ?thesis by (simp add: three_conns_def case_prod_beta)
qed

theorem revocation_closes_connections_witness:
  "\<exists>st \<in> set (sys_open three_conns). st_guard st = Some (''aa'', 0)
     \<and> fst (poll_read (snd (close_device ''aa'' (sys_reg three_conns))) (\<lambda>i. (Ready (Inr ''data''), i)) st) = Ready (Inl revoked_error)"
proof -
  let ?s1 = "three_conns\<lparr>sys_reg := snd (close_device ''aa'' (sys_reg three_conns))\<rparr>"
  have "sys_accepted ?s1 < 2 ^ 64" by (simp add: three_conns_def Let_def split: prod.split)
  note closed = revocation_closes_connections [OF three_conns_reachable refl rtranclp.rtrancl_refl this,
      where rd = "\<lambda>i. (Ready (Inr ''data''), i)" and wr = "\<lambda>buf i. (Pending, i)" and fl = "\<lambda>i. (Pending, i)"]
  have "\<exists>st \<in> set (sys_open ?s1). st_guard st = Some (''aa'', 0) \<and> unat (0::u64) < sys_accepted three_conns" by code_simp
  then show ?thesis using closed by fastforce
qed

section \<open>Listening for revocations\<close>

text \<open>
  What waiting for a notification comes to: one arrived, the wait ended without one, or the connection
  failed. (In the client library the second is the answer both when the server has closed the connection and
  when the interval has passed.) Each iteration also has the answers the sweep would get from the database.
\<close>

definition NOTIFY_CHANNEL :: string where
  "NOTIFY_CHANNEL = ''wkp_hub_connection_reset''"

definition RESET_ALL_PAYLOAD :: string where
  "RESET_ALL_PAYLOAD = ''*''"

datatype wait_result = Notified string string | NoNotification | WaitFailed string

definition handle_notification :: "string \<Rightarrow> string \<Rightarrow> registry \<Rightarrow> registry" where
  "handle_notification channel payload r =
     (if channel \<noteq> NOTIFY_CHANNEL then r
      else if payload = RESET_ALL_PAYLOAD then snd (close_all r) else snd (close_device payload r))"

definition sweep_revoked :: "(string \<Rightarrow> bool) \<Rightarrow> registry \<Rightarrow> registry" where
  "sweep_revoked revoked r =
     fold (\<lambda>serial r. if revoked serial then snd (close_device serial r) else r) (map fst (rg_connections r)) r"

text \<open>\<open>None\<close>: the loop is still waiting when the list ends.\<close>

fun run_listen_loop :: "(wait_result \<times> (string \<Rightarrow> bool)) list \<Rightarrow> registry \<Rightarrow> (string, unit) result option \<times> registry" where
  "run_listen_loop [] r = (None, r)"
| "run_listen_loop ((WaitFailed e, _) # _) r = (Some (Inl e), r)"
| "run_listen_loop ((NoNotification, _) # _) r = (Some (Inr ()), r)"
| "run_listen_loop ((Notified channel payload, revoked) # rest) r =
     run_listen_loop rest (sweep_revoked revoked (handle_notification channel payload r))"

text \<open>One element per attempt to connect: whether connecting and subscribing worked, and what then arrived.\<close>

definition listen_for_revocations ::
  "((string, unit) result \<times> (wait_result \<times> (string \<Rightarrow> bool)) list) list \<Rightarrow> registry \<Rightarrow> registry" where
  "listen_for_revocations attempts r =
     fold (\<lambda>(connected, waits) r. case connected of Inl _ \<Rightarrow> r | Inr _ \<Rightarrow> snd (run_listen_loop waits r)) attempts r"

text \<open>The listener does nothing to the connections but revoke and reset.\<close>

lemma sweep_steps:
  "conn_step\<^sup>*\<^sup>* \<lparr>sys_reg = r, sys_open = sts, sys_accepted = n\<rparr> \<lparr>sys_reg = sweep_revoked revoked r, sys_open = sts, sys_accepted = n\<rparr>"
proof -
  have "conn_step\<^sup>*\<^sup>* \<lparr>sys_reg = r, sys_open = sts, sys_accepted = n\<rparr>
      \<lparr>sys_reg = fold (\<lambda>serial r. if revoked serial then snd (close_device serial r) else r) serials r,
       sys_open = sts, sys_accepted = n\<rparr>" for serials
    by (induction serials arbitrary: r) (auto intro: converse_rtranclp_into_rtranclp revokes)
  then show ?thesis by (simp add: sweep_revoked_def)
qed

lemma notification_steps:
  "conn_step\<^sup>*\<^sup>* \<lparr>sys_reg = r, sys_open = sts, sys_accepted = n\<rparr>
     \<lparr>sys_reg = handle_notification channel payload r, sys_open = sts, sys_accepted = n\<rparr>"
  by (auto simp: handle_notification_def intro: revokes resets)

lemma listener_steps:
  "conn_step\<^sup>*\<^sup>* \<lparr>sys_reg = r, sys_open = sts, sys_accepted = n\<rparr>
     \<lparr>sys_reg = snd (run_listen_loop waits r), sys_open = sts, sys_accepted = n\<rparr>"
  by (induction waits r rule: run_listen_loop.induct)
     (auto intro: rtranclp_trans [OF notification_steps rtranclp_trans [OF sweep_steps]])

text \<open>
  The periodic sweep does not happen. As long as no notification arrives, the listener never looks
  at the database: however many intervals pass and however often it reconnects, the registry stays as it is,
  so the connections of a device that was revoked while the listener was not connected stay open.
\<close>

lemma quiet_listener_never_sweeps:
  "listen_for_revocations (map (\<lambda>(connected, revoked). (connected, [(NoNotification, revoked)])) quiet) r = r"
  by (induction quiet) (auto simp: listen_for_revocations_def split: sum.split)

end
