(* ===== verification/RingSpec.thy ===== *)
theory RingSpec
  imports Usage
begin

text \<open>
  What one metric's rings promise, without tables: the cursor of every tier and the rows of its slots. A
  sample is merged into the open window or closes it, and a closed window is folded into the next tier. The
  client's tables (\<open>Usage\<close>) and the hub's (\<open>HubUsage\<close>) both implement it.
\<close>

section \<open>The specification\<close>

record 'f series =
  se_cursor :: "nat \<Rightarrow> (int \<times> int) option"
  se_row :: "nat \<Rightarrow> int \<Rightarrow> (int \<times> 'f slot_agg) option"

definition no_series :: "'f series" where
  "no_series = \<lparr>se_cursor = (\<lambda>_. None), se_row = (\<lambda>_ _. None)\<rparr>"

definition put_row :: "nat \<Rightarrow> int \<Rightarrow> int \<Rightarrow> 'f slot_agg \<Rightarrow> 'f series \<Rightarrow> 'f series" where
  "put_row k s b a v = v\<lparr>se_row := (se_row v)(k := (se_row v k)(s \<mapsto> (b, a)))\<rparr>"

definition put_cursor :: "nat \<Rightarrow> int \<Rightarrow> int \<Rightarrow> 'f series \<Rightarrow> 'f series" where
  "put_cursor k s b v = v\<lparr>se_cursor := (se_cursor v)(k \<mapsto> (s, b))\<rparr>"

definition open_series :: "tier \<Rightarrow> nat \<Rightarrow> int \<Rightarrow> 'f slot_agg \<Rightarrow> 'f series \<Rightarrow> 'f series" where
  "open_series t k b a v = (let s = slot_for b (ti_step t) (ti_slots t) in put_cursor k s b (put_row k s b a v))"

fun ring_spec :: "'f float_ops \<Rightarrow> tier list \<Rightarrow> nat \<Rightarrow> int \<Rightarrow> 'f slot_agg \<Rightarrow> 'f series \<Rightarrow> 'f series option" where
  "ring_spec fl [] k b inc v = None"
| "ring_spec fl (t # ts) k b inc v =
     (case se_cursor v k of
        None \<Rightarrow> Some (open_series t k b inc v)
      | Some (s, cb) \<Rightarrow>
          (case se_row v k s of
             None \<Rightarrow> None
           | Some (_, ex) \<Rightarrow>
               if b \<le> cb then Some (put_row k s cb (merged_with fl ex inc (cb = b)) v)
               else map_option (open_series t k b inc)
                      (case ts of [] \<Rightarrow> Some v | t' # _ \<Rightarrow> ring_spec fl ts (k + 1) (floor_to_step cb (ti_step t')) ex v)))"

lemma ring_spec_close:
  "se_cursor v k = Some (s, cb) \<Longrightarrow> se_row v k s = Some (cb', ex) \<Longrightarrow> \<not> b \<le> cb \<Longrightarrow>
     ring_spec fl (t # t' # ts) k b inc v
       = map_option (open_series t k b inc) (ring_spec fl (t' # ts) (k + 1) (floor_to_step cb (ti_step t')) ex v)"
  by simp

section \<open>It never fails\<close>

definition series_ok :: "'f series \<Rightarrow> bool" where
  "series_ok v \<longleftrightarrow> (\<forall>k s b. se_cursor v k = Some (s, b) \<longrightarrow> (\<exists>a. se_row v k s = Some (b, a)))"

lemma series_okD: "series_ok v \<Longrightarrow> se_cursor v k = Some (s, b) \<Longrightarrow> \<exists>a. se_row v k s = Some (b, a)"
  by (simp add: series_ok_def)

lemma no_series_ok [store_inv]: "series_ok no_series"
  by (simp add: series_ok_def no_series_def)

lemma open_series_ok [store_inv]: "series_ok v \<Longrightarrow> series_ok (open_series t k b a v)"
  by (auto simp: series_ok_def open_series_def put_row_def put_cursor_def Let_def)

lemma put_row_ok [store_inv]: "series_ok v \<Longrightarrow> se_cursor v k = Some (s, b) \<Longrightarrow> series_ok (put_row k s b a v)"
  by (auto simp: series_ok_def put_row_def)

lemma ring_spec_total:
  assumes "series_ok v" "ts \<noteq> []"
  shows "\<exists>v'. ring_spec fl ts k b inc v = Some v' \<and> series_ok v'"
  using assms
proof (induction fl ts k b inc v rule: ring_spec.induct)
  case (2 fl t ts k b inc v)
  show ?case
  proof (cases "se_cursor v k")
    case (Some c)
    then obtain s cb where c: "se_cursor v k = Some (s, cb)" by (cases c) auto
    then obtain ex where ex: "se_row v k s = Some (cb, ex)" using series_okD [OF "2.prems"(1)] by blast
    have "\<exists>v'. (case ts of [] \<Rightarrow> Some v | t' # _ \<Rightarrow> ring_spec fl ts (k + 1) (floor_to_step cb (ti_step t')) ex v) = Some v'
        \<and> series_ok v'" if "\<not> b \<le> cb"
      using "2.IH" [OF c refl ex refl that] "2.prems"(1) by (cases ts) auto
    then show ?thesis using c ex "2.prems"(1) by (auto intro: store_inv)
  qed (use "2.prems" in \<open>simp add: store_inv\<close>)
qed simp

section \<open>The client implements it\<close>

definition client_series :: "nat \<Rightarrow> 'f usage_db \<Rightarrow> 'f series" where
  "client_series m db = \<lparr>se_cursor = fetch_cursor db m, se_row = (\<lambda>k. if k < 3 then ring_row db k m else (\<lambda>_. None))\<rparr>"

lemma client_write:
  assumes "k < 3" "length (ud_rings db) = 3"
  shows "client_series m (write_slot k m s b a db) = put_row k s b a (client_series m db)"
  using assms by (auto simp: client_series_def put_row_def fun_eq_iff ring_row_write)

lemma client_open:
  assumes "k < 3" "length (ud_rings db) = 3"
  shows "client_series m (open_window k m b a db) = open_series (TIERS ! k) k b a (client_series m db)"
  using assms by (auto simp: client_series_def open_series_def put_row_def put_cursor_def Let_def fun_eq_iff open_window_facts)

lemma client_ok: "usage_inv db \<Longrightarrow> series_ok (client_series m db)"
  using usage_invD(4) by (fastforce simp: series_ok_def client_series_def)

lemma apply_sample_refines:
  assumes "usage_inv db" "t < 3" "m \<in> fst ` set (ud_metrics db)"
  shows "map_option (client_series m) (apply_sample fl t m b inc db) = ring_spec fl (drop t TIERS) t b inc (client_series m db)"
  using assms
proof (induction fl t m b inc db rule: apply_sample.induct)
  case (1 fl t m b inc db)
  note inv = "1.prems"(1) and t = "1.prems"(2)
  note len = usage_invD(1) [OF inv]
  have d: "drop t TIERS = TIERS ! t # drop (t + 1) TIERS" using t by (simp add: Cons_nth_drop_Suc)
  show ?case
  proof (cases "fetch_cursor db m t")
    case None
    then show ?thesis using apply_sample_cases(1) [OF t None]
      by (simp add: d client_open [OF t len]) (simp add: client_series_def)
  next
    case (Some c)
    then obtain s cb where cur: "fetch_cursor db m t = Some (s, cb)" by (cases c) auto
    then obtain ex where ex: "ring_row db t m s = Some (cb, ex)" "fetch_slot db t m s = Some ex"
      using cursor_slot [OF inv] by metis
    have v: "se_cursor (client_series m db) t = Some (s, cb)" "se_row (client_series m db) t s = Some (cb, ex)"
      using cur ex t by (simp_all add: client_series_def)
    consider "b \<le> cb" | "cb < b" "t = 2" | "cb < b" "t < 2" using t by linarith
    then show ?thesis
    proof cases
      case 1
      then show ?thesis using apply_sample_cases(2) [OF t cur ex(2)] by (simp add: d v client_write [OF t len])
    next
      case 2
      have "drop (t + 1) TIERS = []" using 2(2) by simp
      then show ?thesis using 2(1) by (simp only: apply_sample_cases(3) [OF t cur ex(2) 2] d) (simp add: v client_open [OF t len])
    next
      case 3
      let ?fb = "floor_to_step cb (ti_step (TIERS ! (t + 1)))"
      obtain db1 where db1: "apply_sample fl (t + 1) m ?fb ex db = Some db1" "usage_inv db1"
        using apply_sample_total [OF inv _ "1.prems"(3), where t = "t + 1" and b = ?fb and inc = ex and fl = fl] 3(2) by auto
      have "ring_spec fl (drop (t + 1) TIERS) (t + 1) ?fb ex (client_series m db) = Some (client_series m db1)"
        using "1.IH" [OF _ cur refl ex(2) _ _ _ refl] 3 t inv "1.prems"(3) db1(1) by (simp del: ring_spec.simps)
      moreover have "drop (t + 1) TIERS = TIERS ! (t + 1) # drop (t + 2) TIERS" using 3(2) by (simp add: Cons_nth_drop_Suc)
      then have "ring_spec fl (drop t TIERS) t b inc (client_series m db)
          = map_option (open_series (TIERS ! t) t b inc) (ring_spec fl (drop (t + 1) TIERS) (t + 1) ?fb ex (client_series m db))"
        using ring_spec_close [OF v] 3(1) by (simp only: d not_le)
      ultimately show ?thesis
        using apply_sample_cases(4) [OF t cur ex(2) 3] db1(1) client_open [OF t usage_invD(1) [OF db1(2)]] by simp
    qed
  qed
qed

end
