(* ===== verification/HubUsage.thy ===== *)
theory HubUsage
  imports ControlPlane RingSpec
begin

text \<open>
  The usage metrics of the hub (crates/wkp-hub/src/control_plane/usage.rs): the client's ring per tenant and
  with tiers an operator can change, kept in Postgres. The metric tables take the place of the parameter
  \<open>'u\<close> of the control plane. Floating-point arithmetic is the parameter \<open>fl\<close> as in \<open>Usage\<close>; the advisory
  locks are calls without effect (transactions run one after the other). A result \<open>None\<close> is a panic, which
  drops the transaction.
\<close>

section \<open>Tables\<close>

record 'f hub_usage =
  hu_metrics :: "(int \<times> string \<times> string) list"
  hu_config :: "(nat \<times> tier) list"
  hu_ring :: "((int \<times> int \<times> nat \<times> int) \<times> (int \<times> 'f slot_agg)) list"
  hu_cursors :: "((int \<times> int \<times> nat) \<times> (int \<times> int)) list"

definition hub_usage_schema :: "'f hub_usage" where
  "hub_usage_schema =
     \<lparr>hu_metrics = [], hu_config = [(0, \<lparr>ti_step = 60, ti_slots = 360\<rparr>), (1, \<lparr>ti_step = 900, ti_slots = 1344\<rparr>),
        (2, \<lparr>ti_step = 21600, ti_slots = 1460\<rparr>)], hu_ring = [], hu_cursors = []\<rparr>"

type_synonym ('f, 'a) ucp = "('f hub_usage, 'a) cp"

definition on_usage :: "('f hub_usage \<Rightarrow> 'f hub_usage) \<Rightarrow> ('f hub_usage, unit) stmt" where
  "on_usage f s = (Inr (), s\<lparr>pg_usage := f (pg_usage s)\<rparr>)"

definition lock_call :: "('f, unit) ucp" where
  "lock_call = execute (select (\<lambda>_. ()))"

text \<open>A transaction whose body may panic.\<close>

definition transaction_unwind :: "('u, 'a option) cp \<Rightarrow> ('u, 'a option) cp" where
  "transaction_unwind body =
     cp_bind (execute (select (\<lambda>_. ()))) (\<lambda>_ d.
       (case body d of
          (Inl e, d1) \<Rightarrow> (Inl e, rollback d d1)
        | (Inr None, d1) \<Rightarrow> (Inr None, rollback d d1)
        | (Inr (Some a), d1) \<Rightarrow>
            (let d2 = d1\<lparr>db_calls := Suc (db_calls d1)\<rparr> in
             case db_fault d1 (db_calls d1) of
               None \<Rightarrow> (Inr (Some a), d2)
             | Some (e, applied) \<Rightarrow> (Inl (Postgres e), if applied then d2 else rollback d d2))))"

section \<open>Configuration\<close>

definition load_tier_config :: "('f, tier list) ucp" where
  "load_tier_config = execute (select (\<lambda>s.
     map snd (sort_key fst (filter (\<lambda>(i, _). i \<in> {0, 1, 2}) (hu_config (pg_usage s))))))"

definition set_tier_config :: "int \<Rightarrow> int \<Rightarrow> int \<Rightarrow> ('f, unit) ucp" where
  "set_tier_config tier_idx step_secs slots =
     (if \<not> (0 \<le> tier_idx \<and> tier_idx \<le> 2) then
        cp_err (InvalidInput (''tier_idx must be 0, 1, or 2 (the three canonical tiers load_tier_config recognizes), got ''
          @ show_int tier_idx))
      else if step_secs < 1 \<or> slots < 1 then
        cp_err (InvalidInput (''step_secs and slots must both be >= 1 (a zero or negative step/slot count makes ''
          @ ''floor_to_step/slot_for divide by zero on every later record() call for this tier), got step_secs=''
          @ show_int step_secs @ '', slots='' @ show_int slots))
      else transaction (
        cp_bind lock_call (\<lambda>_.
        cp_bind (execute (on_usage (\<lambda>u. u\<lparr>hu_config := AList.update (nat tier_idx) \<lparr>ti_step = step_secs, ti_slots = slots\<rparr>
                                            (hu_config u)\<rparr>))) (\<lambda>_.
        cp_bind (execute (on_usage (\<lambda>u. u\<lparr>hu_ring := filter (\<lambda>((_, _, k, _), _). k \<noteq> nat tier_idx) (hu_ring u)\<rparr>))) (\<lambda>_.
        execute (on_usage (\<lambda>u. u\<lparr>hu_cursors := filter (\<lambda>((_, _, k), _). k \<noteq> nat tier_idx) (hu_cursors u)\<rparr>)))))))"

section \<open>Recording\<close>

text \<open>The upsert takes a number from the sequence whether or not the name is there.\<close>

definition upsert_metric :: "string \<Rightarrow> string \<Rightarrow> ('f hub_usage, int \<times> string) stmt" where
  "upsert_metric name kind s =
     (case nextval ''usage_metrics'' s of (i, s1) \<Rightarrow>
       (case List.find (\<lambda>(_, n, _). n = name) (hu_metrics (pg_usage s)) of
          Some (j, _, stored_kind) \<Rightarrow> (Inr (j, stored_kind), s1)
        | None \<Rightarrow> (Inr (i, kind), s1\<lparr>pg_usage := (pg_usage s1)\<lparr>hu_metrics := hu_metrics (pg_usage s1) @ [(i, name, kind)]\<rparr>\<rparr>)))"

definition hub_get_or_create_metric :: "string \<Rightarrow> metric_kind \<Rightarrow> ('f, int) ucp" where
  "hub_get_or_create_metric name kind =
     cp_bind (execute (upsert_metric name (kind_str kind))) (\<lambda>(i, stored_kind).
       if stored_kind \<noteq> kind_str kind then
         cp_err (InvalidInput (''metric '' @ [squote] @ name @ [squote] @ '' is already registered as '' @ [squote]
           @ stored_kind @ [squote] @ '', cannot record it as '' @ [squote] @ kind_str kind @ [squote]))
       else cp_ret i)"

definition hub_fetch_slot :: "int \<Rightarrow> int \<Rightarrow> nat \<Rightarrow> int \<Rightarrow> ('f, 'f slot_agg option) ucp" where
  "hub_fetch_slot tenant_id metric tier_idx slot =
     execute (select (\<lambda>s. map_option snd (map_of (hu_ring (pg_usage s)) (tenant_id, metric, tier_idx, slot))))"

text \<open>Both tables reference the tenant and the metric.\<close>

definition referenced :: "string \<Rightarrow> int \<Rightarrow> int \<Rightarrow> ('f hub_usage, unit) stmt \<Rightarrow> ('f hub_usage, unit) stmt" where
  "referenced table tenant_id metric stmt s =
     (if tenant_id \<notin> tn_id ` set (pg_tenants s) then (Inl (foreign_key (table @ ''_tenant_id_fkey'')), s)
      else if metric \<notin> fst ` set (hu_metrics (pg_usage s)) then (Inl (foreign_key (table @ ''_metric_id_fkey'')), s)
      else stmt s)"

definition hub_write_slot :: "int \<Rightarrow> int \<Rightarrow> nat \<Rightarrow> int \<Rightarrow> int \<Rightarrow> 'f slot_agg \<Rightarrow> ('f, unit) ucp" where
  "hub_write_slot tenant_id metric tier_idx slot bucket_start agg =
     execute (referenced ''usage_ring'' tenant_id metric
       (on_usage (\<lambda>u. u\<lparr>hu_ring := AList.update (tenant_id, metric, tier_idx, slot) (bucket_start, agg) (hu_ring u)\<rparr>)))"

definition hub_fetch_cursor :: "int \<Rightarrow> int \<Rightarrow> nat \<Rightarrow> ('f, (int \<times> int) option) ucp" where
  "hub_fetch_cursor tenant_id metric tier_idx =
     execute (select (\<lambda>s. map_of (hu_cursors (pg_usage s)) (tenant_id, metric, tier_idx)))"

definition hub_set_cursor :: "int \<Rightarrow> int \<Rightarrow> nat \<Rightarrow> int \<Rightarrow> int \<Rightarrow> ('f, unit) ucp" where
  "hub_set_cursor tenant_id metric tier_idx slot bucket_start =
     execute (referenced ''usage_cursors'' tenant_id metric
       (on_usage (\<lambda>u. u\<lparr>hu_cursors := AList.update (tenant_id, metric, tier_idx) (slot, bucket_start) (hu_cursors u)\<rparr>)))"

definition hub_open_window :: "tier \<Rightarrow> nat \<Rightarrow> int \<Rightarrow> int \<Rightarrow> int \<Rightarrow> 'f slot_agg \<Rightarrow> ('f, unit option) ucp" where
  "hub_open_window tier tier_idx tenant_id metric bucket_start incoming =
     (let slot = slot_for bucket_start (ti_step tier) (ti_slots tier) in
      cp_bind (hub_write_slot tenant_id metric tier_idx slot bucket_start incoming) (\<lambda>_.
      cp_bind (hub_set_cursor tenant_id metric tier_idx slot bucket_start) (\<lambda>_. cp_ret (Some ()))))"

text \<open>The first argument is the tiers from \<open>tier_idx\<close> on.\<close>

fun hub_apply :: "'f float_ops \<Rightarrow> tier list \<Rightarrow> nat \<Rightarrow> int \<Rightarrow> int \<Rightarrow> int \<Rightarrow> 'f slot_agg \<Rightarrow> ('f, unit option) ucp" where
  "hub_apply fl [] tier_idx tenant_id metric bucket_start incoming = cp_ret None"
| "hub_apply fl (tier # coarser) tier_idx tenant_id metric bucket_start incoming =
     cp_bind (hub_fetch_cursor tenant_id metric tier_idx) (\<lambda>cursor.
       case cursor of
         None \<Rightarrow> hub_open_window tier tier_idx tenant_id metric bucket_start incoming
       | Some (slot, cursor_bucket) \<Rightarrow>
           cp_bind (hub_fetch_slot tenant_id metric tier_idx slot) (\<lambda>existing.
             case existing of
               None \<Rightarrow> cp_ret None
             | Some existing \<Rightarrow>
                 if cursor_bucket = bucket_start then
                   cp_bind (hub_write_slot tenant_id metric tier_idx slot bucket_start (merged_with fl existing incoming True))
                     (\<lambda>_. cp_ret (Some ()))
                 else if cursor_bucket > bucket_start then
                   cp_bind (hub_write_slot tenant_id metric tier_idx slot cursor_bucket (merged_with fl existing incoming False))
                     (\<lambda>_. cp_ret (Some ()))
                 else
                   cp_bind (case coarser of
                              [] \<Rightarrow> cp_ret (Some ())
                            | next_tier # _ \<Rightarrow> hub_apply fl coarser (tier_idx + 1) tenant_id metric
                                (floor_to_step cursor_bucket (ti_step next_tier)) existing)
                     (\<lambda>folded. case folded of
                        None \<Rightarrow> cp_ret None
                      | Some _ \<Rightarrow> hub_open_window tier tier_idx tenant_id metric bucket_start incoming)))"

definition hub_record_body :: "'f float_ops \<Rightarrow> int \<Rightarrow> string \<Rightarrow> metric_kind \<Rightarrow> 'f \<Rightarrow> int \<Rightarrow> ('f, unit option) ucp" where
  "hub_record_body fl tenant_id name kind v at_secs =
     cp_bind (hub_get_or_create_metric name kind) (\<lambda>metric.
     cp_bind lock_call (\<lambda>_.
     cp_bind lock_call (\<lambda>_.
     cp_bind load_tier_config (\<lambda>tiers.
       case tiers of
         [] \<Rightarrow> cp_err (InvalidInput ''usage_metrics_config has no tiers -- schema not initialized correctly'')
       | tier # _ \<Rightarrow> hub_apply fl tiers 0 tenant_id metric (floor_to_step at_secs (ti_step tier)) (single v)))))"

definition hub_record :: "'f float_ops \<Rightarrow> int \<Rightarrow> string \<Rightarrow> metric_kind \<Rightarrow> 'f \<Rightarrow> int \<Rightarrow> ('f, unit option) ucp" where
  "hub_record fl tenant_id name kind v at_secs = transaction_unwind (hub_record_body fl tenant_id name kind v at_secs)"

definition hub_record_counter where
  "hub_record_counter fl tenant_id name millis at_secs = hub_record fl tenant_id name Counter millis at_secs"

definition hub_record_gauge where
  "hub_record_gauge fl tenant_id name v at_secs = hub_record fl tenant_id name Gauge v at_secs"

section \<open>Queries\<close>

text \<open>The product of step and slots is a 64-bit number and wraps.\<close>

definition wrap64 :: "int \<Rightarrow> int" where
  "wrap64 i = (i + 2 ^ 63) mod 2 ^ 64 - 2 ^ 63"

fun hub_position :: "int \<Rightarrow> tier list \<Rightarrow> nat option" where
  "hub_position window [] = None"
| "hub_position window (t # ts) =
     (if wrap64 (ti_step t * ti_slots t) \<ge> window then Some 0 else map_option Suc (hub_position window ts))"

definition hub_pick_tier_idx :: "tier list \<Rightarrow> int \<Rightarrow> nat" where
  "hub_pick_tier_idx tiers window_secs =
     (case hub_position window_secs tiers of Some i \<Rightarrow> i | None \<Rightarrow> length tiers - 1)"

definition hub_live_rows :: "int \<Rightarrow> int \<Rightarrow> nat \<Rightarrow> int \<Rightarrow> 'f hub_usage \<Rightarrow> (int \<times> 'f slot_agg) list" where
  "hub_live_rows tenant_id metric tier_idx cutoff u =
     map snd (filter (\<lambda>((t, m, k, s), (b, a)). t = tenant_id \<and> m = metric \<and> k = tier_idx \<and> b \<ge> cutoff) (hu_ring u))"

fun absorb_open :: "'f float_ops \<Rightarrow> int \<Rightarrow> int \<Rightarrow> int \<Rightarrow> nat list \<Rightarrow> 'f window_acc \<Rightarrow> ('f, 'f window_acc) ucp" where
  "absorb_open fl tenant_id metric cutoff [] acc = cp_ret acc"
| "absorb_open fl tenant_id metric cutoff (k # ks) acc =
     cp_bind (hub_fetch_cursor tenant_id metric k) (\<lambda>cursor.
       case cursor of
         None \<Rightarrow> absorb_open fl tenant_id metric cutoff ks acc
       | Some (slot, bucket) \<Rightarrow>
           if bucket \<ge> cutoff then
             cp_bind (hub_fetch_slot tenant_id metric k slot) (\<lambda>row.
               absorb_open fl tenant_id metric cutoff ks (case row of None \<Rightarrow> acc | Some agg \<Rightarrow> absorb fl (bucket, agg) acc))
           else absorb_open fl tenant_id metric cutoff ks acc)"

definition hub_query_window :: "'f float_ops \<Rightarrow> int \<Rightarrow> string \<Rightarrow> int \<Rightarrow> int \<Rightarrow> ('f, 'f metric_summary) ucp" where
  "hub_query_window fl tenant_id name window_secs now_secs =
     cp_bind (execute (select (\<lambda>s. map_option fst (List.find (\<lambda>(_, n, _). n = name) (hu_metrics (pg_usage s)))))) (\<lambda>found.
       case found of
         None \<Rightarrow> cp_ret (empty_summary fl)
       | Some metric \<Rightarrow>
           cp_bind load_tier_config (\<lambda>tiers.
             if tiers = [] then cp_ret (empty_summary fl)
             else (let cutoff = now_secs - window_secs; picked_idx = hub_pick_tier_idx tiers window_secs in
               cp_bind (execute (select (\<lambda>s. hub_live_rows tenant_id metric picked_idx cutoff (pg_usage s)))) (\<lambda>rows.
               cp_bind (absorb_open fl tenant_id metric cutoff [0..<picked_idx] (fold (absorb fl) rows (empty_acc fl))) (\<lambda>acc.
               cp_ret (into_summary fl acc))))))"

definition hub_list_metrics :: "('f, (string \<times> metric_kind) list option) ucp" where
  "hub_list_metrics =
     cp_bind (execute (select (\<lambda>s. sort_key (\<lambda>(_, name, _). name) (hu_metrics (pg_usage s))))) (\<lambda>rows.
       cp_ret (those (map (\<lambda>(_, name, kind). map_option (Pair name) (parse_kind kind)) rows)))"

section \<open>One sample\<close>

text \<open>What happens when a program of the control plane succeeds: no call failed, and every step did its work.\<close>

lemma cp_bind_Inr: "cp_bind m f d = (Inr b, d') \<longleftrightarrow> (\<exists>a d1. m d = (Inr a, d1) \<and> f a d1 = (Inr b, d'))"
  by (auto simp: cp_bind_def cp_try_def cp_err_def split: prod.splits sum.splits)

lemma cp_ret_Inr [simp]: "cp_ret a d = (Inr b, d') \<longleftrightarrow> b = a \<and> d' = d"
  by (auto simp: cp_ret_def)

lemma cp_err_Inr [simp]: "cp_err e d \<noteq> (Inr b, d')"
  by (simp add: cp_err_def)

lemma execute_Inr:
  "execute stmt d = (Inr a, d') \<longleftrightarrow> db_fault d (db_calls d) = None
     \<and> (\<exists>s. stmt (db_pg d) = (Inr a, s) \<and> d' = d\<lparr>db_calls := Suc (db_calls d), db_pg := s\<rparr>)"
  by (auto simp: execute_def Let_def split: prod.splits option.splits sum.splits if_splits)

lemma select_Inr [simp]: "select q s = (Inr a, s') \<longleftrightarrow> a = q s \<and> s' = s"
  by (auto simp: select_def)

definition hub_series :: "int \<Rightarrow> int \<Rightarrow> 'f hub_usage \<Rightarrow> 'f series" where
  "hub_series tenant_id metric u =
     \<lparr>se_cursor = (\<lambda>k. map_of (hu_cursors u) (tenant_id, metric, k)),
      se_row = (\<lambda>k s. map_of (hu_ring u) (tenant_id, metric, k, s))\<rparr>"

text \<open>Only the rows of one metric of one tenant differ.\<close>

definition usage_step :: "int \<Rightarrow> int \<Rightarrow> 'f hub_usage pg \<Rightarrow> 'f hub_usage pg \<Rightarrow> bool" where
  "usage_step tn m s s' \<longleftrightarrow>
     s' = s\<lparr>pg_usage := pg_usage s'\<rparr> \<and> hu_metrics (pg_usage s') = hu_metrics (pg_usage s)
     \<and> hu_config (pg_usage s') = hu_config (pg_usage s)
     \<and> (\<forall>tn' m'. (tn', m') \<noteq> (tn, m) \<longrightarrow> hub_series tn' m' (pg_usage s') = hub_series tn' m' (pg_usage s))"

lemma usage_step_refl [simp]: "usage_step tn m s s"
  by (simp add: usage_step_def)

lemma usage_step_trans: "usage_step tn m s s1 \<Longrightarrow> usage_step tn m s1 s2 \<Longrightarrow> usage_step tn m s s2"
  unfolding usage_step_def by (metis pg.update_convs(7) pg.surjective)

lemma hub_fetches:
  "hub_fetch_cursor tn m k d = (Inr c, d') \<Longrightarrow> db_pg d' = db_pg d \<and> c = se_cursor (hub_series tn m (pg_usage (db_pg d))) k"
  "hub_fetch_slot tn m k s d = (Inr a, d') \<Longrightarrow>
     db_pg d' = db_pg d \<and> a = map_option snd (se_row (hub_series tn m (pg_usage (db_pg d))) k s)"
  by (auto simp: hub_fetch_cursor_def hub_fetch_slot_def execute_Inr hub_series_def)

lemma hub_write_slot_step:
  assumes "hub_write_slot tn m k s b a d = (Inr x, d')"
  shows "usage_step tn m (db_pg d) (db_pg d')"
    "hub_series tn m (pg_usage (db_pg d')) = put_row k s b a (hub_series tn m (pg_usage (db_pg d)))"
  using assms
  by (auto simp: hub_write_slot_def execute_Inr referenced_def on_usage_def usage_step_def hub_series_def put_row_def
      update_conv' fun_eq_iff split: if_splits)

lemma hub_set_cursor_step:
  assumes "hub_set_cursor tn m k s b d = (Inr x, d')"
  shows "usage_step tn m (db_pg d) (db_pg d')"
    "hub_series tn m (pg_usage (db_pg d')) = put_cursor k s b (hub_series tn m (pg_usage (db_pg d)))"
  using assms
  by (auto simp: hub_set_cursor_def execute_Inr referenced_def on_usage_def usage_step_def hub_series_def put_cursor_def
      update_conv' fun_eq_iff split: if_splits)

lemma hub_open_window_step:
  assumes "hub_open_window t k tn m b a d = (Inr r, d')"
  shows "usage_step tn m (db_pg d) (db_pg d')" "r = Some ()"
    "hub_series tn m (pg_usage (db_pg d')) = open_series t k b a (hub_series tn m (pg_usage (db_pg d)))"
proof -
  let ?s = "slot_for b (ti_step t) (ti_slots t)"
  obtain x d1 where w: "hub_write_slot tn m k ?s b a d = (Inr x, d1)"
    and c: "hub_set_cursor tn m k ?s b d1 = (Inr (), d')" "r = Some ()"
    using assms by (auto simp: hub_open_window_def Let_def cp_bind_Inr)
  show "usage_step tn m (db_pg d) (db_pg d')"
    by (rule usage_step_trans [OF hub_write_slot_step(1) [OF w] hub_set_cursor_step(1) [OF c(1)]])
  show "r = Some ()" by (fact c)
  show "hub_series tn m (pg_usage (db_pg d')) = open_series t k b a (hub_series tn m (pg_usage (db_pg d)))"
    by (simp add: hub_set_cursor_step(2) [OF c(1)] hub_write_slot_step(2) [OF w] open_series_def Let_def)
qed

lemma hub_apply_refines:
  assumes "hub_apply fl ts k tn m b inc d = (Inr r, d')"
  shows "usage_step tn m (db_pg d) (db_pg d')
    \<and> (case r of None \<Rightarrow> ring_spec fl ts k b inc (hub_series tn m (pg_usage (db_pg d))) = None
       | Some _ \<Rightarrow> ring_spec fl ts k b inc (hub_series tn m (pg_usage (db_pg d))) = Some (hub_series tn m (pg_usage (db_pg d'))))"
  using assms
proof (induction fl ts k tn m b inc arbitrary: d r d' rule: hub_apply.induct)
  case (2 fl t ts k tn m b inc)
  let ?v = "hub_series tn m (pg_usage (db_pg d))"
  obtain c d1 where c: "hub_fetch_cursor tn m k d = (Inr c, d1)"
    and run: "(case c of None \<Rightarrow> hub_open_window t k tn m b inc | Some (s, cb) \<Rightarrow>
        cp_bind (hub_fetch_slot tn m k s) (\<lambda>ex. case ex of None \<Rightarrow> cp_ret None | Some ex \<Rightarrow>
          if cb = b then cp_bind (hub_write_slot tn m k s b (merged_with fl ex inc True)) (\<lambda>_. cp_ret (Some ()))
          else if b < cb then cp_bind (hub_write_slot tn m k s cb (merged_with fl ex inc False)) (\<lambda>_. cp_ret (Some ()))
          else cp_bind (case ts of [] \<Rightarrow> cp_ret (Some ()) | t' # _ \<Rightarrow>
                 hub_apply fl ts (k + 1) tn m (floor_to_step cb (ti_step t')) ex)
               (\<lambda>folded. case folded of None \<Rightarrow> cp_ret None | Some _ \<Rightarrow> hub_open_window t k tn m b inc))) d1 = (Inr r, d')"
    using "2.prems" by (auto simp: cp_bind_Inr)
  note c' = hub_fetches(1) [OF c]
  show ?case
  proof (cases c)
    case None
    then show ?thesis using run c' hub_open_window_step [of t k tn m b inc d1 r d'] by simp
  next
    case (Some p)
    then obtain s cb where p: "c = Some (s, cb)" by (cases p) auto
    obtain ex d2 where ex: "hub_fetch_slot tn m k s d1 = (Inr ex, d2)"
      using run by (auto simp: p cp_bind_Inr)
    note ex' = hub_fetches(2) [OF ex]
    have cur: "se_cursor ?v k = Some (s, cb)" using c' p by simp
    show ?thesis
    proof (cases ex)
      case None
      then show ?thesis using run c' ex ex' cur by (auto simp: p cp_bind_Inr split: option.splits)
    next
      case e: (Some a)
      then obtain cb' where row: "se_row ?v k s = Some (cb', a)" using ex' c' by (cases "se_row ?v k s") auto
      have pg: "db_pg d2 = db_pg d" using c' ex' by simp
      show ?thesis
      proof (cases "b \<le> cb")
        case True
        then have "hub_write_slot tn m k s cb (merged_with fl a inc (cb = b)) d2 = (Inr (), d')" "r = Some ()"
          using run ex by (auto simp: p e cp_bind_Inr split: if_splits)
        then show ?thesis
          using hub_write_slot_step [of tn m k s cb "merged_with fl a inc (cb = b)" d2] True by (simp add: pg cur row)
      next
        case False
        then obtain folded d3 where f: "(case ts of [] \<Rightarrow> cp_ret (Some ()) | t' # _ \<Rightarrow>
                 hub_apply fl ts (k + 1) tn m (floor_to_step cb (ti_step t')) a) d2 = (Inr folded, d3)"
          and o: "(case folded of None \<Rightarrow> cp_ret None | Some _ \<Rightarrow> hub_open_window t k tn m b inc) d3 = (Inr r, d')"
          using run ex by (auto simp: p e cp_bind_Inr split: if_splits)
        have fold: "usage_step tn m (db_pg d) (db_pg d3) \<and> (case folded of
             None \<Rightarrow> (case ts of [] \<Rightarrow> Some ?v | t' # _ \<Rightarrow> ring_spec fl ts (k + 1) (floor_to_step cb (ti_step t')) a ?v) = None
           | Some _ \<Rightarrow> (case ts of [] \<Rightarrow> Some ?v | t' # _ \<Rightarrow> ring_spec fl ts (k + 1) (floor_to_step cb (ti_step t')) a ?v)
               = Some (hub_series tn m (pg_usage (db_pg d3))))"
        proof (cases ts)
          case Nil
          then show ?thesis using f by (simp add: pg)
        next
          case (Cons t' ts')
          then show ?thesis
            using "2.IH" [of cb t' ts' a d2 folded d3] f False pg
            by (simp del: hub_apply.simps ring_spec.simps split: option.splits)
        qed
        show ?thesis
        proof (cases folded)
          case None
          then show ?thesis using fold o False by (simp add: cur row)
        next
          case (Some y)
          then have "hub_open_window t k tn m b inc d3 = (Inr r, d')" using o by simp
          note w = hub_open_window_step [OF this]
          show ?thesis
            using fold Some False usage_step_trans [OF _ w(1), of "db_pg d"] w(2,3) by (simp add: cur row)
        qed
      qed
    qed
  qed
qed simp

end
