(* ===== verification/HubUsageProps.thy ===== *)
theory HubUsageProps
  imports HubUsage
begin

text \<open>
  The invariant of the hub's metric tables under recording and reconfiguration, with any call to the database
  failing, and the proof that with the default tiers the hub keeps for every tenant and metric what the client
  keeps for the metric.
\<close>

section \<open>The invariant\<close>

abbreviation metric_seq :: "'f hub_usage pg \<Rightarrow> int" where
  "metric_seq s \<equiv> pg_seqs s ''usage_metrics''"

definition tiers_of :: "'f hub_usage \<Rightarrow> tier list" where
  "tiers_of u = map snd (hu_config u)"

definition hub_ok :: "'f hub_usage pg \<Rightarrow> bool" where
  "hub_ok s \<longleftrightarrow> (let u = pg_usage s in
     distinct (map fst (hu_metrics u)) \<and> distinct (map (\<lambda>(i, n, k). n) (hu_metrics u))
     \<and> (\<forall>(i, n, k) \<in> set (hu_metrics u). i \<le> metric_seq s \<and> parse_kind k \<noteq> None)
     \<and> map fst (hu_config u) = [0, 1, 2] \<and> (\<forall>t \<in> set (tiers_of u). 1 \<le> ti_step t \<and> 1 \<le> ti_slots t)
     \<and> (\<forall>tn m. series_ok (hub_series tn m u))
     \<and> (\<forall>tn m. m \<notin> fst ` set (hu_metrics u) \<longrightarrow> hub_series tn m u = no_series))"

lemma hub_okD:
  assumes "hub_ok s"
  shows "distinct (map fst (hu_metrics (pg_usage s)))" "distinct (map (\<lambda>(i, n, k). n) (hu_metrics (pg_usage s)))"
    "(i, n, k) \<in> set (hu_metrics (pg_usage s)) \<Longrightarrow> i \<le> metric_seq s \<and> parse_kind k \<noteq> None"
    "map fst (hu_config (pg_usage s)) = [0, 1, 2]"
    "t \<in> set (tiers_of (pg_usage s)) \<Longrightarrow> 1 \<le> ti_step t \<and> 1 \<le> ti_slots t"
    "series_ok (hub_series tn m (pg_usage s))"
    "m \<notin> fst ` set (hu_metrics (pg_usage s)) \<Longrightarrow> hub_series tn m (pg_usage s) = no_series"
  using assms by (auto simp: hub_ok_def Let_def)

lemma hub_series_frame [simp]:
  "hub_series tn m (u\<lparr>hu_metrics := x\<rparr>) = hub_series tn m u" "hub_series tn m (u\<lparr>hu_config := y\<rparr>) = hub_series tn m u"
  by (simp_all add: hub_series_def)

text \<open>A rolled back transaction only moves the sequence.\<close>

lemma hub_ok_seqs [store_inv]:
  assumes "hub_ok s" "metric_seq s \<le> q ''usage_metrics''"
  shows "hub_ok (s\<lparr>pg_seqs := q\<rparr>)"
proof -
  have "i \<le> q ''usage_metrics''" if "(i, n, k) \<in> set (hu_metrics (pg_usage s))" for i n k
    using hub_okD(3) [OF assms(1) that] assms(2) by simp
  then show ?thesis using assms(1) by (auto simp: hub_ok_def Let_def)
qed

lemma usage_stepD:
  assumes "usage_step tn m s s'"
  shows "pg_seqs s' = pg_seqs s" "pg_tenants s' = pg_tenants s" "hu_metrics (pg_usage s') = hu_metrics (pg_usage s)"
    "hu_config (pg_usage s') = hu_config (pg_usage s)"
    "(tn', m') \<noteq> (tn, m) \<Longrightarrow> hub_series tn' m' (pg_usage s') = hub_series tn' m' (pg_usage s)"
proof -
  obtain u where "s' = s\<lparr>pg_usage := u\<rparr>" using assms by (auto simp: usage_step_def)
  then show "pg_seqs s' = pg_seqs s" "pg_tenants s' = pg_tenants s" by simp_all
qed (use assms in \<open>auto simp: usage_step_def\<close>)

lemma hub_ok_step [store_inv]:
  assumes "hub_ok s" "usage_step tn m s s'" "m \<in> fst ` set (hu_metrics (pg_usage s))"
    and "series_ok (hub_series tn m (pg_usage s'))"
  shows "hub_ok s'"
proof -
  note D = hub_okD [OF assms(1)]
  have e: "metric_seq s' = metric_seq s" "hu_metrics (pg_usage s') = hu_metrics (pg_usage s)"
    "hu_config (pg_usage s') = hu_config (pg_usage s)"
    using usage_stepD [OF assms(2)] by simp_all
  have "series_ok (hub_series tn' m' (pg_usage s'))
      \<and> (m' \<notin> fst ` set (hu_metrics (pg_usage s)) \<longrightarrow> hub_series tn' m' (pg_usage s') = no_series)" for tn' m'
  proof (cases "(tn', m') = (tn, m)")
    case False
    then have same: "hub_series tn' m' (pg_usage s') = hub_series tn' m' (pg_usage s)" by (rule usage_stepD(5) [OF assms(2)])
    show ?thesis unfolding same using D(6) D(7) [of m'] by blast
  qed (use assms(3,4) in simp)
  then show ?thesis using assms(1) by (auto simp: hub_ok_def Let_def tiers_of_def e)
qed

section \<open>The catalog\<close>

definition find_row :: "string \<Rightarrow> 'f hub_usage \<Rightarrow> (int \<times> string \<times> string) option" where
  "find_row name u = List.find (\<lambda>(_, n, _). n = name) (hu_metrics u)"

lemma find_row_Some:
  assumes "find_row name u = Some (i, n, k)"
  shows "n = name" "(i, name, k) \<in> set (hu_metrics u)"
  using find_holds [OF assms [unfolded find_row_def]] by auto

lemma find_row_None: "find_row name u = None \<longleftrightarrow> (\<forall>(i, n, k) \<in> set (hu_metrics u). n \<noteq> name)"
  by (auto simp: find_row_def find_None_iff split: prod.splits)

lemma find_row_inj:
  assumes "hub_ok s" "find_row name (pg_usage s) = Some (i, n, k)" "find_row name' (pg_usage s) = Some (i, n', k')"
  shows "name' = name"
proof -
  note f = find_row_Some(2) [OF assms(2)] find_row_Some(2) [OF assms(3)]
  have "(i, name, k) = (i, name', k')"
    using hub_okD(1) [OF assms(1)] f by (metis eq_key_imp_eq_value fst_conv prod.sel(2))
  then show ?thesis by simp
qed

text \<open>What a tenant's metric looks like: its kind and its rings.\<close>

definition hub_view :: "int \<Rightarrow> string \<Rightarrow> 'f hub_usage \<Rightarrow> string option \<times> 'f series" where
  "hub_view tn name u = (case find_row name u of None \<Rightarrow> (None, no_series) | Some (i, _, k) \<Rightarrow> (Some k, hub_series tn i u))"

lemma hub_view_ok: "hub_ok s \<Longrightarrow> series_ok (snd (hub_view tn name (pg_usage s)))"
  by (auto simp: hub_view_def hub_okD(6) no_series_ok split: option.split)

lemma metric_created:
  assumes ok: "hub_ok (db_pg d)" and run: "hub_get_or_create_metric name kind d = (Inr i, d')"
  shows "hub_ok (db_pg d')" "find_row name (pg_usage (db_pg d')) = Some (i, name, kind_str kind)"
    "fst (hub_view tn name (pg_usage (db_pg d))) \<in> {None, Some (kind_str kind)}"
    "snd (hub_view tn' name' (pg_usage (db_pg d'))) = snd (hub_view tn' name' (pg_usage (db_pg d)))"
    "hu_config (pg_usage (db_pg d')) = hu_config (pg_usage (db_pg d))"
    "metric_seq (db_pg d) \<le> metric_seq (db_pg d')" "pg_tenants (db_pg d') = pg_tenants (db_pg d)"
proof -
  let ?s = "db_pg d" and ?u = "pg_usage (db_pg d)"
  let ?q = "(pg_seqs ?s)(''usage_metrics'' := metric_seq ?s + 1)"
  note D = hub_okD [OF ok]
  have bump: "hub_ok (?s\<lparr>pg_seqs := ?q\<rparr>)" by (rule hub_ok_seqs [OF ok]) simp
  consider (old) n where "find_row name ?u = Some (i, n, kind_str kind)" "db_pg d' = ?s\<lparr>pg_seqs := ?q\<rparr>"
    | (new) "find_row name ?u = None" "i = metric_seq ?s + 1"
        "db_pg d' = ?s\<lparr>pg_seqs := ?q, pg_usage := ?u\<lparr>hu_metrics := hu_metrics ?u @ [(i, name, kind_str kind)]\<rparr>\<rparr>"
    using run by (auto simp: hub_get_or_create_metric_def cp_bind_Inr execute_Inr upsert_metric_def nextval_def find_row_def
        split: prod.splits option.splits if_splits)
  then have "hub_ok (db_pg d') \<and> find_row name (pg_usage (db_pg d')) = Some (i, name, kind_str kind)
    \<and> fst (hub_view tn name ?u) \<in> {None, Some (kind_str kind)}
    \<and> (\<forall>tn' name'. snd (hub_view tn' name' (pg_usage (db_pg d'))) = snd (hub_view tn' name' ?u))
    \<and> hu_config (pg_usage (db_pg d')) = hu_config ?u \<and> metric_seq ?s \<le> metric_seq (db_pg d')
    \<and> pg_tenants (db_pg d') = pg_tenants ?s"
  proof cases
    case old
    then show ?thesis using bump find_row_Some(1) [OF old(1)] by (simp add: hub_view_def)
  next
    case new
    let ?u' = "?u\<lparr>hu_metrics := hu_metrics ?u @ [(i, name, kind_str kind)]\<rparr>"
    have fresh: "i \<notin> fst ` set (hu_metrics ?u)" using D(3) new(2) by fastforce
    have name: "name \<notin> set (map (\<lambda>(i, n, k). n) (hu_metrics ?u))"
      using new(1) by (auto simp: find_row_None)
    have find: "find_row name' ?u' = (if name' = name then Some (i, name, kind_str kind) else find_row name' ?u)" for name'
      using new(1) by (auto simp: find_row_def find_append split: option.split)
    have "hub_ok (db_pg d')"
      unfolding hub_ok_def Let_def new(3)
      using D(1,2,4,5,6,7) fresh name new(2)
      by (auto simp: tiers_of_def metric_kind_roundtrip split: prod.splits dest!: D(3))
    moreover have "snd (hub_view tn' name' ?u') = snd (hub_view tn' name' ?u)" for tn' name'
      using new(1) D(7) [OF fresh] by (auto simp: hub_view_def find split: option.splits)
    ultimately show ?thesis using new(1,3) find [of name] by (simp add: hub_view_def)
  qed
  then show "hub_ok (db_pg d')" "find_row name (pg_usage (db_pg d')) = Some (i, name, kind_str kind)"
    "fst (hub_view tn name ?u) \<in> {None, Some (kind_str kind)}"
    "snd (hub_view tn' name' (pg_usage (db_pg d'))) = snd (hub_view tn' name' ?u)"
    "hu_config (pg_usage (db_pg d')) = hu_config ?u"
    "metric_seq ?s \<le> metric_seq (db_pg d')" "pg_tenants (db_pg d') = pg_tenants ?s"
    by blast+
qed

section \<open>Recording\<close>

text \<open>
  What a recorded sample does to the view of its metric: a kind other than the registered one refuses it, else
  the rings take it. \<open>None\<close> is the refusal.
\<close>

definition record_spec ::
  "'f float_ops \<Rightarrow> tier list \<Rightarrow> metric_kind \<Rightarrow> 'f \<Rightarrow> int \<Rightarrow> string option \<times> 'f series \<Rightarrow> (string option \<times> 'f series) option" where
  "record_spec fl tiers kind v secs view =
     (if fst view \<in> {None, Some (kind_str kind)}
      then map_option (Pair (Some (kind_str kind)))
             (ring_spec fl tiers 0 (floor_to_step secs (ti_step (hd tiers))) (single v) (snd view))
      else None)"

lemma load_tier_config_Inr:
  assumes "hub_ok (db_pg d)" "load_tier_config d = (Inr ts, d')"
  shows "ts = tiers_of (pg_usage (db_pg d))" "db_pg d' = db_pg d" "ts \<noteq> []"
proof -
  obtain a b c where "hu_config (pg_usage (db_pg d)) = [(0, a), (1, b), (2, c)]"
    using hub_okD(4) [OF assms(1)] by (auto simp: map_eq_Cons_conv)
  then show "ts = tiers_of (pg_usage (db_pg d))" "db_pg d' = db_pg d" "ts \<noteq> []"
    using assms(2) by (auto simp: load_tier_config_def execute_Inr tiers_of_def)
qed

lemma record_body_refines:
  assumes ok: "hub_ok (db_pg d)" and run: "hub_record_body fl tn name kind v secs d = (Inr r, d')"
  shows "r = Some ()" "hub_ok (db_pg d')" "hu_config (pg_usage (db_pg d')) = hu_config (pg_usage (db_pg d))"
    "record_spec fl (tiers_of (pg_usage (db_pg d))) kind v secs (hub_view tn name (pg_usage (db_pg d)))
       = Some (hub_view tn name (pg_usage (db_pg d')))"
    "(tn', name') \<noteq> (tn, name) \<Longrightarrow>
       snd (hub_view tn' name' (pg_usage (db_pg d'))) = snd (hub_view tn' name' (pg_usage (db_pg d)))"
proof -
  obtain i d1 d2 d3 ts d4 where g: "hub_get_or_create_metric name kind d = (Inr i, d1)"
    and l: "lock_call d1 = (Inr (), d2)" "lock_call d2 = (Inr (), d3)" and c: "load_tier_config d3 = (Inr ts, d4)"
    and a: "(case ts of [] \<Rightarrow> cp_err (InvalidInput ''usage_metrics_config has no tiers -- schema not initialized correctly'')
       | tier # _ \<Rightarrow> hub_apply fl ts 0 tn i (floor_to_step secs (ti_step tier)) (single v)) d4 = (Inr r, d')"
    using run by (auto simp: hub_record_body_def cp_bind_Inr)
  note m = metric_created [OF ok g]
  have d3: "db_pg d3 = db_pg d1" using l by (auto simp: lock_call_def execute_Inr)
  then have ok3: "hub_ok (db_pg d3)" using m(1) by simp
  note t = load_tier_config_Inr [OF ok3 c]
  have ts: "ts = tiers_of (pg_usage (db_pg d))" "db_pg d4 = db_pg d1"
    using t d3 m(5) by (simp_all add: tiers_of_def)
  have ap: "hub_apply fl ts 0 tn i (floor_to_step secs (ti_step (hd ts))) (single v) d4 = (Inr r, d')"
    using a t(3) by (cases ts) simp_all
  note ref = hub_apply_refines [OF ap, unfolded ts(2)]
  have v: "hub_series tn i (pg_usage (db_pg d1)) = snd (hub_view tn name (pg_usage (db_pg d)))"
    using m(2) m(4) [of tn name] by (simp add: hub_view_def)
  obtain w where w: "ring_spec fl ts 0 (floor_to_step secs (ti_step (hd ts))) (single v) (hub_series tn i (pg_usage (db_pg d1))) = Some w"
    "series_ok w"
    using ring_spec_total [OF hub_okD(6) [OF m(1)] t(3)] by blast
  have r: "r = Some ()" "w = hub_series tn i (pg_usage (db_pg d'))" using ref w(1) by (auto split: option.splits)
  have step: "usage_step tn i (db_pg d1) (db_pg d')" using ref by blast
  have i: "i \<in> fst ` set (hu_metrics (pg_usage (db_pg d1)))" using find_row_Some(2) [OF m(2)] by force
  show "r = Some ()" by (fact r)
  show ok': "hub_ok (db_pg d')" using hub_ok_step [OF m(1) step i] w(2) r(2) by simp
  show "hu_config (pg_usage (db_pg d')) = hu_config (pg_usage (db_pg d))" using usage_stepD(4) [OF step] m(5) by simp
  have rows: "find_row n (pg_usage (db_pg d')) = find_row n (pg_usage (db_pg d1))" for n
    using usage_stepD(3) [OF step] by (simp add: find_row_def)
  show "record_spec fl (tiers_of (pg_usage (db_pg d))) kind v secs (hub_view tn name (pg_usage (db_pg d)))
       = Some (hub_view tn name (pg_usage (db_pg d')))"
    using m(3) [of tn] w(1) r(2) m(2) by (simp add: record_spec_def ts(1) [symmetric] v [symmetric] hub_view_def [of _ _ "pg_usage (db_pg d')"] rows)
  assume other: "(tn', name') \<noteq> (tn, name)"
  have "snd (hub_view tn' name' (pg_usage (db_pg d'))) = snd (hub_view tn' name' (pg_usage (db_pg d1)))"
  proof (cases "find_row name' (pg_usage (db_pg d1))")
    case (Some p)
    then obtain j n k where j: "find_row name' (pg_usage (db_pg d1)) = Some (j, n, k)" by (cases p) auto
    then have "(tn', j) \<noteq> (tn, i)" using other find_row_inj [OF m(1) _ m(2)] by blast
    then show ?thesis using usage_stepD(5) [OF step, of tn' j] j by (simp add: hub_view_def rows)
  qed (simp add: hub_view_def rows)
  then show "snd (hub_view tn' name' (pg_usage (db_pg d'))) = snd (hub_view tn' name' (pg_usage (db_pg d)))"
    using m(4) by simp
qed

text \<open>The sequence never runs backwards, also when a call fails.\<close>

named_theorems seq_rules

definition seq_grows :: "('f, 'a) ucp \<Rightarrow> bool" where
  "seq_grows m \<longleftrightarrow> (\<forall>d. metric_seq (db_pg d) \<le> metric_seq (db_pg (snd (m d))))"

lemma seq_execute:
  assumes "\<And>s. metric_seq s \<le> metric_seq (snd (stmt s))"
  shows "seq_grows (execute stmt)"
proof -
  have "metric_seq (db_pg d) \<le> metric_seq (db_pg (snd (execute stmt d)))" for d
    using assms [of "db_pg d"] by (cases "stmt (db_pg d)") (simp add: execute_def Let_def split: option.split)
  then show ?thesis by (simp add: seq_grows_def)
qed

lemma seq_bind [seq_rules]:
  assumes "seq_grows m" "\<And>a. seq_grows (f a)"
  shows "seq_grows (cp_bind m f)"
proof -
  have "metric_seq (db_pg d) \<le> metric_seq (db_pg (snd (cp_bind m f d)))" for d
  proof (cases "m d")
    case (Pair r d1)
    have "metric_seq (db_pg d) \<le> metric_seq (db_pg d1)" using assms(1) Pair unfolding seq_grows_def by (metis snd_conv)
    moreover have "metric_seq (db_pg d1) \<le> metric_seq (db_pg (snd (f a d1)))" for a
      using assms(2) unfolding seq_grows_def by blast
    ultimately show ?thesis
      using Pair order_trans by (cases r) (simp_all add: cp_bind_def cp_try_def cp_err_def, blast)
  qed
  then show ?thesis by (simp add: seq_grows_def)
qed

lemma seq_ret [seq_rules]: "seq_grows (cp_ret a)" "seq_grows (cp_err e)"
  by (simp_all add: seq_grows_def cp_ret_def cp_err_def)

lemma seq_cases [seq_rules]:
  "(c \<Longrightarrow> seq_grows m) \<Longrightarrow> (\<not> c \<Longrightarrow> seq_grows n) \<Longrightarrow> seq_grows (if c then m else n)"
  "(x = None \<Longrightarrow> seq_grows n) \<Longrightarrow> (\<And>a. x = Some a \<Longrightarrow> seq_grows (f a)) \<Longrightarrow> seq_grows (case x of None \<Rightarrow> n | Some a \<Rightarrow> f a)"
  "(\<And>a b. p = (a, b) \<Longrightarrow> seq_grows (g a b)) \<Longrightarrow> seq_grows (case p of (a, b) \<Rightarrow> g a b)"
  "(l = [] \<Longrightarrow> seq_grows n) \<Longrightarrow> (\<And>y ys. l = y # ys \<Longrightarrow> seq_grows (h y ys)) \<Longrightarrow> seq_grows (case l of [] \<Rightarrow> n | y # ys \<Rightarrow> h y ys)"
  by (cases x; cases p; cases l; simp)+

lemma seq_calls [seq_rules]:
  "seq_grows lock_call" "seq_grows load_tier_config" "seq_grows (execute (upsert_metric name kind_text))"
  "seq_grows (hub_fetch_cursor tn m k)" "seq_grows (hub_fetch_slot tn m k s)" "seq_grows (hub_write_slot tn m k s b a)"
  "seq_grows (hub_set_cursor tn m k s b)"
  unfolding lock_call_def load_tier_config_def hub_fetch_cursor_def hub_fetch_slot_def hub_write_slot_def hub_set_cursor_def
  by (rule seq_execute;
      simp add: select_def referenced_def on_usage_def upsert_metric_def nextval_def split: prod.split option.split)+

lemma seq_ops [seq_rules]:
  "seq_grows (hub_get_or_create_metric name kind)" "seq_grows (hub_open_window t k tn m b a)"
  unfolding hub_get_or_create_metric_def hub_open_window_def Let_def by (intro seq_rules)+

lemma seq_apply [seq_rules]: "seq_grows (hub_apply fl ts k tn m b inc)"
proof (induction fl ts k tn m b inc rule: hub_apply.induct)
  case (2 fl t ts k tn m b inc)
  show ?case unfolding hub_apply.simps by (intro seq_rules) (rule "2.IH"; assumption)
qed (simp add: seq_ret)

lemma seq_body [seq_rules]: "seq_grows (hub_record_body fl tn name kind v secs)"
  unfolding hub_record_body_def by (intro seq_rules)

section \<open>Transactions\<close>

text \<open>
  A transaction either leaves the database as it was, but for the sequences, and reports an error, or has done
  all of its body; then it may still report an error, when the answer of the commit was lost.
\<close>

lemma unwind_cases:
  assumes "transaction_unwind body d = (r, d')"
  obtains (undone) e d0 d1 where "r = Inl e" "db_pg d0 = db_pg d" "d1 = snd (body d0)"
      "db_pg d' = db_pg d \<or> db_pg d' = (db_pg d)\<lparr>pg_seqs := pg_seqs (db_pg d1)\<rparr>"
    | (panic) d0 d1 where "db_pg d0 = db_pg d" "body d0 = (Inr None, d1)"
    | (committed) a d0 d1 where "db_pg d0 = db_pg d" "body d0 = (Inr (Some a), d1)" "db_pg d' = db_pg d1"
        "r = Inr (Some a) \<or> (\<exists>e. r = Inl e)"
proof (cases "execute (select (\<lambda>_. ())) d")
  case (Pair r0 d0)
  have d0: "db_pg d0 = db_pg d"
    using Pair by (auto simp: execute_def select_def Let_def split: option.splits if_splits)
  show ?thesis
  proof (cases r0)
    case (Inl e)
    then show ?thesis
      using assms Pair d0 by (intro undone [of e d0]) (auto simp: transaction_unwind_def cp_bind_def cp_try_def cp_err_def)
  next
    case (Inr u)
    obtain q d1 where b: "body d0 = (q, d1)" by fastforce
    then have run: "(case q of Inl e \<Rightarrow> (Inl e, rollback d0 d1) | Inr None \<Rightarrow> (Inr None, rollback d0 d1)
        | Inr (Some a) \<Rightarrow> (let d2 = d1\<lparr>db_calls := Suc (db_calls d1)\<rparr> in
             case db_fault d1 (db_calls d1) of None \<Rightarrow> (Inr (Some a), d2)
             | Some (e, applied) \<Rightarrow> (Inl (Postgres e), if applied then d2 else rollback d0 d2))) = (r, d')"
      using assms Pair Inr by (simp add: transaction_unwind_def cp_bind_def cp_try_def split: sum.splits option.splits)
    consider e where "q = Inl e" | "q = Inr None" | a where "q = Inr (Some a)" by (metis option.exhaust sum.exhaust)
    then show ?thesis
    proof cases
      case 1
      then show ?thesis using run b d0 by (intro undone [of e d0 d1]) (auto simp: rollback_def)
    next
      case 2
      then show ?thesis using b d0 by (intro panic [of d0 d1]) simp_all
    next
      case 3
      show ?thesis
      proof (cases "db_fault d1 (db_calls d1)")
        case None
        then show ?thesis using 3 run b d0 by (intro committed [of d0 a d1]) (auto simp: Let_def)
      next
        case (Some f)
        then obtain e applied where f: "db_fault d1 (db_calls d1) = Some (e, applied)" by (cases f) auto
        show ?thesis
        proof (cases applied)
          case True
          then show ?thesis using 3 run b d0 f by (intro committed [of d0 a d1]) (auto simp: Let_def)
        next
          case False
          then show ?thesis using 3 run b d0 f by (intro undone [of "Postgres e" d0 d1]) (auto simp: Let_def rollback_def)
        qed
      qed
    qed
  qed
qed

lemma hub_record_cases:
  assumes ok: "hub_ok (db_pg d)" and run: "hub_record fl tn name kind v secs d = (r, d')"
  shows "hub_ok (db_pg d')" "hu_config (pg_usage (db_pg d')) = hu_config (pg_usage (db_pg d))"
    "(tn', name') \<noteq> (tn, name) \<Longrightarrow> snd (hub_view tn' name' (pg_usage (db_pg d'))) = snd (hub_view tn' name' (pg_usage (db_pg d)))"
    "r = Inr (Some ()) \<or> (\<exists>e. r = Inl e)"
    "(pg_usage (db_pg d') = pg_usage (db_pg d) \<and> (\<exists>e. r = Inl e))
     \<or> record_spec fl (tiers_of (pg_usage (db_pg d))) kind v secs (hub_view tn name (pg_usage (db_pg d)))
         = Some (hub_view tn name (pg_usage (db_pg d')))"
proof -
  let ?u = "pg_usage (db_pg d)" and ?u' = "pg_usage (db_pg d')"
  have "hub_ok (db_pg d') \<and> hu_config ?u' = hu_config ?u
    \<and> (\<forall>tn' name'. (tn', name') \<noteq> (tn, name) \<longrightarrow> snd (hub_view tn' name' ?u') = snd (hub_view tn' name' ?u))
    \<and> (r = Inr (Some ()) \<or> (\<exists>e. r = Inl e))
    \<and> ((?u' = ?u \<and> (\<exists>e. r = Inl e))
       \<or> record_spec fl (tiers_of ?u) kind v secs (hub_view tn name ?u) = Some (hub_view tn name ?u'))"
    using run unfolding hub_record_def
  proof (cases rule: unwind_cases)
    case (undone e d0 d1)
    have "metric_seq (db_pg d0) \<le> metric_seq (db_pg d1)" using seq_body [of fl tn name kind v secs] undone(3) by (simp add: seq_grows_def)
    then have "hub_ok ((db_pg d)\<lparr>pg_seqs := pg_seqs (db_pg d1)\<rparr>)" using hub_ok_seqs [OF ok] undone(2) by simp
    then show ?thesis using undone ok by auto
  next
    case (panic d0 d1)
    then show ?thesis using record_body_refines(1) [OF _ panic(2)] ok by simp
  next
    case (committed a d0 d1)
    have "hub_ok (db_pg d0)" using ok committed(1) by simp
    note b = record_body_refines [OF this committed(2), unfolded committed(1)]
    show ?thesis using b committed(3,4) by (simp add: tiers_of_def)
  qed
  then show "hub_ok (db_pg d')" "hu_config ?u' = hu_config ?u"
    "(tn', name') \<noteq> (tn, name) \<Longrightarrow> snd (hub_view tn' name' ?u') = snd (hub_view tn' name' ?u)"
    "r = Inr (Some ()) \<or> (\<exists>e. r = Inl e)"
    "(?u' = ?u \<and> (\<exists>e. r = Inl e))
     \<or> record_spec fl (tiers_of ?u) kind v secs (hub_view tn name ?u) = Some (hub_view tn name ?u')"
    by blast+
qed

section \<open>Reconfiguring\<close>

text \<open>What changing a tier's geometry does to one metric: its window and rows of that tier are gone.\<close>

definition without_tier :: "nat \<Rightarrow> 'f series \<Rightarrow> 'f series" where
  "without_tier k v = \<lparr>se_cursor = (se_cursor v)(k := None), se_row = (se_row v)(k := (\<lambda>_. None))\<rparr>"

lemma without_tier_ok [store_inv]: "series_ok v \<Longrightarrow> series_ok (without_tier k v)"
  by (auto simp: series_ok_def without_tier_def)

lemma map_of_filter_key: "map_of (filter (\<lambda>(key, _). P key) al) key = (if P key then map_of al key else None)"
  by (induction al) auto

definition reconfigured :: "nat \<Rightarrow> tier \<Rightarrow> 'f hub_usage \<Rightarrow> 'f hub_usage" where
  "reconfigured k t u =
     u\<lparr>hu_config := AList.update k t (hu_config u),
       hu_ring := filter (\<lambda>((_, _, j, _), _). j \<noteq> k) (hu_ring u),
       hu_cursors := filter (\<lambda>((_, _, j), _). j \<noteq> k) (hu_cursors u)\<rparr>"

lemma reconfigured_series: "hub_series tn m (reconfigured k t u) = without_tier k (hub_series tn m u)"
proof -
  have "filter (\<lambda>((_, _, j, _), _). j \<noteq> k) (hu_ring u) = filter (\<lambda>(key, _). (case key of (_, _, j, _) \<Rightarrow> j \<noteq> k)) (hu_ring u)"
    "filter (\<lambda>((_, _, j), _). j \<noteq> k) (hu_cursors u) = filter (\<lambda>(key, _). (case key of (_, _, j) \<Rightarrow> j \<noteq> k)) (hu_cursors u)"
    by (auto intro!: filter_cong)
  then show ?thesis
    by (simp add: hub_series_def reconfigured_def without_tier_def map_of_filter_key fun_eq_iff)
qed

lemma reconfigured_view:
  "hub_view tn name (reconfigured k t u) = map_prod id (without_tier k) (hub_view tn name u)"
  by (auto simp: hub_view_def find_row_def reconfigured_series split: option.split)
     (auto simp: reconfigured_def without_tier_def no_series_def fun_eq_iff)

lemma reconfigured_ok [store_inv]:
  assumes ok: "hub_ok s" and "k \<in> {0, 1, 2}" "1 \<le> ti_step t" "1 \<le> ti_slots t"
  shows "hub_ok (s\<lparr>pg_usage := reconfigured k t (pg_usage s)\<rparr>)"
proof -
  note D = hub_okD [OF ok]
  let ?u = "pg_usage s"
  obtain a b c where cfg: "hu_config ?u = [(0, a), (1, b), (2, c)]" using D(4) by (auto simp: map_eq_Cons_conv)
  have "\<forall>x \<in> set (tiers_of ?u). 1 \<le> ti_step x \<and> 1 \<le> ti_slots x" using D(5) by blast
  then have config: "map fst (hu_config (reconfigured k t ?u)) = [0, 1, 2]
      \<and> (\<forall>x \<in> set (tiers_of (reconfigured k t ?u)). 1 \<le> ti_step x \<and> 1 \<le> ti_slots x)"
    using assms(2-4) by (auto simp: reconfigured_def tiers_of_def cfg)
  have metrics: "hu_metrics (reconfigured k t ?u) = hu_metrics ?u" by (simp add: reconfigured_def)
  have series: "series_ok (hub_series tn m (reconfigured k t ?u))"
    "m \<notin> fst ` set (hu_metrics ?u) \<Longrightarrow> hub_series tn m (reconfigured k t ?u) = no_series" for tn m
    using D(6) D(7) [of m] by (simp_all add: reconfigured_series without_tier_ok)
      (simp add: without_tier_def no_series_def fun_eq_iff)
  show ?thesis
    unfolding hub_ok_def Let_def
    using D(1,2) config series by (auto simp: metrics dest: D(3))
qed

lemma execute_cases:
  assumes "execute (on_usage f) d = (r, d')"
  shows "db_pg d' = db_pg d \<and> (\<exists>e. r = Inl e) \<or> db_pg d' = (db_pg d)\<lparr>pg_usage := f (pg_usage (db_pg d))\<rparr>"
  using assms by (auto simp: execute_def on_usage_def Let_def split: option.splits if_splits)

lemma set_tier_config_cases:
  fixes d :: "'f hub_usage db"
  assumes "set_tier_config i step slots d = (r, d')"
  obtains (refused) e q where "r = Inl e" "db_pg d' = (db_pg d)\<lparr>pg_seqs := q\<rparr>" "metric_seq (db_pg d) \<le> q ''usage_metrics''"
    | (reset) "i \<in> {0, 1, 2}" "1 \<le> step" "1 \<le> slots"
        "db_pg d' = (db_pg d)\<lparr>pg_usage := reconfigured (nat i) \<lparr>ti_step = step, ti_slots = slots\<rparr> (pg_usage (db_pg d))\<rparr>"
proof (cases "(0 \<le> i \<and> i \<le> 2) \<and> 1 \<le> step \<and> 1 \<le> slots")
  case False
  then show ?thesis using assms refused [of _ "pg_seqs (db_pg d)"] by (auto simp: set_tier_config_def cp_err_def split: if_splits)
next
  case ok: True
  define body :: "('f, unit) ucp" where "body = cp_bind lock_call (\<lambda>_.
        cp_bind (execute (on_usage (\<lambda>u. u\<lparr>hu_config := AList.update (nat i) \<lparr>ti_step = step, ti_slots = slots\<rparr> (hu_config u)\<rparr>))) (\<lambda>_.
        cp_bind (execute (on_usage (\<lambda>u. u\<lparr>hu_ring := filter (\<lambda>((_, _, k, _), _). k \<noteq> nat i) (hu_ring u)\<rparr>))) (\<lambda>_.
        execute (on_usage (\<lambda>u. u\<lparr>hu_cursors := filter (\<lambda>((_, _, k), _). k \<noteq> nat i) (hu_cursors u)\<rparr>)))))"
  have run: "transaction body d = (r, d')" using assms ok by (simp add: set_tier_config_def body_def)
  have pg: "db_pg d1 = (db_pg d0)\<lparr>pg_usage := reconfigured (nat i) \<lparr>ti_step = step, ti_slots = slots\<rparr> (pg_usage (db_pg d0))\<rparr>"
    if "body d0 = (Inr (), d1)" for d0 d1
    using that by (auto simp: body_def cp_bind_Inr execute_Inr lock_call_def on_usage_def reconfigured_def)
  have "seq_grows body"
    unfolding body_def by (intro seq_rules seq_execute) (simp_all add: on_usage_def)
  obtain r0 d0 where d0: "execute (select (\<lambda>_. ())) d = (r0, d0)" by fastforce
  then have e0: "db_pg d0 = db_pg d" by (auto simp: execute_def select_def Let_def split: option.splits if_splits)
  obtain q d1 where b: "body d0 = (q, d1)" by fastforce
  have grows: "metric_seq (db_pg d) \<le> metric_seq (db_pg d1)"
    using \<open>seq_grows body\<close> b e0 unfolding seq_grows_def by (metis snd_conv)
  have undo: "db_pg (rollback d0 (d1\<lparr>db_calls := n\<rparr>)) = (db_pg d)\<lparr>pg_seqs := pg_seqs (db_pg d1)\<rparr>"
    "db_pg (rollback d0 d1) = (db_pg d)\<lparr>pg_seqs := pg_seqs (db_pg d1)\<rparr>" for n
    by (simp_all add: rollback_def e0)
  show ?thesis
  proof (cases r0)
    case (Inl e)
    then show ?thesis using refused [of e "pg_seqs (db_pg d)"] run d0 e0 by (auto simp: transaction_def cp_bind_def cp_try_def cp_err_def)
  next
    case u: (Inr u)
    show ?thesis
    proof (cases q)
      case (Inl e)
      then show ?thesis using refused [of e "pg_seqs (db_pg d1)"] run d0 b u grows undo(2)
        by (auto simp: transaction_def cp_bind_def cp_try_def)
    next
      case (Inr x)
      have "i = 0 \<or> i = 1 \<or> i = 2" using ok by arith
      note res = this pg [of d0 d1] b [unfolded Inr] e0
      show ?thesis
      proof (cases "db_fault d1 (db_calls d1)")
        case None
        then show ?thesis using reset run d0 b u Inr res ok by (auto simp: transaction_def cp_bind_def cp_try_def Let_def)
      next
        case (Some f)
        then obtain e applied where f: "db_fault d1 (db_calls d1) = Some (e, applied)" by (cases f) auto
        show ?thesis
        proof (cases applied)
          case True
          then show ?thesis using reset run d0 b u Inr res ok f by (auto simp: transaction_def cp_bind_def cp_try_def Let_def)
        next
          case False
          then show ?thesis using refused [of "Postgres e" "pg_seqs (db_pg d1)"] run d0 b u Inr f grows undo(1)
            by (auto simp: transaction_def cp_bind_def cp_try_def Let_def)
        qed
      qed
    qed
  qed
qed

section \<open>Any history\<close>

text \<open>The calls of the hub on its metric tables; a tier change reports nothing.\<close>

datatype 'f usage_call = Sample int string metric_kind 'f int | Configure int int int

fun run_usage :: "'f float_ops \<Rightarrow> 'f usage_call \<Rightarrow> ('f, unit option) ucp" where
  "run_usage fl (Sample tn name kind v secs) = hub_record fl tn name kind v secs"
| "run_usage fl (Configure i step slots) = cp_bind (set_tier_config i step slots) (\<lambda>_. cp_ret (Some ()))"

fun usage_calls :: "'f float_ops \<Rightarrow> 'f usage_call list \<Rightarrow> 'f hub_usage db \<Rightarrow> (cp_error, unit option) result list \<times> 'f hub_usage db" where
  "usage_calls fl [] d = ([], d)"
| "usage_calls fl (c # cs) d =
     (case run_usage fl c d of (r, d1) \<Rightarrow> (case usage_calls fl cs d1 of (rs, d2) \<Rightarrow> (r # rs, d2)))"

lemma run_usage_ok [store_inv]:
  assumes "hub_ok (db_pg d)" "run_usage fl c d = (r, d')"
  shows "hub_ok (db_pg d') \<and> r \<noteq> Inr None"
proof (cases c)
  case (Sample tn name kind v secs)
  then have "hub_record fl tn name kind v secs d = (r, d')" using assms(2) by simp
  from hub_record_cases(1,4) [OF assms(1) this] show ?thesis by auto
next
  case (Configure i step slots)
  obtain q d1 where q: "set_tier_config i step slots d = (q, d1)" by fastforce
  then have "r \<noteq> Inr None \<and> d' = d1" using assms(2) Configure
    by (auto simp: cp_bind_def cp_try_def cp_err_def cp_ret_def split: sum.splits)
  moreover have "hub_ok (db_pg d1)"
    using q
  proof (cases rule: set_tier_config_cases)
    case reset
    have "nat i \<in> {0, 1, 2}" using reset(1) by auto
    then show ?thesis using reconfigured_ok [OF assms(1)] reset(2,3,4) by simp
  next
    case (refused e x)
    then show ?thesis using hub_ok_seqs [OF assms(1)] by simp
  qed
  ultimately show ?thesis by simp
qed

lemma usage_calls_ok:
  "hub_ok (db_pg d) \<Longrightarrow> hub_ok (db_pg (snd (usage_calls fl cs d))) \<and> Inr None \<notin> set (fst (usage_calls fl cs d))"
proof (induction cs arbitrary: d)
  case (Cons c cs)
  obtain r d1 where c: "run_usage fl c d = (r, d1)" by fastforce
  show ?case using run_usage_ok [OF Cons.prems c] Cons.IH [of d1] c by (auto split: prod.splits)
qed simp

lemma schema_ok: "pg_usage s = hub_usage_schema \<Longrightarrow> hub_ok s"
  by (auto simp: hub_ok_def Let_def hub_usage_schema_def tiers_of_def hub_series_def no_series_def series_ok_def)

end
