(* ===== verification/HubClientUsage.thy ===== *)
theory HubClientUsage
  imports HubUsageProps
begin

text \<open>
  The hub's metric tables against the client's: a simulation of the client's \<open>record_sample\<close> by the hub's
  \<open>record\<close> for one tenant, whatever the database does; and the safety of the tables over any history.
\<close>

section \<open>The client's view of a metric\<close>

definition client_view :: "string \<Rightarrow> 'f usage_db \<Rightarrow> string option \<times> 'f series" where
  "client_view name db =
     (case List.find (\<lambda>(i, n, k). n = name) (ud_metrics db) of
        None \<Rightarrow> (None, no_series)
      | Some (i, n, k) \<Rightarrow> (Some k, client_series i db))"

lemma client_series_fresh: "usage_inv db \<Longrightarrow> m \<notin> fst ` set (ud_metrics db) \<Longrightarrow> client_series m db = no_series"
proof -
  assume inv: "usage_inv db" and m: "m \<notin> fst ` set (ud_metrics db)"
  have c: "fetch_cursor db m k = None" for k
    using usage_invD(4) [OF inv, of m k] m by (cases "fetch_cursor db m k") auto
  have "ring_row db k m s = None" if "k < 3" for k s
    using usage_invD(5) [OF inv that, of m s] c [of k] by (cases "ring_row db k m s") auto
  then show "client_series m db = no_series" using c by (auto simp: client_series_def no_series_def fun_eq_iff)
qed

lemma client_series_metrics [simp]: "client_series m (db\<lparr>ud_metrics := t\<rparr>) = client_series m db"
  by (simp add: client_series_def fetch_cursor_def ring_row_def fun_eq_iff)

text \<open>The catalog step of the client, seen by the view.\<close>

lemma client_metric:
  assumes inv: "usage_inv db" and run: "get_or_create_metric name kind db = Inr (i, tx)"
  shows "usage_inv tx" "i \<in> fst ` set (ud_metrics tx)" "List.find (\<lambda>(i, n, k). n = name) (ud_metrics tx) = Some (i, name, kind_str kind)"
    "client_series i tx = snd (client_view name db)" "fst (client_view name db) \<in> {None, Some (kind_str kind)}"
proof -
  note g = get_or_create_metric_Inr [OF usage_invD(2) [OF inv] run]
  consider (old) n where "List.find (\<lambda>(i, n, k). n = name) (ud_metrics db) = Some (i, n, kind_str kind)" "tx = db"
    | (new) t where "List.find (\<lambda>(i, n, k). n = name) (ud_metrics db) = None"
        "add_metric (kind_str kind) name (ud_metrics db) = Some (i, t)" "tx = db\<lparr>ud_metrics := t\<rparr>"
    using run by (auto simp: get_or_create_metric_def split: option.splits if_splits)
  then have "usage_inv tx \<and> i \<in> fst ` set (ud_metrics tx)
    \<and> List.find (\<lambda>(i, n, k). n = name) (ud_metrics tx) = Some (i, name, kind_str kind)
    \<and> client_series i tx = snd (client_view name db) \<and> fst (client_view name db) \<in> {None, Some (kind_str kind)}"
  proof cases
    case old
    note f = find_holds [OF old(1)]
    then show ?thesis using inv old by (auto simp: client_view_def intro: rev_image_eqI)
  next
    case new
    have t: "t = ud_metrics db @ [(i, (name, kind_str kind))]" by (rule add_metric_Some(2) [OF new(2)])
    have "metric_id (ud_metrics db) name = None" using new(1) find_metric [of name "ud_metrics db"] by simp
    then have "\<forall>l. metric_id (ud_metrics db) l \<noteq> Some i" using g(5) by auto
    then have i: "i \<notin> fst ` set (ud_metrics db)"
      using new(2) next_rowid_fresh by (auto simp: add_metric_def Let_def split: if_splits)
    show ?thesis using get_or_create_inv(1) [OF inv run] new(1,3) t client_series_fresh [OF inv i]
      by (auto simp: client_view_def find_append split: option.splits)
  qed
  then show "usage_inv tx" "i \<in> fst ` set (ud_metrics tx)"
    "List.find (\<lambda>(i, n, k). n = name) (ud_metrics tx) = Some (i, name, kind_str kind)"
    "client_series i tx = snd (client_view name db)" "fst (client_view name db) \<in> {None, Some (kind_str kind)}"
    by blast+
qed

lemma client_record_refines:
  assumes inv: "usage_inv db" and run: "record_sample fl name kind v secs db = (r, db')"
  shows "r = Inr () \<and> record_spec fl TIERS kind v secs (client_view name db) = Some (client_view name db')
     \<or> (\<exists>e. r = Inl e) \<and> db' = db \<and> record_spec fl TIERS kind v secs (client_view name db) = None"
proof (cases "get_or_create_metric name kind db")
  case (Inl e)
  have "add_metric (kind_str kind) name (ud_metrics db) \<noteq> None"
    if "List.find (\<lambda>(i, n, k). n = name) (ud_metrics db) = None"
    using that find_metric [of name "ud_metrics db"] catalog.add_None [of "kind_str kind" name "ud_metrics db"] by simp
  then have "fst (client_view name db) \<notin> {None, Some (kind_str kind)}"
    using Inl by (auto simp: client_view_def get_or_create_metric_def split: option.splits if_splits)
  then show ?thesis using run Inl by (auto simp: record_sample_def record_spec_def)
next
  case (Inr p)
  then obtain i tx where g: "get_or_create_metric name kind db = Inr (i, tx)" by (cases p) auto
  note m = client_metric [OF inv g]
  let ?b = "floor_to_step secs (ti_step (TIERS ! 0))"
  obtain w where w: "apply_sample fl 0 i ?b (single v) tx = Some w" "frame 0 i tx w"
    using apply_sample_total [OF m(1) _ m(2), of 0 fl ?b "single v"] by auto
  have "ring_spec fl TIERS 0 ?b (single v) (snd (client_view name db)) = Some (client_series i w)"
    using apply_sample_refines [OF m(1) _ m(2), of 0 fl ?b "single v"] w(1) m(4) by simp
  moreover have "client_view name w = (Some (kind_str kind), client_series i w)"
    using m(3) w(2) by (simp add: client_view_def frame_def)
  ultimately have "record_spec fl TIERS kind v secs (client_view name db) = Some (client_view name w)"
    using m(5) by (simp add: record_spec_def TIERS_def)
  then show ?thesis using run w(1) by (simp add: record_sample_def g Let_def)
qed

section \<open>Without faults the hub makes progress\<close>

named_theorems goes_rules

definition calm :: "int \<Rightarrow> int option \<Rightarrow> 'f hub_usage db \<Rightarrow> bool" where
  "calm tn m d \<longleftrightarrow> db_fault d = (\<lambda>_. None) \<and> tn \<in> tn_id ` set (pg_tenants (db_pg d))
     \<and> (\<forall>i. m = Some i \<longrightarrow> i \<in> fst ` set (hu_metrics (pg_usage (db_pg d))))"

definition goes :: "('f hub_usage db \<Rightarrow> bool) \<Rightarrow> ('f, 'a) ucp \<Rightarrow> bool" where
  "goes P m \<longleftrightarrow> (\<forall>d. P d \<longrightarrow> (\<exists>a d'. m d = (Inr a, d') \<and> P d'))"

lemma goes_bind [goes_rules]: "goes P m \<Longrightarrow> (\<And>a. goes P (f a)) \<Longrightarrow> goes P (cp_bind m f)"
  unfolding goes_def by (metis cp_bind_Inr)

lemma goes_ret [goes_rules]: "goes P (cp_ret a)"
  by (simp add: goes_def cp_ret_def)

lemma goes_cases [goes_rules]:
  "(c \<Longrightarrow> goes P m) \<Longrightarrow> (\<not> c \<Longrightarrow> goes P n) \<Longrightarrow> goes P (if c then m else n)"
  "(x = None \<Longrightarrow> goes P n) \<Longrightarrow> (\<And>a. x = Some a \<Longrightarrow> goes P (f a)) \<Longrightarrow> goes P (case x of None \<Rightarrow> n | Some a \<Rightarrow> f a)"
  "(\<And>a b. p = (a, b) \<Longrightarrow> goes P (g a b)) \<Longrightarrow> goes P (case p of (a, b) \<Rightarrow> g a b)"
  "(l = [] \<Longrightarrow> goes P n) \<Longrightarrow> (\<And>y ys. l = y # ys \<Longrightarrow> goes P (h y ys)) \<Longrightarrow> goes P (case l of [] \<Rightarrow> n | y # ys \<Rightarrow> h y ys)"
  by (cases x; cases p; cases l; simp)+

lemma goes_execute:
  fixes stmt :: "('a hub_usage, 'b) stmt"
  assumes "\<And>d. calm tn m d \<Longrightarrow> \<exists>a s. stmt (db_pg d) = (Inr a, s) \<and> pg_tenants s = pg_tenants (db_pg d)
      \<and> hu_metrics (pg_usage s) = hu_metrics (pg_usage (db_pg d))"
  shows "goes (calm tn m) (execute stmt)"
  unfolding goes_def
proof (intro allI impI)
  fix d :: "'a hub_usage db" assume c: "calm tn m d"
  obtain a s where "stmt (db_pg d) = (Inr a, s)" "pg_tenants s = pg_tenants (db_pg d)"
    "hu_metrics (pg_usage s) = hu_metrics (pg_usage (db_pg d))" using assms [OF c] by blast
  then show "\<exists>a d'. execute stmt d = (Inr a, d') \<and> calm tn m d'"
    using c by (auto simp: execute_Inr calm_def)
qed

lemma goes_calls [goes_rules]:
  "goes (calm tn m) lock_call" "goes (calm tn m) load_tier_config"
  "goes (calm tn (Some i)) (hub_fetch_cursor tn i k)" "goes (calm tn (Some i)) (hub_fetch_slot tn i k s)"
  "goes (calm tn (Some i)) (hub_write_slot tn i k s b a)" "goes (calm tn (Some i)) (hub_set_cursor tn i k s b)"
  unfolding lock_call_def load_tier_config_def hub_fetch_cursor_def hub_fetch_slot_def hub_write_slot_def hub_set_cursor_def
  by (rule goes_execute; simp add: select_def referenced_def on_usage_def calm_def)+

lemma goes_open [goes_rules]: "goes (calm tn (Some i)) (hub_open_window t k tn i b a)"
  unfolding hub_open_window_def Let_def by (intro goes_rules)

lemma goes_apply [goes_rules]: "goes (calm tn (Some m)) (hub_apply fl ts k tn m b inc)"
proof (induction fl ts k tn m b inc rule: hub_apply.induct)
  case (2 fl t ts k tn m b inc)
  show ?case unfolding hub_apply.simps by (intro goes_rules) (rule "2.IH"; assumption)
qed (simp add: goes_ret)

lemma record_body_goes:
  assumes ok: "hub_ok (db_pg d)" and c: "calm tn None d"
    and fits: "fst (hub_view tn name (pg_usage (db_pg d))) \<in> {None, Some (kind_str kind)}"
  shows "\<exists>d'. hub_record_body fl tn name kind v secs d = (Inr (Some ()), d') \<and> db_fault d' = (\<lambda>_. None)"
proof -
  obtain i d1 where g: "hub_get_or_create_metric name kind d = (Inr i, d1)" "calm tn (Some i) d1"
  proof (cases "find_row name (pg_usage (db_pg d))")
    case None
    then show ?thesis using c that
      by (auto simp: hub_get_or_create_metric_def cp_bind_Inr execute_Inr upsert_metric_def nextval_def find_row_def calm_def)
  next
    case (Some p)
    then obtain i n k where p: "find_row name (pg_usage (db_pg d)) = Some (i, n, k)" by (cases p) auto
    moreover have "k = kind_str kind" using fits p by (simp add: hub_view_def)
    moreover have "i \<in> fst ` set (hu_metrics (pg_usage (db_pg d)))" using find_row_Some(2) [OF p] by force
    ultimately show ?thesis using c that
      by (auto simp: hub_get_or_create_metric_def cp_bind_Inr execute_Inr upsert_metric_def nextval_def find_row_def calm_def)
  qed
  have rest: "goes (calm tn (Some i)) (cp_bind lock_call (\<lambda>_. lock_call))" by (intro goes_rules)
  obtain d2 d3 where l: "lock_call d1 = (Inr (), d2)" "lock_call d2 = (Inr (), d3)" "calm tn (Some i) d3"
    using rest g(2) by (auto simp: goes_def cp_bind_Inr)
  have pg: "db_pg d3 = db_pg d1" using l by (auto simp: lock_call_def execute_Inr)
  have "goes (calm tn (Some i)) load_tier_config" by (intro goes_rules)
  then obtain ts d4 where t: "load_tier_config d3 = (Inr ts, d4)" "calm tn (Some i) d4"
    using l(3) unfolding goes_def by blast
  have "hub_ok (db_pg d3)" using metric_created(1) [OF ok g(1)] pg by simp
  then obtain t' ts' where ts: "ts = t' # ts'" using load_tier_config_Inr(3) [OF _ t(1)] by (cases ts) auto
  obtain r d5 where a: "hub_apply fl ts 0 tn i (floor_to_step secs (ti_step t')) (single v) d4 = (Inr r, d5)" "calm tn (Some i) d5"
    using goes_apply t(2) unfolding goes_def by blast
  have "hub_record_body fl tn name kind v secs d = (Inr r, d5)"
    using g l t a by (auto simp: hub_record_body_def cp_bind_Inr ts)
  then show ?thesis using record_body_refines(1) [OF ok] a(2) by (auto simp: calm_def)
qed

lemma record_goes:
  assumes "hub_ok (db_pg d)" "calm tn None d" "fst (hub_view tn name (pg_usage (db_pg d))) \<in> {None, Some (kind_str kind)}"
  shows "fst (hub_record fl tn name kind v secs d) = Inr (Some ())"
proof -
  let ?d = "d\<lparr>db_calls := Suc (db_calls d)\<rparr>"
  have start: "execute (select (\<lambda>_. ())) d = (Inr (), ?d)" using assms(2) by (simp add: execute_Inr calm_def)
  have "\<exists>d'. hub_record_body fl tn name kind v secs ?d = (Inr (Some ()), d') \<and> db_fault d' = (\<lambda>_. None)"
    using assms by (intro record_body_goes) (simp_all add: calm_def)
  then show ?thesis using start by (auto simp: hub_record_def transaction_unwind_def cp_bind_def cp_try_def Let_def)
qed

section \<open>The hub keeps what the client keeps\<close>


definition hub_of :: "'f hub_usage \<Rightarrow> (nat \<Rightarrow> (string \<times> bool) option) \<Rightarrow> 'f hub_usage db" where
  "hub_of u fault =
     \<lparr>db_pg = \<lparr>pg_tenants = [\<lparr>tn_id = 1, tn_slug = ''alice'', tn_always_warm = False, tn_pod_running = False,
                               tn_pod_started_at = None, tn_last_active_at = 0\<rparr>],
        pg_devices = [], pg_grants = [], pg_resets = [], pg_notified = [], pg_seqs = (\<lambda>_. 0), pg_usage = u\<rparr>,
      db_now = 0, db_url = True, db_calls = 0, db_fault = fault\<rparr>"


section \<open>Any history of the hub's metrics\<close>

lemma those_None_iff: "those xs = None \<longleftrightarrow> None \<in> set xs"
  by (induction xs) (auto split: option.split)

text \<open>
  No history of the hub's metrics makes it panic. Start from the schema, record and reconfigure in any order,
  for any tenants, metrics, times and geometries, with any calls to the database failing: no recording runs
  into the two places that expect a row and find none, every cursor points at a row of its bucket, and the
  catalog can be listed.
\<close>

lemma hub_usage_never_panics:
  assumes "pg_usage (db_pg d) = hub_usage_schema"
  shows "case usage_calls fl calls d of (results, d') \<Rightarrow>
      Inr None \<notin> set results
    \<and> (\<forall>tn m k s b. map_of (hu_cursors (pg_usage (db_pg d'))) (tn, m, k) = Some (s, b) \<longrightarrow>
         (\<exists>a. map_of (hu_ring (pg_usage (db_pg d'))) (tn, m, k, s) = Some (b, a)))
    \<and> fst (hub_list_metrics d') \<noteq> Inr None"
proof -
  obtain results d' where run: "usage_calls fl calls d = (results, d')" by fastforce
  note ok = usage_calls_ok [OF schema_ok [OF assms], of fl calls, unfolded run, simplified]
  have "\<exists>a. map_of (hu_ring (pg_usage (db_pg d'))) (tn, m, k, s) = Some (b, a)"
    if "map_of (hu_cursors (pg_usage (db_pg d'))) (tn, m, k) = Some (s, b)" for tn m k s b
    using series_okD [OF hub_okD(6), of "db_pg d'" tn m k s b] ok that by (simp add: hub_series_def)
  moreover have "fst (hub_list_metrics d') \<noteq> Inr None"
  proof
    assume "fst (hub_list_metrics d') = Inr None"
    then obtain d2 where "hub_list_metrics d' = (Inr None, d2)" by (cases "hub_list_metrics d'") auto
    then have "those (map (\<lambda>(_, name, kind). map_option (Pair name) (parse_kind kind))
        (sort_key (\<lambda>(_, name, _). name) (hu_metrics (pg_usage (db_pg d'))))) = None"
      by (auto simp: hub_list_metrics_def cp_bind_Inr execute_Inr)
    then have "\<exists>(i, n, k) \<in> set (hu_metrics (pg_usage (db_pg d'))). parse_kind k = None"
      by (force simp: those_None_iff)
    then show False using hub_okD(3) ok by blast
  qed
  ultimately show ?thesis using ok run by auto
qed

lemma hub_usage_never_panics_witness:
  "Inr None \<notin> set (fst (usage_calls int_ops
     [Sample 1 ''rpc'' Counter 5 61, Configure 0 30 2, Sample 1 ''rpc'' Counter 7 200, Sample 1 ''rpc'' Gauge 7 3, Sample 9 ''x'' Gauge 1 1]
     (hub_of hub_usage_schema (\<lambda>n. if n = 9 then Some (''connection reset'', True) else None))))"
proof -
  let ?d = "hub_of hub_usage_schema (\<lambda>n. if n = 9 then Some (''connection reset'', True) else None) :: int hub_usage db"
  have "pg_usage (db_pg ?d) = hub_usage_schema" by (simp add: hub_of_def)
  from hub_usage_never_panics [OF this, where fl = int_ops
      and calls = "[Sample 1 ''rpc'' Counter 5 61, Configure 0 30 2, Sample 1 ''rpc'' Counter 7 200, Sample 1 ''rpc'' Gauge 7 3,
        Sample 9 ''x'' Gauge 1 1]"]
  show ?thesis by (auto split: prod.splits)
qed

end
