(* ===== verification/TenantRepo.thy ===== *)
theory TenantRepo
  imports GitCmd Recipients IndexStore
begin

text \<open>
  A tenant's bare repository on the hub and the index built from it (crates/wkp-hub/src/tenant_repo.rs). The
  state is the world and the index database published for the tenant. The hub reads blobs of HEAD through
  git; what is private, encrypted or not text stays out of the index.
\<close>

section \<open>Paths, provisioning, the current head\<close>

definition tenant_storage_dir :: "string \<Rightarrow> string \<Rightarrow> string" where
  "tenant_storage_dir repos_root tenant_slug = join_path repos_root tenant_slug"

definition tenant_repo_path :: "string \<Rightarrow> string \<Rightarrow> string" where
  "tenant_repo_path repos_root tenant_slug = join_path (tenant_storage_dir repos_root tenant_slug) ''repo.git''"

definition tenant_index_path :: "string \<Rightarrow> string \<Rightarrow> string" where
  "tenant_index_path repos_root tenant_slug = join_path (tenant_storage_dir repos_root tenant_slug) ''index.db''"

definition provision_tenant_repo :: "'g git \<Rightarrow> string \<Rightarrow> string \<Rightarrow> ('g world, string) prog" where
  "provision_tenant_repo git repos_root tenant_slug =
     (let repo_path = tenant_repo_path repos_root tenant_slug in
      andthen (init_bare_repo git repo_path) (\<lambda>_.
      andthen (set_local_config git repo_path ''receive.fsckObjects'' ''true'') (\<lambda>_.
      andthen (set_local_config git repo_path ''transfer.fsckObjects'' ''true'') (\<lambda>_.
      ret repo_path))))"

text \<open>An unborn HEAD is printed back as it is, so only a full object name counts.\<close>

definition current_head :: "'g git \<Rightarrow> string \<Rightarrow> string \<Rightarrow> ('g world, string option) prog" where
  "current_head git repos_root tenant_slug =
     attempt (current_commit git (tenant_repo_path repos_root tenant_slug)) (\<lambda>r.
       ret (case r of
              Inl _ \<Rightarrow> None
            | Inr sha \<Rightarrow> if length sha = 40 \<and> list_all is_ascii_hexdigit sha then Some sha else None))"

section \<open>Indexing\<close>

record index_summary =
  ix_indexed :: "string list"
  ix_skipped_private :: "string list"

text \<open>The item made of a blob that is text and not private.\<close>

definition tenant_item :: "string \<Rightarrow> string \<Rightarrow> item" where
  "tenant_item path text =
     (let parsed = Frontmatter.parse text in
      \<lparr>it_path = path, it_frontmatter = pr_frontmatter parsed, it_body = pr_body parsed, it_embedding = None,
       it_human_signed = False\<rparr>)"

fun index_paths ::
  "'g git \<Rightarrow> string \<Rightarrow> string list \<Rightarrow> index_summary \<times> item list \<Rightarrow> ('g world, index_summary \<times> item list) prog" where
  "index_paths git repo_path [] acc = ret acc"
| "index_paths git repo_path (path # paths) (summary, items) =
     (if \<not> ends_with path ''.md'' then index_paths git repo_path paths (summary, items)
      else andthen (read_blob git repo_path (''HEAD:'' @ path)) (\<lambda>blob.
        if starts_with blob AGE_HEADER then
          index_paths git repo_path paths (summary\<lparr>ix_skipped_private := ix_skipped_private summary @ [path]\<rparr>, items)
        else if \<not> valid_utf8 blob then index_paths git repo_path paths (summary, items)
        else if fm_visibility (pr_frontmatter (Frontmatter.parse blob)) = Some Private then
          index_paths git repo_path paths (summary\<lparr>ix_skipped_private := ix_skipped_private summary @ [path]\<rparr>, items)
        else index_paths git repo_path paths
               (summary\<lparr>ix_indexed := ix_indexed summary @ [path]\<rparr>, items @ [tenant_item path blob])))"

text \<open>A panic of the tier gate is the error \<open>Panicked\<close> of the build; the message of an SQLite error is not modelled.\<close>

definition index_tenant ::
  "'g git \<Rightarrow> string \<Rightarrow> string \<Rightarrow> string \<Rightarrow> 'g world \<times> index_db option
    \<Rightarrow> (string + index_error, index_summary) result \<times> 'g world \<times> index_db option" where
  "index_tenant git today repos_root tenant_slug s =
     (case s of (w, published) \<Rightarrow>
       let repo_path = tenant_repo_path repos_root tenant_slug in
       (case attempt (list_files_at_ref git repo_path ''HEAD'') (\<lambda>r.
               index_paths git repo_path (case r of Inl _ \<Rightarrow> [] | Inr paths \<Rightarrow> paths)
                 (\<lparr>ix_indexed = [], ix_skipped_private = []\<rparr>, [])) w of
          (Inl e, w') \<Rightarrow> (Inl (Inl e), w', published)
        | (Inr (summary, items), w') \<Rightarrow>
            (case build_index today items published of
               (Inl e, published') \<Rightarrow> (Inl (Inr e), w', published')
             | (Inr _, published') \<Rightarrow> (Inr summary, w', published'))))"

section \<open>What the index holds\<close>

text \<open>
  What git is documented to do with a repository that nobody writes meanwhile: HEAD lists the files and each
  blob reads back.
\<close>

definition holds_files :: "'g git \<Rightarrow> string \<Rightarrow> (string \<times> string) list \<Rightarrow> bool" where
  "holds_files git repo files \<longleftrightarrow>
     (\<forall>w. fst (list_files_at_ref git repo ''HEAD'' w) = Inr (map fst files))
     \<and> (\<forall>w. \<forall>(path, blob) \<in> set files. fst (read_blob git repo (''HEAD:'' @ path) w) = Inr blob)"

definition is_private_blob :: "string \<Rightarrow> bool" where
  "is_private_blob blob \<longleftrightarrow>
     starts_with blob AGE_HEADER \<or> (valid_utf8 blob \<and> fm_visibility (pr_frontmatter (Frontmatter.parse blob)) = Some Private)"

definition shared_files :: "(string \<times> string) list \<Rightarrow> (string \<times> string) list" where
  "shared_files files = filter (\<lambda>(path, blob). ends_with path ''.md'' \<and> valid_utf8 blob \<and> \<not> is_private_blob blob) files"

definition private_files :: "(string \<times> string) list \<Rightarrow> (string \<times> string) list" where
  "private_files files = filter (\<lambda>(path, blob). ends_with path ''.md'' \<and> is_private_blob blob) files"

text \<open>The same while the world is as \<open>P\<close> says, which the calls of git leave so.\<close>

definition holds_while :: "('g world \<Rightarrow> bool) \<Rightarrow> 'g git \<Rightarrow> string \<Rightarrow> (string \<times> string) list \<Rightarrow> bool" where
  "holds_while P git repo files \<longleftrightarrow>
     (\<forall>w. P w \<longrightarrow> (\<exists>w'. list_files_at_ref git repo ''HEAD'' w = (Inr (map fst files), w') \<and> P w'))
     \<and> (\<forall>w. P w \<longrightarrow> (\<forall>(path, blob) \<in> set files. \<exists>w'. read_blob git repo (''HEAD:'' @ path) w = (Inr blob, w') \<and> P w'))"

lemma holds_files_always: "holds_files git repo files \<longleftrightarrow> holds_while (\<lambda>_. True) git repo files"
  unfolding holds_files_def holds_while_def by (auto simp: prod_eq_iff)

lemma files_Cons:
  "shared_files ((path, blob) # fs) =
     (if ends_with path ''.md'' \<and> valid_utf8 blob \<and> \<not> is_private_blob blob then (path, blob) # shared_files fs else shared_files fs)"
  "private_files ((path, blob) # fs) =
     (if ends_with path ''.md'' \<and> is_private_blob blob then (path, blob) # private_files fs else private_files fs)"
  by (simp_all add: shared_files_def private_files_def)

lemma index_paths_run:
  assumes "holds_while P git repo files" "set fs \<subseteq> set files" "P w"
  shows "\<exists>w'. P w' \<and> index_paths git repo (map fst fs) (summary, items) w =
    (Inr (\<lparr>ix_indexed = ix_indexed summary @ map fst (shared_files fs),
          ix_skipped_private = ix_skipped_private summary @ map fst (private_files fs)\<rparr>,
         items @ map (\<lambda>(path, blob). tenant_item path blob) (shared_files fs)), w')"
  using assms(2,3)
proof (induction fs arbitrary: summary items w)
  case Nil
  then show ?case by (simp add: shared_files_def private_files_def ret_def)
next
  case (Cons f fs)
  obtain path blob where f: "f = (path, blob)" by (cases f)
  obtain w1 where r: "read_blob git repo (''HEAD:'' @ path) w = (Inr blob, w1)" "P w1"
    using assms(1) Cons.prems f unfolding holds_while_def by fastforce
  have IH: "\<exists>w'. P w' \<and> index_paths git repo (map fst fs) (s, i) v =
      (Inr (\<lparr>ix_indexed = ix_indexed s @ map fst (shared_files fs),
            ix_skipped_private = ix_skipped_private s @ map fst (private_files fs)\<rparr>,
           i @ map (\<lambda>(path, blob). tenant_item path blob) (shared_files fs)), w')" if "P v" for s i v
    using Cons.IH Cons.prems(1) that by simp
  note read = andthen_Inr [where m = "read_blob git repo (''HEAD:'' @ path)", OF r(1), simplified]
  show ?case
    using IH [OF r(2), of "summary\<lparr>ix_skipped_private := ix_skipped_private summary @ [path]\<rparr>" items]
      IH [OF r(2), of "summary\<lparr>ix_indexed := ix_indexed summary @ [path]\<rparr>" "items @ [tenant_item path blob]"]
      IH [OF r(2), of summary items] IH [OF Cons.prems(2), of summary items]
    by (simp add: f read files_Cons is_private_blob_def)
qed

lemma tenant_row: "item_row today (tenant_item path blob) \<noteq> None"
  "item_row today (tenant_item path blob) = Some row \<Longrightarrow> ir_tier row = 2"
  by (auto simp: item_row_def tenant_item_def Let_def compute_tier_def split: if_splits)

lemma tenant_item_paths: "map it_path (map (\<lambda>(path, blob). tenant_item path blob) fs) = map fst fs"
  by (auto simp: tenant_item_def Let_def)

lemma index_tenant_while:
  assumes "holds_while P git (tenant_repo_path repos_root slug) files" "distinct (map fst files)" "P w"
  obtains w' db where "index_tenant git today repos_root slug (w, published)
      = (Inr \<lparr>ix_indexed = map fst (shared_files files), ix_skipped_private = map fst (private_files files)\<rparr>, w', Some db)"
    "P w'" "index_inv db" "item_view db = items_view today (map (\<lambda>(path, blob). tenant_item path blob) (shared_files files))"
proof -
  let ?repo = "tenant_repo_path repos_root slug" and ?none = "\<lparr>ix_indexed = [], ix_skipped_private = []\<rparr> :: index_summary"
  let ?items = "map (\<lambda>(path, blob). tenant_item path blob) (shared_files files)"
  obtain w1 where l: "list_files_at_ref git ?repo ''HEAD'' w = (Inr (map fst files), w1)" "P w1"
    using assms(1,3) unfolding holds_while_def by blast
  obtain w2 where p: "P w2" "index_paths git ?repo (map fst files) (?none, []) w1
      = (Inr (\<lparr>ix_indexed = map fst (shared_files files), ix_skipped_private = map fst (private_files files)\<rparr>, ?items), w2)"
    using index_paths_run [OF assms(1) _ l(2), of files ?none "[]"] by auto
  have "distinct (map fst (shared_files files))"
    using assms(2) unfolding shared_files_def by (rule distinct_filter_fst)
  then have d: "distinct (map it_path ?items)" by (simp only: tenant_item_paths)
  moreover have "\<forall>item \<in> set ?items. item_row today item \<noteq> None" using tenant_row(1) by auto
  ultimately obtain db where db: "populate today ?items = Inr db" using populate_cases(1) by blast
  note view = populate_cases(2) [OF db]
  have "index_tenant git today repos_root slug (w, published)
      = (Inr \<lparr>ix_indexed = map fst (shared_files files), ix_skipped_private = map fst (private_files files)\<rparr>, w2, Some db)"
    by (simp add: index_tenant_def attempt_def l(1) p(2) build_index_def db)
  then show ?thesis using that p(1) view items_view_overlay [OF d, of today] by simp
qed

lemma index_tenant_run:
  assumes "holds_files git (tenant_repo_path repos_root slug) files" "distinct (map fst files)"
  obtains w' db where "index_tenant git today repos_root slug (w, published)
      = (Inr \<lparr>ix_indexed = map fst (shared_files files), ix_skipped_private = map fst (private_files files)\<rparr>, w', Some db)"
    "index_inv db" "item_view db = items_view today (map (\<lambda>(path, blob). tenant_item path blob) (shared_files files))"
  using assms unfolding holds_files_always by (elim index_tenant_while [where w = w]) auto

text \<open>
  C20. The hub indexes exactly what is shared. When git serves the files of HEAD, indexing a tenant succeeds,
  whatever was indexed before, and the published index keeps the invariant of its tables and holds one row for
  each Markdown file that is text, not encrypted and not private, made of that file; the summary names these
  and the private ones; and no row is above tier 2, since nothing the hub indexes counts as signed.
\<close>

theorem tenant_index_exact:
  assumes "holds_files git (tenant_repo_path repos_root slug) files" "distinct (map fst files)"
  shows "\<exists>w' db. index_tenant git today repos_root slug (w, published)
      = (Inr \<lparr>ix_indexed = map fst (shared_files files), ix_skipped_private = map fst (private_files files)\<rparr>, w', Some db)
    \<and> index_inv db \<and> item_view db = items_view today (map (\<lambda>(path, blob). tenant_item path blob) (shared_files files))
    \<and> (\<forall>path row. item_view db path = Some row \<longrightarrow> path \<in> fst ` set (shared_files files) \<and> ir_tier row = 2)"
proof -
  obtain w' db where run: "index_tenant git today repos_root slug (w, published)
      = (Inr \<lparr>ix_indexed = map fst (shared_files files), ix_skipped_private = map fst (private_files files)\<rparr>, w', Some db)"
    "index_inv db" "item_view db = items_view today (map (\<lambda>(path, blob). tenant_item path blob) (shared_files files))"
    by (rule index_tenant_run [OF assms])
  have "path \<in> fst ` set (shared_files files) \<and> ir_tier row = 2" if row: "item_view db path = Some row" for path row
  proof -
    obtain item where i: "List.find (\<lambda>item. it_path item = path) (map (\<lambda>(path, blob). tenant_item path blob) (shared_files files)) = Some item"
      "item_row today item = Some row"
      using row run(3) by (auto simp: items_view_def bind_eq_Some_conv)
    obtain p blob where "item = tenant_item p blob" "(p, blob) \<in> set (shared_files files)" "it_path item = path"
      using find_holds [OF i(1)] by auto
    then show ?thesis using tenant_row(2) i(2) by (force simp: tenant_item_def Let_def)
  qed
  then show ?thesis using run by blast
qed

text \<open>
  C21. A private item stays out of the hub's index, end to end. What the clean filter of a device hands to git
  for a private item is, under age's documented header, never indexed by the hub under any name: after the hub
  has indexed a repository that holds the blob, the index has no row for its path and the summary does not list
  it as indexed.
\<close>

theorem private_item_never_indexed:
  assumes "\<forall>rs p c. ag_encrypt ag rs p = Inr c \<longrightarrow> starts_with c AGE_HEADER"
    and "valid_utf8 content" "fm_visibility (pr_frontmatter (Frontmatter.parse content)) = Some Private"
    and "run_filter_clean ag store_root content dw = (Inr blob, dw')"
    and "holds_files git (tenant_repo_path repos_root slug) files" "distinct (map fst files)" "(path, blob) \<in> set files"
  shows "\<exists>summary w' db. index_tenant git today repos_root slug (w, published) = (Inr summary, w', Some db)
     \<and> item_view db path = None \<and> path \<notin> set (ix_indexed summary)"
proof -
  have "ag_encrypt ag (map re_recipient rs) content = Inr blob" if "encrypt ag content (map re_recipient rs) = Inr blob" for rs
    using that by (auto simp: encrypt_def split: if_splits sum.splits)
  moreover obtain contents w1 where "(case encrypt ag content (map re_recipient (parse_recipients ag contents)) of
      Inl e \<Rightarrow> err (crypto_error_str e) | Inr ciphertext \<Rightarrow> ret ciphertext) w1 = (Inr blob, dw')"
    using assms(2-4) unfolding run_filter_clean_def Let_def by (auto elim: andthen_ok)
  ultimately have "starts_with blob AGE_HEADER" using assms(1) by (auto split: sum.splits)
  then have "path \<notin> fst ` set (shared_files files)"
    using eq_key_imp_eq_value [OF assms(6,7)] by (auto simp: shared_files_def is_private_blob_def)
  moreover obtain w' db where run: "index_tenant git today repos_root slug (w, published)
      = (Inr \<lparr>ix_indexed = map fst (shared_files files), ix_skipped_private = map fst (private_files files)\<rparr>, w', Some db)"
    "item_view db = items_view today (map (\<lambda>(path, blob). tenant_item path blob) (shared_files files))"
    by (rule index_tenant_run [OF assms(5,6)])
  moreover have "items_view today (map (\<lambda>(path, blob). tenant_item path blob) (shared_files files)) path = None"
    if "path \<notin> fst ` set (shared_files files)"
  proof -
    let ?items = "map (\<lambda>(path, blob). tenant_item path blob) (shared_files files)"
    have "set (map it_path ?items) = set (map fst (shared_files files))" by (simp only: tenant_item_paths)
    then have "List.find (\<lambda>item. it_path item = path) ?items = None" using that by (simp only: find_None_iff_key set_map not_False_eq_True)
    then show ?thesis by (simp add: items_view_def)
  qed
  ultimately show ?thesis by auto
qed

section \<open>A repository with a shared and a private file\<close>

definition serve_files :: "(string \<times> string) list \<Rightarrow> unit git" where
  "serve_files files args stdin w =
     (case args of
        [_, _, cmd, _, revision] \<Rightarrow>
          (case map_of files (drop 5 revision) of Some blob \<Rightarrow> GitExit True blob [] | None \<Rightarrow> GitExit False [] ''missing'', w)
      | _ \<Rightarrow> (GitExit True (unlines (map fst files)) [], w))"

definition headed_age :: "(string, unit) age" where
  "headed_age = tiny_age\<lparr>ag_encrypt := (\<lambda>rs p. Inr (AGE_HEADER @ concat rs))\<rparr>"

definition two_files :: "(string \<times> string) list" where
  "two_files = [(''a.md'', ''note''), (''p.md'', AGE_HEADER @ ''K1K2'')]"

lemma two_files_served: "holds_files (serve_files two_files) repo two_files" "distinct (map fst two_files)"
proof -
  have names: "lines (unlines (map fst two_files)) = map fst two_files" by code_simp
  show "distinct (map fst two_files)" by code_simp
  show "holds_files (serve_files two_files) repo two_files"
    unfolding holds_files_def
  proof (intro conjI allI ballI)
    show "fst (list_files_at_ref (serve_files two_files) repo ''HEAD'' w) = Inr (map fst two_files)" for w
      using names by (simp add: list_files_at_ref_def andthen_def attempt_def run_git_stdout_def spawn_git_def serve_files_def)
    show "case f of (path, blob) \<Rightarrow> fst (read_blob (serve_files two_files) repo (''HEAD:'' @ path) w) = Inr blob"
      if "f \<in> set two_files" for f w
      using that by (auto simp: two_files_def read_blob_def run_git_stdout_bytes_def spawn_git_def serve_files_def)
  qed
qed

theorem tenant_index_exact_witness:
  "fst (index_tenant (serve_files two_files) ''2026-01-01'' ''repos'' ''alice'' (empty_world, None))
     = Inr \<lparr>ix_indexed = [''a.md''], ix_skipped_private = [''p.md'']\<rparr>"
proof -
  have "shared_files two_files = [(''a.md'', ''note'')]" "private_files two_files = [(''p.md'', AGE_HEADER @ ''K1K2'')]" by code_simp+
  then show ?thesis
    using tenant_index_exact [OF two_files_served, where repos_root = "''repos''" and slug = "''alice''" and today = "''2026-01-01''" and w = empty_world and published = None] by auto
qed

theorem private_item_never_indexed_witness:
  "case index_tenant (serve_files two_files) ''2026-01-01'' ''repos'' ''alice'' (empty_world, None) of
     (r, w', published) \<Rightarrow> \<not> isl r \<and> map_option (\<lambda>db. item_view db ''p.md'') published = Some None"
proof -
  have age: "\<forall>rs p c. ag_encrypt headed_age rs p = Inr c \<longrightarrow> starts_with c AGE_HEADER"
    by (auto simp: headed_age_def starts_with_def rust_str)
  have item: "valid_utf8 private_item" "fm_visibility (pr_frontmatter (Frontmatter.parse private_item)) = Some Private" by code_simp+
  have "fst (run_filter_clean headed_age ''s'' private_item two_devices) = Inr (AGE_HEADER @ ''K1K2'')" by code_simp
  then have clean: "run_filter_clean headed_age ''s'' private_item two_devices
      = (Inr (AGE_HEADER @ ''K1K2''), snd (run_filter_clean headed_age ''s'' private_item two_devices))"
    by (metis prod.collapse)
  have "(''p.md'', AGE_HEADER @ ''K1K2'') \<in> set two_files" by (simp add: two_files_def)
  from private_item_never_indexed [OF age item clean two_files_served this, where repos_root = "''repos''" and slug = "''alice''" and today = "''2026-01-01''" and w = empty_world and published = None]
  show ?thesis by auto
qed

end
