(* ===== verification/HubCa.thy ===== *)
theory HubCa
  imports ControlPlane
begin

text \<open>
  The hub's certificate authority (crates/wkp-hub/src/hub_ca.rs): the root on disk, the server's
  certificate, the signing of a device's request, and the check of a client certificate at the handshake.
  Generating keys, building and reading certificates is done by libraries, the parameter \<open>x509\<close>; what the
  authority asks them to sign is modelled. Errors are rendered.
\<close>

section \<open>Certificates\<close>

datatype key_usage = KeyCertSign | CrlSign | DigitalSignature | KeyEncipherment
datatype ext_usage = ServerAuth | ClientAuth
datatype san = DnsName string | IpAddress "nat list"

record cert_params =
  ct_serial :: "nat list option"
  ct_is_ca :: bool
  ct_key_usages :: "key_usage list"
  ct_ext_usages :: "ext_usage list"
  ct_names :: "(string \<times> string) list"
  ct_sans :: "san list"
  ct_not_before :: int
  ct_not_after :: int

text \<open>
  A request carries the key and, besides, whatever the device asks for. \<open>x5_sign params key ca\<close> is the
  certificate in DER for a public key.
\<close>

record csr =
  cq_is_ed25519 :: bool
  cq_key :: string
  cq_requested :: cert_params

record x509 =
  x5_generate_key :: "(string, string) result"
  x5_public_of :: "string \<Rightarrow> string"
  x5_load :: "string \<Rightarrow> string \<Rightarrow> (string, unit) result"
  x5_self_signed :: "cert_params \<Rightarrow> string \<Rightarrow> (string, string) result"
  x5_parse_csr :: "string \<Rightarrow> (string, csr) result"
  x5_sign :: "cert_params \<Rightarrow> string \<Rightarrow> string \<times> string \<Rightarrow> (string, string) result"
  x5_pem :: "string \<Rightarrow> string"
  x5_raw_serial :: "string \<Rightarrow> nat list option"

record hub_ca =
  ca_cert_pem :: string
  ca_key_pem :: string

datatype ca_error = CaIo string | CaRcgen string | CaRustls string | Incomplete string | UnsupportedKeyAlgorithm
  | ClientVerifierSetup string | CertificateReparse string

fun ca_error_str :: "ca_error \<Rightarrow> string" where
  "ca_error_str (CaIo e) = ''hub CA: '' @ e"
| "ca_error_str (CaRcgen e) = ''hub CA: certificate generation failed: '' @ e"
| "ca_error_str (CaRustls e) = ''hub CA: TLS configuration failed: '' @ e"
| "ca_error_str (Incomplete m) = ''hub CA: '' @ m"
| "ca_error_str UnsupportedKeyAlgorithm = ''hub CA: CSR key algorithm must be ed25519''"
| "ca_error_str (ClientVerifierSetup m) = ''hub CA: could not set up the client-certificate verifier: '' @ m"
| "ca_error_str (CertificateReparse m) = ''hub CA: could not re-parse a just-signed certificate: '' @ m"

definition DAY :: int where
  "DAY = 24 * 60 * 60 * 1000000"

definition CA_VALIDITY_DAYS :: int where "CA_VALIDITY_DAYS = 3650"
definition SERVER_LEAF_VALIDITY_DAYS :: int where "SERVER_LEAF_VALIDITY_DAYS = 397"
definition DEVICE_CERT_VALIDITY_DAYS :: int where "DEVICE_CERT_VALIDITY_DAYS = 397"

definition no_params :: cert_params where
  "no_params = \<lparr>ct_serial = None, ct_is_ca = False, ct_key_usages = [], ct_ext_usages = [], ct_names = [], ct_sans = [],
     ct_not_before = 0, ct_not_after = 0\<rparr>"

section \<open>The root on disk\<close>

definition CA_CERT_FILE :: string where "CA_CERT_FILE = ''ca-cert.pem''"
definition CA_KEY_FILE :: string where "CA_KEY_FILE = ''ca-key.pem''"

text \<open>Opening with \<open>create_new\<close> refuses a file that exists. (The mode of the key file is not modelled.)\<close>

definition fs_create_new :: "string \<Rightarrow> string \<Rightarrow> ('g world, unit) prog" where
  "fs_create_new p content w =
     (if path_exists p w then (Inl ''File exists (os error 17)'', w) else fs_write (components p) content w)"

definition ca_io :: "('g world, 'a) prog \<Rightarrow> ('g world, 'a) prog" where
  "ca_io m = map_err (\<lambda>e. ca_error_str (CaIo e)) m"

definition ca_lib :: "(string, 'a) result \<Rightarrow> (ca_error, 'a) result" where
  "ca_lib r = (case r of Inl e \<Rightarrow> Inl (CaRcgen e) | Inr a \<Rightarrow> Inr a)"

definition root_params :: "int \<Rightarrow> cert_params" where
  "root_params now = no_params\<lparr>ct_is_ca := True, ct_key_usages := [KeyCertSign, CrlSign, DigitalSignature],
     ct_names := [(''CN'', ''wkp hub CA''), (''O'', ''wkp'')],
     ct_not_before := now - DAY, ct_not_after := now + CA_VALIDITY_DAYS * DAY\<rparr>"

definition ca_generate :: "x509 \<Rightarrow> int \<Rightarrow> string \<Rightarrow> string \<Rightarrow> string \<Rightarrow> ('g world, hub_ca) prog" where
  "ca_generate x now state_dir cert_path key_path =
     (case ca_lib (bind_result (x5_generate_key x) (\<lambda>key.
             bind_result (x5_self_signed x (root_params now) key) (\<lambda>cert. Inr (cert, key)))) of
        Inl e \<Rightarrow> err (ca_error_str e)
      | Inr (cert_pem, key_pem) \<Rightarrow>
          andthen (ca_io (create_dir_all (components state_dir))) (\<lambda>_.
          andthen (ca_io (fs_create_new cert_path cert_pem)) (\<lambda>_.
          andthen (ca_io (fs_create_new key_path key_pem)) (\<lambda>_.
          ret \<lparr>ca_cert_pem = cert_pem, ca_key_pem = key_pem\<rparr>))))"

definition ca_ensure :: "x509 \<Rightarrow> int \<Rightarrow> string \<Rightarrow> ('g world, hub_ca) prog" where
  "ca_ensure x now state_dir =
     (let cert_path = join_path state_dir CA_CERT_FILE; key_path = join_path state_dir CA_KEY_FILE in
      andthen (query (\<lambda>w. (path_exists cert_path w, path_exists key_path w))) (\<lambda>present.
        case present of
          (True, True) \<Rightarrow>
            andthen (ca_io (read_to_string cert_path)) (\<lambda>cert_pem.
            andthen (ca_io (read_to_string key_path)) (\<lambda>key_pem.
            ret \<lparr>ca_cert_pem = cert_pem, ca_key_pem = key_pem\<rparr>))
        | (False, False) \<Rightarrow> ca_generate x now state_dir cert_path key_path
        | (True, False) \<Rightarrow> err (ca_error_str (Incomplete (cert_path @ '' exists but '' @ key_path
            @ '' does not -- refusing to mint a new root that would invalidate every certificate already issued ''
            @ ''from the old one'')))
        | (False, True) \<Rightarrow> err (ca_error_str (Incomplete (key_path @ '' exists but '' @ cert_path
            @ '' does not -- refusing to guess at a root certificate for an existing private key'')))))"

definition ca_issuer :: "x509 \<Rightarrow> hub_ca \<Rightarrow> (ca_error, string \<times> string) result" where
  "ca_issuer x ca =
     bind_result (ca_lib (x5_load x (ca_cert_pem ca) (ca_key_pem ca))) (\<lambda>_. Inr (ca_cert_pem ca, ca_key_pem ca))"

section \<open>Issuing certificates\<close>

definition server_leaf_params :: "int \<Rightarrow> cert_params" where
  "server_leaf_params now = no_params\<lparr>ct_sans := [DnsName ''localhost'', IpAddress [127, 0, 0, 1]],
     ct_names := [(''CN'', ''wkp hub front door'')], ct_key_usages := [DigitalSignature, KeyEncipherment],
     ct_ext_usages := [ServerAuth], ct_not_before := now - DAY, ct_not_after := now + SERVER_LEAF_VALIDITY_DAYS * DAY\<rparr>"

definition mint_server_leaf :: "x509 \<Rightarrow> int \<Rightarrow> hub_ca \<Rightarrow> (ca_error, string \<times> string) result" where
  "mint_server_leaf x now ca =
     bind_result (ca_issuer x ca) (\<lambda>issuer.
     bind_result (ca_lib (x5_generate_key x)) (\<lambda>leaf_key.
     bind_result (ca_lib (x5_sign x (server_leaf_params now) (x5_public_of x leaf_key) issuer)) (\<lambda>leaf.
     Inr (leaf, leaf_key))))"

record signed_device_cert =
  sg_certificate_pem :: string
  sg_serial_hex :: string
  sg_public_key_raw :: string
  sg_not_before :: int
  sg_not_after :: int

definition device_cert_params :: "nat list \<Rightarrow> int \<Rightarrow> string \<Rightarrow> cert_params" where
  "device_cert_params serial now common_name =
     no_params\<lparr>ct_serial := Some serial, ct_key_usages := [DigitalSignature], ct_ext_usages := [ClientAuth],
       ct_names := [(''CN'', common_name)], ct_not_before := now - DAY,
       ct_not_after := now + DEVICE_CERT_VALIDITY_DAYS * DAY\<rparr>"

definition sign_device_csr ::
  "x509 \<Rightarrow> (string, nat list) result \<Rightarrow> int \<Rightarrow> hub_ca \<Rightarrow> string \<Rightarrow> string \<Rightarrow> (ca_error, signed_device_cert) result" where
  "sign_device_csr x urandom now ca csr_pem common_name =
     bind_result (ca_lib (x5_parse_csr x csr_pem)) (\<lambda>csr.
     if \<not> cq_is_ed25519 csr \<or> length (cq_key csr) \<noteq> 32 then Inl UnsupportedKeyAlgorithm
     else bind_result (ca_issuer x ca) (\<lambda>issuer.
     bind_result (case urandom of Inl e \<Rightarrow> Inl (CaIo e) | Inr b \<Rightarrow> Inr b) (\<lambda>serial_bytes.
     bind_result (ca_lib (x5_sign x (device_cert_params serial_bytes now common_name) (cq_key csr) issuer)) (\<lambda>cert.
     case x5_raw_serial x cert of
       None \<Rightarrow> Inl (CertificateReparse ''reading back its own serial number'')
     | Some raw \<Rightarrow>
         Inr \<lparr>sg_certificate_pem = x5_pem x cert, sg_serial_hex = concat (map hex2 raw), sg_public_key_raw = cq_key csr,
              sg_not_before = now - DAY, sg_not_after = now + DEVICE_CERT_VALIDITY_DAYS * DAY\<rparr>))))"

section \<open>The handshake\<close>

datatype tls_error = TlsChain string | BadEncoding | General string | UnknownIssuer | Revoked

text \<open>
  \<open>inner\<close> is what the library's verifier says of chain and validity. The lookup runs on a thread of its own; a
  panic of that thread is not modelled.
\<close>

definition verify_client_cert ::
  "('u, unit) stmt \<Rightarrow> x509 \<Rightarrow> (string, unit) result \<Rightarrow> string \<Rightarrow> 'u db \<Rightarrow> (tls_error, unit) result \<times> 'u db" where
  "verify_client_cert schema x inner end_entity d =
     (case inner of
        Inl e \<Rightarrow> (Inl (TlsChain e), d)
      | Inr _ \<Rightarrow>
          (case x5_raw_serial x end_entity of
             None \<Rightarrow> (Inl BadEncoding, d)
           | Some raw \<Rightarrow>
               (case cp_bind (connect schema) (\<lambda>_. find_device_by_cert_serial (concat (map hex2 raw))) d of
                  (Inl e, d') \<Rightarrow> (Inl (General (''control plane lookup failed during mTLS handshake: '' @ cp_error_str e)), d')
                | (Inr None, d') \<Rightarrow> (Inl UnknownIssuer, d')
                | (Inr (Some dv), d') \<Rightarrow> (if dv_revoked_at dv \<noteq> None then Inl Revoked else Inr (), d'))))"

section \<open>Facts\<close>

text \<open>What a device asks for besides its key has no influence on the certificate.\<close>

lemma sign_device_csr_key_only:
  assumes "x5_parse_csr x p = Inr c" "x5_parse_csr x q = Inr (c\<lparr>cq_requested := r\<rparr>)"
  shows "sign_device_csr x u now ca p cn = sign_device_csr x u now ca q cn"
  by (simp add: sign_device_csr_def ca_lib_def assms cong: option.case_cong)


end
