(* ===== verification/WebText.thy ===== *)
theory WebText
  imports Recipients
begin

text \<open>
  The text a web request and its answer are made of (crates/wkp-hub/src/http.rs): lossy decoding of UTF-8,
  form decoding, HTML escaping, the path of a git request, and the answer of a CGI program
  (crates/wkp-git/src/http_backend.rs). Bytes come from anyone; \<open>None\<close> is a panic.
\<close>

section \<open>Lossy UTF-8\<close>

text \<open>
  \<open>String::from_utf8_lossy\<close>: the length of the next chunk and whether it is a character; a chunk that is not
  becomes one replacement character.
\<close>

definition utf8_chunk :: "char \<Rightarrow> string \<Rightarrow> nat \<times> bool" where
  "utf8_chunk c cs =
     (let width = (if byte_in 0 127 c then 1 else if byte_in 194 223 c then 2 else if byte_in 224 239 c then 3
                   else if byte_in 240 244 c then 4 else 0 :: nat);
          lo = (if of_char c = (224 :: nat) then 160 else if of_char c = (240 :: nat) then 144 else 128);
          hi = (if of_char c = (237 :: nat) then 159 else if of_char c = (244 :: nat) then 143 else 191);
          next_ok = (\<lambda>i lo hi. i < length cs \<and> byte_in lo hi (cs ! i))
      in if width \<le> 1 then (1, width = 1)
         else if \<not> next_ok 0 lo hi then (1, False)
         else if width = 2 then (2, True)
         else if \<not> next_ok 1 128 191 then (2, False)
         else if width = 3 then (3, True)
         else if \<not> next_ok 2 128 191 then (3, False)
         else (4, True))"

definition replacement_character :: string where
  "replacement_character = [CHR 0xEF, CHR 0xBF, CHR 0xBD]"

lemma utf8_chunk_pos: "utf8_chunk c cs = (n, ok) \<Longrightarrow> 0 < n"
  by (auto simp: utf8_chunk_def Let_def split: if_splits)

function from_utf8_lossy :: "string \<Rightarrow> string" where
  "from_utf8_lossy [] = []"
| "from_utf8_lossy (c # cs) =
     (case utf8_chunk c cs of (n, ok) \<Rightarrow>
        (if ok then take n (c # cs) else replacement_character) @ from_utf8_lossy (drop n (c # cs)))"
  by pat_completeness auto
termination by (relation "measure length") (auto dest!: utf8_chunk_pos [OF sym])

text \<open>Text that is UTF-8 is left as it is.\<close>

lemma utf8_chunk_valid:
  assumes "valid_utf8 (c # cs)"
  shows "snd (utf8_chunk c cs) \<and> valid_utf8 (drop (fst (utf8_chunk c cs)) (c # cs))"
proof -
  note chunk = utf8_chunk_def Let_def
  show ?thesis
  proof (cases "byte_in 0 127 c")
    case True
    then show ?thesis using assms by (simp add: chunk)
  next
    case one: False
    show ?thesis
    proof (cases "byte_in 194 223 c")
      case True
      then obtain d r where cs: "cs = d # r" "byte_in 128 191 d" "valid_utf8 r"
        using assms one by (cases cs) simp_all
      have "of_char c \<noteq> (224 :: nat)" "of_char c \<noteq> (240 :: nat)" "of_char c \<noteq> (237 :: nat)" "of_char c \<noteq> (244 :: nat)"
        using True by (auto simp: byte_in_def)
      then show ?thesis using one True cs by (simp add: chunk)
    next
      case two: False
      show ?thesis
      proof (cases "byte_in 224 239 c")
        case True
        then obtain d e r where cs: "cs = d # e # r" "byte_in 128 191 e" "valid_utf8 r"
            "byte_in (if of_char c = (224 :: nat) then 160 else 128) (if of_char c = (237 :: nat) then 159 else 191) d"
          using assms one two by (cases cs; cases "tl cs") simp_all
        have "of_char c \<noteq> (240 :: nat)" "of_char c \<noteq> (244 :: nat)" using True by (auto simp: byte_in_def)
        then show ?thesis using one two True cs by (simp add: chunk split: if_splits)
      next
        case three: False
        then obtain d e f r where c: "byte_in 240 244 c"
          and cs: "cs = d # e # f # r" "byte_in 128 191 e" "byte_in 128 191 f" "valid_utf8 r"
            "byte_in (if of_char c = (240 :: nat) then 144 else 128) (if of_char c = (244 :: nat) then 143 else 191) d"
          using assms one two by (cases cs; cases "tl cs"; cases "tl (tl cs)") (simp_all split: if_splits)
        have "of_char c \<noteq> (224 :: nat)" "of_char c \<noteq> (237 :: nat)" using c by (auto simp: byte_in_def)
        then show ?thesis using one two three c cs by (simp add: chunk eval_nat_numeral split: if_splits)
      qed
    qed
  qed
qed

lemma from_utf8_lossy_valid: "valid_utf8 s \<Longrightarrow> from_utf8_lossy s = s"
proof (induction s rule: from_utf8_lossy.induct)
  case (2 c cs)
  obtain n where n: "utf8_chunk c cs = (n, True)" "valid_utf8 (drop n (c # cs))"
    using utf8_chunk_valid [OF 2(2)] by (cases "utf8_chunk c cs") auto
  have "from_utf8_lossy (drop n (c # cs)) = drop n (c # cs)" using 2(1) [OF n(1) [symmetric]] n(2) by simp
  then show ?case by (simp add: n(1))
qed simp

section \<open>Forms and HTML\<close>

text \<open>\<open>u8::from_str_radix(_, 16)\<close> on two bytes: a plus sign is accepted before a digit.\<close>

definition hex_digit :: "char \<Rightarrow> nat option" where
  "hex_digit c =
     (let b = of_char c in
      if 48 \<le> b \<and> b \<le> 57 then Some (b - 48) else if 97 \<le> b \<and> b \<le> 102 then Some (b - 87)
      else if 65 \<le> b \<and> b \<le> 70 then Some (b - 55) else None)"

definition hex_byte :: "char \<Rightarrow> char \<Rightarrow> nat option" where
  "hex_byte a b =
     (if a = CHR ''+'' then hex_digit b
      else (case (hex_digit a, hex_digit b) of (Some x, Some y) \<Rightarrow> Some (16 * x + y) | _ \<Rightarrow> None))"

text \<open>The slice of the two bytes after a percent sign panics unless it starts and ends between characters.\<close>

fun percent_loop :: "string \<Rightarrow> string option" where
  "percent_loop [] = Some []"
| "percent_loop (c # cs) =
     (if c = CHR ''+'' then map_option (Cons (CHR '' '')) (percent_loop cs)
      else if c = CHR ''%'' then
        (case cs of
           a # b # rest \<Rightarrow>
             if is_continuation a \<or> (rest \<noteq> [] \<and> is_continuation (hd rest)) then None
             else (case hex_byte a b of
                     Some n \<Rightarrow> map_option (Cons (char_of n)) (percent_loop rest)
                   | None \<Rightarrow> map_option (Cons c) (percent_loop cs))
         | _ \<Rightarrow> map_option (Cons c) (percent_loop cs))
      else map_option (Cons c) (percent_loop cs))"

definition percent_decode :: "string \<Rightarrow> string option" where
  "percent_decode s = map_option from_utf8_lossy (percent_loop s)"

definition html_escape :: "string \<Rightarrow> string" where
  "html_escape s =
     replace_char dquote ''&quot;'' (replace_char (CHR ''>'') ''&gt;'' (replace_char (CHR ''<'') ''&lt;''
       (replace_char (CHR ''&'') ''&amp;'' s)))"

section \<open>Paths\<close>

definition git_http_path :: "string \<Rightarrow> (string \<times> string) option" where
  "git_http_path path =
     (case strip_prefix path ''/'' of
        None \<Rightarrow> None
      | Some rest \<Rightarrow>
          (case split_once rest ''/'' of
             None \<Rightarrow> None
           | Some (repo, endpoint) \<Rightarrow>
               (case strip_suffix repo ''.git'' of
                  None \<Rightarrow> None
                | Some tenant_slug \<Rightarrow> if tenant_slug = [] \<or> endpoint = [] then None else Some (tenant_slug, endpoint))))"

section \<open>CGI answers\<close>

record cgi_response =
  cg_status :: nat
  cg_headers :: "(string \<times> string) list"
  cg_body :: string

definition eq_ignore_ascii_case :: "string \<Rightarrow> string \<Rightarrow> bool" where
  "eq_ignore_ascii_case s t \<longleftrightarrow> map to_ascii_lower s = map to_ascii_lower t"

definition cgi_header_line :: "string \<Rightarrow> nat \<times> (string \<times> string) list \<Rightarrow> nat \<times> (string \<times> string) list" where
  "cgi_header_line line acc =
     (case acc of (status, headers) \<Rightarrow>
        (case split_once (trim line) '':'' of
           None \<Rightarrow> acc
         | Some (key, v) \<Rightarrow>
             if eq_ignore_ascii_case (trim key) ''Status'' then
               (case split_whitespace (trim v) of
                  code # _ \<Rightarrow> (case parse_unsigned (2 ^ 16) code of Some n \<Rightarrow> (nat n, headers) | None \<Rightarrow> (200, headers))
                | [] \<Rightarrow> (200, headers))
             else (status, headers @ [(trim key, trim v)])))"

definition parse_cgi_response :: "string \<Rightarrow> (string, cgi_response) result" where
  "parse_cgi_response raw =
     (case (case split_once raw [cr, nl, cr, nl] of Some p \<Rightarrow> Some p | None \<Rightarrow> split_once raw [nl, nl]) of
        None \<Rightarrow> Inl ''git http-backend produced no CGI header/body separator''
      | Some (head, body) \<Rightarrow>
          (case fold cgi_header_line (lines (from_utf8_lossy head)) (200, []) of
             (status, headers) \<Rightarrow> Inr \<lparr>cg_status = status, cg_headers = headers, cg_body = body\<rparr>))"

section \<open>Facts\<close>

text \<open>The encoding of a form: what a browser sends for a field.\<close>

definition upper_hex :: "nat \<Rightarrow> char" where
  "upper_hex d = char_of (if d < 10 then 48 + d else 55 + d)"

definition form_byte :: "char \<Rightarrow> string" where
  "form_byte c =
     (if is_ascii_alphanumeric c \<or> c \<in> set ''*-._'' then [c] else if c = CHR '' '' then ''+''
      else [CHR ''%'', upper_hex (of_char c div 16), upper_hex (of_char c mod 16)])"

lemma upper_hex:
  assumes "d < 16"
  shows "hex_digit (upper_hex d) = Some d" "upper_hex d \<noteq> CHR ''+''" "\<not> is_continuation (upper_hex d)"
proof -
  have byte: "of_char (upper_hex d) = (if d < 10 then 48 + d else 55 + d)"
    using assms by (simp add: upper_hex_def)
  show "hex_digit (upper_hex d) = Some d" "\<not> is_continuation (upper_hex d)"
    using assms by (auto simp: hex_digit_def Let_def byte is_continuation_def)
  show "upper_hex d \<noteq> CHR ''+''"
  proof
    assume "upper_hex d = CHR ''+''"
    then have "of_char (upper_hex d) = (43 :: nat)" by simp
    then show False unfolding byte by (simp split: if_splits)
  qed
qed

lemma hex_byte_upper: "n < 256 \<Longrightarrow> hex_byte (upper_hex (n div 16)) (upper_hex (n mod 16)) = Some n"
  by (simp add: hex_byte_def upper_hex)

lemma form_byte_head: "form_byte c = d # r \<Longrightarrow> \<not> is_continuation d"
  by (auto simp: form_byte_def is_continuation_def is_ascii_alphanumeric_def is_ascii_digit_def split: if_splits)

lemma form_encode_head: "concat (map form_byte s) \<noteq> [] \<Longrightarrow> \<not> is_continuation (hd (concat (map form_byte s)))"
proof (induction s)
  case (Cons c s)
  obtain d r where "form_byte c = d # r" by (cases "form_byte c") (auto simp: form_byte_def split: if_splits)
  then show ?case using form_byte_head by simp
qed simp

lemma percent_loop_form: "percent_loop (concat (map form_byte s)) = Some s"
proof (induction s)
  case (Cons c s)
  let ?n = "of_char c :: nat"
  have n: "?n < 256" by simp
  then have x: "?n div 16 < 16" "?n mod 16 < 16" by (simp_all add: less_mult_imp_div_less)
  have special: "\<not> is_ascii_alphanumeric (CHR ''+'')" "\<not> is_ascii_alphanumeric (CHR ''%'')"
    by (simp_all add: is_ascii_alphanumeric_def is_ascii_digit_def)
  show ?case
  proof (cases "is_ascii_alphanumeric c \<or> c \<in> set ''*-._''")
    case True
    then have "c \<noteq> CHR ''+''" "c \<noteq> CHR ''%''" using special by auto
    then show ?thesis using True Cons by (simp add: form_byte_def)
  next
    case False
    show ?thesis
    proof (cases "c = CHR '' ''")
      case space: False
      have "form_byte c = [CHR ''%'', upper_hex (?n div 16), upper_hex (?n mod 16)]"
        using False space by (simp add: form_byte_def)
      then show ?thesis using Cons form_encode_head [of s] hex_byte_upper [OF n]
        by (cases "concat (map form_byte s) = []") (simp_all add: upper_hex [OF x(1)])
    qed (use Cons in \<open>simp add: form_byte_def is_ascii_alphanumeric_def is_ascii_digit_def\<close>)
  qed
qed simp

text \<open>What a form sends for a text of UTF-8 is read as that text.\<close>

lemma percent_decode_form: "valid_utf8 s \<Longrightarrow> percent_decode (concat (map form_byte s)) = Some s"
  by (simp add: percent_decode_def percent_loop_form from_utf8_lossy_valid)

text \<open>A percent sign before a character of more than one byte: the slice ends inside it.\<close>

lemma percent_decode_panics: "percent_decode (''user_code=%a'' @ [CHR 0xC3, CHR 0xA9]) = None"
  by code_simp

text \<open>Escaped text cannot end the attribute it stands in, nor open or close a tag.\<close>

lemma set_replace_char: "set (replace_char c t s) \<subseteq> (set s - {c}) \<union> set t"
  by (induction s) auto

lemma html_escape_safe: "set (html_escape s) \<inter> {CHR ''<'', CHR ''>'', dquote} = {}"
  using set_replace_char [of "CHR ''<''" "''&lt;''" "replace_char (CHR ''&'') ''&amp;'' s"]
    set_replace_char [of "CHR ''>''" "''&gt;''" "replace_char (CHR ''<'') ''&lt;'' (replace_char (CHR ''&'') ''&amp;'' s)"]
    set_replace_char [of dquote "''&quot;''" "replace_char (CHR ''>'') ''&gt;'' (replace_char (CHR ''<'') ''&lt;'' (replace_char (CHR ''&'') ''&amp;'' s))"]
  unfolding html_escape_def by auto

end
