(* ===== verification/HubHttp.thy ===== *)
theory HubHttp
  imports HubCa WebText
begin

text \<open>
  The request handlers of the hub (crates/wkp-hub/src/http.rs) and the dispatch of its front door
  (front_door.rs): device authorization after RFC 8628, and git over HTTP, authenticated by the client
  certificate and passed on to the pod of the tenant. A handler is a function of the database; \<open>None\<close> is a
  panic. JSON is read and written by a library.
\<close>

section \<open>Requests and answers\<close>

record incoming =
  in_headers :: "(string \<times> string) list"
  in_body :: string

definition body_string :: "incoming \<Rightarrow> string" where
  "body_string r = from_utf8_lossy (in_body r)"

definition header :: "incoming \<Rightarrow> string \<Rightarrow> string option" where
  "header r name = map_option snd (List.find (\<lambda>(field, _). eq_ignore_ascii_case field name) (in_headers r))"

record rendered =
  rd_status :: nat
  rd_content_type :: string
  rd_extra_headers :: "(string \<times> string) list"
  rd_body :: string

datatype json = JStr string | JInt int | JObj "(string \<times> json) list"

text \<open>The libraries the handlers call, and the database schema of \<open>connect\<close>.\<close>

record 'u web =
  wb_schema :: "('u, unit) stmt"
  wb_to_vec :: "json \<Rightarrow> (string, string) result"
  wb_device_code_request :: "string \<Rightarrow> (string, string \<times> string) result"
  wb_token_request :: "string \<Rightarrow> (string, string) result"
  wb_x509 :: x509
  wb_openssh_key :: "string \<Rightarrow> (string, string) result"

definition rendered_json :: "'u web \<Rightarrow> nat \<Rightarrow> json \<Rightarrow> rendered" where
  "rendered_json wb status v =
     \<lparr>rd_status = status, rd_content_type = ''application/json'', rd_extra_headers = [],
      rd_body = (case wb_to_vec wb v of Inr bytes \<Rightarrow> bytes | Inl _ \<Rightarrow> ''{}'')\<rparr>"

definition rendered_html :: "nat \<Rightarrow> string \<Rightarrow> rendered" where
  "rendered_html status body =
     \<lparr>rd_status = status, rd_content_type = ''text/html; charset=utf-8'', rd_extra_headers = [], rd_body = body\<rparr>"

definition rendered_cgi :: "cgi_response \<Rightarrow> rendered" where
  "rendered_cgi response =
     (let is_type = (\<lambda>(key, _). eq_ignore_ascii_case key ''Content-Type'') in
      \<lparr>rd_status = cg_status response,
       rd_content_type = (case filter is_type (cg_headers response) of [] \<Rightarrow> ''application/octet-stream'' | hs \<Rightarrow> snd (last hs)),
       rd_extra_headers = filter (\<lambda>h. \<not> is_type h) (cg_headers response), rd_body = cg_body response\<rparr>)"

definition error_body :: "'u web \<Rightarrow> nat \<Rightarrow> string \<Rightarrow> rendered" where
  "error_body wb status e = rendered_json wb status (JObj [(''error'', JStr e)])"

definition not_found_response :: "'u web \<Rightarrow> rendered" where
  "not_found_response wb = error_body wb 404 ''not_found''"

definition status_only :: "nat \<Rightarrow> rendered" where
  "status_only status = \<lparr>rd_status = status, rd_content_type = ''text/plain'', rd_extra_headers = [], rd_body = []\<rparr>"

type_synonym 'u handler = "'u db \<Rightarrow> rendered option \<times> 'u db"

definition reply :: "rendered \<Rightarrow> 'u handler" where
  "reply r d = (Some r, d)"

text \<open>Asking the database, with the answer to give when that fails.\<close>

definition ask :: "('u, 'a) cp \<Rightarrow> (cp_error \<Rightarrow> rendered) \<Rightarrow> ('a \<Rightarrow> 'u handler) \<Rightarrow> 'u handler" where
  "ask m on_error f d = (case m d of (Inl e, d') \<Rightarrow> (Some (on_error e), d') | (Inr a, d') \<Rightarrow> f a d')"

definition json_error :: "'u web \<Rightarrow> cp_error \<Rightarrow> rendered" where
  "json_error wb e = error_body wb 500 (cp_error_str e)"

definition html_error :: "string \<Rightarrow> rendered" where
  "html_error e = rendered_html 500 (''<p>'' @ html_escape e @ ''</p>'')"

section \<open>Device authorization\<close>

definition code_response :: "device_grant \<Rightarrow> json" where
  "code_response g =
     JObj [(''device_code'', JStr (gr_device_code g)), (''user_code'', JStr (gr_user_code g)),
       (''verification_uri'', JStr ''/verify''), (''expires_in'', JInt (GRANT_TTL div 1000000)),
       (''interval'', JInt POLL_INTERVAL_SECONDS)]"

definition csr_is_valid_ed25519 :: "x509 \<Rightarrow> string \<Rightarrow> bool" where
  "csr_is_valid_ed25519 x pem = (case x5_parse_csr x pem of Inr csr \<Rightarrow> cq_is_ed25519 csr | Inl _ \<Rightarrow> False)"

definition handle_device_code ::
  "'u web \<Rightarrow> (string, nat list) result \<Rightarrow> (string, nat list) result \<Rightarrow> incoming \<Rightarrow> 'u handler" where
  "handle_device_code wb random_device random_user request =
     (case wb_device_code_request wb (body_string request) of
        Inl e \<Rightarrow> reply (error_body wb 400 (''invalid request body: '' @ e))
      | Inr (tenant_slug, csr_pem) \<Rightarrow>
          if \<not> csr_is_valid_ed25519 (wb_x509 wb) csr_pem then reply (error_body wb 400 ''invalid_csr'')
          else ask (connect (wb_schema wb)) (json_error wb) (\<lambda>_.
               ask (find_tenant_by_slug tenant_slug) (json_error wb) (\<lambda>found.
                 case found of
                   None \<Rightarrow> reply (error_body wb 404 ''invalid_tenant'')
                 | Some t \<Rightarrow>
                     ask (create_device_grant random_device random_user (tn_id t) csr_pem) (json_error wb)
                       (\<lambda>g. reply (rendered_json wb 200 (code_response g))))))"

definition token_response :: "string \<Rightarrow> int \<Rightarrow> string \<Rightarrow> hub_ca \<Rightarrow> json" where
  "token_response tenant_slug dev certificate_pem ca =
     JObj [(''status'', JStr ''approved''), (''tenant_slug'', JStr tenant_slug), (''device_id'', JInt dev),
       (''certificate_pem'', JStr certificate_pem), (''ca_cert_pem'', JStr (ca_cert_pem ca))]"

definition handle_device_token :: "'u web \<Rightarrow> hub_ca \<Rightarrow> incoming \<Rightarrow> 'u handler" where
  "handle_device_token wb ca request =
     (case wb_token_request wb (body_string request) of
        Inl e \<Rightarrow> reply (error_body wb 400 (''invalid request body: '' @ e))
      | Inr device_code \<Rightarrow>
          ask (connect (wb_schema wb)) (json_error wb) (\<lambda>_.
          ask (find_grant_by_device_code device_code) (json_error wb) (\<lambda>found d.
            case found of
              None \<Rightarrow> reply (error_body wb 400 ''invalid_grant'') d
            | Some g \<Rightarrow>
                if is_expired (db_now d) g then reply (error_body wb 400 ''expired_token'') d
                else (case gr_approved_device_id g of
                    None \<Rightarrow> reply (error_body wb 400 ''authorization_pending'')
                  | Some dev \<Rightarrow>
                      ask (find_tenant_by_id (gr_tenant_id g)) (json_error wb) (\<lambda>found.
                        case found of
                          None \<Rightarrow> reply (error_body wb 500 ''grant references a tenant that no longer exists'')
                        | Some t \<Rightarrow>
                            ask (find_device_by_id dev) (json_error wb) (\<lambda>found.
                              case found of
                                None \<Rightarrow> reply (error_body wb 500 ''grant references a device that no longer exists'')
                              | Some dv \<Rightarrow>
                                  (case dv_certificate_pem dv of
                                     None \<Rightarrow> reply (error_body wb 400 ''authorization_pending'')
                                   | Some pem \<Rightarrow>
                                       reply (rendered_json wb 200 (token_response (tn_slug t) dev pem ca)))))) d)))"

text \<open>The value of the first pair that starts with \<open>user_code=\<close>, decoded; the outer option is the panic.\<close>

definition user_code_field :: "string \<Rightarrow> string option option" where
  "user_code_field text =
     (case List.map_filter (\<lambda>pair. strip_prefix pair ''user_code='') (split_char (CHR ''&'') text) of
        [] \<Rightarrow> Some None
      | v # _ \<Rightarrow> map_option Some (percent_decode v))"

definition verify_page_html :: "string \<Rightarrow> string" where
  "verify_page_html prefilled =
     ''<!doctype html><html><head><title>wkp hub: approve device</title></head><body><h1>Approve this device</h1>''
     @ ''<p>Enter the code shown on the device you'' @ [squote] @ ''re registering.</p><form method='' @ [dquote] @ ''post''
     @ [dquote] @ '' action='' @ [dquote] @ ''/verify'' @ [dquote] @ ''><input type='' @ [dquote] @ ''text'' @ [dquote]
     @ '' name='' @ [dquote] @ ''user_code'' @ [dquote] @ '' value='' @ [dquote] @ html_escape prefilled @ [dquote]
     @ '' autofocus><button type='' @ [dquote] @ ''submit'' @ [dquote] @ ''>Approve</button></form></body></html>''"

definition handle_verify_page :: "string \<Rightarrow> rendered option" where
  "handle_verify_page query_string =
     map_option (\<lambda>code. rendered_html 200 (verify_page_html (case code of None \<Rightarrow> [] | Some c \<Rightarrow> c)))
       (user_code_field query_string)"

definition APPROVED_HTML :: string where
  "APPROVED_HTML = ''<!doctype html><html><body><h1>Device approved</h1>''
     @ ''<p>You can close this page and return to your device.</p></body></html>''"

definition sign_and_approve ::
  "'u web \<Rightarrow> (string, nat list) result \<Rightarrow> hub_ca \<Rightarrow> device_grant \<Rightarrow> 'u handler" where
  "sign_and_approve wb urandom ca g d =
     (case sign_device_csr (wb_x509 wb) urandom (db_now d) ca (gr_csr_pem g) ''wkp device'' of
        Inl e \<Rightarrow> reply (rendered_html 400 (''<p>could not sign this device'' @ [squote] @ ''s request: ''
                   @ html_escape (ca_error_str e) @ ''</p>'')) d
      | Inr cert \<Rightarrow>
          (case wb_openssh_key wb (sg_public_key_raw cert) of
             Inl e \<Rightarrow> reply (html_error e) d
           | Inr public_key \<Rightarrow>
               ask (approve_grant g public_key) (\<lambda>e. html_error (cp_error_str e)) (\<lambda>dv.
               ask (issue_device_certificate (dv_id dv) (sg_certificate_pem cert) (sg_serial_hex cert)
                      (sg_not_before cert) (sg_not_after cert)) (\<lambda>e. html_error (cp_error_str e))
                 (\<lambda>_. reply (rendered_html 200 APPROVED_HTML))) d))"

definition handle_verify_submit :: "'u web \<Rightarrow> (string, nat list) result \<Rightarrow> hub_ca \<Rightarrow> incoming \<Rightarrow> 'u handler" where
  "handle_verify_submit wb urandom ca request =
     (case user_code_field (body_string request) of
        None \<Rightarrow> (\<lambda>d. (None, d))
      | Some None \<Rightarrow> reply (rendered_html 400 ''<p>missing user_code</p>'')
      | Some (Some user_code) \<Rightarrow>
          ask (connect (wb_schema wb)) (\<lambda>e. html_error (cp_error_str e)) (\<lambda>_.
          ask (find_grant_by_user_code user_code) (\<lambda>e. html_error (cp_error_str e)) (\<lambda>found d.
            case found of
              None \<Rightarrow> reply (rendered_html 404 ''<p>unknown or expired code</p>'') d
            | Some g \<Rightarrow>
                if is_expired (db_now d) g then reply (rendered_html 400 ''<p>this code has expired</p>'') d
                else (case gr_approved_device_id g of
                    None \<Rightarrow> sign_and_approve wb urandom ca g d
                  | Some dev \<Rightarrow>
                      ask (find_device_by_id dev) (\<lambda>e. html_error (cp_error_str e)) (\<lambda>found.
                        case found of
                          Some dv \<Rightarrow> if dv_certificate_pem dv \<noteq> None then reply (rendered_html 200 APPROVED_HTML)
                                      else sign_and_approve wb urandom ca g
                        | None \<Rightarrow> sign_and_approve wb urandom ca g) d))))"

section \<open>Git over HTTP\<close>

text \<open>
  The pods of the tenants are the state \<open>'p\<close>: the orchestrator starts one, and the client of the front door
  sends a request to one. A response is its status, its headers and its body.
\<close>

record 'p pods =
  po_start :: "string \<Rightarrow> string \<Rightarrow> string \<Rightarrow> 'p \<Rightarrow> (string, unit) result \<times> 'p"
  po_send :: "string \<Rightarrow> string \<Rightarrow> string option \<Rightarrow> string \<Rightarrow> 'p \<Rightarrow> (string, cgi_response) result \<times> 'p"

definition SERVE_PORT :: nat where
  "SERVE_PORT = 8080"

definition pod_url :: "string \<Rightarrow> string \<Rightarrow> string \<Rightarrow> string" where
  "pod_url tenant_slug endpoint query_string =
     ''http://'' @ tenant_slug @ '':'' @ show_nat SERVE_PORT @ ''/'' @ tenant_slug @ ''.git/'' @ endpoint @ ''?'' @ query_string"

text \<open>At most ten attempts; a header whose value is not text is dropped by the library's reader.\<close>

fun send_loop :: "'p pods \<Rightarrow> nat \<Rightarrow> string \<Rightarrow> string \<Rightarrow> string option \<Rightarrow> string \<Rightarrow> 'p \<Rightarrow> rendered \<times> 'p" where
  "send_loop po 0 meth url content_type body p = (status_only 502, p)"
| "send_loop po (Suc n) meth url content_type body p =
     (case po_send po meth url content_type (if meth = ''POST'' then body else []) p of
        (Inr response, p') \<Rightarrow> (rendered_cgi response, p')
      | (Inl _, p') \<Rightarrow> send_loop po n meth url content_type body p')"

definition proxy_to_tenant_pod ::
  "'p pods \<Rightarrow> string \<Rightarrow> string \<Rightarrow> string \<Rightarrow> string \<Rightarrow> string option \<Rightarrow> string \<Rightarrow> 'p \<Rightarrow> rendered \<times> 'p" where
  "proxy_to_tenant_pod po tenant_slug endpoint query_string meth content_type body p =
     (if meth = ''GET'' \<or> meth = ''POST''
      then send_loop po 10 meth (pod_url tenant_slug endpoint query_string) content_type body p
      else (status_only 405, p))"

record git_http_route =
  rt_tenant_slug :: string
  rt_endpoint :: string
  rt_query :: string

definition cert_serial_hex :: "x509 \<Rightarrow> string \<Rightarrow> string option" where
  "cert_serial_hex x der = map_option (\<lambda>raw. concat (map hex2 raw)) (x5_raw_serial x der)"

type_synonym ('u, 'p) git_handler = "'u db \<times> 'p \<Rightarrow> rendered \<times> 'u db \<times> 'p"

definition serve_authorized ::
  "'p pods \<Rightarrow> incoming \<Rightarrow> string \<Rightarrow> git_http_route \<Rightarrow> string \<Rightarrow> string \<Rightarrow> tenant \<Rightarrow> ('u, 'p) git_handler" where
  "serve_authorized po request meth route repos_root img t s =
     (case s of (d, p) \<Rightarrow>
      (case touch_last_active (tn_id t) d of (_, d1) \<Rightarrow>
      (case (if tn_pod_running t then (Inr (), p) else po_start po img repos_root (rt_tenant_slug route) p) of
         (Inl _, p1) \<Rightarrow> (status_only 503, d1, p1)
       | (Inr _, p1) \<Rightarrow>
           (let d2 = (if tn_pod_running t then d1 else snd (record_pod_started (tn_id t) d1)) in
            case proxy_to_tenant_pod po (rt_tenant_slug route) (rt_endpoint route) (rt_query route) meth
                   (header request ''Content-Type'') (in_body request) p1 of
              (r, p2) \<Rightarrow> (r, d2, p2)))))"

definition handle_git_http ::
  "'u web \<Rightarrow> 'p pods \<Rightarrow> incoming \<Rightarrow> string \<Rightarrow> git_http_route \<Rightarrow> string \<Rightarrow> string \<Rightarrow> string option \<Rightarrow> ('u, 'p) git_handler" where
  "handle_git_http wb po request meth route repos_root img peer_cert s =
     (case s of (d, p) \<Rightarrow>
      if meth \<noteq> ''GET'' \<and> meth \<noteq> ''POST'' then (status_only 405, d, p)
      else (case Option.bind peer_cert (cert_serial_hex (wb_x509 wb)) of
        None \<Rightarrow> (status_only 401, d, p)
      | Some cert_serial \<Rightarrow>
          (case connect (wb_schema wb) d of
             (Inl _, d1) \<Rightarrow> (status_only 500, d1, p)
           | (Inr _, d1) \<Rightarrow>
               (case find_device_by_cert_serial cert_serial d1 of
                  (Inl _, d2) \<Rightarrow> (status_only 500, d2, p)
                | (Inr None, d2) \<Rightarrow> (status_only 401, d2, p)
                | (Inr (Some dv), d2) \<Rightarrow>
                    if dv_revoked_at dv \<noteq> None then (status_only 401, d2, p)
                    else (case find_tenant_by_slug (rt_tenant_slug route) d2 of
                        (Inl _, d3) \<Rightarrow> (status_only 500, d3, p)
                      | (Inr None, d3) \<Rightarrow> (status_only 404, d3, p)
                      | (Inr (Some t), d3) \<Rightarrow>
                          if dv_tenant_id dv \<noteq> tn_id t then (status_only 404, d3, p)
                          else serve_authorized po request meth route repos_root img t (d3, p))))))"

section \<open>The pod of a tenant\<close>

text \<open>
  \<open>git http-backend\<close> under the directory of the tenant is a parameter: what it makes of a request. The record
  is the environment it is given.
\<close>

record cgi_request =
  cr_method :: string
  cr_path_info :: string
  cr_query_string :: string
  cr_content_type :: "string option"
  cr_remote_user :: string
  cr_body :: string

definition serve_git_http ::
  "(string \<Rightarrow> cgi_request \<Rightarrow> (string, string) result) \<Rightarrow> incoming \<Rightarrow> string \<Rightarrow> string \<Rightarrow> string \<Rightarrow> string \<Rightarrow> string \<Rightarrow> string
    \<Rightarrow> rendered" where
  "serve_git_http backend request meth tenant_slug endpoint query_string repos_root remote_user =
     (case bind_result (backend (join_path repos_root tenant_slug)
         \<lparr>cr_method = meth, cr_path_info = ''/repo.git/'' @ endpoint, cr_query_string = query_string,
          cr_content_type = header request ''Content-Type'', cr_remote_user = remote_user, cr_body = in_body request\<rparr>)
         parse_cgi_response of
        Inr response \<Rightarrow> rendered_cgi response
      | Inl _ \<Rightarrow> status_only 500)"

text \<open>One request of the loop of \<open>serve_single_tenant\<close>, with the URL as it was sent.\<close>

definition serve_tenant_request ::
  "(string \<Rightarrow> cgi_request \<Rightarrow> (string, string) result) \<Rightarrow> string \<Rightarrow> string \<Rightarrow> string \<Rightarrow> string \<Rightarrow> incoming \<Rightarrow> rendered" where
  "serve_tenant_request backend tenant_slug repos_root meth url request =
     (let path = hd (split_char (CHR ''?'') url);
          query_string = (case split_once url ''?'' of None \<Rightarrow> [] | Some (_, q) \<Rightarrow> q)
      in if meth \<noteq> ''GET'' \<and> meth \<noteq> ''POST'' then status_only 405
         else (case git_http_path path of
                 Some (slug, endpoint) \<Rightarrow>
                   if slug = tenant_slug then serve_git_http backend request meth slug endpoint query_string repos_root ''pod''
                   else status_only 404
               | None \<Rightarrow> status_only 404))"

section \<open>Who reaches a pod\<close>

text \<open>
  What the database says of a serial and a tenant: the device of the certificate is there, not revoked, and
  the route names its own tenant.
\<close>

definition entitled :: "'u pg \<Rightarrow> string \<Rightarrow> string \<Rightarrow> tenant option" where
  "entitled s serial tenant_slug =
     (case (List.find (\<lambda>dv. dv_cert_serial dv = Some serial) (pg_devices s), List.find (\<lambda>t. tn_slug t = tenant_slug) (pg_tenants s)) of
        (Some dv, Some t) \<Rightarrow> if dv_revoked_at dv = None \<and> dv_tenant_id dv = tn_id t then Some t else None
      | _ \<Rightarrow> None)"

text \<open>Creating the schema on an existing database leaves the rows of these tables alone.\<close>

definition keeps_rows :: "('u, unit) stmt \<Rightarrow> bool" where
  "keeps_rows schema \<longleftrightarrow> (\<forall>s. pg_devices (snd (schema s)) = pg_devices s \<and> pg_tenants (snd (schema s)) = pg_tenants s)"

definition same_rows :: "'u db \<Rightarrow> 'u db \<Rightarrow> bool" where
  "same_rows d d' \<longleftrightarrow> pg_devices (db_pg d') = pg_devices (db_pg d) \<and> pg_tenants (db_pg d') = pg_tenants (db_pg d)"

lemma execute_keeps:
  assumes "execute stmt d = (r, d')"
  shows "d' = d\<lparr>db_calls := Suc (db_calls d), db_pg := db_pg d'\<rparr>" "db_pg d' = db_pg d \<or> db_pg d' = snd (stmt (db_pg d))"
    "r = Inr a \<Longrightarrow> fst (stmt (db_pg d)) = Inr a \<and> db_pg d' = snd (stmt (db_pg d))"
  using assms by (auto simp: execute_def Let_def split: prod.splits option.splits sum.splits if_splits)

lemma execute_select:
  assumes "execute (select q) d = (r, d')"
  shows "db_pg d' = db_pg d" "r = Inr a \<Longrightarrow> a = q (db_pg d)"
  using assms by (auto simp: execute_def select_def Let_def split: option.splits if_splits)

lemma connect_rows:
  assumes "keeps_rows schema" "connect schema d = (r, d')"
  shows "same_rows d d'"
proof -
  have "same_rows e e'" if "execute schema e = (q, e')" for e q e'
    using execute_keeps(2) [OF that] assms(1) by (auto simp: same_rows_def keeps_rows_def)
  then show ?thesis
    using assms(2)
    by (fastforce simp: connect_def create_schema_def cp_bind_def cp_try_def cp_err_def same_rows_def
        dest: execute_select(1) split: if_splits prod.splits sum.splits)
qed

lemma handle_git_http_entitled:
  assumes "keeps_rows (wb_schema wb)"
  shows "case handle_git_http wb po request meth route repos_root img peer_cert (d, p) of
    (answer, d', p') \<Rightarrow>
      (case Option.bind peer_cert (cert_serial_hex (wb_x509 wb)) of
         None \<Rightarrow> p' = p \<and> rd_status answer \<in> {401, 405}
       | Some serial \<Rightarrow>
           (case entitled (db_pg d) serial (rt_tenant_slug route) of
              None \<Rightarrow> p' = p \<and> answer \<in> {status_only 401, status_only 404, status_only 405, status_only 500}
            | Some t \<Rightarrow>
                p' = p \<and> answer \<in> {status_only 405, status_only 500}
                \<or> (meth \<in> {''GET'', ''POST''} \<and> (\<exists>d1. (answer, d', p') = serve_authorized po request meth route repos_root img t (d1, p)))))"
proof -
  consider (meth) "meth \<noteq> ''GET'' \<and> meth \<noteq> ''POST''"
    | (anon) "meth \<in> {''GET'', ''POST''}" "Option.bind peer_cert (cert_serial_hex (wb_x509 wb)) = None"
    | (cert) serial where "meth \<in> {''GET'', ''POST''}" "Option.bind peer_cert (cert_serial_hex (wb_x509 wb)) = Some serial"
    by (cases "Option.bind peer_cert (cert_serial_hex (wb_x509 wb))") auto
  then show ?thesis
  proof cases
    case cert
    obtain r1 d1 where c: "connect (wb_schema wb) d = (r1, d1)" by fastforce
    note rows = connect_rows [OF assms c]
    obtain r2 d2 where f: "find_device_by_cert_serial serial d1 = (r2, d2)" by fastforce
    obtain r3 d3 where t: "find_tenant_by_slug (rt_tenant_slug route) d2 = (r3, d3)" by fastforce
    note f' = execute_select [OF f [unfolded find_device_by_cert_serial_def]]
      and t' = execute_select [OF t [unfolded find_tenant_by_slug_def]]
    have e: "r1 = Inr () \<Longrightarrow> r2 = Inr dvo \<Longrightarrow> r3 = Inr tno \<Longrightarrow> entitled (db_pg d) serial (rt_tenant_slug route)
        = (case (dvo, tno) of (Some dv, Some tn) \<Rightarrow> if dv_revoked_at dv = None \<and> dv_tenant_id dv = tn_id tn then Some tn else None | _ \<Rightarrow> None)"
      for dvo tno
      using f'(2) [of dvo] t'(2) [of tno] f'(1) rows by (simp add: entitled_def same_rows_def)
    have n: "r1 = Inr () \<Longrightarrow> r2 = Inr None \<Longrightarrow> entitled (db_pg d) serial (rt_tenant_slug route) = None"
      "r1 = Inr () \<Longrightarrow> r2 = Inr (Some dv) \<Longrightarrow> dv_revoked_at dv = Some w \<Longrightarrow> entitled (db_pg d) serial (rt_tenant_slug route) = None"
      for dv w
      using f'(2) [of None] f'(2) [of "Some dv"] rows by (auto simp: entitled_def same_rows_def split: option.splits)
    note m = cert(1) and g = handle_git_http_def c f t cert(2)
    show ?thesis
    proof (cases r1)
      case (Inl _)
      then show ?thesis using m by (auto simp: g status_only_def split: option.splits)
    next
      case r1: (Inr u1)
      show ?thesis
      proof (cases "\<exists>dvo tno. r2 = Inr dvo \<and> r3 = Inr tno")
        case False
        then show ?thesis using m r1
          by (auto simp: g status_only_def split: option.splits sum.splits dest: n)
      next
        case True
        then obtain dvo tno where r: "r2 = Inr dvo" "r3 = Inr tno" by blast
        show ?thesis
        proof (cases "entitled (db_pg d) serial (rt_tenant_slug route)")
          case None
          then show ?thesis using m r1
            by (cases dvo; cases tno) (auto simp: g e [OF _ r] r status_only_def split: if_splits)
        next
          case (Some tn)
          then have "handle_git_http wb po request meth route repos_root img peer_cert (d, p)
              = serve_authorized po request meth route repos_root img tn (d3, p)"
            using m r1 by (cases dvo; cases tno) (auto simp: g e [OF _ r] r split: if_splits)
          then show ?thesis using m Some cert(2) by (auto split: prod.split) metis+
        qed
      qed
    qed
  qed (auto simp: handle_git_http_def status_only_def split: option.splits)
qed


text \<open>A hub with two tenants; the device with serial 07 is enrolled for bob and asks for the repository of alice.\<close>

definition demo_web :: "'u web" where
  "demo_web = \<lparr>wb_schema = (\<lambda>s. (Inr (), s)), wb_to_vec = (\<lambda>_. Inl []), wb_device_code_request = (\<lambda>_. Inl []),
     wb_token_request = (\<lambda>_. Inl []),
     wb_x509 = \<lparr>x5_generate_key = Inl [], x5_public_of = (\<lambda>k. k), x5_load = (\<lambda>_ _. Inl []), x5_self_signed = (\<lambda>_ _. Inl []),
       x5_parse_csr = (\<lambda>_. Inl []), x5_sign = (\<lambda>_ _ _. Inl []), x5_pem = (\<lambda>c. c), x5_raw_serial = (\<lambda>_. Some [7])\<rparr>,
     wb_openssh_key = (\<lambda>_. Inl [])\<rparr>"

definition demo_db :: "unit db" where
  "demo_db =
     (let tn = (\<lambda>i slug. \<lparr>tn_id = i, tn_slug = slug, tn_always_warm = False, tn_pod_running = True, tn_pod_started_at = None,
        tn_last_active_at = 0\<rparr>);
        dv = \<lparr>dv_id = 1, dv_tenant_id = 2, dv_public_key = ''ssh-ed25519 AAAA'', dv_created_at = 0, dv_revoked_at = None,
        dv_certificate_pem = None, dv_cert_serial = Some ''07'', dv_cert_issued_at = None, dv_cert_expires_at = None\<rparr>
      in \<lparr>db_pg = \<lparr>pg_tenants = [tn 1 ''alice'', tn 2 ''bob''], pg_devices = [dv], pg_grants = [], pg_resets = [],
            pg_notified = [], pg_seqs = (\<lambda>_. 3), pg_usage = ()\<rparr>,
          db_now = 9, db_url = True, db_calls = 0, db_fault = (\<lambda>_. None)\<rparr>)"

definition demo_pods :: "nat pods" where
  "demo_pods = \<lparr>po_start = (\<lambda>_ _ _ n. (Inr (), Suc n)),
     po_send = (\<lambda>_ _ _ _ n. (Inr \<lparr>cg_status = 200, cg_headers = [], cg_body = ''pack''\<rparr>, Suc n))\<rparr>"


end
