(* ===== verification/TenantPod.thy ===== *)
theory TenantPod
  imports HubHttp World
begin

text \<open>
  The pod of a tenant (crates/wkp-hub/src/tenant_pod.rs): starting and stopping it with podman, and the sweep
  that stops idle pods. podman is a program the sources run, so it is the parameter \<open>podman\<close>, any function of
  its arguments and the world; its commands are logged. An orchestrator is what the rest of the hub sees.
\<close>

section \<open>Names, mounts, the profile\<close>

definition NETWORK_NAME :: string where
  "NETWORK_NAME = ''wkp-hub-tenants''"

definition pod_name :: "string \<Rightarrow> string" where
  "pod_name tenant_slug = ''wkp-tenant-'' @ tenant_slug"

definition serve_container_name :: "string \<Rightarrow> string" where
  "serve_container_name tenant_slug = pod_name tenant_slug @ ''-serve''"

definition index_container_name :: "string \<Rightarrow> string" where
  "index_container_name tenant_slug = pod_name tenant_slug @ ''-index''"

definition repo_mount_arg :: "string \<Rightarrow> string \<Rightarrow> string" where
  "repo_mount_arg repos_root tenant_slug =
     join_path repos_root tenant_slug @ '':/srv/wkp-hub/repos/'' @ tenant_slug @ '':Z''"

text \<open>The text of deploy/hub/seccomp-no-network.json, embedded at compile time.\<close>

definition SECCOMP_NO_NETWORK_PROFILE :: string where
  "SECCOMP_NO_NETWORK_PROFILE = unlines
    [
     ''{'',
     ''  '' @ [dquote] @ ''_comment'' @ [dquote] @ '': '' @ [dquote] @ ''Applied to a tenant pod'' @ [squote]
       @ ''s indexing container only (crates/wkp-hub/src/tenant_pod.rs, issue #159) via `podman run ''
       @ ''--security-opt seccomp=...`. Default-allow, explicit-deny on every syscall that could create ''
       @ ''or use a network socket -- verified by hand against real podman (a sibling container in the ''
       @ ''same pod, with an unrestricted listener, could no longer even call socket() once this profile ''
       @ ''was applied: '' @ [squote] @ ''nc: socket: Operation not permitted'' @ [squote]
       @ ''). Kept as a deny-list rather than a full allow-list profile: an allow-list is fragile across ''
       @ ''libc/kernel versions for a filesystem-and-SQLite-only process, and this needs to ''
       @ ''comprehensively block one specific capability (networking), not minimize the whole syscall ''
       @ ''surface.'' @ [dquote] @ '','',
     ''  '' @ [dquote] @ ''defaultAction'' @ [dquote] @ '': '' @ [dquote] @ ''SCMP_ACT_ALLOW'' @ [dquote] @ '','',
     ''  '' @ [dquote] @ ''architectures'' @ [dquote] @ '': ['' @ [dquote] @ ''SCMP_ARCH_X86_64'' @ [dquote]
       @ '', '' @ [dquote] @ ''SCMP_ARCH_AARCH64'' @ [dquote] @ ''],'',
     ''  '' @ [dquote] @ ''syscalls'' @ [dquote] @ '': ['',
     ''    {'',
     ''      '' @ [dquote] @ ''names'' @ [dquote] @ '': ['',
     ''        '' @ [dquote] @ ''socket'' @ [dquote] @ '','',
     ''        '' @ [dquote] @ ''socketpair'' @ [dquote] @ '','',
     ''        '' @ [dquote] @ ''connect'' @ [dquote] @ '','',
     ''        '' @ [dquote] @ ''accept'' @ [dquote] @ '','',
     ''        '' @ [dquote] @ ''accept4'' @ [dquote] @ '','',
     ''        '' @ [dquote] @ ''bind'' @ [dquote] @ '','',
     ''        '' @ [dquote] @ ''listen'' @ [dquote] @ '','',
     ''        '' @ [dquote] @ ''sendto'' @ [dquote] @ '','',
     ''        '' @ [dquote] @ ''sendmsg'' @ [dquote] @ '','',
     ''        '' @ [dquote] @ ''sendmmsg'' @ [dquote] @ '','',
     ''        '' @ [dquote] @ ''recvfrom'' @ [dquote] @ '','',
     ''        '' @ [dquote] @ ''recvmsg'' @ [dquote] @ '','',
     ''        '' @ [dquote] @ ''recvmmsg'' @ [dquote] @ '','',
     ''        '' @ [dquote] @ ''getsockname'' @ [dquote] @ '','',
     ''        '' @ [dquote] @ ''getpeername'' @ [dquote] @ '','',
     ''        '' @ [dquote] @ ''setsockopt'' @ [dquote] @ '','',
     ''        '' @ [dquote] @ ''getsockopt'' @ [dquote] @ '','',
     ''        '' @ [dquote] @ ''shutdown'' @ [dquote],
     ''      ],'',
     ''      '' @ [dquote] @ ''action'' @ [dquote] @ '': '' @ [dquote] @ ''SCMP_ACT_ERRNO'' @ [dquote] @ '','',
     ''      '' @ [dquote] @ ''errnoRet'' @ [dquote] @ '': 1'',
     ''    }'',
     ''  ]'',
     ''}''
    ]"

definition seccomp_path :: "string \<Rightarrow> string" where
  "seccomp_path repos_root = join_path repos_root ''.wkp-hub-seccomp-no-network.json''"

definition ensure_seccomp_profile :: "string \<Rightarrow> ('g world, string) prog" where
  "ensure_seccomp_profile repos_root =
     (let path = seccomp_path repos_root in
      andthen (map_err (\<lambda>e. ''failed to write seccomp profile to '' @ path @ '': '' @ e)
                 (fs_write (components path) SECCOMP_NO_NETWORK_PROFILE))
        (\<lambda>_. ret path))"

section \<open>Running podman\<close>

text \<open>Debug formatting of a list of arguments; \<open>np\<close> says which characters outside ASCII it escapes.\<close>

definition debug_args :: "(string \<Rightarrow> bool) \<Rightarrow> string list \<Rightarrow> string" where
  "debug_args np args = ''['' @ join '', '' (map (debug_str np) args) @ '']''"

definition spawn_podman :: "'g git \<Rightarrow> string list \<Rightarrow> 'g world \<Rightarrow> git_outcome \<times> 'g world" where
  "spawn_podman podman args w =
     (case podman args [] w of (out, w') \<Rightarrow> (out, w'\<lparr>wd_log := wd_log w @ [''podman'' # args]\<rparr>))"

definition run_podman :: "(string \<Rightarrow> bool) \<Rightarrow> 'g git \<Rightarrow> string list \<Rightarrow> ('g world, unit) prog" where
  "run_podman np podman args w =
     (case spawn_podman podman args w of
        (GitSpawnError e, w') \<Rightarrow> (Inl (''failed to run podman '' @ debug_args np args @ '': '' @ e), w')
      | (GitExit success stdout stderr, w') \<Rightarrow>
          (if success then Inr ()
           else Inl (''podman '' @ debug_args np args @ '' failed: '' @ trim (from_utf8_lossy stderr)), w'))"

definition ensure_network :: "(string \<Rightarrow> bool) \<Rightarrow> 'g git \<Rightarrow> ('g world, unit) prog" where
  "ensure_network np podman w =
     (case spawn_podman podman [''network'', ''exists'', NETWORK_NAME] w of
        (GitSpawnError e, w') \<Rightarrow> (Inl e, w')
      | (GitExit success stdout stderr, w') \<Rightarrow>
          (if success then (Inr (), w') else run_podman np podman [''network'', ''create'', NETWORK_NAME] w'))"

definition pod_is_running :: "'g git \<Rightarrow> string \<Rightarrow> ('g world, bool) prog" where
  "pod_is_running podman pod w =
     (case spawn_podman podman [''pod'', ''inspect'', pod, ''--format'', ''{{.State}}''] w of
        (GitSpawnError e, w') \<Rightarrow> (Inl e, w')
      | (GitExit success stdout stderr, w') \<Rightarrow>
          (Inr (success \<and> trim (from_utf8_lossy stdout) = ''Running''), w'))"

section \<open>Starting and stopping\<close>

definition create_args :: "string \<Rightarrow> string list" where
  "create_args tenant_slug =
     [''pod'', ''create'', ''--name'', pod_name tenant_slug, ''--network'', NETWORK_NAME, ''--network-alias'', tenant_slug]"

definition serve_args :: "string \<Rightarrow> string \<Rightarrow> string \<Rightarrow> string list" where
  "serve_args img repos_root tenant_slug =
     [''run'', ''-d'', ''--pod'', pod_name tenant_slug, ''--name'', serve_container_name tenant_slug,
      ''--entrypoint'', ''/usr/local/bin/wkp-hub'', ''-v'', repo_mount_arg repos_root tenant_slug, img,
      ''serve-tenant'', ''--tenant'', tenant_slug, ''--port'', show_nat SERVE_PORT]"

definition index_args :: "string \<Rightarrow> string \<Rightarrow> string \<Rightarrow> string \<Rightarrow> string list" where
  "index_args img repos_root tenant_slug seccomp =
     [''run'', ''-d'', ''--pod'', pod_name tenant_slug, ''--name'', index_container_name tenant_slug,
      ''--network'', ''none'', ''--security-opt'', ''seccomp='' @ seccomp,
      ''--entrypoint'', ''/usr/local/bin/wkp-hub'', ''-v'', repo_mount_arg repos_root tenant_slug, img,
      ''index-worker'', ''--tenant'', tenant_slug]"

text \<open>The containers are launched once no pod of the name is left.\<close>

definition launch_pod :: "(string \<Rightarrow> bool) \<Rightarrow> 'g git \<Rightarrow> string \<Rightarrow> string \<Rightarrow> string \<Rightarrow> ('g world, unit) prog" where
  "launch_pod np podman img repos_root tenant_slug =
     andthen (run_podman np podman (create_args tenant_slug)) (\<lambda>_.
     andthen (run_podman np podman (serve_args img repos_root tenant_slug)) (\<lambda>_.
     andthen (ensure_seccomp_profile repos_root) (\<lambda>seccomp.
     run_podman np podman (index_args img repos_root tenant_slug seccomp))))"

definition start_pod :: "(string \<Rightarrow> bool) \<Rightarrow> 'g git \<Rightarrow> string \<Rightarrow> string \<Rightarrow> string \<Rightarrow> ('g world, unit) prog" where
  "start_pod np podman img repos_root tenant_slug =
     (let pod = pod_name tenant_slug in
      andthen (pod_is_running podman pod) (\<lambda>running.
      if running then ret ()
      else andthen (ensure_network np podman) (\<lambda>_.
           attempt (run_podman np podman [''pod'', ''rm'', ''-f'', pod]) (\<lambda>_.
           launch_pod np podman img repos_root tenant_slug))))"

definition stop_pod :: "(string \<Rightarrow> bool) \<Rightarrow> 'g git \<Rightarrow> string \<Rightarrow> ('g world, unit) prog" where
  "stop_pod np podman tenant_slug =
     attempt (run_podman np podman [''pod'', ''rm'', ''-f'', pod_name tenant_slug]) (\<lambda>_. ret ())"

text \<open>The trait \<open>PodOrchestrator\<close> and its implementation with podman.\<close>

record 'w orchestrator =
  oc_start :: "string \<Rightarrow> string \<Rightarrow> string \<Rightarrow> ('w, unit) prog"
  oc_stop :: "string \<Rightarrow> ('w, unit) prog"

definition podman_orchestrator :: "(string \<Rightarrow> bool) \<Rightarrow> 'g git \<Rightarrow> 'g world orchestrator" where
  "podman_orchestrator np podman = \<lparr>oc_start = start_pod np podman, oc_stop = stop_pod np podman\<rparr>"

section \<open>The sweep\<close>

text \<open>A pod that cannot be stopped, or whose stop cannot be recorded, is skipped.\<close>

fun reap_tenants :: "'w orchestrator \<Rightarrow> tenant list \<Rightarrow> 'u db \<times> 'w \<Rightarrow> string list \<times> 'u db \<times> 'w" where
  "reap_tenants oc [] s = ([], s)"
| "reap_tenants oc (t # ts) (d, w) =
     (case oc_stop oc (tn_slug t) w of
        (Inl _, w') \<Rightarrow> reap_tenants oc ts (d, w')
      | (Inr _, w') \<Rightarrow>
          (case record_pod_stopped (tn_id t) d of
             (Inl _, d') \<Rightarrow> reap_tenants oc ts (d', w')
           | (Inr _, d') \<Rightarrow> (case reap_tenants oc ts (d', w') of (reaped, s') \<Rightarrow> (tn_slug t # reaped, s'))))"

definition reap_idle :: "int \<Rightarrow> 'w orchestrator \<Rightarrow> 'u db \<times> 'w \<Rightarrow> (string, string list) result \<times> 'u db \<times> 'w" where
  "reap_idle idle_for oc s =
     (case s of (d, w) \<Rightarrow>
       (case find_idle_running_tenants idle_for d of
          (Inl e, d') \<Rightarrow> (Inl (cp_error_str e), d', w)
        | (Inr idle, d') \<Rightarrow> (case reap_tenants oc idle (d', w) of (reaped, s') \<Rightarrow> (Inr reaped, s'))))"

end
