(* ===== verification/PodProps.thy ===== *)
theory PodProps
  imports TenantPod
begin

text \<open>
  What the hub asks of the container runtime: the contract of an orchestrator, which commands a tenant's pod
  is started with, how a command line reads back as a container, and what becomes of a pod over requests and
  sweeps.
\<close>

section \<open>The contract of an orchestrator\<close>

text \<open>Starting and stopping the pod of a tenant only runs commands about that tenant.\<close>

locale container_runtime =
  fixes oc :: "'g world orchestrator" and about :: "string \<Rightarrow> string list \<Rightarrow> bool"
  assumes start_about: "keeps (log_since before (about slug)) (oc_start oc img repos_root slug)"
    and stop_about: "keeps (log_since before (about slug)) (oc_stop oc slug)"
begin

lemma log_about_any:
  assumes "log_since before (\<lambda>c. \<exists>t \<in> S. about (tn_slug t) c) w" "t \<in> S"
    and "\<And>log. keeps (log_since log (about (tn_slug t))) m" "m w = (r, w')"
  shows "log_since before (\<lambda>c. \<exists>t \<in> S. about (tn_slug t) c) w'"
proof -
  obtain added where a: "wd_log w = before @ added" "\<forall>c \<in> set added. \<exists>t \<in> S. about (tn_slug t) c"
    using assms(1) by (auto simp: log_since_def)
  have "log_since (wd_log w) (about (tn_slug t)) w'"
    by (rule keepsD [OF assms(3) assms(4)]) simp
  then obtain more where "wd_log w' = wd_log w @ more" "\<forall>c \<in> set more. about (tn_slug t) c"
    by (auto simp: log_since_def)
  then show ?thesis using a assms(2) by (auto simp: log_since_def intro!: exI [of _ "added @ more"])
qed

lemma reap_tenants_about:
  assumes "set ts \<subseteq> S" "log_since before (\<lambda>c. \<exists>t \<in> S. about (tn_slug t) c) w" "reap_tenants oc ts (d, w) = (reaped, d', w')"
  shows "log_since before (\<lambda>c. \<exists>t \<in> S. about (tn_slug t) c) w'"
  using assms
proof (induction ts arbitrary: d w reaped)
  case Nil
  then show ?case by simp
next
  case (Cons t ts)
  obtain r w1 where s: "oc_stop oc (tn_slug t) w = (r, w1)" by fastforce
  have "log_since before (\<lambda>c. \<exists>t \<in> S. about (tn_slug t) c) w1"
    by (rule log_about_any [OF Cons.prems(2) _ stop_about s]) (use Cons.prems(1) in simp)
  then show ?case using Cons.IH Cons.prems(1,3) s
    by (auto split: sum.splits prod.splits)
qed

lemma serve_authorized_about:
  assumes "po_start po = oc_start oc" "\<And>before ok meth url ct body. keeps (log_since before ok) (po_send po meth url ct body)"
    and "serve_authorized po request meth route repos_root img t (d, w) = (answer, d', w')"
  shows "log_since (wd_log w) (about (rt_tenant_slug route)) w'"
proof -
  let ?I = "log_since (wd_log w) (about (rt_tenant_slug route))"
  have loop: "?I v \<Longrightarrow> send_loop po n meth url ct body v = (x, v') \<Longrightarrow> ?I v'" for n url ct body v x v'
  proof (induction n arbitrary: v)
    case 0
    then show ?case by simp
  next
    case (Suc n)
    obtain q v1 where s: "po_send po meth url ct (if meth = ''POST'' then body else []) v = (q, v1)" by fastforce
    have "?I v1" by (rule keepsD [OF assms(2) s Suc.prems(1)])
    then show ?case using Suc.IH Suc.prems(2) s by (cases q) auto
  qed
  have proxy: "?I v \<Longrightarrow> proxy_to_tenant_pod po slug ep q meth ct body v = (x, v') \<Longrightarrow> ?I v'" for slug ep q ct body v x v'
    using loop by (auto simp: proxy_to_tenant_pod_def split: if_splits)
  have start: "oc_start oc img repos_root (rt_tenant_slug route) w = (x, v) \<Longrightarrow> ?I v" for x v
    using keepsD [OF start_about] log_since_refl by blast
  have "?I w" by simp
  then show ?thesis using assms(1,3)
    by (auto simp: serve_authorized_def Let_def dest!: start split: prod.splits sum.splits if_splits elim!: proxy [rotated])
qed

end

section \<open>Reading a command of podman\<close>

text \<open>
  How \<open>podman run\<close> reads its arguments: options up to the first argument that is not one, the image, and
  behind it the command of the container. These are the options the sources use; any other is refused.
\<close>

record container =
  ct_pod :: "string option"
  ct_name :: "string option"
  ct_network :: "string option"
  ct_security :: "string list"
  ct_entrypoint :: "string option"
  ct_mounts :: "string list"
  ct_image :: string
  ct_command :: "string list"

definition set_option :: "string \<Rightarrow> string \<Rightarrow> container \<Rightarrow> container option" where
  "set_option opt v ct =
     (if opt = ''--pod'' then Some (ct\<lparr>ct_pod := Some v\<rparr>)
      else if opt = ''--name'' then Some (ct\<lparr>ct_name := Some v\<rparr>)
      else if opt = ''--network'' then Some (ct\<lparr>ct_network := Some v\<rparr>)
      else if opt = ''--security-opt'' then Some (ct\<lparr>ct_security := ct_security ct @ [v]\<rparr>)
      else if opt = ''--entrypoint'' then Some (ct\<lparr>ct_entrypoint := Some v\<rparr>)
      else if opt = ''-v'' then Some (ct\<lparr>ct_mounts := ct_mounts ct @ [v]\<rparr>)
      else None)"

fun read_options :: "string list \<Rightarrow> container \<Rightarrow> container option" where
  "read_options [] ct = None"
| "read_options (a # args) ct =
     (if a = ''-d'' then read_options args ct
      else if starts_with a ''-'' then
        (case args of [] \<Rightarrow> None | v # rest \<Rightarrow> Option.bind (set_option a v ct) (read_options rest))
      else Some (ct\<lparr>ct_image := a, ct_command := args\<rparr>))"

definition read_run :: "string list \<Rightarrow> container option" where
  "read_run args =
     read_options args
       \<lparr>ct_pod = None, ct_name = None, ct_network = None, ct_security = [], ct_entrypoint = None, ct_mounts = [],
        ct_image = [], ct_command = []\<rparr>"

text \<open>
  What a command may be while the pod of a tenant is started: about the network all pods share, about the
  tenant's own pod, or a container of that pod with nothing but the directory of the tenant in it. The
  container with the indexer has no network, by its namespace and by the profile.
\<close>

definition confined :: "string \<Rightarrow> string \<Rightarrow> string \<Rightarrow> container \<Rightarrow> bool" where
  "confined img repos_root slug ct \<longleftrightarrow>
     ct_pod ct = Some (pod_name slug) \<and> ct_mounts ct = [repo_mount_arg repos_root slug] \<and> ct_image ct = img
     \<and> ct_entrypoint ct = Some ''/usr/local/bin/wkp-hub''
     \<and> (ct_command ct = [''serve-tenant'', ''--tenant'', slug, ''--port'', show_nat SERVE_PORT] \<and> ct_network ct = None \<and> ct_security ct = []
        \<or> ct_command ct = [''index-worker'', ''--tenant'', slug] \<and> ct_network ct = Some ''none''
          \<and> ct_security ct = [''seccomp='' @ seccomp_path repos_root])"

definition pod_command :: "(container \<Rightarrow> bool) \<Rightarrow> string \<Rightarrow> string list \<Rightarrow> bool" where
  "pod_command ok slug c \<longleftrightarrow>
     (case c of
        program # verb # args \<Rightarrow>
          program = ''podman''
          \<and> (verb = ''network'' \<and> args \<in> {[''exists'', NETWORK_NAME], [''create'', NETWORK_NAME]}
             \<or> verb = ''pod'' \<and> args \<in> {[''inspect'', pod_name slug, ''--format'', ''{{.State}}''], [''rm'', ''-f'', pod_name slug],
                 tl (create_args slug)}
             \<or> verb = ''run'' \<and> (case read_run args of None \<Rightarrow> False | Some ct \<Rightarrow> ok ct))
      | _ \<Rightarrow> False)"

lemma read_args:
  assumes "\<not> starts_with img ''-''"
  shows "read_run (tl (serve_args img repos_root slug)) = Some \<lparr>ct_pod = Some (pod_name slug),
      ct_name = Some (serve_container_name slug), ct_network = None, ct_security = [],
      ct_entrypoint = Some ''/usr/local/bin/wkp-hub'', ct_mounts = [repo_mount_arg repos_root slug], ct_image = img,
      ct_command = [''serve-tenant'', ''--tenant'', slug, ''--port'', show_nat SERVE_PORT]\<rparr>"
    and "read_run (tl (index_args img repos_root slug p)) = Some \<lparr>ct_pod = Some (pod_name slug),
      ct_name = Some (index_container_name slug), ct_network = Some ''none'', ct_security = [''seccomp='' @ p],
      ct_entrypoint = Some ''/usr/local/bin/wkp-hub'', ct_mounts = [repo_mount_arg repos_root slug], ct_image = img,
      ct_command = [''index-worker'', ''--tenant'', slug]\<rparr>"
proof -
  have d: "starts_with ''--pod'' ''-''" "starts_with ''--name'' ''-''" "starts_with ''--network'' ''-''"
    "starts_with ''--security-opt'' ''-''" "starts_with ''--entrypoint'' ''-''" "starts_with ''-v'' ''-''"
    "starts_with ''-d'' ''-''"
    by (simp_all add: starts_with_def)
  have "img \<noteq> ''-d''" using assms d by blast
  note d = d this
  show "read_run (tl (serve_args img repos_root slug)) = Some \<lparr>ct_pod = Some (pod_name slug),
      ct_name = Some (serve_container_name slug), ct_network = None, ct_security = [],
      ct_entrypoint = Some ''/usr/local/bin/wkp-hub'', ct_mounts = [repo_mount_arg repos_root slug], ct_image = img,
      ct_command = [''serve-tenant'', ''--tenant'', slug, ''--port'', show_nat SERVE_PORT]\<rparr>"
    using assms d by (simp add: read_run_def serve_args_def set_option_def)
  show "read_run (tl (index_args img repos_root slug p)) = Some \<lparr>ct_pod = Some (pod_name slug),
      ct_name = Some (index_container_name slug), ct_network = Some ''none'', ct_security = [''seccomp='' @ p],
      ct_entrypoint = Some ''/usr/local/bin/wkp-hub'', ct_mounts = [repo_mount_arg repos_root slug], ct_image = img,
      ct_command = [''index-worker'', ''--tenant'', slug]\<rparr>"
    using assms d by (simp add: read_run_def index_args_def set_option_def)
qed

lemma pod_commands:
  "pod_command ok slug [''podman'', ''network'', ''exists'', NETWORK_NAME]"
  "pod_command ok slug [''podman'', ''network'', ''create'', NETWORK_NAME]"
  "pod_command ok slug [''podman'', ''pod'', ''inspect'', pod_name slug, ''--format'', ''{{.State}}'']"
  "pod_command ok slug [''podman'', ''pod'', ''rm'', ''-f'', pod_name slug]"
  "pod_command ok slug (''podman'' # create_args slug)"
  by (simp_all add: pod_command_def create_args_def)

lemma pod_command_run:
  "pod_command ok slug (''podman'' # serve_args img repos_root slug) = (case read_run (tl (serve_args img repos_root slug)) of None \<Rightarrow> False | Some ct \<Rightarrow> ok ct)"
  "pod_command ok slug (''podman'' # index_args img repos_root slug p) = (case read_run (tl (index_args img repos_root slug p)) of None \<Rightarrow> False | Some ct \<Rightarrow> ok ct)"
  by (simp_all add: pod_command_def serve_args_def index_args_def)

lemma spawned:
  "ok (''podman'' # args) \<Longrightarrow> spawn_podman podman args w = (out, w') \<Longrightarrow> log_since before ok w \<Longrightarrow> log_since before ok w'"
  by (auto simp: spawn_podman_def split: prod.splits elim!: commands.holds_log [rotated 2])

lemma keeps_podman:
  "ok (''podman'' # args) \<Longrightarrow> keeps (log_since before ok) (run_podman np podman args)"
  unfolding keeps_def run_podman_def by (auto split: prod.splits git_outcome.splits dest: spawned)

lemma keeps_pod_is_running:
  "ok [''podman'', ''pod'', ''inspect'', pod, ''--format'', ''{{.State}}''] \<Longrightarrow>
     keeps (log_since before ok) (pod_is_running podman pod)"
  unfolding keeps_def pod_is_running_def by (auto split: prod.splits git_outcome.splits dest: spawned)

lemma keeps_ensure_network:
  assumes "ok [''podman'', ''network'', ''exists'', NETWORK_NAME]" "ok [''podman'', ''network'', ''create'', NETWORK_NAME]"
  shows "keeps (log_since before ok) (ensure_network np podman)"
  unfolding keeps_def
proof (intro allI impI)
  fix w :: "'a world"
  assume w: "log_since before ok w"
  obtain out w1 where s: "spawn_podman podman [''network'', ''exists'', NETWORK_NAME] w = (out, w1)" by fastforce
  have w1: "log_since before ok w1" by (rule spawned [OF assms(1) s w])
  obtain r w2 where r: "run_podman np podman [''network'', ''create'', NETWORK_NAME] w1 = (r, w2)" by fastforce
  have "log_since before ok w2" by (rule keepsD [OF keeps_podman r w1]) (rule assms(2))
  then show "log_since before ok (snd (ensure_network np podman w))"
    using w1 by (simp add: ensure_network_def s r split: git_outcome.split)
qed

lemma keeps_seccomp: "keeps (log_since before ok) (ensure_seccomp_profile repos_root)"
  unfolding ensure_seccomp_profile_def Let_def by (intro commands.keeps_all)

lemma keeps_andthen_value:
  assumes "keeps I m" "\<And>w a w'. m w = (Inr a, w') \<Longrightarrow> keeps I (f a)"
  shows "keeps I (andthen m f)"
  unfolding keeps_def
proof (intro allI impI)
  fix w
  assume "I w"
  obtain r w1 where m: "m w = (r, w1)" by fastforce
  have "I w1" by (rule keepsD [OF assms(1) m \<open>I w\<close>])
  then show "I (snd (andthen m f w))"
    using assms(2) m by (cases r) (auto simp: andthen_Inr andthen_Inl keeps_def)
qed

lemma seccomp_value: "ensure_seccomp_profile repos_root w = (Inr p, w') \<Longrightarrow> p = seccomp_path repos_root"
  by (auto simp: ensure_seccomp_profile_def Let_def elim!: andthen_ok)

lemma keeps_start_pod:
  assumes "\<And>c. pod_command (\<lambda>_. False) slug c \<Longrightarrow> ok c" "ok (''podman'' # serve_args img repos_root slug)"
    "ok (''podman'' # index_args img repos_root slug (seccomp_path repos_root))"
  shows "keeps (log_since before ok) (start_pod np podman img repos_root slug)"
proof -
  have step: "ok (''podman'' # args) \<Longrightarrow> keeps (log_since before ok) (run_podman np podman args)" for args
    by (rule keeps_podman)
  have last: "keeps (log_since before ok) (andthen (ensure_seccomp_profile repos_root)
      (\<lambda>p. run_podman np podman (index_args img repos_root slug p)))"
    by (rule keeps_andthen_value [OF keeps_seccomp]) (auto dest!: seccomp_value intro: keeps_podman assms(3))
  have last: "keeps (log_since before ok) (launch_pod np podman img repos_root slug)"
    unfolding launch_pod_def
    by (rule keeps_andthen [OF step keeps_andthen [OF step last]]) (simp_all add: assms pod_commands)
  show ?thesis
    unfolding start_pod_def Let_def
    by (rule keeps_andthen [OF keeps_pod_is_running keeps_if [OF keeps_basic(1) keeps_andthen [OF keeps_ensure_network
        keeps_attempt [OF step]]]])
      (simp_all add: assms(1) pod_commands last)
qed

lemma keeps_stop_pod:
  "(\<And>c. pod_command (\<lambda>_. False) slug c \<Longrightarrow> ok c) \<Longrightarrow> keeps (log_since before ok) (stop_pod np podman slug)"
  unfolding stop_pod_def by (intro keeps_attempt keeps_podman keeps_basic) (simp add: pod_commands)

text \<open>Whatever the image, podman is only asked about the pod of the tenant and the network all pods share.\<close>

definition podman_about :: "string \<Rightarrow> string list \<Rightarrow> bool" where
  "podman_about slug c \<longleftrightarrow> pod_command (\<lambda>_. False) slug c \<or> take 5 c = [''podman'', ''run'', ''-d'', ''--pod'', pod_name slug]"

interpretation podman: container_runtime "podman_orchestrator np podman" podman_about for np podman
proof
  show "keeps (log_since before (podman_about slug)) (oc_start (podman_orchestrator np podman) img repos_root slug)"
    for before slug img repos_root
    unfolding podman_orchestrator_def orchestrator.simps
    by (rule keeps_start_pod) (simp_all add: podman_about_def serve_args_def index_args_def)
  show "keeps (log_since before (podman_about slug)) (oc_stop (podman_orchestrator np podman) slug)" for before slug
    unfolding podman_orchestrator_def orchestrator.simps by (rule keeps_stop_pod) (simp add: podman_about_def)
qed

section \<open>What a pod is started with\<close>

lemma ran: "run_podman np podman args w = (r, w') \<Longrightarrow> wd_log w' = wd_log w @ [''podman'' # args]"
  by (auto simp: run_podman_def spawn_podman_def split: prod.splits git_outcome.splits)

lemma inspected:
  "pod_is_running podman pod w = (r, w') \<Longrightarrow> wd_log w' = wd_log w @ [[''podman'', ''pod'', ''inspect'', pod, ''--format'', ''{{.State}}'']]"
  by (auto simp: pod_is_running_def spawn_podman_def split: prod.splits git_outcome.splits)

lemma networked:
  assumes "ensure_network np podman w = (r, w')"
  shows "\<exists>net. wd_log w' = wd_log w @ net"
  using assms by (auto simp: ensure_network_def spawn_podman_def dest!: ran split: prod.splits git_outcome.splits if_splits)

lemma profiled:
  "ensure_seccomp_profile repos_root w = (Inr p, w') \<Longrightarrow>
     wd_log w' = wd_log w \<and> wd_files w' (components (seccomp_path repos_root)) = Some SECCOMP_NO_NETWORK_PROFILE"
  by (auto simp: ensure_seccomp_profile_def Let_def map_err_def attempt_def fs_write_def
      elim!: andthen_ok split: prod.splits sum.splits option.splits)

lemma launch_pod_started:
  assumes "launch_pod np podman img repos_root slug w = (Inr (), w')"
  obtains w1 where "wd_log w' = wd_log w @ [''podman'' # create_args slug, ''podman'' # serve_args img repos_root slug,
      ''podman'' # index_args img repos_root slug (seccomp_path repos_root)]"
    "run_podman np podman (index_args img repos_root slug (seccomp_path repos_root)) w1 = (Inr (), w')"
    "wd_files w1 (components (seccomp_path repos_root)) = Some SECCOMP_NO_NETWORK_PROFILE"
proof -
  obtain u3 w3 u4 w4 sp w5 where w: "run_podman np podman (create_args slug) w = (Inr u3, w3)"
    "run_podman np podman (serve_args img repos_root slug) w3 = (Inr u4, w4)"
    "ensure_seccomp_profile repos_root w4 = (Inr sp, w5)" "run_podman np podman (index_args img repos_root slug sp) w5 = (Inr (), w')"
    using assms unfolding launch_pod_def by (auto elim!: andthen_ok)
  show ?thesis
    by (rule that [of w5]) (use ran [OF w(1)] ran [OF w(2)] profiled [OF w(3)] ran [OF w(4)] w(4) seccomp_value [OF w(3)] in simp_all)
qed

lemma start_pod_cases:
  assumes "start_pod np podman img repos_root slug w = (Inr (), w')"
  obtains w0 where "pod_is_running podman (pod_name slug) w = (Inr True, w')"
    "wd_log w' = wd_log w @ [[''podman'', ''pod'', ''inspect'', pod_name slug, ''--format'', ''{{.State}}'']]"
  | before w0 where "launch_pod np podman img repos_root slug w0 = (Inr (), w')" "wd_log w0 = wd_log w @ before"
proof -
  obtain running w1 where w1: "pod_is_running podman (pod_name slug) w = (Inr running, w1)"
    and rest: "(if running then ret ()
      else andthen (ensure_network np podman) (\<lambda>_.
           attempt (run_podman np podman [''pod'', ''rm'', ''-f'', pod_name slug]) (\<lambda>_.
           launch_pod np podman img repos_root slug))) w1 = (Inr (), w')"
    using assms unfolding start_pod_def Let_def by (rule andthen_ok)
  show ?thesis
  proof (cases running)
    case True
    then show ?thesis using rest w1 inspected [OF w1] that(1) by simp
  next
    case False
    with rest obtain u w2 where w2: "ensure_network np podman w1 = (Inr u, w2)"
      and rest: "attempt (run_podman np podman [''pod'', ''rm'', ''-f'', pod_name slug]) (\<lambda>_.
           launch_pod np podman img repos_root slug) w2 = (Inr (), w')"
      by (auto elim: andthen_ok)
    obtain r3 w3 where w3: "run_podman np podman [''pod'', ''rm'', ''-f'', pod_name slug] w2 = (r3, w3)" by fastforce
    obtain net where "wd_log w2 = wd_log w1 @ net" using networked [OF w2] by blast
    then show ?thesis
      using that(2) [of w3] rest ran [OF w3] inspected [OF w1] by (simp add: attempt_def w3)
  qed
qed

text \<open>
  C22. A tenant's pod is confined. Whatever podman answers, starting the pod of a tenant only runs podman
  commands about that tenant's pod and the network all pods share; a container it runs belongs to that pod and
  mounts nothing but the directory of the tenant; and the container of the indexer gets no network, by its
  namespace and by the profile. When the start succeeds, either podman reported the pod as running, or both
  containers were run, the indexer with the profile on disk.
\<close>

theorem start_pod_confines:
  assumes "\<not> starts_with img ''-''"
  shows "case start_pod np podman img repos_root slug w of (r, w') \<Rightarrow>
    log_since (wd_log w) (pod_command (confined img repos_root slug) slug) w'
    \<and> (r = Inr () \<longrightarrow>
        pod_is_running podman (pod_name slug) w = (Inr True, w')
        \<or> (\<exists>w1. {''podman'' # serve_args img repos_root slug, ''podman'' # index_args img repos_root slug (seccomp_path repos_root)}
              \<subseteq> set (drop (length (wd_log w)) (wd_log w'))
            \<and> run_podman np podman (index_args img repos_root slug (seccomp_path repos_root)) w1 = (Inr (), w')
            \<and> wd_files w1 (components (seccomp_path repos_root)) = Some SECCOMP_NO_NETWORK_PROFILE))"
proof -
  obtain r w' where run: "start_pod np podman img repos_root slug w = (r, w')" by fastforce
  have "pod_command (confined img repos_root slug) slug (''podman'' # serve_args img repos_root slug)"
    "pod_command (confined img repos_root slug) slug (''podman'' # index_args img repos_root slug (seccomp_path repos_root))"
    using read_args [OF assms] by (simp_all add: pod_command_run confined_def)
  then have kept: "keeps (log_since (wd_log w) (pod_command (confined img repos_root slug) slug)) (start_pod np podman img repos_root slug)"
    by (intro keeps_start_pod) (auto simp: pod_command_def split: list.splits option.splits)
  have log: "log_since (wd_log w) (pod_command (confined img repos_root slug) slug) w'"
    by (rule keepsD [OF kept run]) simp
  show ?thesis
  proof (cases "r = Inr ()")
    case True
    then show ?thesis using log run
      by (auto elim!: start_pod_cases launch_pod_started)
  next
    case False
    then show ?thesis using log run by simp
  qed
qed

end
