(* ===== verification/PodLife.thy ===== *)
theory PodLife
  imports PodProps
begin

text \<open>
  The life of a tenant's pod over requests and sweeps: what a sweep records, what happens to a pod that
  crashed, and when a pod comes back. The database answers every call here; its faults are the subject of
  other theories.
\<close>

section \<open>A database that answers\<close>

definition answering :: "'u db \<Rightarrow> bool" where
  "answering d \<longleftrightarrow> db_fault d = (\<lambda>_. None) \<and> db_url d"

text \<open>Same devices and tenants, and the database still answers.\<close>

definition unmoved :: "'u db \<Rightarrow> 'u db \<Rightarrow> bool" where
  "unmoved d d' \<longleftrightarrow> answering d' \<and> db_now d' = db_now d \<and> same_rows d d'"

lemma execute_answering:
  assumes "answering d"
  shows "execute stmt d =
    (case stmt (db_pg d) of (r, s) \<Rightarrow> (case r of Inl e \<Rightarrow> Inl (Postgres e) | Inr a \<Rightarrow> Inr a,
       d\<lparr>db_calls := Suc (db_calls d), db_pg := s\<rparr>))"
  using assms by (simp add: execute_def answering_def split: prod.splits)

lemma select_answering:
  "answering d \<Longrightarrow> \<exists>d'. execute (select q) d = (Inr (q (db_pg d)), d') \<and> unmoved d d'"
  by (simp add: execute_answering) (simp add: select_def unmoved_def same_rows_def answering_def)

lemma connect_answering:
  assumes "answering d" "keeps_rows schema" "fst (schema (db_pg d)) = Inr ()"
  shows "\<exists>d'. connect schema d = (Inr (), d') \<and> unmoved d d'"
proof -
  have url: "db_url d" using assms(1) by (simp add: answering_def)
  obtain s where s: "schema (db_pg d) = (Inr (), s)" using assms(3) by (cases "schema (db_pg d)") simp
  have "pg_devices s = pg_devices (db_pg d) \<and> pg_tenants s = pg_tenants (db_pg d)"
    using assms(2) s unfolding keeps_rows_def by (metis snd_conv)
  then show ?thesis using assms(1) url s
    by (simp add: connect_def create_schema_def cp_bind_def cp_try_def execute_answering answering_def unmoved_def
        same_rows_def select_def execute_def)
qed

lemma updated_tenant_answering:
  assumes "answering d" "i \<in> tn_id ` set (pg_tenants (db_pg d))"
  shows "\<exists>d'. updated_tenant i f d = (Inr (), d') \<and> answering d' \<and> db_now d' = db_now d
    \<and> pg_devices (db_pg d') = pg_devices (db_pg d)
    \<and> pg_tenants (db_pg d') = map (\<lambda>t. if tn_id t = i then f t else t) (pg_tenants (db_pg d))"
proof -
  have "filter (\<lambda>t. tn_id t = i) (pg_tenants (db_pg d)) \<noteq> []" using assms(2) by (auto simp: filter_empty_conv)
  then show ?thesis using assms(1)
    by (simp add: updated_tenant_def cp_bind_def cp_try_def execute_answering update_tenant_def update_where_def cp_ret_def
        cp_err_def answering_def)
qed

section \<open>The sweep\<close>

definition idle_at :: "int \<Rightarrow> tenant \<Rightarrow> bool" where
  "idle_at limit t \<longleftrightarrow> tn_pod_running t \<and> \<not> tn_always_warm t \<and> tn_last_active_at t < limit"

definition stopped :: "tenant \<Rightarrow> tenant" where
  "stopped t = t\<lparr>tn_pod_running := False, tn_pod_started_at := None\<rparr>"

lemma find_idle_answering:
  "answering d \<Longrightarrow> \<exists>d'. find_idle_running_tenants idle_for d
     = (Inr (filter (idle_at (db_now d - idle_for)) (pg_tenants (db_pg d))), d') \<and> unmoved d d'"
  unfolding find_idle_running_tenants_def idle_at_def [abs_def] by (rule select_answering)

text \<open>When every stop succeeds, and all are recorded, the sweep takes all it was given.\<close>

lemma reap_tenants_all:
  assumes "answering d" "tn_id ` set ts \<subseteq> tn_id ` set (pg_tenants (db_pg d))" "\<And>slug w. fst (oc_stop oc slug w) = Inr ()"
  shows "\<exists>d' w'. reap_tenants oc ts (d, w) = (map tn_slug ts, d', w') \<and> answering d' \<and> db_now d' = db_now d
    \<and> pg_devices (db_pg d') = pg_devices (db_pg d)
    \<and> pg_tenants (db_pg d') = map (\<lambda>t. if tn_id t \<in> tn_id ` set ts then stopped t else t) (pg_tenants (db_pg d))"
  using assms(1,2)
proof (induction ts arbitrary: d w)
  case Nil
  then show ?case by simp
next
  case (Cons t ts)
  obtain w1 where w1: "oc_stop oc (tn_slug t) w = (Inr (), w1)" using assms(3) by (metis prod.collapse)
  obtain d1 where d1: "record_pod_stopped (tn_id t) d = (Inr (), d1)" "answering d1" "db_now d1 = db_now d"
    "pg_devices (db_pg d1) = pg_devices (db_pg d)"
    "pg_tenants (db_pg d1) = map (\<lambda>u. if tn_id u = tn_id t then stopped u else u) (pg_tenants (db_pg d))"
    using updated_tenant_answering [OF Cons.prems(1), of "tn_id t"] Cons.prems(2)
    unfolding record_pod_stopped_def stopped_def by fastforce
  have same: "tn_id (stopped u) = tn_id u" "stopped (stopped u) = stopped u" for u by (simp_all add: stopped_def)
  have "map tn_id (pg_tenants (db_pg d1)) = map tn_id (pg_tenants (db_pg d))" by (simp add: d1(5) same)
  then have "tn_id ` set ts \<subseteq> tn_id ` set (pg_tenants (db_pg d1))"
    using Cons.prems(2) by (metis image_set insert_subset list.simps(15) image_insert)
  from Cons.IH [OF d1(2) this, of w1] show ?case
    by (clarsimp simp: w1 d1 same)
qed

lemma stop_pod_ok: "fst (oc_stop (podman_orchestrator np podman) slug w) = Inr ()"
  by (simp add: podman_orchestrator_def stop_pod_def attempt_def split: prod.splits)

text \<open>What a sweep with podman comes to when the database answers.\<close>

lemma reap_idle_run:
  assumes "answering d"
  obtains d' w' where "reap_idle idle_for (podman_orchestrator np podman) (d, w)
      = (Inr (map tn_slug (filter (idle_at (db_now d - idle_for)) (pg_tenants (db_pg d)))), d', w')"
    "answering d'" "pg_devices (db_pg d') = pg_devices (db_pg d)"
    "pg_tenants (db_pg d') = map (\<lambda>t. if tn_id t \<in> tn_id ` {u \<in> set (pg_tenants (db_pg d)). idle_at (db_now d - idle_for) u}
         then stopped t else t) (pg_tenants (db_pg d))"
    "log_since (wd_log w) (\<lambda>c. \<exists>u \<in> {u \<in> set (pg_tenants (db_pg d)). idle_at (db_now d - idle_for) u}. podman_about (tn_slug u) c) w'"
proof -
  let ?idle = "filter (idle_at (db_now d - idle_for)) (pg_tenants (db_pg d))" and ?oc = "podman_orchestrator np podman"
  obtain d1 where d1: "find_idle_running_tenants idle_for d = (Inr ?idle, d1)" "unmoved d d1"
    using find_idle_answering [OF assms] by blast
  have rows: "pg_tenants (db_pg d1) = pg_tenants (db_pg d)" "pg_devices (db_pg d1) = pg_devices (db_pg d)" "answering d1"
    using d1(2) by (auto simp: unmoved_def same_rows_def)
  have "tn_id ` set ?idle \<subseteq> tn_id ` set (pg_tenants (db_pg d1))" by (auto simp: rows(1))
  from reap_tenants_all [OF rows(3) this, of ?oc w] stop_pod_ok
  obtain d' w' where r: "reap_tenants ?oc ?idle (d1, w) = (map tn_slug ?idle, d', w')" "answering d'"
    "pg_devices (db_pg d') = pg_devices (db_pg d)"
    "pg_tenants (db_pg d') = map (\<lambda>t. if tn_id t \<in> tn_id ` set ?idle then stopped t else t) (pg_tenants (db_pg d))"
    unfolding rows by blast
  have "log_since (wd_log w) (\<lambda>c. \<exists>u \<in> set ?idle. podman_about (tn_slug u) c) w'"
    by (rule podman.reap_tenants_about [OF order.refl log_since_refl r(1)])
  then show ?thesis using that r d1(1) by (simp add: reap_idle_def)
qed

text \<open>
  The sweep with podman stops and records exactly the idle pods, as far as the control plane can tell:
  when the database answers, it reports the tenants whose row says running, that are not kept warm and were last
  active before the limit; their rows say stopped afterwards, all other rows are as before, and the next sweep
  at the same time finds nothing.
\<close>

lemma reap_idle_exact:
  assumes "answering d"
  shows "\<exists>d' w'. reap_idle idle_for (podman_orchestrator np podman) (d, w)
      = (Inr (map tn_slug (filter (idle_at (db_now d - idle_for)) (pg_tenants (db_pg d)))), d', w')
    \<and> pg_tenants (db_pg d') = map (\<lambda>t. if tn_id t \<in> tn_id ` {u \<in> set (pg_tenants (db_pg d)). idle_at (db_now d - idle_for) u}
         then stopped t else t) (pg_tenants (db_pg d))
    \<and> filter (idle_at (db_now d - idle_for)) (pg_tenants (db_pg d')) = []"
proof -
  obtain d' w' where r: "reap_idle idle_for (podman_orchestrator np podman) (d, w)
      = (Inr (map tn_slug (filter (idle_at (db_now d - idle_for)) (pg_tenants (db_pg d)))), d', w')"
    "pg_tenants (db_pg d') = map (\<lambda>t. if tn_id t \<in> tn_id ` {u \<in> set (pg_tenants (db_pg d)). idle_at (db_now d - idle_for) u}
         then stopped t else t) (pg_tenants (db_pg d))"
    by (rule reap_idle_run [OF assms])
  then have "filter (idle_at (db_now d - idle_for)) (pg_tenants (db_pg d')) = []"
    by (auto simp: filter_empty_conv stopped_def idle_at_def)
  then show ?thesis using r by blast
qed

text \<open>
  The sweep does not notice a pod that podman fails to stop: what it reports and what it records do not
  depend on podman's answers at all, although a failed stop is meant to be skipped. A pod that could not be
  removed is recorded as stopped.
\<close>

lemma reap_ignores_podman:
  "map_prod id fst (reap_idle idle_for (podman_orchestrator np podman) (d, w))
   = map_prod id fst (reap_idle idle_for (podman_orchestrator np' podman') (d, w'))"
proof -
  have *: "map_prod id fst (reap_tenants (podman_orchestrator np podman) ts (e, v))
      = map_prod id fst (reap_tenants (podman_orchestrator np' podman') ts (e, v'))" for ts e v v'
  proof (induction ts arbitrary: e v v')
    case (Cons t ts)
    obtain v1 v1' where v: "oc_stop (podman_orchestrator np podman) (tn_slug t) v = (Inr (), v1)"
      "oc_stop (podman_orchestrator np' podman') (tn_slug t) v' = (Inr (), v1')"
      using stop_pod_ok by (metis prod.collapse)
    obtain r e1 where "record_pod_stopped (tn_id t) e = (r, e1)" by fastforce
    then show ?case using Cons.IH [of e1 v1 v1'] v by (cases r) (auto split: prod.splits)
  qed simp
  obtain r d1 where "find_idle_running_tenants idle_for d = (r, d1)" by fastforce
  then show ?thesis using * [of "case r of Inr ts \<Rightarrow> ts" d1 w w']
    by (cases r) (auto simp: reap_idle_def split: prod.splits)
qed

section \<open>Requests and sweeps\<close>

text \<open>A git request as it reaches the handler, and what may happen to a hub: requests and sweeps, each at its time.\<close>

record git_call =
  gc_request :: incoming
  gc_method :: string
  gc_route :: git_http_route
  gc_cert :: "string option"

datatype hub_event = GitAt int git_call | SweepAt int

fun hub_run ::
  "'u web \<Rightarrow> 'w pods \<Rightarrow> 'w orchestrator \<Rightarrow> string \<Rightarrow> string \<Rightarrow> int \<Rightarrow> hub_event list \<Rightarrow> 'u db \<times> 'w
    \<Rightarrow> rendered list \<times> 'u db \<times> 'w" where
  "hub_run wb po oc repos_root img idle_for [] s = ([], s)"
| "hub_run wb po oc repos_root img idle_for (GitAt now q # evs) (d, w) =
     (case handle_git_http wb po (gc_request q) (gc_method q) (gc_route q) repos_root img (gc_cert q) (d\<lparr>db_now := now\<rparr>, w) of
        (answer, s') \<Rightarrow> (case hub_run wb po oc repos_root img idle_for evs s' of (answers, s'') \<Rightarrow> (answer # answers, s'')))"
| "hub_run wb po oc repos_root img idle_for (SweepAt now # evs) (d, w) =
     (case reap_idle idle_for oc (d\<lparr>db_now := now\<rparr>, w) of (_, s') \<Rightarrow> hub_run wb po oc repos_root img idle_for evs s')"

text \<open>A device of tenant \<open>i\<close> asks for the repository of its own tenant.\<close>

definition own_call :: "'u web \<Rightarrow> device list \<Rightarrow> int \<Rightarrow> string \<Rightarrow> git_call \<Rightarrow> bool" where
  "own_call wb devices i slug q \<longleftrightarrow>
     gc_method q \<in> {''GET'', ''POST''} \<and> rt_tenant_slug (gc_route q) = slug
     \<and> (case Option.bind (gc_cert q) (cert_serial_hex (wb_x509 wb)) of
          None \<Rightarrow> False
        | Some serial \<Rightarrow>
            (case List.find (\<lambda>dv. dv_cert_serial dv = Some serial) devices of
               None \<Rightarrow> False
             | Some dv \<Rightarrow> dv_revoked_at dv = None \<and> dv_tenant_id dv = i))"

definition row_of :: "string \<Rightarrow> 'u db \<Rightarrow> tenant option" where
  "row_of slug d = List.find (\<lambda>t. tn_slug t = slug) (pg_tenants (db_pg d))"

lemma row_of_same: "same_rows d d' \<Longrightarrow> row_of slug d' = row_of slug d"
  by (simp add: row_of_def same_rows_def)

lemma row_of_mem: "row_of slug d = Some t \<Longrightarrow> t \<in> set (pg_tenants (db_pg d)) \<and> tn_slug t = slug"
  unfolding row_of_def by (drule find_holds) simp

lemma row_of_updated:
  assumes "row_of slug d = Some t" "pg_tenants (db_pg d') = map (\<lambda>t. if P t then f t else t) (pg_tenants (db_pg d))"
    "\<And>t. tn_slug (f t) = tn_slug t"
  shows "row_of slug d' = Some (if P t then f t else t)"
proof -
  have "List.find (\<lambda>t. tn_slug t = slug) ts = Some t \<Longrightarrow>
      List.find (\<lambda>t. tn_slug t = slug) (map (\<lambda>t. if P t then f t else t) ts) = Some (if P t then f t else t)" for ts
    by (induction ts) (auto simp: assms(3))
  then show ?thesis using assms(1,2) by (simp add: row_of_def)
qed

text \<open>An own call gets past the checks, marks the tenant active and is served.\<close>

lemma own_call_served:
  assumes "answering d" "keeps_rows (wb_schema wb)" "\<And>s. fst (wb_schema wb s) = Inr ()" "row_of slug d = Some t"
    "own_call wb (pg_devices (db_pg d)) (tn_id t) slug q"
  obtains d1 where "unmoved d d1"
    "handle_git_http wb po (gc_request q) (gc_method q) (gc_route q) repos_root img (gc_cert q) (d, w)
       = serve_authorized po (gc_request q) (gc_method q) (gc_route q) repos_root img t (d1, w)"
proof -
  obtain serial dv where s: "Option.bind (gc_cert q) (cert_serial_hex (wb_x509 wb)) = Some serial"
    "List.find (\<lambda>dv. dv_cert_serial dv = Some serial) (pg_devices (db_pg d)) = Some dv" "dv_revoked_at dv = None"
    "dv_tenant_id dv = tn_id t" "gc_method q \<in> {''GET'', ''POST''}" "rt_tenant_slug (gc_route q) = slug"
    using assms(5) by (auto simp: own_call_def split: option.splits)
  obtain d1 where d1: "connect (wb_schema wb) d = (Inr (), d1)" "unmoved d d1"
    using connect_answering [OF assms(1,2,3)] by blast
  have a1: "answering d1" "pg_devices (db_pg d1) = pg_devices (db_pg d)" using d1(2) by (auto simp: unmoved_def same_rows_def)
  obtain d2 where d2: "find_device_by_cert_serial serial d1 = (Inr (Some dv), d2)" "unmoved d1 d2"
    using select_answering [OF a1(1)] s(2) a1(2) unfolding find_device_by_cert_serial_def by metis
  have a2: "answering d2" using d2(2) by (simp add: unmoved_def)
  have u2: "unmoved d d2" using d1(2) d2(2) by (auto simp: unmoved_def same_rows_def)
  have "row_of slug d2 = Some t" using row_of_same assms(4) u2 by (metis unmoved_def)
  then obtain d3 where d3: "find_tenant_by_slug slug d2 = (Inr (Some t), d3)" "unmoved d2 d3"
    using select_answering [OF a2] unfolding find_tenant_by_slug_def row_of_def by metis
  have "unmoved d d3" using u2 d3(2) by (auto simp: unmoved_def same_rows_def)
  then show ?thesis
    by (rule that) (use s d1(1) d2(1) d3(1) in \<open>auto simp: handle_git_http_def\<close>)
qed

section \<open>A pod that crashed\<close>

text \<open>Each sweep comes within the limit after the last request.\<close>

fun swept_within :: "int \<Rightarrow> int \<Rightarrow> hub_event list \<Rightarrow> bool" where
  "swept_within idle_for last_at [] = True"
| "swept_within idle_for last_at (GitAt now q # evs) = swept_within idle_for now evs"
| "swept_within idle_for last_at (SweepAt now # evs) = (now \<le> last_at + idle_for \<and> swept_within idle_for last_at evs)"

fun calls_of :: "hub_event list \<Rightarrow> git_call list" where
  "calls_of [] = []"
| "calls_of (GitAt now q # evs) = q # calls_of evs"
| "calls_of (SweepAt now # evs) = calls_of evs"

lemma send_loop_down:
  assumes "\<And>m u c b w. \<exists>e. po_send po m u c b w = (Inl e, w)"
  shows "send_loop po n meth url ct body w = (status_only 502, w)"
proof (induction n)
  case (Suc n)
  obtain e where "po_send po meth url ct (if meth = ''POST'' then body else []) w = (Inl e, w)" using assms by blast
  then show ?case using Suc.IH by simp
qed simp

lemma serve_down:
  assumes "answering d" "tn_id t \<in> tn_id ` set (pg_tenants (db_pg d))" "tn_pod_running t" "meth \<in> {''GET'', ''POST''}"
    "\<And>m u c b w. \<exists>e. po_send po m u c b w = (Inl e, w)"
  shows "\<exists>d'. serve_authorized po request meth route repos_root img t (d, w) = (status_only 502, d', w)
    \<and> answering d' \<and> pg_devices (db_pg d') = pg_devices (db_pg d)
    \<and> pg_tenants (db_pg d') = map (\<lambda>u. if tn_id u = tn_id t then u\<lparr>tn_last_active_at := db_now d\<rparr> else u) (pg_tenants (db_pg d))"
  using updated_tenant_answering [OF assms(1,2), of "\<lambda>u. u\<lparr>tn_last_active_at := db_now d\<rparr>"] send_loop_down [OF assms(5)]
    assms(3,4)
  by (fastforce simp: serve_authorized_def touch_last_active_def proxy_to_tenant_pod_def)

text \<open>What holds of the row of the crashed pod's tenant, and is kept by every event.\<close>

definition thought_running :: "string \<Rightarrow> int \<Rightarrow> device list \<Rightarrow> int \<Rightarrow> 'u db \<Rightarrow> bool" where
  "thought_running slug i devices last_at d \<longleftrightarrow>
     answering d \<and> pg_devices (db_pg d) = devices \<and> distinct (map tn_id (pg_tenants (db_pg d)))
     \<and> distinct (map tn_slug (pg_tenants (db_pg d)))
     \<and> (case row_of slug d of None \<Rightarrow> False | Some t \<Rightarrow> tn_id t = i \<and> tn_pod_running t \<and> last_at \<le> tn_last_active_at t)"

lemma map_key_same: "(\<And>t. k (f t) = k t) \<Longrightarrow> map k (map (\<lambda>t. if P t then f t else t) ts) = map k ts"
  by simp

lemma call_down:
  assumes "thought_running slug i devices last_at d" "own_call wb devices i slug q"
    "keeps_rows (wb_schema wb)" "\<And>s. fst (wb_schema wb s) = Inr ()" "\<And>m u c b w. \<exists>e. po_send po m u c b w = (Inl e, w)"
  shows "\<exists>d'. handle_git_http wb po (gc_request q) (gc_method q) (gc_route q) repos_root img (gc_cert q) (d\<lparr>db_now := now\<rparr>, w)
      = (status_only 502, d', w) \<and> thought_running slug i devices now d'"
proof -
  let ?d = "d\<lparr>db_now := now\<rparr>"
  obtain t where t: "row_of slug ?d = Some t" "tn_id t = i" "tn_pod_running t" "answering ?d" "pg_devices (db_pg ?d) = devices"
    using assms(1) by (auto simp: thought_running_def row_of_def answering_def split: option.splits)
  obtain d1 where d1: "unmoved ?d d1"
    "handle_git_http wb po (gc_request q) (gc_method q) (gc_route q) repos_root img (gc_cert q) (?d, w)
       = serve_authorized po (gc_request q) (gc_method q) (gc_route q) repos_root img t (d1, w)"
    by (rule own_call_served [OF t(4) assms(3,4) t(1)]) (use assms(2) t in auto)
  have same: "pg_tenants (db_pg d1) = pg_tenants (db_pg d)" "db_now d1 = now" "answering d1" "pg_devices (db_pg d1) = devices"
    using d1(1) t(5) by (auto simp: unmoved_def same_rows_def)
  have m: "gc_method q \<in> {''GET'', ''POST''}" using assms(2) by (simp add: own_call_def)
  have "tn_id t \<in> tn_id ` set (pg_tenants (db_pg d1))" using row_of_mem [OF t(1)] same(1) by simp
  then obtain d' where
    d': "serve_authorized po (gc_request q) (gc_method q) (gc_route q) repos_root img t (d1, w) = (status_only 502, d', w)"
    "answering d'" "pg_devices (db_pg d') = devices"
    "pg_tenants (db_pg d') = map (\<lambda>u. if tn_id u = i then u\<lparr>tn_last_active_at := now\<rparr> else u) (pg_tenants (db_pg d))"
    using serve_down [OF same(3) _ t(3) m assms(5), of "gc_request q" "gc_route q" repos_root img w] unfolding same t(2) by auto
  have "row_of slug d' = Some (t\<lparr>tn_last_active_at := now\<rparr>)"
    using row_of_updated [of slug d t d' "\<lambda>u. tn_id u = i" "\<lambda>u. u\<lparr>tn_last_active_at := now\<rparr>"] t(1,2) d'(4)
    by (simp add: row_of_def)
  moreover have "distinct (map tn_id (pg_tenants (db_pg d')))" "distinct (map tn_slug (pg_tenants (db_pg d')))"
    using assms(1) unfolding d'(4) thought_running_def by (subst map_key_same; simp)+
  ultimately show ?thesis using d1(2) d' t(2,3) by (simp add: thought_running_def)
qed

lemma sweep_down:
  assumes "thought_running slug i devices last_at d" "now \<le> last_at + idle_for"
  shows "case reap_idle idle_for (podman_orchestrator np podman) (d\<lparr>db_now := now\<rparr>, w) of (_, d', w') \<Rightarrow>
    thought_running slug i devices last_at d'
    \<and> (\<forall>before. log_since before (\<lambda>c. \<exists>other. other \<noteq> slug \<and> podman_about other c) w
        \<longrightarrow> log_since before (\<lambda>c. \<exists>other. other \<noteq> slug \<and> podman_about other c) w')"
proof -
  let ?d = "d\<lparr>db_now := now\<rparr>" and ?oc = "podman_orchestrator np podman"
  let ?idle = "{u \<in> set (pg_tenants (db_pg d)). idle_at (now - idle_for) u}"
  obtain t where t: "row_of slug d = Some t" "tn_id t = i" "tn_pod_running t" "last_at \<le> tn_last_active_at t"
    and d: "answering ?d" "pg_devices (db_pg d) = devices"
      "distinct (map tn_id (pg_tenants (db_pg d)))" "distinct (map tn_slug (pg_tenants (db_pg d)))"
    using assms(1) by (auto simp: thought_running_def answering_def split: option.splits)
  have busy: "t \<notin> ?idle" using t(4) assms(2) by (simp add: idle_at_def)
  have mem: "t \<in> set (pg_tenants (db_pg d))" "tn_slug t = slug" using row_of_mem [OF t(1)] by auto
  have others: "u \<in> ?idle \<Longrightarrow> tn_slug u \<noteq> slug \<and> tn_id u \<noteq> i" for u
    using busy mem t(2) d(3,4) by (auto simp: distinct_map dest: inj_onD)
  obtain x d' w' where r: "reap_idle idle_for ?oc (?d, w) = (x, d', w')" "answering d'" "pg_devices (db_pg d') = devices"
    "pg_tenants (db_pg d') = map (\<lambda>u. if tn_id u \<in> tn_id ` ?idle then stopped u else u) (pg_tenants (db_pg d))"
    and log: "log_since (wd_log w) (\<lambda>c. \<exists>u \<in> ?idle. podman_about (tn_slug u) c) w'"
    by (rule reap_idle_run [OF d(1), where w = w and idle_for = idle_for and np = np and podman = podman]) (simp add: d(2))
  have notin: "tn_id t \<notin> tn_id ` ?idle"
  proof
    assume "tn_id t \<in> tn_id ` ?idle"
    then obtain u where "tn_id t = tn_id u" "u \<in> ?idle" by (rule imageE)
    then show False using others [of u] t(2) by simp
  qed
  have "row_of slug d' = Some (if tn_id t \<in> tn_id ` ?idle then stopped t else t)"
    by (rule row_of_updated [OF t(1) r(4)]) (simp add: stopped_def)
  then have row: "row_of slug d' = Some t" by (simp only: notin if_False)
  have "distinct (map tn_id (pg_tenants (db_pg d')))" "distinct (map tn_slug (pg_tenants (db_pg d')))"
    using d(3,4) unfolding r(4) by (subst map_key_same; simp add: stopped_def)+
  moreover have "log_since before (\<lambda>c. \<exists>other. other \<noteq> slug \<and> podman_about other c) w'"
    if "log_since before (\<lambda>c. \<exists>other. other \<noteq> slug \<and> podman_about other c) w" for before
    using that log others by (fastforce simp: log_since_def)
  ultimately show ?thesis using r(1-3) row t by (simp add: thought_running_def)
qed

text \<open>
  A crashed pod stays down while its tenant keeps asking. When the control plane thinks the pod of a
  tenant is running but the pod answers nothing, then over any sequence of requests of the tenant's devices and
  sweeps in which no sweep comes later than the idle limit after the last request, every request is answered
  502 and no podman command about the tenant is ever run: each request that fails also marks the tenant active.
\<close>

lemma crashed_pod_stays_down:
  assumes "thought_running slug i devices last_at d" "\<forall>q \<in> set (calls_of evs). own_call wb devices i slug q"
    and "swept_within idle_for last_at evs"
    and "keeps_rows (wb_schema wb)" "\<forall>s. fst (wb_schema wb s) = Inr ()" "\<forall>m u c b w. \<exists>e. po_send po m u c b w = (Inl e, w)"
  shows "case hub_run wb po (podman_orchestrator np podman) repos_root img idle_for evs (d, w) of (answers, d', w') \<Rightarrow>
    answers = map (\<lambda>_. status_only 502) (calls_of evs)
    \<and> log_since (wd_log w) (\<lambda>c. \<exists>other. other \<noteq> slug \<and> podman_about other c) w'"
proof -
  have "case hub_run wb po (podman_orchestrator np podman) repos_root img idle_for evs (e, v) of (answers, d', w') \<Rightarrow>
      answers = map (\<lambda>_. status_only 502) (calls_of evs)
      \<and> log_since (wd_log w) (\<lambda>c. \<exists>other. other \<noteq> slug \<and> podman_about other c) w'"
    if "thought_running slug i devices at e" "\<forall>q \<in> set (calls_of evs). own_call wb devices i slug q" "swept_within idle_for at evs"
      "log_since (wd_log w) (\<lambda>c. \<exists>other. other \<noteq> slug \<and> podman_about other c) v" for at e v evs
    using that
  proof (induction evs arbitrary: at e v)
    case (Cons ev evs)
    show ?case
    proof (cases ev)
      case (GitAt now q)
      with Cons.prems(1,2) obtain e' where
        "handle_git_http wb po (gc_request q) (gc_method q) (gc_route q) repos_root img (gc_cert q) (e\<lparr>db_now := now\<rparr>, v)
          = (status_only 502, e', v)" "thought_running slug i devices now e'"
        using call_down [where q = q and now = now and w = v] assms(4-6) by (metis calls_of.simps(2) list.set_intros(1))
      then show ?thesis using Cons.IH [of now e' v] Cons.prems GitAt by (auto split: prod.splits)
    next
      case (SweepAt now)
      obtain r e' v' where r: "reap_idle idle_for (podman_orchestrator np podman) (e\<lparr>db_now := now\<rparr>, v) = (r, e', v')"
        by (metis prod.collapse)
      have "thought_running slug i devices at e'" "log_since (wd_log w) (\<lambda>c. \<exists>other. other \<noteq> slug \<and> podman_about other c) v'"
        using sweep_down [OF Cons.prems(1), where now = now and idle_for = idle_for and np = np and podman = podman and w = v]
          Cons.prems(3,4) SweepAt r by auto
      from Cons.IH [OF this(1) _ _ this(2)] Cons.prems(2,3) show ?thesis by (simp add: SweepAt r)
    qed
  qed simp
  from this [OF assms(1-3) log_since_refl] show ?thesis .
qed

section \<open>A pod that comes back\<close>

text \<open>
  A pod that was left alone comes back with the next request. When the tenant's last request is longer ago
  than the idle limit at a sweep, then the next request of one of its devices starts the pod again, whatever
  state podman's pod was in: if it cannot be started the answer is 503 and the row says stopped, otherwise the
  row says running and the request is passed on to the pod.
\<close>

lemma idle_pod_comes_back:
  assumes "answering d" "distinct (map tn_id (pg_tenants (db_pg d)))" "row_of slug d = Some t" "tn_pod_running t" "\<not> tn_always_warm t"
    and "tn_last_active_at t < now - idle_for" "own_call wb (pg_devices (db_pg d)) (tn_id t) slug q"
    and "keeps_rows (wb_schema wb)" "\<forall>s. fst (wb_schema wb s) = Inr ()" "po_start po = start_pod np podman"
  shows "\<exists>w1. case (hub_run wb po (podman_orchestrator np podman) repos_root img idle_for [SweepAt now, GitAt later q] (d, w),
        start_pod np podman img repos_root slug w1) of ((answers, d', w'), r, w2) \<Rightarrow>
      (case r of
         Inl _ \<Rightarrow> answers = [status_only 503] \<and> w' = w2 \<and> map_option tn_pod_running (row_of slug d') = Some False
       | Inr _ \<Rightarrow> map_option tn_pod_running (row_of slug d') = Some True
           \<and> (\<exists>answer. answers = [answer] \<and> (answer, w') = proxy_to_tenant_pod po slug (rt_endpoint (gc_route q)) (rt_query (gc_route q))
               (gc_method q) (header (gc_request q) ''Content-Type'') (in_body (gc_request q)) w2))"
proof -
  let ?d = "d\<lparr>db_now := now\<rparr>" and ?oc = "podman_orchestrator np podman"
  let ?idle = "{u \<in> set (pg_tenants (db_pg d)). idle_at (now - idle_for) u}"
  have a: "answering ?d" using assms(1) by (simp add: answering_def)
  have idle: "t \<in> ?idle" using row_of_mem [OF assms(3)] assms(4-6) by (simp add: idle_at_def)
  obtain x d2 w1 where r: "reap_idle idle_for ?oc (?d, w) = (x, d2, w1)" "answering d2" "pg_devices (db_pg d2) = pg_devices (db_pg d)"
    "pg_tenants (db_pg d2) = map (\<lambda>u. if tn_id u \<in> tn_id ` ?idle then stopped u else u) (pg_tenants (db_pg d))"
    by (rule reap_idle_run [OF a, where w = w and idle_for = idle_for and np = np and podman = podman]) simp
  let ?e = "d2\<lparr>db_now := later\<rparr>"
  have row2: "row_of slug ?e = Some (stopped t)"
    using row_of_updated [OF assms(3) r(4)] idle by (auto simp: stopped_def row_of_def)
  obtain d3 where d3: "unmoved ?e d3"
    "handle_git_http wb po (gc_request q) (gc_method q) (gc_route q) repos_root img (gc_cert q) (?e, w1)
       = serve_authorized po (gc_request q) (gc_method q) (gc_route q) repos_root img (stopped t) (d3, w1)"
    by (rule own_call_served [OF _ assms(8) _ row2]) (use assms(7,9) r(2,3) in \<open>auto simp: answering_def stopped_def\<close>)
  have a3: "answering d3" "pg_tenants (db_pg d3) = pg_tenants (db_pg d2)" "row_of slug d3 = Some (stopped t)"
    using d3(1) row_of_same row2 by (auto simp: unmoved_def same_rows_def row_of_def)
  have in3: "tn_id t \<in> tn_id ` set (pg_tenants (db_pg d3))" using row_of_mem [OF a3(3)] by (auto simp: stopped_def intro!: rev_image_eqI [of "stopped t"])
  have "\<exists>d4. touch_last_active (tn_id t) d3 = (Inr (), d4) \<and> answering d4
      \<and> pg_tenants (db_pg d4) = map (\<lambda>u. if tn_id u = tn_id t then u\<lparr>tn_last_active_at := db_now d3\<rparr> else u) (pg_tenants (db_pg d3))"
    using updated_tenant_answering [OF a3(1) in3] unfolding touch_last_active_def by blast
  then obtain d4 where d4: "touch_last_active (tn_id t) d3 = (Inr (), d4)" "answering d4"
    "pg_tenants (db_pg d4) = map (\<lambda>u. if tn_id u = tn_id t then u\<lparr>tn_last_active_at := db_now d3\<rparr> else u) (pg_tenants (db_pg d3))"
    by blast
  have row4: "row_of slug d4 = Some ((stopped t)\<lparr>tn_last_active_at := db_now d3\<rparr>)"
    using row_of_updated [OF a3(3) d4(3)] by (simp add: stopped_def)
  have in4: "tn_id t \<in> tn_id ` set (pg_tenants (db_pg d4))" using row_of_mem [OF row4] by (auto simp: stopped_def intro!: rev_image_eqI [of "(stopped t)\<lparr>tn_last_active_at := db_now d3\<rparr>"])
  have "\<exists>d5. record_pod_started (tn_id t) d4 = (Inr (), d5) \<and> pg_tenants (db_pg d5)
      = map (\<lambda>u. if tn_id u = tn_id t then u\<lparr>tn_pod_running := True, tn_pod_started_at := Some (db_now d4)\<rparr> else u) (pg_tenants (db_pg d4))"
    using updated_tenant_answering [OF d4(2) in4] unfolding record_pod_started_def by blast
  then obtain d5 where d5: "record_pod_started (tn_id t) d4 = (Inr (), d5)"
    "pg_tenants (db_pg d5) = map (\<lambda>u. if tn_id u = tn_id t then u\<lparr>tn_pod_running := True, tn_pod_started_at := Some (db_now d4)\<rparr> else u)
       (pg_tenants (db_pg d4))"
    by blast
  have row5: "\<exists>z. row_of slug d5 = Some z \<and> tn_pod_running z"
    using row_of_updated [OF row4 d5(2)] by (simp add: stopped_def)
  have "rt_tenant_slug (gc_route q) = slug" using assms(7) by (simp add: own_call_def)
  then show ?thesis
    by (intro exI [of _ w1], cases "start_pod np podman img repos_root slug w1")
      (auto simp: r(1) d3(2) serve_authorized_def stopped_def d4(1) d5(1) assms(10) row4 row5
        split: sum.splits prod.splits)
qed

section \<open>Requests and podman together\<close>

text \<open>
  C23. A git request only touches the pod of the tenant it is entitled to. With podman behind the handler,
  whatever the request and whatever fails, every podman command run while it is handled is about the tenant the
  route names; and if any is run at all, the client's certificate belongs to a registered device of that very
  tenant that is not revoked, and the tenant's pod was not thought to be running.
\<close>

theorem git_request_stays_with_tenant:
  assumes "keeps_rows (wb_schema wb)" "po_start po = start_pod np podman"
    and "\<forall>m u c b w. wd_log (snd (po_send po m u c b w)) = wd_log w"
  shows "case handle_git_http wb po request meth route repos_root img cert (d, w) of (answer, d', w') \<Rightarrow>
    log_since (wd_log w) (podman_about (rt_tenant_slug route)) w'
    \<and> (wd_log w' \<noteq> wd_log w \<longrightarrow>
        (\<exists>serial t. Option.bind cert (cert_serial_hex (wb_x509 wb)) = Some serial
          \<and> entitled (db_pg d) serial (rt_tenant_slug route) = Some t \<and> \<not> tn_pod_running t))"
proof -
  obtain answer d' w' where run: "handle_git_http wb po request meth route repos_root img cert (d, w) = (answer, d', w')"
    by (metis prod.collapse)
  have send: "keeps (log_since before ok) (po_send po m u c b)" for before ok m u c b
    using assms(3) by (auto simp: keeps_def log_since_def)
  have start: "po_start po = oc_start (podman_orchestrator np podman)" by (simp add: assms(2) podman_orchestrator_def)
  have served: "log_since (wd_log w) (podman_about (rt_tenant_slug route)) w'"
    if "(answer, d', w') = serve_authorized po request meth route repos_root img t (d1, w)" for t d1
    using podman.serve_authorized_about [OF start send that [symmetric]] .
  have up: "wd_log w' = wd_log w"
    if s: "(answer, d', w') = serve_authorized po request meth route repos_root img t (d1, w)" and r: "tn_pod_running t" for t d1
  proof -
    have loop: "send_loop po n m u c b v = (x, v') \<Longrightarrow> wd_log v' = wd_log v" for n m u c b v x v'
    proof (induction n arbitrary: v)
      case (Suc n)
      obtain q v1 where q: "po_send po m u c (if m = ''POST'' then b else []) v = (q, v1)" by fastforce
      have "wd_log v1 = wd_log v" using assms(3) q by (metis snd_conv)
      then show ?case using Suc.IH Suc.prems q by (cases q) auto
    qed simp
    show ?thesis using s r
      by (auto simp: serve_authorized_def proxy_to_tenant_pod_def dest!: sym [of "(answer, d', w')"] loop split: prod.splits if_splits)
  qed
  show ?thesis
  proof (cases "w' = w")
    case False
    from handle_git_http_entitled [OF assms(1), where po = po and request = request and meth = meth and route = route
        and repos_root = repos_root and img = img and peer_cert = cert and d = d and p = w] False
    obtain serial t d1 where "Option.bind cert (cert_serial_hex (wb_x509 wb)) = Some serial"
      "entitled (db_pg d) serial (rt_tenant_slug route) = Some t"
      and s: "(answer, d', w') = serve_authorized po request meth route repos_root img t (d1, w)"
      by (auto simp: run split: option.splits)
    then show ?thesis unfolding run using served [OF s] up [OF s] by auto
  qed (simp add: run)
qed

section \<open>A hub with one pod\<close>

text \<open>A podman for which every command succeeds, and pods that answer nothing.\<close>

definition demo_podman :: "unit git" where
  "demo_podman args stdin w = (GitExit True [] [], w)"

definition demo_world :: "unit world" where
  "demo_world = \<lparr>wd_files = (\<lambda>_. None), wd_dirs = [], wd_fault = (\<lambda>_ _. None), wd_nanos = 0, wd_pid = 1, wd_git = (), wd_log = []\<rparr>"

definition dead_pods :: "unit world pods" where
  "dead_pods = \<lparr>po_start = start_pod (\<lambda>_. False) demo_podman, po_send = (\<lambda>_ _ _ _ w. (Inl ''connection refused'', w))\<rparr>"

definition bob_call :: git_call where
  "bob_call = \<lparr>gc_request = \<lparr>in_headers = [], in_body = []\<rparr>, gc_method = ''GET'',
     gc_route = \<lparr>rt_tenant_slug = ''bob'', rt_endpoint = ''info/refs'', rt_query = []\<rparr>, gc_cert = Some ''der''\<rparr>"

lemma demo_facts:
  "keeps_rows (wb_schema (demo_web :: unit web))" "\<forall>s. fst (wb_schema (demo_web :: unit web) s) = Inr ()" "answering demo_db"
  "distinct (map tn_id (pg_tenants (db_pg demo_db)))" "distinct (map tn_slug (pg_tenants (db_pg demo_db)))"
  "pg_devices (db_pg demo_db) \<noteq> []"
  by (simp_all add: keeps_rows_def demo_web_def answering_def demo_db_def)

lemma bob_facts:
  "own_call (demo_web :: unit web) (pg_devices (db_pg demo_db)) 2 ''bob'' bob_call"
  "\<exists>t. row_of ''bob'' demo_db = Some t \<and> tn_id t = 2 \<and> tn_pod_running t \<and> \<not> tn_always_warm t \<and> tn_last_active_at t = 0"
proof -
  have "Option.bind (Some ''der'') (cert_serial_hex (wb_x509 (demo_web :: unit web))) = Some ''07''" by code_simp
  then show "own_call (demo_web :: unit web) (pg_devices (db_pg demo_db)) 2 ''bob'' bob_call"
    by (simp add: own_call_def bob_call_def demo_db_def Let_def)
  show "\<exists>t. row_of ''bob'' demo_db = Some t \<and> tn_id t = 2 \<and> tn_pod_running t \<and> \<not> tn_always_warm t \<and> tn_last_active_at t = 0"
    by (simp add: row_of_def demo_db_def Let_def)
qed

theorem start_pod_confines_witness:
  "log_since [] (pod_command (confined ''img'' ''/repos'' ''acme'') ''acme'')
     (snd (start_pod (\<lambda>_. False) demo_podman ''img'' ''/repos'' ''acme'' demo_world))"
proof -
  have "\<not> starts_with ''img'' ''-''" by (simp add: starts_with_def)
  from start_pod_confines [OF this, where np = "\<lambda>_. False" and podman = demo_podman and repos_root = "''/repos''" and slug = "''acme''"
      and w = demo_world]
  show ?thesis by (auto simp: demo_world_def split: prod.splits)
qed

lemma reap_idle_exact_witness:
  "\<exists>d' w'. reap_idle 5 (podman_orchestrator (\<lambda>_. False) demo_podman) (demo_db, demo_world) = (Inr [''alice'', ''bob''], d', w')"
  using reap_idle_exact [OF demo_facts(3), where idle_for = 5 and np = "\<lambda>_. False" and podman = demo_podman and w = demo_world]
  by (force simp: demo_db_def idle_at_def Let_def)

lemma crashed_pod_stays_down_witness:
  "fst (hub_run demo_web dead_pods (podman_orchestrator (\<lambda>_. False) demo_podman) ''/repos'' ''img'' 30
     [GitAt 10 bob_call, SweepAt 35, GitAt 36 bob_call] (demo_db, demo_world)) = [status_only 502, status_only 502]"
proof -
  let ?evs = "[GitAt 10 bob_call, SweepAt 35, GitAt 36 bob_call]"
  have "thought_running ''bob'' 2 (pg_devices (db_pg demo_db)) 0 demo_db"
    using demo_facts bob_facts(2) by (auto simp: thought_running_def)
  moreover have "\<forall>q \<in> set (calls_of ?evs). own_call (demo_web :: unit web) (pg_devices (db_pg demo_db)) 2 ''bob'' q" "swept_within 30 0 ?evs"
    using bob_facts(1) by simp_all
  moreover have "\<forall>m u c b w. \<exists>e. po_send dead_pods m u c b w = (Inl e, w)" by (simp add: dead_pods_def)
  ultimately have "case hub_run demo_web dead_pods (podman_orchestrator (\<lambda>_. False) demo_podman) ''/repos'' ''img'' 30 ?evs (demo_db, demo_world) of
      (answers, d', w') \<Rightarrow> answers = map (\<lambda>_. status_only 502) (calls_of ?evs)
        \<and> log_since (wd_log demo_world) (\<lambda>c. \<exists>other. other \<noteq> ''bob'' \<and> podman_about other c) w'"
    using demo_facts(1,2) by (intro crashed_pod_stays_down)
  then show ?thesis by (simp only: case_prod_beta calls_of.simps list.map)
qed

lemma idle_pod_comes_back_witness:
  "\<exists>r d'. hub_run demo_web dead_pods (podman_orchestrator (\<lambda>_. False) demo_podman) ''/repos'' ''img'' 30
     [SweepAt 50, GitAt 60 bob_call] (demo_db, demo_world) = ([r], d')"
proof -
  obtain t where t: "row_of ''bob'' demo_db = Some t" "tn_id t = 2" "tn_pod_running t" "\<not> tn_always_warm t" "tn_last_active_at t = 0"
    using bob_facts(2) by blast
  have "po_start dead_pods = start_pod (\<lambda>_. False) demo_podman" by (simp add: dead_pods_def)
  from idle_pod_comes_back [OF demo_facts(3,4) t(1,3,4) _ _ demo_facts(1,2) this, where now = 50 and idle_for = 30 and q = bob_call
      and repos_root = "''/repos''" and img = "''img''" and later = 60 and w = demo_world]
    bob_facts(1) t(2,5)
  show ?thesis by (auto split: prod.splits sum.splits)
qed

theorem git_request_stays_with_tenant_witness:
  "log_since [] (podman_about ''bob'')
     (snd (snd (handle_git_http demo_web dead_pods (gc_request bob_call) ''GET'' (gc_route bob_call) ''/repos'' ''img'' (Some ''der'')
       (demo_db, demo_world))))"
proof -
  have "po_start dead_pods = start_pod (\<lambda>_. False) demo_podman" "\<forall>m u c b w. wd_log (snd (po_send dead_pods m u c b w)) = wd_log w"
    by (simp_all add: dead_pods_def)
  from git_request_stays_with_tenant [OF demo_facts(1) this, where request = "gc_request bob_call" and meth = "''GET''"
      and route = "gc_route bob_call" and repos_root = "''/repos''" and img = "''img''" and cert = "Some ''der''" and d = demo_db
      and w = demo_world]
  show ?thesis by (auto simp: demo_world_def bob_call_def split: prod.splits)
qed

end
