(* ===== verification/K8sPod.thy ===== *)
theory K8sPod
  imports PodProps Frontmatter
begin

text \<open>
  The orchestrator for Kubernetes (crates/wkp-hub/src/k8s_orchestrator.rs) and the choice between the two
  (\<open>orchestrator\<close> of tenant_pod.rs). kubectl is a program the sources run: \<open>kubectl\<close> is any function of its
  arguments, its standard input and the world. A tenant has two pods here, and a policy that cuts the indexer
  off the network.
\<close>

section \<open>The environment\<close>

text \<open>A variable that is not Unicode comes with the debug form of its value.\<close>

datatype env_value = Unset | Value string | NotUnicode string

definition not_unicode :: "string \<Rightarrow> string" where
  "not_unicode debug_form = ''environment variable was not valid unicode: '' @ debug_form"

definition SA_DIR :: string where
  "SA_DIR = ''/var/run/secrets/kubernetes.io/serviceaccount''"

definition NAMESPACE_ENV :: string where
  "NAMESPACE_ENV = ''WKP_HUB_K8S_NAMESPACE''"

definition SHARED_PVC_ENV :: string where
  "SHARED_PVC_ENV = ''WKP_HUB_K8S_SHARED_PVC''"

definition DEFAULT_SHARED_PVC :: string where
  "DEFAULT_SHARED_PVC = ''tenant-repos-shared''"

definition KUBECONFIG_PATH :: string where
  "KUBECONFIG_PATH = ''/tmp/wkp-hub-kubeconfig.yaml''"

section \<open>Names and manifests\<close>

definition serve_pod_name :: "string \<Rightarrow> string" where
  "serve_pod_name tenant_slug = ''wkp-tenant-'' @ tenant_slug @ ''-serve''"

definition index_pod_name :: "string \<Rightarrow> string" where
  "index_pod_name tenant_slug = ''wkp-tenant-'' @ tenant_slug @ ''-index''"

definition index_deny_egress_name :: "string \<Rightarrow> string" where
  "index_deny_egress_name tenant_slug = ''wkp-tenant-'' @ tenant_slug @ ''-index-deny-egress''"

text \<open>The four documents of a tenant's manifest, each as its lines.\<close>

definition policy_lines :: "string \<Rightarrow> string \<Rightarrow> string list" where
  "policy_lines namespace tenant_slug =
    [
     ''apiVersion: networking.k8s.io/v1'',
     ''kind: NetworkPolicy'',
     ''metadata:'',
     ''  name: '' @ index_deny_egress_name tenant_slug,
     ''  namespace: '' @ namespace,
     ''spec:'',
     ''  podSelector:'',
     ''    matchLabels: { app: '' @ index_pod_name tenant_slug @ '' }'',
     ''  policyTypes: ['' @ [dquote] @ ''Egress'' @ [dquote] @ '']'',
     ''  egress: []''
    ]"

definition serve_lines :: "string \<Rightarrow> string \<Rightarrow> string \<Rightarrow> string \<Rightarrow> string list" where
  "serve_lines namespace shared_pvc img tenant_slug =
    [
     ''apiVersion: v1'',
     ''kind: Pod'',
     ''metadata:'',
     ''  name: '' @ serve_pod_name tenant_slug,
     ''  namespace: '' @ namespace,
     ''  labels:'',
     ''    app: '' @ serve_pod_name tenant_slug,
     ''    tenant: '' @ tenant_slug,
     ''spec:'',
     ''  initContainers:'',
     ''    - name: init-tenant-dir'',
     ''      image: '' @ img,
     ''      command: ['' @ [dquote] @ ''mkdir'' @ [dquote] @ '', '' @ [dquote] @ ''-p'' @ [dquote] @ '', ''
       @ [dquote] @ ''/mnt/shared-repos/'' @ tenant_slug @ [dquote] @ '']'',
     ''      volumeMounts:'',
     ''        - name: shared-repos'',
     ''          mountPath: /mnt/shared-repos'',
     ''  containers:'',
     ''    - name: serve'',
     ''      image: '' @ img,
     ''      command: ['' @ [dquote] @ ''/usr/local/bin/wkp-hub'' @ [dquote] @ '']'',
     ''      args: ['' @ [dquote] @ ''serve-tenant'' @ [dquote] @ '', '' @ [dquote] @ ''--tenant'' @ [dquote]
       @ '', '' @ [dquote] @ tenant_slug @ [dquote] @ '', '' @ [dquote] @ ''--port'' @ [dquote] @ '', '' @ [dquote]
       @ show_nat SERVE_PORT @ [dquote] @ '']'',
     ''      ports:'',
     ''        - containerPort: '' @ show_nat SERVE_PORT,
     ''      volumeMounts:'',
     ''        - name: shared-repos'',
     ''          mountPath: '' @ ''/srv/wkp-hub/repos/'' @ tenant_slug,
     ''          subPath: '' @ tenant_slug,
     ''  volumes:'',
     ''    - name: shared-repos'',
     ''      persistentVolumeClaim:'',
     ''        claimName: '' @ shared_pvc
    ]"

definition index_lines :: "string \<Rightarrow> string \<Rightarrow> string \<Rightarrow> string \<Rightarrow> string list" where
  "index_lines namespace shared_pvc img tenant_slug =
    [
     ''apiVersion: v1'',
     ''kind: Pod'',
     ''metadata:'',
     ''  name: '' @ index_pod_name tenant_slug,
     ''  namespace: '' @ namespace,
     ''  labels:'',
     ''    app: '' @ index_pod_name tenant_slug,
     ''    tenant: '' @ tenant_slug,
     ''spec:'',
     ''  initContainers:'',
     ''    - name: init-tenant-dir'',
     ''      image: '' @ img,
     ''      command: ['' @ [dquote] @ ''mkdir'' @ [dquote] @ '', '' @ [dquote] @ ''-p'' @ [dquote] @ '', ''
       @ [dquote] @ ''/mnt/shared-repos/'' @ tenant_slug @ [dquote] @ '']'',
     ''      volumeMounts:'',
     ''        - name: shared-repos'',
     ''          mountPath: /mnt/shared-repos'',
     ''  containers:'',
     ''    - name: index-worker'',
     ''      image: '' @ img,
     ''      command: ['' @ [dquote] @ ''/usr/local/bin/wkp-hub'' @ [dquote] @ '']'',
     ''      args: ['' @ [dquote] @ ''index-worker'' @ [dquote] @ '', '' @ [dquote] @ ''--tenant'' @ [dquote]
       @ '', '' @ [dquote] @ tenant_slug @ [dquote] @ '']'',
     ''      volumeMounts:'',
     ''        - name: shared-repos'',
     ''          mountPath: '' @ ''/srv/wkp-hub/repos/'' @ tenant_slug,
     ''          subPath: '' @ tenant_slug,
     ''  volumes:'',
     ''    - name: shared-repos'',
     ''      persistentVolumeClaim:'',
     ''        claimName: '' @ shared_pvc
    ]"

definition service_lines :: "string \<Rightarrow> string \<Rightarrow> string list" where
  "service_lines namespace tenant_slug =
    [
     ''apiVersion: v1'',
     ''kind: Service'',
     ''metadata:'',
     ''  name: '' @ tenant_slug,
     ''  namespace: '' @ namespace,
     ''spec:'',
     ''  selector:'',
     ''    app: '' @ serve_pod_name tenant_slug,
     ''  ports:'',
     ''    - port: '' @ show_nat SERVE_PORT,
     ''      targetPort: '' @ show_nat SERVE_PORT
    ]"

definition tenant_manifest :: "string \<Rightarrow> string \<Rightarrow> string \<Rightarrow> string \<Rightarrow> string" where
  "tenant_manifest namespace shared_pvc img tenant_slug =
     unlines (policy_lines namespace tenant_slug @ [''---''] @ serve_lines namespace shared_pvc img tenant_slug @ [''---'']
       @ index_lines namespace shared_pvc img tenant_slug @ [''---''] @ service_lines namespace tenant_slug)"

definition render_kubeconfig :: "string \<Rightarrow> string \<Rightarrow> string \<Rightarrow> string" where
  "render_kubeconfig host port namespace = unlines
    [''apiVersion: v1'', ''kind: Config'', ''clusters:'', ''  - name: in-cluster'', ''    cluster:'',
     ''      server: https://'' @ host @ '':'' @ port, ''      certificate-authority: '' @ SA_DIR @ ''/ca.crt'',
     ''users:'', ''  - name: wkp-hub'', ''    user:'', ''      tokenFile: '' @ SA_DIR @ ''/token'',
     ''contexts:'', ''  - name: wkp-hub'', ''    context:'', ''      cluster: in-cluster'', ''      user: wkp-hub'',
     ''      namespace: '' @ namespace, ''current-context: wkp-hub'']"

section \<open>Setting up\<close>

definition read_in_cluster_namespace :: "('g world, string) prog" where
  "read_in_cluster_namespace =
     andthen (map_err (\<lambda>e. NAMESPACE_ENV @ '' is unset and '' @ SA_DIR @ ''/namespace couldn'' @ [squote] @ ''t be read ('' @ e
         @ '') -- is this process actually running in a Kubernetes Pod? (Kubernetes projects this file into every Pod ''
         @ ''automatically; a plain `podman run` or a local dev shell will not have it.)'')
       (read_to_string (SA_DIR @ ''/namespace'')))
     (\<lambda>s. ret (trim s))"

definition write_kubeconfig :: "(string \<Rightarrow> env_value) \<Rightarrow> string \<Rightarrow> ('g world, unit) prog" where
  "write_kubeconfig env namespace =
     (case env ''KUBERNETES_SERVICE_HOST'' of
        Value host \<Rightarrow>
          (case env ''KUBERNETES_SERVICE_PORT'' of
             Value port \<Rightarrow>
               map_err (\<lambda>e. ''failed to write kubeconfig to '' @ KUBECONFIG_PATH @ '': '' @ e)
                 (fs_write (components KUBECONFIG_PATH) (render_kubeconfig host port namespace))
           | _ \<Rightarrow> err (''KUBERNETES_SERVICE_PORT is unset (see the KUBERNETES_SERVICE_HOST error for why this should ''
                   @ ''always be present inside a real Pod)''))
      | _ \<Rightarrow> err (''KUBERNETES_SERVICE_HOST is unset -- is this process actually running in a Kubernetes Pod? ''
              @ ''Kubernetes injects this into every Pod automatically; a plain `podman run` or a local dev shell ''
              @ ''will not have it.''))"

record kubernetes =
  ku_namespace :: string
  ku_shared_pvc :: string

definition new_kubernetes :: "(string \<Rightarrow> env_value) \<Rightarrow> ('g world, kubernetes) prog" where
  "new_kubernetes env =
     andthen (case env NAMESPACE_ENV of
                Value ns \<Rightarrow> ret ns
              | Unset \<Rightarrow> read_in_cluster_namespace
              | NotUnicode s \<Rightarrow> err (NAMESPACE_ENV @ '': '' @ not_unicode s)) (\<lambda>ns.
     andthen (case env SHARED_PVC_ENV of
                Value name \<Rightarrow> ret name
              | Unset \<Rightarrow> ret DEFAULT_SHARED_PVC
              | NotUnicode s \<Rightarrow> err (SHARED_PVC_ENV @ '': '' @ not_unicode s)) (\<lambda>shared_pvc.
     andthen (write_kubeconfig env ns) (\<lambda>_.
     ret \<lparr>ku_namespace = ns, ku_shared_pvc = shared_pvc\<rparr>)))"

section \<open>Running kubectl\<close>

text \<open>\<open>kubectl apply\<close> may also fail to take its manifest, or to be waited for.\<close>

datatype apply_outcome = ApplySpawnError string | ApplyWriteError string | ApplyWaitError string | ApplyExit bool string

record 'g kubectl =
  kc_run :: "string list \<Rightarrow> 'g world \<Rightarrow> git_outcome \<times> 'g world"
  kc_apply :: "string list \<Rightarrow> string \<Rightarrow> 'g world \<Rightarrow> apply_outcome \<times> 'g world"

definition apply_manifest :: "'g kubectl \<Rightarrow> string \<Rightarrow> ('g world, unit) prog" where
  "apply_manifest kc manifest w =
     (case kc_apply kc [''--kubeconfig'', KUBECONFIG_PATH, ''apply'', ''-f'', ''-''] manifest w of
        (out, w1) \<Rightarrow>
          (case out of
             ApplySpawnError e \<Rightarrow> Inl (''failed to spawn kubectl apply: '' @ e)
           | ApplyWriteError e \<Rightarrow> Inl (''failed to write manifest to kubectl apply'' @ [squote] @ ''s stdin: '' @ e)
           | ApplyWaitError e \<Rightarrow> Inl (''kubectl apply failed: '' @ e)
           | ApplyExit success stderr \<Rightarrow>
               if success then Inr () else Inl (''kubectl apply failed: '' @ trim (from_utf8_lossy stderr)),
           w1\<lparr>wd_log := wd_log w @ [[''kubectl'', ''apply'', manifest]]\<rparr>))"

definition k8s_start_pod :: "'g kubectl \<Rightarrow> kubernetes \<Rightarrow> string \<Rightarrow> string \<Rightarrow> string \<Rightarrow> ('g world, unit) prog" where
  "k8s_start_pod kc ku img repos_root tenant_slug =
     apply_manifest kc (tenant_manifest (ku_namespace ku) (ku_shared_pvc ku) img tenant_slug)"

definition delete_args :: "kubernetes \<Rightarrow> string \<Rightarrow> string list" where
  "delete_args ku tenant_slug =
     [''delete'', ''pod/'' @ serve_pod_name tenant_slug, ''pod/'' @ index_pod_name tenant_slug, ''service/'' @ tenant_slug,
      ''networkpolicy/'' @ index_deny_egress_name tenant_slug, ''-n'', ku_namespace ku, ''--ignore-not-found'']"

definition k8s_stop_pod :: "(string \<Rightarrow> bool) \<Rightarrow> 'g kubectl \<Rightarrow> kubernetes \<Rightarrow> string \<Rightarrow> ('g world, unit) prog" where
  "k8s_stop_pod np kc ku tenant_slug w =
     (let args = delete_args ku tenant_slug in
      case kc_run kc ([''--kubeconfig'', KUBECONFIG_PATH] @ args) w of
        (out, w1) \<Rightarrow>
          (case out of
             GitSpawnError e \<Rightarrow> Inl (''failed to run kubectl '' @ debug_args np args @ '': '' @ e)
           | GitExit success stdout stderr \<Rightarrow>
               if success then Inr () else Inl (''kubectl delete failed: '' @ trim (from_utf8_lossy stderr)),
           w1\<lparr>wd_log := wd_log w @ [''kubectl'' # args]\<rparr>))"

definition kubernetes_orchestrator :: "(string \<Rightarrow> bool) \<Rightarrow> 'g kubectl \<Rightarrow> kubernetes \<Rightarrow> 'g world orchestrator" where
  "kubernetes_orchestrator np kc ku = \<lparr>oc_start = k8s_start_pod kc ku, oc_stop = k8s_stop_pod np kc ku\<rparr>"

section \<open>The choice\<close>

definition select_orchestrator ::
  "(string \<Rightarrow> bool) \<Rightarrow> 'g git \<Rightarrow> 'g kubectl \<Rightarrow> (string \<Rightarrow> env_value) \<Rightarrow> ('g world, 'g world orchestrator) prog" where
  "select_orchestrator np podman kc env =
     (case env ''WKP_HUB_POD_ORCHESTRATOR'' of
        Unset \<Rightarrow> ret (podman_orchestrator np podman)
      | Value v \<Rightarrow>
          (if v = ''podman'' then ret (podman_orchestrator np podman)
           else if v = ''kubernetes'' then andthen (new_kubernetes env) (\<lambda>ku. ret (kubernetes_orchestrator np kc ku))
           else err (''unknown WKP_HUB_POD_ORCHESTRATOR '' @ debug_str np v @ '' (expected '' @ [dquote] @ ''podman'' @ [dquote]
                  @ '' or '' @ [dquote] @ ''kubernetes'' @ [dquote] @ '')''))
      | NotUnicode s \<Rightarrow> err (''WKP_HUB_POD_ORCHESTRATOR: '' @ not_unicode s))"

section \<open>The contract\<close>

definition kubectl_about :: "string \<Rightarrow> string list \<Rightarrow> bool" where
  "kubectl_about slug c \<longleftrightarrow>
     (\<exists>namespace shared_pvc img. c = [''kubectl'', ''apply'', tenant_manifest namespace shared_pvc img slug])
     \<or> (\<exists>ku. c = ''kubectl'' # delete_args ku slug)"

lemma kubectl_about_commands:
  "kubectl_about slug [''kubectl'', ''apply'', tenant_manifest namespace shared_pvc img slug]"
  "kubectl_about slug (''kubectl'' # delete_args ku slug)"
  unfolding kubectl_about_def by blast+

interpretation kubernetes: container_runtime "kubernetes_orchestrator np kc ku" kubectl_about for np kc ku
proof
  show "keeps (log_since before (kubectl_about slug)) (oc_start (kubernetes_orchestrator np kc ku) img repos_root slug)"
    for before slug img repos_root
    unfolding kubernetes_orchestrator_def orchestrator.simps k8s_start_pod_def keeps_def apply_manifest_def
    by (auto simp: kubectl_about_commands split: prod.splits elim!: commands.holds_log [rotated 2])
  show "keeps (log_since before (kubectl_about slug)) (oc_stop (kubernetes_orchestrator np kc ku) slug)" for before slug
    unfolding kubernetes_orchestrator_def orchestrator.simps k8s_stop_pod_def keeps_def Let_def
    by (auto simp: kubectl_about_commands split: prod.splits elim!: commands.holds_log [rotated 2])
qed

section \<open>What a manifest says\<close>

text \<open>A manifest read back: documents between \<open>---\<close> lines, and the value of a key at its indentation.\<close>

fun split_documents :: "string list \<Rightarrow> string list list" where
  "split_documents [] = [[]]"
| "split_documents (l # ls) =
     (if l = ''---'' then [] # split_documents ls
      else (case split_documents ls of [] \<Rightarrow> [[l]] | d # ds \<Rightarrow> (l # d) # ds))"

definition documents :: "string \<Rightarrow> string list list" where
  "documents manifest = split_documents (lines manifest)"

definition fields :: "string \<Rightarrow> string list \<Rightarrow> string list" where
  "fields key d = map (drop (length key)) (filter (\<lambda>l. starts_with l key) d)"

text \<open>A policy that leaves the pods with its label without any way out.\<close>

definition denies_egress :: "string list \<Rightarrow> string list \<Rightarrow> bool" where
  "denies_egress policy pod \<longleftrightarrow>
     fields ''kind: '' policy = [''NetworkPolicy''] \<and> ''  egress: []'' \<in> set policy
     \<and> ''  policyTypes: ['' @ [dquote] @ ''Egress'' @ [dquote] @ '']'' \<in> set policy
     \<and> fields ''    matchLabels: '' policy = map (\<lambda>app. ''{ app: '' @ app @ '' }'') (fields ''    app: '' pod)"

lemma split_documents_append: "''---'' \<notin> set a \<Longrightarrow> split_documents (a @ ''---'' # b) = a # split_documents b"
  by (induction a) auto

lemma split_documents_one: "''---'' \<notin> set a \<Longrightarrow> split_documents a = [a]"
  by (induction a) auto

lemmas manifest_lines = policy_lines_def serve_lines_def index_lines_def service_lines_def

definition plain_line :: "string \<Rightarrow> bool" where
  "plain_line s \<longleftrightarrow> nl \<notin> set s \<and> cr \<notin> set s"

lemma plain_line_simps [simp]:
  "plain_line []" "plain_line (a @ b) \<longleftrightarrow> plain_line a \<and> plain_line b" "plain_line (c # s) \<longleftrightarrow> c \<noteq> nl \<and> c \<noteq> cr \<and> plain_line s"
  by (auto simp: plain_line_def)

lemma tenant_manifest_documents:
  assumes "plain_line namespace" "plain_line shared_pvc" "plain_line img" "plain_line slug"
  shows "documents (tenant_manifest namespace shared_pvc img slug) =
    [policy_lines namespace slug, serve_lines namespace shared_pvc img slug, index_lines namespace shared_pvc img slug,
     service_lines namespace slug]"
proof -
  let ?ls = "policy_lines namespace slug @ [''---''] @ serve_lines namespace shared_pvc img slug @ [''---'']
       @ index_lines namespace shared_pvc img slug @ [''---''] @ service_lines namespace slug"
  have "plain_line (show_nat SERVE_PORT)" by (simp add: show_nat_def plain_line_def show_base_printable)
  then have "\<forall>l \<in> set ?ls. plain_line l"
    using assms by (simp add: manifest_lines index_deny_egress_name_def index_pod_name_def serve_pod_name_def)
  then have "lines (unlines ?ls) = ?ls" by (intro lines_unlines) (auto simp: plain_line_def)
  moreover have "''---'' \<notin> set (policy_lines namespace slug)" "''---'' \<notin> set (serve_lines namespace shared_pvc img slug)"
    "''---'' \<notin> set (index_lines namespace shared_pvc img slug)" "''---'' \<notin> set (service_lines namespace slug)"
    by (simp_all add: manifest_lines)
  ultimately show ?thesis
    unfolding documents_def tenant_manifest_def by (simp add: split_documents_append split_documents_one)
qed

lemma pod_names_distinct:
  "index_pod_name slug \<noteq> serve_pod_name other" "index_pod_name slug = index_pod_name other \<longleftrightarrow> slug = other"
  "serve_pod_name slug = serve_pod_name other \<longleftrightarrow> slug = other"
proof -
  have "rev (index_pod_name slug) \<noteq> rev (serve_pod_name other)" by (simp add: index_pod_name_def serve_pod_name_def)
  then show "index_pod_name slug \<noteq> serve_pod_name other" by metis
qed (simp_all add: index_pod_name_def serve_pod_name_def)

text \<open>
  On Kubernetes the indexer of a tenant, and nothing else, is cut off. For names without line breaks, the
  manifest of a tenant reads back as a policy, the serving pod, the indexing pod and a service, in that order:
  the policy denies all egress of the indexing pod, and of no other pod of any tenant; each pod mounts the shared
  volume below the tenant's own directory only; and the service selects the serving pod.
\<close>

lemma indexer_denied_egress:
  assumes "plain_line namespace" "plain_line shared_pvc" "plain_line img" "plain_line slug"
  shows "\<exists>policy serve indexer service. documents (tenant_manifest namespace shared_pvc img slug) = [policy, serve, indexer, service]
    \<and> map (fields ''kind: '') [policy, serve, indexer, service] = [[''NetworkPolicy''], [''Pod''], [''Pod''], [''Service'']]
    \<and> (\<forall>namespace' shared_pvc' img' other. denies_egress policy (index_lines namespace' shared_pvc' img' other) = (other = slug)
        \<and> \<not> denies_egress policy (serve_lines namespace' shared_pvc' img' other))
    \<and> indexer = index_lines namespace shared_pvc img slug \<and> serve = serve_lines namespace shared_pvc img slug
    \<and> fields ''          subPath: '' serve = [slug] \<and> fields ''          subPath: '' indexer = [slug]
    \<and> fields ''    app: '' service = fields ''    app: '' serve"
proof -
  have apps: "fields ''    app: '' (serve_lines namespace' shared_pvc' img' other) = [serve_pod_name other]"
    "fields ''    app: '' (index_lines namespace' shared_pvc' img' other) = [index_pod_name other]"
    "fields ''    app: '' (service_lines namespace' other) = [serve_pod_name other]" for namespace' shared_pvc' img' other
    by (simp_all add: manifest_lines fields_def starts_with_def)
  have policy: "fields ''kind: '' (policy_lines namespace slug) = [''NetworkPolicy'']"
    "fields ''    matchLabels: '' (policy_lines namespace slug) = [''{ app: '' @ index_pod_name slug @ '' }'']"
    "''  egress: []'' \<in> set (policy_lines namespace slug)"
    "''  policyTypes: ['' @ [dquote] @ ''Egress'' @ [dquote] @ '']'' \<in> set (policy_lines namespace slug)"
    by (simp_all add: manifest_lines fields_def starts_with_def)
  have kinds: "fields ''kind: '' (serve_lines namespace shared_pvc img slug) = [''Pod'']"
    "fields ''kind: '' (index_lines namespace shared_pvc img slug) = [''Pod'']" "fields ''kind: '' (service_lines namespace slug) = [''Service'']"
    and mounts: "fields ''          subPath: '' (serve_lines namespace shared_pvc img slug) = [slug]"
    "fields ''          subPath: '' (index_lines namespace shared_pvc img slug) = [slug]"
    by (simp_all add: manifest_lines fields_def starts_with_def)
  show ?thesis
    unfolding tenant_manifest_documents [OF assms]
    using policy kinds mounts by (auto simp: denies_egress_def apps pod_names_distinct)
qed

lemma indexer_denied_egress_witness:
  "\<exists>policy serve service. documents (tenant_manifest ''hub'' ''pvc'' ''img'' ''acme'')
     = [policy, serve, index_lines ''hub'' ''pvc'' ''img'' ''acme'', service]
     \<and> denies_egress policy (index_lines ''hub'' ''pvc'' ''img'' ''acme'')"
  using indexer_denied_egress [of "''hub''" "''pvc''" "''img''" "''acme''"] by (auto simp: plain_line_def)

end
