(* ===== verification/HubMain.thy ===== *)
theory HubMain
  imports K8sPod TenantRepo HubUsage
begin

text \<open>
  The program of the hub (crates/wkp-hub/src/main.rs): its subcommands as functions of the arguments and the
  state they act on, which is the control plane's database, the world of files and processes, and the index
  published for each tenant. An outcome is the exit code with what was written to standard output and error.
\<close>

section \<open>State, environment, outcomes\<close>

record ('f, 'g) hub_state =
  hs_db :: "'f hub_usage db"
  hs_world :: "'g world"
  hs_index :: "string \<Rightarrow> index_db option"

datatype outcome = Exit nat string string | Panic

text \<open>
  What the program gets from elsewhere: the environment variables, the schema statement, git, podman, kubectl,
  the X.509 library, the clock in seconds and as a date, the two server loops (their requests are the subject
  of \<open>HubHttp\<close>), the texts of SQLite's errors and of JSON and floating-point output.
\<close>

record ('f, 'g) hub_env =
  he_var :: "string \<Rightarrow> env_value"
  he_schema :: "('f hub_usage, unit) stmt"
  he_git :: "'g git"
  he_podman :: "'g git"
  he_kubectl :: "'g kubectl"
  he_np :: "string \<Rightarrow> bool"
  he_x509 :: x509
  he_ca_now :: int
  he_today :: string
  he_now_secs :: int
  he_elapsed_ms :: 'f
  he_of_count :: "nat \<Rightarrow> 'f"
  he_float :: "'f float_ops"
  he_average :: "'f \<Rightarrow> int \<Rightarrow> 'f"
  he_show_float :: "nat \<Rightarrow> 'f \<Rightarrow> string"
  he_to_json :: "(string \<times> string \<times> 'f metric_summary) list \<Rightarrow> string"
  he_sqlite :: string
  he_serve :: "nat \<Rightarrow> hub_ca \<Rightarrow> string \<Rightarrow> string \<Rightarrow> ('f, 'g) hub_state \<Rightarrow> (string, unit) result \<times> ('f, 'g) hub_state"
  he_serve_tenant :: "nat \<Rightarrow> string \<Rightarrow> string \<Rightarrow> ('f, 'g) hub_state \<Rightarrow> (string, unit) result \<times> ('f, 'g) hub_state"

type_synonym ('f, 'g) command = "('f, 'g) hub_state \<Rightarrow> outcome \<times> ('f, 'g) hub_state"

definition var_or :: "('f, 'g) hub_env \<Rightarrow> string \<Rightarrow> string \<Rightarrow> string" where
  "var_or he name dflt = (case he_var he name of Value v \<Rightarrow> v | _ \<Rightarrow> dflt)"

definition repos_root :: "('f, 'g) hub_env \<Rightarrow> string" where
  "repos_root he = var_or he ''WKP_HUB_REPOS_ROOT'' ''/srv/wkp-hub/repos''"

definition tenant_image :: "('f, 'g) hub_env \<Rightarrow> string" where
  "tenant_image he = var_or he ''WKP_HUB_TENANT_IMAGE'' ''localhost/wkp-hub''"

definition ca_dir :: "('f, 'g) hub_env \<Rightarrow> string" where
  "ca_dir he = var_or he ''WKP_HUB_CA_DIR'' ''/srv/wkp-hub/ca''"

definition say :: "string \<Rightarrow> ('f, 'g) command" where
  "say line s = (Exit 0 (''wkp-hub: '' @ line @ [nl]) [], s)"

definition complain :: "string \<Rightarrow> ('f, 'g) command" where
  "complain line s = (Exit 1 [] (''wkp-hub: '' @ line @ [nl]), s)"

definition on_db :: "('f hub_usage, 'a) cp \<Rightarrow> ((cp_error, 'a) result \<Rightarrow> ('f, 'g) command) \<Rightarrow> ('f, 'g) command" where
  "on_db m k s = (case m (hs_db s) of (r, d) \<Rightarrow> k r (s\<lparr>hs_db := d\<rparr>))"

definition on_world :: "('g world, 'a) prog \<Rightarrow> ((string, 'a) result \<Rightarrow> ('f, 'g) command) \<Rightarrow> ('f, 'g) command" where
  "on_world m k s = (case m (hs_world s) of (r, w) \<Rightarrow> k r (s\<lparr>hs_world := w\<rparr>))"

text \<open>The result of a database call, reported in one line.\<close>

definition report :: "string \<Rightarrow> (cp_error, 'a) result \<Rightarrow> ('a \<Rightarrow> string) \<Rightarrow> ('f, 'g) command" where
  "report label r done_line =
     (case r of Inr a \<Rightarrow> say (done_line a) | Inl e \<Rightarrow> complain (label @ '' failed: '' @ cp_error_str e))"

section \<open>Arguments\<close>

definition parse_u16 :: "string \<Rightarrow> nat option" where
  "parse_u16 s = map_option nat (parse_unsigned (2 ^ 16) s)"

definition parse_u64 :: "string \<Rightarrow> int option" where
  "parse_u64 s = parse_unsigned (2 ^ 64) s"

text \<open>\<open>parse\<close> of a signed number: a minus sign may come before the digits.\<close>

definition parse_signed :: "int \<Rightarrow> string \<Rightarrow> int option" where
  "parse_signed bound s =
     (case s of
        c # cs \<Rightarrow>
          if c = CHR ''-'' then
            (if cs = [] \<or> \<not> list_all is_ascii_digit cs \<or> bound < digits_val cs then None else Some (- digits_val cs))
          else parse_unsigned bound s
      | [] \<Rightarrow> None)"

definition parse_i64 :: "string \<Rightarrow> int option" where
  "parse_i64 = parse_signed (2 ^ 63)"

definition parse_i32 :: "string \<Rightarrow> int option" where
  "parse_i32 = parse_signed (2 ^ 31)"

definition parse_bool :: "string \<Rightarrow> bool option" where
  "parse_bool s = (if s = ''true'' then Some True else if s = ''false'' then Some False else None)"

text \<open>An optional flag with a value, in the first place only; anything else leaves the default.\<close>

definition flag_or :: "string \<Rightarrow> (string \<Rightarrow> 'a option) \<Rightarrow> 'a \<Rightarrow> string list \<Rightarrow> 'a" where
  "flag_or flag parse_value dflt args =
     (case args of a # v # _ \<Rightarrow> if a = flag then (case parse_value v of None \<Rightarrow> dflt | Some x \<Rightarrow> x) else dflt | _ \<Rightarrow> dflt)"

fun serve_tenant_args :: "string list \<Rightarrow> string option \<times> nat \<Rightarrow> string option \<times> nat" where
  "serve_tenant_args [] acc = acc"
| "serve_tenant_args [a] (tenant, port) = (if a = ''--tenant'' then None else tenant, port)"
| "serve_tenant_args (a # v # rest) (tenant, port) =
     (if a = ''--tenant'' then serve_tenant_args rest (Some v, port)
      else if a = ''--port'' then serve_tenant_args rest (tenant, case parse_u16 v of None \<Rightarrow> port | Some p \<Rightarrow> p)
      else serve_tenant_args (v # rest) (tenant, port))"

record worker_options =
  wo_tenant :: "string option"
  wo_poll_ms :: int
  wo_once :: bool

fun index_worker_args :: "string list \<Rightarrow> worker_options \<Rightarrow> worker_options" where
  "index_worker_args [] opts = opts"
| "index_worker_args (a # rest) opts =
     (if a = ''--tenant'' then (case rest of [] \<Rightarrow> opts\<lparr>wo_tenant := None\<rparr> | v # rest' \<Rightarrow> index_worker_args rest' (opts\<lparr>wo_tenant := Some v\<rparr>))
      else if a = ''--poll-interval-ms'' then
        (case rest of [] \<Rightarrow> opts
         | v # rest' \<Rightarrow> index_worker_args rest' (case parse_u64 v of None \<Rightarrow> opts | Some n \<Rightarrow> opts\<lparr>wo_poll_ms := n\<rparr>))
      else if a = ''--once'' then index_worker_args rest (opts\<lparr>wo_once := True\<rparr>)
      else index_worker_args rest opts)"

section \<open>Commands on the control plane\<close>

definition for_tenant :: "('f, 'g) hub_env \<Rightarrow> string \<Rightarrow> (tenant \<Rightarrow> ('f hub_usage, 'a) cp) \<Rightarrow> ('f hub_usage, 'a) cp" where
  "for_tenant he slug f =
     cp_bind (connect (he_schema he)) (\<lambda>_.
     cp_bind (find_tenant_by_slug slug) (\<lambda>found.
       case found of None \<Rightarrow> cp_err (NotFound (''tenant '' @ slug)) | Some t \<Rightarrow> f t))"

definition migrate_cmd :: "('f, 'g) hub_env \<Rightarrow> ('f, 'g) command" where
  "migrate_cmd he = on_db (connect (he_schema he)) (\<lambda>r. report ''migrate'' r (\<lambda>_. ''schema is up to date''))"

definition tenant_create_cmd :: "('f, 'g) hub_env \<Rightarrow> string list \<Rightarrow> ('f, 'g) command" where
  "tenant_create_cmd he args =
     (case args of
        [] \<Rightarrow> complain ''tenant create requires a slug''
      | slug # _ \<Rightarrow>
          on_db (cp_bind (connect (he_schema he)) (\<lambda>_. create_tenant slug)) (\<lambda>r.
            case r of
              Inl e \<Rightarrow> complain (''tenant create failed: '' @ cp_error_str e)
            | Inr t \<Rightarrow>
                on_world (provision_tenant_repo (he_git he) (repos_root he) (tn_slug t)) (\<lambda>r.
                  case r of
                    Inr repo_path \<Rightarrow> say (''created tenant '' @ tn_slug t @ '' (id '' @ show_int (tn_id t) @ ''), repo at '' @ repo_path)
                  | Inl e \<Rightarrow> complain (''tenant create: control-plane row created, but repo provisioning failed: '' @ e))))"

definition set_always_warm_cmd :: "('f, 'g) hub_env \<Rightarrow> string list \<Rightarrow> ('f, 'g) command" where
  "set_always_warm_cmd he args =
     (case args of
        slug # v # _ \<Rightarrow>
          (case parse_bool v of
             None \<Rightarrow> complain (''set-always-warm: value must be '' @ [squote] @ ''true'' @ [squote] @ '' or '' @ [squote] @ ''false''
                       @ [squote] @ '', got '' @ v)
           | Some warm \<Rightarrow>
               on_db (for_tenant he slug (\<lambda>t. set_always_warm (tn_id t) warm)) (\<lambda>r. report ''set-always-warm'' r
                 (\<lambda>_. ''tenant '' @ slug @ '' always_warm = '' @ (if warm then ''true'' else ''false''))))
      | _ \<Rightarrow> complain ''usage: wkp-hub tenant set-always-warm <slug> <true|false>'')"

text \<open>The three commands that change the pod's row of one tenant by hand.\<close>

definition tenant_row_cmd ::
  "('f, 'g) hub_env \<Rightarrow> string \<Rightarrow> (int \<Rightarrow> ('f hub_usage, unit) cp) \<Rightarrow> string \<Rightarrow> string list \<Rightarrow> ('f, 'g) command" where
  "tenant_row_cmd he name f done_text args =
     (case args of
        [] \<Rightarrow> complain (''usage: wkp-hub tenant '' @ name @ '' <slug>'')
      | slug # _ \<Rightarrow> on_db (for_tenant he slug (\<lambda>t. f (tn_id t))) (\<lambda>r. report name r (\<lambda>_. ''tenant '' @ slug @ done_text)))"

definition pod_started_cmd :: "('f, 'g) hub_env \<Rightarrow> string list \<Rightarrow> ('f, 'g) command" where
  "pod_started_cmd he = tenant_row_cmd he ''pod-started'' record_pod_started '' pod marked started''"

definition pod_stopped_cmd :: "('f, 'g) hub_env \<Rightarrow> string list \<Rightarrow> ('f, 'g) command" where
  "pod_stopped_cmd he = tenant_row_cmd he ''pod-stopped'' record_pod_stopped '' pod marked stopped''"

definition touch_active_cmd :: "('f, 'g) hub_env \<Rightarrow> string list \<Rightarrow> ('f, 'g) command" where
  "touch_active_cmd he = tenant_row_cmd he ''touch-active'' touch_last_active '' marked active''"

text \<open>
  A duration of minutes, in microseconds as the database counts; the program aborts on a number of minutes
  whose seconds do not fit in 64 bits. (A cutoff before the first date of the calendar would abort it too and is
  not modelled.)
\<close>

definition minutes :: "int \<Rightarrow> int option" where
  "minutes m = (if - (2 ^ 63) \<le> 60 * m \<and> 60 * m < 2 ^ 63 then Some (60 * m * 1000000) else None)"

definition idle_minutes_arg :: "string list \<Rightarrow> int" where
  "idle_minutes_arg = flag_or ''--idle-minutes'' parse_i64 30"

definition list_idle_cmd :: "('f, 'g) hub_env \<Rightarrow> string list \<Rightarrow> ('f, 'g) command" where
  "list_idle_cmd he args =
     (let m = idle_minutes_arg args in
      on_db (connect (he_schema he)) (\<lambda>r.
        case r of
          Inl e \<Rightarrow> report ''list-idle'' (Inl e :: (cp_error, unit) result) (\<lambda>_. [])
        | Inr _ \<Rightarrow>
            (case minutes m of
               None \<Rightarrow> (\<lambda>s. (Panic, s))
             | Some idle_for \<Rightarrow>
                 on_db (find_idle_running_tenants idle_for) (\<lambda>r s.
                   case r of
                     Inl e \<Rightarrow> report ''list-idle'' (Inl e :: (cp_error, unit) result) (\<lambda>_. []) s
                   | Inr tenants \<Rightarrow>
                       (Exit 0 ((if tenants = [] then ''wkp-hub: no tenants idle for '' @ show_int m @ ''+ minutes'' @ [nl] else [])
                          @ concat (map (\<lambda>t. ''wkp-hub: '' @ tn_slug t @ '' (id '' @ show_int (tn_id t) @ '') idle'' @ [nl]) tenants)) [], s)))))"

definition tenant_cmd :: "('f, 'g) hub_env \<Rightarrow> string list \<Rightarrow> ('f, 'g) command" where
  "tenant_cmd he args =
     (let verb = (case args of [] \<Rightarrow> [] | v # _ \<Rightarrow> v); rest = tl args in
      if verb = ''create'' then tenant_create_cmd he rest
      else if verb = ''set-always-warm'' then set_always_warm_cmd he rest
      else if verb = ''pod-started'' then pod_started_cmd he rest
      else if verb = ''pod-stopped'' then pod_stopped_cmd he rest
      else if verb = ''touch-active'' then touch_active_cmd he rest
      else if verb = ''list-idle'' then list_idle_cmd he rest
      else complain (''usage: wkp-hub tenant create <slug> | set-always-warm <slug> <true|false> | ''
             @ ''pod-started <slug> | pod-stopped <slug> | touch-active <slug> | list-idle [--idle-minutes <n>]''))"

definition device_register_cmd :: "('f, 'g) hub_env \<Rightarrow> string list \<Rightarrow> ('f, 'g) command" where
  "device_register_cmd he args =
     (case args of
        slug # public_key # _ \<Rightarrow>
          on_db (for_tenant he slug (\<lambda>t. register_device (tn_id t) public_key)) (\<lambda>r. report ''device register'' r
            (\<lambda>dv. ''registered device '' @ show_int (dv_id dv) @ '' for tenant '' @ slug))
      | _ \<Rightarrow> complain ''usage: wkp-hub device register <tenant-slug> <public-key>'')"

definition device_revoke_cmd :: "('f, 'g) hub_env \<Rightarrow> string list \<Rightarrow> ('f, 'g) command" where
  "device_revoke_cmd he args =
     (case args of
        [] \<Rightarrow> complain ''usage: wkp-hub device revoke <public-key>''
      | public_key # _ \<Rightarrow>
          on_db (cp_bind (connect (he_schema he)) (\<lambda>_.
                 cp_bind (find_device_by_public_key public_key) (\<lambda>found.
                   case found of
                     None \<Rightarrow> cp_err (NotFound (''device '' @ public_key))
                   | Some dv \<Rightarrow> cp_bind (revoke_device (dv_id dv)) (\<lambda>_. cp_ret dv))))
            (\<lambda>r. report ''device revoke'' r (\<lambda>dv. ''revoked device '' @ show_int (dv_id dv))))"

definition device_revoke_id_cmd :: "('f, 'g) hub_env \<Rightarrow> string list \<Rightarrow> ('f, 'g) command" where
  "device_revoke_id_cmd he args =
     (case args of
        [] \<Rightarrow> complain ''usage: wkp-hub device revoke-id <device-id>''
      | text # _ \<Rightarrow>
          (case parse_i64 text of
             None \<Rightarrow> complain ''device revoke-id: <device-id> must be an integer''
           | Some i \<Rightarrow>
               on_db (cp_bind (connect (he_schema he)) (\<lambda>_. revoke_device i))
                 (\<lambda>r. report ''device revoke-id'' r (\<lambda>_. ''revoked device '' @ show_int i))))"

definition device_cmd :: "('f, 'g) hub_env \<Rightarrow> string list \<Rightarrow> ('f, 'g) command" where
  "device_cmd he args =
     (let verb = (case args of [] \<Rightarrow> [] | v # _ \<Rightarrow> v); rest = tl args in
      if verb = ''register'' then device_register_cmd he rest
      else if verb = ''revoke'' then device_revoke_cmd he rest
      else if verb = ''revoke-id'' then device_revoke_id_cmd he rest
      else complain ''usage: wkp-hub device register|revoke|revoke-id ...'')"

text \<open>The argument that is not known, or who performs the reset.\<close>

fun reset_args :: "string list \<Rightarrow> string option \<Rightarrow> string + string option" where
  "reset_args [] by = Inr by"
| "reset_args (a # rest) by =
     (if a = ''--by'' then (case rest of [] \<Rightarrow> Inr None | v # rest' \<Rightarrow> reset_args rest' (Some v)) else Inl a)"

definition reset_all_cmd :: "('f, 'g) hub_env \<Rightarrow> string list \<Rightarrow> ('f, 'g) command" where
  "reset_all_cmd he args =
     (case reset_args args None of
        Inl other \<Rightarrow> complain (''reset-all-connections: unrecognized argument '' @ other)
      | Inr None \<Rightarrow> complain ''usage: wkp-hub reset-all-connections --by <label>''
      | Inr (Some by) \<Rightarrow>
          on_db (cp_bind (connect (he_schema he)) (\<lambda>_. reset_all_connections by))
            (\<lambda>r. report ''reset-all-connections'' r
              (\<lambda>_. ''reset-all-connections requested, performed by '' @ debug_str (he_np he) by)))"

section \<open>Commands on pods\<close>

definition orchestrator_of :: "('f, 'g) hub_env \<Rightarrow> ('g world, 'g world orchestrator) prog" where
  "orchestrator_of he = select_orchestrator (he_np he) (he_podman he) (he_kubectl he) (he_var he)"

text \<open>What follows a pod that was started or stopped: its row, found by the slug.\<close>

definition record_by_slug ::
  "('f, 'g) hub_env \<Rightarrow> string \<Rightarrow> (int \<Rightarrow> ('f hub_usage, unit) cp) \<Rightarrow> string \<Rightarrow> string \<Rightarrow> ('f, 'g) command" where
  "record_by_slug he slug f label done_text =
     (let failed = (\<lambda>e. complain (label @ '' failed: '' @ e)) in
      on_db (connect (he_schema he)) (\<lambda>r. case r of
        Inl e \<Rightarrow> failed (cp_error_str e)
      | Inr _ \<Rightarrow> on_db (find_tenant_by_slug slug) (\<lambda>r. case r of
          Inl e \<Rightarrow> failed (cp_error_str e)
        | Inr None \<Rightarrow> failed (''tenant '' @ slug @ '' not found'')
        | Inr (Some t) \<Rightarrow> on_db (f (tn_id t)) (\<lambda>r. case r of
            Inl e \<Rightarrow> failed (cp_error_str e)
          | Inr _ \<Rightarrow> say (''pod '' @ done_text @ '' for tenant '' @ slug)))))"

definition start_pod_cmd :: "('f, 'g) hub_env \<Rightarrow> string list \<Rightarrow> ('f, 'g) command" where
  "start_pod_cmd he args =
     (case args of
        [] \<Rightarrow> complain ''usage: wkp-hub start-pod <tenant-slug>''
      | slug # _ \<Rightarrow>
          on_world (andthen (orchestrator_of he) (\<lambda>oc. oc_start oc (tenant_image he) (repos_root he) slug)) (\<lambda>r.
            case r of
              Inl e \<Rightarrow> complain (''start-pod failed: '' @ e)
            | Inr _ \<Rightarrow> record_by_slug he slug record_pod_started ''start-pod'' ''started''))"

definition stop_pod_cmd :: "('f, 'g) hub_env \<Rightarrow> string list \<Rightarrow> ('f, 'g) command" where
  "stop_pod_cmd he args =
     (case args of
        [] \<Rightarrow> complain ''usage: wkp-hub stop-pod <tenant-slug>''
      | slug # _ \<Rightarrow>
          on_world (andthen (orchestrator_of he) (\<lambda>oc. oc_stop oc slug)) (\<lambda>r.
            case r of
              Inl e \<Rightarrow> complain (''stop-pod failed: '' @ e)
            | Inr _ \<Rightarrow> record_by_slug he slug record_pod_stopped ''stop-pod'' ''stopped''))"

definition reap_cmd :: "('f, 'g) hub_env \<Rightarrow> string list \<Rightarrow> ('f, 'g) command" where
  "reap_cmd he args =
     (let m = idle_minutes_arg args; failed = (\<lambda>e. complain (''reap-idle-pods failed: '' @ e)) in
      on_world (orchestrator_of he) (\<lambda>r.
        case r of
          Inl e \<Rightarrow> failed e
        | Inr oc \<Rightarrow> on_db (connect (he_schema he)) (\<lambda>r.
            case r of
              Inl e \<Rightarrow> failed (cp_error_str e)
            | Inr _ \<Rightarrow>
                (case minutes m of
                   None \<Rightarrow> (\<lambda>s. (Panic, s))
                 | Some idle_for \<Rightarrow> (\<lambda>s.
                     case reap_idle idle_for oc (hs_db s, hs_world s) of
                       (r, d, w) \<Rightarrow>
                         (let s' = s\<lparr>hs_db := d, hs_world := w\<rparr> in
                          case r of
                            Inl e \<Rightarrow> failed e s'
                          | Inr reaped \<Rightarrow>
                              (Exit 0 ((if reaped = [] then ''wkp-hub: no pods idle for '' @ show_int m @ ''+ minutes'' @ [nl] else [])
                                 @ concat (map (\<lambda>slug. ''wkp-hub: reaped pod for tenant '' @ slug @ [nl]) reaped)) [], s')))))))"

section \<open>Indexing\<close>

definition index_error_text :: "('f, 'g) hub_env \<Rightarrow> string + index_error \<Rightarrow> string" where
  "index_error_text he e = (case e of Inl m \<Rightarrow> m | Inr _ \<Rightarrow> he_sqlite he)"

text \<open>One indexing run of a tenant on the state; a panic of the tier gate ends the program.\<close>

definition run_index_tenant ::
  "('f, 'g) hub_env \<Rightarrow> string \<Rightarrow> ('f, 'g) hub_state \<Rightarrow> (string + index_error, index_summary) result \<times> ('f, 'g) hub_state" where
  "run_index_tenant he slug s =
     (case index_tenant (he_git he) (he_today he) (repos_root he) slug (hs_world s, hs_index s slug) of
        (r, w, published) \<Rightarrow> (r, s\<lparr>hs_world := w, hs_index := (hs_index s)(slug := published)\<rparr>))"

text \<open>Recording how long it took is best effort: what fails is only reported on standard error.\<close>

definition record_index_tenant_usage ::
  "('f, 'g) hub_env \<Rightarrow> string \<Rightarrow> nat \<Rightarrow> ('f, 'g) hub_state \<Rightarrow> string option \<times> ('f, 'g) hub_state" where
  "record_index_tenant_usage he slug indexed_items s =
     (case connect (he_schema he) (hs_db s) of
        (Inl e, d) \<Rightarrow> (Some (''wkp-hub: usage: skipping (control plane unreachable): '' @ cp_error_str e @ [nl]), s\<lparr>hs_db := d\<rparr>)
      | (Inr _, d) \<Rightarrow>
          (case find_tenant_by_slug slug d of
             (Inl e, d1) \<Rightarrow> (Some (''wkp-hub: usage: skipping (tenant lookup failed): '' @ cp_error_str e @ [nl]), s\<lparr>hs_db := d1\<rparr>)
           | (Inr None, d1) \<Rightarrow>
               (Some (''wkp-hub: usage: skipping (no tenant row for slug '' @ debug_str (he_np he) slug @ '')'' @ [nl]), s\<lparr>hs_db := d1\<rparr>)
           | (Inr (Some t), d1) \<Rightarrow>
               (case hub_record_counter (he_float he) (tn_id t) ''index_tenant'' (he_elapsed_ms he) (he_now_secs he) d1 of
                  (Inr None, d2) \<Rightarrow> (None, s\<lparr>hs_db := d2\<rparr>)
                | (r1, d2) \<Rightarrow>
                    (case hub_record_gauge (he_float he) (tn_id t) ''indexed_items'' (he_of_count he indexed_items) (he_now_secs he) d2 of
                       (Inr None, d3) \<Rightarrow> (None, s\<lparr>hs_db := d3\<rparr>)
                     | (r2, d3) \<Rightarrow>
                         (Some ((case r1 of Inl e \<Rightarrow> ''wkp-hub: usage: recording index_tenant failed (non-fatal): '' @ cp_error_str e @ [nl] | Inr _ \<Rightarrow> [])
                            @ (case r2 of Inl e \<Rightarrow> ''wkp-hub: usage: recording indexed_items failed (non-fatal): '' @ cp_error_str e @ [nl] | Inr _ \<Rightarrow> [])),
                          s\<lparr>hs_db := d3\<rparr>)))))"

definition index_tenant_cmd :: "('f, 'g) hub_env \<Rightarrow> string list \<Rightarrow> ('f, 'g) command" where
  "index_tenant_cmd he args s =
     (case args of
        [] \<Rightarrow> complain ''usage: wkp-hub index-tenant <tenant-slug>'' s
      | slug # _ \<Rightarrow>
          (case run_index_tenant he slug s of
             (Inl e, s1) \<Rightarrow>
               (if e = Inr Panicked then (Panic, s1) else complain (''index-tenant failed: '' @ index_error_text he e) s1)
           | (Inr summary, s1) \<Rightarrow>
               (case record_index_tenant_usage he slug (length (ix_indexed summary)) s1 of
                  (None, s2) \<Rightarrow> (Panic, s2)
                | (Some warnings, s2) \<Rightarrow>
                    (Exit 0 (''wkp-hub: indexed '' @ show_nat (length (ix_indexed summary)) @ '' item(s) for tenant '' @ slug
                       @ '', skipped '' @ show_nat (length (ix_skipped_private summary)) @ '' private item(s)'' @ [nl]) warnings, s2))))"

text \<open>
  One tick of the index worker: the head is read, and when it is not the one indexed last, the tenant is indexed.
  The worker remembers the head it read before indexing. A tick writes to standard output and error; on the left is
  the state after a panic.
\<close>

definition worker_tick ::
  "('f, 'g) hub_env \<Rightarrow> string \<Rightarrow> string option \<times> ('f, 'g) hub_state
    \<Rightarrow> ('f, 'g) hub_state + ((string \<times> string) \<times> string option \<times> ('f, 'g) hub_state)" where
  "worker_tick he slug ls =
     (case ls of (last_head, s) \<Rightarrow>
       (case current_head (he_git he) (repos_root he) slug (hs_world s) of
          (r, w) \<Rightarrow>
            (let s1 = s\<lparr>hs_world := w\<rparr>; head = (case r of Inl _ \<Rightarrow> None | Inr h \<Rightarrow> h) in
             if head \<noteq> None \<and> head \<noteq> last_head then
               (case run_index_tenant he slug s1 of
                  (Inl e, s2) \<Rightarrow>
                    if e = Inr Panicked then Inl s2
                    else Inr (([], ''wkp-hub: index-worker: index_tenant failed: '' @ index_error_text he e @ [nl]), last_head, s2)
                | (Inr summary, s2) \<Rightarrow>
                    Inr ((''wkp-hub: index-worker: indexed '' @ show_nat (length (ix_indexed summary)) @ '' item(s) for tenant ''
                       @ slug @ '' at '' @ the head @ '', skipped '' @ show_nat (length (ix_skipped_private summary))
                       @ '' private item(s)'' @ [nl], []), head, s2))
             else Inr (([], []), last_head, s1))))"

text \<open>The loop: between two ticks the world moves as it will, which is the list of changes.\<close>

fun worker_loop ::
  "('f, 'g) hub_env \<Rightarrow> string \<Rightarrow> ('g world \<Rightarrow> 'g world) list \<Rightarrow> string option \<times> ('f, 'g) hub_state
    \<Rightarrow> ('f, 'g) hub_state + (string option \<times> ('f, 'g) hub_state)" where
  "worker_loop he slug [] ls = map_sum id snd (worker_tick he slug ls)"
| "worker_loop he slug (change # changes) ls =
     (case worker_tick he slug ls of
        Inl s \<Rightarrow> Inl s
      | Inr (_, last_head, s) \<Rightarrow> worker_loop he slug changes (last_head, s\<lparr>hs_world := change (hs_world s)\<rparr>))"

text \<open>
  The command. Without \<open>--once\<close> it never ends, which is \<open>None\<close> here; the loop above is what it does.
\<close>

definition index_worker_cmd ::
  "('f, 'g) hub_env \<Rightarrow> string list \<Rightarrow> ('f, 'g) hub_state \<Rightarrow> (outcome \<times> ('f, 'g) hub_state) option" where
  "index_worker_cmd he args s =
     (let opts = index_worker_args args \<lparr>wo_tenant = None, wo_poll_ms = 500, wo_once = False\<rparr> in
      case wo_tenant opts of
        None \<Rightarrow> Some (complain ''usage: wkp-hub index-worker --tenant <slug> [--poll-interval-ms <ms>] [--once]'' s)
      | Some slug \<Rightarrow>
          (if wo_once opts then
             (case worker_tick he slug (None, s) of
                Inl s' \<Rightarrow> Some (Panic, s')
              | Inr ((out, warnings), _, s') \<Rightarrow> Some (Exit 0 out warnings, s'))
           else None))"

definition provision_cmd :: "('f, 'g) hub_env \<Rightarrow> string list \<Rightarrow> ('f, 'g) command" where
  "provision_cmd he args =
     (case args of
        [] \<Rightarrow> complain ''usage: wkp-hub provision-repo <tenant-slug>''
      | slug # _ \<Rightarrow>
          on_world (provision_tenant_repo (he_git he) (repos_root he) slug) (\<lambda>r.
            case r of
              Inr repo_path \<Rightarrow> say (''provisioned repo for tenant '' @ slug @ '' at '' @ repo_path)
            | Inl e \<Rightarrow> complain (''provision-repo failed: '' @ e)))"

section \<open>Usage\<close>

definition usage_line :: "('f, 'g) hub_env \<Rightarrow> string \<times> metric_kind \<times> 'f metric_summary \<Rightarrow> string" where
  "usage_line he row =
     (case row of (name, kind, m) \<Rightarrow>
       (case kind of
          Counter \<Rightarrow>
            pad_right 20 name @ '' '' @ pad_left 6 (show_int (ms_n m)) @ '' calls  avg ''
            @ he_show_float he 7 (if ms_n m > 0 then he_average he (ms_sum m) (ms_n m) else fl_zero (he_float he))
            @ ''ms  min '' @ he_show_float he 7 (ms_min m) @ ''ms  max '' @ he_show_float he 7 (ms_max m) @ ''ms''
        | Gauge \<Rightarrow>
            pad_right 20 name @ '' '' @ pad_left 6 (show_int (ms_n m)) @ '' samples  last='' @ he_show_float he 0 (ms_last m)
            @ ''  min='' @ he_show_float he 0 (ms_min m) @ ''  max='' @ he_show_float he 0 (ms_max m)))"

fun usage_rows ::
  "('f, 'g) hub_env \<Rightarrow> int \<Rightarrow> int \<Rightarrow> (string \<times> metric_kind) list \<Rightarrow> ('f, (string \<times> metric_kind \<times> 'f metric_summary) list) ucp" where
  "usage_rows he tenant_id window [] = cp_ret []"
| "usage_rows he tenant_id window ((name, kind) # all) =
     cp_bind (hub_query_window (he_float he) tenant_id name window (he_now_secs he)) (\<lambda>summary.
     cp_bind (usage_rows he tenant_id window all) (\<lambda>rows.
     cp_ret (if ms_n summary = 0 then rows else (name, kind, summary) # rows)))"

text \<open>The error text, or the output; \<open>None\<close> is the panic on a kind that is not known.\<close>

definition run_usage ::
  "('f, 'g) hub_env \<Rightarrow> string \<Rightarrow> int \<Rightarrow> bool \<Rightarrow> 'f hub_usage db \<Rightarrow> (string, string option) result \<times> 'f hub_usage db" where
  "run_usage he slug window json d =
     (case connect (he_schema he) d of
        (Inl e, d) \<Rightarrow> (Inl (cp_error_str e), d)
      | (Inr _, d) \<Rightarrow> (case find_tenant_by_slug slug d of
          (Inl e, d) \<Rightarrow> (Inl (cp_error_str e), d)
        | (Inr None, d) \<Rightarrow> (Inl (''no tenant row for slug '' @ debug_str (he_np he) slug), d)
        | (Inr (Some t), d) \<Rightarrow> (case hub_list_metrics d of
            (Inl e, d) \<Rightarrow> (Inl (cp_error_str e), d)
          | (Inr None, d) \<Rightarrow> (Inr None, d)
          | (Inr (Some all), d) \<Rightarrow> (case usage_rows he (tn_id t) window all d of
              (Inl e, d) \<Rightarrow> (Inl (cp_error_str e), d)
            | (Inr rows, d) \<Rightarrow>
                (Inr (Some (if json then he_to_json he (map (\<lambda>(name, kind, m). (name, kind_str kind, m)) rows)
                   else if rows = [] then ''wkp-hub: no usage data for tenant '' @ slug @ '' in this window''
                   else join [nl] (map (usage_line he) rows))), d)))))"

definition set_tier_config_cmd :: "('f, 'g) hub_env \<Rightarrow> string list \<Rightarrow> ('f, 'g) command" where
  "set_tier_config_cmd he args =
     (case args of
        [tier_idx, step_secs, slots] \<Rightarrow>
          (case (parse_i32 tier_idx, parse_i64 step_secs, parse_i64 slots) of
             (Some t, Some st, Some sl) \<Rightarrow>
               on_db (cp_bind (connect (he_schema he)) (\<lambda>_. set_tier_config t st sl)) (\<lambda>r. report ''usage set-tier-config'' r
                 (\<lambda>_. ''tier '' @ show_int t @ '' set to step='' @ show_int st @ ''s, slots='' @ show_int sl
                   @ '' (existing ring data for this tier reset across every tenant)''))
           | _ \<Rightarrow> complain ''usage set-tier-config: tier-idx/step-secs/slots must all be integers'')
      | _ # _ # _ # extra # _ \<Rightarrow> complain (''usage set-tier-config: unrecognized extra argument '' @ debug_str (he_np he) extra)
      | _ \<Rightarrow> complain ''usage: wkp-hub usage set-tier-config <tier-idx> <step-secs> <slots>'')"

record usage_options =
  uo_tenant :: "string option"
  uo_window :: int
  uo_json :: bool

definition window_of :: "string \<Rightarrow> int option" where
  "window_of v =
     (if v = ''1h'' then Some 3600 else if v = ''1d'' then Some (24 * 3600) else if v = ''7d'' then Some (7 * 24 * 3600)
      else if v = ''30d'' then Some (30 * 24 * 3600) else None)"

text \<open>\<open>{:?}\<close> of an optional argument.\<close>

fun usage_args :: "(string \<Rightarrow> bool) \<Rightarrow> string list \<Rightarrow> usage_options \<Rightarrow> (string, usage_options) result" where
  "usage_args np [] opts = Inr opts"
| "usage_args np (a # rest) opts =
     (if a = ''--tenant'' then
        (case rest of [] \<Rightarrow> Inr (opts\<lparr>uo_tenant := None\<rparr>) | v # rest' \<Rightarrow> usage_args np rest' (opts\<lparr>uo_tenant := Some v\<rparr>))
      else if a = ''--window'' then
        (case rest of
           [] \<Rightarrow> Inl (''invalid --window value: '' @ debug_opt np None @ '' (expected 1h|1d|7d|30d)'')
         | v # rest' \<Rightarrow>
             (case window_of v of
                None \<Rightarrow> Inl (''invalid --window value: '' @ debug_opt np (Some v) @ '' (expected 1h|1d|7d|30d)'')
              | Some window \<Rightarrow> usage_args np rest' (opts\<lparr>uo_window := window\<rparr>)))
      else if a = ''--json'' then usage_args np rest (opts\<lparr>uo_json := True\<rparr>)
      else Inl (''usage: unrecognized argument '' @ debug_str np a))"

definition usage_cmd :: "('f, 'g) hub_env \<Rightarrow> string list \<Rightarrow> ('f, 'g) command" where
  "usage_cmd he args =
     (if args \<noteq> [] \<and> hd args = ''set-tier-config'' then set_tier_config_cmd he (tl args)
      else (case usage_args (he_np he) args \<lparr>uo_tenant = None, uo_window = 24 * 3600, uo_json = False\<rparr> of
        Inl e \<Rightarrow> complain e
      | Inr opts \<Rightarrow>
          (case uo_tenant opts of
             None \<Rightarrow> complain (''usage: wkp-hub usage --tenant <slug> [--window 1h|1d|7d|30d] [--json] | ''
                       @ ''wkp-hub usage set-tier-config <tier-idx> <step-secs> <slots>'')
           | Some slug \<Rightarrow> (\<lambda>s.
               case run_usage he slug (uo_window opts) (uo_json opts) (hs_db s) of
                 (r, d) \<Rightarrow>
                   (let s' = s\<lparr>hs_db := d\<rparr> in
                    case r of
                      Inl e \<Rightarrow> complain (''usage failed: '' @ e) s'
                    | Inr None \<Rightarrow> (Panic, s')
                    | Inr (Some text) \<Rightarrow> (Exit 0 (text @ [nl]) [], s'))))))"

section \<open>The program\<close>

definition serve_cmd :: "('f, 'g) hub_env \<Rightarrow> string list \<Rightarrow> ('f, 'g) command" where
  "serve_cmd he args =
     on_world (ca_ensure (he_x509 he) (he_ca_now he) (ca_dir he)) (\<lambda>r s.
       case r of
         Inl e \<Rightarrow> complain e s
       | Inr ca \<Rightarrow>
           (case he_serve he (flag_or ''--port'' parse_u16 8080 args) ca (repos_root he) (tenant_image he) s of
              (Inl e, s') \<Rightarrow> complain (''serve failed: '' @ e) s'
            | (Inr _, s') \<Rightarrow> (Exit 0 [] [], s')))"

definition serve_tenant_cmd :: "('f, 'g) hub_env \<Rightarrow> string list \<Rightarrow> ('f, 'g) command" where
  "serve_tenant_cmd he args s =
     (case serve_tenant_args args (None, 8080) of
        (None, _) \<Rightarrow> complain ''usage: wkp-hub serve-tenant --tenant <slug> [--port <port>]'' s
      | (Some slug, port) \<Rightarrow>
          (case he_serve_tenant he port slug (repos_root he) s of
             (Inl e, s') \<Rightarrow> complain (''serve-tenant failed: '' @ e) s'
           | (Inr _, s') \<Rightarrow> (Exit 0 [] [], s')))"

definition ca_cert_cmd :: "('f, 'g) hub_env \<Rightarrow> ('f, 'g) command" where
  "ca_cert_cmd he =
     on_world (ca_ensure (he_x509 he) (he_ca_now he) (ca_dir he)) (\<lambda>r s.
       case r of Inl e \<Rightarrow> complain e s | Inr ca \<Rightarrow> (Exit 0 (ca_cert_pem ca) [], s))"

definition USAGE_TEXT :: string where
  "USAGE_TEXT = ''usage: wkp-hub serve [--port <port>] | serve-tenant --tenant <slug> [--port <port>] | migrate | ca-cert | ''
     @ ''tenant create <slug> | device register <tenant-slug> <public-key> | device revoke <public-key> | ''
     @ ''device revoke-id <device-id> | reset-all-connections --by <label> | index-tenant <tenant-slug> | ''
     @ ''index-worker --tenant <slug> [--poll-interval-ms <ms>] [--once] | provision-repo <tenant-slug> | ''
     @ ''start-pod <tenant-slug> | stop-pod <tenant-slug> | reap-idle-pods [--idle-minutes <n>] | ''
     @ ''usage --tenant <slug> [--window 1h|1d|7d|30d] [--json] | usage set-tier-config <tier-idx> <step-secs> <slots>''"

definition hub_main ::
  "('f, 'g) hub_env \<Rightarrow> string list \<Rightarrow> ('f, 'g) hub_state \<Rightarrow> (outcome \<times> ('f, 'g) hub_state) option" where
  "hub_main he args s =
     (let command = (case args of [] \<Rightarrow> [] | c # _ \<Rightarrow> c); rest = tl args in
      if command = ''index-worker'' then index_worker_cmd he rest s
      else Some ((if command = ''serve'' then serve_cmd he rest
        else if command = ''serve-tenant'' then serve_tenant_cmd he rest
        else if command = ''start-pod'' then start_pod_cmd he rest
        else if command = ''stop-pod'' then stop_pod_cmd he rest
        else if command = ''reap-idle-pods'' then reap_cmd he rest
        else if command = ''index-tenant'' then index_tenant_cmd he rest
        else if command = ''provision-repo'' then provision_cmd he rest
        else if command = ''migrate'' then migrate_cmd he
        else if command = ''tenant'' then tenant_cmd he rest
        else if command = ''device'' then device_cmd he rest
        else if command = ''reset-all-connections'' then reset_all_cmd he rest
        else if command = ''ca-cert'' then ca_cert_cmd he
        else if command = ''usage'' then usage_cmd he rest
        else complain USAGE_TEXT) s))"

end
