(* ===== verification/CpInv.thy ===== *)
theory CpInv
  imports HubHttp HubUsage
begin

text \<open>
  Invariants of the control plane over any history of its operations, whatever call to the database fails. A
  relation between what the database holds before and after that survives sequencing and rolled back
  transactions is kept by every program of the control plane; the rules are proved once in a locale and used for
  the constraints of the schema and for revocation.
\<close>

section \<open>Relations that programs keep\<close>

locale durable =
  fixes R :: "'u pg \<Rightarrow> 'u pg \<Rightarrow> bool"
  assumes R_refl: "R s s"
    and R_trans: "R s t \<Longrightarrow> R t u \<Longrightarrow> R s u"
    and R_rollback: "R s t \<Longrightarrow> R s (s\<lparr>pg_seqs := pg_seqs t\<rparr>)"
begin

definition moves :: "('u, 'a) cp \<Rightarrow> bool" where
  "moves m \<longleftrightarrow> (\<forall>d. R (db_pg d) (db_pg (snd (m d))))"

lemma movesD: "moves m \<Longrightarrow> m d = (r, d') \<Longrightarrow> R (db_pg d) (db_pg d')"
  unfolding moves_def by (metis snd_conv)

lemma moves_execute:
  assumes "\<And>s. R s (snd (stmt s))"
  shows "moves (execute stmt)"
  unfolding moves_def
proof
  fix d
  show "R (db_pg d) (db_pg (snd (execute stmt d)))"
    using assms [of "db_pg d"] R_refl [of "db_pg d"]
    by (cases "stmt (db_pg d)") (simp add: execute_def Let_def split: option.split)
qed

lemma moves_select: "moves (execute (select q))"
  by (rule moves_execute) (simp add: select_def R_refl)

lemma moves_try:
  assumes "moves m" "\<And>r. moves (f r)"
  shows "moves (cp_try m f)"
  unfolding moves_def
proof
  fix d
  obtain r d1 where m: "m d = (r, d1)" by fastforce
  then show "R (db_pg d) (db_pg (snd (cp_try m f d)))"
    using movesD [OF assms(1) m] assms(2) R_trans by (auto simp: cp_try_def moves_def)
qed

lemma moves_basic: "moves (cp_ret a)" "moves (cp_err e)" "moves (\<lambda>d. (r, d))"
  by (simp_all add: moves_def cp_ret_def cp_err_def R_refl)

lemma moves_case_sum: "(\<And>e. moves (f e)) \<Longrightarrow> (\<And>a. moves (g a)) \<Longrightarrow> moves (case r of Inl e \<Rightarrow> f e | Inr a \<Rightarrow> g a)"
  by (cases r) simp_all

lemma moves_bind: "moves m \<Longrightarrow> (\<And>a. moves (f a)) \<Longrightarrow> moves (cp_bind m f)"
  unfolding cp_bind_def by (intro moves_try moves_case_sum moves_basic)

lemma moves_if: "(b \<Longrightarrow> moves f) \<Longrightarrow> (\<not> b \<Longrightarrow> moves g) \<Longrightarrow> moves (if b then f else g)"
  by simp

lemma moves_case_option:
  "(x = None \<Longrightarrow> moves f) \<Longrightarrow> (\<And>a. x = Some a \<Longrightarrow> moves (g a)) \<Longrightarrow> moves (case x of None \<Rightarrow> f | Some a \<Rightarrow> g a)"
  by (cases x) simp_all

lemma moves_case_list:
  "(x = [] \<Longrightarrow> moves f) \<Longrightarrow> (\<And>a as. x = a # as \<Longrightarrow> moves (g a as)) \<Longrightarrow> moves (case x of [] \<Rightarrow> f | a # as \<Rightarrow> g a as)"
  by (cases x) simp_all

lemma moves_case_prod: "(\<And>a b. x = (a, b) \<Longrightarrow> moves (g a b)) \<Longrightarrow> moves (case x of (a, b) \<Rightarrow> g a b)"
  by (cases x) simp

lemma moves_now: "(\<And>t. moves (m t)) \<Longrightarrow> moves (\<lambda>d. m (q d) d)"
  by (simp add: moves_def)

lemma rolled_back: "R (db_pg d) (db_pg d1) \<Longrightarrow> R (db_pg d) (db_pg (rollback d d1))"
  by (simp add: rollback_def R_rollback)

lemma moves_transaction: "moves body \<Longrightarrow> moves (transaction body)"
  unfolding transaction_def
proof (rule moves_bind [OF moves_select])
  fix u :: unit
  assume body: "moves body"
  show "moves (\<lambda>d. case body d of (Inl e, d1) \<Rightarrow> (Inl e, rollback d d1)
      | (Inr a, d1) \<Rightarrow> (let d2 = d1\<lparr>db_calls := Suc (db_calls d1)\<rparr> in
          case db_fault d1 (db_calls d1) of None \<Rightarrow> (Inr a, d2)
          | Some (e, applied) \<Rightarrow> (Inl (Postgres e), if applied then d2 else rollback d d2)))"
    unfolding moves_def
  proof
    fix d
    obtain r d1 where b: "body d = (r, d1)" by fastforce
    then show "R (db_pg d) (db_pg (snd (case body d of (Inl e, d1) \<Rightarrow> (Inl e, rollback d d1)
      | (Inr a, d1) \<Rightarrow> (let d2 = d1\<lparr>db_calls := Suc (db_calls d1)\<rparr> in
          case db_fault d1 (db_calls d1) of None \<Rightarrow> (Inr a, d2)
          | Some (e, applied) \<Rightarrow> (Inl (Postgres e), if applied then d2 else rollback d d2)))))"
      using movesD [OF body b] rolled_back [of d d1] rolled_back [of d "d1\<lparr>db_calls := Suc (db_calls d1)\<rparr>"]
      by (cases r) (auto simp: Let_def split: option.split)
  qed
qed

lemmas moves_all = moves_basic moves_select moves_bind moves_try moves_case_sum moves_if moves_case_option moves_case_list
  moves_case_prod moves_transaction

lemma moves_connect:
  assumes "\<And>s. R s (snd (schema s))"
  shows "moves (connect schema)"
proof -
  have "moves (\<lambda>d. if \<not> db_url d then (Inl MissingDatabaseUrl, d)
      else cp_bind (execute (select (\<lambda>_. ()))) (\<lambda>_. create_schema schema) d)"
  proof (rule moves_now [where q = db_url and m = "\<lambda>u d. if \<not> u then (Inl MissingDatabaseUrl, d)
      else cp_bind (execute (select (\<lambda>_. ()))) (\<lambda>_. create_schema schema) d"])
    fix u
    have "moves (create_schema schema)"
      unfolding create_schema_def by (intro moves_all moves_execute assms)
    then have "moves (cp_bind (execute (select (\<lambda>_. ()))) (\<lambda>_. create_schema schema))" by (intro moves_all)
    then show "moves (\<lambda>d. if \<not> u then (Inl MissingDatabaseUrl, d)
      else cp_bind (execute (select (\<lambda>_. ()))) (\<lambda>_. create_schema schema) d)" by (cases u) (simp_all add: moves_basic)
  qed
  then show ?thesis by (simp add: connect_def [abs_def])
qed

end

section \<open>The constraints of the schema\<close>

text \<open>
  Primary keys are drawn from their sequence, unique columns have no duplicates, and references lead to rows.
\<close>

definition keys_ok ::
  "(string \<Rightarrow> int) \<Rightarrow> int list \<Rightarrow> string list \<Rightarrow> int list \<Rightarrow> string list \<Rightarrow> string list \<Rightarrow> int list \<Rightarrow> int list \<Rightarrow> string list
    \<Rightarrow> string list \<Rightarrow> int list \<Rightarrow> int list \<Rightarrow> bool" where
  "keys_ok seqs tenants slugs devices public_keys serials owners grants device_codes user_codes grant_tenants approved \<longleftrightarrow>
     distinct tenants \<and> (\<forall>i \<in> set tenants. i \<le> seqs ''tenants'') \<and> distinct slugs
     \<and> distinct devices \<and> (\<forall>i \<in> set devices. i \<le> seqs ''devices'') \<and> distinct public_keys \<and> distinct serials
     \<and> set owners \<subseteq> set tenants
     \<and> distinct grants \<and> (\<forall>i \<in> set grants. i \<le> seqs ''device_grants'') \<and> distinct device_codes \<and> distinct user_codes
     \<and> set grant_tenants \<subseteq> set tenants \<and> set approved \<subseteq> set devices"

definition tables_ok :: "'u pg \<Rightarrow> bool" where
  "tables_ok s \<longleftrightarrow>
     keys_ok (pg_seqs s) (map tn_id (pg_tenants s)) (map tn_slug (pg_tenants s))
       (map dv_id (pg_devices s)) (map dv_public_key (pg_devices s)) (List.map_filter dv_cert_serial (pg_devices s))
       (map dv_tenant_id (pg_devices s))
       (map gr_id (pg_grants s)) (map gr_device_code (pg_grants s)) (map gr_user_code (pg_grants s))
       (map gr_tenant_id (pg_grants s)) (List.map_filter gr_approved_device_id (pg_grants s))"

definition rows_step :: "'u pg \<Rightarrow> 'u pg \<Rightarrow> bool" where
  "rows_step s t \<longleftrightarrow> (tables_ok s \<longrightarrow> tables_ok t \<and> (\<forall>k. pg_seqs s k \<le> pg_seqs t k))"

lemma tables_ok_seqs: "tables_ok s \<Longrightarrow> (\<forall>k. pg_seqs s k \<le> q k) \<Longrightarrow> tables_ok (s\<lparr>pg_seqs := q\<rparr>)"
  unfolding tables_ok_def keys_ok_def by (auto intro: order_trans)

interpretation rows: durable rows_step
proof
  show "rows_step s s" for s :: "'a pg" by (simp add: rows_step_def)
  show "rows_step s u" if "rows_step s t" "rows_step t u" for s t u :: "'a pg"
    using that unfolding rows_step_def by (meson order_trans)
  show "rows_step s (s\<lparr>pg_seqs := pg_seqs t\<rparr>)" if "rows_step s t" for s t :: "'a pg"
    using that tables_ok_seqs by (auto simp: rows_step_def)
qed

text \<open>Statements that change a column which no constraint speaks of, or nothing but the metric tables.\<close>

lemma update_where_keys:
  "(\<And>r. k (f r) = k r) \<Longrightarrow> map k (snd (update_where P f rows)) = map k rows"
  "(\<And>r. j (f r) = j r) \<Longrightarrow> List.map_filter j (snd (update_where P f rows)) = List.map_filter j rows"
proof -
  assume "\<And>r. k (f r) = k r"
  then show "map k (snd (update_where P f rows)) = map k rows" by (simp add: update_where_def)
next
  assume "\<And>r. j (f r) = j r"
  then have "(\<lambda>r. j (if P r then f r else r)) = j" by auto
  then show "List.map_filter j (snd (update_where P f rows)) = List.map_filter j rows"
    by (simp add: update_where_def map_filter_map)
qed

text \<open>A statement that leaves the keys of all tables and the sequences alone.\<close>

definition same_keys :: "'u pg \<Rightarrow> 'u pg \<Rightarrow> bool" where
  "same_keys s t \<longleftrightarrow>
     map tn_id (pg_tenants t) = map tn_id (pg_tenants s) \<and> map tn_slug (pg_tenants t) = map tn_slug (pg_tenants s)
     \<and> map dv_id (pg_devices t) = map dv_id (pg_devices s) \<and> map dv_public_key (pg_devices t) = map dv_public_key (pg_devices s)
     \<and> map dv_tenant_id (pg_devices t) = map dv_tenant_id (pg_devices s)
     \<and> List.map_filter dv_cert_serial (pg_devices t) = List.map_filter dv_cert_serial (pg_devices s)
     \<and> pg_grants t = pg_grants s \<and> (\<forall>k. k \<noteq> ''usage_metrics'' \<and> k \<noteq> ''connection_reset_events'' \<longrightarrow> pg_seqs t k = pg_seqs s k)
     \<and> (\<forall>k. pg_seqs s k \<le> pg_seqs t k)"

lemma rows_same_keys: "same_keys s t \<Longrightarrow> rows_step s t"
  by (simp add: same_keys_def rows_step_def tables_ok_def keys_ok_def)

lemma same_keys_update_tenant:
  "(\<And>t. tn_id (f t) = tn_id t) \<Longrightarrow> (\<And>t. tn_slug (f t) = tn_slug t) \<Longrightarrow> same_keys s (snd (update_tenant i f s))"
  unfolding update_tenant_def case_prod_beta same_keys_def by (simp add: update_where_keys(1))

lemma same_keys_revoked: "same_keys s (snd (set_revoked i now s))"
  by (simp add: same_keys_def set_revoked_def Let_def update_where_keys)

lemma same_keys_notify: "same_keys s (snd (pg_notify channel payload s))"
  by (simp add: same_keys_def pg_notify_def)

lemma same_keys_usage: "same_keys s (snd (on_usage f s))" "same_keys s (snd (upsert_metric name kind s))"
  by (auto simp: same_keys_def on_usage_def upsert_metric_def nextval_def split: option.split)

text \<open>The statements that insert a row, or give a device its certificate.\<close>

lemma keys_ok_mono: "keys_ok q a b c d e f g h i j k \<Longrightarrow> (\<And>n. q n \<le> q' n) \<Longrightarrow> keys_ok q' a b c d e f g h i j k"
  unfolding keys_ok_def by (auto intro: order_trans)

lemma keys_ok_later: "keys_ok q a b c d e f g h i j k \<Longrightarrow> keys_ok (q(n := q n + 1)) a b c d e f g h i j k"
  by (erule keys_ok_mono) simp

lemma keys_ok_fresh:
  assumes "keys_ok q a b c d e f g h i j k"
  shows "q ''tenants'' + 1 \<notin> set a" "q ''devices'' + 1 \<notin> set c" "q ''device_grants'' + 1 \<notin> set g"
  using assms unfolding keys_ok_def by (meson zless_add1_eq not_le order_refl)+

lemma keys_ok_insert:
  assumes "keys_ok q a b c d e f g h i j k"
  shows "slug \<notin> set b \<Longrightarrow> keys_ok (q(''tenants'' := q ''tenants'' + 1)) (a @ [q ''tenants'' + 1]) (b @ [slug]) c d e f g h i j k"
    "key \<notin> set d \<Longrightarrow> tn \<in> set a \<Longrightarrow>
       keys_ok (q(''devices'' := q ''devices'' + 1)) a b (c @ [q ''devices'' + 1]) (d @ [key]) e (f @ [tn]) g h i j k"
    "dc \<notin> set h \<Longrightarrow> uc \<notin> set i \<Longrightarrow> tn \<in> set a \<Longrightarrow>
       keys_ok (q(''device_grants'' := q ''device_grants'' + 1)) a b c d e f (g @ [q ''device_grants'' + 1]) (h @ [dc]) (i @ [uc])
         (j @ [tn]) k"
proof -
  note later = keys_ok_later [OF assms, unfolded keys_ok_def] and fresh = keys_ok_fresh [OF assms]
  show "slug \<notin> set b \<Longrightarrow> keys_ok (q(''tenants'' := q ''tenants'' + 1)) (a @ [q ''tenants'' + 1]) (b @ [slug]) c d e f g h i j k"
    using later [of "''tenants''"] fresh(1) unfolding keys_ok_def by auto
  show "key \<notin> set d \<Longrightarrow> tn \<in> set a \<Longrightarrow>
       keys_ok (q(''devices'' := q ''devices'' + 1)) a b (c @ [q ''devices'' + 1]) (d @ [key]) e (f @ [tn]) g h i j k"
    using later [of "''devices''"] fresh(2) unfolding keys_ok_def by auto
  show "dc \<notin> set h \<Longrightarrow> uc \<notin> set i \<Longrightarrow> tn \<in> set a \<Longrightarrow>
       keys_ok (q(''device_grants'' := q ''device_grants'' + 1)) a b c d e f (g @ [q ''device_grants'' + 1]) (h @ [dc]) (i @ [uc])
         (j @ [tn]) k"
    using later [of "''device_grants''"] fresh(3) unfolding keys_ok_def by auto
qed

text \<open>A row that is added under the next number of its sequence, or refused after the number was taken.\<close>

lemma tables_ok_taken: "tables_ok s \<Longrightarrow> tables_ok (s\<lparr>pg_seqs := (pg_seqs s)(n := pg_seqs s n + 1)\<rparr>)"
  by (simp add: tables_ok_def keys_ok_later)

lemma rows_insert:
  "rows_step s (snd (insert_tenant slug now s))" "rows_step s (snd (insert_device tenant_id public_key now s))"
  "rows_step s (snd (insert_grant device_code user_code tenant_id csr_pem now s))"
proof -
  show "rows_step s (snd (insert_tenant slug now s))"
  proof (cases "slug \<in> tn_slug ` set (pg_tenants s)")
    case True
    then show ?thesis by (simp add: rows_step_def insert_tenant_def nextval_def tables_ok_taken)
  next
    case False
    then show ?thesis
      by (simp add: rows_step_def insert_tenant_def nextval_def tables_ok_def Let_def keys_ok_insert(1))
  qed
  show "rows_step s (snd (insert_device tenant_id public_key now s))"
  proof (cases "public_key \<notin> dv_public_key ` set (pg_devices s) \<and> tenant_id \<in> tn_id ` set (pg_tenants s)")
    case True
    then show ?thesis
      by (simp add: rows_step_def insert_device_def nextval_def tables_ok_def Let_def keys_ok_insert(2) map_filter_append map_filter_simps)
  next
    case False
    then show ?thesis by (auto simp: rows_step_def insert_device_def nextval_def tables_ok_taken)
  qed
  show "rows_step s (snd (insert_grant device_code user_code tenant_id csr_pem now s))"
  proof (cases "device_code \<notin> gr_device_code ` set (pg_grants s) \<and> user_code \<notin> gr_user_code ` set (pg_grants s)
      \<and> tenant_id \<in> tn_id ` set (pg_tenants s)")
    case True
    then show ?thesis
      by (simp add: rows_step_def insert_grant_def nextval_def tables_ok_def Let_def keys_ok_insert(3) map_filter_append map_filter_simps)
  next
    case False
    then show ?thesis by (auto simp: rows_step_def insert_grant_def nextval_def tables_ok_taken)
  qed
qed

text \<open>Giving a device its certificate, once the serial is not another device's; approving a grant.\<close>

lemma map_filter_update_one:
  assumes "distinct (map k rows)" "distinct (List.map_filter j rows)" "v \<notin> j ` {r \<in> set rows. k r \<noteq> i} " "v = Some x"
    "\<And>r. j (f r) = v"
  shows "distinct (List.map_filter j (map (\<lambda>r. if k r = i then f r else r) rows))"
  using assms(1-3)
proof (induction rows)
  case Nil
  then show ?case by (simp add: map_filter_simps)
next
  case (Cons r rows)
  have IH: "distinct (List.map_filter j (map (\<lambda>r. if k r = i then f r else r) rows))"
    using Cons by (auto simp: map_filter_simps split: option.splits)
  have old: "y \<in> set (List.map_filter j rows) \<longleftrightarrow> (\<exists>q \<in> set rows. j q = Some y)" for y
    by (simp add: set_map_filter)
  have new: "y \<in> set (List.map_filter j (map (\<lambda>r. if k r = i then f r else r) rows))
      \<longleftrightarrow> (\<exists>q \<in> set rows. (if k q = i then v else j q) = Some y)" for y
    using assms(5) by (auto simp: map_filter_map set_map_filter split: if_splits)
  show ?case
  proof (cases "k r = i")
    case True
    then have "\<forall>q \<in> set rows. k q \<noteq> i"
      using Cons.prems(1) by (metis distinct.simps(2) image_eqI list.map(2) list.set_map)
    moreover from this have "\<forall>q \<in> set rows. j q \<noteq> Some x" using Cons.prems(3) assms(4) by (fastforce simp: image_iff)
    ultimately have "x \<notin> set (List.map_filter j (map (\<lambda>r. if k r = i then f r else r) rows))" unfolding new by auto
    then show ?thesis using IH True assms(4,5) by (simp add: map_filter_simps)
  next
    case False
    have "j r \<noteq> v" using Cons.prems(3) False by (fastforce simp: image_iff)
    then have "y \<notin> set (List.map_filter j (map (\<lambda>r. if k r = i then f r else r) rows))" if "j r = Some y" for y
      unfolding new using that Cons.prems(2) old [of y] by (auto simp: map_filter_simps)
    then show ?thesis using IH False by (simp add: map_filter_simps split: option.split)
  qed
qed

lemma rows_set_certificate: "rows_step s (snd (set_certificate i pem serial issued_at expires_at s))"
proof (cases "i \<in> dv_id ` set (pg_devices s) \<and> Some serial \<in> dv_cert_serial ` {dv \<in> set (pg_devices s). dv_id dv \<noteq> i}")
  case True
  then show ?thesis by (simp add: set_certificate_def rows.R_refl)
next
  case False
  let ?f = "\<lambda>dv. dv\<lparr>dv_certificate_pem := Some pem, dv_cert_serial := Some serial, dv_cert_issued_at := Some issued_at,
    dv_cert_expires_at := Some expires_at\<rparr>"
  let ?rows = "snd (update_where (\<lambda>dv. dv_id dv = i) ?f (pg_devices s))"
  have keys: "map dv_id ?rows = map dv_id (pg_devices s)" "map dv_public_key ?rows = map dv_public_key (pg_devices s)"
    "map dv_tenant_id ?rows = map dv_tenant_id (pg_devices s)"
    by (rule update_where_keys(1); simp)+
  have "distinct (List.map_filter dv_cert_serial ?rows)"
    if ok: "distinct (map dv_id (pg_devices s))" "distinct (List.map_filter dv_cert_serial (pg_devices s))"
  proof (cases "i \<in> dv_id ` set (pg_devices s)")
    case True
    then show ?thesis using map_filter_update_one [OF ok, of "Some serial" i serial ?f] False
      by (simp add: update_where_def)
  next
    case absent: False
    then have "map (\<lambda>r. if dv_id r = i then ?f r else r) (pg_devices s) = pg_devices s" by (intro map_idI) auto
    then show ?thesis using ok(2) by (simp add: update_where_def)
  qed
  note serials = this
  have "tables_ok (s\<lparr>pg_devices := ?rows\<rparr>)" if ok: "tables_ok s"
    using ok keys serials unfolding tables_ok_def keys_ok_def by simp
  moreover have "snd (set_certificate i pem serial issued_at expires_at s) = s\<lparr>pg_devices := ?rows\<rparr>"
    unfolding set_certificate_def if_not_P [OF False] case_prod_beta by simp
  ultimately show ?thesis by (simp add: rows_step_def)
qed

lemma rows_set_approved:
  assumes "tables_ok s \<Longrightarrow> dev \<in> dv_id ` set (pg_devices s)"
  shows "rows_step s (snd (set_approved i dev s))"
proof -
  let ?f = "\<lambda>h. h\<lparr>gr_approved_device_id := Some dev\<rparr>"
  let ?rows = "snd (update_where (\<lambda>h. gr_id h = i) ?f (pg_grants s))"
  have "map gr_id ?rows = map gr_id (pg_grants s)" "map gr_device_code ?rows = map gr_device_code (pg_grants s)"
    "map gr_user_code ?rows = map gr_user_code (pg_grants s)" "map gr_tenant_id ?rows = map gr_tenant_id (pg_grants s)"
    by (rule update_where_keys(1); simp)+
  moreover have "set (List.map_filter gr_approved_device_id ?rows) \<subseteq> insert dev (set (List.map_filter gr_approved_device_id (pg_grants s)))"
    by (auto simp: update_where_def map_filter_map set_map_filter split: if_splits)
  ultimately show ?thesis
    using assms by (auto simp: set_approved_def case_prod_beta rows_step_def tables_ok_def keys_ok_def)
qed

section \<open>The operations\<close>

text \<open>
  What may be asked of the control plane; each operation happens at its own time. The metric tables are those of
  the hub, with the operations on them.
\<close>

datatype 'f cp_op =
    Connect
  | CreateTenant string
  | SetAlwaysWarm int bool
  | PodStarted int
  | PodStopped int
  | TouchActive int
  | RegisterDevice int string
  | IssueCertificate int string string int int
  | RevokeDevice int
  | ResetAll string
  | CreateGrant "(string, nat list) result" "(string, nat list) result" int string
  | ApproveGrant device_grant string
  | RecordUsage int string metric_kind 'f int
  | SetTierConfig int int int
  | Lookup "'f hub_usage pg \<Rightarrow> unit"

definition void :: "('u, 'a) cp \<Rightarrow> ('u, unit) cp" where
  "void m = cp_bind m (\<lambda>_. cp_ret ())"

fun cp_run :: "('f hub_usage, unit) stmt \<Rightarrow> 'f float_ops \<Rightarrow> 'f cp_op \<Rightarrow> ('f hub_usage, unit) cp" where
  "cp_run schema fl Connect = connect schema"
| "cp_run schema fl (CreateTenant slug) = void (create_tenant slug)"
| "cp_run schema fl (SetAlwaysWarm i warm) = set_always_warm i warm"
| "cp_run schema fl (PodStarted i) = record_pod_started i"
| "cp_run schema fl (PodStopped i) = record_pod_stopped i"
| "cp_run schema fl (TouchActive i) = touch_last_active i"
| "cp_run schema fl (RegisterDevice tn key) = void (register_device tn key)"
| "cp_run schema fl (IssueCertificate i pem serial issued_at expires_at) = issue_device_certificate i pem serial issued_at expires_at"
| "cp_run schema fl (RevokeDevice i) = revoke_device i"
| "cp_run schema fl (ResetAll by) = reset_all_connections by"
| "cp_run schema fl (CreateGrant rd ru tn csr) = void (create_device_grant rd ru tn csr)"
| "cp_run schema fl (ApproveGrant g key) = void (approve_grant g key)"
| "cp_run schema fl (RecordUsage tn name kind v secs) = void (hub_record fl tn name kind v secs)"
| "cp_run schema fl (SetTierConfig i st sl) = set_tier_config i st sl"
| "cp_run schema fl (Lookup q) = execute (select q)"

fun cp_history ::
  "('f hub_usage, unit) stmt \<Rightarrow> 'f float_ops \<Rightarrow> (int \<times> 'f cp_op) list \<Rightarrow> 'f hub_usage db \<Rightarrow> 'f hub_usage db" where
  "cp_history schema fl [] d = d"
| "cp_history schema fl ((now, c) # cs) d = cp_history schema fl cs (snd (cp_run schema fl c (d\<lparr>db_now := now\<rparr>)))"

context durable
begin

lemma moves_void: "moves m \<Longrightarrow> moves (void m)"
  unfolding void_def by (intro moves_all)

lemma moves_updated_tenant: "(\<And>s. R s (snd (update_tenant i f s))) \<Longrightarrow> moves (updated_tenant i f)"
  unfolding updated_tenant_def by (intro moves_all moves_execute)

lemma moves_transaction_unwind: "moves body \<Longrightarrow> moves (transaction_unwind body)"
  unfolding transaction_unwind_def
proof (rule moves_bind [OF moves_select])
  fix u :: unit
  assume body: "moves body"
  let ?m = "\<lambda>d. case body d of (Inl e, d1) \<Rightarrow> (Inl e, rollback d d1)
      | (Inr None, d1) \<Rightarrow> (Inr None, rollback d d1)
      | (Inr (Some a), d1) \<Rightarrow> (let d2 = d1\<lparr>db_calls := Suc (db_calls d1)\<rparr> in
          case db_fault d1 (db_calls d1) of None \<Rightarrow> (Inr (Some a), d2)
          | Some (e, applied) \<Rightarrow> (Inl (Postgres e), if applied then d2 else rollback d d2))"
  show "moves ?m"
    unfolding moves_def
  proof
    fix d
    obtain r d1 where b: "body d = (r, d1)" by fastforce
    then show "R (db_pg d) (db_pg (snd (?m d)))"
      using movesD [OF body b] rolled_back [of d d1] rolled_back [of d "d1\<lparr>db_calls := Suc (db_calls d1)\<rparr>"]
      by (auto simp: Let_def split: option.split sum.split)
  qed
qed

end

section \<open>The constraints hold throughout\<close>

text \<open>Reading the next connection's schema keeps the keys, as \<open>CREATE TABLE IF NOT EXISTS\<close> does.\<close>

lemma rows_register: "rows.moves (register_device tenant_id public_key)"
  unfolding register_device_def [abs_def]
  by (rule rows.moves_now [where q = db_now and m = "\<lambda>t. execute (insert_device tenant_id public_key t)"])
    (rule rows.moves_execute, rule rows_insert)

lemma rows_approve_new: "rows.moves (approve_new g public_key)"
  unfolding rows.moves_def
proof
  fix d :: "'a db"
  obtain r d1 where reg: "register_device (gr_tenant_id g) public_key d = (r, d1)" by fastforce
  have step: "rows_step (db_pg d) (db_pg d1)"
    by (rule rows.movesD [OF rows_register reg])
  show "rows_step (db_pg d) (db_pg (snd (approve_new g public_key d)))"
  proof (cases r)
    case (Inl e)
    then show ?thesis using step by (simp add: approve_new_def cp_bind_def cp_try_def reg cp_err_def)
  next
    case (Inr dv)
    have there: "dv_id dv \<in> dv_id ` set (pg_devices (db_pg d1))"
      using reg [unfolded Inr register_device_def execute_Inr]
      by (auto simp: insert_device_def nextval_def Let_def split: if_splits)
    obtain r2 d2 where ex: "execute (set_approved (gr_id g) (dv_id dv)) d1 = (r2, d2)" by fastforce
    have "rows_step (db_pg d1) (snd (set_approved (gr_id g) (dv_id dv) (db_pg d1)))"
      by (rule rows_set_approved) (rule there)
    then have "rows_step (db_pg d1) (db_pg d2)"
      using ex rows.R_refl [of "db_pg d1"] by (cases "set_approved (gr_id g) (dv_id dv) (db_pg d1)")
        (auto simp: execute_def Let_def split: option.splits if_splits)
    then show ?thesis
      using rows.R_trans [OF step] Inr by (cases r2) (simp_all add: approve_new_def cp_bind_def cp_try_def reg cp_err_def cp_ret_def ex)
  qed
qed

text \<open>
  The contract of a relation on the control plane: its statements keep it. Then every operation does, and so does
  every history.
\<close>

locale control_plane_relation = durable R for R :: "'f hub_usage pg \<Rightarrow> 'f hub_usage pg \<Rightarrow> bool" +
  fixes allowed :: "'f cp_op \<Rightarrow> bool"
  assumes R_same_tables: "same_keys s t \<Longrightarrow> pg_devices t = pg_devices s \<Longrightarrow> R s t"
    and R_insert_tenant: "R s (snd (insert_tenant slug now s))"
    and R_insert_device: "R s (snd (insert_device tn key now s))"
    and R_insert_grant: "R s (snd (insert_grant dc uc tn csr now s))"
    and R_set_revoked: "R s (snd (set_revoked i now s))"
    and R_set_certificate: "allowed (IssueCertificate i pem serial issued expiry) \<Longrightarrow> R s (snd (set_certificate i pem serial issued expiry s))"
    and R_approve_new: "moves (approve_new g key)"
begin

lemma moves_tenant_row:
  assumes "\<And>t. tn_id (f t) = tn_id t" "\<And>t. tn_slug (f t) = tn_slug t"
  shows "moves (updated_tenant i f)"
  by (rule moves_updated_tenant, rule R_same_tables)
    (simp_all add: same_keys_update_tenant assms, simp add: update_tenant_def split: prod.split)

lemma moves_on_usage: "moves (execute (referenced table tn m (on_usage f)))" "moves (execute (on_usage f))"
  "moves (execute (upsert_metric name kind))"
proof -
  have u: "R s (snd (on_usage f s))" "R s (snd (upsert_metric name kind s))" for f s
    by (rule R_same_tables, rule same_keys_usage, simp add: on_usage_def upsert_metric_def nextval_def split: option.split)+
  show "moves (execute (referenced table tn m (on_usage f)))"
    by (rule moves_execute) (simp add: referenced_def R_refl u)
  show "moves (execute (on_usage f))" "moves (execute (upsert_metric name kind))"
    by (rule moves_execute, rule u)+
qed

lemma moves_hub_apply: "moves (hub_apply fl ts k tn m b inc)"
proof (induction fl ts k tn m b inc rule: hub_apply.induct)
  case (2 fl t ts k tn m b inc)
  have w: "moves (hub_write_slot tn m k s b a)" "moves (hub_set_cursor tn m k s b)" for tn m k s b a
    unfolding hub_write_slot_def hub_set_cursor_def by (rule moves_on_usage)+
  have o: "moves (hub_open_window t k tn m b a)" for t k tn m b a
    unfolding hub_open_window_def Let_def by (intro moves_all w)
  show ?case
    unfolding hub_apply.simps hub_fetch_cursor_def hub_fetch_slot_def
    by (intro moves_bind moves_select moves_case_option moves_case_prod moves_if moves_case_list
        moves_basic w o) (rule "2.IH"; assumption)+
qed (simp add: moves_basic)

lemma moves_run:
  assumes "\<And>s. same_keys s (snd (schema s)) \<and> pg_devices (snd (schema s)) = pg_devices s" "allowed c"
  shows "moves (cp_run schema fl c)"
proof (cases c)
  case Connect
  then show ?thesis using assms(1) by (auto intro: moves_connect R_same_tables)
next
  case (CreateTenant slug)
  have "moves (create_tenant slug)"
    unfolding create_tenant_def [abs_def]
    by (rule moves_now [where q = db_now and m = "\<lambda>t. execute (insert_tenant slug t)"]) (rule moves_execute, rule R_insert_tenant)
  then show ?thesis by (simp add: CreateTenant moves_void)
next
  case (SetAlwaysWarm i warm)
  then show ?thesis by (simp add: set_always_warm_def moves_tenant_row)
next
  case (PodStarted i)
  have "moves (record_pod_started i)"
    unfolding record_pod_started_def [abs_def]
    by (rule moves_now [where q = db_now and m = "\<lambda>t. updated_tenant i (\<lambda>u. u\<lparr>tn_pod_running := True, tn_pod_started_at := Some t\<rparr>)"])
      (simp add: moves_tenant_row)
  then show ?thesis by (simp add: PodStarted)
next
  case (PodStopped i)
  then show ?thesis by (simp add: record_pod_stopped_def moves_tenant_row)
next
  case (TouchActive i)
  have "moves (touch_last_active i)"
    unfolding touch_last_active_def [abs_def]
    by (rule moves_now [where q = db_now and m = "\<lambda>t. updated_tenant i (\<lambda>u. u\<lparr>tn_last_active_at := t\<rparr>)"]) (simp add: moves_tenant_row)
  then show ?thesis by (simp add: TouchActive)
next
  case (RegisterDevice tn key)
  have "moves (register_device tn key)"
    unfolding register_device_def [abs_def]
    by (rule moves_now [where q = db_now and m = "\<lambda>t. execute (insert_device tn key t)"]) (rule moves_execute, rule R_insert_device)
  then show ?thesis by (simp add: RegisterDevice moves_void)
next
  case (IssueCertificate i pem serial issued expiry)
  then show ?thesis using assms(2)
    by (simp add: issue_device_certificate_def) (intro moves_all moves_execute R_set_certificate)
next
  case (RevokeDevice i)
  have "moves (\<lambda>d. cp_bind (execute (set_revoked i (db_now d))) (\<lambda>row.
         case row of Some (Some serial) \<Rightarrow> execute (pg_notify NOTIFY_CHANNEL serial) | _ \<Rightarrow> cp_ret ()) d)"
    by (rule moves_now [where q = db_now and m = "\<lambda>t. cp_bind (execute (set_revoked i t)) (\<lambda>row.
         case row of Some (Some serial) \<Rightarrow> execute (pg_notify NOTIFY_CHANNEL serial) | _ \<Rightarrow> cp_ret ())"])
      (intro moves_bind moves_case_option moves_basic moves_execute R_set_revoked R_same_tables same_keys_notify, simp add: pg_notify_def)
  then show ?thesis by (simp add: RevokeDevice revoke_device_def moves_transaction)
next
  case (ResetAll label)
  have "moves (\<lambda>d. cp_bind (execute (insert_reset (db_now d) (trim label))) (\<lambda>_. execute (pg_notify NOTIFY_CHANNEL RESET_ALL_PAYLOAD)) d)"
    by (rule moves_now [where q = db_now and m = "\<lambda>t. cp_bind (execute (insert_reset t (trim label))) (\<lambda>_. execute (pg_notify NOTIFY_CHANNEL RESET_ALL_PAYLOAD))"])
      (intro moves_bind moves_execute R_same_tables, simp_all add: same_keys_notify pg_notify_def insert_reset_def nextval_def same_keys_def)
  then show ?thesis by (simp add: ResetAll reset_all_connections_def moves_transaction moves_basic)
next
  case (CreateGrant rd ru tn csr)
  have "moves (create_device_grant rd ru tn csr)"
    unfolding create_device_grant_def [abs_def]
    by (cases "random_hex rd"; cases "random_user_code ru"; simp add: moves_basic)
      (rule moves_now [where q = db_now and m = "\<lambda>t. execute (insert_grant _ _ tn csr t)"], rule moves_execute, rule R_insert_grant)
  then show ?thesis by (simp add: CreateGrant moves_void)
next
  case (ApproveGrant g key)
  have "moves (approve_grant g key)"
    unfolding approve_grant_def find_device_by_id_def
    by (intro moves_case_option moves_bind moves_select moves_basic R_approve_new)
  then show ?thesis by (simp add: ApproveGrant moves_void)
next
  case (RecordUsage tn name kind v secs)
  have "moves (hub_record fl tn name kind v secs)"
    unfolding hub_record_def hub_record_body_def hub_get_or_create_metric_def lock_call_def load_tier_config_def
    by (intro moves_transaction_unwind moves_bind moves_select moves_case_list moves_basic moves_hub_apply moves_on_usage
        moves_case_prod moves_if)
  then show ?thesis by (simp add: RecordUsage moves_void)
next
  case (SetTierConfig i st sl)
  then show ?thesis
    unfolding SetTierConfig cp_run.simps set_tier_config_def lock_call_def
    by (intro moves_if moves_basic moves_transaction moves_bind moves_select moves_on_usage)
next
  case (Lookup q)
  then show ?thesis by (simp add: moves_select)
qed

lemma moves_history:
  assumes "\<And>s. same_keys s (snd (schema s)) \<and> pg_devices (snd (schema s)) = pg_devices s" "list_all (\<lambda>(now, c). allowed c) cs"
  shows "R (db_pg d) (db_pg (cp_history schema fl cs d))"
  using assms(2)
proof (induction cs arbitrary: d)
  case Nil
  then show ?case by (simp add: R_refl)
next
  case (Cons e cs)
  obtain now c where e: "e = (now, c)" by fastforce
  have "R (db_pg d) (db_pg (snd (cp_run schema fl c (d\<lparr>db_now := now\<rparr>))))"
    using moves_run [OF assms(1), of c fl] Cons.prems e by (simp add: moves_def) (metis db.select_convs(1) db.surjective db.update_convs(2))
  then show ?case using Cons R_trans by (simp add: e)
qed

end

section \<open>The constraints hold throughout\<close>

interpretation rows: control_plane_relation rows_step "\<lambda>_. True"
proof
  show "rows.moves (approve_new g key)" for g :: device_grant and key
    by (rule rows_approve_new)
qed (rule rows_same_keys rows_insert rows_set_certificate, assumption | rule rows_insert rows_set_certificate
    | rule rows_same_keys, rule same_keys_revoked)+

text \<open>
  What a schema statement does on a database that has the tables: nothing to their rows, at most numbers are taken.
\<close>

definition idempotent_schema :: "('f hub_usage, unit) stmt \<Rightarrow> bool" where
  "idempotent_schema schema \<longleftrightarrow> (\<forall>s. same_keys s (snd (schema s)) \<and> pg_devices (snd (schema s)) = pg_devices s)"


section \<open>Revocation is final\<close>

definition barred :: "string \<Rightarrow> 'u pg \<Rightarrow> bool" where
  "barred serial s \<longleftrightarrow> (\<forall>dv \<in> set (pg_devices s). dv_cert_serial dv = Some serial \<longrightarrow> dv_revoked_at dv \<noteq> None)"

definition bar_step :: "string \<Rightarrow> 'u pg \<Rightarrow> 'u pg \<Rightarrow> bool" where
  "bar_step serial s t \<longleftrightarrow> (barred serial s \<longrightarrow> barred serial t)"

definition issues :: "string \<Rightarrow> 'f cp_op \<Rightarrow> bool" where
  "issues serial c = (case c of IssueCertificate _ _ serial' _ _ \<Rightarrow> serial' = serial | _ \<Rightarrow> False)"

lemma bar_same: "pg_devices t = pg_devices s \<Longrightarrow> bar_step serial s t"
  by (simp add: bar_step_def barred_def)

interpretation bar: durable "bar_step serial" for serial
  by unfold_locales (auto simp: bar_step_def barred_def)

lemma bar_insert_device: "bar_step serial s (snd (insert_device tn key now s))"
  by (auto simp: bar_step_def barred_def insert_device_def nextval_def Let_def)

interpretation bar: control_plane_relation "bar_step serial" "\<lambda>c. \<not> issues serial c" for serial
proof
  show "bar_step serial s (snd (insert_tenant slug now s))" for s :: "'a hub_usage pg" and slug now
    by (rule bar_same) (simp add: insert_tenant_def nextval_def Let_def)
  show "bar_step serial s (snd (insert_device tn key now s))" for s :: "'a hub_usage pg" and tn key now
    by (rule bar_insert_device)
  show "bar_step serial s (snd (insert_grant dc uc tn csr now s))" for s :: "'a hub_usage pg" and dc uc tn csr now
    by (rule bar_same) (simp add: insert_grant_def nextval_def Let_def)
  show "bar_step serial s (snd (set_revoked i now s))" for s :: "'a hub_usage pg" and i now
    by (auto simp: bar_step_def barred_def set_revoked_def Let_def update_where_def)
  show "bar_step serial s (snd (set_certificate i pem serial' issued expiry s))"
    if "\<not> issues serial (IssueCertificate i pem serial' issued expiry :: 'a cp_op)" for s :: "'a hub_usage pg" and i pem serial' issued expiry
    using that by (auto simp: bar_step_def barred_def set_certificate_def issues_def update_where_def)
  show "bar.moves serial (approve_new g key :: ('a hub_usage, device) cp)" for g key
  proof -
    have "bar.moves serial (register_device tn key :: ('a hub_usage, device) cp)" for tn
      unfolding register_device_def [abs_def]
      by (rule bar.moves_now [where q = db_now and m = "\<lambda>t. execute (insert_device tn key t)"])
        (rule bar.moves_execute, rule bar_insert_device)
    moreover have "bar.moves serial (execute (set_approved i j) :: ('a hub_usage, nat) cp)" for i j
      by (rule bar.moves_execute, rule bar_same) (simp add: set_approved_def case_prod_beta)
    ultimately show ?thesis unfolding approve_new_def by (intro bar.moves_bind bar.moves_basic)
  qed
qed (rule bar_same)

lemma barred_entitled: "barred serial s \<Longrightarrow> entitled s serial slug = None"
  by (auto simp: entitled_def barred_def dest!: find_holds split: option.splits)

lemma transaction_Inr:
  assumes "transaction body d = (Inr a, d1)"
  obtains d0 d2 where "db_pg d0 = db_pg d" "db_now d0 = db_now d" "body d0 = (Inr a, d2)" "db_pg d1 = db_pg d2"
proof -
  obtain d0 where d0: "execute (select (\<lambda>_. ())) d = (Inr (), d0)"
    and rest: "(case body d0 of (Inl e, d1) \<Rightarrow> (Inl e, rollback d0 d1)
        | (Inr a, d1) \<Rightarrow> (let d2 = d1\<lparr>db_calls := Suc (db_calls d1)\<rparr> in
             case db_fault d1 (db_calls d1) of None \<Rightarrow> (Inr a, d2)
             | Some (e, applied) \<Rightarrow> (Inl (Postgres e), if applied then d2 else rollback d0 d2))) = (Inr a, d1)"
    using assms unfolding transaction_def cp_bind_Inr by auto
  have "db_pg d0 = db_pg d" "db_now d0 = db_now d"
    using d0 by (auto simp: execute_def select_def Let_def split: option.splits if_splits)
  then show ?thesis
    using that rest by (cases "body d0") (auto simp: Let_def split: sum.splits option.splits if_splits)
qed

lemma revoke_device_ok:
  assumes "tables_ok (db_pg d)" "dv \<in> set (pg_devices (db_pg d))" "dv_cert_serial dv = Some serial"
    and "revoke_device (dv_id dv) d = (Inr (), d1)"
  shows "barred serial (db_pg d1)"
    and "dv_revoked_at dv = None \<Longrightarrow> (NOTIFY_CHANNEL, serial) \<in> set (pg_notified (db_pg d1))"
proof -
  let ?hit = "\<lambda>e. dv_id e = dv_id dv \<and> dv_revoked_at e = None"
  have ids: "distinct (map dv_id (pg_devices (db_pg d)))" and serials: "distinct (List.map_filter dv_cert_serial (pg_devices (db_pg d)))"
    using assms(1) by (simp_all add: tables_ok_def keys_ok_def)
  have one: "e = dv" if "e \<in> set (pg_devices (db_pg d))" "dv_id e = dv_id dv" for e
    using ids that assms(2) by (auto simp: distinct_map dest: inj_onD)
  have holder: "e = dv" if e: "e \<in> set (pg_devices (db_pg d))" "dv_cert_serial e = Some serial" for e
  proof -
    have "inj_on (\<lambda>e. the (dv_cert_serial e)) (set (filter (\<lambda>e. dv_cert_serial e \<noteq> None) (pg_devices (db_pg d))))"
      using serials by (simp add: map_filter_def distinct_map comp_def)
    then show ?thesis by (rule inj_onD) (use e assms(2,3) in auto)
  qed
  obtain d0 d2 where t: "db_pg d0 = db_pg d" "db_now d0 = db_now d" "db_pg d1 = db_pg d2"
    "cp_bind (execute (set_revoked (dv_id dv) (db_now d0))) (\<lambda>row.
         case row of Some (Some serial) \<Rightarrow> execute (pg_notify NOTIFY_CHANNEL serial) | _ \<Rightarrow> cp_ret ()) d0 = (Inr (), d2)"
    using assms(4) unfolding revoke_device_def by (rule transaction_Inr)
  obtain row d3 where d3: "execute (set_revoked (dv_id dv) (db_now d0)) d0 = (Inr row, d3)"
    "(case row of Some (Some serial) \<Rightarrow> execute (pg_notify NOTIFY_CHANNEL serial) | _ \<Rightarrow> cp_ret ()) d3 = (Inr (), d2)"
    using t(4) unfolding cp_bind_Inr by blast
  have row: "row = map_option dv_cert_serial (List.find ?hit (pg_devices (db_pg d)))"
    "pg_devices (db_pg d3) = map (\<lambda>e. if ?hit e then e\<lparr>dv_revoked_at := Some (db_now d0)\<rparr> else e) (pg_devices (db_pg d))"
    using d3(1) t(1) by (auto simp: execute_Inr set_revoked_def Let_def update_where_def)
  have same: "pg_devices (db_pg d2) = pg_devices (db_pg d3)"
    using d3(2) by (auto simp: execute_Inr pg_notify_def split: option.splits if_splits)
  show "barred serial (db_pg d1)"
    unfolding barred_def t(3) same row(2) using one holder by fastforce
  assume new: "dv_revoked_at dv = None"
  have "List.find ?hit (pg_devices (db_pg d)) = Some dv"
  proof (cases "List.find ?hit (pg_devices (db_pg d))")
    case None
    then show ?thesis using new assms(2) by (auto simp: find_None_iff)
  next
    case (Some e)
    then show ?thesis using find_holds [OF Some] one by auto
  qed
  then have "execute (pg_notify NOTIFY_CHANNEL serial) d3 = (Inr (), d2)" using d3(2) row(1) assms(3) by simp
  then show "(NOTIFY_CHANNEL, serial) \<in> set (pg_notified (db_pg d1))"
    unfolding t(3) by (auto simp: execute_Inr pg_notify_def split: if_splits)
qed

text \<open>
  C25. A revocation is final. Once the control plane reported a device as revoked, the pods are never reached with
  its certificate again: after any history of operations with any failing calls, in which that serial number is not
  issued anew, every git request with the certificate leaves the pods alone and is answered with an error. And if
  the device was not revoked before, the notification that closes its open connections has been sent.
\<close>

theorem revocation_is_final:
  assumes "idempotent_schema schema" "tables_ok (db_pg d)"
    and "dv \<in> set (pg_devices (db_pg d))" "dv_cert_serial dv = Some serial" "revoke_device (dv_id dv) d = (Inr (), d1)"
    and "list_all (\<lambda>(now, c). \<not> issues serial c) cs"
    and "keeps_rows (wb_schema wb)" "Option.bind peer_cert (cert_serial_hex (wb_x509 wb)) = Some serial"
  shows "(case handle_git_http wb po request meth route repos_root img peer_cert (cp_history schema fl cs d1, p) of
      (answer, d', p') \<Rightarrow> p' = p \<and> answer \<in> {status_only 401, status_only 404, status_only 405, status_only 500})
    \<and> (dv_revoked_at dv = None \<longrightarrow> (NOTIFY_CHANNEL, serial) \<in> set (pg_notified (db_pg d1)))"
proof -
  have "bar_step serial (db_pg d1) (db_pg (cp_history schema fl cs d1))"
    by (rule bar.moves_history [OF _ assms(6)]) (use assms(1) in \<open>simp add: idempotent_schema_def\<close>)
  then have "barred serial (db_pg (cp_history schema fl cs d1))"
    using revoke_device_ok(1) [OF assms(2-5)] by (simp add: bar_step_def)
  then have "entitled (db_pg (cp_history schema fl cs d1)) serial (rt_tenant_slug route) = None" by (rule barred_entitled)
  then show ?thesis
    using handle_git_http_entitled [OF assms(7), where po = po and request = request and meth = meth and route = route
        and repos_root = repos_root and img = img and peer_cert = peer_cert and d = "cp_history schema fl cs d1" and p = p]
      assms(8) revoke_device_ok(2) [OF assms(2-5)]
    by simp
qed

text \<open>The two tenants and the device of the earlier example, with the usage tables of a new hub.\<close>

definition demo_hub :: "nat hub_usage db" where
  "demo_hub = \<lparr>db_pg = \<lparr>pg_tenants = pg_tenants (db_pg demo_db), pg_devices = pg_devices (db_pg demo_db), pg_grants = [],
       pg_resets = [], pg_notified = [], pg_seqs = (\<lambda>_. 3), pg_usage = hub_usage_schema\<rparr>,
     db_now = 9, db_url = True, db_calls = 0, db_fault = (\<lambda>n. if n = 5 then Some (''closed'', True) else None)\<rparr>"

definition demo_floats :: "nat float_ops" where
  "demo_floats = \<lparr>fl_zero = 0, fl_add = (+), fl_min = min, fl_max = max\<rparr>"

lemma demo_hub_holds:
  "idempotent_schema (\<lambda>s :: 'f hub_usage pg. (Inr (), s))" "tables_ok (db_pg demo_hub)"
proof -
  show "idempotent_schema (\<lambda>s :: 'f hub_usage pg. (Inr (), s))" by (simp add: idempotent_schema_def same_keys_def)
  show "tables_ok (db_pg demo_hub)"
    by (simp add: tables_ok_def keys_ok_def demo_hub_def demo_db_def Let_def map_filter_simps)
qed


theorem revocation_is_final_witness:
  "case handle_git_http demo_web demo_pods \<lparr>in_headers = [], in_body = []\<rparr> ''GET''
       \<lparr>rt_tenant_slug = ''bob'', rt_endpoint = ''info/refs'', rt_query = []\<rparr> ''/repos'' ''img'' (Some ''der'')
       (cp_history (\<lambda>s. (Inr (), s)) demo_floats [(10, RegisterDevice 1 ''ssh-ed25519 BBBB'')] (snd (revoke_device 1 demo_hub)), 0)
   of (_, _, asked) \<Rightarrow> asked = 0"
proof -
  obtain dv where dv: "pg_devices (db_pg demo_hub) = [dv]" "dv_id dv = 1" "dv_cert_serial dv = Some ''07''"
    by (simp add: demo_hub_def demo_db_def Let_def)
  have "fst (revoke_device 1 demo_hub) = Inr ()" by code_simp
  then have ok: "revoke_device (dv_id dv) demo_hub = (Inr (), snd (revoke_device 1 demo_hub))"
    by (simp add: dv(2) prod_eq_iff)
  have unissued: "list_all (\<lambda>(now, c). \<not> issues ''07'' c) [(10, RegisterDevice 1 ''ssh-ed25519 BBBB'' :: nat cp_op)]"
    by (simp add: issues_def)
  have keeps: "keeps_rows (wb_schema (demo_web :: nat hub_usage web))" by (simp add: keeps_rows_def demo_web_def)
  have serial: "Option.bind (Some ''der'') (cert_serial_hex (wb_x509 (demo_web :: nat hub_usage web))) = Some ''07''" by code_simp
  have held: "dv \<in> set (pg_devices (db_pg demo_hub))" by (simp add: dv(1))
  show ?thesis
    using revocation_is_final [OF demo_hub_holds held dv(3) ok unissued keeps serial, where fl = demo_floats and po = demo_pods
        and request = "\<lparr>in_headers = [], in_body = []\<rparr>" and meth = "''GET''" and repos_root = "''/repos''" and img = "''img''"
        and route = "\<lparr>rt_tenant_slug = ''bob'', rt_endpoint = ''info/refs'', rt_query = []\<rparr>" and p = 0]
    by (auto split: prod.splits)
qed

end
