(* ===== verification/HubMainProps.thy ===== *)
theory HubMainProps
  imports HubMain CpInv
begin

text \<open>
  The index worker of the hub (the index-worker arm of crates/wkp-hub/src/main.rs): it catches up with the head of
  a tenant's repository, and what a listing that fails once makes of the published index.
\<close>

section \<open>Ticks at a head\<close>

text \<open>While the world is as \<open>P\<close> says, the repository of the tenant is at the commit \<open>h\<close>.\<close>

definition head_is :: "('f, 'g) hub_env \<Rightarrow> string \<Rightarrow> ('g world \<Rightarrow> bool) \<Rightarrow> string \<Rightarrow> bool" where
  "head_is he slug P h \<longleftrightarrow>
     (\<forall>w. P w \<longrightarrow> (\<exists>w'. current_head (he_git he) (repos_root he) slug w = (Inr (Some h), w') \<and> P w'))"

lemma tick_at_last_head:
  assumes "head_is he slug P h" "P (hs_world s)"
  obtains s' where "worker_tick he slug (Some h, s) = Inr (([], []), Some h, s')" "hs_index s' = hs_index s" "P (hs_world s')"
proof -
  obtain w where "current_head (he_git he) (repos_root he) slug (hs_world s) = (Inr (Some h), w)" "P w"
    using assms unfolding head_is_def by blast
  then show ?thesis using that [of "s\<lparr>hs_world := w\<rparr>"] by (simp add: worker_tick_def)
qed

lemma loop_at_last_head:
  assumes "head_is he slug P h" "P (hs_world s)" "\<forall>c \<in> set changes. \<forall>w. P w \<longrightarrow> P (c w)"
  shows "\<exists>s'. worker_loop he slug changes (Some h, s) = Inr (Some h, s') \<and> hs_index s' = hs_index s"
  using assms(2,3)
proof (induction changes arbitrary: s)
  case Nil
  show ?case by (rule tick_at_last_head [OF assms(1) Nil(1)]) auto
next
  case (Cons c changes)
  obtain s1 where s1: "worker_tick he slug (Some h, s) = Inr (([], []), Some h, s1)" "hs_index s1 = hs_index s" "P (hs_world s1)"
    by (rule tick_at_last_head [OF assms(1) Cons.prems(1)])
  then show ?case using Cons.IH [of "s1\<lparr>hs_world := c (hs_world s1)\<rparr>"] Cons.prems(2) by simp
qed

text \<open>The ticks after one that remembered the head leave the index of that tick.\<close>

lemma loop_after_tick:
  assumes "head_is he slug P h" "\<forall>c \<in> set changes. \<forall>w. P w \<longrightarrow> P (c w)"
    and "worker_tick he slug ls = Inr (out, Some h, s')" "P (hs_world s')"
  shows "\<exists>s''. worker_loop he slug changes ls = Inr (Some h, s'') \<and> hs_index s'' = hs_index s'"
proof (cases changes)
  case Nil
  then show ?thesis using assms(3) by simp
next
  case (Cons c changes')
  then show ?thesis
    using loop_at_last_head [OF assms(1), of "s'\<lparr>hs_world := c (hs_world s')\<rparr>" changes'] assms(2-4) by simp
qed

text \<open>A tick that finds another head than the one it remembers.\<close>

lemma tick_new_head:
  assumes "current_head (he_git he) (repos_root he) slug (hs_world s) = (Inr (Some h), w)" "last_head \<noteq> Some h"
    and "index_tenant (he_git he) (he_today he) (repos_root he) slug (w, hs_index s slug) = (Inr summary, w', published)"
  shows "\<exists>out. worker_tick he slug (last_head, s)
    = Inr (out, Some h, s\<lparr>hs_world := w', hs_index := (hs_index s)(slug := published)\<rparr>)"
  using assms by (simp add: worker_tick_def run_index_tenant_def Let_def)

section \<open>Catching up\<close>

text \<open>
  C26. The index worker catches up. From whatever it remembers and whatever index is published, once the
  repository of its tenant rests at a commit other than the one indexed last and git serves its files, the next
  tick publishes the index of exactly the files that are shared, and however the rest of the world changes between
  the ticks that follow, the worker goes on at that head with that index, and the index of no other tenant is
  touched.
\<close>

theorem worker_catches_up:
  assumes "head_is he slug P h" "holds_while P (he_git he) (tenant_repo_path (repos_root he) slug) files"
    and "distinct (map fst files)" "P (hs_world s)" "last_head \<noteq> Some h" "\<forall>c \<in> set changes. \<forall>w. P w \<longrightarrow> P (c w)"
  shows "\<exists>s' db. worker_loop he slug changes (last_head, s) = Inr (Some h, s') \<and> hs_index s' = (hs_index s)(slug \<mapsto> db)
    \<and> index_inv db
    \<and> item_view db = items_view (he_today he) (map (\<lambda>(path, blob). tenant_item path blob) (shared_files files))"
proof -
  obtain w where w: "current_head (he_git he) (repos_root he) slug (hs_world s) = (Inr (Some h), w)" "P w"
    using assms(1,4) unfolding head_is_def by blast
  obtain w' db where run: "index_tenant (he_git he) (he_today he) (repos_root he) slug (w, hs_index s slug)
      = (Inr \<lparr>ix_indexed = map fst (shared_files files), ix_skipped_private = map fst (private_files files)\<rparr>, w', Some db)"
    "P w'" "index_inv db"
    "item_view db = items_view (he_today he) (map (\<lambda>(path, blob). tenant_item path blob) (shared_files files))"
    by (rule index_tenant_while [OF assms(2,3) w(2)])
  obtain out where "worker_tick he slug (last_head, s)
      = Inr (out, Some h, s\<lparr>hs_world := w', hs_index := (hs_index s)(slug \<mapsto> db)\<rparr>)"
    using tick_new_head [OF w(1) assms(5) run(1)] by blast
  from loop_after_tick [OF assms(1,6) this] run(2)
  obtain s'' where "worker_loop he slug changes (last_head, s) = Inr (Some h, s'')" "hs_index s'' = (hs_index s)(slug \<mapsto> db)"
    by auto
  then show ?thesis using run(3,4) by blast
qed

section \<open>A listing that fails\<close>

lemma index_tenant_unlisted:
  assumes "list_files_at_ref git (tenant_repo_path root slug) ''HEAD'' w = (Inl e, w')"
  shows "\<exists>db. index_tenant git today root slug (w, published) = (Inr \<lparr>ix_indexed = [], ix_skipped_private = []\<rparr>, w', Some db)
    \<and> item_view db = Map.empty"
proof -
  obtain db where db: "populate today [] = Inr db" using populate_cases(1) [where items = "[]" and today = today] by auto
  then have "item_view db = Map.empty" using populate_cases(2) [OF db] by (simp add: index.overlay_def fun_eq_iff)
  then show ?thesis using db by (simp add: index_tenant_def attempt_def assms build_index_def ret_def)
qed

text \<open>
  A listing that fails once empties the index for as long as the head stays. The indexer takes a failure to
  list the files of HEAD for a repository without commits: the tick publishes an empty index in place of the one
  there was, reports no error and remembers the head, so that no later tick at that head indexes again, however
  well git answers then.
\<close>

lemma worker_fooled_by_listing:
  assumes "current_head (he_git he) (repos_root he) slug (hs_world s) = (Inr (Some h), w)" "last_head \<noteq> Some h"
    and "list_files_at_ref (he_git he) (tenant_repo_path (repos_root he) slug) ''HEAD'' w = (Inl e, w')"
    and "head_is he slug P h" "P w'" "\<forall>c \<in> set changes. \<forall>w. P w \<longrightarrow> P (c w)"
  shows "\<exists>s' db. worker_loop he slug changes (last_head, s) = Inr (Some h, s') \<and> hs_index s' slug = Some db
    \<and> item_view db = Map.empty"
proof -
  obtain db where run: "index_tenant (he_git he) (he_today he) (repos_root he) slug (w, hs_index s slug)
      = (Inr \<lparr>ix_indexed = [], ix_skipped_private = []\<rparr>, w', Some db)" "item_view db = Map.empty"
    using index_tenant_unlisted [OF assms(3)] by blast
  obtain out where "worker_tick he slug (last_head, s)
      = Inr (out, Some h, s\<lparr>hs_world := w', hs_index := (hs_index s)(slug \<mapsto> db)\<rparr>)"
    using tick_new_head [OF assms(1,2) run(1)] by blast
  from loop_after_tick [OF assms(4,6) this] assms(5)
  obtain s'' where "worker_loop he slug changes (last_head, s) = Inr (Some h, s'')" "hs_index s'' = (hs_index s)(slug \<mapsto> db)"
    by auto
  then show ?thesis using run(2) by simp
qed

section \<open>A tenant with two files\<close>

text \<open>A git that serves the two files of the earlier example; its state is how often listing them still fails.\<close>

definition moody_git :: "nat git" where
  "moody_git args stdin w =
     (case args of
        [_, _, cmd, _, revision] \<Rightarrow>
          (case map_of two_files (drop 5 revision) of Some blob \<Rightarrow> GitExit True blob [] | None \<Rightarrow> GitExit False [] ''missing'', w)
      | [_, _, _, _] \<Rightarrow> (GitExit True (replicate 40 (CHR ''a'')) [], w)
      | _ \<Rightarrow>
          (case wd_git w of
             0 \<Rightarrow> (GitExit True (unlines (map fst two_files)) [], w)
           | Suc n \<Rightarrow> (GitExit False [] ''fatal: unable to read tree'', w\<lparr>wd_git := n\<rparr>)))"

definition demo_env :: "(nat, nat) hub_env" where
  "demo_env = \<lparr>he_var = (\<lambda>_. Unset), he_schema = (\<lambda>s. (Inr (), s)), he_git = moody_git,
     he_podman = (\<lambda>_ _ w. (GitExit True [] [], w)), he_kubectl = \<lparr>kc_run = (\<lambda>_ w. (GitExit True [] [], w)), kc_apply = (\<lambda>_ _ w. (ApplyExit True [], w))\<rparr>, he_np = (\<lambda>_. False),
     he_x509 = wb_x509 (demo_web :: unit web), he_ca_now = 0, he_today = ''2026-01-01'', he_now_secs = 0, he_elapsed_ms = 1,
     he_of_count = id, he_float = demo_floats, he_average = (\<lambda>s n. s div nat n), he_show_float = (\<lambda>_. show_nat),
     he_to_json = (\<lambda>_. []), he_sqlite = [], he_serve = (\<lambda>_ _ _ _ s. (Inr (), s)), he_serve_tenant = (\<lambda>_ _ _ s. (Inr (), s))\<rparr>"

definition moody_state :: "nat \<Rightarrow> (nat, nat) hub_state" where
  "moody_state n = \<lparr>hs_db = demo_hub, hs_world = \<lparr>wd_files = Map.empty, wd_dirs = [], wd_fault = (\<lambda>_ _. None), wd_nanos = 0, wd_pid = 1,
     wd_git = n, wd_log = []\<rparr>, hs_index = Map.empty\<rparr>"

definition forty_a :: string where
  "forty_a = replicate 40 (CHR ''a'')"

lemma moody_head:
  "current_head (he_git demo_env) (repos_root demo_env) slug w = (Inr (Some forty_a), w\<lparr>wd_log := wd_log w @ [[''rev-parse'', ''HEAD'']]\<rparr>)"
proof -
  have "trim forty_a = forty_a" "length forty_a = 40 \<and> list_all is_ascii_hexdigit forty_a" by code_simp+
  then show ?thesis
    by (simp add: current_head_def current_commit_def andthen_def attempt_def ret_def run_git_stdout_def spawn_git_def demo_env_def
        moody_git_def forty_a_def)
qed

lemma moody_serves:
  "head_is demo_env slug (\<lambda>w. wd_git w = n) forty_a" "holds_while (\<lambda>w. wd_git w = 0) (he_git demo_env) repo two_files"
proof -
  have names: "lines (unlines (map fst two_files)) = map fst two_files" by code_simp
  show "head_is demo_env slug (\<lambda>w. wd_git w = n) forty_a" by (simp add: head_is_def moody_head)
  show "holds_while (\<lambda>w. wd_git w = 0) (he_git demo_env) repo two_files"
    unfolding holds_while_def
  proof (intro conjI allI impI ballI)
    show "\<exists>w'. list_files_at_ref (he_git demo_env) repo ''HEAD'' w = (Inr (map fst two_files), w') \<and> wd_git w' = 0"
      if "wd_git w = 0" for w
      using names that by (simp add: list_files_at_ref_def andthen_def attempt_def ret_def run_git_stdout_def spawn_git_def demo_env_def
          moody_git_def)
    show "case f of (path, blob) \<Rightarrow>
        \<exists>w'. read_blob (he_git demo_env) repo (''HEAD:'' @ path) w = (Inr blob, w') \<and> wd_git w' = 0"
      if "wd_git w = 0" "f \<in> set two_files" for f w
      using that by (auto simp: two_files_def read_blob_def run_git_stdout_bytes_def spawn_git_def demo_env_def moody_git_def)
  qed
qed

theorem worker_catches_up_witness:
  "\<exists>s' db. worker_loop demo_env ''alice'' [\<lambda>w. w\<lparr>wd_nanos := 1\<rparr>] (None, moody_state 0) = Inr (Some forty_a, s')
    \<and> hs_index s' ''alice'' = Some db \<and> item_view db ''p.md'' = None"
proof -
  have "shared_files two_files = [(''a.md'', ''note'')]" by code_simp
  then have "items_view today (map (\<lambda>(path, blob). tenant_item path blob) (shared_files two_files)) ''p.md'' = None" for today
    by (simp add: items_view_def tenant_item_def Let_def)
  then show ?thesis
    using worker_catches_up [OF moody_serves two_files_served(2), where slug = "''alice''" and s = "moody_state 0" and last_head = None
        and changes = "[\<lambda>w. w\<lparr>wd_nanos := 1\<rparr>]"]
    by (force simp: moody_state_def)
qed

lemma worker_fooled_by_listing_witness:
  "\<exists>s' db. worker_loop demo_env ''alice'' [id, id, id] (None, moody_state 1) = Inr (Some forty_a, s')
    \<and> hs_index s' ''alice'' = Some db \<and> item_view db = Map.empty"
proof -
  let ?w = "(hs_world (moody_state 1))\<lparr>wd_log := [[''rev-parse'', ''HEAD'']]\<rparr>"
  have "current_head (he_git demo_env) (repos_root demo_env) ''alice'' (hs_world (moody_state 1)) = (Inr (Some forty_a), ?w)"
    by (simp add: moody_head) (simp add: moody_state_def)
  moreover have "\<exists>e w'. list_files_at_ref (he_git demo_env) (tenant_repo_path (repos_root demo_env) ''alice'') ''HEAD'' ?w = (Inl e, w')
      \<and> wd_git w' = 0"
    by (simp add: list_files_at_ref_def andthen_def attempt_def run_git_stdout_def spawn_git_def demo_env_def moody_git_def
        moody_state_def)
  ultimately show ?thesis
    using worker_fooled_by_listing [where he = demo_env and slug = "''alice''" and s = "moody_state 1" and last_head = None
        and h = forty_a and changes = "[id, id, id]", OF _ _ _ moody_serves(1) [where n = 0]]
    by force
qed

end
