(* ===== verification/CliIndex.thy ===== *)
theory CliIndex
  imports CliWrite IndexStore
begin

text \<open>
  \<open>wkp index\<close> (crates/wkp-cli/src/index_cmd.rs): which files of a store are read and put into its index. The
  state is the world and the index file of the store. The feature \<open>embed\<close>, the embedding endpoint, file modes,
  the order in which a hash set is walked and the date are parameters. Warnings on standard error are not modelled.
\<close>

section \<open>Arguments\<close>

record index_options =
  io_path :: string
  io_embed_url :: "string option"
  io_embed_model :: "string option"
  io_embed_key_file :: "string option"

definition index_flag :: "string \<Rightarrow> (string \<Rightarrow> index_options \<Rightarrow> index_options) option" where
  "index_flag arg =
     (if arg = ''--embed-url'' then Some (\<lambda>v a. a\<lparr>io_embed_url := Some v\<rparr>)
      else if arg = ''--embed-model'' then Some (\<lambda>v a. a\<lparr>io_embed_model := Some v\<rparr>)
      else if arg = ''--embed-key-file'' then Some (\<lambda>v a. a\<lparr>io_embed_key_file := Some v\<rparr>)
      else None)"

definition index_other :: "string \<Rightarrow> index_options \<Rightarrow> (string, index_options) result" where
  "index_other arg a = (if \<not> starts_with arg ''-'' then Inr (a\<lparr>io_path := arg\<rparr>) else unrecognized arg a)"

definition parse_index_args :: "(string, string) result \<Rightarrow> string list \<Rightarrow> (string, index_options) result" where
  "parse_index_args cwd args =
     bind_result cwd (\<lambda>path. arg_loop index_flag index_other args
       \<lparr>io_path = path, io_embed_url = None, io_embed_model = None, io_embed_key_file = None\<rparr>)"

section \<open>Parameters and state\<close>

record embed_config =
  ec_url :: string
  ec_api_key :: "string option"
  ec_model :: "string option"

record index_env =
  ie_embed_feature :: bool
  ie_mode :: "string \<Rightarrow> (string, nat) result"
  ie_embed_remote :: "string \<Rightarrow> embed_config \<Rightarrow> (string, f32 list) result"
  ie_order :: "string list \<Rightarrow> string list"
  ie_today :: string

text \<open>
  The index file: SQLite creates an empty one when it opens a path that names no file in a directory that is
  there. The texts of its errors are not modelled.
\<close>

datatype index_file = NoIndex | EmptyIndex | Index index_db

datatype index_cmd_error = Message string | Cannot_open | No_such_table | Update_failed index_error

definition index_file_of :: "index_db option \<Rightarrow> index_file" where
  "index_file_of published = (case published of Some db \<Rightarrow> Index db | None \<Rightarrow> NoIndex)"

definition open_index :: "string \<Rightarrow> 'g world \<Rightarrow> index_file \<Rightarrow> (index_cmd_error, unit) result \<times> index_file" where
  "open_index path w file =
     (case file of
        NoIndex \<Rightarrow>
          if components (join_path path ''.wkp'') \<in> set (wd_dirs w) then (Inr (), EmptyIndex)
          else (Inl Cannot_open, NoIndex)
      | _ \<Rightarrow> (Inr (), file))"

definition tables_of :: "index_file \<Rightarrow> (index_cmd_error, index_db) result" where
  "tables_of file = (case file of Index db \<Rightarrow> Inr db | _ \<Rightarrow> Inl No_such_table)"

definition open_known :: "string \<Rightarrow> 'g world \<Rightarrow> index_file \<Rightarrow> (index_cmd_error, index_db) result \<times> index_file" where
  "open_known path w file =
     (case open_index path w file of (Inl e, file1) \<Rightarrow> (Inl e, file1) | (Inr _, file1) \<Rightarrow> (tables_of file1, file1))"

section \<open>Which paths\<close>

definition is_markdown :: "string \<Rightarrow> bool" where
  "is_markdown p \<longleftrightarrow> extension p = Some ''md''"

text \<open>Sets of paths are lists without duplicates.\<close>

definition current_paths :: "change_set \<Rightarrow> string list \<Rightarrow> string list" where
  "current_paths changes tracked =
     (let current = remdups (filter is_markdown (tracked @ cs_added changes @ map rn_to (cs_renamed changes)));
          gone = cs_deleted changes @ map rn_from (cs_renamed changes)
      in filter (\<lambda>p. p \<notin> set gone) current)"

definition dirty_paths :: "change_set \<Rightarrow> string list" where
  "dirty_paths changes = filter is_markdown (cs_modified changes @ map rn_to (cs_renamed changes))"

section \<open>Embeddings\<close>

definition show_octal3 :: "nat \<Rightarrow> string" where
  "show_octal3 m = show_nat (m div 64) @ show_nat (m div 8 mod 8) @ show_nat (m mod 8)"

definition read_embed_key_file :: "index_env \<Rightarrow> string \<Rightarrow> ('g world, string) prog" where
  "read_embed_key_file env path =
     (case ie_mode env path of
        Inl e \<Rightarrow> err (''--embed-key-file '' @ path @ '': '' @ e)
      | Inr bits \<Rightarrow>
          (let mode = bits mod 512 in
           if mode \<noteq> 384
           then err (''--embed-key-file '' @ path @ '' must be mode 0600 (found '' @ show_octal3 mode
                       @ ''); run `chmod 600 '' @ path @ ''`'')
           else andthen (map_err (\<lambda>e. ''reading --embed-key-file '' @ path @ '': '' @ e) (read_to_string path))
                  (\<lambda>contents. ret (trim contents))))"

definition build_embed_config ::
  "index_env \<Rightarrow> string \<Rightarrow> string option \<Rightarrow> string option \<Rightarrow> ('g world, embed_config) prog" where
  "build_embed_config env embed_url embed_model embed_key_file =
     andthen (case embed_key_file of
                Some p \<Rightarrow> andthen (read_embed_key_file env p) (\<lambda>key. ret (Some key))
              | None \<Rightarrow> ret None)
       (\<lambda>api_key. ret \<lparr>ec_url = embed_url, ec_api_key = api_key, ec_model = embed_model\<rparr>)"

definition embed_text :: "item \<Rightarrow> string" where
  "embed_text item =
     (case fm_title (it_frontmatter item) of Some t \<Rightarrow> t | None \<Rightarrow> []) @ [nl, nl] @ it_body item"

definition embed_item :: "index_env \<Rightarrow> embed_config \<Rightarrow> item \<Rightarrow> item" where
  "embed_item env config item =
     (case ie_embed_remote env (embed_text item) config of
        Inr vector \<Rightarrow> item\<lparr>it_embedding := Some vector\<rparr>
      | Inl _ \<Rightarrow> item)"

definition embed_upserts ::
  "index_env \<Rightarrow> item list \<Rightarrow> string \<Rightarrow> string option \<Rightarrow> string option \<Rightarrow> ('g world, item list) prog" where
  "embed_upserts env items embed_url embed_model embed_key_file =
     (if ie_embed_feature env
      then andthen (build_embed_config env embed_url embed_model embed_key_file)
             (\<lambda>config. ret (map (embed_item env config) items))
      else err (''this binary was built without hybrid search support (rebuild with `--features embed`); ''
             @ ''omit --embed-url to index without embeddings''))"

section \<open>The command\<close>

definition read_item :: "'g git \<Rightarrow> string \<Rightarrow> string \<Rightarrow> ('g world, item option) prog" where
  "read_item git path relative =
     andthen (map_err (\<lambda>e. ''reading '' @ relative @ '': '' @ e) (read_to_string (join_path path relative))) (\<lambda>contents.
     andthen (last_signer_for_path git path relative) (\<lambda>signer.
     let parsed = Frontmatter.parse contents in
     ret (Some \<lparr>it_path = relative, it_frontmatter = pr_frontmatter parsed, it_body = pr_body parsed,
                it_embedding = None,
                it_human_signed = (case signer of Some (_, Human) \<Rightarrow> True | _ \<Rightarrow> False)\<rparr>)))"

record cli_index_summary =
  cx_added :: nat
  cx_modified :: nat
  cx_deleted :: nat

definition index_summary_str :: "cli_index_summary \<Rightarrow> string" where
  "index_summary_str s =
     (if cx_added s = 0 \<and> cx_modified s = 0 \<and> cx_deleted s = 0 then ''wkp: index up to date''
      else ''wkp: indexed '' @ show_nat (cx_added s) @ '' added, '' @ show_nat (cx_modified s) @ '' modified, ''
        @ show_nat (cx_deleted s) @ '' deleted'')"

definition run_index_impl ::
  "index_env \<Rightarrow> 'g git \<Rightarrow> string \<Rightarrow> string option \<Rightarrow> string option \<Rightarrow> string option \<Rightarrow> 'g world \<times> index_file
    \<Rightarrow> (index_cmd_error, cli_index_summary) result \<times> 'g world \<times> index_file" where
  "run_index_impl env git path embed_url embed_model embed_key_file s =
     (case s of (w, file) \<Rightarrow>
      case andthen (detect_changes git path) (\<lambda>changes.
             andthen (list_tracked_files git path) (\<lambda>tracked. ret (changes, tracked))) w of
        (Inl e, w1) \<Rightarrow> (Inl (Message e), w1, file)
      | (Inr (changes, tracked), w1) \<Rightarrow>
          (case open_known path w1 file of
             (Inl e, file1) \<Rightarrow> (Inl e, w1, file1)
           | (Inr db, file1) \<Rightarrow>
               (let current = current_paths changes tracked;
                    known = map snd (db_paths db);
                    walk = ie_order env current;
                    added_paths = filter (\<lambda>p. p \<notin> set known) walk;
                    modified_paths = filter (\<lambda>p. p \<in> set (dirty_paths changes)) (filter (\<lambda>p. p \<in> set known) walk);
                    deleted_paths = filter (\<lambda>p. p \<notin> set current) (ie_order env known)
                in case andthen (collect (read_item git path) (added_paths @ modified_paths)) (\<lambda>upserts.
                          case embed_url of
                            Some url \<Rightarrow> embed_upserts env upserts url embed_model embed_key_file
                          | None \<Rightarrow> ret upserts) w1 of
                     (Inl e, w2) \<Rightarrow> (Inl (Message e), w2, file1)
                   | (Inr upserts, w2) \<Rightarrow>
                       (case update_index (ie_today env) upserts deleted_paths (Some db) of
                          (Inr _, published) \<Rightarrow>
                            (Inr \<lparr>cx_added = length added_paths, cx_modified = length modified_paths,
                                  cx_deleted = length deleted_paths\<rparr>, w2, index_file_of published)
                        | (Inl e, _) \<Rightarrow> (Inl (Update_failed e), w2, file1)))))"

definition run_index_cli ::
  "index_env \<Rightarrow> 'g git \<Rightarrow> index_options \<Rightarrow> 'g world \<times> index_file
    \<Rightarrow> (index_cmd_error, cli_index_summary) result \<times> 'g world \<times> index_file" where
  "run_index_cli env git opts =
     run_index_impl env git (io_path opts) (io_embed_url opts) (io_embed_model opts) (io_embed_key_file opts)"

section \<open>What one run does\<close>

text \<open>
  What git reports while the worlds satisfy \<open>P\<close>, and that its reading commands keep \<open>P\<close>: the changes, the
  tracked files and the signer of the last commit of each path.
\<close>

definition reports ::
  "('g world \<Rightarrow> bool) \<Rightarrow> 'g git \<Rightarrow> string \<Rightarrow> change_set \<Rightarrow> string list \<Rightarrow> (string \<Rightarrow> (string \<times> signer_role) option) \<Rightarrow> bool" where
  "reports P git path changes tracked signer \<longleftrightarrow>
     (\<forall>w. P w \<longrightarrow>
        (\<exists>w'. detect_changes git path w = (Inr changes, w') \<and> P w')
        \<and> (\<exists>w'. list_tracked_files git path w = (Inr tracked, w') \<and> P w')
        \<and> (\<forall>p. \<exists>w'. last_signer_for_path git path p w = (Inr (signer p), w') \<and> P w'))"

definition holds_text :: "string \<Rightarrow> (string \<Rightarrow> string) \<Rightarrow> string list \<Rightarrow> 'g world \<Rightarrow> bool" where
  "holds_text path content ps w \<longleftrightarrow>
     (\<forall>p \<in> set ps. read_to_string (join_path path p) w = (Inr (content p), w))"

definition store_item :: "(string \<Rightarrow> string) \<Rightarrow> (string \<Rightarrow> (string \<times> signer_role) option) \<Rightarrow> string \<Rightarrow> item" where
  "store_item content signer p =
     \<lparr>it_path = p, it_frontmatter = pr_frontmatter (Frontmatter.parse (content p)),
      it_body = pr_body (Frontmatter.parse (content p)), it_embedding = None,
      it_human_signed = (case signer p of Some (_, Human) \<Rightarrow> True | _ \<Rightarrow> False)\<rparr>"

lemma store_item_path [simp]: "it_path (store_item content signer p) = p"
  by (simp add: store_item_def)

lemma read_item_run:
  assumes "reports P git path changes tracked signer" "P w" "read_to_string (join_path path p) w = (Inr (content p), w)"
  shows "\<exists>w'. read_item git path p w = (Inr (Some (store_item content signer p)), w') \<and> P w'"
proof -
  obtain w' where "last_signer_for_path git path p w = (Inr (signer p), w')" "P w'"
    using assms(1,2) unfolding reports_def by blast
  then show ?thesis using assms(3)
    by (intro exI [of _ w']) (simp add: read_item_def andthen_def attempt_def map_err_def Let_def store_item_def)
qed

lemma collect_items_run:
  assumes "reports P git path changes tracked signer" "P w" "\<forall>w. P w \<longrightarrow> holds_text path content ps w"
  shows "\<exists>w'. collect (read_item git path) ps w = (Inr (map (store_item content signer) ps), w') \<and> P w'"
  using assms(2,3)
proof (induction ps arbitrary: w)
  case (Cons p ps)
  have "read_to_string (join_path path p) w = (Inr (content p), w)" using Cons.prems by (simp add: holds_text_def)
  from read_item_run [where content = content and p = p and w = w, OF assms(1) Cons.prems(1) this] obtain w1
    where w1: "read_item git path p w = (Inr (Some (store_item content signer p)), w1)" "P w1" by blast
  have "\<forall>w. P w \<longrightarrow> holds_text path content ps w" using Cons.prems(2) by (simp add: holds_text_def)
  from Cons.IH [OF w1(2) this] obtain w2
    where "collect (read_item git path) ps w1 = (Inr (map (store_item content signer) ps), w2)" "P w2" by blast
  then show ?case using w1(1) by (intro exI [of _ w2]) (simp add: andthen_def attempt_def)
qed simp

text \<open>The row a run leaves for each path, and the paths it counts.\<close>

definition indexed_row ::
  "string \<Rightarrow> string list \<Rightarrow> string list \<Rightarrow> (string \<Rightarrow> string) \<Rightarrow> (string \<Rightarrow> (string \<times> signer_role) option)
    \<Rightarrow> index_db \<Rightarrow> string \<Rightarrow> item_row option" where
  "indexed_row today current dirty content signer db p =
     (if p \<notin> set current then None
      else if p \<in> known_paths db \<and> p \<notin> set dirty then item_view db p
      else item_row today (store_item content signer p))"

definition walks_sets :: "index_env \<Rightarrow> bool" where
  "walks_sets env \<longleftrightarrow> (\<forall>xs. distinct xs \<longrightarrow> distinct (ie_order env xs) \<and> set (ie_order env xs) = set xs)"

text \<open>What a run reads: new paths, and known ones that git reports as changed.\<close>

definition paths_to_read :: "index_db \<Rightarrow> change_set \<Rightarrow> string list \<Rightarrow> string list" where
  "paths_to_read db changes tracked =
     filter (\<lambda>p. p \<notin> known_paths db \<or> p \<in> set (dirty_paths changes)) (current_paths changes tracked)"

lemma distinct_known: "index_inv db \<Longrightarrow> distinct (map snd (db_paths db))"
  by (simp add: index_inv_def keyed_ok_def)

lemma distinct_current: "distinct (current_paths changes tracked)"
  by (simp add: current_paths_def Let_def)

lemma overlay_store_items:
  assumes "distinct ps"
  shows "index.overlay today (map (store_item content signer) ps) m p
     = (if p \<in> set ps then item_row today (store_item content signer p) else m p)"
proof (cases "p \<in> set ps")
  case True
  then show ?thesis
    using index.overlay_distinct [of "map (store_item content signer) ps" "store_item content signer p" today m] assms
    by (simp add: comp_def)
next
  case False
  then have "p \<notin> it_path ` set (map (store_item content signer) ps)" by auto
  then show ?thesis using index.overlay_key [of p "map (store_item content signer) ps" today m] False by simp
qed

lemma index_update_run:
  assumes "index_inv db" "distinct ps" "\<forall>p \<in> set ps. item_row today (store_item content signer p) \<noteq> None"
  obtains db' where "update_index today (map (store_item content signer) ps) dels (Some db) = (Inr (), Some db')" "index_inv db'"
    "\<And>p. item_view db' p = (if p \<in> set ps then item_row today (store_item content signer p)
       else if p \<in> set dels then None else item_view db p)"
proof -
  let ?ups = "map (store_item content signer) ps"
  have "\<forall>item \<in> set ?ups. item_row today item \<noteq> None" using assms(3) by auto
  then obtain published where pub: "update_index today ?ups dels (Some db) = (Inr (), published)"
    using update_cases(1) [OF assms(1), of today ?ups dels] by blast
  from update_cases(2) [OF assms(1) this] obtain db' where db': "published = Some db'" "index_inv db'"
    "item_view db' = index.overlay today ?ups (\<lambda>p. if p \<in> set dels then None else item_view db p)" by blast
  then show ?thesis using that [of db'] pub by (simp add: overlay_store_items [OF assms(2)])
qed

lemma index_run:
  assumes "walks_sets env" "reports P git path changes tracked signer" "P w"
    and "\<forall>w. P w \<longrightarrow> holds_text path content (paths_to_read db changes tracked) w"
    and "\<forall>p \<in> set (paths_to_read db changes tracked). item_row (ie_today env) (store_item content signer p) \<noteq> None"
    and "index_inv db"
  obtains w' db' where "run_index_impl env git path None embed_model embed_key_file (w, Index db)
      = (Inr \<lparr>cx_added = card (set (current_paths changes tracked) - known_paths db),
              cx_modified = card (set (current_paths changes tracked) \<inter> known_paths db \<inter> set (dirty_paths changes)),
              cx_deleted = card (known_paths db - set (current_paths changes tracked))\<rparr>, w', Index db')"
    "P w'" "index_inv db'"
    "item_view db' = indexed_row (ie_today env) (current_paths changes tracked) (dirty_paths changes) content signer db"
proof -
  let ?current = "current_paths changes tracked" and ?known = "map snd (db_paths db)"
  let ?walk = "ie_order env ?current"
  let ?added = "filter (\<lambda>p. p \<notin> set ?known) ?walk"
  let ?modified = "filter (\<lambda>p. p \<in> set (dirty_paths changes)) (filter (\<lambda>p. p \<in> set ?known) ?walk)"
  let ?deleted = "filter (\<lambda>p. p \<notin> set ?current) (ie_order env ?known)"
  have walk: "distinct ?walk" "set ?walk = set ?current" "distinct (ie_order env ?known)" "set (ie_order env ?known) = set ?known"
    using assms(1) distinct_current distinct_known [OF assms(6)] unfolding walks_sets_def by blast+
  have known: "set ?known = known_paths db" by (simp add: known_paths_def)
  obtain w1 where w1: "detect_changes git path w = (Inr changes, w1)" "P w1" using assms(2,3) unfolding reports_def by blast
  then obtain w2 where w2: "list_tracked_files git path w1 = (Inr tracked, w2)" "P w2" using assms(2) unfolding reports_def by blast
  have "set (?added @ ?modified) \<subseteq> set (paths_to_read db changes tracked)" using walk(2) by (auto simp: paths_to_read_def known_paths_def)
  then have texts: "\<forall>w. P w \<longrightarrow> holds_text path content (?added @ ?modified) w"
    and rows: "\<forall>p \<in> set (?added @ ?modified). item_row (ie_today env) (store_item content signer p) \<noteq> None"
    using assms(4,5) unfolding holds_text_def by blast+
  obtain w3 where w3: "collect (read_item git path) (?added @ ?modified) w2
      = (Inr (map (store_item content signer) (?added @ ?modified)), w3)" "P w3"
    using collect_items_run [OF assms(2) w2(2) texts] by blast
  have "distinct (?added @ ?modified)" using walk(1) by auto
  from index_update_run [OF assms(6) this rows, of ?deleted] obtain db' where db':
    "update_index (ie_today env) (map (store_item content signer) (?added @ ?modified)) ?deleted (Some db) = (Inr (), Some db')"
    "index_inv db'" "\<And>p. item_view db' p = (if p \<in> set (?added @ ?modified) then item_row (ie_today env) (store_item content signer p)
       else if p \<in> set ?deleted then None else item_view db p)" by blast
  have counts: "length ?added = card (set ?current - known_paths db)"
    "length ?modified = card (set ?current \<inter> known_paths db \<inter> set (dirty_paths changes))"
    "length ?deleted = card (known_paths db - set ?current)"
    using walk known by (simp_all add: distinct_length_filter Int_def set_diff_eq) (auto intro!: arg_cong [where f = card])
  have "run_index_impl env git path None embed_model embed_key_file (w, Index db)
      = (Inr \<lparr>cx_added = length ?added, cx_modified = length ?modified, cx_deleted = length ?deleted\<rparr>, w3, Index db')"
    using w1(1) w2(1) w3(1) db'(1)
    by (simp add: run_index_impl_def andthen_def attempt_def open_known_def open_index_def tables_of_def Let_def index_file_of_def del: filter_filter)
  moreover have "item_view db' p = indexed_row (ie_today env) ?current (dirty_paths changes) content signer db p" for p
    using walk known item_view_None [OF assms(6), of p] by (auto simp: db'(3) indexed_row_def)
  ultimately show ?thesis using that [of w3 db'] w3(2) db'(2) counts by (simp add: fun_eq_iff)
qed

text \<open>
  C29. One run of \<open>wkp index\<close>, exactly. While git reports the changes, the tracked files and the last signers, and
  the files that are new or reported as changed can be read, a run succeeds and leaves an index with its
  invariant in which every Markdown path of the store that is new or reported as changed has the row made of
  the text in the working tree and of the signer of the last commit of its path, every other path of the store keeps its row,
  and no other path has a row; the summary counts the three kinds. The order in which hash sets are walked does
  not matter.
\<close>

theorem wkp_index_exact:
  assumes "walks_sets env" "reports P git path changes tracked signer" "P w"
    and "\<forall>w. P w \<longrightarrow> holds_text path content (paths_to_read db changes tracked) w"
    and "\<forall>p \<in> set (paths_to_read db changes tracked). item_row (ie_today env) (store_item content signer p) \<noteq> None"
    and "index_inv db"
  shows "\<exists>w' db'. run_index_impl env git path None embed_model embed_key_file (w, Index db)
      = (Inr \<lparr>cx_added = card (set (current_paths changes tracked) - known_paths db),
              cx_modified = card (set (current_paths changes tracked) \<inter> known_paths db \<inter> set (dirty_paths changes)),
              cx_deleted = card (known_paths db - set (current_paths changes tracked))\<rparr>, w', Index db')
    \<and> index_inv db'
    \<and> item_view db' = indexed_row (ie_today env) (current_paths changes tracked) (dirty_paths changes) content signer db"
  using index_run [OF assms] by metis

text \<open>A clean status: everything is committed.\<close>

lemma clean_paths:
  "current_paths no_changes tracked = remdups (filter is_markdown tracked)" "dirty_paths no_changes = []"
  by (simp_all add: current_paths_def dirty_paths_def no_changes_def)

lemma clean_run:
  assumes "walks_sets env" "reports P git path no_changes tracked signer" "P w"
    and "index_inv db" "known_paths db = set (filter is_markdown tracked)"
  obtains w' db' where "run_index_impl env git path None embed_model embed_key_file (w, Index db)
      = (Inr \<lparr>cx_added = 0, cx_modified = 0, cx_deleted = 0\<rparr>, w', Index db')" "index_inv db'" "item_view db' = item_view db"
proof -
  have none: "paths_to_read db no_changes tracked = []" using assms(5) by (simp add: paths_to_read_def clean_paths filter_empty_conv)
  have texts: "\<forall>w. P w \<longrightarrow> holds_text path (\<lambda>_. []) (paths_to_read db no_changes tracked) w" by (simp add: none holds_text_def)
  have rows: "\<forall>p \<in> set (paths_to_read db no_changes tracked). item_row (ie_today env) (store_item (\<lambda>_. []) signer p) \<noteq> None"
    by (simp add: none)
  obtain w' db' where run: "run_index_impl env git path None embed_model embed_key_file (w, Index db)
      = (Inr \<lparr>cx_added = card (set (current_paths no_changes tracked) - known_paths db),
              cx_modified = card (set (current_paths no_changes tracked) \<inter> known_paths db \<inter> set (dirty_paths no_changes)),
              cx_deleted = card (known_paths db - set (current_paths no_changes tracked))\<rparr>, w', Index db')"
    "P w'" "index_inv db'"
    "item_view db' = indexed_row (ie_today env) (current_paths no_changes tracked) (dirty_paths no_changes) (\<lambda>_. []) signer db"
    by (rule index_run [OF assms(1,2,3) texts rows assms(4)])
  have "indexed_row (ie_today env) (current_paths no_changes tracked) [] (\<lambda>_. []) signer db p = item_view db p" for p
    using iffD2 [OF item_view_None [OF assms(4), of p]] by (cases "p \<in> known_paths db") (simp_all add: indexed_row_def clean_paths assms(5))
  then show ?thesis using that [of w' db'] run assms(5) by (simp add: clean_paths fun_eq_iff)
qed

text \<open>
  What was committed between two runs is not indexed. When git reports no change and the paths of the
  store are those the index knows, a run reports that the index is up to date and keeps every row, whatever the files say: an
  item that was changed and committed, or that a synchronization brought, keeps its old row, and
  with it its old tier, under every later run until its working copy is changed again.
\<close>

lemma committed_change_not_indexed:
  assumes "walks_sets env" "reports P git path no_changes tracked signer" "P w"
    and "index_inv db" "known_paths db = set (filter is_markdown tracked)"
  shows "\<exists>summary w' db'. run_index_impl env git path None embed_model embed_key_file (w, Index db) = (Inr summary, w', Index db')
    \<and> index_summary_str summary = ''wkp: index up to date'' \<and> item_view db' = item_view db"
proof -
  obtain w' db' where "run_index_impl env git path None embed_model embed_key_file (w, Index db)
      = (Inr \<lparr>cx_added = 0, cx_modified = 0, cx_deleted = 0\<rparr>, w', Index db')" "item_view db' = item_view db"
    by (rule clean_run [OF assms])
  then show ?thesis by (auto simp: index_summary_str_def)
qed

text \<open>
  C30. An unsigned edit of a signed item is injected. Take an item whose last commit a human signed, and edit
  its working copy in any way that keeps its type. A run of \<open>wkp index\<close> gives the edited
  text the tier of signed content, here tier 0; and once the edit is committed, by anyone and unsigned, another run leaves
  it there.
\<close>

theorem unsigned_edit_injected:
  assumes "walks_sets env" "reports P git path changes tracked signer" "P w"
    and "\<forall>w. P w \<longrightarrow> holds_text path content (paths_to_read db changes tracked) w"
    and "\<forall>p \<in> set (paths_to_read db changes tracked). item_row (ie_today env) (store_item content signer p) \<noteq> None"
    and "index_inv db"
    and "p \<in> set (current_paths changes tracked)" "p \<in> set (dirty_paths changes)" "signer p = Some (who, Human)"
    and "compute_tier (ie_today env) p (pr_frontmatter (Frontmatter.parse (content p))) True = Some 0"
    and "reports Q git2 path no_changes tracked2 signer2" "Q w2"
    and "set (filter is_markdown tracked2) = set (current_paths changes tracked)"
  shows "\<exists>s1 w1 db1 s2 w3 db2 row.
      run_index_impl env git path None embed_model embed_key_file (w, Index db) = (Inr s1, w1, Index db1)
    \<and> run_index_impl env git2 path None embed_model embed_key_file (w2, Index db1) = (Inr s2, w3, Index db2)
    \<and> item_view db1 p = Some row \<and> item_view db2 p = Some row
    \<and> ir_content row = pr_body (Frontmatter.parse (content p)) \<and> ir_tier row = 0"
proof -
  obtain s1 w1 db1 where r1: "run_index_impl env git path None embed_model embed_key_file (w, Index db) = (Inr s1, w1, Index db1)"
    "index_inv db1"
    "item_view db1 = indexed_row (ie_today env) (current_paths changes tracked) (dirty_paths changes) content signer db"
    using index_run [OF assms(1-6)] by metis
  have read: "set (paths_to_read db changes tracked) \<subseteq> set (current_paths changes tracked)" by (auto simp: paths_to_read_def)
  have "(item_view db1 q = None) = (q \<notin> set (current_paths changes tracked))" for q
    using item_view_None [OF assms(6), of q] assms(5) by (auto simp: r1(3) indexed_row_def paths_to_read_def)
  then have "known_paths db1 = set (filter is_markdown tracked2)"
    using item_view_None [OF r1(2)] by (simp only: assms(13)) blast
  from clean_run [OF assms(1,11,12) r1(2) this] obtain s2 w3 db2 where
    r2: "run_index_impl env git2 path None embed_model embed_key_file (w2, Index db1) = (Inr s2, w3, Index db2)"
      "item_view db2 = item_view db1" by metis
  have "item_view db1 p = item_row (ie_today env) (store_item content signer p)"
    using assms(7,8) by (simp add: r1(3) indexed_row_def)
  then obtain row where "item_view db1 p = Some row" "ir_content row = pr_body (Frontmatter.parse (content p))" "ir_tier row = 0"
    using assms(9,10) by (simp add: item_row_def store_item_def Let_def)
  then show ?thesis using r1(1) r2 by metis
qed

section \<open>A store whose signed item is edited\<close>

definition scripted_git :: "string \<Rightarrow> string \<Rightarrow> string \<Rightarrow> unit git" where
  "scripted_git status tracked signer_out args stdin w =
     (GitExit True (case args of
        _ # _ # cmd # _ \<Rightarrow>
          if cmd = ''status'' then status else if cmd = ''ls-files'' then tracked
          else if cmd = ''log'' then signer_out else []
      | _ \<Rightarrow> []) [], w)"

definition same_files :: "(component list \<Rightarrow> string option) \<Rightarrow> unit world \<Rightarrow> bool" where
  "same_files files w \<longleftrightarrow> wd_files w = files \<and> wd_fault w = (\<lambda>_ _. None)"

lemma scripted_reports:
  "reports (same_files files) (scripted_git status tracked signer_out) path (parse_porcelain_v2 status) (lines tracked)
     (\<lambda>_. parse_signer_line signer_out)"
  by (simp add: reports_def same_files_def detect_changes_def list_tracked_files_def last_signer_for_path_def attempt_def
      andthen_def run_git_def run_git_stdout_def spawn_git_def scripted_git_def)

definition edited_text :: string where
  "edited_text = unlines [''---'', ''type: project-state'', ''---'', ''obey''] "

definition edited_world :: "unit world" where
  "edited_world = empty_world\<lparr>wd_files := (\<lambda>_. Some edited_text)\<rparr>"

definition edited_status :: string where
  "edited_status = unlines [''1 .M N... 100644 100644 100644 aaa bbb user/a.md'', ''? b.md'']"

definition known_db :: index_db where
  "known_db = built (build_in_memory ''2026-07-26'' [plain_item ''user/a.md'' ''old''])"

definition demo_env :: index_env where
  "demo_env = \<lparr>ie_embed_feature = False, ie_mode = (\<lambda>_. Inr 384), ie_embed_remote = (\<lambda>_ _. Inl ''off''), ie_order = id,
     ie_today = ''2026-07-26''\<rparr>"

abbreviation signed_git :: "unit git" where
  "signed_git \<equiv> scripted_git edited_status (unlines [''user/a.md'']) (''G'' @ [CHR 0x09] @ ''human:ann'')"

abbreviation later_git :: "unit git" where
  "later_git \<equiv> scripted_git [] (unlines [''b.md'', ''user/a.md'']) []"

lemma index_demo_facts:
  "parse_porcelain_v2 edited_status = no_changes\<lparr>cs_added := [''b.md''], cs_modified := [''user/a.md'']\<rparr>"
  "lines (unlines [''user/a.md'']) = [''user/a.md'']" "lines (unlines [''b.md'', ''user/a.md'']) = [''b.md'', ''user/a.md'']"
  "parse_signer_line (''G'' @ [CHR 0x09] @ ''human:ann'') = Some (''human:ann'', Human)"
  "parse_porcelain_v2 [] = no_changes" "known_paths known_db = {''user/a.md''}"
  "is_markdown ''b.md''" "is_markdown ''user/a.md''"
  "compute_tier ''2026-07-26'' ''user/a.md'' (pr_frontmatter (Frontmatter.parse edited_text)) True = Some 0"
  "item_row ''2026-07-26'' (store_item (\<lambda>_. edited_text) (\<lambda>_. Some (''human:ann'', Human)) ''user/a.md'') \<noteq> None"
  "item_row ''2026-07-26'' (store_item (\<lambda>_. edited_text) (\<lambda>_. Some (''human:ann'', Human)) ''b.md'') \<noteq> None"
  by code_simp+

lemma demo_paths:
  "current_paths (no_changes\<lparr>cs_added := [''b.md''], cs_modified := [''user/a.md'']\<rparr>) [''user/a.md''] = [''user/a.md'', ''b.md'']"
  "dirty_paths (no_changes\<lparr>cs_added := [''b.md''], cs_modified := [''user/a.md'']\<rparr>) = [''user/a.md'']"
  "paths_to_read known_db (no_changes\<lparr>cs_added := [''b.md''], cs_modified := [''user/a.md'']\<rparr>) [''user/a.md''] = [''user/a.md'', ''b.md'']"
  by code_simp+

lemma demo_inv: "index_inv known_db" "walks_sets demo_env"
  by code_simp (simp add: walks_sets_def demo_env_def)

lemma demo_reports:
  "reports (same_files files) signed_git path (no_changes\<lparr>cs_added := [''b.md''], cs_modified := [''user/a.md'']\<rparr>) [''user/a.md'']
     (\<lambda>_. Some (''human:ann'', Human))"
  "reports (same_files files) later_git path no_changes [''b.md'', ''user/a.md''] (\<lambda>_. parse_signer_line [])"
  using scripted_reports [of files edited_status "unlines [''user/a.md'']" "''G'' @ [CHR 0x09] @ ''human:ann''" path]
    scripted_reports [of files "[]" "unlines [''b.md'', ''user/a.md'']" "[]" path]
  by (simp_all only: index_demo_facts)

lemma demo_world:
  "same_files (\<lambda>_. Some edited_text) edited_world"
  "\<forall>w. same_files (\<lambda>_. Some edited_text) w \<longrightarrow> holds_text ''s'' (\<lambda>_. edited_text) ps w"
  by (simp_all add: same_files_def edited_world_def empty_world_def holds_text_def read_to_string_def)

lemma demo_rows:
  "\<forall>p \<in> set (paths_to_read known_db (no_changes\<lparr>cs_added := [''b.md''], cs_modified := [''user/a.md'']\<rparr>) [''user/a.md'']).
     item_row (ie_today demo_env) (store_item (\<lambda>_. edited_text) (\<lambda>_. Some (''human:ann'', Human)) p) \<noteq> None"
  using index_demo_facts(10,11) by (simp add: demo_paths demo_env_def)

theorem wkp_index_exact_witness:
  "\<exists>s w' db'. run_index_impl demo_env signed_git ''s'' None None None (edited_world, Index known_db) = (Inr s, w', Index db')
     \<and> index_summary_str s = ''wkp: indexed 1 added, 1 modified, 0 deleted'' \<and> item_view db' ''b.md'' \<noteq> None"
proof -
  have rows: "indexed_row ''2026-07-26'' [''user/a.md'', ''b.md''] [''user/a.md''] (\<lambda>_. edited_text) (\<lambda>_. Some (''human:ann'', Human)) known_db ''b.md'' \<noteq> None"
    using index_demo_facts(11) by (simp add: indexed_row_def index_demo_facts(6))
  have sum: "index_summary_str \<lparr>cx_added = card ({''user/a.md'', ''b.md''} - {''user/a.md''}),
      cx_modified = card ({''user/a.md'', ''b.md''} \<inter> {''user/a.md''} \<inter> {''user/a.md''}),
      cx_deleted = card ({''user/a.md''} - {''user/a.md'', ''b.md''})\<rparr> = ''wkp: indexed 1 added, 1 modified, 0 deleted''"
    by code_simp
  show ?thesis
    using wkp_index_exact [where embed_model = None and embed_key_file = None, OF demo_inv(2) demo_reports(1) demo_world demo_rows demo_inv(1)] rows sum
    by (auto simp: demo_paths index_demo_facts(6) demo_env_def)
qed

lemma committed_change_not_indexed_witness:
  "\<exists>s w' db'. run_index_impl demo_env (scripted_git [] (unlines [''user/a.md'']) []) ''s'' None None None (edited_world, Index known_db)
       = (Inr s, w', Index db')
     \<and> index_summary_str s = ''wkp: index up to date'' \<and> item_view db' = item_view known_db"
proof -
  have git: "reports (same_files (\<lambda>_. Some edited_text)) (scripted_git [] (unlines [''user/a.md'']) []) ''s'' no_changes [''user/a.md''] (\<lambda>_. parse_signer_line [])"
    using scripted_reports [of "\<lambda>_. Some edited_text" "[]" "unlines [''user/a.md'']" "[]" "''s''"] by (simp only: index_demo_facts)
  have "known_paths known_db = set (filter is_markdown [''user/a.md''])" by (simp add: index_demo_facts)
  from committed_change_not_indexed [where embed_model = None and embed_key_file = None, OF demo_inv(2) git demo_world(1) demo_inv(1) this]
  show ?thesis .
qed

theorem unsigned_edit_injected_witness:
  "\<exists>s1 w1 db1 s2 w3 db2 row.
      run_index_impl demo_env signed_git ''s'' None None None (edited_world, Index known_db) = (Inr s1, w1, Index db1)
    \<and> run_index_impl demo_env later_git ''s'' None None None (edited_world, Index db1) = (Inr s2, w3, Index db2)
    \<and> item_view db1 ''user/a.md'' = Some row \<and> item_view db2 ''user/a.md'' = Some row
    \<and> ir_content row = pr_body (Frontmatter.parse edited_text) \<and> ir_tier row = 0"
  by (rule unsigned_edit_injected [where content = "\<lambda>_. edited_text", OF demo_inv(2) demo_reports(1) demo_world demo_rows demo_inv(1) _ _ _ _
        demo_reports(2) demo_world(1)])
    (simp_all add: demo_paths index_demo_facts demo_env_def insert_commute)

end
