(* ===== verification/ImportCmd.thy ===== *)
theory ImportCmd
  imports RememberProps
begin

text \<open>
  \<open>wkp import\<close> (crates/wkp-cli/src/import.rs): the memory files of a coding agent become proposed items of the
  inbox. The entries of a directory are a parameter, any function of its path and the world.
\<close>

section \<open>The memory files\<close>

record claude_memory =
  cm_title :: string
  cm_item_type :: string
  cm_scope :: "string option"
  cm_updated :: "string option"
  cm_body :: string

definition unquote_yaml_scalar :: "string \<Rightarrow> string" where
  "unquote_yaml_scalar s =
     (let s = trim s in
      if 2 \<le> length s \<and> hd s = dquote \<and> last s = dquote then butlast (tl s) else s)"

definition map_claude_memory_type :: "string option \<Rightarrow> string \<times> string option" where
  "map_claude_memory_type t =
     (if t = Some ''project'' then (''project-state'', Some ''project'')
      else if t = Some ''feedback'' then (''feedback'', Some ''project'')
      else if t = Some ''reference'' then (''reference'', Some ''project'')
      else if t = Some ''user'' then (''knowledge'', Some ''user'')
      else (''knowledge'', None))"

definition unparsed_memory :: "string \<Rightarrow> claude_memory" where
  "unparsed_memory contents =
     \<lparr>cm_title = ''Imported memory'', cm_item_type = ''knowledge'', cm_scope = None, cm_updated = None,
      cm_body = trim contents\<rparr>"

text \<open>The variables of the loop over the lines of the header.\<close>

record memory_header =
  mh_name :: "string option"
  mh_description :: "string option"
  mh_type :: "string option"
  mh_modified :: "string option"
  mh_in_metadata :: bool

definition memory_line :: "string \<Rightarrow> memory_header \<Rightarrow> memory_header" where
  "memory_line raw_line h =
     (let trimmed = trim_start raw_line;
          indent = length raw_line - length trimmed
      in if indent = 0 then
           (let h = h\<lparr>mh_in_metadata := starts_with trimmed ''metadata:''\<rparr> in
            case strip_prefix trimmed ''name:'' of
              Some v \<Rightarrow> h\<lparr>mh_name := Some (unquote_yaml_scalar (trim v))\<rparr>
            | None \<Rightarrow>
                (case strip_prefix trimmed ''description:'' of
                   Some v \<Rightarrow> h\<lparr>mh_description := Some (unquote_yaml_scalar (trim v))\<rparr>
                 | None \<Rightarrow> h))
         else if mh_in_metadata h then
           (let trimmed = trim trimmed in
            case strip_prefix trimmed ''type:'' of
              Some v \<Rightarrow> h\<lparr>mh_type := Some (unquote_yaml_scalar (trim v))\<rparr>
            | None \<Rightarrow>
                (case strip_prefix trimmed ''modified:'' of
                   Some v \<Rightarrow> h\<lparr>mh_modified := Some (unquote_yaml_scalar (trim v))\<rparr>
                 | None \<Rightarrow> h))
         else h)"

definition parse_claude_memory_file :: "string \<Rightarrow> claude_memory" where
  "parse_claude_memory_file contents =
     (case strip_prefix contents (''---'' @ [nl]) of
        None \<Rightarrow> unparsed_memory contents
      | Some after_open \<Rightarrow>
          (case split_once after_open ([nl] @ ''---'') of
             None \<Rightarrow> unparsed_memory contents
           | Some (block, rest) \<Rightarrow>
               (let body = trim_start_chars [nl] rest;
                    h = fold memory_line (lines block)
                      \<lparr>mh_name = None, mh_description = None, mh_type = None, mh_modified = None, mh_in_metadata = False\<rparr>
                in case map_claude_memory_type (mh_type h) of (item_type, scope) \<Rightarrow>
                     \<lparr>cm_title = (case mh_description h of Some d \<Rightarrow> d
                        | None \<Rightarrow> (case mh_name h of Some n \<Rightarrow> n | None \<Rightarrow> ''Imported memory'')),
                      cm_item_type = item_type, cm_scope = scope, cm_updated = mh_modified h, cm_body = trim body\<rparr>)))"

section \<open>The imported items\<close>

definition okf_frontmatter_block ::
  "(string \<Rightarrow> bool) \<Rightarrow> string \<Rightarrow> string \<Rightarrow> string option \<Rightarrow> string option \<Rightarrow> string" where
  "okf_frontmatter_block np title item_type scope updated =
     ''---'' @ [nl] @ ''title: '' @ debug_str np title @ [nl] @ ''type: '' @ item_type @ [nl]
     @ (case scope of None \<Rightarrow> [] | Some s \<Rightarrow> ''scope: '' @ s @ [nl])
     @ ''provenance:'' @ [nl] @ ''  source: import'' @ [nl] @ ''confidence: proposed'' @ [nl]
     @ (case updated of None \<Rightarrow> [] | Some u \<Rightarrow> ''updated: '' @ debug_str np u @ [nl])
     @ ''---'' @ [nl]"

definition harness_item :: "(string \<Rightarrow> bool) \<Rightarrow> string \<Rightarrow> string \<Rightarrow> string" where
  "harness_item np filename contents =
     okf_frontmatter_block np filename ''instruction'' None None @ [nl] @ trim contents @ [nl]"

definition memory_item :: "(string \<Rightarrow> bool) \<Rightarrow> string \<Rightarrow> string" where
  "memory_item np contents =
     (let m = parse_claude_memory_file contents in
      okf_frontmatter_block np (cm_title m) (cm_item_type m) (cm_scope m) (cm_updated m) @ [nl] @ trim (cm_body m) @ [nl])"

definition write_import_if_absent :: "string \<Rightarrow> string \<Rightarrow> string \<Rightarrow> ('g world, bool) prog" where
  "write_import_if_absent store_path dest_rel contents =
     (let dest = join_path store_path dest_rel in
      andthen (query (path_exists dest)) (\<lambda>present.
      if present then ret False
      else andthen (create_parent dest) (\<lambda>_.
           andthen (fs_write (components dest) contents) (\<lambda>_. ret True))))"

section \<open>The command\<close>

record import_summary =
  im_imported :: nat
  im_skipped :: nat

definition import_summary_str :: "import_summary \<Rightarrow> string" where
  "import_summary_str s =
     ''wkp: imported '' @ show_nat (im_imported s) @ '', skipped '' @ show_nat (im_skipped s) @ '' (already present)''"

definition is_file :: "string \<Rightarrow> 'g world \<Rightarrow> bool" where
  "is_file p w \<longleftrightarrow> wd_files w (components p) \<noteq> None"

definition is_dir :: "string \<Rightarrow> 'g world \<Rightarrow> bool" where
  "is_dir p w \<longleftrightarrow> components p \<in> set (wd_dirs w)"

definition claude_home_dir :: "string \<Rightarrow> string" where
  "claude_home_dir home = join_path home ''.claude''"

definition claude_home_from_env :: "(string \<Rightarrow> string option) \<Rightarrow> string option" where
  "claude_home_from_env get = map_option claude_home_dir (get ''HOME'')"

definition import_harness_file :: "(string \<Rightarrow> bool) \<Rightarrow> string \<Rightarrow> string \<times> string \<Rightarrow> ('g world, bool option) prog" where
  "import_harness_file np store_path file =
     (case file of (filename, slug) \<Rightarrow>
      let src = join_path store_path filename in
      andthen (query (is_file src)) (\<lambda>present.
      if \<not> present then ret None
      else andthen (read_to_string src) (\<lambda>contents.
           andthen (write_import_if_absent store_path (''inbox/import/'' @ slug @ ''.md'') (harness_item np filename contents))
             (\<lambda>written. ret (Some written)))))"

text \<open>\<open>Path::file_stem\<close> of a name with an extension.\<close>

definition file_stem :: "string \<Rightarrow> string" where
  "file_stem name = join ''.'' (butlast (split_char (CHR ''.'') name))"

definition import_memory_file :: "(string \<Rightarrow> bool) \<Rightarrow> string \<Rightarrow> string \<Rightarrow> string \<Rightarrow> ('g world, bool option) prog" where
  "import_memory_file np store_path memory_dir name =
     (if extension (join_path memory_dir name) \<noteq> Some ''md'' then ret None
      else andthen (read_to_string (join_path memory_dir name)) (\<lambda>contents.
           andthen (write_import_if_absent store_path (''inbox/import/claude-memory-'' @ file_stem name @ ''.md'') (memory_item np contents))
             (\<lambda>written. ret (Some written))))"

type_synonym 'g list_dir = "string \<Rightarrow> ('g world, string list) prog"

definition import_project ::
  "'g list_dir \<Rightarrow> (string \<Rightarrow> bool) \<Rightarrow> string \<Rightarrow> string \<Rightarrow> string \<Rightarrow> ('g world, bool list option) prog" where
  "import_project list_dir np store_path projects_root entry =
     (let memory_dir = join_path (join_path projects_root entry) ''memory'' in
      andthen (query (is_dir memory_dir)) (\<lambda>present.
      if \<not> present then ret None
      else andthen (list_dir memory_dir) (\<lambda>names.
           andthen (collect (import_memory_file np store_path memory_dir) names) (\<lambda>written. ret (Some written)))))"

definition import_memories ::
  "'g list_dir \<Rightarrow> (string \<Rightarrow> bool) \<Rightarrow> string \<Rightarrow> string option \<Rightarrow> ('g world, bool list) prog" where
  "import_memories list_dir np store_path claude_home =
     (case claude_home of
        None \<Rightarrow> ret []
      | Some home \<Rightarrow>
          (let projects_root = join_path home ''projects'' in
           andthen (query (is_dir projects_root)) (\<lambda>present.
           if \<not> present then ret []
           else andthen (list_dir projects_root) (\<lambda>entries.
                andthen (collect (import_project list_dir np store_path projects_root) entries) (\<lambda>written. ret (concat written))))))"

definition run_import ::
  "'g list_dir \<Rightarrow> (string \<Rightarrow> bool) \<Rightarrow> string \<Rightarrow> string option \<Rightarrow> ('g world, import_summary) prog" where
  "run_import list_dir np store_path claude_home =
     andthen (collect (import_harness_file np store_path) [(''CLAUDE.md'', ''claude-md''), (''AGENTS.md'', ''agents-md'')]) (\<lambda>first.
     andthen (import_memories list_dir np store_path claude_home) (\<lambda>rest.
     let written = first @ rest in
     ret \<lparr>im_imported = length (filter id written), im_skipped = length (filter Not written)\<rparr>))"

section \<open>Nothing is overwritten\<close>

lemma keeps_read: "keeps I (read_to_string p)"
  by (auto simp: keeps_def read_to_string_def split: option.split)

lemma keeps_create_parent_files: "keeps (\<lambda>w. wd_files w q = Some s) (create_parent p)"
  by (auto simp: keeps_def create_parent_def create_dir_all_def split: option.split)

lemma write_import_keeps: "keeps (\<lambda>w. wd_files w q = Some s) (write_import_if_absent store_path dest_rel contents)"
  unfolding keeps_def
proof (intro allI impI)
  fix w :: "'g world"
  assume held: "wd_files w q = Some s"
  let ?dest = "join_path store_path dest_rel"
  show "wd_files (snd (write_import_if_absent store_path dest_rel contents w)) q = Some s"
  proof (cases "path_exists ?dest w")
    case True
    then show ?thesis using held by (simp add: write_import_if_absent_def Let_def andthen_def attempt_def)
  next
    case False
    then have other: "q \<noteq> components ?dest" using held by (auto simp: path_exists_def)
    obtain r w1 where made: "create_parent ?dest w = (r, w1)" by fastforce
    then have "wd_files w1 q = Some s" using keepsD [OF keeps_create_parent_files made held] by blast
    then show ?thesis using False made other
      by (cases r) (auto simp: write_import_if_absent_def Let_def andthen_def attempt_def fs_write_def split: option.split)
  qed
qed

lemma run_import_keeps:
  assumes "\<forall>p. keeps (\<lambda>w. wd_files w q = Some s) (list_dir p)"
  shows "keeps (\<lambda>w. wd_files w q = Some s) (run_import list_dir np store_path claude_home)"
proof -
  note rules = keeps_rules keeps_read write_import_keeps assms [rule_format]
  have harness: "keeps (\<lambda>w. wd_files w q = Some s) (import_harness_file np store_path f)" for f
    unfolding import_harness_file_def Let_def by (cases f) (simp, intro rules)
  have memory: "keeps (\<lambda>w. wd_files w q = Some s) (import_memory_file np store_path d n)" for d n
    unfolding import_memory_file_def by (intro rules)
  have project: "keeps (\<lambda>w. wd_files w q = Some s) (import_project list_dir np store_path r e)" for r e
    unfolding import_project_def Let_def by (intro rules memory)
  show ?thesis
    unfolding run_import_def import_memories_def Let_def by (intro rules harness project)
qed

text \<open>
  Importing never touches what is there. Whatever directories list, whatever fails on the way, a file that
  exists before an import holds the same text after it, also a copy that was imported before and edited since.
\<close>

lemma import_keeps_files:
  assumes "\<forall>p. keeps (\<lambda>w. wd_files w q = Some s) (list_dir p)" "wd_files w q = Some s"
  shows "wd_files (snd (run_import list_dir np store_path claude_home w)) q = Some s"
  using run_import_keeps [OF assms(1)] assms(2) by (simp add: keeps_def)

section \<open>What is imported is proposed\<close>

definition import_lines :: "(string \<Rightarrow> bool) \<Rightarrow> string \<Rightarrow> string \<Rightarrow> string option \<Rightarrow> string option \<Rightarrow> string list" where
  "import_lines np title item_type scope updated =
     opt_line ''title'' (Some (debug_str np title)) @ opt_line ''type'' (Some item_type) @ opt_line ''scope'' scope
     @ [''provenance:''] @ opt_line ''  source'' (Some ''import'') @ opt_line ''confidence'' (Some ''proposed'')
     @ opt_line ''updated'' (map_option (debug_str np) updated)"

lemma import_block_lines:
  "okf_frontmatter_block np title item_type scope updated = ''---'' @ [nl] @ unlines (import_lines np title item_type scope updated) @ ''---'' @ [nl]"
  by (simp add: okf_frontmatter_block_def import_lines_def opt_line_def split: option.split)

lemma import_value: "value_ok ''import''" "unquote ''import'' = ''import''"
  by code_simp+

lemma import_parse_lines:
  assumes "valid_utf8 title" "pred_option valid_utf8 updated" "value_ok item_type" "pred_option value_ok scope"
  shows "\<exists>fm. parse_lines (List.map_filter logical_line (import_lines np title item_type scope updated)) default_frontmatter [] = (fm, [])
      \<and> fm_confidence fm = Some Proposed \<and> prov_source (fm_provenance fm) = Some ImportSource"
proof -
  have v: "value_ok (debug_str np title)" "pred_option value_ok (map_option (debug_str np) updated)"
    using assms debug_value by (auto simp: pred_option_def split: option.splits)
  have key: "split_key_value ''provenance:'' = Some (''provenance'', [])" "logical_line ''provenance:'' = Some \<lparr>line_indent = 0, line_text = ''provenance:''\<rparr>"
    by code_simp+
  let ?ch = "Frontmatter.fields 2 ''source'' (Some ''import'')" and ?up = "Frontmatter.fields 0 ''updated'' (map_option (debug_str np) updated)"
  let ?rest = "\<lparr>line_indent = 0, line_text = ''provenance:''\<rparr> # ?ch @ Frontmatter.fields 0 ''confidence'' (Some ''proposed'') @ ?up"
  have lines: "List.map_filter logical_line (import_lines np title item_type scope updated)
      = opening_fields (debug_str np title) item_type scope @ ?rest"
    unfolding import_lines_def map_filter_append opening_fields_def
    using logical_opt_lines(1) [OF keys_ok(1), of "Some (debug_str np title)"] logical_opt_lines(1) [OF keys_ok(2), of "Some item_type"]
      logical_opt_lines(1) [OF keys_ok(3), of scope] logical_opt_lines(1) [OF keys_ok(10), of "Some ''proposed''"]
      logical_opt_lines(2) [OF keys_ok(9), of "Some ''import''"] logical_opt_lines(1) [OF keys_ok(15), of "map_option (debug_str np) updated"]
      v assms key(2) fixed_values import_value by (simp add: map_filter_simps)
  obtain fm where fm: "fm_provenance fm = default_provenance"
    "\<And>ls. parse_lines (opening_fields (debug_str np title) item_type scope @ ls) default_frontmatter [] = parse_lines ls fm []"
    using parse_opening [OF v(1) assms(3,4)] by blast
  obtain p where p: "apply_provenance_children default_provenance ?ch = (p, [])" "prov_source p = Some ImportSource"
    using apply_children_field [OF keys_ok(9), of "Some ''import''"] import_value
    by (auto simp: Let_def apply_provenance_field_def opt_string_def is_null_def parse_source_kind_def)
  then have block: "apply_block_value fm ''provenance'' ?ch = (fm\<lparr>fm_provenance := p\<rparr>, [])" using fm(1) by (simp add: apply_block_value_def)
  have indents: "\<forall>c \<in> set ?ch. 0 < line_indent c" "\<forall>l \<in> set (Frontmatter.fields 0 ''confidence'' (Some ''proposed'') @ ?up). line_indent l = 0"
    by (auto simp: Frontmatter.fields_def split: option.splits)
  let ?fm = "fm\<lparr>fm_provenance := p\<rparr>\<lparr>fm_confidence := Some Proposed\<rparr>"
  have up: "parse_lines ?up ?fm [] = (case map_option (debug_str np) updated of None \<Rightarrow> ?fm | Some v \<Rightarrow> ?fm\<lparr>fm_updated := opt_string (unquote v)\<rparr>, [])"
    using parse_scalar_field [OF keys_ok(15), where shown = "map_option (debug_str np) updated" and fm = ?fm and ws = "[]" and ls = "[]"
        and f = "\<lambda>v. ?fm\<lparr>fm_updated := opt_string (unquote v)\<rparr>"] v(2)
    by (cases updated) (simp_all add: apply_scalar_value_def Let_def Frontmatter.fields_def)
  have "parse_lines (List.map_filter logical_line (import_lines np title item_type scope updated)) default_frontmatter [] = parse_lines ?up ?fm []"
    unfolding lines fm(2) parse_block_field [OF indents key(1) block] append_Nil by (rule parse_proposed)
  then show ?thesis using p(2) up by (auto split: option.splits)
qed

lemma mapped_type:
  "map_claude_memory_type t = (item_type, scope) \<Longrightarrow> value_ok item_type \<and> pred_option value_ok scope"
proof -
  have "value_ok ''project-state''" "value_ok ''feedback''" "value_ok ''reference''" "value_ok ''knowledge''" "value_ok ''project''" "value_ok ''user''"
    by code_simp+
  then show "map_claude_memory_type t = (item_type, scope) \<Longrightarrow> ?thesis"
    by (auto simp: map_claude_memory_type_def split: if_splits)
qed

lemma memory_type_ok:
  "value_ok (cm_item_type (parse_claude_memory_file contents)) \<and> pred_option value_ok (cm_scope (parse_claude_memory_file contents))"
proof -
  have "value_ok ''knowledge''" by code_simp
  then show ?thesis
    by (auto simp: parse_claude_memory_file_def unparsed_memory_def Let_def dest: mapped_type split: option.split prod.split)
qed

lemma imported_block:
  assumes "valid_utf8 title" "pred_option valid_utf8 updated" "value_ok item_type" "pred_option value_ok scope"
  obtains fm where "Frontmatter.parse (okf_frontmatter_block np title item_type scope updated @ body)
      = \<lparr>pr_frontmatter = fm, pr_body = body, pr_warnings = []\<rparr>"
    "fm_confidence fm = Some Proposed" "prov_source (fm_provenance fm) = Some ImportSource"
proof -
  let ?ls = "import_lines np title item_type scope updated"
  obtain fm where fm: "parse_lines (List.map_filter logical_line ?ls) default_frontmatter [] = (fm, [])"
      "fm_confidence fm = Some Proposed" "prov_source (fm_provenance fm) = Some ImportSource"
    using import_parse_lines [OF assms] by blast
  have v: "value_ok (debug_str np title)" "pred_option value_ok (map_option (debug_str np) updated)"
    using assms debug_value by (auto simp: pred_option_def split: option.splits)
  have "clean_line ''provenance:''" by code_simp
  then have "clean_line l" if "l \<in> set ?ls" for l
    using that clean_opt_lines(1) [OF keys_ok(1), of "Some (debug_str np title)" l] clean_opt_lines(1) [OF keys_ok(2), of "Some item_type" l]
      clean_opt_lines(1) [OF keys_ok(3) assms(4), of l] clean_opt_lines(1) [OF keys_ok(10), of "Some ''proposed''" l]
      clean_opt_lines(2) [OF keys_ok(9), of "Some ''import''" l] clean_opt_lines(1) [OF keys_ok(15) v(2), of l]
      v(1) assms(3) fixed_values(2) import_value(1)
    unfolding import_lines_def set_append Un_iff by auto
  from parse_delimited [OF this fm(1), of body] show ?thesis using that fm(2,3) by (simp add: import_block_lines)
qed

text \<open>
  What is imported is a proposal. Whatever a memory file of the agent contains, the item made of it reads
  back as proposed, with source import and the trimmed text as its body, without a warning; and under the
  path it is written to, it is in tier 2 whoever signs it.
\<close>

lemma imported_memory_is_proposed:
  assumes "valid_utf8 (cm_title (parse_claude_memory_file contents))" "pred_option valid_utf8 (cm_updated (parse_claude_memory_file contents))"
  shows "fm_confidence (pr_frontmatter (Frontmatter.parse (memory_item np contents))) = Some Proposed
    \<and> prov_source (fm_provenance (pr_frontmatter (Frontmatter.parse (memory_item np contents)))) = Some ImportSource
    \<and> pr_body (Frontmatter.parse (memory_item np contents)) = nl # trim (cm_body (parse_claude_memory_file contents)) @ [nl]
    \<and> pr_warnings (Frontmatter.parse (memory_item np contents)) = []
    \<and> compute_tier today (''inbox/import/claude-memory-'' @ stem @ ''.md'') (pr_frontmatter (Frontmatter.parse (memory_item np contents)))
        human_signed = Some 2"
proof -
  let ?m = "parse_claude_memory_file contents"
  obtain fm where "Frontmatter.parse (okf_frontmatter_block np (cm_title ?m) (cm_item_type ?m) (cm_scope ?m) (cm_updated ?m)
        @ nl # trim (cm_body ?m) @ [nl]) = \<lparr>pr_frontmatter = fm, pr_body = nl # trim (cm_body ?m) @ [nl], pr_warnings = []\<rparr>"
    "fm_confidence fm = Some Proposed" "prov_source (fm_provenance fm) = Some ImportSource"
    using imported_block [OF assms, of "cm_item_type ?m" "cm_scope ?m" np "nl # trim (cm_body ?m) @ [nl]"] memory_type_ok [of contents] by auto
  moreover have "starts_with (''inbox/import/claude-memory-'' @ stem @ ''.md'') ''inbox/''" by (simp add: starts_with_def rust_str)
  ultimately show ?thesis by (simp add: memory_item_def Let_def compute_tier_def)
qed

definition sample_memory :: string where
  "sample_memory = unlines [''---'', ''name: n'', ''description: '' @ [dquote] @ ''confidence: stated'' @ [dquote], ''metadata:'', ''  type: feedback'', ''---'', ''text'']"

lemma imported_memory_is_proposed_witness:
  "fm_confidence (pr_frontmatter (Frontmatter.parse (memory_item (\<lambda>_. False) sample_memory))) = Some Proposed"
proof -
  have "valid_utf8 (cm_title (parse_claude_memory_file sample_memory))" "pred_option valid_utf8 (cm_updated (parse_claude_memory_file sample_memory))"
    by code_simp+
  from imported_memory_is_proposed [OF this] show ?thesis by blast
qed

section \<open>Two projects with a memory file of one name\<close>

definition two_projects :: "unit world" where
  "two_projects = empty_world\<lparr>
     wd_dirs := map components [''h/projects'', ''h/projects/a/memory'', ''h/projects/b/memory''],
     wd_files := (\<lambda>p. if p = components ''h/projects/a/memory/MEMORY.md'' then Some ''about a''
       else if p = components ''h/projects/b/memory/MEMORY.md'' then Some ''about b'' else None)\<rparr>"

definition two_listings :: "unit list_dir" where
  "two_listings p = ret (if p = ''h/projects'' then [''a'', ''b''] else [''MEMORY.md''])"

text \<open>
  The name of an imported item is made of the name of the file alone, not of its project. Of two projects that
  each have a MEMORY.md, the second is counted as already present and its text is nowhere in the store.
\<close>

lemma import_drops_namesake:
  "(case run_import two_listings (\<lambda>_. False) ''s'' (Some ''h'') two_projects of
      (r, w) \<Rightarrow> r = Inr \<lparr>im_imported = 1, im_skipped = 1\<rparr>
        \<and> map_option (\<lambda>t. contains_str t ''about a'') (wd_files w (components ''s/inbox/import/claude-memory-MEMORY.md'')) = Some True
        \<and> map_option (\<lambda>t. contains_str t ''about b'') (wd_files w (components ''s/inbox/import/claude-memory-MEMORY.md'')) = Some False)"
  by code_simp

lemma import_keeps_files_witness:
  "wd_files (snd (run_import two_listings (\<lambda>_. False) ''s'' (Some ''h'')
       (two_projects\<lparr>wd_files := (wd_files two_projects)(components ''s/inbox/import/claude-memory-MEMORY.md'' \<mapsto> ''edited'')\<rparr>)))
     (components ''s/inbox/import/claude-memory-MEMORY.md'') = Some ''edited''"
proof (rule import_keeps_files)
  show "\<forall>p. keeps (\<lambda>w. wd_files w (components ''s/inbox/import/claude-memory-MEMORY.md'') = Some ''edited'') (two_listings p)"
    by (simp add: keeps_def two_listings_def)
qed simp

end
