(* ===== verification/Identity.thy ===== *)
theory Identity
  imports Recipients
begin

text \<open>
  The persistent keys of a device (crates/wkp-crypto/src: device_identity.rs, signing_identity.rs, and the
  identities of lib.rs): read from the keystore of the operating system or from a file, and made on first use.
  The keystore, the random generator and the text encodings of the keys are parameters; the mode of a file
  is not modelled.
\<close>

section \<open>Keys and the keystore\<close>

text \<open>
  The two modules differ in the key they keep: how it is made, written and read, the name its entries are filed
  under, and whether the text of the file is trimmed.
\<close>

record ('i, 'w) key_kind =
  kk_service :: string
  kk_generate :: "'w \<Rightarrow> (crypto_error, 'i) result \<times> 'w"
  kk_show :: "'i \<Rightarrow> (crypto_error, string) result"
  kk_read :: "string \<Rightarrow> (crypto_error, 'i) result"
  kk_trims :: bool

datatype keystore_secret = Secret string | NoEntry | Refused string

text \<open>Opening an entry may fail (no keystore is reachable), and so may reading and storing its secret.\<close>

record 'w keystore =
  ks_entry :: "string \<Rightarrow> string \<Rightarrow> 'w \<Rightarrow> string option"
  ks_get :: "string \<Rightarrow> string \<Rightarrow> 'w \<Rightarrow> keystore_secret"
  ks_set :: "string \<Rightarrow> string \<Rightarrow> string \<Rightarrow> 'w \<Rightarrow> (string, unit) result \<times> 'w"

section \<open>Getting a key\<close>

definition get_or_create :: "('i, 'w) key_kind \<Rightarrow> 'w keystore \<Rightarrow> string \<Rightarrow> 'w \<Rightarrow> (crypto_error, 'i) result \<times> 'w" where
  "get_or_create kk ks key_id w =
     (case ks_get ks (kk_service kk) key_id w of
        Secret secret \<Rightarrow>
          (if valid_utf8 secret then kk_read kk secret
           else Inl (InvalidIdentity ''keystore entry was not UTF-8''), w)
      | NoEntry \<Rightarrow>
          (case kk_generate kk w of
             (Inl e, w1) \<Rightarrow> (Inl e, w1)
           | (Inr identity, w1) \<Rightarrow>
               (case kk_show kk identity of
                  Inl e \<Rightarrow> (Inl e, w1)
                | Inr secret \<Rightarrow>
                    (case ks_set ks (kk_service kk) key_id secret w1 of
                       (Inl e, w2) \<Rightarrow> (Inl (Keystore e), w2)
                     | (Inr _, w2) \<Rightarrow> (Inr identity, w2))))
      | Refused e \<Rightarrow> (Inl (Keystore e), w))"

definition keystore_ensure :: "('i, 'w) key_kind \<Rightarrow> 'w keystore \<Rightarrow> string \<Rightarrow> 'w \<Rightarrow> (crypto_error, 'i) result \<times> 'w" where
  "keystore_ensure kk ks key_id w =
     (case ks_entry ks (kk_service kk) key_id w of
        Some e \<Rightarrow> (Inl (Keystore e), w)
      | None \<Rightarrow> get_or_create kk ks key_id w)"

definition io_error :: "('w, 'a) prog \<Rightarrow> 'w \<Rightarrow> (crypto_error, 'a) result \<times> 'w" where
  "io_error m w = (case m w of (Inl e, w') \<Rightarrow> (Inl (CryptoIo e), w') | (Inr a, w') \<Rightarrow> (Inr a, w'))"

text \<open>\<open>create_new\<close>: a file that is there is an error, a new one is empty.\<close>

definition open_new :: "component list \<Rightarrow> ('g world, unit) prog" where
  "open_new p w = (if wd_files w p \<noteq> None then (Inl ''File exists (os error 17)'', w) else fs_write p [] w)"

definition fallback_create :: "('i, 'g world) key_kind \<Rightarrow> string \<Rightarrow> 'g world \<Rightarrow> (crypto_error, 'i) result \<times> 'g world" where
  "fallback_create kk path w =
     (case kk_generate kk w of
        (Inl e, w1) \<Rightarrow> (Inl e, w1)
      | (Inr identity, w1) \<Rightarrow>
          (case io_error (andthen (create_parent path) (\<lambda>_. open_new (components path))) w1 of
             (Inl e, w2) \<Rightarrow> (Inl e, w2)
           | (Inr _, w2) \<Rightarrow>
               (case kk_show kk identity of
                  Inl e \<Rightarrow> (Inl e, w2)
                | Inr secret \<Rightarrow>
                    (case io_error (fs_write (components path) secret) w2 of
                       (Inl e, w3) \<Rightarrow> (Inl e, w3)
                     | (Inr _, w3) \<Rightarrow> (Inr identity, w3)))))"

definition fallback_ensure :: "('i, 'g world) key_kind \<Rightarrow> string \<Rightarrow> 'g world \<Rightarrow> (crypto_error, 'i) result \<times> 'g world" where
  "fallback_ensure kk path w =
     (if wd_fault w FsOpen (components path) = None \<and> wd_files w (components path) \<noteq> None then
        (case io_error (read_to_string path) w of
           (Inl e, w1) \<Rightarrow> (Inl e, w1)
         | (Inr contents, w1) \<Rightarrow> (kk_read kk (if kk_trims kk then trim contents else contents), w1))
      else fallback_create kk path w)"

definition ensure_key :: "('i, 'g world) key_kind \<Rightarrow> 'g world keystore \<Rightarrow> string \<Rightarrow> string \<Rightarrow> 'g world \<Rightarrow> (crypto_error, 'i) result \<times> 'g world" where
  "ensure_key kk ks key_id fallback_path w =
     (case keystore_ensure kk ks key_id w of
        (Inr identity, w1) \<Rightarrow> (Inr identity, w1)
      | (Inl _, w1) \<Rightarrow> fallback_ensure kk fallback_path w1)"

section \<open>The two kinds\<close>

text \<open>The age library's X25519 identities: making and writing one cannot fail.\<close>

record ('r, 'i, 'w) age_keys =
  ak_generate :: "'w \<Rightarrow> 'i \<times> 'w"
  ak_show :: "'i \<Rightarrow> string"
  ak_parse :: "string \<Rightarrow> 'i option"
  ak_public :: "'i \<Rightarrow> 'r"

definition from_secret_string :: "('r, 'i, 'w) age_keys \<Rightarrow> string \<Rightarrow> (crypto_error, 'i) result" where
  "from_secret_string ak s = (case ak_parse ak s of None \<Rightarrow> Inl (InvalidIdentity s) | Some i \<Rightarrow> Inr i)"

definition device_kind :: "('r, 'i, 'w) age_keys \<Rightarrow> ('i, 'w) key_kind" where
  "device_kind ak =
     \<lparr>kk_service = ''wkp-device-identity'',
      kk_generate = (\<lambda>w. case ak_generate ak w of (i, w') \<Rightarrow> (Inr i, w')),
      kk_show = (\<lambda>i. Inr (ak_show ak i)),
      kk_read = from_secret_string ak,
      kk_trims = True\<rparr>"

definition device_identity_ensure ::
  "('r, 'i, 'g world) age_keys \<Rightarrow> 'g world keystore \<Rightarrow> string \<Rightarrow> string \<Rightarrow> 'g world \<Rightarrow> (crypto_error, 'i) result \<times> 'g world" where
  "device_identity_ensure ak = ensure_key (device_kind ak)"

text \<open>
  OpenSSH ed25519 keys. The last three functions are the encodings of the key the certificate library makes: its raw
  bytes if it is an ed25519 key, the PKCS#8 key pair of those bytes, a signed request and a PEM text.
\<close>

record ('i, 'k, 'w) ssh_keys =
  sk_generate :: "'w \<Rightarrow> (string, 'i) result \<times> 'w"
  sk_public :: "'i \<Rightarrow> (string, string) result"
  sk_show :: "'i \<Rightarrow> (string, string) result"
  sk_read :: "string \<Rightarrow> (string, 'i) result"
  sk_raw :: "'i \<Rightarrow> string option"
  sk_pkcs8 :: "string \<Rightarrow> (string, string) result"
  sk_key_pair :: "string \<Rightarrow> (string, 'k) result"
  sk_request :: "'k \<Rightarrow> (string, string) result"
  sk_pem :: "'k \<Rightarrow> string"

definition map_error :: "('e \<Rightarrow> 'f) \<Rightarrow> ('e, 'a) result \<Rightarrow> ('f, 'a) result" where
  "map_error g r = (case r of Inl e \<Rightarrow> Inl (g e) | Inr a \<Rightarrow> Inr a)"

definition public_key_openssh :: "('i, 'k, 'w) ssh_keys \<Rightarrow> 'i \<Rightarrow> (crypto_error, string) result" where
  "public_key_openssh sk i = (case sk_public sk i of Inl e \<Rightarrow> Inl (SshKey e) | Inr s \<Rightarrow> Inr (trim s))"

definition signing_kind :: "('i, 'k, 'w) ssh_keys \<Rightarrow> ('i, 'w) key_kind" where
  "signing_kind sk =
     \<lparr>kk_service = ''wkp-hub-signing-identity'',
      kk_generate = (\<lambda>w. case sk_generate sk w of (r, w') \<Rightarrow> (map_error SshKey r, w')),
      kk_show = (\<lambda>i. map_error SshKey (sk_show sk i)),
      kk_read = (\<lambda>s. map_error SshKey (sk_read sk s)),
      kk_trims = False\<rparr>"

definition signing_identity_ensure ::
  "('i, 'k, 'g world) ssh_keys \<Rightarrow> 'g world keystore \<Rightarrow> string \<Rightarrow> string \<Rightarrow> 'g world \<Rightarrow> (crypto_error, 'i) result \<times> 'g world" where
  "signing_identity_ensure sk = ensure_key (signing_kind sk)"

definition to_rcgen_keypair :: "('i, 'k, 'w) ssh_keys \<Rightarrow> 'i \<Rightarrow> (crypto_error, 'k) result" where
  "to_rcgen_keypair sk i =
     (case sk_raw sk i of
        None \<Rightarrow> Inl (Certificate ''signing identity is not an ed25519 key'')
      | Some raw \<Rightarrow>
          bind_result (map_error (\<lambda>e. Certificate (''PKCS#8 encoding failed: '' @ e)) (sk_pkcs8 sk raw)) (\<lambda>der.
          map_error Certificate (sk_key_pair sk der)))"

definition to_csr_pem :: "('i, 'k, 'w) ssh_keys \<Rightarrow> 'i \<Rightarrow> (crypto_error, string) result" where
  "to_csr_pem sk i = bind_result (to_rcgen_keypair sk i) (\<lambda>k. map_error Certificate (sk_request sk k))"

definition to_pkcs8_pem :: "('i, 'k, 'w) ssh_keys \<Rightarrow> 'i \<Rightarrow> (crypto_error, string) result" where
  "to_pkcs8_pem sk i = bind_result (to_rcgen_keypair sk i) (\<lambda>k. Inr (sk_pem sk k))"

section \<open>A key is made once\<close>

text \<open>What is written reads back; there is no keystore, or there is one that keeps what it is given.\<close>

definition codec_ok :: "('i, 'w) key_kind \<Rightarrow> bool" where
  "codec_ok kk \<longleftrightarrow> (\<forall>i s. kk_show kk i = Inr s \<longrightarrow> valid_utf8 s \<and> kk_read kk s = Inr i \<and> kk_read kk (trim s) = Inr i)"

definition no_keystore :: "('i, 'w) key_kind \<Rightarrow> 'w keystore \<Rightarrow> string \<Rightarrow> bool" where
  "no_keystore kk ks key_id \<longleftrightarrow> (\<forall>w. ks_entry ks (kk_service kk) key_id w \<noteq> None)"

definition has_keystore :: "('i, 'w) key_kind \<Rightarrow> 'w keystore \<Rightarrow> string \<Rightarrow> bool" where
  "has_keystore kk ks key_id \<longleftrightarrow>
     (\<forall>w. ks_entry ks (kk_service kk) key_id w = None
        \<and> (\<forall>s. fst (ks_set ks (kk_service kk) key_id s w) = Inr ()
               \<and> ks_get ks (kk_service kk) key_id (snd (ks_set ks (kk_service kk) key_id s w)) = Secret s)
        \<and> (case ks_get ks (kk_service kk) key_id w of
             Secret s \<Rightarrow> valid_utf8 s \<and> (\<exists>i. kk_read kk s = Inr i)
           | NoEntry \<Rightarrow> (\<exists>i w'. kk_generate kk w = (Inr i, w') \<and> (\<exists>s. kk_show kk i = Inr s))
           | Refused e \<Rightarrow> False))"

lemma keystore_twice:
  assumes "codec_ok kk" "has_keystore kk ks key_id"
  shows "\<exists>i w'. keystore_ensure kk ks key_id w = (Inr i, w') \<and> keystore_ensure kk ks key_id w' = (Inr i, w')"
proof -
  note there = assms(2) [unfolded has_keystore_def, rule_format, of w]
  show ?thesis
  proof (cases "ks_get ks (kk_service kk) key_id w")
    case (Secret s)
    then show ?thesis using there by (auto simp: keystore_ensure_def get_or_create_def)
  next
    case NoEntry
    then obtain i w1 s where made: "kk_generate kk w = (Inr i, w1)" "kk_show kk i = Inr s" using there by auto
    obtain w2 where stored: "ks_set ks (kk_service kk) key_id s w1 = (Inr (), w2)" "ks_get ks (kk_service kk) key_id w2 = Secret s"
      using assms(2) [unfolded has_keystore_def, rule_format, of w1] by (metis prod.collapse)
    have "ks_entry ks (kk_service kk) key_id w2 = None" using assms(2) by (simp add: has_keystore_def)
    then show ?thesis
      using there NoEntry made stored assms(1) by (auto simp: keystore_ensure_def get_or_create_def codec_ok_def)
  next
    case (Refused e)
    then show ?thesis using there by simp
  qed
qed

lemma no_keystore_file: "no_keystore kk ks key_id \<Longrightarrow> ensure_key kk ks key_id path w = fallback_ensure kk path w"
  by (auto simp: ensure_key_def keystore_ensure_def no_keystore_def split: option.split dest: spec [of _ w])

lemma io_error_Inr: "io_error m w = (Inr a, w') \<longleftrightarrow> m w = (Inr a, w')"
  by (auto simp: io_error_def split: prod.split sum.split)

lemma create_parent_faults: "create_parent p w = (r, w') \<Longrightarrow> wd_fault w' = wd_fault w"
  by (auto simp: create_parent_def create_dir_all_def split: option.splits)

lemma fs_write_Inr: "fs_write p s w = (Inr u, w') \<Longrightarrow> wd_files w' p = Some s \<and> wd_fault w' = wd_fault w"
  by (auto simp: fs_write_def split: option.splits)

lemma fallback_created:
  assumes "fallback_create kk path w = (Inr i, w')" "wd_fault (snd (kk_generate kk w)) = wd_fault w"
  shows "\<exists>s. kk_show kk i = Inr s \<and> wd_files w' (components path) = Some s \<and> wd_fault w' = wd_fault w"
proof -
  obtain w1 where w1: "kk_generate kk w = (Inr i, w1)" "wd_fault w1 = wd_fault w"
    and rest: "fallback_create kk path w = (case io_error (andthen (create_parent path) (\<lambda>_. open_new (components path))) w1 of
             (Inl e, w2) \<Rightarrow> (Inl e, w2)
           | (Inr _, w2) \<Rightarrow> (case kk_show kk i of Inl e \<Rightarrow> (Inl e, w2)
                | Inr secret \<Rightarrow> (case io_error (fs_write (components path) secret) w2 of
                       (Inl e, w3) \<Rightarrow> (Inl e, w3) | (Inr _, w3) \<Rightarrow> (Inr i, w3))))"
    using assms by (auto simp: fallback_create_def split: prod.splits sum.splits)
  obtain w2 u where w2: "andthen (create_parent path) (\<lambda>_. open_new (components path)) w1 = (Inr u, w2)"
    using assms(1) rest by (auto simp: io_error_Inr split: prod.splits sum.splits)
  obtain s v where s: "kk_show kk i = Inr s" "fs_write (components path) s w2 = (Inr v, w')"
    using assms(1) rest w2 by (auto simp: io_error_Inr [of _ _ _ w2, THEN iffD2] io_error_Inr split: prod.splits sum.splits)
  have "wd_fault w2 = wd_fault w1"
    using w2 by (auto elim!: andthen_ok dest!: create_parent_faults fs_write_Inr simp: open_new_def split: if_splits)
  then show ?thesis using s fs_write_Inr [OF s(2)] w1(2) by auto
qed

text \<open>
  A device keeps its key: when a key was returned, asking again returns the same key and leaves everything as it
  is, with a keystore that works and without one. (A keystore that comes and goes is the documented limitation.)
\<close>

lemma ensured_key_is_stable:
  assumes "codec_ok kk" "has_keystore kk ks key_id \<or> no_keystore kk ks key_id"
    and "\<forall>w. wd_fault (snd (kk_generate kk w)) = wd_fault w"
    and "wd_fault w FsOpen (components path) = None" "wd_fault w FsRead (components path) = None"
    and "ensure_key kk ks key_id path w = (Inr i, w')"
  shows "ensure_key kk ks key_id path w' = (Inr i, w')"
proof (cases "no_keystore kk ks key_id")
  case False
  then obtain j v where "keystore_ensure kk ks key_id w = (Inr j, v)" "keystore_ensure kk ks key_id v = (Inr j, v)"
    using keystore_twice [OF assms(1)] assms(2) by blast
  then show ?thesis using assms(6) by (simp add: ensure_key_def)
next
  case True
  note from_file = no_keystore_file [OF this]
  show ?thesis
  proof (cases "wd_files w (components path)")
    case None
    then have made: "fallback_create kk path w = (Inr i, w')" using assms(6) by (simp add: from_file fallback_ensure_def)
    obtain s where "kk_show kk i = Inr s" "wd_files w' (components path) = Some s" "wd_fault w' = wd_fault w"
      using fallback_created [OF made] assms(3) by blast
    then show ?thesis using assms(1,4,5) by (simp add: from_file fallback_ensure_def io_error_def read_to_string_def codec_ok_def)
  next
    case (Some s)
    then show ?thesis using assms(4-6) by (simp add: from_file fallback_ensure_def io_error_def read_to_string_def)
  qed
qed

section \<open>A key in an error message\<close>

text \<open>A file that is not exactly one key is repeated in the error: with a key and a comment in it, the key is printed.\<close>

lemma unreadable_identity_is_shown:
  assumes "no_keystore (device_kind ak) ks key_id" "wd_files w (components path) = Some contents"
    and "wd_fault w FsOpen (components path) = None" "wd_fault w FsRead (components path) = None"
    and "ak_parse ak (trim contents) = None"
  shows "device_identity_ensure ak ks key_id path w = (Inl (InvalidIdentity (trim contents)), w)
    \<and> crypto_error_str (InvalidIdentity (trim contents)) = ''invalid age identity: '' @ trim contents"
proof -
  have "kk_read (device_kind ak) = from_secret_string ak" "kk_trims (device_kind ak)" by (simp_all add: device_kind_def)
  then show ?thesis
    using assms(2-) unfolding device_identity_ensure_def no_keystore_file [OF assms(1)]
    by (simp add: fallback_ensure_def io_error_def read_to_string_def from_secret_string_def)
qed

end
