(* ===== verification/StoreInit.thy ===== *)
theory StoreInit
  imports CliIndex ImportCmd Identity
begin

text \<open>
  \<open>wkp init\<close> (crates/wkp-cli/src/init.rs): a directory becomes a store. The state is the world and the index
  file. Git, the keystore, the path of the running program, the directory listing and the date are parameters.
\<close>

section \<open>Lines of a file\<close>

definition ensure_lines_present :: "string \<Rightarrow> string list \<Rightarrow> ('g world, unit) prog" where
  "ensure_lines_present file_path wanted =
     attempt (read_to_string file_path) (\<lambda>r.
       let existing = (case r of Inl _ \<Rightarrow> [] | Inr s \<Rightarrow> s);
           missing = filter (\<lambda>l. l \<notin> set (lines existing)) wanted
       in if missing = [] then ret ()
          else (let updated = (if existing \<noteq> [] \<and> \<not> ends_with existing [nl] then existing @ [nl] else existing)
                in fs_write (components file_path) (updated @ concat (map (\<lambda>l. l @ [nl]) missing))))"

definition IGNORED_PATTERNS :: "string list" where
  "IGNORED_PATTERNS =
     [''.wkp/index.db'', ''.wkp/tier*.md'', ''.wkp/device-id'', ''.wkp/device-identity'', ''.wkp/metrics.db*'']"

definition ensure_gitignored :: "string \<Rightarrow> string list \<Rightarrow> ('g world, unit) prog" where
  "ensure_gitignored path patterns = ensure_lines_present (join_path path ''.gitignore'') patterns"

section \<open>The program to register\<close>

text \<open>\<open>current_exe\<close> may fail; a test binary in a directory named deps stands for the program beside that directory.\<close>

definition plain_bin_sibling :: "string \<Rightarrow> 'g world \<Rightarrow> string option" where
  "plain_bin_sibling current w =
     (case path_parent (components current) of
        None \<Rightarrow> None
      | Some deps_dir \<Rightarrow>
          (if deps_dir = [] \<or> last deps_dir \<noteq> Normal ''deps'' then None
           else (case path_parent deps_dir of
                   None \<Rightarrow> None
                 | Some dir \<Rightarrow>
                     (let candidate = dir @ [Normal ''wkp''] in
                      if wd_files w candidate \<noteq> None then Some (path_str candidate) else None))))"

definition resolve_wkp_exe :: "string option \<Rightarrow> 'g world \<Rightarrow> string" where
  "resolve_wkp_exe current_exe w =
     (case current_exe of
        None \<Rightarrow> ''wkp''
      | Some current \<Rightarrow> (case plain_bin_sibling current w of Some sibling \<Rightarrow> sibling | None \<Rightarrow> current))"

section \<open>The command\<close>

record ('r, 'i, 'g) init_env =
  iv_git :: "'g git"
  iv_age :: "('r, 'i) age"
  iv_keys :: "('r, 'i, 'g world) age_keys"
  iv_keystore :: "'g world keystore"
  iv_canonicalize :: "string \<Rightarrow> 'g world \<Rightarrow> (string, string) result"
  iv_urandom :: "(string, nat list) result"
  iv_current_exe :: "string option"
  iv_list_dir :: "'g list_dir"
  iv_np :: "string \<Rightarrow> bool"
  iv_today :: string
  iv_var :: "string \<Rightarrow> string option"

definition register_merge_driver :: "('r, 'i, 'g) init_env \<Rightarrow> string \<Rightarrow> ('g world, unit) prog" where
  "register_merge_driver iv path =
     andthen (query (resolve_wkp_exe (iv_current_exe iv))) (\<lambda>wkp_exe.
     andthen (set_local_config (iv_git iv) path ''merge.wkp.name'' ''wkp OKF frontmatter merge driver (design 6.2)'') (\<lambda>_.
     set_local_config (iv_git iv) path ''merge.wkp.driver'' (wkp_exe @ '' merge-driver %O %A %B'')))"

definition configure_merge_driver :: "('r, 'i, 'g) init_env \<Rightarrow> string \<Rightarrow> ('g world, unit) prog" where
  "configure_merge_driver iv path =
     andthen (ensure_lines_present (join_path path ''.gitattributes'') [''*.md merge=wkp'']) (\<lambda>_. register_merge_driver iv path)"

definition crypto :: "('w \<Rightarrow> (crypto_error, 'a) result \<times> 'w) \<Rightarrow> ('w, 'a) prog" where
  "crypto m w = (case m w of (Inl e, w') \<Rightarrow> (Inl (crypto_error_str e), w') | (Inr a, w') \<Rightarrow> (Inr a, w'))"

definition register_filter :: "('r, 'i, 'g) init_env \<Rightarrow> string \<Rightarrow> ('g world, unit) prog" where
  "register_filter iv path =
     andthen (device_id (iv_urandom iv) path) (\<lambda>dev.
     let fallback_path = join_path path ''.wkp/device-identity'' in
     andthen (crypto (device_identity_ensure (iv_keys iv) (iv_keystore iv) dev fallback_path)) (\<lambda>identity.
     andthen (map_err (\<lambda>e. crypto_error_str (CryptoIo e))
       (append_recipient (iv_age iv) (join_path path ''recipients'')
         \<lparr>re_label = ''device:'' @ dev, re_kind = DeviceKey, re_recipient = ak_public (iv_keys iv) identity\<rparr>)) (\<lambda>_.
     andthen (query (resolve_wkp_exe (iv_current_exe iv))) (\<lambda>wkp_exe.
     andthen (set_local_config (iv_git iv) path ''filter.wkp-crypt.clean'' (wkp_exe @ '' filter clean %f'')) (\<lambda>_.
     andthen (set_local_config (iv_git iv) path ''filter.wkp-crypt.smudge'' (wkp_exe @ '' filter smudge %f'')) (\<lambda>_.
     set_local_config (iv_git iv) path ''filter.wkp-crypt.required'' ''true''))))))"

definition configure_encryption_filter :: "('r, 'i, 'g) init_env \<Rightarrow> string \<Rightarrow> ('g world, unit) prog" where
  "configure_encryption_filter iv path =
     andthen (ensure_lines_present (join_path path ''.gitattributes'') [''*.md filter=wkp-crypt'']) (\<lambda>_. register_filter iv path)"

text \<open>The steps before the index is built.\<close>

definition prepare_store :: "('r, 'i, 'g) init_env \<Rightarrow> string \<Rightarrow> ('g world, unit) prog" where
  "prepare_store iv path =
     andthen (init_repo (iv_git iv) path) (\<lambda>_.
     andthen (apply_init_settings (iv_git iv) (iv_canonicalize iv) path) (\<lambda>_.
     andthen (configure_merge_driver iv path) (\<lambda>_.
     andthen (configure_encryption_filter iv path) (\<lambda>_.
     andthen (create_dir_all (components (join_path path ''.wkp''))) (\<lambda>_.
     ensure_gitignored path IGNORED_PATTERNS)))))"

definition run_init_with_claude_home ::
  "('r, 'i, 'g) init_env \<Rightarrow> string \<Rightarrow> string option \<Rightarrow> 'g world \<times> index_file
    \<Rightarrow> (index_cmd_error, unit) result \<times> 'g world \<times> index_file" where
  "run_init_with_claude_home iv path claude_home s =
     (case s of (w, file) \<Rightarrow>
      (case prepare_store iv path w of
         (Inl e, w1) \<Rightarrow> (Inl (Message e), w1, file)
       | (Inr _, w1) \<Rightarrow>
           (case build_index (iv_today iv) [] None of
              (Inl e, _) \<Rightarrow> (Inl (Update_failed e), w1, file)
            | (Inr _, published) \<Rightarrow>
                (case run_import (iv_list_dir iv) (iv_np iv) path claude_home w1 of
                   (Inl e, w2) \<Rightarrow> (Inl (Message e), w2, index_file_of published)
                 | (Inr _, w2) \<Rightarrow> (Inr (), w2, index_file_of published)))))"

definition run_init ::
  "('r, 'i, 'g) init_env \<Rightarrow> string \<Rightarrow> 'g world \<times> index_file \<Rightarrow> (index_cmd_error, unit) result \<times> 'g world \<times> index_file" where
  "run_init iv path = run_init_with_claude_home iv path (claude_home_from_env (iv_var iv))"

section \<open>Paths below the store\<close>

lemma split_char_sep: "split_char c (a @ c # b) = split_char c a @ split_char c b"
proof (induction a)
  case (Cons d a)
  then show ?case by (cases "split_char c a") (auto split: list.split)
qed simp

lemma components_append:
  assumes "p \<noteq> []"
  shows "components (p @ CHR ''/'' # q) = components p @ List.map_filter part_component (split_char (CHR ''/'') q)"
proof -
  have root: "starts_with (p @ CHR ''/'' # q) ''/'' = starts_with p ''/''" using assms by (cases p) simp_all
  have first: "hd (split_char (CHR ''/'') p @ ps) = hd (split_char (CHR ''/'') p)" for ps by (simp add: hd_append)
  show ?thesis by (simp only: components_def Let_def root split_char_sep first map_filter_append) simp
qed

lemma components_join:
  assumes "\<not> starts_with q ''/''" "hd (split_char (CHR ''/'') q) \<noteq> ''.''"
  shows "components (join_path p q) = components p @ List.map_filter part_component (split_char (CHR ''/'') q)"
proof -
  consider (empty) "p = []" | (root) "p = ''/''" | (slash) a where "p = a @ ''/''" "a \<noteq> []" | (plain) "p \<noteq> []" "\<not> ends_with p ''/''"
    by (auto simp: ends_with_iff)
  then show ?thesis
  proof cases
    case empty
    have "components [] = []" by code_simp
    then show ?thesis using assms by (simp add: empty join_path_def) (simp add: components_def Let_def)
  next
    case root
    have "components ''/'' = [RootDir]" "starts_with (CHR ''/'' # q) ''/''" by code_simp+
    moreover have "ends_with ''/'' ''/''" by (simp add: ends_with_iff)
    ultimately show ?thesis
      using assms(1) by (simp add: root join_path_def) (simp add: components_def Let_def map_filter_simps part_component_def)
  next
    case slash
    have "components (a @ ''/'') = components a" using components_append [OF slash(2), of "[]"]
      by (simp add: map_filter_simps part_component_def)
    then show ?thesis using assms(1) components_append [OF slash(2), of q] by (simp add: slash(1) join_path_def)
  next
    case plain
    then show ?thesis using assms(1) components_append [OF plain(1), of q] by (simp add: join_path_def)
  qed
qed

lemma store_paths:
  "components (join_path path ''.gitignore'') = components path @ [Normal ''.gitignore'']"
  "components (join_path path ''.gitattributes'') = components path @ [Normal ''.gitattributes'']"
  "components (join_path path ''recipients'') = components path @ [Normal ''recipients'']"
  "components (join_path path ''allowed_signers'') = components path @ [Normal ''allowed_signers'']"
  "components (join_path path ''.wkp/device-id'') = components path @ [Normal ''.wkp'', Normal ''device-id'']"
  "components (join_path path ''.wkp/device-identity'') = components path @ [Normal ''.wkp'', Normal ''device-identity'']"
  by (subst components_join; simp add: List.map_filter_def part_component_def)+

section \<open>What ensuring lines does\<close>

definition content_of :: "component list \<Rightarrow> 'g world \<Rightarrow> string" where
  "content_of q w = (case wd_files w q of None \<Rightarrow> [] | Some s \<Rightarrow> s)"

definition plain_line :: "string \<Rightarrow> bool" where
  "plain_line l \<longleftrightarrow> nl \<notin> set l \<and> cr \<notin> set l"

lemma lines_keep:
  assumes "plain_line l" "l \<in> set (lines s)"
  shows "l \<in> set (lines ((if s \<noteq> [] \<and> \<not> ends_with s [nl] then s @ [nl] else s) @ r))"
proof (cases "s \<noteq> [] \<and> \<not> ends_with s [nl]")
  case True
  then have "last s \<noteq> nl" by (metis append_butlast_last_id ends_with_append)
  then obtain ls k where k: "split_inclusive nl s = ls @ [k]" "split_inclusive nl (s @ [nl]) = ls @ [k @ [nl]]" "nl \<notin> set k"
    using split_inclusive_open [of s nl] True by blast
  have "line_content k = k" using k(3) by (auto simp: line_content_def strip_suffix_eq_Some split: option.split)
  moreover have "line_content (l @ [nl]) = l"
    using assms(1) by (simp add: line_content_no_cr plain_line_def)
  ultimately have "l \<in> set (lines (s @ [nl]))" using assms(2) by (auto simp: lines_def k(1,2))
  then show ?thesis using True by (simp add: lines_terminated [of s r])
next
  case False
  then obtain a where "s = [] \<or> s = a @ [nl]" unfolding ends_with_iff by blast
  then show ?thesis using assms(2) lines_terminated [of a r] by auto
qed

lemma lines_of_unlines: "list_all plain_line ls \<Longrightarrow> lines (concat (map (\<lambda>l. l @ [nl]) ls)) = ls"
  by (induction ls) (simp_all add: plain_line_def lines_append)

lemma lines_appended: "list_all plain_line ls \<Longrightarrow> s = [] \<or> ends_with s [nl] \<Longrightarrow> lines (s @ concat (map (\<lambda>l. l @ [nl]) ls)) = lines s @ ls"
proof -
  assume ls: "list_all plain_line ls" and "s = [] \<or> ends_with s [nl]"
  then obtain a where "s = [] \<or> s = a @ [nl]" unfolding ends_with_iff by blast
  then show ?thesis using lines_of_unlines [OF ls] lines_terminated [of a "concat (map (\<lambda>l. l @ [nl]) ls)"]
    by (auto simp: lines_def)
qed

lemma ensure_lines_effect:
  assumes "ensure_lines_present p wanted w = (Inr u, w')" "wd_fault w FsRead (components p) = None" "list_all plain_line wanted"
  shows "\<exists>t. content_of (components p) w' = content_of (components p) w @ t"
    and "set wanted \<subseteq> set (lines (content_of (components p) w'))"
    and "plain_line l \<Longrightarrow> l \<in> set (lines (content_of (components p) w)) \<Longrightarrow> l \<in> set (lines (content_of (components p) w'))"
    and "wd_fault w' = wd_fault w" "q \<noteq> components p \<Longrightarrow> wd_files w' q = wd_files w q"
    and "wanted \<noteq> [] \<Longrightarrow> wd_files w' (components p) \<noteq> None"
proof -
  let ?old = "content_of (components p) w"
  let ?closed = "if ?old \<noteq> [] \<and> \<not> ends_with ?old [nl] then ?old @ [nl] else ?old"
  let ?missing = "filter (\<lambda>l. l \<notin> set (lines ?old)) wanted"
  let ?new = "?closed @ concat (map (\<lambda>l. l @ [nl]) ?missing)"
  have run: "ensure_lines_present p wanted w = (if ?missing = [] then ret () else fs_write (components p) ?new) w"
    using assms(2) by (auto simp: ensure_lines_present_def attempt_def read_to_string_def content_of_def Let_def split: option.split)
  have present: "wanted \<noteq> [] \<Longrightarrow> ?missing = [] \<Longrightarrow> wd_files w (components p) \<noteq> None"
    by (cases "wd_files w (components p)") (auto simp: content_of_def lines_def)
  have wrote: "wd_files w' = (wd_files w)(components p \<mapsto> ?new) \<and> wd_fault w' = wd_fault w" if "?missing \<noteq> []"
  proof -
    have "fs_write (components p) ?new w = (Inr u, w')" using assms(1) run that by (simp only: if_False)
    then show ?thesis by (auto simp only: fs_write_def split: option.splits) simp_all
  qed
  have same: "w' = w" if "?missing = []" using assms(1) run that by simp
  have new: "content_of (components p) w' = (if ?missing = [] then ?old else ?new)"
  proof (cases "?missing = []")
    case False
    then show ?thesis using wrote by (simp only: if_False) (simp add: content_of_def)
  qed (simp add: same)
  have frame: "wd_fault w' = wd_fault w" "\<And>q. q \<noteq> components p \<Longrightarrow> wd_files w' q = wd_files w q"
    using wrote same by (cases "?missing = []"; simp)+
  have there: "wanted \<noteq> [] \<Longrightarrow> wd_files w' (components p) \<noteq> None"
    using wrote same present by (cases "?missing = []") auto
  show "\<exists>t. content_of (components p) w' = ?old @ t" by (auto simp: new)
  have missing: "list_all plain_line ?missing" using assms(3) by (auto simp: list_all_iff)
  have closed: "?closed = [] \<or> ends_with ?closed [nl]" by simp
  show kept: "plain_line l \<Longrightarrow> l \<in> set (lines ?old) \<Longrightarrow> l \<in> set (lines (content_of (components p) w'))" for l
    using lines_keep [of l ?old "concat (map (\<lambda>l. l @ [nl]) ?missing)"] by (simp only: new if_split) simp
  show "set wanted \<subseteq> set (lines (content_of (components p) w'))"
  proof
    fix l assume l: "l \<in> set wanted"
    then have "plain_line l" using assms(3) by (simp add: list_all_iff)
    show "l \<in> set (lines (content_of (components p) w'))"
    proof (cases "l \<in> set (lines ?old)")
      case True
      then show ?thesis using kept \<open>plain_line l\<close> by blast
    next
      case False
      then have in_missing: "l \<in> set ?missing" using l by simp
      then have "content_of (components p) w' = ?new" unfolding new by (auto simp: filter_empty_conv)
      then show ?thesis unfolding lines_appended [OF missing closed, symmetric] using lines_appended [OF missing closed] in_missing
        by (metis (no_types, lifting) Un_iff set_append)
    qed
  qed
  show "wd_fault w' = wd_fault w" "q \<noteq> components p \<Longrightarrow> wd_files w' q = wd_files w q" using frame by blast+
  show "wanted \<noteq> [] \<Longrightarrow> wd_files w' (components p) \<noteq> None" by (rule there)
qed

section \<open>A file that a command does not touch\<close>

definition calm :: "component list \<Rightarrow> 'g world \<Rightarrow> 'g world \<Rightarrow> bool" where
  "calm q w w' \<longleftrightarrow> wd_files w' q = wd_files w q \<and> wd_fault w' = wd_fault w"

text \<open>What is said of one file, and of the refusals of the operating system.\<close>

locale watched_file =
  fixes q :: "component list" and holds :: "'g world \<Rightarrow> bool"
  assumes holds_calm: "calm q w w' \<Longrightarrow> holds w \<Longrightarrow> holds w'"
begin

lemma keeps_calm: "(\<And>w. calm q w (snd (m w))) \<Longrightarrow> keeps holds m"
  using holds_calm by (auto simp: keeps_def)

lemma keeps_files:
  "keeps holds (read_to_string f)" "p \<noteq> q \<Longrightarrow> keeps holds (fs_write p s)" "keeps holds (create_dir_all d)"
  "p \<noteq> q \<Longrightarrow> keeps holds (open_new p)"
  by (rule keeps_calm; auto simp: calm_def read_to_string_def fs_write_def create_dir_all_def open_new_def split: option.split)+

lemma keeps_parent: "keeps holds (create_parent f)"
  unfolding create_parent_def by (intro keeps_rules keeps_files)

lemma keeps_lines: "components f \<noteq> q \<Longrightarrow> keeps holds (ensure_lines_present f ls)"
  unfolding ensure_lines_present_def Let_def by (intro keeps_rules keeps_files)

lemma keeps_appended_line: "components f \<noteq> q \<Longrightarrow> keeps holds (append_recipient ag f e)"
  unfolding append_recipient_def by (intro keeps_rules keeps_files keeps_parent)

lemma keeps_device_id_file: "components (join_path path ''.wkp/device-id'') \<noteq> q \<Longrightarrow> keeps holds (device_id urandom path)"
  unfolding device_id_def Let_def by (intro keeps_rules keeps_files keeps_parent)

lemma keeps_io: "keeps holds m \<Longrightarrow> holds w \<Longrightarrow> holds (snd (io_error m w))"
  by (auto simp: keeps_def io_error_def split: prod.split sum.split dest: spec [of _ w])

lemma holds_case:
  assumes "holds (snd p)" "\<And>e v. holds v \<Longrightarrow> holds (snd (f e v))" "\<And>a v. holds v \<Longrightarrow> holds (snd (g a v))"
  shows "holds (snd (case p of (Inl e, v) \<Rightarrow> f e v | (Inr a, v) \<Rightarrow> g a v))"
  using assms by (cases p; cases "fst p") auto

lemma keeps_get_or_create:
  assumes "\<And>w. calm q w (snd (kk_generate kk w))" "\<And>a b c w. calm q w (snd (ks_set ks a b c w))" "holds w"
  shows "holds (snd (get_or_create kk ks key_id w))"
proof (cases "ks_get ks (kk_service kk) key_id w")
  case NoEntry
  show ?thesis unfolding get_or_create_def NoEntry keystore_secret.case
  proof (intro holds_case holds_calm [OF assms(1,3)])
    fix i w1 assume "holds w1"
    then show "holds (snd (case kk_show kk i of Inl e \<Rightarrow> (Inl e, w1) | Inr secret \<Rightarrow>
        (case ks_set ks (kk_service kk) key_id secret w1 of (Inl e, w2) \<Rightarrow> (Inl (Keystore e), w2) | (Inr _, w2) \<Rightarrow> (Inr i, w2))))"
      by (cases "kk_show kk i") (auto intro!: holds_case holds_calm [OF assms(2)])
  qed simp
qed (use assms(3) in \<open>simp_all add: get_or_create_def\<close>)

lemma keeps_fallback:
  assumes "\<And>w. calm q w (snd (kk_generate kk w))" "components f \<noteq> q" "holds w"
  shows "holds (snd (fallback_ensure kk f w))"
proof -
  have new: "keeps holds (andthen (create_parent f) (\<lambda>_. open_new (components f)))"
    using assms(2) by (intro keeps_rules keeps_parent keeps_files)
  have show_case: "holds (snd (case kk_show kk i of Inl e \<Rightarrow> (Inl e, w2) | Inr secret \<Rightarrow>
      (case io_error (fs_write (components f) secret) w2 of (Inl e, w3) \<Rightarrow> (Inl e, w3) | (Inr _, w3) \<Rightarrow> (Inr i, w3))))"
    if "holds w2" for i w2
    using that assms(2) by (cases "kk_show kk i") (auto intro!: holds_case keeps_io keeps_files)
  have "holds (snd (fallback_create kk f w))"
    unfolding fallback_create_def
    by (intro holds_case holds_calm [OF assms(1,3)] keeps_io [OF new] show_case) simp_all
  then show ?thesis using keeps_io [OF keeps_files(1) assms(3), of f]
    by (auto simp: fallback_ensure_def intro!: holds_case)
qed

lemma keeps_ensure_key:
  assumes "\<And>w. calm q w (snd (kk_generate kk w))" "\<And>a b c w. calm q w (snd (ks_set ks a b c w))" "components f \<noteq> q"
  shows "keeps holds (crypto (ensure_key kk ks key_id f))"
  unfolding keeps_def
proof (intro allI impI)
  fix w :: "'g world" assume held: "holds w"
  then have got: "holds (snd (keystore_ensure kk ks key_id w))"
    using keeps_get_or_create [OF assms(1,2)] by (auto simp: keystore_ensure_def split: option.split)
  then have "holds (snd (ensure_key kk ks key_id f w))"
    unfolding ensure_key_def by (intro holds_case keeps_fallback [OF assms(1,3)]) simp_all
  then show "holds (snd (crypto (ensure_key kk ks key_id f) w))" by (auto simp: crypto_def split: prod.split sum.split)
qed

end

section \<open>What a store is given\<close>

text \<open>A file that only grows, with the lines it has by now.\<close>

definition grown :: "component list \<Rightarrow> string \<Rightarrow> string list \<Rightarrow> 'g world \<Rightarrow> bool" where
  "grown q old ls w \<longleftrightarrow>
     wd_fault w FsRead q = None \<and> (\<exists>t. content_of q w = old @ t) \<and> set ls \<subseteq> set (lines (content_of q w))"

interpretation grown_file: watched_file q "grown q old ls" for q old ls
  by unfold_locales (auto simp: grown_def calm_def content_of_def)

lemma ensure_lines_grown:
  assumes "grown (components p) old ls w" "list_all plain_line (ls @ wanted)" "ensure_lines_present p wanted w = (Inr u, w')"
  shows "grown (components p) old (ls @ wanted) w'"
proof -
  have fault: "wd_fault w FsRead (components p) = None" and plain: "list_all plain_line wanted" using assms(1,2) by (simp_all add: grown_def)
  note effect = ensure_lines_effect [OF assms(3) fault plain]
  have "set ls \<subseteq> set (lines (content_of (components p) w'))"
    using effect(3) assms(1,2) by (fastforce simp: grown_def list_all_iff)
  then show ?thesis using effect(1,2,4) assms(1) by (auto simp: grown_def)
qed

text \<open>
  What is relied on: git's commands for repositories and settings, the key generator, the keystore and the
  listing of a directory do not touch the file.
\<close>

definition calm_env :: "('r, 'i, 'g) init_env \<Rightarrow> component list \<Rightarrow> bool" where
  "calm_env iv q \<longleftrightarrow>
     (\<forall>repo c rest stdin w. c \<in> {''init'', ''config'', ''maintenance''} \<longrightarrow> calm q w (snd (iv_git iv (''-C'' # repo # c # rest) stdin w)))
   \<and> (\<forall>w. calm q w (snd (ak_generate (iv_keys iv) w)))
   \<and> (\<forall>a b c w. calm q w (snd (ks_set (iv_keystore iv) a b c w)))
   \<and> (\<forall>p w. calm q w (snd (iv_list_dir iv p w)))"

lemma calm_run_git:
  assumes "calm_env iv q" "c \<in> {''init'', ''config'', ''maintenance''}"
  shows "calm q w (snd (run_git (iv_git iv) repo (c # rest) w))"
proof -
  have "calm q w (snd (iv_git iv (''-C'' # repo # c # rest) [] w))" using assms unfolding calm_env_def by blast
  then show ?thesis by (auto simp: run_git_def spawn_git_def calm_def split: prod.split git_outcome.split)
qed

lemma calm_device_kind:
  assumes "calm_env iv q"
  shows "calm q w (snd (kk_generate (device_kind (iv_keys iv)) w))"
proof -
  have "calm q w (snd (ak_generate (iv_keys iv) w))" using assms unfolding calm_env_def by blast
  then show ?thesis by (auto simp: device_kind_def split: prod.split)
qed

text \<open>The parts of the command that keep what is said of a file they do not write.\<close>

context watched_file
begin

lemma keeps_git: "calm_env iv q \<Longrightarrow> c \<in> {''init'', ''config'', ''maintenance''} \<Longrightarrow> keeps holds (run_git (iv_git iv) repo (c # rest))"
  by (rule keeps_calm) (rule calm_run_git)

lemma keeps_config: "calm_env iv q \<Longrightarrow> keeps holds (set_local_config (iv_git iv) path k v)"
  unfolding set_local_config_def by (rule keeps_git) simp_all

lemma keeps_canonicalize: "keeps holds (\<lambda>w. (c w, w))"
  by (simp add: keeps_def)

lemma keeps_settings:
  assumes "calm_env iv q" "components (join_path path ''allowed_signers'') \<noteq> q"
  shows "keeps holds (apply_init_settings (iv_git iv) (iv_canonicalize iv) path)"
  unfolding apply_init_settings_def configure_ssh_signing_def Let_def
  by (intro keeps_rules keeps_git [OF assms(1)] keeps_files assms(2) keeps_canonicalize) simp_all

lemma keeps_merge_registration: "calm_env iv q \<Longrightarrow> keeps holds (register_merge_driver iv path)"
  unfolding register_merge_driver_def by (intro keeps_rules keeps_config)

lemma keeps_filter_registration:
  assumes "calm_env iv q" "components (join_path path ''.wkp/device-id'') \<noteq> q"
    "components (join_path path ''.wkp/device-identity'') \<noteq> q" "components (join_path path ''recipients'') \<noteq> q"
  shows "keeps holds (register_filter iv path)"
proof -
  have "calm q w (snd (ks_set (iv_keystore iv) a b c w))" for a b c w using assms(1) unfolding calm_env_def by blast
  then show ?thesis
    unfolding register_filter_def Let_def device_identity_ensure_def
    by (intro keeps_rules keeps_config [OF assms(1)] keeps_device_id_file keeps_appended_line keeps_ensure_key
        calm_device_kind [OF assms(1)] assms(2-))
qed

lemma keeps_repo: "calm_env iv q \<Longrightarrow> keeps holds (init_repo (iv_git iv) path)"
  unfolding init_repo_def by (intro keeps_rules keeps_files keeps_git) simp_all

end

lemma plain_lines:
  "list_all plain_line [''*.md merge=wkp'', ''*.md filter=wkp-crypt'']" "list_all plain_line IGNORED_PATTERNS"
  by code_simp+

lemma grown_start: "wd_fault w FsRead q = None \<Longrightarrow> grown q (content_of q w) [] w"
  by (simp add: grown_def)

text \<open>The steps of a preparation that succeeded, one world after the other.\<close>

lemma prepare_steps:
  assumes "prepare_store iv path w = (Inr u, w')"
  obtains a b c w1 w2 w3 w4 w5 w6 w7 where "init_repo (iv_git iv) path w = (Inr (), w1)"
    "apply_init_settings (iv_git iv) (iv_canonicalize iv) path w1 = (Inr (), w2)"
    "ensure_lines_present (join_path path ''.gitattributes'') [''*.md merge=wkp''] w2 = (Inr a, w3)"
    "register_merge_driver iv path w3 = (Inr (), w4)"
    "ensure_lines_present (join_path path ''.gitattributes'') [''*.md filter=wkp-crypt''] w4 = (Inr b, w5)"
    "register_filter iv path w5 = (Inr (), w6)"
    "create_dir_all (components (join_path path ''.wkp'')) w6 = (Inr (), w7)"
    "ensure_lines_present (join_path path ''.gitignore'') IGNORED_PATTERNS w7 = (Inr c, w')"
  using assms unfolding prepare_store_def configure_merge_driver_def configure_encryption_filter_def ensure_gitignored_def
  by (elim andthen_ok) simp

lemma paths_differ:
  "f \<in> {''.gitignore'', ''.gitattributes''} \<Longrightarrow> g \<in> {''allowed_signers'', ''.wkp/device-id'', ''.wkp/device-identity'', ''recipients''} \<Longrightarrow>
     components (join_path path g) \<noteq> components (join_path path f)"
  "components (join_path path ''.gitignore'') \<noteq> components (join_path path ''.gitattributes'')"
  by (auto simp: store_paths)

lemma prepared_attributes:
  assumes "prepare_store iv path w = (Inr u, w')" "calm_env iv (components (join_path path ''.gitattributes''))"
    and "wd_fault w FsRead (components (join_path path ''.gitattributes'')) = None"
  shows "grown (components (join_path path ''.gitattributes'')) (content_of (components (join_path path ''.gitattributes'')) w)
    [''*.md merge=wkp'', ''*.md filter=wkp-crypt''] w'"
proof -
  let ?q = "components (join_path path ''.gitattributes'')"
  let ?old = "content_of ?q w"
  obtain a b c w1 w2 w3 w4 w5 w6 w7 where steps: "init_repo (iv_git iv) path w = (Inr (), w1)"
    "apply_init_settings (iv_git iv) (iv_canonicalize iv) path w1 = (Inr (), w2)"
    "ensure_lines_present (join_path path ''.gitattributes'') [''*.md merge=wkp''] w2 = (Inr a, w3)"
    "register_merge_driver iv path w3 = (Inr (), w4)"
    "ensure_lines_present (join_path path ''.gitattributes'') [''*.md filter=wkp-crypt''] w4 = (Inr b, w5)"
    "register_filter iv path w5 = (Inr (), w6)"
    "create_dir_all (components (join_path path ''.wkp'')) w6 = (Inr (), w7)"
    "ensure_lines_present (join_path path ''.gitignore'') IGNORED_PATTERNS w7 = (Inr c, w')"
    by (rule prepare_steps [OF assms(1)])
  have others: "components (join_path path ''allowed_signers'') \<noteq> ?q" "components (join_path path ''.wkp/device-id'') \<noteq> ?q"
    "components (join_path path ''.wkp/device-identity'') \<noteq> ?q" "components (join_path path ''recipients'') \<noteq> ?q"
    by (rule paths_differ(1); simp)+
  have "grown ?q ?old [] w1" using keepsD [OF grown_file.keeps_repo [OF assms(2)] steps(1)] grown_start [OF assms(3)] by blast
  then have "grown ?q ?old [] w2" by (rule keepsD [OF grown_file.keeps_settings [OF assms(2) others(1)] steps(2)])
  then have "grown ?q ?old ([] @ [''*.md merge=wkp'']) w3" using plain_lines(1) by (intro ensure_lines_grown [OF _ _ steps(3)]) simp_all
  then have "grown ?q ?old ([] @ [''*.md merge=wkp'']) w4" by (rule keepsD [OF grown_file.keeps_merge_registration [OF assms(2)] steps(4)])
  then have "grown ?q ?old (([] @ [''*.md merge=wkp'']) @ [''*.md filter=wkp-crypt'']) w5"
    using plain_lines(1) by (intro ensure_lines_grown [OF _ _ steps(5)]) simp_all
  then have "grown ?q ?old [''*.md merge=wkp'', ''*.md filter=wkp-crypt''] w5" by simp
  then have "grown ?q ?old [''*.md merge=wkp'', ''*.md filter=wkp-crypt''] w6"
    by (rule keepsD [OF grown_file.keeps_filter_registration [OF assms(2) others(2-4)] steps(6)])
  then have "grown ?q ?old [''*.md merge=wkp'', ''*.md filter=wkp-crypt''] w7" by (rule keepsD [OF grown_file.keeps_files(3) steps(7)])
  then show ?thesis by (rule keepsD [OF grown_file.keeps_lines [OF paths_differ(2)] steps(8)])
qed

lemma prepared_ignores:
  assumes "prepare_store iv path w = (Inr u, w')" "calm_env iv (components (join_path path ''.gitignore''))"
    and "wd_fault w FsRead (components (join_path path ''.gitignore'')) = None"
  shows "grown (components (join_path path ''.gitignore'')) (content_of (components (join_path path ''.gitignore'')) w) IGNORED_PATTERNS w'"
proof -
  let ?q = "components (join_path path ''.gitignore'')"
  let ?old = "content_of ?q w"
  obtain a b c w1 w2 w3 w4 w5 w6 w7 where steps: "init_repo (iv_git iv) path w = (Inr (), w1)"
    "apply_init_settings (iv_git iv) (iv_canonicalize iv) path w1 = (Inr (), w2)"
    "ensure_lines_present (join_path path ''.gitattributes'') [''*.md merge=wkp''] w2 = (Inr a, w3)"
    "register_merge_driver iv path w3 = (Inr (), w4)"
    "ensure_lines_present (join_path path ''.gitattributes'') [''*.md filter=wkp-crypt''] w4 = (Inr b, w5)"
    "register_filter iv path w5 = (Inr (), w6)"
    "create_dir_all (components (join_path path ''.wkp'')) w6 = (Inr (), w7)"
    "ensure_lines_present (join_path path ''.gitignore'') IGNORED_PATTERNS w7 = (Inr c, w')"
    by (rule prepare_steps [OF assms(1)])
  note attributes = grown_file.keeps_lines [OF paths_differ(2) [symmetric]]
  have others: "components (join_path path ''allowed_signers'') \<noteq> ?q" "components (join_path path ''.wkp/device-id'') \<noteq> ?q"
    "components (join_path path ''.wkp/device-identity'') \<noteq> ?q" "components (join_path path ''recipients'') \<noteq> ?q"
    by (rule paths_differ(1); simp)+
  have "grown ?q ?old [] w1" using keepsD [OF grown_file.keeps_repo [OF assms(2)] steps(1)] grown_start [OF assms(3)] by blast
  then have "grown ?q ?old [] w2" by (rule keepsD [OF grown_file.keeps_settings [OF assms(2) others(1)] steps(2)])
  then have "grown ?q ?old [] w3" by (rule keepsD [OF attributes steps(3)])
  then have "grown ?q ?old [] w4" by (rule keepsD [OF grown_file.keeps_merge_registration [OF assms(2)] steps(4)])
  then have "grown ?q ?old [] w5" by (rule keepsD [OF attributes steps(5)])
  then have "grown ?q ?old [] w6"
    by (rule keepsD [OF grown_file.keeps_filter_registration [OF assms(2) others(2-4)] steps(6)])
  then have "grown ?q ?old [] w7" by (rule keepsD [OF grown_file.keeps_files(3) steps(7)])
  then show ?thesis using ensure_lines_grown [OF _ _ steps(8), of ?old "[]"] plain_lines(2) by simp
qed

lemma grown_content: "grown q old ls w \<Longrightarrow> ls \<noteq> [] \<Longrightarrow> \<exists>t. wd_files w q = Some (old @ t) \<and> set ls \<subseteq> set (lines (old @ t))"
  by (cases "wd_files w q") (auto simp: grown_def content_of_def lines_def)


definition quiet_env :: "(string, string, unit) init_env" where
  "quiet_env =
     \<lparr>iv_git = (\<lambda>_ _ w. (GitExit True [] [], w)),
      iv_age = \<lparr>ag_parse = Some, ag_show = id, ag_encrypt = (\<lambda>_ p. Inr p), ag_decrypt = (\<lambda>_ p. Inr p)\<rparr>,
      iv_keys = \<lparr>ak_generate = (\<lambda>w. (''K'', w)), ak_show = id, ak_parse = Some, ak_public = id\<rparr>,
      iv_keystore = \<lparr>ks_entry = (\<lambda>_ _ _. Some ''none''), ks_get = (\<lambda>_ _ _. NoEntry), ks_set = (\<lambda>_ _ _ w. (Inl ''none'', w))\<rparr>,
      iv_canonicalize = (\<lambda>p _. Inr p), iv_urandom = Inr [1, 2], iv_current_exe = None, iv_list_dir = (\<lambda>_. ret []),
      iv_np = (\<lambda>_. False), iv_today = ''2026-07-26'', iv_var = (\<lambda>_. None)\<rparr>"

definition ignoring_world :: "unit world" where
  "ignoring_world = empty_world\<lparr>wd_files := [components ''s/.gitignore'' \<mapsto> ''target/'']\<rparr>"


section \<open>What is lost and what is missed\<close>

text \<open>A file that cannot be read, for instance one that is not UTF-8, counts as empty and is replaced.\<close>

lemma unreadable_lines_replaced:
  assumes "wd_fault w FsRead (components p) = Some e" "wd_fault w FsWrite (components p) = None" "wanted \<noteq> []"
  shows "wd_files (snd (ensure_lines_present p wanted w)) (components p) = Some (concat (map (\<lambda>l. l @ [nl]) wanted))"
proof -
  have "filter (\<lambda>l. l \<notin> set (lines [])) wanted = wanted" by (simp add: lines_def)
  then show ?thesis using assms by (simp add: ensure_lines_present_def attempt_def read_to_string_def Let_def fs_write_def)
qed

text \<open>
  The patterns of gitignore for a path in the same directory: a star stands for any text without a slash. The key
  files \<open>wkp hub register\<close> writes match none of the patterns.
\<close>

fun glob :: "string \<Rightarrow> string \<Rightarrow> bool" where
  "glob [] s \<longleftrightarrow> s = []"
| "glob (c # p) s \<longleftrightarrow>
     (if c = CHR ''*'' then glob p s \<or> (case s of [] \<Rightarrow> False | d # s' \<Rightarrow> d \<noteq> CHR ''/'' \<and> glob (c # p) s')
      else (case s of [] \<Rightarrow> False | d # s' \<Rightarrow> d = c \<and> glob p s'))"

lemma hub_keys_not_ignored:
  "\<not> list_ex (\<lambda>p. glob p ''.wkp/hub-signing-identity'' \<or> glob p ''.wkp/hub-device-key.pem'') IGNORED_PATTERNS"
  "list_ex (\<lambda>p. glob p ''.wkp/device-identity'') IGNORED_PATTERNS"
  by code_simp+

end
