(* ===== verification/HubRegister.thy ===== *)
theory HubRegister
  imports StoreInit
begin

text \<open>
  \<open>wkp hub register\<close> (crates/wkp-cli/src/hub_register.rs), the device's side of the device authorization
  grant: its arguments, the request for a code, the polling until the code is approved or has expired, and the files
  a registration leaves. The HTTP client with its trusted root, the readers of JSON and PEM text, the monotonic clock,
  sleeping and file modes are parameters. What is reported while waiting is not modelled.
\<close>

section \<open>Arguments\<close>

record hub_register_options =
  hr_path :: string
  hr_hub_url :: string
  hr_tenant_slug :: string
  hr_ca_cert_path :: string

record hub_register_args =
  ha_path :: string
  ha_hub_url :: "string option"
  ha_tenant_slug :: "string option"
  ha_ca_cert_path :: "string option"

definition hub_register_flag :: "string \<Rightarrow> (string \<Rightarrow> hub_register_args \<Rightarrow> hub_register_args) option" where
  "hub_register_flag arg =
     (if arg = ''--hub-url'' then Some (\<lambda>v a. a\<lparr>ha_hub_url := Some v\<rparr>)
      else if arg = ''--tenant'' then Some (\<lambda>v a. a\<lparr>ha_tenant_slug := Some v\<rparr>)
      else if arg = ''--path'' then Some (\<lambda>v a. a\<lparr>ha_path := v\<rparr>)
      else if arg = ''--ca-cert'' then Some (\<lambda>v a. a\<lparr>ha_ca_cert_path := Some v\<rparr>)
      else None)"

definition hub_register_example :: string where
  "hub_register_example = ''e.g. `wkp hub register --hub-url https://hub.example.com --tenant acme --ca-cert ./hub-ca.pem`''"

definition parse_hub_register_args :: "(string, string) result \<Rightarrow> string list \<Rightarrow> (string, hub_register_options) result" where
  "parse_hub_register_args cwd args =
     bind_result cwd (\<lambda>path.
     bind_result (arg_loop hub_register_flag unrecognized args
       \<lparr>ha_path = path, ha_hub_url = None, ha_tenant_slug = None, ha_ca_cert_path = None\<rparr>) (\<lambda>a.
     bind_result (required (''hub register requires --hub-url <url>, '' @ hub_register_example) (ha_hub_url a)) (\<lambda>url.
     bind_result (required (''hub register requires --tenant <slug>, '' @ hub_register_example) (ha_tenant_slug a)) (\<lambda>slug.
     bind_result (required (''hub register requires --ca-cert <path> (the hub's own CA root, from `wkp-hub ca-cert`), ''
       @ hub_register_example) (ha_ca_cert_path a)) (\<lambda>ca.
     Inr \<lparr>hr_path = ha_path a, hr_hub_url = trim_end_chars [CHR ''/''] url, hr_tenant_slug = slug, hr_ca_cert_path = ca\<rparr>)))))"

section \<open>The files of a registration\<close>

definition SIGNING_IDENTITY_FALLBACK :: string where "SIGNING_IDENTITY_FALLBACK = ''.wkp/hub-signing-identity''"
definition DEVICE_CERT_FILE :: string where "DEVICE_CERT_FILE = ''.wkp/hub-device-cert.pem''"
definition CA_CERT_FILE :: string where "CA_CERT_FILE = ''.wkp/hub-ca-cert.pem''"
definition DEVICE_KEY_PEM_FILE :: string where "DEVICE_KEY_PEM_FILE = ''.wkp/hub-device-key.pem''"

definition write_public_file :: "string \<Rightarrow> string \<Rightarrow> ('g world, unit) prog" where
  "write_public_file path contents = andthen (create_parent path) (\<lambda>_. fs_write (components path) contents)"

type_synonym 'g chmod = "component list \<Rightarrow> nat \<Rightarrow> ('g world, unit) prog"

definition write_private_file :: "'g chmod \<Rightarrow> string \<Rightarrow> string \<Rightarrow> ('g world, unit) prog" where
  "write_private_file chmod path contents =
     andthen (create_parent path) (\<lambda>_.
     andthen (fs_write (components path) contents) (\<lambda>_. chmod (components path) 384))"

record hub_register_summary =
  hs_tenant_slug :: string
  hs_device_id :: int

definition hub_register_summary_str :: "hub_register_summary \<Rightarrow> string" where
  "hub_register_summary_str s =
     ''wkp: registered with tenant '' @ hs_tenant_slug s @ '' (device id '' @ show_int (hs_device_id s)
       @ ''), certificate stored at '' @ DEVICE_CERT_FILE @ '', git-usable key at '' @ DEVICE_KEY_PEM_FILE"

section \<open>Talking to the hub\<close>

record device_code_reply =
  dc_device_code :: string
  dc_user_code :: string
  dc_verification_uri :: string
  dc_expires_in :: int
  dc_interval :: nat

record token_reply =
  tk_status :: "string option"
  tk_tenant_slug :: "string option"
  tk_device_id :: "int option"
  tk_certificate_pem :: "string option"
  tk_ca_cert_pem :: "string option"
  tk_error :: "string option"

text \<open>The two requests, by the fields of their JSON bodies; a reply has a status and a body that may not be readable.\<close>

datatype hub_request = AskCode string string | AskToken string

record hub_reply =
  rp_status :: nat
  rp_body :: "(string, string) result"

text \<open>\<open>'c\<close> is a certificate the client may be told to trust, and nothing else.\<close>

record ('c, 'i, 'k, 'g) register_env =
  rv_urandom :: "(string, nat list) result"
  rv_keys :: "('i, 'k, 'g world) ssh_keys"
  rv_keystore :: "'g world keystore"
  rv_cert :: "string \<Rightarrow> (string, 'c) result"
  rv_post :: "'c \<Rightarrow> string \<Rightarrow> hub_request \<Rightarrow> ('g world, hub_reply) prog"
  rv_code :: "string \<Rightarrow> (string, device_code_reply) result"
  rv_token :: "string \<Rightarrow> (string, token_reply) result"
  rv_status_text :: "nat \<Rightarrow> string"
  rv_instant :: "'g world \<Rightarrow> int"
  rv_sleep :: "nat \<Rightarrow> 'g world \<Rightarrow> 'g world"
  rv_chmod :: "'g chmod"

definition given :: "(string, 'a) result \<Rightarrow> ('w, 'a) prog" where
  "given r w = (r, w)"

text \<open>The identity of the device, the root it trusts, and its request for a certificate.\<close>

definition prepare_registration :: "('c, 'i, 'k, 'g) register_env \<Rightarrow> hub_register_options \<Rightarrow> ('g world, 'i \<times> 'c \<times> string) prog" where
  "prepare_registration rv opts =
     andthen (device_id (rv_urandom rv) (hr_path opts)) (\<lambda>dev.
     andthen (crypto (signing_identity_ensure (rv_keys rv) (rv_keystore rv) dev (join_path (hr_path opts) SIGNING_IDENTITY_FALLBACK))) (\<lambda>identity.
     andthen (given (map_error crypto_error_str (to_csr_pem (rv_keys rv) identity))) (\<lambda>csr_pem.
     andthen (map_err (\<lambda>e. ''reading --ca-cert '' @ hr_ca_cert_path opts @ '': '' @ e) (read_to_string (hr_ca_cert_path opts))) (\<lambda>pem.
     andthen (given (map_error (\<lambda>e. hr_ca_cert_path opts @ '' is not a valid PEM certificate: '' @ e) (rv_cert rv pem))) (\<lambda>ca_cert.
     ret (identity, ca_cert, csr_pem))))))"

definition request_code ::
  "('c, 'i, 'k, 'g) register_env \<Rightarrow> hub_register_options \<Rightarrow> 'c \<Rightarrow> string \<Rightarrow> ('g world, device_code_reply) prog" where
  "request_code rv opts ca_cert csr_pem =
     (let code_url = hr_hub_url opts @ ''/device/code'' in
      andthen (map_err (\<lambda>e. ''requesting a device code from '' @ code_url @ '': '' @ e)
        (rv_post rv ca_cert code_url (AskCode (hr_tenant_slug opts) csr_pem))) (\<lambda>reply.
      if rp_status reply \<noteq> 200 then
        err (''hub refused the device-code request ('' @ rv_status_text rv (rp_status reply) @ ''): ''
          @ (case rp_body reply of Inl _ \<Rightarrow> [] | Inr body \<Rightarrow> body))
      else given (map_error (\<lambda>e. ''parsing device-code response: '' @ e) (bind_result (rp_body reply) (rv_code rv)))))"

definition verification_url :: "hub_register_options \<Rightarrow> device_code_reply \<Rightarrow> string" where
  "verification_url opts code =
     (if starts_with (dc_verification_uri code) ''http'' then dc_verification_uri code
      else hr_hub_url opts @ dc_verification_uri code)"

section \<open>Polling\<close>

definition poll_once ::
  "('c, 'i, 'k, 'g) register_env \<Rightarrow> hub_register_options \<Rightarrow> 'c \<Rightarrow> device_code_reply \<Rightarrow> ('g world, token_reply) prog" where
  "poll_once rv opts ca_cert code =
     (let token_url = hr_hub_url opts @ ''/device/token'' in
      andthen (map_err (\<lambda>e. ''polling '' @ token_url @ '': '' @ e) (rv_post rv ca_cert token_url (AskToken (dc_device_code code)))) (\<lambda>reply.
      given (map_error (\<lambda>e. ''parsing token response: '' @ e) (bind_result (rp_body reply) (rv_token rv)))))"

definition store_registration ::
  "('c, 'i, 'k, 'g) register_env \<Rightarrow> hub_register_options \<Rightarrow> 'i \<Rightarrow> token_reply \<Rightarrow> ('g world, hub_register_summary) prog" where
  "store_registration rv opts identity token =
     andthen (given (required ''hub approved the grant but sent no certificate_pem'' (tk_certificate_pem token))) (\<lambda>certificate_pem.
     andthen (write_public_file (join_path (hr_path opts) DEVICE_CERT_FILE) certificate_pem) (\<lambda>_.
     andthen (case tk_ca_cert_pem token of
         Some ca_cert_pem \<Rightarrow> write_public_file (join_path (hr_path opts) CA_CERT_FILE) ca_cert_pem
       | None \<Rightarrow> ret ()) (\<lambda>_.
     andthen (given (map_error crypto_error_str (to_pkcs8_pem (rv_keys rv) identity))) (\<lambda>pkcs8_pem.
     andthen (write_private_file (rv_chmod rv) (join_path (hr_path opts) DEVICE_KEY_PEM_FILE) pkcs8_pem) (\<lambda>_.
     andthen (given (required ''hub approved the grant but sent no tenant_slug'' (tk_tenant_slug token))) (\<lambda>slug.
     andthen (given (required ''hub approved the grant but sent no device_id'' (tk_device_id token))) (\<lambda>i.
     ret \<lparr>hs_tenant_slug = slug, hs_device_id = i\<rparr>)))))))"

text \<open>What the answer to a poll leads to, when it is not to poll again.\<close>

definition settle ::
  "('c, 'i, 'k, 'g) register_env \<Rightarrow> hub_register_options \<Rightarrow> 'i \<Rightarrow> token_reply \<Rightarrow> ('g world, hub_register_summary) prog" where
  "settle rv opts identity token =
     (case tk_error token of
        Some other \<Rightarrow> err (''hub reported an error: '' @ other)
      | None \<Rightarrow>
          if tk_status token = Some ''approved'' then store_registration rv opts identity token
          else err ''unexpected response from hub while polling'')"

partial_function (option) poll_loop ::
  "('c, 'i, 'k, 'g) register_env \<Rightarrow> hub_register_options \<Rightarrow> 'i \<Rightarrow> 'c \<Rightarrow> device_code_reply \<Rightarrow> int \<Rightarrow> 'g world
    \<Rightarrow> ((string, hub_register_summary) result \<times> 'g world) option" where
  "poll_loop rv opts identity ca_cert code deadline w =
     (if deadline \<le> rv_instant rv w then Some (Inl ''device code expired before it was approved'', w)
      else case poll_once rv opts ca_cert code (rv_sleep rv (dc_interval code) w) of
          (Inl e, w1) \<Rightarrow> Some (Inl e, w1)
        | (Inr token, w1) \<Rightarrow>
            if tk_error token = Some ''authorization_pending'' then poll_loop rv opts identity ca_cert code deadline w1
            else Some (settle rv opts identity token w1))"

text \<open>
  An instant is a number of nanoseconds; adding more seconds than its 64-bit count of seconds can hold is a panic.
\<close>

definition NANOS :: int where "NANOS = 1000000000"

definition instant_add :: "int \<Rightarrow> int \<Rightarrow> int option" where
  "instant_add now secs = (if now div NANOS + secs < 2 ^ 63 then Some (now + secs * NANOS) else None)"

datatype register_failure = Failed string | DeadlinePanic

definition run_hub_register ::
  "('c, 'i, 'k, 'g) register_env \<Rightarrow> hub_register_options \<Rightarrow> 'g world
    \<Rightarrow> ((register_failure, hub_register_summary) result \<times> 'g world) option" where
  "run_hub_register rv opts w =
     (case andthen (prepare_registration rv opts) (\<lambda>(identity, ca_cert, csr_pem).
             andthen (request_code rv opts ca_cert csr_pem) (\<lambda>code. ret (identity, ca_cert, code))) w of
        (Inl e, w1) \<Rightarrow> Some (Inl (Failed e), w1)
      | (Inr (identity, ca_cert, code), w1) \<Rightarrow>
          (case instant_add (rv_instant rv w1) (max (dc_expires_in code) 0) of
             None \<Rightarrow> Some (Inl DeadlinePanic, w1)
           | Some deadline \<Rightarrow>
               map_option (\<lambda>(r, w2). (map_error Failed r, w2)) (poll_loop rv opts identity ca_cert code deadline w1)))"

section \<open>Waiting ends\<close>

text \<open>Time passes between two polls.\<close>

definition clock_advances :: "('c, 'i, 'k, 'g) register_env \<Rightarrow> bool" where
  "clock_advances rv \<longleftrightarrow> (\<forall>w c url q n. rv_instant rv w < rv_instant rv (snd (rv_post rv c url q (rv_sleep rv n w))))"

lemma poll_once_world: "snd (poll_once rv opts ca_cert code w)
    = snd (rv_post rv ca_cert (hr_hub_url opts @ ''/device/token'') (AskToken (dc_device_code code)) w)"
  by (auto simp: poll_once_def andthen_def attempt_def map_err_def given_def err_def split: prod.split sum.split)

lemma poll_loop_returns:
  assumes "clock_advances rv"
  shows "\<exists>r. poll_loop rv opts identity ca_cert code deadline w = Some r"
proof (induction "nat (deadline - rv_instant rv w)" arbitrary: w rule: less_induct)
  case less
  let ?poll = "poll_once rv opts ca_cert code (rv_sleep rv (dc_interval code) w)"
  show ?case
  proof (cases "deadline \<le> rv_instant rv w")
    case True
    then show ?thesis by (simp add: poll_loop.simps)
  next
    case False
    have "rv_instant rv w < rv_instant rv (snd ?poll)" using assms by (simp add: clock_advances_def poll_once_world)
    then have "\<exists>r. poll_loop rv opts identity ca_cert code deadline (snd ?poll) = Some r" using False by (intro less) simp
    then show ?thesis using False by (subst poll_loop.simps) (auto split: prod.split sum.split)
  qed
qed

text \<open>
  C37. Registering ends. As soon as time passes between two polls the command returns, whatever the hub answers:
  with a registration, with an error, or with the expiry of the code.
\<close>

theorem register_returns:
  assumes "clock_advances rv"
  shows "\<exists>r w'. run_hub_register rv opts w = Some (r, w')"
proof -
  have loop: "poll_loop rv opts identity ca_cert code deadline v \<noteq> None" for identity ca_cert code deadline v
    using poll_loop_returns [OF assms, of opts identity ca_cert code deadline v] by auto
  have "run_hub_register rv opts w \<noteq> None"
    unfolding run_hub_register_def by (auto simp only: option.map_disc_iff loop split: prod.split sum.split option.split)
  then show ?thesis by auto
qed

section \<open>What a registration leaves\<close>

lemma poll_loop_settles:
  assumes "poll_loop rv opts identity ca_cert code deadline w = Some q"
  shows "q = (Inr s, w') \<Longrightarrow> \<exists>v v1 token. poll_once rv opts ca_cert code v = (Inr token, v1) \<and> settle rv opts identity token v1 = (Inr s, w')"
  using assms
proof (induct rv opts identity ca_cert code deadline w q rule: poll_loop.raw_induct [rotated, consumes 1, case_names step])
  case (step loop rv opts identity ca_cert code deadline w q)
  then show ?case
    by (cases "poll_once rv opts ca_cert code (rv_sleep rv (dc_interval code) w)") (auto split: if_splits sum.splits)
qed

lemma register_paths:
  "components (join_path path DEVICE_CERT_FILE) = components path @ [Normal ''.wkp'', Normal ''hub-device-cert.pem'']"
  "components (join_path path CA_CERT_FILE) = components path @ [Normal ''.wkp'', Normal ''hub-ca-cert.pem'']"
  "components (join_path path DEVICE_KEY_PEM_FILE) = components path @ [Normal ''.wkp'', Normal ''hub-device-key.pem'']"
  unfolding DEVICE_CERT_FILE_def CA_CERT_FILE_def DEVICE_KEY_PEM_FILE_def
  by (subst components_join; simp add: List.map_filter_def part_component_def)+

text \<open>The three files, once they are written; setting a mode writes no file.\<close>

definition modes_only :: "'g chmod \<Rightarrow> bool" where
  "modes_only chmod \<longleftrightarrow> (\<forall>p m w. wd_files (snd (chmod p m w)) = wd_files w)"

lemma written_public:
  assumes "write_public_file path s w = (Inr u, w')"
  shows "wd_files w' = (wd_files w)(components path \<mapsto> s)"
  using assms by (auto simp: write_public_file_def create_parent_def create_dir_all_def fs_write_def elim!: andthen_ok split: option.splits)

lemma written_private:
  assumes "write_private_file chmod path s w = (Inr u, w')" "modes_only chmod"
  shows "wd_files w' = (wd_files w)(components path \<mapsto> s)"
proof -
  obtain v w1 where "write_public_file path s w = (Inr v, w1)" "chmod (components path) 384 w1 = (Inr u, w')"
    using assms(1) by (auto simp: write_private_file_def write_public_file_def andthen_def attempt_def split: prod.splits sum.splits)
  then show ?thesis using written_public [of path s w v w1] assms(2) by (metis modes_only_def snd_conv)
qed

lemma given_ok: "given r w = (Inr a, w') \<longleftrightarrow> r = Inr a \<and> w' = w"
  by (auto simp: given_def)

lemma required_ok: "required e v = Inr a \<longleftrightarrow> v = Some a"
  by (auto simp: required_def split: option.splits)

lemma map_error_ok: "map_error g r = Inr a \<longleftrightarrow> r = Inr a"
  by (auto simp: map_error_def split: sum.splits)

lemma stored_files:
  assumes "store_registration rv opts identity token w = (Inr s, w')" "modes_only (rv_chmod rv)"
  shows "tk_tenant_slug token = Some (hs_tenant_slug s) \<and> tk_device_id token = Some (hs_device_id s)
    \<and> (\<exists>pem. tk_certificate_pem token = Some pem \<and> wd_files w' (components (join_path (hr_path opts) DEVICE_CERT_FILE)) = Some pem)
    \<and> (\<exists>key. to_pkcs8_pem (rv_keys rv) identity = Inr key \<and> wd_files w' (components (join_path (hr_path opts) DEVICE_KEY_PEM_FILE)) = Some key)
    \<and> (tk_ca_cert_pem token = None \<or> wd_files w' (components (join_path (hr_path opts) CA_CERT_FILE)) = tk_ca_cert_pem token)"
proof -
  obtain pem u1 w1 u2 w2 key u3 w3 where steps: "tk_certificate_pem token = Some pem"
    "write_public_file (join_path (hr_path opts) DEVICE_CERT_FILE) pem w = (Inr u1, w1)"
    "(case tk_ca_cert_pem token of Some ca \<Rightarrow> write_public_file (join_path (hr_path opts) CA_CERT_FILE) ca | None \<Rightarrow> ret ()) w1 = (Inr u2, w2)"
    "to_pkcs8_pem (rv_keys rv) identity = Inr key"
    "write_private_file (rv_chmod rv) (join_path (hr_path opts) DEVICE_KEY_PEM_FILE) key w2 = (Inr u3, w3)" "w' = w3"
    "tk_tenant_slug token = Some (hs_tenant_slug s)" "tk_device_id token = Some (hs_device_id s)"
    using assms(1) unfolding store_registration_def by (auto simp: given_ok required_ok map_error_ok elim!: andthen_ok)
  have "wd_files w2 = (case tk_ca_cert_pem token of None \<Rightarrow> wd_files w1
      | Some ca \<Rightarrow> (wd_files w1)(components (join_path (hr_path opts) CA_CERT_FILE) \<mapsto> ca))"
    using steps(3) written_public by (auto split: option.splits)
  then show ?thesis
    using steps written_public [OF steps(2)] written_private [OF steps(5) assms(2)]
    by (auto simp: register_paths split: option.splits)
qed

text \<open>
  C38. A device that registered can present what it was given. After a successful run the certificate file
  holds the certificate the hub sent in an answer that approved this device's code; the key file holds the private
  key of the very key pair whose signing request was sent; the root of the hub, if it was sent, is stored; and the
  tenant and device reported are those of that answer.
\<close>

theorem registered_files:
  assumes "run_hub_register rv opts w = Some (Inr s, w')" "modes_only (rv_chmod rv)"
  shows "\<exists>identity ca_cert csr code token pair w1 w2 v v1.
      prepare_registration rv opts w = (Inr (identity, ca_cert, csr), w1) \<and> request_code rv opts ca_cert csr w1 = (Inr code, w2)
    \<and> poll_once rv opts ca_cert code v = (Inr token, v1) \<and> tk_error token = None \<and> tk_status token = Some ''approved''
    \<and> to_rcgen_keypair (rv_keys rv) identity = Inr pair \<and> sk_request (rv_keys rv) pair = Inr csr
    \<and> wd_files w' (components (join_path (hr_path opts) DEVICE_KEY_PEM_FILE)) = Some (sk_pem (rv_keys rv) pair)
    \<and> wd_files w' (components (join_path (hr_path opts) DEVICE_CERT_FILE)) = tk_certificate_pem token
    \<and> tk_certificate_pem token \<noteq> None
    \<and> (tk_ca_cert_pem token = None \<or> wd_files w' (components (join_path (hr_path opts) CA_CERT_FILE)) = tk_ca_cert_pem token)
    \<and> tk_tenant_slug token = Some (hs_tenant_slug s) \<and> tk_device_id token = Some (hs_device_id s)"
proof -
  obtain identity ca_cert code deadline w2 where
    start: "andthen (prepare_registration rv opts) (\<lambda>(identity, ca_cert, csr). andthen (request_code rv opts ca_cert csr) (\<lambda>code. ret (identity, ca_cert, code))) w
      = (Inr (identity, ca_cert, code), w2)" and loop: "poll_loop rv opts identity ca_cert code deadline w2 = Some (Inr s, w')"
    using assms(1) unfolding run_hub_register_def by (auto simp: map_error_ok split: prod.splits sum.splits option.splits)
  obtain csr w1 where sent: "prepare_registration rv opts w = (Inr (identity, ca_cert, csr), w1)" "request_code rv opts ca_cert csr w1 = (Inr code, w2)"
    using start by (auto elim!: andthen_ok)
  have "to_csr_pem (rv_keys rv) identity = Inr csr"
    using sent(1) unfolding prepare_registration_def by (auto simp: given_ok map_error_ok elim!: andthen_ok)
  then obtain pair where pair: "to_rcgen_keypair (rv_keys rv) identity = Inr pair" "sk_request (rv_keys rv) pair = Inr csr"
    by (auto simp: to_csr_pem_def bind_result_eq_Inr map_error_ok)
  obtain v v1 token where poll: "poll_once rv opts ca_cert code v = (Inr token, v1)" and settled: "settle rv opts identity token v1 = (Inr s, w')"
    using poll_loop_settles [OF loop] by blast
  have approved: "tk_error token = None" "tk_status token = Some ''approved''" "store_registration rv opts identity token v1 = (Inr s, w')"
    using settled by (auto simp: settle_def split: option.splits if_splits)
  note stored = stored_files [OF approved(3) assms(2)]
  obtain key where "to_pkcs8_pem (rv_keys rv) identity = Inr key"
    "wd_files w' (components (join_path (hr_path opts) DEVICE_KEY_PEM_FILE)) = Some key" using stored by blast
  then have "wd_files w' (components (join_path (hr_path opts) DEVICE_KEY_PEM_FILE)) = Some (sk_pem (rv_keys rv) pair)"
    by (simp add: to_pkcs8_pem_def pair(1))
  moreover have "wd_files w' (components (join_path (hr_path opts) DEVICE_CERT_FILE)) = tk_certificate_pem token"
    "tk_certificate_pem token \<noteq> None" using stored by auto
  ultimately show ?thesis
    using sent poll approved(1,2) pair stored
    by (intro exI [of _ identity] exI [of _ ca_cert] exI [of _ csr] exI [of _ code] exI [of _ token] exI [of _ pair]
        exI [of _ w1] exI [of _ w2] exI [of _ v] exI [of _ v1] conjI) simp_all
qed

section \<open>A registration\<close>

text \<open>The state is the time in seconds; the code is approved at the fifth second.\<close>

definition demo_keys :: "(string, string, nat world) ssh_keys" where
  "demo_keys =
     \<lparr>sk_generate = (\<lambda>w. (Inr ''id'', w)), sk_public = Inr, sk_show = Inr, sk_read = Inr, sk_raw = Some, sk_pkcs8 = Inr, sk_key_pair = Inr,
      sk_request = (\<lambda>k. Inr (''request of '' @ k)), sk_pem = (\<lambda>k. ''key of '' @ k)\<rparr>"

definition demo_token :: token_reply where
  "demo_token = \<lparr>tk_status = Some ''approved'', tk_tenant_slug = Some ''acme'', tk_device_id = Some 3, tk_certificate_pem = Some ''cert'',
     tk_ca_cert_pem = Some ''root'', tk_error = None\<rparr>"

definition waiting_token :: token_reply where
  "waiting_token = \<lparr>tk_status = None, tk_tenant_slug = None, tk_device_id = None, tk_certificate_pem = None, tk_ca_cert_pem = None,
     tk_error = Some ''authorization_pending''\<rparr>"

definition demo_hub :: "(string, string, string, nat) register_env" where
  "demo_hub =
     \<lparr>rv_urandom = Inr [1, 2], rv_keys = demo_keys,
      rv_keystore = \<lparr>ks_entry = (\<lambda>_ _ _. Some ''none''), ks_get = (\<lambda>_ _ _. NoEntry), ks_set = (\<lambda>_ _ _ w. (Inl ''none'', w))\<rparr>,
      rv_cert = Inr,
      rv_post = (\<lambda>_ _ q w. (Inr \<lparr>rp_status = 200, rp_body = Inr (if q = AskToken ''dc'' \<and> wd_git w < 5 then ''wait'' else ''ok'')\<rparr>,
         w\<lparr>wd_git := Suc (wd_git w)\<rparr>)),
      rv_code = (\<lambda>_. Inr \<lparr>dc_device_code = ''dc'', dc_user_code = ''ABCD'', dc_verification_uri = ''/verify'', dc_expires_in = 600, dc_interval = 1\<rparr>),
      rv_token = (\<lambda>body. Inr (if body = ''wait'' then waiting_token else demo_token)),
      rv_status_text = show_nat, rv_instant = (\<lambda>w. int (wd_git w) * NANOS), rv_sleep = (\<lambda>n w. w\<lparr>wd_git := wd_git w + n\<rparr>),
      rv_chmod = (\<lambda>_ _. ret ())\<rparr>"

definition demo_register :: hub_register_options where
  "demo_register = \<lparr>hr_path = ''s'', hr_hub_url = ''https://hub'', hr_tenant_slug = ''acme'', hr_ca_cert_path = ''ca.pem''\<rparr>"

definition before_register :: "nat world" where
  "before_register = \<lparr>wd_files = [components ''ca.pem'' \<mapsto> ''root''], wd_dirs = [], wd_fault = (\<lambda>_ _. None), wd_nanos = 7, wd_pid = 1,
     wd_git = 0, wd_log = []\<rparr>"

theorem register_returns_witness: "\<exists>r w'. run_hub_register demo_hub demo_register before_register = Some (r, w')"
  by (rule register_returns) (simp add: clock_advances_def demo_hub_def NANOS_def)

declare poll_loop.simps [code]

theorem registered_files_witness:
  "case run_hub_register demo_hub demo_register before_register of
     None \<Rightarrow> False
   | Some (r, w') \<Rightarrow> r = Inr \<lparr>hs_tenant_slug = ''acme'', hs_device_id = 3\<rparr>
       \<and> (\<exists>pair. sk_request demo_keys pair = Inr ''request of id''
            \<and> wd_files w' (components (join_path ''s'' DEVICE_KEY_PEM_FILE)) = Some (sk_pem demo_keys pair))"
proof -
  have "map_option fst (run_hub_register demo_hub demo_register before_register) = Some (Inr \<lparr>hs_tenant_slug = ''acme'', hs_device_id = 3\<rparr>)"
    by code_simp
  then obtain w' where run: "run_hub_register demo_hub demo_register before_register = Some (Inr \<lparr>hs_tenant_slug = ''acme'', hs_device_id = 3\<rparr>, w')"
    by auto
  have sent: "map_sum id (\<lambda>(_, _, csr). csr) (fst (prepare_registration demo_hub demo_register before_register)) = Inr ''request of id''"
    by code_simp
  show ?thesis
    using registered_files [OF run] run sent by (auto simp: modes_only_def demo_hub_def demo_register_def)
qed

section \<open>The key file has the default mode first\<close>

text \<open>
  The private key is written before its mode is restricted: when that is refused the command fails and the key stays
  as it was written.
\<close>

lemma refused_mode_leaves_key:
  assumes "\<forall>v. chmod (components path) 384 v = (Inl e, v)"
    and "\<forall>d. wd_fault w FsMkdir d = None" "wd_fault w FsWrite (components path) = None"
  shows "\<exists>w'. write_private_file chmod path s w = (Inl e, w') \<and> wd_files w' (components path) = Some s"
  using assms by (simp add: write_private_file_def create_parent_def create_dir_all_def fs_write_def andthen_def attempt_def split: option.split)

end
