(* ===== verification/FrontDoor.thy ===== *)
theory FrontDoor
  imports PodLife
begin

text \<open>
  The front door of the hub (crates/wkp-hub/src/front_door.rs): what is done with a connection once its handshake
  is over, the routes, the limit on a request's body, and what comes of a handler that panics. The web framework
  decides which of the methods of a route serves a request, and whether an answer is well-formed enough to be
  sent; both are parameters.
\<close>

section \<open>Connections\<close>

text \<open>
  The certificates that the client presented at the handshake, the leaf first. A connection is registered under the
  serial of its leaf, when that can be read, so that a revocation can close it; what the requests on it see is the
  leaf.
\<close>

definition accept_connection :: "x509 \<Rightarrow> 'i \<Rightarrow> string list \<Rightarrow> registry \<Rightarrow> ('i stream \<times> string option) \<times> registry" where
  "accept_connection x inner peer_certificates r =
     (let cert = (case peer_certificates of [] \<Rightarrow> None | c # _ \<Rightarrow> Some c) in
      case accept inner (Option.bind cert (cert_serial_hex x)) r of (st, r') \<Rightarrow> ((st, cert), r'))"

section \<open>Requests\<close>

definition MAX_BODY_BYTES :: nat where
  "MAX_BODY_BYTES = 1024 * 1024 * 1024"

text \<open>A body that breaks off while it is read is \<open>None\<close>.\<close>

record door_request =
  dr_method :: string
  dr_path :: string
  dr_query :: "string option"
  dr_headers :: "(string \<times> string) list"
  dr_body :: "string option"

definition split_request :: "door_request \<Rightarrow> rendered + (string \<times> string \<times> string \<times> incoming)" where
  "split_request rq =
     (case dr_body rq of
        Some body \<Rightarrow>
          if length body > MAX_BODY_BYTES then Inl (status_only 413)
          else Inr (dr_method rq, dr_path rq, case dr_query rq of None \<Rightarrow> [] | Some q \<Rightarrow> q,
                 \<lparr>in_headers = map (\<lambda>(name, v). (name, from_utf8_lossy v)) (dr_headers rq), in_body = body\<rparr>)
      | None \<Rightarrow> Inl (status_only 413))"

text \<open>
  \<open>fw_pick methods meth\<close>: the answer of the framework when no handler of the route serves the method, or what it
  makes of the handler's answer. \<open>fw_valid\<close>: whether the framework accepts status and headers. \<open>fw_unwinds\<close>: whether
  the build unwinds on a panic (the release profile aborts).
\<close>

record framework =
  fw_pick :: "string list \<Rightarrow> string \<Rightarrow> rendered + (string \<times> (rendered \<Rightarrow> rendered))"
  fw_valid :: "rendered \<Rightarrow> bool"
  fw_unwinds :: bool

datatype door_outcome = Answer rendered | Dropped | Aborted

definition into_response :: "framework \<Rightarrow> rendered \<Rightarrow> rendered" where
  "into_response fw r =
     (if fw_valid fw r then r else \<lparr>rd_status = 500, rd_content_type = [], rd_extra_headers = [], rd_body = []\<rparr>)"

text \<open>A handler on the blocking pool: its panic is caught there. A panic outside takes the connection down.\<close>

definition blocking :: "framework \<Rightarrow> rendered option \<Rightarrow> door_outcome" where
  "blocking fw result =
     (case result of
        Some r \<Rightarrow> Answer (into_response fw r)
      | None \<Rightarrow> if fw_unwinds fw then Answer (into_response fw (status_only 500)) else Aborted)"

definition unblocked :: "framework \<Rightarrow> rendered option \<Rightarrow> door_outcome" where
  "unblocked fw result =
     (case result of
        Some r \<Rightarrow> Answer (into_response fw r)
      | None \<Rightarrow> if fw_unwinds fw then Dropped else Aborted)"

section \<open>Routes\<close>

text \<open>What the server was started with, and the random bytes that a request would draw.\<close>

record ('u, 'p) door =
  fd_web :: "'u web"
  fd_framework :: framework
  fd_pods :: "'p pods"
  fd_ca :: hub_ca
  fd_repos_root :: string
  fd_image :: string

record door_random =
  rn_device :: "(string, nat list) result"
  rn_user :: "(string, nat list) result"
  rn_serial :: "(string, nat list) result"

type_synonym ('u, 'p) served = "'u db \<times> 'p \<Rightarrow> door_outcome \<times> 'u db \<times> 'p"

definition refused :: "framework \<Rightarrow> rendered \<Rightarrow> ('u, 'p) served" where
  "refused fw r s = (Answer r, s)"

text \<open>A handler that talks to the database only.\<close>

definition on_database :: "framework \<Rightarrow> 'u handler \<Rightarrow> ('u, 'p) served" where
  "on_database fw h s = (case s of (d, p) \<Rightarrow> (case h d of (r, d') \<Rightarrow> (blocking fw r, d', p)))"

definition device_code :: "('u, 'p) door \<Rightarrow> door_random \<Rightarrow> door_request \<Rightarrow> ('u, 'p) served" where
  "device_code fd rn rq =
     (case split_request rq of
        Inl r \<Rightarrow> refused (fd_framework fd) (into_response (fd_framework fd) r)
      | Inr (_, _, _, incoming) \<Rightarrow>
          on_database (fd_framework fd) (handle_device_code (fd_web fd) (rn_device rn) (rn_user rn) incoming))"

definition device_token :: "('u, 'p) door \<Rightarrow> door_request \<Rightarrow> ('u, 'p) served" where
  "device_token fd rq =
     (case split_request rq of
        Inl r \<Rightarrow> refused (fd_framework fd) (into_response (fd_framework fd) r)
      | Inr (_, _, _, incoming) \<Rightarrow> on_database (fd_framework fd) (handle_device_token (fd_web fd) (fd_ca fd) incoming))"

definition verify_page :: "('u, 'p) door \<Rightarrow> door_request \<Rightarrow> ('u, 'p) served" where
  "verify_page fd rq s =
     (case split_request rq of
        Inl r \<Rightarrow> refused (fd_framework fd) (into_response (fd_framework fd) r) s
      | Inr (_, _, query_string, _) \<Rightarrow> (unblocked (fd_framework fd) (handle_verify_page query_string), s))"

definition verify_submit :: "('u, 'p) door \<Rightarrow> door_random \<Rightarrow> door_request \<Rightarrow> ('u, 'p) served" where
  "verify_submit fd rn rq =
     (case split_request rq of
        Inl r \<Rightarrow> refused (fd_framework fd) (into_response (fd_framework fd) r)
      | Inr (_, _, _, incoming) \<Rightarrow>
          on_database (fd_framework fd) (handle_verify_submit (fd_web fd) (rn_serial rn) (fd_ca fd) incoming))"

definition git_http :: "('u, 'p) door \<Rightarrow> string option \<Rightarrow> door_request \<Rightarrow> ('u, 'p) served" where
  "git_http fd peer_cert rq s =
     (case split_request rq of
        Inl r \<Rightarrow> refused (fd_framework fd) (into_response (fd_framework fd) r) s
      | Inr (meth, path, query_string, incoming) \<Rightarrow>
          (case git_http_path path of
             None \<Rightarrow> refused (fd_framework fd) (into_response (fd_framework fd) (not_found_response (fd_web fd))) s
           | Some (tenant_slug, endpoint) \<Rightarrow>
               (case handle_git_http (fd_web fd) (fd_pods fd) incoming meth
                       \<lparr>rt_tenant_slug = tenant_slug, rt_endpoint = endpoint, rt_query = query_string\<rparr>
                       (fd_repos_root fd) (fd_image fd) peer_cert s of
                  (r, s') \<Rightarrow> (blocking (fd_framework fd) (Some r), s'))))"

text \<open>The route of a path that is not the fallback: its methods with their handlers.\<close>

definition on_methods :: "framework \<Rightarrow> (string \<times> ('u, 'p) served) list \<Rightarrow> string \<Rightarrow> ('u, 'p) served" where
  "on_methods fw handlers meth s =
     (case fw_pick fw (map fst handlers) meth of
        Inl answer \<Rightarrow> (Answer answer, s)
      | Inr (m, finish) \<Rightarrow>
          (case map_of handlers m of
             None \<Rightarrow> (Dropped, s)
           | Some h \<Rightarrow> (case h s of (out, s') \<Rightarrow> (case out of Answer r \<Rightarrow> Answer (finish r) | _ \<Rightarrow> out, s'))))"

definition front_door :: "('u, 'p) door \<Rightarrow> door_random \<Rightarrow> string option \<Rightarrow> door_request \<Rightarrow> ('u, 'p) served" where
  "front_door fd rn peer_cert rq =
     (if dr_path rq = ''/device/code'' then on_methods (fd_framework fd) [(''POST'', device_code fd rn rq)] (dr_method rq)
      else if dr_path rq = ''/device/token'' then on_methods (fd_framework fd) [(''POST'', device_token fd rq)] (dr_method rq)
      else if dr_path rq = ''/verify'' then
        on_methods (fd_framework fd) [(''GET'', verify_page fd rq), (''POST'', verify_submit fd rn rq)] (dr_method rq)
      else git_http fd peer_cert rq)"

end
