(* ===== verification/Enrolment.thy ===== *)
theory Enrolment
  imports FrontDoor CpInv
begin

text \<open>
  The way of a new device through the front door: its request for a code, the form that approves the code, the
  poll for the certificate, and the first request for the tenant's repository.
\<close>

section \<open>Calls that are answered\<close>

definition called :: "nat \<Rightarrow> 'u db \<Rightarrow> 'u db" where
  "called n d = d\<lparr>db_calls := db_calls d + n\<rparr>"

lemma called_simps [simp]:
  "db_pg (called n d) = db_pg d" "db_now (called n d) = db_now d" "db_url (called n d) = db_url d"
  "db_fault (called n d) = db_fault d" "answering (called n d) = answering d"
  by (simp_all add: called_def answering_def)

lemma answering_update [simp]:
  "answering (d\<lparr>db_pg := s\<rparr>) = answering d" "answering (d\<lparr>db_now := t\<rparr>) = answering d"
  by (simp_all add: answering_def)

lemma run_select: "answering d \<Longrightarrow> execute (select q) d = (Inr (q (db_pg d)), called 1 d)"
  by (simp add: execute_def select_def answering_def called_def)

lemma run_stmt: "answering d \<Longrightarrow> stmt (db_pg d) = (Inr a, s) \<Longrightarrow> execute stmt d = (Inr a, (called 1 d)\<lparr>db_pg := s\<rparr>)"
  by (simp add: execute_def answering_def called_def)

lemma run_connect: "answering d \<Longrightarrow> connect (\<lambda>s. (Inr (), s)) d = (Inr (), called 4 d)"
  by (simp add: connect_def create_schema_def cp_bind_def cp_try_def execute_def select_def answering_def called_def)

lemmas run_finds = find_tenant_by_slug_def find_tenant_by_id_def find_device_by_id_def find_grant_by_device_code_def
  find_grant_by_user_code_def

section \<open>The three requests\<close>

definition new_grant :: "string \<Rightarrow> string \<Rightarrow> int \<Rightarrow> string \<Rightarrow> 'u db \<Rightarrow> device_grant" where
  "new_grant dc uc tn csr d =
     \<lparr>gr_id = pg_seqs (db_pg d) ''device_grants'' + 1, gr_tenant_id = tn, gr_device_code = dc, gr_user_code = uc, gr_csr_pem = csr,
      gr_expires_at = db_now d + GRANT_TTL, gr_approved_device_id = None\<rparr>"

definition fresh_codes :: "string \<Rightarrow> string \<Rightarrow> 'u db \<Rightarrow> bool" where
  "fresh_codes dc uc d \<longleftrightarrow> dc \<notin> gr_device_code ` set (pg_grants (db_pg d)) \<and> uc \<notin> gr_user_code ` set (pg_grants (db_pg d))"

lemma code_step:
  assumes "answering d" "wb_schema wb = (\<lambda>s. (Inr (), s))"
    and "wb_device_code_request wb (body_string rq) = Inr (slug, csr)" "csr_is_valid_ed25519 (wb_x509 wb) csr"
    and "List.find (\<lambda>t. tn_slug t = slug) (pg_tenants (db_pg d)) = Some t"
    and "random_hex rd = Inr dc" "random_user_code ru = Inr uc" "fresh_codes dc uc d"
  shows "\<exists>d'. handle_device_code wb rd ru rq d = (Some (rendered_json wb 200 (code_response (new_grant dc uc (tn_id t) csr d))), d')
    \<and> answering d' \<and> db_pg d' = (db_pg d)\<lparr>pg_grants := pg_grants (db_pg d) @ [new_grant dc uc (tn_id t) csr d],
        pg_seqs := (pg_seqs (db_pg d))(''device_grants'' := pg_seqs (db_pg d) ''device_grants'' + 1)\<rparr>
    \<and> db_now d' = db_now d"
proof -
  have "tn_id t \<in> tn_id ` set (pg_tenants (db_pg d))" using find_holds [OF assms(5)] by auto
  then have "insert_grant dc uc (tn_id t) csr (db_now d) (db_pg d) = (Inr (new_grant dc uc (tn_id t) csr d),
      (db_pg d)\<lparr>pg_grants := pg_grants (db_pg d) @ [new_grant dc uc (tn_id t) csr d],
        pg_seqs := (pg_seqs (db_pg d))(''device_grants'' := pg_seqs (db_pg d) ''device_grants'' + 1)\<rparr>)"
    using assms(8) by (auto simp: insert_grant_def nextval_def new_grant_def fresh_codes_def Let_def)
  then show ?thesis using assms(1-7)
    by (simp add: handle_device_code_def ask_def run_connect run_finds run_select create_device_grant_def reply_def
        run_stmt [where stmt = "insert_grant dc uc (tn_id t) csr (db_now d)"])
qed

text \<open>The form sends the code of the grant as it is encoded.\<close>

definition code_form :: "string \<Rightarrow> string" where
  "code_form uc = ''user_code='' @ concat (map form_byte uc)"

lemma form_byte_no_amp: "CHR ''&'' \<notin> set (form_byte c)"
proof -
  have "hex_digit (CHR ''&'') = None" by code_simp
  then have no_amp: "CHR ''&'' \<noteq> upper_hex n" if "n < 16" for n using upper_hex(1) [OF that] by auto
  have "\<not> is_ascii_alphanumeric (CHR ''&'')" by code_simp
  moreover have "of_char c div 16 < (16 :: nat)" using nat_of_char_less_256 [of c] by (simp del: nat_of_char_less_256)
  ultimately show ?thesis using no_amp [of "of_char c div 16"] no_amp [of "of_char c mod 16"] by (auto simp: form_byte_def)
qed

lemma read_code_form: "valid_utf8 uc \<Longrightarrow> user_code_field (code_form uc) = Some (Some uc)"
proof -
  assume "valid_utf8 uc"
  then have decoded: "percent_decode (concat (map form_byte uc)) = Some uc" by (rule percent_decode_form)
  have "CHR ''&'' \<notin> set (code_form uc)" using form_byte_no_amp by (auto simp: code_form_def)
  then have "split_char (CHR ''&'') (code_form uc) = [code_form uc]" by (rule split_char_no_sep)
  moreover have "strip_prefix (code_form uc) ''user_code='' = Some (concat (map form_byte uc))"
    unfolding code_form_def by (rule strip_prefix_append)
  ultimately show ?thesis using decoded by (simp add: user_code_field_def map_filter_simps)
qed

definition enrolled :: "int \<Rightarrow> int \<Rightarrow> string \<Rightarrow> signed_device_cert \<Rightarrow> 'u db \<Rightarrow> device" where
  "enrolled i tn key cert d =
     \<lparr>dv_id = i, dv_tenant_id = tn, dv_public_key = key, dv_created_at = db_now d, dv_revoked_at = None,
      dv_certificate_pem = Some (sg_certificate_pem cert), dv_cert_serial = Some (sg_serial_hex cert),
      dv_cert_issued_at = Some (sg_not_before cert), dv_cert_expires_at = Some (sg_not_after cert)\<rparr>"

lemma sign_step:
  assumes "answering d" "tables_ok (db_pg d)" "g \<in> set (pg_grants (db_pg d))" "gr_approved_device_id g = None"
    and "sign_device_csr (wb_x509 wb) rn (db_now d) ca (gr_csr_pem g) ''wkp device'' = Inr cert"
    and "wb_openssh_key wb (sg_public_key_raw cert) = Inr key"
    and "key \<notin> dv_public_key ` set (pg_devices (db_pg d))" "Some (sg_serial_hex cert) \<notin> dv_cert_serial ` set (pg_devices (db_pg d))"
    and "i = pg_seqs (db_pg d) ''devices'' + 1"
  shows "\<exists>d'. sign_and_approve wb rn ca g d = (Some (rendered_html 200 APPROVED_HTML), d') \<and> answering d'
    \<and> pg_tenants (db_pg d') = pg_tenants (db_pg d)
    \<and> pg_grants (db_pg d') = map (\<lambda>h. if gr_id h = gr_id g then h\<lparr>gr_approved_device_id := Some i\<rparr> else h) (pg_grants (db_pg d))
    \<and> pg_devices (db_pg d') = pg_devices (db_pg d) @ [enrolled i (gr_tenant_id g) key cert d]
    \<and> db_now d' = db_now d"
proof -
  let ?s = "db_pg d"
  let ?bare = "\<lparr>dv_id = i, dv_tenant_id = gr_tenant_id g, dv_public_key = key, dv_created_at = db_now d, dv_revoked_at = None,
      dv_certificate_pem = None, dv_cert_serial = None, dv_cert_issued_at = None, dv_cert_expires_at = None\<rparr>"
  let ?s1 = "?s\<lparr>pg_devices := pg_devices ?s @ [?bare], pg_seqs := (pg_seqs ?s)(''devices'' := i)\<rparr>"
  let ?grants = "map (\<lambda>h. if gr_id h = gr_id g then h\<lparr>gr_approved_device_id := Some i\<rparr> else h) (pg_grants ?s)"
  let ?s2 = "?s1\<lparr>pg_grants := ?grants\<rparr>"
  let ?s3 = "?s2\<lparr>pg_devices := pg_devices ?s @ [enrolled i (gr_tenant_id g) key cert d]\<rparr>"
  have new: "i \<notin> dv_id ` set (pg_devices ?s)" "gr_tenant_id g \<in> tn_id ` set (pg_tenants ?s)"
    using assms(2,3,9) by (auto simp: tables_ok_def keys_ok_def)
  have "insert_device (gr_tenant_id g) key (db_now d) ?s = (Inr ?bare, ?s1)"
    using assms(7,9) new(2) by (simp add: insert_device_def nextval_def Let_def)
  then have reg: "register_device (gr_tenant_id g) key d = (Inr ?bare, (called 1 d)\<lparr>db_pg := ?s1\<rparr>)"
    by (simp add: register_device_def run_stmt [OF assms(1)])
  have "length (filter (\<lambda>h. gr_id h = gr_id g) (pg_grants ?s)) > 0" using assms(3) by (auto simp: filter_empty_conv)
  then obtain n where n: "set_approved (gr_id g) i ?s1 = (Inr (Suc n), ?s2)"
    by (auto simp: set_approved_def update_where_def gr0_conv_Suc)
  have "map (\<lambda>dv. if dv_id dv = i then f dv else dv) (pg_devices ?s) = pg_devices ?s" for f
    using new(1) by (auto intro!: map_idI)
  then have "set_certificate i (sg_certificate_pem cert) (sg_serial_hex cert) (sg_not_before cert) (sg_not_after cert) ?s2
      = (Inr 1, ?s3)"
    using assms(8) new(1) by (auto simp: set_certificate_def update_where_def enrolled_def filter_empty_conv)
  then have issue: "issue_device_certificate i (sg_certificate_pem cert) (sg_serial_hex cert) (sg_not_before cert) (sg_not_after cert) e
      = (Inr (), (called 1 e)\<lparr>db_pg := ?s3\<rparr>)" if "answering e" "db_pg e = ?s2" for e
    using that by (simp add: issue_device_certificate_def cp_bind_def cp_try_def run_stmt cp_ret_def)
  have "approve_grant g key d = (Inr ?bare, (called 1 ((called 1 d)\<lparr>db_pg := ?s1\<rparr>))\<lparr>db_pg := ?s2\<rparr>)"
    using assms(1,4) n by (simp add: approve_grant_def approve_new_def cp_bind_def cp_try_def reg run_stmt cp_ret_def)
  then show ?thesis using assms(1)
    by (simp add: sign_and_approve_def assms(5,6) ask_def issue reply_def)
qed

lemma submit_step:
  assumes "answering d" "wb_schema wb = (\<lambda>s. (Inr (), s))" "user_code_field (body_string rq) = Some (Some uc)"
    and "tables_ok (db_pg d)" "List.find (\<lambda>g. gr_user_code g = uc) (pg_grants (db_pg d)) = Some g"
    and "\<not> is_expired (db_now d) g" "gr_approved_device_id g = None"
    and "sign_device_csr (wb_x509 wb) rn (db_now d) ca (gr_csr_pem g) ''wkp device'' = Inr cert"
    and "wb_openssh_key wb (sg_public_key_raw cert) = Inr key"
    and "key \<notin> dv_public_key ` set (pg_devices (db_pg d))" "Some (sg_serial_hex cert) \<notin> dv_cert_serial ` set (pg_devices (db_pg d))"
    and "i = pg_seqs (db_pg d) ''devices'' + 1"
  shows "\<exists>d'. handle_verify_submit wb rn ca rq d = (Some (rendered_html 200 APPROVED_HTML), d') \<and> answering d'
    \<and> pg_tenants (db_pg d') = pg_tenants (db_pg d)
    \<and> pg_grants (db_pg d') = map (\<lambda>h. if gr_id h = gr_id g then h\<lparr>gr_approved_device_id := Some i\<rparr> else h) (pg_grants (db_pg d))
    \<and> pg_devices (db_pg d') = pg_devices (db_pg d) @ [enrolled i (gr_tenant_id g) key cert d]
    \<and> db_now d' = db_now d"
proof -
  have g: "g \<in> set (pg_grants (db_pg d))" using find_holds [OF assms(5)] by simp
  let ?d = "called 1 (called 4 d)"
  have "handle_verify_submit wb rn ca rq d = sign_and_approve wb rn ca g ?d"
    using assms(1-3,5-7) by (simp add: handle_verify_submit_def ask_def run_connect run_finds run_select)
  then show ?thesis
    using sign_step [where d = ?d and g = g and wb = wb and rn = rn and ca = ca and cert = cert and key = key and i = i]
      assms(1,4,7-) g by (simp add: enrolled_def)
qed

lemma token_step:
  assumes "answering d" "wb_schema wb = (\<lambda>s. (Inr (), s))" "wb_token_request wb (body_string rq) = Inr dc"
    and "List.find (\<lambda>g. gr_device_code g = dc) (pg_grants (db_pg d)) = Some g" "\<not> is_expired (db_now d) g"
    and "gr_approved_device_id g = Some i" "List.find (\<lambda>t. tn_id t = gr_tenant_id g) (pg_tenants (db_pg d)) = Some t"
    and "List.find (\<lambda>dv. dv_id dv = i) (pg_devices (db_pg d)) = Some dv" "dv_certificate_pem dv = Some pem"
  shows "\<exists>d'. handle_device_token wb ca rq d = (Some (rendered_json wb 200 (token_response (tn_slug t) i pem ca)), d')
    \<and> answering d' \<and> db_pg d' = db_pg d"
  using assms by (simp add: handle_device_token_def ask_def run_connect run_finds run_select reply_def)

section \<open>A device enrols itself\<close>

record door_event =
  de_now :: int
  de_random :: door_random
  de_cert :: "string option"
  de_request :: door_request

text \<open>Requests one after the other; an abort takes the server down.\<close>

fun door_run :: "('u, 'p) door \<Rightarrow> door_event list \<Rightarrow> 'u db \<times> 'p \<Rightarrow> door_outcome list \<times> 'u db \<times> 'p" where
  "door_run fd [] s = ([], s)"
| "door_run fd (e # es) s =
     (case s of (d, p) \<Rightarrow>
       (case front_door fd (de_random e) (de_cert e) (de_request e) (d\<lparr>db_now := de_now e\<rparr>, p) of
          (out, s') \<Rightarrow>
            if out = Aborted then ([out], s')
            else (case door_run fd es s' of (outs, s'') \<Rightarrow> (out # outs, s''))))"

definition post :: "string \<Rightarrow> string \<Rightarrow> door_request" where
  "post path body = \<lparr>dr_method = ''POST'', dr_path = path, dr_query = None, dr_headers = [], dr_body = Some body\<rparr>"

text \<open>What the framework is documented to do: a handler serves its own method, and plain answers can be sent.\<close>

definition plain_framework :: "framework \<Rightarrow> bool" where
  "plain_framework fw \<longleftrightarrow>
     (\<forall>ms m. m \<in> set ms \<longrightarrow> fw_pick fw ms m = Inr (m, id)) \<and> (\<forall>r. rd_extra_headers r = [] \<longrightarrow> fw_valid fw r)"

lemma posted:
  assumes "plain_framework (fd_framework fd)" "length body \<le> MAX_BODY_BYTES" "rd_extra_headers r = []"
  shows "handle_device_code (fd_web fd) (rn_device rn) (rn_user rn) \<lparr>in_headers = [], in_body = body\<rparr> d = (Some r, d') \<Longrightarrow>
      front_door fd rn c (post ''/device/code'' body) (d, p) = (Answer r, d', p)"
    "handle_verify_submit (fd_web fd) (rn_serial rn) (fd_ca fd) \<lparr>in_headers = [], in_body = body\<rparr> d = (Some r, d') \<Longrightarrow>
      front_door fd rn c (post ''/verify'' body) (d, p) = (Answer r, d', p)"
    "handle_device_token (fd_web fd) (fd_ca fd) \<lparr>in_headers = [], in_body = body\<rparr> d = (Some r, d') \<Longrightarrow>
      front_door fd rn c (post ''/device/token'' body) (d, p) = (Answer r, d', p)"
  using assms
  by (simp_all add: front_door_def post_def device_code_def verify_submit_def device_token_def split_request_def on_methods_def
      plain_framework_def on_database_def blocking_def into_response_def)

lemma plain_answers [simp]: "rd_extra_headers (rendered_json wb n v) = []" "rd_extra_headers (rendered_html n b) = []"
  by (simp_all add: rendered_json_def rendered_html_def)

text \<open>A request with the certificate of a device of the tenant is served.\<close>

lemma certificate_served:
  assumes "answering d" "wb_schema wb = (\<lambda>s. (Inr (), s))" "List.find (\<lambda>t. tn_slug t = slug) (pg_tenants (db_pg d)) = Some t"
    and "cert_serial_hex (wb_x509 wb) der = Some serial" "List.find (\<lambda>dv. dv_cert_serial dv = Some serial) (pg_devices (db_pg d)) = Some dv"
    and "dv_revoked_at dv = None" "dv_tenant_id dv = tn_id t" "meth \<in> {''GET'', ''POST''}" "rt_tenant_slug route = slug"
  shows "\<exists>d1. handle_git_http wb po request meth route root img (Some der) (d, p) = serve_authorized po request meth route root img t (d1, p)"
proof -
  let ?q = "\<lparr>gc_request = request, gc_method = meth, gc_route = route, gc_cert = Some der\<rparr>"
  have "keeps_rows (wb_schema wb)" "fst (wb_schema wb s) = Inr ()" for s by (simp_all add: assms(2) keeps_rows_def)
  moreover have "row_of slug d = Some t" "own_call wb (pg_devices (db_pg d)) (tn_id t) slug ?q"
    using assms(3-) by (simp_all add: row_of_def own_call_def)
  ultimately obtain d1 where "handle_git_http wb po (gc_request ?q) (gc_method ?q) (gc_route ?q) root img (gc_cert ?q) (d, p)
      = serve_authorized po (gc_request ?q) (gc_method ?q) (gc_route ?q) root img t (d1, p)"
    by (elim own_call_served [OF assms(1)])
  then show ?thesis by auto
qed

lemma valid_utf8_ascii: "list_all is_ascii s \<Longrightarrow> valid_utf8 s"
  by (induction s) (auto simp: is_ascii_def byte_in_def)

lemma user_code_chars:
  assumes "random_user_code ru = Inr uc"
  shows "list_all is_ascii uc" "length uc \<le> 9"
proof -
  obtain raw where "uc = take 4 (map (\<lambda>b. USER_CODE_ALPHABET ! (b mod length USER_CODE_ALPHABET)) raw) @ ''-''
      @ take 4 (drop 4 (map (\<lambda>b. USER_CODE_ALPHABET ! (b mod length USER_CODE_ALPHABET)) raw))"
    using assms by (auto simp: random_user_code_def Let_def split: sum.splits)
  moreover have "list_all is_ascii USER_CODE_ALPHABET" "is_ascii (CHR ''-'')" "length USER_CODE_ALPHABET > 0" by code_simp+
  then have "is_ascii (USER_CODE_ALPHABET ! (b mod length USER_CODE_ALPHABET))" for b by (simp add: list_all_length)
  ultimately show "list_all is_ascii uc" "length uc \<le> 9"
    using \<open>is_ascii (CHR ''-'')\<close> by (auto simp: list_all_iff dest!: in_set_takeD in_set_dropD)
qed

lemma code_form_ok:
  assumes "random_user_code ru = Inr uc"
  shows "from_utf8_lossy (code_form uc) = code_form uc" "length (code_form uc) \<le> MAX_BODY_BYTES"
    "user_code_field (code_form uc) = Some (Some uc)"
proof -
  have "is_ascii x" if "x \<in> set (form_byte c)" "is_ascii c" for x c
  proof -
    have "is_ascii (upper_hex n)" if "n < 16" for n using that by (simp add: is_ascii_def upper_hex_def)
    moreover have "is_ascii (CHR ''+'')" "is_ascii (CHR ''%'')" by code_simp+
    moreover have "of_char c div 16 < (16 :: nat)" using nat_of_char_less_256 [of c] by (simp del: nat_of_char_less_256)
    ultimately show ?thesis using that by (auto simp: form_byte_def split: if_splits)
  qed
  moreover have "list_all is_ascii ''user_code=''" by code_simp
  ultimately have "list_all is_ascii (code_form uc)"
    using user_code_chars(1) [OF assms] by (auto simp: code_form_def list_all_iff)
  then show "from_utf8_lossy (code_form uc) = code_form uc" by (intro from_utf8_lossy_valid valid_utf8_ascii)
  have "length (concat (map form_byte s)) \<le> 3 * length s" for s by (induction s) (auto simp: form_byte_def)
  from this [of uc] show "length (code_form uc) \<le> MAX_BODY_BYTES"
    using user_code_chars(2) [OF assms] by (simp add: code_form_def MAX_BODY_BYTES_def)
  show "user_code_field (code_form uc) = Some (Some uc)"
    by (rule read_code_form, rule valid_utf8_ascii, rule user_code_chars(1) [OF assms])
qed

text \<open>
  What a request for a code may assume: the device's request can be signed, with a key and a serial that are new.
\<close>

definition signable :: "'u web \<Rightarrow> door_random \<Rightarrow> int \<Rightarrow> hub_ca \<Rightarrow> string \<Rightarrow> signed_device_cert \<Rightarrow> string \<Rightarrow> 'u db \<Rightarrow> bool" where
  "signable wb rn now ca csr cert key d \<longleftrightarrow>
     csr_is_valid_ed25519 (wb_x509 wb) csr
     \<and> sign_device_csr (wb_x509 wb) (rn_serial rn) now ca csr ''wkp device'' = Inr cert
     \<and> wb_openssh_key wb (sg_public_key_raw cert) = Inr key
     \<and> key \<notin> dv_public_key ` set (pg_devices (db_pg d))
     \<and> Some (sg_serial_hex cert) \<notin> dv_cert_serial ` set (pg_devices (db_pg d))"

text \<open>The rows that the first two requests leave.\<close>

lemma asked_rows:
  assumes "tables_ok (db_pg d)" "t \<in> set (pg_tenants (db_pg d))" "fresh_codes dc uc d"
    and "db_pg e = (db_pg d)\<lparr>pg_grants := pg_grants (db_pg d) @ [new_grant dc uc (tn_id t) csr d],
        pg_seqs := (pg_seqs (db_pg d))(''device_grants'' := pg_seqs (db_pg d) ''device_grants'' + 1)\<rparr>"
  shows "tables_ok (db_pg e)"
    "List.find (\<lambda>h. gr_user_code h = uc) (pg_grants (db_pg e)) = Some (new_grant dc uc (tn_id t) csr d)"
proof -
  show "tables_ok (db_pg e)"
    using assms(1-3) keys_ok_insert(3) unfolding assms(4) tables_ok_def
    by (auto simp: new_grant_def fresh_codes_def map_filter_append map_filter_simps)
  show "List.find (\<lambda>h. gr_user_code h = uc) (pg_grants (db_pg e)) = Some (new_grant dc uc (tn_id t) csr d)"
    using assms(3) find_None_iff_key [of gr_user_code uc "pg_grants (db_pg d)"]
    by (simp add: assms(4) find_append fresh_codes_def new_grant_def)
qed

lemma approved_rows:
  assumes "tables_ok (db_pg e)" "g \<in> set (pg_grants (db_pg e))" "i \<notin> dv_id ` set devices" "Some serial \<notin> dv_cert_serial ` set devices"
    and "pg_grants (db_pg e') = map (\<lambda>h. if gr_id h = gr_id g then h\<lparr>gr_approved_device_id := Some i\<rparr> else h) (pg_grants (db_pg e))"
    and "pg_devices (db_pg e') = devices @ [dv]" "dv_id dv = i" "dv_cert_serial dv = Some serial"
  shows "List.find (\<lambda>h. gr_device_code h = gr_device_code g) (pg_grants (db_pg e')) = Some (g\<lparr>gr_approved_device_id := Some i\<rparr>)"
    "List.find (\<lambda>dv. dv_id dv = i) (pg_devices (db_pg e')) = Some dv"
    "List.find (\<lambda>dv. dv_cert_serial dv = Some serial) (pg_devices (db_pg e')) = Some dv"
proof -
  have "distinct (map gr_device_code (pg_grants (db_pg e')))"
    using assms(1) by (simp add: assms(5) tables_ok_def keys_ok_def comp_def if_distrib cong: if_cong)
  moreover have "g\<lparr>gr_approved_device_id := Some i\<rparr> \<in> set (pg_grants (db_pg e'))" using assms(2) by (force simp: assms(5))
  ultimately show "List.find (\<lambda>h. gr_device_code h = gr_device_code g) (pg_grants (db_pg e')) = Some (g\<lparr>gr_approved_device_id := Some i\<rparr>)"
    by (simp add: find_Some_iff_unique)
  show "List.find (\<lambda>dv. dv_id dv = i) (pg_devices (db_pg e')) = Some dv"
    "List.find (\<lambda>dv. dv_cert_serial dv = Some serial) (pg_devices (db_pg e')) = Some dv"
    using assms(3,4,7,8) find_None_iff_key [of dv_id i devices] find_None_iff_key [of dv_cert_serial "Some serial" devices]
    by (simp_all add: assms(6) find_append)
qed

text \<open>
  The three requests at the front door. After the first the code waits for its approval; after the second the
  tables hold the certificate; the third only reads it.
\<close>

definition asked_pg :: "device_grant \<Rightarrow> 'u db \<Rightarrow> 'u pg" where
  "asked_pg g d = (db_pg d)\<lparr>pg_grants := pg_grants (db_pg d) @ [g],
     pg_seqs := (pg_seqs (db_pg d))(''device_grants'' := pg_seqs (db_pg d) ''device_grants'' + 1)\<rparr>"

definition approved_in :: "device_grant \<Rightarrow> int \<Rightarrow> device \<Rightarrow> 'u db \<Rightarrow> 'u db \<Rightarrow> bool" where
  "approved_in g i dv d e \<longleftrightarrow>
     answering e \<and> pg_tenants (db_pg e) = pg_tenants (db_pg d)
     \<and> List.find (\<lambda>h. gr_device_code h = gr_device_code g) (pg_grants (db_pg e)) = Some (g\<lparr>gr_approved_device_id := Some i\<rparr>)
     \<and> List.find (\<lambda>v. dv_id v = i) (pg_devices (db_pg e)) = Some dv
     \<and> List.find (\<lambda>v. dv_cert_serial v = dv_cert_serial dv) (pg_devices (db_pg e)) = Some dv"

lemma approved_in_now [simp]: "approved_in g i dv d (e\<lparr>db_now := n\<rparr>) = approved_in g i dv d e"
  by (simp add: approved_in_def)

lemma ask_at_door:
  assumes "answering d" "tables_ok (db_pg d)" "t \<in> set (pg_tenants (db_pg d))"
    and "wb_schema (fd_web fd) = (\<lambda>s. (Inr (), s))" "plain_framework (fd_framework fd)"
    and "wb_device_code_request (fd_web fd) (from_utf8_lossy body) = Inr (tn_slug t, csr)" "length body \<le> MAX_BODY_BYTES"
    and "random_hex (rn_device rn) = Inr dc" "random_user_code (rn_user rn) = Inr uc" "fresh_codes dc uc d"
    and "csr_is_valid_ed25519 (wb_x509 (fd_web fd)) csr"
  shows "\<exists>e. front_door fd rn c (post ''/device/code'' body) (d, p)
      = (Answer (rendered_json (fd_web fd) 200 (code_response (new_grant dc uc (tn_id t) csr d))), e, p)
    \<and> answering e \<and> db_pg e = asked_pg (new_grant dc uc (tn_id t) csr d) d \<and> db_now e = db_now d"
proof -
  let ?rq = "\<lparr>in_headers = [], in_body = body\<rparr>"
  have "List.find (\<lambda>u. tn_slug u = tn_slug t) (pg_tenants (db_pg d)) = Some t"
    using assms(2,3) by (simp add: tables_ok_def keys_ok_def find_Some_iff_unique)
  then obtain e where "handle_device_code (fd_web fd) (rn_device rn) (rn_user rn) ?rq d
      = (Some (rendered_json (fd_web fd) 200 (code_response (new_grant dc uc (tn_id t) csr d))), e)"
    "answering e" "db_pg e = asked_pg (new_grant dc uc (tn_id t) csr d) d" "db_now e = db_now d"
    using code_step [where d = d and wb = "fd_web fd" and rq = ?rq and t = t and rd = "rn_device rn" and ru = "rn_user rn"
        and slug = "tn_slug t" and csr = csr and dc = dc and uc = uc] assms(1,4,6,8-11)
    by (force simp: body_string_def asked_pg_def)
  then show ?thesis using posted(1) [OF assms(5,7)] by (intro exI [of _ e]) simp
qed

lemma submit_at_door:
  assumes "answering d" "tables_ok (db_pg d)" "t \<in> set (pg_tenants (db_pg d))"
    and "wb_schema (fd_web fd) = (\<lambda>s. (Inr (), s))" "plain_framework (fd_framework fd)"
    and "random_user_code ru = Inr uc" "fresh_codes dc uc d" "g = new_grant dc uc (tn_id t) csr d"
    and "answering e" "db_pg e = asked_pg g d" "db_now e < db_now d + GRANT_TTL"
    and "signable (fd_web fd) rn (db_now e) (fd_ca fd) csr cert key d"
    and "i = pg_seqs (db_pg d) ''devices'' + 1"
  shows "\<exists>e'. front_door fd rn c (post ''/verify'' (code_form uc)) (e, p) = (Answer (rendered_html 200 APPROVED_HTML), e', p)
    \<and> approved_in g i (enrolled i (tn_id t) key cert e) d e' \<and> db_now e' = db_now e"
proof -
  let ?rq = "\<lparr>in_headers = [], in_body = code_form uc\<rparr>"
  note asked = asked_rows [OF assms(2,3,7), of e csr]
  have ok: "tables_ok (db_pg e)" "List.find (\<lambda>h. gr_user_code h = uc) (pg_grants (db_pg e)) = Some g"
    using asked by (simp_all add: assms(8,10) asked_pg_def)
  have g: "gr_tenant_id g = tn_id t" "gr_csr_pem g = csr" "gr_approved_device_id g = None" "\<not> is_expired (db_now e) g"
    using assms(11) by (simp_all add: assms(8) new_grant_def is_expired_def)
  have rows: "pg_devices (db_pg e) = pg_devices (db_pg d)" "pg_tenants (db_pg e) = pg_tenants (db_pg d)"
    "pg_seqs (db_pg e) ''devices'' = pg_seqs (db_pg d) ''devices''" "g \<in> set (pg_grants (db_pg e))"
    by (simp_all add: assms(10) asked_pg_def)
  obtain e' where e': "handle_verify_submit (fd_web fd) (rn_serial rn) (fd_ca fd) ?rq e = (Some (rendered_html 200 APPROVED_HTML), e')"
    "answering e'" "pg_tenants (db_pg e') = pg_tenants (db_pg d)"
    "pg_grants (db_pg e') = map (\<lambda>h. if gr_id h = gr_id g then h\<lparr>gr_approved_device_id := Some i\<rparr> else h) (pg_grants (db_pg e))"
    "pg_devices (db_pg e') = pg_devices (db_pg d) @ [enrolled i (tn_id t) key cert e]" "db_now e' = db_now e"
    using submit_step [where d = e and wb = "fd_web fd" and rq = ?rq and uc = uc and g = g and rn = "rn_serial rn"
        and ca = "fd_ca fd" and cert = cert and key = key and i = i] assms(4,9,12,13) ok g rows code_form_ok [OF assms(6)]
    by (auto simp: body_string_def signable_def)
  have "i \<notin> dv_id ` set (pg_devices (db_pg d))" "Some (sg_serial_hex cert) \<notin> dv_cert_serial ` set (pg_devices (db_pg d))"
    using assms(2,12,13) by (auto simp: tables_ok_def keys_ok_def signable_def)
  then have "approved_in g i (enrolled i (tn_id t) key cert e) d e'"
    using approved_rows [OF ok(1) rows(4) _ _ e'(4,5)] e'(2,3) by (simp add: approved_in_def enrolled_def)
  then show ?thesis using posted(2) [OF assms(5) code_form_ok(2) [OF assms(6)] _ e'(1)] e'(6) by (intro exI [of _ e']) simp
qed

lemma poll_at_door:
  assumes "tables_ok (db_pg d)" "t \<in> set (pg_tenants (db_pg d))"
    and "wb_schema (fd_web fd) = (\<lambda>s. (Inr (), s))" "plain_framework (fd_framework fd)"
    and "wb_token_request (fd_web fd) (from_utf8_lossy body) = Inr (gr_device_code g)" "length body \<le> MAX_BODY_BYTES"
    and "approved_in g i dv d e" "gr_tenant_id g = tn_id t" "\<not> is_expired (db_now e) g" "dv_certificate_pem dv = Some pem"
  shows "\<exists>e'. front_door fd rn c (post ''/device/token'' body) (e, p)
      = (Answer (rendered_json (fd_web fd) 200 (token_response (tn_slug t) i pem (fd_ca fd))), e', p)
    \<and> answering e' \<and> db_pg e' = db_pg e"
proof -
  let ?rq = "\<lparr>in_headers = [], in_body = body\<rparr>"
  have "List.find (\<lambda>u. tn_id u = tn_id t) (pg_tenants (db_pg d)) = Some t"
    using assms(1,2) by (simp add: tables_ok_def keys_ok_def find_Some_iff_unique)
  then obtain e' where "handle_device_token (fd_web fd) (fd_ca fd) ?rq e
      = (Some (rendered_json (fd_web fd) 200 (token_response (tn_slug t) i pem (fd_ca fd))), e')" "answering e'" "db_pg e' = db_pg e"
    using token_step [where d = e and wb = "fd_web fd" and rq = ?rq and dc = "gr_device_code g" and t = t
        and g = "g\<lparr>gr_approved_device_id := Some i\<rparr>" and i = i and dv = dv and pem = pem and ca = "fd_ca fd"] assms(3,5-)
    by (force simp: body_string_def is_expired_def approved_in_def)
  then show ?thesis using posted(3) [OF assms(4,6)] by (intro exI [of _ e']) simp
qed


text \<open>Enrolling a second device for the tenant bob of the earlier example.\<close>

definition enrol_x509 :: x509 where
  "enrol_x509 = \<lparr>x5_generate_key = Inl [], x5_public_of = (\<lambda>k. k), x5_load = (\<lambda>_ _. Inr ()), x5_self_signed = (\<lambda>_ _. Inl []),
     x5_parse_csr = (\<lambda>_. Inr \<lparr>cq_is_ed25519 = True, cq_key = replicate 32 (CHR ''k''), cq_requested = no_params\<rparr>),
     x5_sign = (\<lambda>_ _ _. Inr ''der''), x5_pem = (\<lambda>c. c), x5_raw_serial = (\<lambda>_. Some [9])\<rparr>"

text \<open>An answer in JSON is written as the name of its first field.\<close>

definition enrol_door :: "(nat hub_usage, nat) door" where
  "enrol_door = \<lparr>fd_web = demo_web\<lparr>wb_x509 := enrol_x509, wb_device_code_request := (\<lambda>_. Inr (''bob'', ''csr'')),
       wb_to_vec := (\<lambda>v. case v of JObj ((k, _) # _) \<Rightarrow> Inr k | _ \<Rightarrow> Inl []),
       wb_token_request := (\<lambda>_. Inr ''0102''), wb_openssh_key := (\<lambda>_. Inr ''ssh-ed25519 NEW'')\<rparr>,
     fd_framework = \<lparr>fw_pick = (\<lambda>ms m. if m \<in> set ms then Inr (m, id) else Inl (status_only 405)), fw_valid = (\<lambda>_. True), fw_unwinds = False\<rparr>,
     fd_pods = demo_pods, fd_ca = \<lparr>ca_cert_pem = ''ca'', ca_key_pem = ''key''\<rparr>, fd_repos_root = ''/repos'', fd_image = ''img''\<rparr>"

definition enrol_random :: door_random where
  "enrol_random = \<lparr>rn_device = Inr [1, 2], rn_user = Inr [0, 1, 2, 3, 4, 5, 6, 7], rn_serial = Inr [9]\<rparr>"

definition enrol_hub :: "nat hub_usage db" where
  "enrol_hub = demo_hub\<lparr>db_fault := \<lambda>_. None\<rparr>"

definition enrol_cert :: "int \<Rightarrow> signed_device_cert" where
  "enrol_cert now = \<lparr>sg_certificate_pem = ''der'', sg_serial_hex = ''09'', sg_public_key_raw = replicate 32 (CHR ''k''),
      sg_not_before = now - DAY, sg_not_after = now + DEVICE_CERT_VALIDITY_DAYS * DAY\<rparr>"

lemma enrol_hub_facts:
  "answering enrol_hub" "tables_ok (db_pg enrol_hub)" "\<exists>t \<in> set (pg_tenants (db_pg enrol_hub)). tn_slug t = ''bob''"
  "fresh_codes ''0102'' ''ABCD-EFGH'' enrol_hub"
  using demo_hub_holds(2) by (simp_all add: enrol_hub_def answering_def demo_hub_def demo_db_def Let_def fresh_codes_def)

lemma enrol_door_facts:
  "wb_schema (fd_web enrol_door) = (\<lambda>s. (Inr (), s))" "plain_framework (fd_framework enrol_door)"
  "random_hex (rn_device enrol_random) = Inr ''0102''" "random_user_code (rn_user enrol_random) = Inr ''ABCD-EFGH''"
  "signable (fd_web enrol_door) enrol_random now (fd_ca enrol_door) ''csr'' (enrol_cert now) ''ssh-ed25519 NEW'' enrol_hub"
  "cert_serial_hex (wb_x509 (fd_web enrol_door)) ''der'' = Some (sg_serial_hex (enrol_cert now))"
proof -
  have hex: "concat (map hex2 [9]) = ''09''" by code_simp
  show "wb_schema (fd_web enrol_door) = (\<lambda>s. (Inr (), s))" "plain_framework (fd_framework enrol_door)"
    by (simp_all add: enrol_door_def demo_web_def plain_framework_def)
  show "random_hex (rn_device enrol_random) = Inr ''0102''" "random_user_code (rn_user enrol_random) = Inr ''ABCD-EFGH''" by code_simp+
  show "signable (fd_web enrol_door) enrol_random now (fd_ca enrol_door) ''csr'' (enrol_cert now) ''ssh-ed25519 NEW'' enrol_hub"
    using hex by (simp add: signable_def csr_is_valid_ed25519_def sign_device_csr_def ca_lib_def ca_issuer_def enrol_door_def enrol_x509_def
        enrol_random_def enrol_hub_def enrol_cert_def demo_hub_def demo_db_def Let_def)
  show "cert_serial_hex (wb_x509 (fd_web enrol_door)) ''der'' = Some (sg_serial_hex (enrol_cert now))"
    using hex by (simp add: enrol_door_def enrol_x509_def enrol_cert_def cert_serial_hex_def)
qed


end
