(* ===== verification/DeviceEnrol.thy ===== *)
theory DeviceEnrol
  imports HubRegister Enrolment
begin

text \<open>
  Both ends of a registration: \<open>wkp hub register\<close> (crates/wkp-cli/src/hub_register.rs) talking to the front door of
  the hub (crates/wkp-hub/src/front_door.rs, http.rs). The rest of the client's world is the hub: its database and its pods.
  A request of the client is a request at the front door; while the client sleeps, the clock goes on, and at one
  moment somebody submits the form with the code that was shown.
\<close>

section \<open>The hub as the client's world\<close>

definition hub_post ::
  "('u, 'p) door \<Rightarrow> door_random \<Rightarrow> string \<Rightarrow> (hub_request \<Rightarrow> string) \<Rightarrow> string \<Rightarrow> hub_request
    \<Rightarrow> (('u db \<times> 'p) world, hub_reply) prog" where
  "hub_post fd rn base body url q w =
     (case front_door fd rn None (post (drop (length base) url) (body q)) (wd_git w) of
        (Answer r, s) \<Rightarrow> (Inr \<lparr>rp_status = rd_status r, rp_body = Inr (rd_body r)\<rparr>, w\<lparr>wd_git := s\<rparr>)
      | (_, s) \<Rightarrow> (Inl ''connection closed'', w\<lparr>wd_git := s\<rparr>))"

definition hub_sleep ::
  "('u, 'p) door \<Rightarrow> door_random \<Rightarrow> string \<Rightarrow> int \<Rightarrow> nat \<Rightarrow> ('u db \<times> 'p) world \<Rightarrow> ('u db \<times> 'p) world" where
  "hub_sleep fd rn uc subm n w =
     (case wd_git w of (d, p) \<Rightarrow>
      let later = db_now d + int n * 1000000;
          (d1, p1) = (if db_now d < subm \<and> subm \<le> later then snd (front_door fd rn None (post ''/verify'' (code_form uc)) (d\<lparr>db_now := subm\<rparr>, p))
            else (d, p)) in
      w\<lparr>wd_git := (d1\<lparr>db_now := later\<rparr>, p1)\<rparr>)"

definition error_reply :: "string \<Rightarrow> token_reply" where
  "error_reply e = \<lparr>tk_status = None, tk_tenant_slug = None, tk_device_id = None, tk_certificate_pem = None, tk_ca_cert_pem = None, tk_error = Some e\<rparr>"

definition approved_reply :: "string \<Rightarrow> int \<Rightarrow> string \<Rightarrow> hub_ca \<Rightarrow> token_reply" where
  "approved_reply slug i pem ca =
     \<lparr>tk_status = Some ''approved'', tk_tenant_slug = Some slug, tk_device_id = Some i, tk_certificate_pem = Some pem,
      tk_ca_cert_pem = Some (ca_cert_pem ca), tk_error = None\<rparr>"

text \<open>What the hub issued, as the client reads it.\<close>

definition issued_code :: "device_grant \<Rightarrow> device_code_reply" where
  "issued_code g =
     \<lparr>dc_device_code = gr_device_code g, dc_user_code = gr_user_code g, dc_verification_uri = ''/verify'',
      dc_expires_in = GRANT_TTL div 1000000, dc_interval = nat POLL_INTERVAL_SECONDS\<rparr>"

text \<open>What is documented of JSON: in this exchange each side reads what the other side wrote.\<close>

definition json_agrees ::
  "('u, 'p) door \<Rightarrow> ('c, 'i, 'k, 'u db \<times> 'p) register_env \<Rightarrow> (hub_request \<Rightarrow> string) \<Rightarrow> string \<Rightarrow> string \<Rightarrow> device_grant \<Rightarrow> int
    \<Rightarrow> string \<Rightarrow> bool" where
  "json_agrees fd rv body slug csr g i pem \<longleftrightarrow>
     wb_device_code_request (fd_web fd) (from_utf8_lossy (body (AskCode slug csr))) = Inr (slug, csr)
     \<and> length (body (AskCode slug csr)) \<le> MAX_BODY_BYTES
     \<and> rv_code rv (rd_body (rendered_json (fd_web fd) 200 (code_response g))) = Inr (issued_code g)
     \<and> wb_token_request (fd_web fd) (from_utf8_lossy (body (AskToken (gr_device_code g)))) = Inr (gr_device_code g)
     \<and> length (body (AskToken (gr_device_code g))) \<le> MAX_BODY_BYTES
     \<and> rv_token rv (rd_body (error_body (fd_web fd) 400 ''authorization_pending'')) = Inr (error_reply ''authorization_pending'')
     \<and> rv_token rv (rd_body (rendered_json (fd_web fd) 200 (token_response slug i pem (fd_ca fd)))) = Inr (approved_reply slug i pem (fd_ca fd))"

text \<open>The client's calls are calls of this hub, and the two clocks go on together.\<close>

definition meets_hub ::
  "('u, 'p) door \<Rightarrow> door_random \<Rightarrow> door_random \<Rightarrow> (hub_request \<Rightarrow> string) \<Rightarrow> string \<Rightarrow> int \<Rightarrow> int
    \<Rightarrow> ('c, 'i, 'k, 'u db \<times> 'p) register_env \<Rightarrow> hub_register_options \<Rightarrow> bool" where
  "meets_hub fd rn1 rn2 body uc subm offset rv opts \<longleftrightarrow>
     rv_post rv = (\<lambda>_. hub_post fd rn1 (hr_hub_url opts) body) \<and> rv_sleep rv = hub_sleep fd rn2 uc subm
     \<and> rv_instant rv = (\<lambda>w. offset + db_now (fst (wd_git w)) * 1000) \<and> rv_chmod rv = (\<lambda>_ _. ret ())"

section \<open>One request\<close>

lemma hub_post_answers:
  assumes "front_door fd rn None (post path (body q)) (d, p) = (Answer r, s)" "wd_git w = (d, p)"
  shows "hub_post fd rn base body (base @ path) q w = (Inr \<lparr>rp_status = rd_status r, rp_body = Inr (rd_body r)\<rparr>, w\<lparr>wd_git := s\<rparr>)"
  using assms by (simp add: hub_post_def)

lemma plain_error [simp]: "rd_extra_headers (error_body wb n e) = []"
  by (simp add: error_body_def)

lemma rendered_status [simp]: "rd_status (rendered_json wb n v) = n"
  by (simp add: rendered_json_def)

lemma code_answered:
  assumes "meets_hub fd rn1 rn2 body uc subm offset rv opts" "wd_git w = (d, p)"
    and "front_door fd rn1 None (post ''/device/code'' (body (AskCode (hr_tenant_slug opts) csr))) (d, p)
      = (Answer (rendered_json (fd_web fd) 200 (code_response g)), e, p)"
    and "rv_code rv (rd_body (rendered_json (fd_web fd) 200 (code_response g))) = Inr (issued_code g)"
  shows "request_code rv opts ca_cert csr w = (Inr (issued_code g), w\<lparr>wd_git := (e, p)\<rparr>)"
  using hub_post_answers [where body = body and q = "AskCode (hr_tenant_slug opts) csr", OF assms(3,2)] assms(1,4)
  by (simp add: request_code_def meets_hub_def andthen_def attempt_def map_err_def given_def
      bind_result_def map_error_def)

lemma poll_answered:
  assumes "meets_hub fd rn1 rn2 body uc subm offset rv opts" "wd_git w = (d, p)"
    and "front_door fd rn1 None (post ''/device/token'' (body (AskToken (dc_device_code code)))) (d, p) = (Answer r, s)"
    and "rv_token rv (rd_body r) = Inr token"
  shows "poll_once rv opts ca_cert code w = (Inr token, w\<lparr>wd_git := s\<rparr>)"
  using hub_post_answers [where body = body and q = "AskToken (dc_device_code code)", OF assms(3,2)] assms(1,4)
  by (simp add: poll_once_def meets_hub_def andthen_def attempt_def map_err_def given_def bind_result_def map_error_def)

lemma waits_at_door:
  assumes "answering d" "wb_schema (fd_web fd) = (\<lambda>s. (Inr (), s))" "plain_framework (fd_framework fd)"
    and "wb_token_request (fd_web fd) (from_utf8_lossy body) = Inr dc" "length body \<le> MAX_BODY_BYTES"
    and "List.find (\<lambda>g. gr_device_code g = dc) (pg_grants (db_pg d)) = Some g" "\<not> is_expired (db_now d) g" "gr_approved_device_id g = None"
  shows "\<exists>e. front_door fd rn c (post ''/device/token'' body) (d, p) = (Answer (error_body (fd_web fd) 400 ''authorization_pending''), e, p)
    \<and> answering e \<and> db_pg e = db_pg d \<and> db_now e = db_now d"
proof -
  let ?rq = "\<lparr>in_headers = [], in_body = body\<rparr>"
  have "\<exists>e. handle_device_token (fd_web fd) (fd_ca fd) ?rq d = (Some (error_body (fd_web fd) 400 ''authorization_pending''), e)
    \<and> answering e \<and> db_pg e = db_pg d \<and> db_now e = db_now d"
    using assms by (simp add: handle_device_token_def ask_def run_connect run_finds run_select reply_def body_string_def)
  then obtain e where "handle_device_token (fd_web fd) (fd_ca fd) ?rq d = (Some (error_body (fd_web fd) 400 ''authorization_pending''), e)"
    "answering e" "db_pg e = db_pg d" "db_now e = db_now d" by blast
  then show ?thesis using posted(3) [OF assms(3,5)] by (intro exI [of _ e]) simp
qed

section \<open>Polling until the code is approved\<close>

text \<open>The hub and the client when the code has been issued: the hub at \<open>d\<close> gave out the grant \<open>g\<close>.\<close>

definition code_issued ::
  "('u, 'p) door \<Rightarrow> door_random \<Rightarrow> 'u db \<Rightarrow> tenant \<Rightarrow> string \<Rightarrow> string \<Rightarrow> string \<Rightarrow> device_grant \<Rightarrow> bool" where
  "code_issued fd rn d t dc uc csr g \<longleftrightarrow>
     answering d \<and> tables_ok (db_pg d) \<and> t \<in> set (pg_tenants (db_pg d)) \<and> wb_schema (fd_web fd) = (\<lambda>s. (Inr (), s))
     \<and> plain_framework (fd_framework fd) \<and> random_hex (rn_device rn) = Inr dc \<and> random_user_code (rn_user rn) = Inr uc
     \<and> fresh_codes dc uc d \<and> g = new_grant dc uc (tn_id t) csr d"

lemma still_waiting:
  assumes "code_issued fd rn1 d t dc uc csr g" "meets_hub fd rn1 rn2 body uc subm offset rv opts"
    and "wd_git v = (e, p)" "answering e" "db_pg e = asked_pg g d" "db_now e < db_now d + GRANT_TTL" "json_agrees fd rv body slug csr g i pem"
  shows "\<exists>e'. poll_once rv opts ca_cert (issued_code g) v = (Inr (error_reply ''authorization_pending''), v\<lparr>wd_git := (e', p)\<rparr>)
    \<and> answering e' \<and> db_pg e' = asked_pg g d \<and> db_now e' = db_now e"
proof -
  have g: "gr_device_code g = dc" "\<not> is_expired (db_now e) g" "gr_approved_device_id g = None"
    using assms(1,6) by (simp_all add: code_issued_def new_grant_def is_expired_def)
  have "List.find (\<lambda>h. gr_device_code h = dc) (pg_grants (db_pg e)) = Some g"
    using assms(1) find_None_iff_key [of gr_device_code dc "pg_grants (db_pg d)"] g(1)
    by (simp add: assms(5) asked_pg_def find_append code_issued_def fresh_codes_def)
  then obtain e' where "front_door fd rn1 None (post ''/device/token'' (body (AskToken (dc_device_code (issued_code g))))) (e, p)
      = (Answer (error_body (fd_web fd) 400 ''authorization_pending''), e', p)" "answering e'" "db_pg e' = asked_pg g d" "db_now e' = db_now e"
    using waits_at_door [where fd = fd and body = "body (AskToken dc)" and dc = dc and g = g and d = e and rn = rn1 and c = None and p = p]
      assms(1,4,5,7) g by (auto simp: code_issued_def json_agrees_def issued_code_def)
  then show ?thesis
    using poll_answered [OF assms(2,3)] assms(7) by (intro exI [of _ e'] conjI) (simp_all add: json_agrees_def)
qed

lemma approved_meanwhile:
  assumes "code_issued fd rn1 d t dc uc csr g" "meets_hub fd rn1 rn2 body uc subm offset rv opts"
    and "wd_git v = (e, p)" "answering e" "db_pg e = asked_pg g d"
    and "db_now e < subm" "subm \<le> db_now e + int n * 1000000" "db_now e + int n * 1000000 < db_now d + GRANT_TTL"
    and "signable (fd_web fd) rn2 subm (fd_ca fd) csr cert key d" "i = pg_seqs (db_pg d) ''devices'' + 1"
    and "dv = enrolled i (tn_id t) key cert (d\<lparr>db_now := subm\<rparr>)"
    and "json_agrees fd rv body (tn_slug t) csr g i (sg_certificate_pem cert)"
  shows "\<exists>e'. poll_once rv opts ca_cert (issued_code g) (rv_sleep rv n v)
      = (Inr (approved_reply (tn_slug t) i (sg_certificate_pem cert) (fd_ca fd)), v\<lparr>wd_git := (e', p)\<rparr>)
    \<and> approved_in g i dv d e'"
proof -
  let ?later = "db_now e + int n * 1000000"
  have issued: "answering d" "tables_ok (db_pg d)" "t \<in> set (pg_tenants (db_pg d))" "wb_schema (fd_web fd) = (\<lambda>s. (Inr (), s))"
    "plain_framework (fd_framework fd)" "random_user_code (rn_user rn1) = Inr uc" "fresh_codes dc uc d" "g = new_grant dc uc (tn_id t) csr d"
    using assms(1) by (simp_all add: code_issued_def)
  obtain e1 where e1: "front_door fd rn2 None (post ''/verify'' (code_form uc)) (e\<lparr>db_now := subm\<rparr>, p)
      = (Answer (rendered_html 200 APPROVED_HTML), e1, p)" "approved_in g i dv d e1"
    using submit_at_door [OF issued, where e = "e\<lparr>db_now := subm\<rparr>" and cert = cert and key = key and rn = rn2 and i = i and c = None and p = p]
      assms(4-11) by (auto simp: enrolled_def)
  have slept: "rv_sleep rv n v = v\<lparr>wd_git := (e1\<lparr>db_now := ?later\<rparr>, p)\<rparr>"
    using assms(2,3,6,7) e1(1) by (simp add: meets_hub_def hub_sleep_def)
  have g: "gr_device_code g = dc" "gr_tenant_id g = tn_id t" "\<not> is_expired ?later g" "dv_certificate_pem dv = Some (sg_certificate_pem cert)"
    using assms(8) by (simp_all add: issued(8) assms(11) new_grant_def is_expired_def enrolled_def)
  obtain e2 where e2: "front_door fd rn1 None (post ''/device/token'' (body (AskToken (dc_device_code (issued_code g))))) (e1\<lparr>db_now := ?later\<rparr>, p)
      = (Answer (rendered_json (fd_web fd) 200 (token_response (tn_slug t) i (sg_certificate_pem cert) (fd_ca fd))), e2, p)"
    "answering e2" "db_pg e2 = db_pg e1"
    using poll_at_door [OF issued(2-5), where body = "body (AskToken dc)" and g = g and e = "e1\<lparr>db_now := ?later\<rparr>" and dv = dv and i = i
        and pem = "sg_certificate_pem cert" and rn = rn1 and c = None and p = p] e1(2) assms(12) g
    by (auto simp: json_agrees_def issued_code_def)
  have "poll_once rv opts ca_cert (issued_code g) (rv_sleep rv n v)
      = (Inr (approved_reply (tn_slug t) i (sg_certificate_pem cert) (fd_ca fd)), (rv_sleep rv n v)\<lparr>wd_git := (e2, p)\<rparr>)"
    by (rule poll_answered [OF assms(2) _ e2(1)]) (simp add: slept, use assms(12) in \<open>simp add: json_agrees_def\<close>)
  then show ?thesis using e1(2) e2(2,3) by (intro exI [of _ e2]) (simp add: slept approved_in_def)
qed

lemma polls_until_approved:
  assumes issued: "code_issued fd rn1 d t dc uc csr g" and hub: "meets_hub fd rn1 rn2 body uc subm offset rv opts"
    and "signable (fd_web fd) rn2 subm (fd_ca fd) csr cert key d" "i = pg_seqs (db_pg d) ''devices'' + 1"
    and "dv = enrolled i (tn_id t) key cert (d\<lparr>db_now := subm\<rparr>)"
    and json: "json_agrees fd rv body (tn_slug t) csr g i (sg_certificate_pem cert)"
    and "subm + POLL_INTERVAL_SECONDS * 1000000 \<le> db_now d + GRANT_TTL" "deadline = offset + db_now d * 1000 + GRANT_TTL * 1000"
    and "wd_git v = (e, p)" "answering e" "db_pg e = asked_pg g d" "db_now e < subm"
  shows "\<exists>e'. poll_loop rv opts identity ca_cert (issued_code g) deadline v
      = Some (settle rv opts identity (approved_reply (tn_slug t) i (sg_certificate_pem cert) (fd_ca fd)) (v\<lparr>wd_git := (e', p)\<rparr>))
    \<and> approved_in g i dv d e'"
  using assms(9-)
proof (induction "nat (subm - db_now e)" arbitrary: e v rule: less_induct)
  case less
  let ?n = "nat POLL_INTERVAL_SECONDS"
  let ?later = "db_now e + int ?n * 1000000"
  have n: "int ?n = 5" "dc_interval (issued_code g) = ?n" by (simp_all add: POLL_INTERVAL_SECONDS_def issued_code_def)
  have going: "\<not> deadline \<le> rv_instant rv v"
    using hub less.prems(1,4) assms(7,8) by (simp add: meets_hub_def POLL_INTERVAL_SECONDS_def)
  have before: "?later < db_now d + GRANT_TTL" using less.prems(4) assms(7) n by (simp add: POLL_INTERVAL_SECONDS_def)
  show ?case
  proof (cases "subm \<le> ?later")
    case True
    show ?thesis
      using approved_meanwhile [OF issued hub less.prems(1-3) less.prems(4) True before assms(3-5) json, of ca_cert] going n
      by (subst poll_loop.simps) (auto simp: approved_reply_def)
  next
    case False
    let ?e = "e\<lparr>db_now := ?later\<rparr>"
    have slept: "rv_sleep rv ?n v = v\<lparr>wd_git := (?e, p)\<rparr>" using hub less.prems(1) False by (simp add: meets_hub_def hub_sleep_def Let_def)
    obtain e1 where e1: "poll_once rv opts ca_cert (issued_code g) (rv_sleep rv ?n v)
        = (Inr (error_reply ''authorization_pending''), v\<lparr>wd_git := (e1, p)\<rparr>)" "answering e1" "db_pg e1 = asked_pg g d" "db_now e1 = ?later"
      using still_waiting [OF issued hub, where v = "rv_sleep rv ?n v" and e = ?e and p = p and ca_cert = ca_cert, OF _ _ _ _ json] less.prems before
      by (auto simp: slept)
    have "\<exists>e'. poll_loop rv opts identity ca_cert (issued_code g) deadline (v\<lparr>wd_git := (e1, p)\<rparr>)
        = Some (settle rv opts identity (approved_reply (tn_slug t) i (sg_certificate_pem cert) (fd_ca fd)) (v\<lparr>wd_git := (e1, p)\<rparr>\<lparr>wd_git := (e', p)\<rparr>))
      \<and> approved_in g i dv d e'"
      by (rule less.hyps [where e = e1]) (use e1 False n(1) less.prems(4) in \<open>simp_all del: of_nat_nat int_nat_eq\<close>)
    then show ?thesis using e1(1) going n by (subst poll_loop.simps) (auto simp: error_reply_def)
  qed
qed

section \<open>What the client stores\<close>

lemma no_fault_writes:
  assumes "\<forall>q. wd_fault w FsMkdir q = None \<and> wd_fault w FsWrite q = None"
  shows "\<exists>w'. write_public_file path s w = (Inr (), w') \<and> wd_fault w' = wd_fault w \<and> wd_git w' = wd_git w"
  using assms
  by (auto simp: write_public_file_def create_parent_def create_dir_all_def fs_write_def andthen_def attempt_def ret_def split: option.split)

lemma approved_is_stored:
  assumes "\<forall>q. wd_fault w FsMkdir q = None \<and> wd_fault w FsWrite q = None" "rv_chmod rv = (\<lambda>_ _. ret ())"
    and "to_pkcs8_pem (rv_keys rv) identity = Inr key"
  shows "\<exists>w'. settle rv opts identity (approved_reply slug i pem ca) w = (Inr \<lparr>hs_tenant_slug = slug, hs_device_id = i\<rparr>, w') \<and> wd_git w' = wd_git w"
proof -
  have restricted: "write_private_file (rv_chmod rv) path s v = write_public_file path s v" for path s v
    by (simp add: assms(2) write_private_file_def write_public_file_def andthen_def attempt_def ret_def split: prod.split sum.split)
  obtain w1 where w1: "write_public_file (join_path (hr_path opts) DEVICE_CERT_FILE) pem w = (Inr (), w1)" "wd_fault w1 = wd_fault w"
    "wd_git w1 = wd_git w" using no_fault_writes [OF assms(1)] by blast
  obtain w2 where w2: "write_public_file (join_path (hr_path opts) HubRegister.CA_CERT_FILE) (ca_cert_pem ca) w1 = (Inr (), w2)" "wd_fault w2 = wd_fault w"
    "wd_git w2 = wd_git w" using no_fault_writes [of w1] assms(1) w1 by metis
  obtain w3 where w3: "write_public_file (join_path (hr_path opts) DEVICE_KEY_PEM_FILE) key w2 = (Inr (), w3)" "wd_git w3 = wd_git w"
    using no_fault_writes [of w2] assms(1) w2 by metis
  show ?thesis
    by (rule exI [of _ w3]) (simp add: settle_def approved_reply_def store_registration_def required_def given_def andthen_def attempt_def
        ret_def restricted assms(3) map_error_def w1 w2 w3)
qed

section \<open>The device is registered\<close>


section \<open>A device of bob\<close>

text \<open>Its device id and its key are there; the form is submitted twelve seconds after the start, during the third pause.\<close>

definition client_keys :: "(string, string, 'w) ssh_keys" where
  "client_keys =
     \<lparr>sk_generate = (\<lambda>w. (Inr ''id'', w)), sk_public = Inr, sk_show = Inr, sk_read = Inr, sk_raw = Some, sk_pkcs8 = Inr, sk_key_pair = Inr,
      sk_request = (\<lambda>_. Inr ''csr''), sk_pem = (\<lambda>k. ''key of '' @ k)\<rparr>"

definition bob_body :: "hub_request \<Rightarrow> string" where
  "bob_body q = (case q of AskCode slug csr \<Rightarrow> slug @ '' '' @ csr | AskToken dc \<Rightarrow> dc)"

definition bob_client :: "(string, string, string, nat hub_usage db \<times> nat) register_env" where
  "bob_client =
     \<lparr>rv_urandom = Inr [1, 2], rv_keys = client_keys,
      rv_keystore = \<lparr>ks_entry = (\<lambda>_ _ _. None), ks_get = (\<lambda>_ _ _. Secret ''id''), ks_set = (\<lambda>_ _ _ w. (Inr (), w))\<rparr>,
      rv_cert = Inr, rv_post = (\<lambda>_. hub_post enrol_door enrol_random ''https://hub'' bob_body),
      rv_code = (\<lambda>_. Inr \<lparr>dc_device_code = ''0102'', dc_user_code = ''ABCD-EFGH'', dc_verification_uri = ''/verify'',
        dc_expires_in = GRANT_TTL div 1000000, dc_interval = nat POLL_INTERVAL_SECONDS\<rparr>),
      rv_token = (\<lambda>answer. Inr (if answer = ''status'' then approved_reply ''bob'' 4 ''der'' (fd_ca enrol_door)
        else error_reply ''authorization_pending'')),
      rv_status_text = show_nat, rv_instant = (\<lambda>w. 7 + db_now (fst (wd_git w)) * 1000),
      rv_sleep = hub_sleep enrol_door enrol_random ''ABCD-EFGH'' 12000009, rv_chmod = (\<lambda>_ _. ret ())\<rparr>"

definition bob_options :: hub_register_options where
  "bob_options = \<lparr>hr_path = ''s'', hr_hub_url = ''https://hub'', hr_tenant_slug = ''bob'', hr_ca_cert_path = ''ca.pem''\<rparr>"

definition bob_world :: "(nat hub_usage db \<times> nat) world" where
  "bob_world =
     \<lparr>wd_files = [components ''s/.wkp/device-id'' \<mapsto> ''dev'', components ''ca.pem'' \<mapsto> ''root''], wd_dirs = [], wd_fault = (\<lambda>_ _. None),
      wd_nanos = 7, wd_pid = 1, wd_git = (enrol_hub, 0), wd_log = []\<rparr>"

lemma bob_prepared: "prepare_registration bob_client bob_options bob_world = (Inr (''id'', ''root'', ''csr''), bob_world)"
proof -
  have paths: "join_path ''s'' ''.wkp/device-id'' = ''s/.wkp/device-id''" "components ''s/.wkp/device-id'' \<noteq> components ''ca.pem''"
    "trim ''dev'' = ''dev''" "valid_utf8 ''id''" by code_simp+
  have "read_to_string ''s/.wkp/device-id'' bob_world = (Inr ''dev'', bob_world)" "read_to_string ''ca.pem'' bob_world = (Inr ''root'', bob_world)"
    using paths(2) by (simp_all add: read_to_string_def bob_world_def)
  moreover have "signing_identity_ensure client_keys (rv_keystore bob_client) ''dev'' f bob_world = (Inr ''id'', bob_world)" for f
    using paths(4) by (simp add: signing_identity_ensure_def ensure_key_def keystore_ensure_def get_or_create_def bob_client_def
        signing_kind_def client_keys_def map_error_def del: valid_utf8.simps)
  ultimately show ?thesis
    using paths(1,3) by (simp add: prepare_registration_def device_id_def Let_def ok_opt_def bob_options_def andthen_def attempt_def ret_def
        crypto_def map_err_def given_def map_error_def to_csr_pem_def to_rcgen_keypair_def bind_result_def bob_client_def client_keys_def)
qed


end
