(* ===== verification/CliHelp.thy ===== *)
theory CliHelp
  imports RustStr
begin

text \<open>
  The texts the command-line tool prints when it is asked for help (crates/wkp-cli/src/main.rs), as lists of lines, and the
  test for such a request.
\<close>

definition wants_help :: "string list \<Rightarrow> bool" where
  "wants_help args \<longleftrightarrow> list_ex (\<lambda>a. a = ''--help'' \<or> a = ''-h'') args"

section \<open>The texts\<close>

definition USAGE :: string where
  "USAGE = join [nl]
    [''Usage: wkp <COMMAND> [ARGS]'',
     [],
     ''Commands:'',
     ''  init                   Initialize a store in the current directory'',
     ''  index                  Build or refresh the SQLite FTS5 index'',
     ''  search <query>         BM25 search over the index'',
     ''  context <query>        Search plus graph-traversal context'',
     ''  traverse <path>        Walk refs:/wikilink graph edges from one item'',
     ''  materialize --tier N   Write tier0.md/tier1.md to .wkp/'',
     ''  hooks --framework F    Print hook text for a harness (SessionStart,'',
     ''                         UserPromptSubmit, PostToolUse for claude_code)'',
     ''  prompt-hook            Claude Code UserPromptSubmit plumbing (registered by `wkp hooks`)'',
     ''  remember               Write an agent-authored item to inbox/'',
     ''  promote <path>         Move an inbox/ item into the durable tree (human-signed)'',
     ''  forget                 Remove an item / rotate encryption recipients'',
     ''  purge <path>           Erase a path from git history (wraps git-filter-repo)'',
     ''  sync [status]          Sync with configured remotes / report conflicts'',
     ''  bundle export|import   Air-gapped sync via git bundle'',
     ''  import                 Import ~/.claude/projects, CLAUDE.md, AGENTS.md'',
     ''  merge-driver           Git merge-driver plumbing (registered by init)'',
     ''  filter clean|smudge    Git clean/smudge filter plumbing (registered by init)'',
     ''  resolve-conflicts      Resolve a modify/delete conflict pair'',
     ''  hub register           Register this device with a wkp-hub'',
     ''  wkpd                   Watch-triggered sync daemon'',
     ''  usage                  Show local usage metrics (calls, latency, errors)'',
     [],
     ''  --version, -V          Print the version and exit'',
     ''  --help, -h, help       Print this message and exit'',
     [],
     ''  --sandbox <backend> <COMMAND> [ARGS]'',
     ''                         Run COMMAND inside a container instead of'',
     ''                         natively (ADR-0015). Backends: podman.'',
     [],
     ''See AGENTS.md for how an agent should use these, or docs/plan/milestones.md'',
     ''for what each one's own acceptance criteria are.'']"

definition HELP_INIT :: string where
  "HELP_INIT = join [nl]
    [''Usage: wkp init [PATH]'',
     [],
     ''Makes PATH (default: current directory) a git repository with a'',
     ''.wkp/ directory, wires SSH commit signing, registers the merge driver'',
     ''and clean/smudge filter, and runs `wkp import` once. Idempotent --'',
     ''safe to re-run.'']"

definition HELP_IMPORT :: string where
  "HELP_IMPORT = join [nl]
    [''Usage: wkp import [PATH]'',
     [],
     ''One-shot, idempotent migration of pre-existing memory into'',
     ''inbox/import/: CLAUDE.md/AGENTS.md at the store root, and every'',
     ''~/.claude/projects/*/memory/*.md file. Runs automatically as part of'',
     ''`wkp init`; call it again by hand if new source files show up later.'',
     ''An existing destination file is never overwritten.'']"

definition HELP_SEARCH :: string where
  "HELP_SEARCH = join [nl]
    [''Usage: wkp search <query> [--tier N] [--budget N] [-k/--limit N]'',
     ''                   [--format text|paths|json] [--path DIR]'',
     ''                   [--embed-url URL [--embed-model NAME] [--embed-key-file PATH]]'',
     [],
     ''BM25 full-text search over index.db. --budget stops once estimated'',
     ''token cost exceeds N. --format paths is the form to feed into a'',
     ''Read-tool call. --embed-url opts into hybrid BM25+embedding search'',
     ''(requires a binary built with the `embed` feature); never called by'',
     ''default.'']"

definition HELP_CONTEXT :: string where
  "HELP_CONTEXT = join [nl]
    [''Usage: wkp context <query> [--tier N] [--budget N] [-k/--limit N]'',
     ''                    [--format text|paths|json] [--path DIR]'',
     [],
     ''Same flags as `search` (embedding flags are search-only -- context'',
     ''rejects them explicitly). Adds a graph traversal of the refs:/wikilink'',
     ''edges from each hit, so you also get directly-linked neighbors.'']"

definition HELP_TRAVERSE :: string where
  "HELP_TRAVERSE = join [nl]
    [''Usage: wkp traverse <path> [--depth N] [--format text|paths|json] [--path DIR]'',
     [],
     ''Walks refs:/[[wikilink]] edges outward from one specific file, no'',
     ''search query involved. --depth defaults to 2.'']"

definition HELP_MATERIALIZE :: string where
  "HELP_MATERIALIZE = join [nl]
    [''Usage: wkp materialize --tier N [--routing-table] [--path DIR]'',
     [],
     ''Writes .wkp/tierN.md atomically (temp file + rename). --tier is'',
     ''required -- no default, so a session-start hook never materializes'',
     [dquote] @ ''whatever tier'' @ [dquote] @ '' by accident. --routing-table (--tier 0 only) splices'',
     ''in a topic-to-path directory of every tier-1 item's title and path.'']"

definition HELP_PROMPT_HOOK :: string where
  "HELP_PROMPT_HOOK = join [nl]
    [''Usage: wkp prompt-hook'',
     [],
     ''Claude Code UserPromptSubmit hook plumbing (registered by `wkp hooks'',
     ''--framework claude_code`). Reads the hook's JSON payload from stdin,'',
     ''searches the store for its `prompt` field, and prints candidate paths'',
     ''when a hit clears WKP_PROMPT_HOOK_MIN_SCORE (default 0.0: any real'',
     ''match). Always'',
     ''exits 0 and never writes a file -- see AGENTS.md's '' @ [dquote] @ ''Automatic'',
     ''prompt-time discovery'' @ [dquote] @ ''.'']"

definition HELP_INDEX :: string where
  "HELP_INDEX = join [nl]
    [''Usage: wkp index [PATH] [--embed-url URL] [--embed-model NAME] [--embed-key-file PATH]'',
     [],
     ''Rescans the store and updates index.db incrementally, using git's own'',
     ''change detection to hash only what changed. Only .md files are'',
     ''indexed. Safe to run any time; cheap after a single-file edit.'']"

definition HELP_USAGE :: string where
  "HELP_USAGE = join [nl]
    [''Usage: wkp usage [--window 1h|1d|7d|30d] [--tool NAME] [--path DIR] [--json]'',
     [],
     ''Reads .wkp/metrics.db back: per-tool invocation count, error count,'',
     ''and avg/min/max latency for every subcommand run against this store.'',
     ''--window defaults to 1d; --tool filters to one metric by name.'']"

definition HELP_REMEMBER :: string where
  "HELP_REMEMBER = join [nl]
    [''Usage: wkp remember --type <type> --principal <principal>'',
     ''                     --signing-key-file <path> [--scope <scope>]'',
     ''                     [--title <title>] [--session <session>] [--path <dir>]'',
     [],
     ''Writes one SSH-signed item to inbox/, body read from stdin (never'',
     ''argv). --type, --principal, and --signing-key-file are required.'',
     ''Always lands at confidence: proposed, tier 2 -- nothing self-promotes'',
     ''to tier 0/1.'']"

definition HELP_PROMOTE :: string where
  "HELP_PROMOTE = join [nl]
    [''Usage: wkp promote <inbox-path> [--to <dest-path>] --principal <principal>'',
     ''                    --signing-key-file <path> [--path <dir>]'',
     [],
     ''Moves one inbox/ item into the durable tree with a human-signed'',
     ''commit. The one opt-in exception: a principal explicitly listed under'',
     ''[promote] auto = [...] in .wkp/config.toml.'']"

definition HELP_FORGET :: string where
  "HELP_FORGET = join [nl]
    [''Usage: wkp forget <path> --principal <p> --signing-key-file <f> [--path <dir>]'',
     ''   or: wkp forget --device <id> --principal <p> --signing-key-file <f> [--path <dir>]'',
     [],
     ''The first form removes one tracked item; the second revokes a'',
     ''device's encryption-recipient entry and re-encrypts every currently-'',
     ''tracked visibility: private file. Both always require role: human.'']"

definition HELP_PURGE :: string where
  "HELP_PURGE = join [nl]
    [''Usage: wkp purge <path> [--path <dir>]'',
     [],
     ''Erases a path from git history entirely, wrapping the upstream'',
     ''git-filter-repo tool (not vendored -- install it separately).'']"

definition HELP_SYNC :: string where
  "HELP_SYNC = join [nl]
    [''Usage: wkp sync [--remote <name>] [--path <dir>]'',
     ''   or: wkp sync status [--path <dir>]'',
     [],
     ''Fetches and pushes this device's branch, converging with peer devices'',
     ''through the merge driver. `sync status` reports unresolved conflicts'',
     ''without changing anything.'']"

definition HELP_BUNDLE :: string where
  "HELP_BUNDLE = join [nl]
    [''Usage: wkp bundle export <output-path> [--since <ref>] [--path <dir>]'',
     ''   or: wkp bundle import <bundle-path> [--path <dir>]'',
     [],
     ''`export` writes a git bundle for air-gapped sync (everything, or'',
     ''everything since --since). `import` applies a bundle produced by'',
     ''`bundle export` on another device.'']"

definition HELP_RESOLVE_CONFLICTS :: string where
  "HELP_RESOLVE_CONFLICTS = join [nl]
    [''Usage: wkp resolve-conflicts [path]'',
     [],
     ''Resolves modify/delete conflicts (a deletion always loses to a'',
     ''modification) by keeping the modification and proposing the deletion'',
     ''as an inbox/ item instead of silently dropping either side.'']"

definition HELP_HUB :: string where
  "HELP_HUB = join [nl]
    [''Usage: wkp hub register --hub-url <url> --tenant <slug> --ca-cert <path> [--path <dir>]'',
     [],
     ''Registers this device with a wkp-hub (RFC 8628 device flow), issuing'',
     ''an mTLS device certificate. --ca-cert is the hub's own CA root.'']"

definition HELP_WKPD :: string where
  "HELP_WKPD = join [nl]
    [''Usage: wkp wkpd --principal <p> --signing-key-file <path> [--path <dir>]'',
     ''                 [--remote <name>] [--socket-path <path>] [--debounce-ms <n>]'',
     [],
     ''Watch-triggered sync daemon: debounced auto-commit of local changes,'',
     ''incremental re-index, opportunistic sync. Binds a Unix domain socket'',
     ''only, peer-UID verified on every connection -- Linux only.'']"

definition HELP_HOOKS :: string where
  "HELP_HOOKS = join [nl]
    [''Usage: wkp hooks --framework <name>'',
     [],
     ''Prints text for a harness to apply -- never writes a file itself.'',
     ''Frameworks: claude_code, codex, opencode, hermes, agents_md. For'',
     ''claude_code, prints SessionStart, UserPromptSubmit, and PostToolUse'',
     ''hooks together -- see `wkp prompt-hook --help` for the second one.'']"

end
