(* ===== verification/Hybrid.thy ===== *)
theory Hybrid
  imports IndexSearch
begin

text \<open>
  Hybrid search (crates/wkp-core/src/index/hybrid.rs, and the vector functions of embed.rs): the ranking of the
  full-text search fused with the ranking by similarity of embeddings. Floating-point arithmetic, and the
  order in which a hash map is walked, are parameters; scores that are not numbers are not modelled.
\<close>

section \<open>Vectors\<close>

record vector_ops =
  vo_zero :: f32
  vo_sum :: "f32 list \<Rightarrow> f32"
  vo_mul :: "f32 \<Rightarrow> f32 \<Rightarrow> f32"
  vo_div :: "f32 \<Rightarrow> f32 \<Rightarrow> f32"
  vo_sqrt :: "f32 \<Rightarrow> f32"
  vo_is_zero :: "f32 \<Rightarrow> bool"
  vo_value :: "f32 \<Rightarrow> rat"
  vo_add :: "rat \<Rightarrow> rat \<Rightarrow> rat"
  vo_recip :: "nat \<Rightarrow> rat"
  vo_order :: "(string \<times> rat) list \<Rightarrow> (string \<times> rat) list"

definition cosine_similarity :: "vector_ops \<Rightarrow> f32 list \<Rightarrow> f32 list \<Rightarrow> f32" where
  "cosine_similarity vo a b =
     (if a = [] \<or> length a \<noteq> length b then vo_zero vo
      else (let dot = vo_sum vo (map (\<lambda>(x, y). vo_mul vo x y) (zip a b));
                norm_a = vo_sqrt vo (vo_sum vo (map (\<lambda>x. vo_mul vo x x) a));
                norm_b = vo_sqrt vo (vo_sum vo (map (\<lambda>x. vo_mul vo x x) b))
            in if vo_is_zero vo norm_a \<or> vo_is_zero vo norm_b then vo_zero vo
               else vo_div vo dot (vo_mul vo norm_a norm_b)))"

text \<open>The scores by path: an entry is made at 0 and the reciprocal of the shifted rank is added.\<close>

fun add_score :: "vector_ops \<Rightarrow> string \<Rightarrow> rat \<Rightarrow> (string \<times> rat) list \<Rightarrow> (string \<times> rat) list" where
  "add_score vo path x [] = [(path, vo_add vo 0 x)]"
| "add_score vo path x ((p, s) # scores) =
     (if p = path then (p, vo_add vo s x) # scores else (p, s) # add_score vo path x scores)"

definition rank_list :: "vector_ops \<Rightarrow> string list \<Rightarrow> (string \<times> rat) list \<Rightarrow> (string \<times> rat) list" where
  "rank_list vo ps scores = fold (\<lambda>(i, path). add_score vo path (vo_recip vo (60 + (i + 1)))) (List.enumerate 0 ps) scores"

definition reciprocal_rank_fusion :: "vector_ops \<Rightarrow> string list list \<Rightarrow> (string \<times> rat) list" where
  "reciprocal_rank_fusion vo ranked_lists = sort_key (\<lambda>(_, s). - s) (vo_order vo (fold (rank_list vo) ranked_lists []))"

section \<open>Search\<close>

definition set_embedding :: "string \<Rightarrow> f32 list \<Rightarrow> index_db \<Rightarrow> index_db" where
  "set_embedding path embedding db =
     db\<lparr>db_items := map (\<lambda>(i, r). (i, if ir_path r = path
          then r\<lparr>ir_embedding := Some (serialize_embedding embedding), ir_embedding_dim := Some (length embedding)\<rparr>
          else r)) (db_items db)\<rparr>"

definition known_embedding_dims :: "index_db \<Rightarrow> u32 list" where
  "known_embedding_dims db = map word_of_nat (sort (remdups (List.map_filter ir_embedding_dim (map snd (db_items db)))))"

datatype hybrid_error = No_matching_dimension nat "u32 list"

definition dims_str :: "u32 list \<Rightarrow> string" where
  "dims_str dims = ''['' @ join '', '' (map (\<lambda>d. show_nat (unat d)) dims) @ '']''"

definition hybrid_error_str :: "hybrid_error \<Rightarrow> string" where
  "hybrid_error_str e =
     (case e of No_matching_dimension query_dim stored_dims \<Rightarrow>
        if stored_dims = []
        then ''no items have been embedded yet (query embedding is '' @ show_nat query_dim @ ''-dimensional); ''
          @ ''run `wkp index --embed-url ...` first, or omit --embed-url to use BM25''
        else ''embedding dimension mismatch: the query embedding is '' @ show_nat query_dim @ ''-dimensional, ''
          @ ''but the index has embeddings at dimension '' @ dims_str stored_dims @ '' -- re-index with the ''
          @ ''same embedding model, or omit --embed-url to use BM25'')"

definition scored_rows :: "vector_ops \<Rightarrow> index_db \<Rightarrow> f32 list \<Rightarrow> search_filter \<Rightarrow> (string \<times> f32) list" where
  "scored_rows vo db query_embedding f =
     List.map_filter (\<lambda>r. if ir_embedding_dim r = Some (length query_embedding) \<and> passes f r
         then map_option (\<lambda>bytes. (ir_path r, cosine_similarity vo (deserialize_embedding bytes) query_embedding)) (ir_embedding r)
         else None) (map snd (db_items db))"

definition fused_hit :: "index_db \<Rightarrow> search_hit list \<Rightarrow> string \<times> rat \<Rightarrow> search_hit option" where
  "fused_hit db bm25_hits fused =
     (case fused of (path, score) \<Rightarrow>
      case map_of (rev (map (\<lambda>h. (sh_path h, h)) bm25_hits)) path of
        Some hit \<Rightarrow> Some (hit\<lparr>sh_score := score\<rparr>)
      | None \<Rightarrow> map_option (\<lambda>(title, tier, tokens).
          \<lparr>sh_path = path, sh_title = title, sh_score = score, sh_tier = tier, sh_tokens = tokens, sh_hop_distance = 0\<rparr>)
          (fetch_item_metadata db path))"

definition hybrid_search ::
  "vector_ops \<Rightarrow> fts_engine \<Rightarrow> index_db \<Rightarrow> string \<Rightarrow> f32 list \<Rightarrow> search_filter \<Rightarrow> (hybrid_error, search_hit list) result" where
  "hybrid_search vo fts db query query_embedding f =
     (let bm25_hits = search fts db query (f\<lparr>sf_limit := Some 40, sf_budget := None\<rparr>);
          scored = scored_rows vo db query_embedding f
      in if scored = [] then Inl (No_matching_dimension (length query_embedding) (known_embedding_dims db))
         else (let vec_ranked = map fst (take 40 (sort_key (\<lambda>(_, s). - vo_value vo s) scored));
                   fused = reciprocal_rank_fusion vo [map sh_path bm25_hits, vec_ranked];
                   hits = sort_key (\<lambda>h. - sh_score h) (List.map_filter (fused_hit db bm25_hits) fused)
               in Inr (apply_budget (case sf_limit f of Some limit \<Rightarrow> take limit hits | None \<Rightarrow> hits) (sf_budget f))))"

section \<open>What a hybrid search may return\<close>

text \<open>A hit speaks of a row.\<close>

definition hit_of_row :: "search_hit \<Rightarrow> item_row \<Rightarrow> bool" where
  "hit_of_row h r \<longleftrightarrow> sh_path h = ir_path r \<and> sh_title h = ir_title r \<and> sh_tier h = ir_tier r
     \<and> sh_tokens h = ir_tokens_estimate r \<and> sh_hop_distance h = 0"

definition row_in_scope :: "index_db \<Rightarrow> search_filter \<Rightarrow> item_row \<Rightarrow> bool" where
  "row_in_scope db f r \<longleftrightarrow> r \<in> snd ` set (db_items db) \<and> passes f r"

lemma search_hit_row:
  assumes "h \<in> set (search fts db query f)"
  shows "\<exists>r. row_in_scope db f r \<and> hit_of_row h r"
proof -
  let ?q = "sanitize_fts_query query"
  let ?rows = "filter (\<lambda>r. fe_match fts ?q r \<and> passes f r) (map snd (db_items db))"
  have "h \<in> set (apply_budget (map (bm25_hit fts ?q) (sql_limit (sf_limit f) (sort_key (\<lambda>r. - fe_score fts ?q r) ?rows))) (sf_budget f))"
    using assms by (simp add: search_def run_bm25_query_def Let_def split: if_splits)
  then have "h \<in> set (map (bm25_hit fts ?q) (sql_limit (sf_limit f) (sort_key (\<lambda>r. - fe_score fts ?q r) ?rows)))"
    using apply_budget_prefix [of _ "sf_budget f"] by (metis in_set_takeD)
  then obtain r where "r \<in> set (sql_limit (sf_limit f) (sort_key (\<lambda>r. - fe_score fts ?q r) ?rows))" "h = bm25_hit fts ?q r" by auto
  then have "r \<in> set ?rows" "hit_of_row h r"
    by (auto simp: sql_limit_def hit_of_row_def bm25_hit_def dest: in_set_takeD split: option.splits)
  then show ?thesis by (auto simp: row_in_scope_def)
qed

lemma scored_row:
  assumes "x \<in> set (scored_rows vo db q f)"
  shows "\<exists>r. row_in_scope db f r \<and> ir_path r = fst x"
  using assms by (force simp: scored_rows_def List.map_filter_def row_in_scope_def split: if_splits)

lemma add_score_keys: "fst ` set (add_score vo path x scores) = insert path (fst ` set scores)"
  by (induction vo path x scores rule: add_score.induct) auto

lemma add_score_distinct: "distinct (map fst scores) \<Longrightarrow> distinct (map fst (add_score vo path x scores))"
proof (induction vo path x scores rule: add_score.induct)
  case (2 vo path x p s scores)
  then show ?case using add_score_keys [of vo path x scores] by (auto simp flip: set_map)
qed simp

lemma fold_scores:
  assumes "distinct (map fst scores)"
  shows "distinct (map fst (fold (\<lambda>(i, path). add_score vo path (vo_recip vo (60 + (i + 1)))) ips scores))
    \<and> fst ` set (fold (\<lambda>(i, path). add_score vo path (vo_recip vo (60 + (i + 1)))) ips scores) = fst ` set scores \<union> snd ` set ips"
  using assms
proof (induction ips arbitrary: scores)
  case (Cons ip ips)
  obtain i path where "ip = (i, path)" by (cases ip)
  then show ?case using Cons.IH [OF add_score_distinct [OF Cons.prems]] by (auto simp: add_score_keys)
qed simp

lemma rank_lists:
  "distinct (map fst scores) \<Longrightarrow>
     distinct (map fst (fold (rank_list vo) ranks scores)) \<and> fst ` set (fold (rank_list vo) ranks scores) = fst ` set scores \<union> \<Union> (set ` set ranks)"
proof (induction ranks arbitrary: scores)
  case (Cons ps ranks)
  have ranked: "distinct (map fst (rank_list vo ps scores))" "fst ` set (rank_list vo ps scores) = fst ` set scores \<union> set ps"
    using fold_scores [OF Cons.prems, of vo "List.enumerate 0 ps"] by (simp_all add: rank_list_def flip: set_map)
  show ?case using Cons.IH [OF ranked(1)] ranked(2) by auto
qed simp

definition walks_map :: "vector_ops \<Rightarrow> bool" where
  "walks_map vo \<longleftrightarrow> (\<forall>m. mset (vo_order vo m) = mset m)"

lemma fusion_paths:
  assumes "walks_map vo"
  shows "distinct (map fst (reciprocal_rank_fusion vo ranks))" "fst ` set (reciprocal_rank_fusion vo ranks) = \<Union> (set ` set ranks)"
proof -
  let ?m = "fold (rank_list vo) ranks []"
  have m: "mset (reciprocal_rank_fusion vo ranks) = mset ?m"
    using assms by (simp add: reciprocal_rank_fusion_def walks_map_def)
  then have "set (reciprocal_rank_fusion vo ranks) = set ?m" by (rule mset_eq_setD)
  moreover have "mset (map fst (reciprocal_rank_fusion vo ranks)) = mset (map fst ?m)" using m by simp
  then have "distinct (map fst (reciprocal_rank_fusion vo ranks)) = distinct (map fst ?m)" by (rule mset_eq_imp_distinct_iff)
  ultimately show "distinct (map fst (reciprocal_rank_fusion vo ranks))"
      "fst ` set (reciprocal_rank_fusion vo ranks) = \<Union> (set ` set ranks)"
    using rank_lists [of "[]" vo ranks] by simp_all
qed

lemma fused_hit_cases:
  assumes "fused_hit db bm25_hits (path, score) = Some h"
  shows "sh_path h = path
    \<and> (if path \<in> sh_path ` set bm25_hits then \<exists>b. b \<in> set bm25_hits \<and> sh_path b = path \<and> h = b\<lparr>sh_score := score\<rparr>
       else \<exists>r. r \<in> snd ` set (db_items db) \<and> ir_path r = path \<and> hit_of_row h r)"
proof (cases "map_of (rev (map (\<lambda>h. (sh_path h, h)) bm25_hits)) path")
  case None
  then have "path \<notin> sh_path ` set bm25_hits" by (force simp: map_of_eq_None_iff)
  moreover obtain i r where "List.find (\<lambda>(_, r). ir_path r = path) (db_items db) = Some (i, r)"
    "h = \<lparr>sh_path = path, sh_title = ir_title r, sh_score = score, sh_tier = ir_tier r, sh_tokens = ir_tokens_estimate r, sh_hop_distance = 0\<rparr>"
    using assms None by (auto simp: fused_hit_def fetch_item_metadata_def)
  moreover have "(i, r) \<in> set (db_items db)" "ir_path r = path" using find_holds [OF calculation(2)] by auto
  ultimately show ?thesis by (force simp: hit_of_row_def)
next
  case (Some b)
  then have "(path, b) \<in> set (rev (map (\<lambda>h. (sh_path h, h)) bm25_hits))" by (rule map_of_SomeD)
  then show ?thesis using assms Some by (auto simp: fused_hit_def)
qed

lemma fused_hit_row:
  assumes "index_inv db" "fused_hit db (search fts db query (f\<lparr>sf_limit := l, sf_budget := b\<rparr>)) (path, score) = Some h"
    and "path \<in> sh_path ` set (search fts db query (f\<lparr>sf_limit := l, sf_budget := b\<rparr>)) \<union> fst ` set (scored_rows vo db q f)"
  shows "\<exists>r. row_in_scope db f r \<and> hit_of_row h r"
proof (cases "path \<in> sh_path ` set (search fts db query (f\<lparr>sf_limit := l, sf_budget := b\<rparr>))")
  case True
  then obtain h0 where "h0 \<in> set (search fts db query (f\<lparr>sf_limit := l, sf_budget := b\<rparr>))" "h = h0\<lparr>sh_score := score\<rparr>"
    using fused_hit_cases [OF assms(2)] by (simp only: if_True) metis
  then show ?thesis using search_hit_row [of h0 fts db query] by (force simp: row_in_scope_def hit_of_row_def passes_def)
next
  case False
  then obtain r0 where r0: "r0 \<in> snd ` set (db_items db)" "ir_path r0 = path" "hit_of_row h r0"
    using fused_hit_cases [OF assms(2)] by (simp only: if_False) metis
  have "path \<in> fst ` set (scored_rows vo db q f)" using assms(3) False by blast
  then obtain r where r: "row_in_scope db f r" "ir_path r = path" using scored_row [of _ vo db q f] by fastforce
  then have "r = r0" using item_view_Some [OF assms(1), of path] r0 unfolding row_in_scope_def by (metis option.inject)
  then show ?thesis using r(1) r0(3) by blast
qed

text \<open>
  Semantic search does not widen the scope. Every hit of a hybrid search is about one row of the index
  that satisfies the whole filter (tier, kind, workspace, visibility, scope), with its title, tier and token
  estimate, and no path is returned twice, whatever the embeddings say and in whatever order the fused scores come.
\<close>

lemma hybrid_hits_in_scope:
  assumes "index_inv db" "walks_map vo" "hybrid_search vo fts db query q f = Inr hits"
  shows "distinct (map sh_path hits)
    \<and> (\<forall>h \<in> set hits. \<exists>r. item_view db (sh_path h) = Some r \<and> passes f r \<and> hit_of_row h r)"
proof -
  let ?bm25 = "search fts db query (f\<lparr>sf_limit := Some 40, sf_budget := None\<rparr>)"
  let ?vec = "map fst (take 40 (sort_key (\<lambda>(_, s). - vo_value vo s) (scored_rows vo db q f)))"
  let ?fused = "reciprocal_rank_fusion vo [map sh_path ?bm25, ?vec]"
  let ?all = "List.map_filter (fused_hit db ?bm25) ?fused"
  obtain n where hits: "hits = take n (sort_key (\<lambda>h. - sh_score h) ?all)"
  proof -
    let ?sorted = "sort_key (\<lambda>h. - sh_score h) ?all"
    have "hits = apply_budget (case sf_limit f of Some limit \<Rightarrow> take limit ?sorted | None \<Rightarrow> ?sorted) (sf_budget f)"
      using assms(3) by (simp add: hybrid_search_def Let_def split: if_splits)
    moreover have "\<exists>n. apply_budget (case sf_limit f of Some limit \<Rightarrow> take limit ?sorted | None \<Rightarrow> ?sorted) (sf_budget f) = take n ?sorted"
      using apply_budget_prefix by (cases "sf_limit f") (auto, metis take_take)
    ultimately show ?thesis using that by auto
  qed
  have paths: "map sh_path ?all = map fst (filter (\<lambda>x. fused_hit db ?bm25 x \<noteq> None) ?fused)"
    using fused_hit_cases [of db ?bm25] by (induction ?fused) (auto simp: List.map_filter_def)
  have "distinct (map sh_path ?all)"
    unfolding paths using fusion_paths(1) [OF assms(2)] by (rule distinct_filter_fst)
  then have "distinct (map sh_path hits)" unfolding hits by (simp add: distinct_map_sort_key flip: take_map)
  moreover have "\<exists>r. item_view db (sh_path h) = Some r \<and> passes f r \<and> hit_of_row h r" if "h \<in> set hits" for h
  proof -
    have "h \<in> set ?all" using that unfolding hits by (auto dest: in_set_takeD)
    then obtain path score where x: "(path, score) \<in> set ?fused" "fused_hit db ?bm25 (path, score) = Some h"
      by (auto simp: List.map_filter_def)
    have "path \<in> fst ` set ?fused" using x(1) by force
    then have "path \<in> sh_path ` set ?bm25 \<union> fst ` set (scored_rows vo db q f)"
      unfolding fusion_paths(2) [OF assms(2)] by (auto dest!: in_set_takeD)
    from fused_hit_row [OF assms(1) x(2) this]
    obtain r where "row_in_scope db f r" "hit_of_row h r" by blast
    then show ?thesis using iffD2 [OF item_view_Some [OF assms(1), of "sh_path h" r]]
      by (intro exI [of _ r]) (simp add: row_in_scope_def hit_of_row_def)
  qed
  ultimately show ?thesis by blast
qed

section \<open>An index with embeddings\<close>

text \<open>Integers stand for the floats: a score is the dot product.\<close>

definition int_vectors :: vector_ops where
  "int_vectors = \<lparr>vo_zero = 0, vo_sum = (\<lambda>xs. foldr (+) xs 0), vo_mul = (*), vo_div = (\<lambda>x _. x), vo_sqrt = (\<lambda>_. 1),
     vo_is_zero = (\<lambda>x. x = 0), vo_value = (\<lambda>x. of_int (uint x)), vo_add = (+), vo_recip = (\<lambda>n. 1 / of_nat n), vo_order = rev\<rparr>"

definition embedded_item :: "string \<Rightarrow> visibility \<Rightarrow> f32 list \<Rightarrow> item" where
  "embedded_item path v vector =
     (plain_item path path)\<lparr>it_frontmatter := default_frontmatter\<lparr>fm_visibility := Some v\<rparr>, it_embedding := Some vector\<rparr>"

definition embedded_db :: index_db where
  "embedded_db = built (build_in_memory ''2026-07-26''
     [embedded_item ''a.md'' Shared [1, 2], embedded_item ''b.md'' Private [3, 4], embedded_item ''c.md'' Shared [0, 9]])"

definition hits_of :: "(hybrid_error, search_hit list) result \<Rightarrow> search_hit list" where
  "hits_of r = (case r of Inr hits \<Rightarrow> hits | Inl e \<Rightarrow> [])"

lemma hybrid_hits_in_scope_witness:
  "map sh_path (hits_of (hybrid_search int_vectors any_match embedded_db ''c'' [1, 1] shared_only)) = [''c.md'', ''a.md'']
   \<and> list_all (\<lambda>h. \<exists>r. item_view embedded_db (sh_path h) = Some r \<and> passes shared_only r \<and> hit_of_row h r)
        (hits_of (hybrid_search int_vectors any_match embedded_db ''c'' [1, 1] shared_only))"
proof -
  have inv: "index_inv embedded_db" by code_simp
  have walk: "walks_map int_vectors" by (simp add: walks_map_def int_vectors_def)
  have paths: "map sh_path (hits_of (hybrid_search int_vectors any_match embedded_db ''c'' [1, 1] shared_only)) = [''c.md'', ''a.md'']"
    by code_simp
  then have "hybrid_search int_vectors any_match embedded_db ''c'' [1, 1] shared_only
      = Inr (hits_of (hybrid_search int_vectors any_match embedded_db ''c'' [1, 1] shared_only))"
    by (simp add: hits_of_def split: sum.splits)
  from hybrid_hits_in_scope [OF inv walk this] paths show ?thesis by (simp add: list_all_iff)
qed

end
