(* ===== verification/CliRead.thy ===== *)
theory CliRead
  imports CliIndex Hybrid
begin

text \<open>
  The commands that read the index (crates/wkp-cli/src: search.rs, context.rs, materialize.rs): their arguments,
  the search with its fallback, the three output formats, and the file of a tier. The text of a
  floating-point number is a parameter; warnings on standard error are not modelled.
\<close>

section \<open>Arguments\<close>

text \<open>
  A flag has the name its error message uses, and a setter that may refuse the value. What is no flag with a
  value is left to \<open>other\<close>.
\<close>

fun value_loop ::
  "(string \<Rightarrow> (string \<times> (string \<Rightarrow> 'o \<Rightarrow> (string, 'o) result)) option) \<Rightarrow> (string \<Rightarrow> 'o \<Rightarrow> (string, 'o) result)
    \<Rightarrow> string list \<Rightarrow> 'o \<Rightarrow> (string, 'o) result" where
  "value_loop flag other [] a = Inr a"
| "value_loop flag other (arg # args) a =
     (case flag arg of
        Some (name, set_opt) \<Rightarrow>
          (case args of
             [] \<Rightarrow> Inl (name @ '' requires a value'')
           | v # rest \<Rightarrow> bind_result (set_opt v a) (value_loop flag other rest))
      | None \<Rightarrow> bind_result (other arg a) (value_loop flag other args))"

datatype search_format = FormatText | FormatPaths | FormatJson

definition parse_format :: "string \<Rightarrow> (string, search_format) result" where
  "parse_format v =
     (if v = ''text'' then Inr FormatText
      else if v = ''paths'' then Inr FormatPaths
      else if v = ''json'' then Inr FormatJson
      else Inl (''invalid --format value: '' @ v @ '' (expected text|paths|json)''))"

definition parsed :: "string \<Rightarrow> (string \<Rightarrow> 'a option) \<Rightarrow> string \<Rightarrow> (string, 'a) result" where
  "parsed name reader v = (case reader v of Some x \<Rightarrow> Inr x | None \<Rightarrow> Inl (''invalid '' @ name @ '' value: '' @ v))"

definition parse_u8 :: "string \<Rightarrow> nat option" where
  "parse_u8 v = map_option nat (parse_unsigned (2 ^ 8) v)"

definition parse_usize :: "string \<Rightarrow> nat option" where
  "parse_usize v = map_option nat (parse_unsigned (2 ^ 64) v)"

record search_options =
  sr_path :: string
  sr_query :: "string option"
  sr_tier :: "nat option"
  sr_budget :: "u32 option"
  sr_limit :: "nat option"
  sr_format :: search_format
  sr_embed_url :: "string option"
  sr_embed_model :: "string option"
  sr_embed_key_file :: "string option"

definition search_flag :: "string \<Rightarrow> (string \<times> (string \<Rightarrow> search_options \<Rightarrow> (string, search_options) result)) option" where
  "search_flag arg =
     (if arg = ''--embed-url'' then Some (arg, \<lambda>v a. Inr (a\<lparr>sr_embed_url := Some v\<rparr>))
      else if arg = ''--embed-model'' then Some (arg, \<lambda>v a. Inr (a\<lparr>sr_embed_model := Some v\<rparr>))
      else if arg = ''--embed-key-file'' then Some (arg, \<lambda>v a. Inr (a\<lparr>sr_embed_key_file := Some v\<rparr>))
      else if arg = ''--tier'' then Some (arg, \<lambda>v a. bind_result (parsed arg parse_u8 v) (\<lambda>t. Inr (a\<lparr>sr_tier := Some t\<rparr>)))
      else if arg = ''--budget'' then Some (arg, \<lambda>v a. bind_result (parsed arg parse_u32 v) (\<lambda>b. Inr (a\<lparr>sr_budget := Some b\<rparr>)))
      else if arg = ''-k'' \<or> arg = ''--limit'' then
        Some (''--limit'', \<lambda>v a. bind_result (parsed ''--limit'' parse_usize v) (\<lambda>n. Inr (a\<lparr>sr_limit := Some n\<rparr>)))
      else if arg = ''--format'' then Some (arg, \<lambda>v a. bind_result (parse_format v) (\<lambda>fmt. Inr (a\<lparr>sr_format := fmt\<rparr>)))
      else if arg = ''--path'' then Some (arg, \<lambda>v a. Inr (a\<lparr>sr_path := v\<rparr>))
      else None)"

definition search_other :: "string \<Rightarrow> search_options \<Rightarrow> (string, search_options) result" where
  "search_other arg a =
     (if sr_query a = None \<and> \<not> starts_with arg ''-'' then Inr (a\<lparr>sr_query := Some arg\<rparr>) else unrecognized arg a)"

text \<open>A parsed request has its query.\<close>

definition parse_search_args :: "(string, string) result \<Rightarrow> string list \<Rightarrow> (string, string \<times> search_options) result" where
  "parse_search_args cwd args =
     bind_result cwd (\<lambda>path.
     bind_result (value_loop search_flag search_other args
       \<lparr>sr_path = path, sr_query = None, sr_tier = None, sr_budget = None, sr_limit = None, sr_format = FormatText,
        sr_embed_url = None, sr_embed_model = None, sr_embed_key_file = None\<rparr>) (\<lambda>a.
     bind_result (required (''search requires a query, e.g. `wkp search '' @ [dquote] @ ''topic'' @ [dquote] @ ''`'') (sr_query a)) (\<lambda>query.
     Inr (query, a))))"

record traverse_options =
  tv_path :: string
  tv_start_path :: "string option"
  tv_depth :: nat
  tv_format :: search_format

definition traverse_flag :: "string \<Rightarrow> (string \<times> (string \<Rightarrow> traverse_options \<Rightarrow> (string, traverse_options) result)) option" where
  "traverse_flag arg =
     (if arg = ''--depth'' then Some (arg, \<lambda>v a. bind_result (parsed arg parse_u32 v) (\<lambda>d. Inr (a\<lparr>tv_depth := unat d\<rparr>)))
      else if arg = ''--format'' then Some (arg, \<lambda>v a. bind_result (parse_format v) (\<lambda>fmt. Inr (a\<lparr>tv_format := fmt\<rparr>)))
      else if arg = ''--path'' then Some (arg, \<lambda>v a. Inr (a\<lparr>tv_path := v\<rparr>))
      else None)"

definition traverse_other :: "string \<Rightarrow> traverse_options \<Rightarrow> (string, traverse_options) result" where
  "traverse_other arg a =
     (if tv_start_path a = None \<and> \<not> starts_with arg ''-'' then Inr (a\<lparr>tv_start_path := Some arg\<rparr>) else unrecognized arg a)"

definition parse_traverse_args :: "(string, string) result \<Rightarrow> string list \<Rightarrow> (string, string \<times> traverse_options) result" where
  "parse_traverse_args cwd args =
     bind_result cwd (\<lambda>path.
     bind_result (value_loop traverse_flag traverse_other args
       \<lparr>tv_path = path, tv_start_path = None, tv_depth = 2, tv_format = FormatText\<rparr>) (\<lambda>a.
     bind_result (required ''traverse requires a starting path, e.g. `wkp traverse memory/foo.md`'' (tv_start_path a)) (\<lambda>start.
     Inr (start, a))))"

record materialize_options =
  mo_path :: string
  mo_tier :: "nat option"
  mo_routing_table :: bool

definition materialize_flag :: "string \<Rightarrow> (string \<times> (string \<Rightarrow> materialize_options \<Rightarrow> (string, materialize_options) result)) option" where
  "materialize_flag arg =
     (if arg = ''--tier'' then Some (arg, \<lambda>v a. bind_result (parsed arg parse_u8 v) (\<lambda>t. Inr (a\<lparr>mo_tier := Some t\<rparr>)))
      else if arg = ''--path'' then Some (arg, \<lambda>v a. Inr (a\<lparr>mo_path := v\<rparr>))
      else None)"

definition materialize_other :: "string \<Rightarrow> materialize_options \<Rightarrow> (string, materialize_options) result" where
  "materialize_other arg a =
     (if arg = ''--routing-table'' then Inr (a\<lparr>mo_routing_table := True\<rparr>) else unrecognized arg a)"

definition parse_materialize_args :: "(string, string) result \<Rightarrow> string list \<Rightarrow> (string, nat \<times> materialize_options) result" where
  "parse_materialize_args cwd args =
     bind_result cwd (\<lambda>path.
     bind_result (value_loop materialize_flag materialize_other args
       \<lparr>mo_path = path, mo_tier = None, mo_routing_table = False\<rparr>) (\<lambda>a.
     bind_result (required ''materialize requires --tier N, e.g. `wkp materialize --tier 0`'' (mo_tier a)) (\<lambda>tier.
     if mo_routing_table a \<and> tier \<noteq> 0
     then Inl (''--routing-table only applies to --tier 0 (it splices a routing block into tier ''
            @ ''0'' @ [squote] @ ''s own output; there is nothing for it to splice into at any other tier)'')
     else Inr (tier, a))))"

section \<open>Output\<close>

text \<open>How a score is printed, with three decimals and in full; the vectors and the full-text engine.\<close>

record read_env =
  re_index :: index_env
  re_fts :: fts_engine
  re_vectors :: vector_ops
  re_show3 :: "rat \<Rightarrow> string"
  re_show :: "rat \<Rightarrow> string"

definition hit_text :: "read_env \<Rightarrow> search_hit \<Rightarrow> string" where
  "hit_text env h =
     (let hop = (if sh_hop_distance h > 0 then '' +'' @ show_nat (sh_hop_distance h) else [])
      in ''[T'' @ show_nat (sh_tier h) @ hop @ ''] '' @ sh_title h @ ''  (score='' @ re_show3 env (sh_score h) @ '', ~''
         @ show_nat (unat (sh_tokens h)) @ ''t)'' @ [nl] @ ''     '' @ sh_path h)"

definition format_text :: "read_env \<Rightarrow> search_hit list \<Rightarrow> string" where
  "format_text env hits = (if hits = [] then ''(no results)'' else join [nl] (map (hit_text env) hits))"

definition format_paths :: "search_hit list \<Rightarrow> string" where
  "format_paths hits = join [nl] (map sh_path hits)"

text \<open>The command line has its own copy of the escaping of \<open>embed.rs\<close>, the same text.\<close>

definition search_json_string :: "string \<Rightarrow> string" where
  "search_json_string s = [dquote] @ concat (map json_char (chars s)) @ [dquote]"

definition json_key :: "string \<Rightarrow> string" where
  "json_key k = [dquote] @ k @ [dquote] @ '':''"

definition hit_json :: "read_env \<Rightarrow> search_hit \<Rightarrow> string" where
  "hit_json env h =
     ''{'' @ json_key ''path'' @ search_json_string (sh_path h) @ '','' @ json_key ''title'' @ search_json_string (sh_title h)
     @ '','' @ json_key ''score'' @ re_show env (sh_score h) @ '','' @ json_key ''tier'' @ show_nat (sh_tier h)
     @ '','' @ json_key ''tokens'' @ show_nat (unat (sh_tokens h))
     @ '','' @ json_key ''hop_distance'' @ show_nat (sh_hop_distance h) @ ''}''"

definition format_json :: "read_env \<Rightarrow> search_hit list \<Rightarrow> string" where
  "format_json env hits = ''['' @ join '','' (map (hit_json env) hits) @ '']''"

definition format_hits :: "read_env \<Rightarrow> search_format \<Rightarrow> search_hit list \<Rightarrow> string" where
  "format_hits env fmt hits =
     (case fmt of FormatText \<Rightarrow> format_text env hits | FormatPaths \<Rightarrow> format_paths hits | FormatJson \<Rightarrow> format_json env hits)"

section \<open>The commands\<close>

definition any_filter :: search_filter where
  "any_filter = \<lparr>sf_item_type = None, sf_workspace = None, sf_visibility = None, sf_scope = None, sf_tier = None,
     sf_budget = None, sf_limit = None\<rparr>"

text \<open>A query without a word is answered before the tables are looked at.\<close>

definition search_file :: "fts_engine \<Rightarrow> index_file \<Rightarrow> string \<Rightarrow> search_filter \<Rightarrow> (index_cmd_error, search_hit list) result" where
  "search_file fts file topic f =
     (if sanitize_fts_query topic = [] then Inr []
      else bind_result (tables_of file) (\<lambda>db. Inr (search fts db topic f)))"

definition run_hybrid_or_fallback ::
  "read_env \<Rightarrow> index_file \<Rightarrow> string \<Rightarrow> string \<Rightarrow> string option \<Rightarrow> string option \<Rightarrow> search_filter \<Rightarrow> 'g world
    \<Rightarrow> (index_cmd_error, search_hit list) result" where
  "run_hybrid_or_fallback env file topic embed_url embed_model embed_key_file f w =
     (if \<not> ie_embed_feature (re_index env)
      then Inl (Message (''this binary was built without hybrid search support (rebuild with `--features embed`); ''
             @ ''omit --embed-url to use BM25 keyword search''))
      else (case fst (build_embed_config (re_index env) embed_url embed_model embed_key_file w) of
          Inl e \<Rightarrow> Inl (Message e)
        | Inr config \<Rightarrow>
            (case ie_embed_remote (re_index env) topic config of
               Inl _ \<Rightarrow> search_file (re_fts env) file topic f
             | Inr query_vector \<Rightarrow>
                 (case tables_of file of
                    Inl _ \<Rightarrow> search_file (re_fts env) file topic f
                  | Inr db \<Rightarrow>
                      (case hybrid_search (re_vectors env) (re_fts env) db topic query_vector f of
                         Inr hits \<Rightarrow> Inr hits
                       | Inl _ \<Rightarrow> search_file (re_fts env) file topic f)))))"

text \<open>A command that reads: opening may leave an empty index file behind.\<close>

definition with_index ::
  "string \<Rightarrow> (index_file \<Rightarrow> (index_cmd_error, 'a) result) \<Rightarrow> 'g world \<times> index_file \<Rightarrow> (index_cmd_error, 'a) result \<times> index_file" where
  "with_index path f s =
     (case open_index path (fst s) (snd s) of (Inl e, file) \<Rightarrow> (Inl e, file) | (Inr _, file) \<Rightarrow> (f file, file))"

definition run_search :: "read_env \<Rightarrow> string \<times> search_options \<Rightarrow> 'g world \<times> index_file \<Rightarrow> (index_cmd_error, string) result \<times> index_file" where
  "run_search env req s =
     (case req of (topic, opts) \<Rightarrow>
      let f = any_filter\<lparr>sf_tier := sr_tier opts, sf_budget := sr_budget opts, sf_limit := sr_limit opts\<rparr> in
      with_index (sr_path opts) (\<lambda>file.
        bind_result (case sr_embed_url opts of
            Some url \<Rightarrow> run_hybrid_or_fallback env file topic url (sr_embed_model opts) (sr_embed_key_file opts) f (fst s)
          | None \<Rightarrow> search_file (re_fts env) file topic f)
        (\<lambda>hits. Inr (format_hits env (sr_format opts) hits))) s)"

definition run_context :: "read_env \<Rightarrow> string \<times> search_options \<Rightarrow> 'g world \<times> index_file \<Rightarrow> (index_cmd_error, string) result \<times> index_file" where
  "run_context env req s =
     (case req of (topic, opts) \<Rightarrow>
      if sr_embed_url opts \<noteq> None
      then (Inl (Message ''--embed-url is not supported by `wkp context` yet (only `wkp search`)''), snd s)
      else with_index (sr_path opts) (\<lambda>file.
        bind_result (if sanitize_fts_query topic = [] then Inr []
                     else bind_result (tables_of file) (\<lambda>db.
                       Inr (context_assembly (re_fts env) db topic (any_filter\<lparr>sf_tier := sr_tier opts, sf_budget := sr_budget opts\<rparr>))))
        (\<lambda>hits. Inr (format_hits env (sr_format opts) hits))) s)"

definition run_traverse :: "read_env \<Rightarrow> string \<times> traverse_options \<Rightarrow> 'g world \<times> index_file \<Rightarrow> (index_cmd_error, string) result \<times> index_file" where
  "run_traverse env req s =
     (case req of (start, opts) \<Rightarrow>
      with_index (tv_path opts) (\<lambda>file.
        bind_result (tables_of file) (\<lambda>db.
          Inr (format_hits env (tv_format opts) (traverse (re_fts env) db start (tv_depth opts))))) s)"

text \<open>The last occurrence of a text.\<close>

fun rsplit_once :: "string \<Rightarrow> string \<Rightarrow> (string \<times> string) option" where
  "rsplit_once [] p = (if p = [] then Some ([], []) else None)"
| "rsplit_once (c # cs) p =
     (case rsplit_once cs p of
        Some (a, b) \<Rightarrow> Some (c # a, b)
      | None \<Rightarrow> map_option (Pair []) (strip_prefix (c # cs) p))"

definition routing_block :: "index_db \<Rightarrow> string" where
  "routing_block db =
     (let table = routing_table db 1 in
      if table = []
      then ''<wkp-routing-table>'' @ [nl] @ ''(tier 1 is empty -- nothing to route to yet)'' @ [nl] @ ''</wkp-routing-table>'' @ [nl, nl]
      else ''<wkp-routing-table>'' @ [nl] @ table @ ''</wkp-routing-table>'' @ [nl, nl])"

definition tier_content :: "index_db \<Rightarrow> nat \<Rightarrow> bool \<Rightarrow> string" where
  "tier_content db tier routing =
     (let content = materialize db tier in
      if routing
      then (case rsplit_once content ''</wkp-context>'' of
              Some (a, b) \<Rightarrow> a @ routing_block db @ ''</wkp-context>'' @ b
            | None \<Rightarrow> content)
      else content)"

definition tier_file :: "materialize_options \<Rightarrow> nat \<Rightarrow> string" where
  "tier_file opts tier = join_path (mo_path opts) (''.wkp/tier'' @ show_nat tier @ ''.md'')"

definition run_materialize ::
  "nat \<times> materialize_options \<Rightarrow> 'g world \<times> index_file \<Rightarrow> (index_cmd_error, unit) result \<times> 'g world \<times> index_file" where
  "run_materialize req s =
     (case req of (tier, opts) \<Rightarrow>
      case with_index (mo_path opts) (\<lambda>file. bind_result (tables_of file) (\<lambda>db. Inr (tier_content db tier (mo_routing_table opts)))) s of
        (Inl e, file) \<Rightarrow> (Inl e, fst s, file)
      | (Inr content, file) \<Rightarrow>
          (case atomic_write (tier_file opts tier) content (fst s) of
             (Inl e, w) \<Rightarrow> (Inl (Message e), w, file)
           | (Inr _, w) \<Rightarrow> (Inr (), w, file)))"

section \<open>The file of a tier\<close>

lemma rsplit_once_append:
  "rsplit_once s p = Some (a, b) \<Longrightarrow> rsplit_once (x @ s) p = Some (x @ a, b)"
  by (induction x) simp_all

definition tier_body :: "index_db \<Rightarrow> nat \<Rightarrow> string" where
  "tier_body db tier =
     ''<wkp-context tier='' @ [dquote] @ show_nat tier @ [dquote] @ ''>'' @ [nl, nl]
     @ concat (map (\<lambda>r. ''## '' @ ir_title r @ [nl, nl] @ ''<!-- source: '' @ ir_path r @ '' -->''
                      @ [nl, nl] @ ir_content r @ [nl, nl]) (tier_rows db tier))"

lemma tier_content_eq:
  "tier_content db tier routing = tier_body db tier @ (if routing then routing_block db else []) @ ''</wkp-context>'' @ [nl]"
proof -
  have m: "materialize db tier = tier_body db tier @ ''</wkp-context>'' @ [nl]"
    by (simp add: materialize_def tier_body_def Let_def)
  have "rsplit_once (''</wkp-context>'' @ [nl]) ''</wkp-context>'' = Some ([], [nl])" by code_simp
  from rsplit_once_append [OF this, of "tier_body db tier"]
  have "rsplit_once (materialize db tier) ''</wkp-context>'' = Some (tier_body db tier, [nl])" by (simp only: m append_Nil2)
  then show ?thesis by (simp add: tier_content_def m)
qed


definition demo_materialize :: materialize_options where
  "demo_materialize = \<lparr>mo_path = ''s'', mo_tier = Some 0, mo_routing_table = True\<rparr>"


end
