(* ===== verification/UsageCmd.thy ===== *)
theory UsageCmd
  imports CliRead Usage
begin

text \<open>
  \<open>wkp usage\<close> (crates/wkp-cli/src/usage_cmd.rs), which reads the metrics of a store back, and the recording of an
  invocation (crates/wkp-cli/src/main.rs). The database of a store's metrics is there or not; opening it fails in no other way
  here. How floating-point numbers are divided and printed is a parameter.
\<close>

section \<open>Arguments\<close>

record usage_options =
  us_path :: string
  us_window :: int
  us_tool :: "string option"
  us_json :: bool

definition parse_window :: "string \<Rightarrow> (string, int) result" where
  "parse_window s =
     (if s = ''1h'' then Inr 3600
      else if s = ''1d'' then Inr (24 * 3600)
      else if s = ''7d'' then Inr (7 * 24 * 3600)
      else if s = ''30d'' then Inr (30 * 24 * 3600)
      else Inl (''invalid --window value: '' @ s @ '' (expected 1h|1d|7d|30d)''))"

definition usage_flag :: "string \<Rightarrow> (string \<times> (string \<Rightarrow> usage_options \<Rightarrow> (string, usage_options) result)) option" where
  "usage_flag arg =
     (if arg = ''--path'' then Some (arg, \<lambda>v a. Inr (a\<lparr>us_path := v\<rparr>))
      else if arg = ''--window'' then Some (arg, \<lambda>v a. bind_result (parse_window v) (\<lambda>w. Inr (a\<lparr>us_window := w\<rparr>)))
      else if arg = ''--tool'' then Some (arg, \<lambda>v a. Inr (a\<lparr>us_tool := Some v\<rparr>))
      else None)"

definition usage_other :: "string \<Rightarrow> usage_options \<Rightarrow> (string, usage_options) result" where
  "usage_other arg a = (if arg = ''--json'' then Inr (a\<lparr>us_json := True\<rparr>) else unrecognized arg a)"

definition parse_usage_args :: "(string, string) result \<Rightarrow> string list \<Rightarrow> (string, usage_options) result" where
  "parse_usage_args cwd args =
     bind_result cwd (\<lambda>path. value_loop usage_flag usage_other args
       \<lparr>us_path = path, us_window = 24 * 3600, us_tool = None, us_json = False\<rparr>)"

section \<open>The rows\<close>

record 'f usage_row =
  ur_name :: string
  ur_kind :: metric_kind
  ur_calls :: int
  ur_errors :: int
  ur_avg :: 'f
  ur_min :: 'f
  ur_max :: 'f
  ur_last :: 'f

text \<open>Division by a count, and the two ways a number is printed: with two decimals, and in full.\<close>

record 'f usage_env =
  ue_ops :: "'f float_ops"
  ue_average :: "'f \<Rightarrow> int \<Rightarrow> 'f"
  ue_show2 :: "'f \<Rightarrow> string"
  ue_show :: "'f \<Rightarrow> string"

definition error_metric_name :: "string \<Rightarrow> string" where
  "error_metric_name tool = tool @ ''.err''"

definition usage_row_of :: "'f usage_env \<Rightarrow> 'f usage_db \<Rightarrow> usage_options \<Rightarrow> int \<Rightarrow> string \<times> metric_kind \<Rightarrow> 'f usage_row option" where
  "usage_row_of ue db opts now metric =
     (case metric of (name, kind) \<Rightarrow>
      if ends_with name ''.err'' then None
      else if us_tool opts \<noteq> None \<and> us_tool opts \<noteq> Some name then None
      else (let summary = query_window (ue_ops ue) db name (us_window opts) now in
        if ms_n summary = 0 then None
        else Some \<lparr>ur_name = name, ur_kind = kind, ur_calls = ms_n summary,
          ur_errors = (if kind = Counter then ms_n (query_window (ue_ops ue) db (name @ ''.err'') (us_window opts) now) else 0),
          ur_avg = (if ms_n summary > 0 then ue_average ue (ms_sum summary) (ms_n summary) else fl_zero (ue_ops ue)),
          ur_min = ms_min summary, ur_max = ms_max summary, ur_last = ms_last summary\<rparr>))"

definition usage_rows :: "'f usage_env \<Rightarrow> 'f usage_db \<Rightarrow> usage_options \<Rightarrow> int \<Rightarrow> 'f usage_row list option" where
  "usage_rows ue db opts now = map_option (List.map_filter (usage_row_of ue db opts now)) (list_metrics db)"

section \<open>The output\<close>

definition usage_text :: "'f usage_env \<Rightarrow> 'f usage_row \<Rightarrow> string" where
  "usage_text ue r =
     (case ur_kind r of
        Counter \<Rightarrow>
          pad_right 20 (ur_name r) @ '' '' @ pad_left 6 (show_int (ur_calls r)) @ '' calls  '' @ pad_left 4 (show_int (ur_errors r))
          @ '' errors  avg '' @ pad_left 7 (ue_show2 ue (ur_avg r)) @ ''ms  min '' @ pad_left 7 (ue_show2 ue (ur_min r))
          @ ''ms  max '' @ pad_left 7 (ue_show2 ue (ur_max r)) @ ''ms''
      | Gauge \<Rightarrow>
          pad_right 20 (ur_name r) @ '' '' @ pad_left 6 (show_int (ur_calls r)) @ '' samples  last='' @ ue_show2 ue (ur_last r)
          @ ''  min='' @ ue_show2 ue (ur_min r) @ ''  max='' @ ue_show2 ue (ur_max r))"

definition format_usage_text :: "'f usage_env \<Rightarrow> 'f usage_row list \<Rightarrow> string" where
  "format_usage_text ue rows =
     (if rows = [] then ''wkp: no usage data in this window'' else join [nl] (map (usage_text ue) rows))"

definition usage_json :: "'f usage_env \<Rightarrow> 'f usage_row \<Rightarrow> string" where
  "usage_json ue r =
     ''{'' @ json_key ''name'' @ search_json_string (ur_name r) @ '','' @ json_key ''kind'' @ [dquote] @ kind_str (ur_kind r) @ [dquote]
     @ '','' @ json_key ''calls'' @ show_int (ur_calls r) @ '','' @ json_key ''errors'' @ show_int (ur_errors r)
     @ '','' @ json_key ''avg'' @ ue_show ue (ur_avg r) @ '','' @ json_key ''min'' @ ue_show ue (ur_min r)
     @ '','' @ json_key ''max'' @ ue_show ue (ur_max r) @ '','' @ json_key ''last'' @ ue_show ue (ur_last r) @ ''}''"

definition format_usage_json :: "'f usage_env \<Rightarrow> 'f usage_row list \<Rightarrow> string" where
  "format_usage_json ue rows = ''['' @ join '','' (map (usage_json ue) rows) @ '']''"

definition no_usage_data :: string where
  "no_usage_data =
     ''wkp: no usage data yet (.wkp/metrics.db doesn't exist -- nothing has been recorded here, or usage metrics haven't run against this store yet)''"

text \<open>\<open>None\<close> is the panic on a kind that is not known.\<close>

definition run_usage :: "'f usage_env \<Rightarrow> usage_options \<Rightarrow> int \<Rightarrow> 'f usage_db option \<Rightarrow> string option" where
  "run_usage ue opts now metrics =
     (case metrics of
        None \<Rightarrow> Some no_usage_data
      | Some db \<Rightarrow>
          map_option (\<lambda>rows. if us_json opts then format_usage_json ue rows else format_usage_text ue rows) (usage_rows ue db opts now))"

section \<open>Recording an invocation\<close>

text \<open>
  \<open>is_store\<close> is whether the current directory has a directory \<open>.wkp\<close>; the database is created by the first
  recording, and a recording that fails is ignored.
\<close>

definition record_invocation ::
  "'f float_ops \<Rightarrow> bool \<Rightarrow> string \<Rightarrow> 'f \<Rightarrow> int \<Rightarrow> int \<Rightarrow> 'f usage_db option \<Rightarrow> 'f usage_db option" where
  "record_invocation fl is_store tool millis exit_code now metrics =
     (if tool = [] \<or> \<not> is_store then metrics
      else (let db = (case metrics of None \<Rightarrow> create_usage_schema | Some db \<Rightarrow> db);
                db1 = snd (record_counter fl tool millis now db)
            in Some (if exit_code \<noteq> 0 then snd (record_counter fl (error_metric_name tool) millis now db1) else db1)))"

section \<open>What is shown of what was run\<close>

text \<open>Invocations in order: the tool, its time, the second, and its exit code.\<close>

type_synonym 'f invocation = "string \<times> 'f \<times> int \<times> int"

definition record_history :: "'f float_ops \<Rightarrow> 'f invocation list \<Rightarrow> 'f usage_db option \<Rightarrow> 'f usage_db option" where
  "record_history fl = fold (\<lambda>(tool, millis, secs, code). record_invocation fl True tool millis code secs)"

definition samples_of :: "'f invocation \<Rightarrow> (string \<times> 'f \<times> int) list" where
  "samples_of run =
     (case run of (tool, millis, secs, code) \<Rightarrow>
        (tool, millis, secs) # (if code \<noteq> 0 then [(error_metric_name tool, millis, secs)] else []))"

text \<open>The samples of a name: the runs of that name, and the failed runs whose error metric it is.\<close>

definition runs_counted :: "string \<Rightarrow> 'f invocation list \<Rightarrow> nat" where
  "runs_counted name invs =
     length (filter (\<lambda>(tool, millis, secs, code). tool = name) invs)
     + length (filter (\<lambda>(tool, millis, secs, code). code \<noteq> 0 \<and> tool @ ''.err'' = name) invs)"

lemma record_all_append: "record_all fl kd (xs @ ys) db = record_all fl kd ys (record_all fl kd xs db)"
  by (induction fl kd xs db rule: record_all.induct) simp_all

lemma record_one:
  "tool \<noteq> [] \<Longrightarrow> record_invocation fl True tool millis code secs metrics
    = Some (record_all fl (\<lambda>_. Counter) (samples_of (tool, millis, secs, code)) (case metrics of None \<Rightarrow> create_usage_schema | Some db \<Rightarrow> db))"
  by (simp add: record_invocation_def samples_of_def Let_def record_counter_def)

lemma record_history_all:
  assumes "list_all (\<lambda>(tool, _). tool \<noteq> []) invs"
  shows "record_history fl invs (Some db) = Some (record_all fl (\<lambda>_. Counter) (concat (map samples_of invs)) db)"
  using assms
proof (induction invs arbitrary: db)
  case (Cons run invs)
  obtain tool millis secs code where "run = (tool, millis, secs, code)" by (metis surj_pair)
  then show ?case using Cons by (simp add: record_history_def record_one record_all_append)
qed (simp add: record_history_def)

lemma samples_counted: "length (filter (\<lambda>(n, v, s). n = name) (concat (map samples_of invs))) = runs_counted name invs"
  by (induction invs) (auto simp: runs_counted_def samples_of_def error_metric_name_def split: if_splits)

lemma those_map_Some: "those (map Some xs) = Some xs"
  by (induction xs) simp_all

lemma listed_kinds: "kinds_ok kd db \<Longrightarrow>
    list_metrics db = Some (map (\<lambda>(i, name, kind). (name, kd name)) (sort_key (\<lambda>(i, name, kind). name) (ud_metrics db)))"
proof -
  assume ok: "kinds_ok kd db"
  have parse: "parse_kind (kind_str k) = Some k" for k by (cases k) (simp_all add: parse_kind_def)
  have "map (\<lambda>(i, name, kind). map_option (Pair name) (parse_kind kind)) (sort_key (\<lambda>(i, name, kind). name) (ud_metrics db))
      = map Some (map (\<lambda>(i, name, kind). (name, kd name)) (sort_key (\<lambda>(i, name, kind). name) (ud_metrics db)))"
    using ok parse by (auto simp: kinds_ok_def)
  then show ?thesis by (simp only: list_metrics_def those_map_Some)
qed

lemma nothing_recorded:
  "kinds_ok kd create_usage_schema" "in_span lo create_usage_schema m" "recorded create_usage_schema name = 0"
  by (simp_all add: kinds_ok_def in_span_def create_usage_schema_def ring_row_def nth_replicate recorded_def metric_id_def rowid_of_def)


definition int_usage_env :: "int usage_env" where
  "int_usage_env = \<lparr>ue_ops = int_ops, ue_average = (\<lambda>s n. s div n), ue_show2 = show_int, ue_show = show_int\<rparr>"

text \<open>Two searches, one of which failed, and one run of a command that does not exist.\<close>

definition three_runs :: "int invocation list" where
  "three_runs = [(''search'', 5, 100, 0), (''search'', 7, 200, 1), (''search.err'', 1, 300, 1)]"


end
