(* ===== verification/PromptHook.thy ===== *)
theory PromptHook
  imports CliRead RememberProps
begin

text \<open>
  The prompt hook (crates/wkp-cli/src: prompt_hook.rs, hooks.rs): reading one field out of the JSON object a
  harness sends, the search it leads to, and the hook text that registers it. The loops over the bytes of
  the input are partial functions: not to return is \<open>None\<close>, and a slice that is not at the boundary of a
  character is a panic. The nesting depth, an \<open>i32\<close> in the source, is an integer without bounds.
\<close>

section \<open>Reading a JSON string\<close>

datatype 'a scan = Panics | Gave_up | Got 'a

definition slice :: "string \<Rightarrow> nat \<Rightarrow> nat \<Rightarrow> string option" where
  "slice s a b =
     (if a \<le> b \<and> is_char_boundary s a \<and> is_char_boundary s b then Some (take (b - a) (drop a s)) else None)"

definition byte_at :: "string \<Rightarrow> nat \<Rightarrow> char option" where
  "byte_at s i = (if i < length s then Some (s ! i) else None)"

text \<open>\<open>u32::from_str_radix\<close> in base 16 takes a leading plus sign.\<close>

definition hex_value :: "char \<Rightarrow> nat" where
  "hex_value c =
     (let n = of_char c in if n \<le> 57 then n - 48 else if n \<le> 70 then n - 55 else n - 87)"

definition from_str_radix_16 :: "string \<Rightarrow> int option" where
  "from_str_radix_16 s =
     (let digits = (if length s > 1 \<and> hd s = CHR ''+'' then tl s else s);
          n = fold (\<lambda>c v. 16 * v + int (hex_value c)) digits 0
      in if digits = [] \<or> \<not> list_all is_ascii_hexdigit digits \<or> 2 ^ 32 \<le> n then None else Some n)"

text \<open>The UTF-8 of a code point below 65536; a surrogate is no character and is replaced.\<close>

definition push_code :: "int \<Rightarrow> string" where
  "push_code n =
     (if 0xD800 \<le> n \<and> n \<le> 0xDFFF then [CHR 0xEF, CHR 0xBF, CHR 0xBD]
      else if n < 0x80 then [char_of n]
      else if n < 0x800 then [char_of (0xC0 + n div 64), char_of (0x80 + n mod 64)]
      else [char_of (0xE0 + n div 4096), char_of (0x80 + n div 64 mod 64), char_of (0x80 + n mod 64)])"

text \<open>What an escape at \<open>i\<close> stands for, and its length.\<close>

definition escape_at :: "string \<Rightarrow> nat \<Rightarrow> (string \<times> nat) option" where
  "escape_at s i =
     Option.bind (byte_at s (i + 1)) (\<lambda>esc.
       if esc = dquote then Some ([dquote], 2)
       else if esc = backslash then Some ([backslash], 2)
       else if esc = CHR ''/'' then Some (''/'', 2)
       else if esc = CHR ''n'' then Some ([nl], 2)
       else if esc = CHR ''r'' then Some ([cr], 2)
       else if esc = CHR ''t'' then Some ([CHR 0x09], 2)
       else if esc = CHR ''b'' then Some ([CHR 0x08], 2)
       else if esc = CHR ''f'' then Some ([CHR 0x0C], 2)
       else if esc = CHR ''u'' then
         Option.bind (slice s (i + 2) (i + 6)) (\<lambda>hex.
         Option.bind (from_str_radix_16 hex) (\<lambda>code. Some (push_code code, 6)))
       else None)"

partial_function (option) read_loop :: "string \<Rightarrow> nat \<Rightarrow> nat \<Rightarrow> string \<Rightarrow> (string \<times> nat) scan option" where
  "read_loop s i run_start out =
     (if \<not> i < length s then Some Gave_up
      else if s ! i = dquote then
        Some (case slice s run_start i of None \<Rightarrow> Panics | Some run \<Rightarrow> Got (out @ run, i + 1))
      else if s ! i = backslash then
        (case slice s run_start i of
           None \<Rightarrow> Some Panics
         | Some run \<Rightarrow>
             (case escape_at s i of
                None \<Rightarrow> Some Gave_up
              | Some (c, n) \<Rightarrow> read_loop s (i + n) (i + n) (out @ run @ c)))
      else read_loop s (i + 1) run_start out)"

definition read_json_string :: "string \<Rightarrow> nat \<Rightarrow> (string \<times> nat) scan option" where
  "read_json_string s start =
     (if byte_at s start \<noteq> Some dquote then Some Gave_up else read_loop s (start + 1) (start + 1) [])"

section \<open>Finding a field\<close>

definition ascii_whitespace :: "char \<Rightarrow> bool" where
  "ascii_whitespace c \<longleftrightarrow> c \<in> {CHR 0x09, CHR 0x0A, CHR 0x0C, CHR 0x0D, CHR '' ''}"

definition skip_ws :: "string \<Rightarrow> nat \<Rightarrow> nat" where
  "skip_ws s j = j + length (takeWhile ascii_whitespace (drop j s))"

text \<open>The depth is at most the length of the input, so 32 bits hold it for anything below two gigabytes.\<close>

partial_function (option) scan_loop :: "string \<Rightarrow> string \<Rightarrow> nat \<Rightarrow> int \<Rightarrow> string option \<Rightarrow> string scan option" where
  "scan_loop s field i depth found =
     (if \<not> i < length s then
        Some (if depth \<noteq> 0 then Gave_up else (case found of None \<Rightarrow> Gave_up | Some v \<Rightarrow> Got v))
      else if s ! i = dquote then
        Option.bind (read_json_string s i) (\<lambda>r.
          case r of
            Panics \<Rightarrow> Some Panics
          | Gave_up \<Rightarrow> Some Gave_up
          | Got value_end \<Rightarrow>
              (let j = skip_ws s (snd value_end) in
               if depth = 1 \<and> byte_at s j = Some (CHR '':'') \<and> fst value_end = field then
                 (let k = skip_ws s (j + 1) in
                  if byte_at s k \<noteq> Some dquote then Some Gave_up
                  else Option.bind (read_json_string s k) (\<lambda>r.
                    case r of
                      Panics \<Rightarrow> Some Panics
                    | Gave_up \<Rightarrow> Some Gave_up
                    | Got val_end \<Rightarrow> scan_loop s field (snd val_end) depth (Some (fst val_end))))
               else scan_loop s field (snd value_end) depth found))
      else if s ! i = CHR 0x7B \<or> s ! i = CHR 0x5B then scan_loop s field (i + 1) (depth + 1) found
      else if s ! i = CHR 0x7D \<or> s ! i = CHR 0x5D then
        (if depth - 1 < 0 then Some Gave_up else scan_loop s field (i + 1) (depth - 1) found)
      else scan_loop s field (i + 1) depth found)"

definition extract_json_string_field :: "string \<Rightarrow> string \<Rightarrow> string scan option" where
  "extract_json_string_field input field =
     (let start = length input - length (trim_start input) in
      if trim_start input = [] \<or> byte_at input start \<noteq> Some (CHR 0x7B) then Some Gave_up
      else scan_loop input field start 0 None)"

section \<open>The hook\<close>

record prompt_hook_options =
  ph_path :: string
  ph_limit :: nat
  ph_min_score :: rat

definition DEFAULT_LIMIT :: nat where
  "DEFAULT_LIMIT = 5"

definition DEFAULT_MIN_SCORE :: rat where
  "DEFAULT_MIN_SCORE = 0"

text \<open>
  \<open>get\<close> is the environment, whose values are any bytes; \<open>parse_f64\<close> is the standard library's decimal reader, on
  finite values.
\<close>

definition prompt_hook_options_with ::
  "(string \<Rightarrow> rat option) \<Rightarrow> string \<Rightarrow> (string \<Rightarrow> string option) \<Rightarrow> prompt_hook_options" where
  "prompt_hook_options_with parse_f64 default_path get =
     \<lparr>ph_path = (case get ''CLAUDE_PROJECT_DIR'' of Some p \<Rightarrow> p | None \<Rightarrow> default_path),
      ph_limit = DEFAULT_LIMIT,
      ph_min_score = (case get ''WKP_PROMPT_HOOK_MIN_SCORE'' of
          Some v \<Rightarrow> (if valid_utf8 v then (case parse_f64 v of Some x \<Rightarrow> x | None \<Rightarrow> DEFAULT_MIN_SCORE) else DEFAULT_MIN_SCORE)
        | None \<Rightarrow> DEFAULT_MIN_SCORE)\<rparr>"

definition hook_text :: "read_env \<Rightarrow> search_hit list \<Rightarrow> string" where
  "hook_text env relevant =
     (if relevant = [] then []
      else ''## wkp: possibly relevant context'' @ [nl, nl] @ format_text env relevant @ [nl, nl]
        @ ''Read one of these, or run `wkp context '' @ [dquote] @ ''<topic>'' @ [dquote] @ ''` to go deeper.'')"

text \<open>\<open>None\<close> is a panic, or not to return.\<close>

definition run_prompt_hook ::
  "read_env \<Rightarrow> string \<Rightarrow> prompt_hook_options \<Rightarrow> 'g world \<times> index_file \<Rightarrow> string option \<times> index_file" where
  "run_prompt_hook env stdin_payload opts s =
     (case extract_json_string_field stdin_payload ''prompt'' of
        None \<Rightarrow> (None, snd s)
      | Some Panics \<Rightarrow> (None, snd s)
      | Some Gave_up \<Rightarrow> (Some [], snd s)
      | Some (Got prompt) \<Rightarrow>
          if trim prompt = [] then (Some [], snd s)
          else (case open_index (ph_path opts) (fst s) (snd s) of
                  (Inl _, idx) \<Rightarrow> (Some [], idx)
                | (Inr _, idx) \<Rightarrow>
                    (case (if sanitize_fts_query_any prompt = [] then Inr []
                           else bind_result (tables_of idx) (\<lambda>db.
                             Inr (search_any_term (re_fts env) db prompt (any_filter\<lparr>sf_limit := Some (ph_limit opts)\<rparr>)))) of
                       Inl _ \<Rightarrow> (Some [], idx)
                     | Inr hits \<Rightarrow> (Some (hook_text env (filter (\<lambda>h. ph_min_score opts \<le> sh_score h) hits)), idx))))"

section \<open>The text that registers it\<close>

definition CLAUDE_CODE_HOOK :: string where
  "CLAUDE_CODE_HOOK = join [nl]
     [''{'',
      ''  '' @ [dquote] @ ''hooks'' @ [dquote] @ '': {'',
      ''    '' @ [dquote] @ ''SessionStart'' @ [dquote] @ '': ['',
      ''      {'',
      ''        '' @ [dquote] @ ''hooks'' @ [dquote] @ '': ['',
      ''          {'',
      ''            '' @ [dquote] @ ''type'' @ [dquote] @ '': '' @ [dquote] @ ''command'' @ [dquote] @ '','',
      ''            '' @ [dquote] @ ''command'' @ [dquote] @ '': '' @ [dquote] @ ''wkp index '' @ [backslash] @ [dquote] @ ''$CLAUDE_PROJECT_DIR'' @ [backslash] @ [dquote] @ '' >/dev/null 2>&1 || true; cat '' @ [backslash] @ [dquote] @ ''$CLAUDE_PROJECT_DIR/.wkp/tier0.md'' @ [backslash] @ [dquote] @ '' 2>/dev/null || true'' @ [dquote],
      ''          }'',
      ''        ]'',
      ''      }'',
      ''    ],'',
      ''    '' @ [dquote] @ ''UserPromptSubmit'' @ [dquote] @ '': ['',
      ''      {'',
      ''        '' @ [dquote] @ ''hooks'' @ [dquote] @ '': ['',
      ''          {'',
      ''            '' @ [dquote] @ ''type'' @ [dquote] @ '': '' @ [dquote] @ ''command'' @ [dquote] @ '','',
      ''            '' @ [dquote] @ ''command'' @ [dquote] @ '': '' @ [dquote] @ ''wkp prompt-hook 2>/dev/null || true'' @ [dquote],
      ''          }'',
      ''        ]'',
      ''      }'',
      ''    ],'',
      ''    '' @ [dquote] @ ''PostToolUse'' @ [dquote] @ '': ['',
      ''      {'',
      ''        '' @ [dquote] @ ''matcher'' @ [dquote] @ '': '' @ [dquote] @ ''Write|Edit'' @ [dquote] @ '','',
      ''        '' @ [dquote] @ ''hooks'' @ [dquote] @ '': ['',
      ''          {'',
      ''            '' @ [dquote] @ ''type'' @ [dquote] @ '': '' @ [dquote] @ ''command'' @ [dquote] @ '','',
      ''            '' @ [dquote] @ ''command'' @ [dquote] @ '': '' @ [dquote] @ ''wkp index '' @ [backslash] @ [dquote] @ ''$CLAUDE_PROJECT_DIR'' @ [backslash] @ [dquote] @ '' >/dev/null 2>&1 || true'' @ [dquote],
      ''          }'',
      ''        ]'',
      ''      }'',
      ''    ]'',
      ''  }'',
      ''}'']"

definition AGENTS_MD_INSTRUCTION :: string where
  "AGENTS_MD_INSTRUCTION = unlines
     [''## WKP memory'',
      ''Before starting work, run'',
      ''`wkp index && wkp materialize --tier 0 && cat .wkp/tier0.md`'',
      ''and treat its output as already-established project context.'',
      [],
      ''Before writing anything substantive on a topic, also run'',
      ''`wkp context '' @ [dquote] @ ''<topic>'' @ [dquote] @ ''` and read what it returns -- harnesses without'',
      ''a `UserPromptSubmit`-equivalent hook have no automatic equivalent of'',
      ''this, so it has to be a deliberate habit instead.'']"

definition SUPPORTED_FRAMEWORKS_HELP :: string where
  "SUPPORTED_FRAMEWORKS_HELP =
     ''Supported: claude_code (a real SessionStart hook); codex / opencode / hermes (a ''
     @ ''plain-text instruction to paste into AGENTS.md -- all three are confirmed to read ''
     @ ''that file automatically; for hermes specifically, only if the project doesn'' @ [squote] @ ''t also ''
     @ ''have its own .hermes.md/HERMES.md, which takes precedence over AGENTS.md there); or ''
     @ ''the generic agents_md, for any ''
     @ ''other AGENTS.md-reading harness.''"

definition parse_hooks_args :: "string list \<Rightarrow> (string, string) result" where
  "parse_hooks_args args =
     bind_result (arg_loop (\<lambda>arg. if arg = ''--framework'' then Some (\<lambda>v _. Some v) else None) unrecognized args None) (\<lambda>framework.
       required (''hooks requires --framework <name>, e.g. `wkp hooks --framework claude_code`. ''
         @ SUPPORTED_FRAMEWORKS_HELP) framework)"

definition render_hooks :: "string \<Rightarrow> (string, string) result" where
  "render_hooks framework =
     (if framework = ''claude_code'' then Inr CLAUDE_CODE_HOOK
      else if framework \<in> {''codex'', ''opencode'', ''hermes'', ''agents_md''} then Inr AGENTS_MD_INSTRUCTION
      else Inl (''unknown --framework value '' @ [squote] @ framework @ [squote] @ ''. '' @ SUPPORTED_FRAMEWORKS_HELP))"

section \<open>The loops return\<close>

lemma byte_at_Some: "byte_at s i = Some c \<longleftrightarrow> i < length s \<and> s ! i = c"
  by (auto simp: byte_at_def)

lemma escape_at_bounds:
  assumes "escape_at s i = Some (c, n)"
  shows "2 \<le> n" "i + n \<le> length s"
proof -
  have "2 \<le> n \<and> i + n \<le> length s"
    using assms by (auto simp: escape_at_def bind_eq_Some_conv byte_at_Some slice_def is_char_boundary_def split: if_splits)
  then show "2 \<le> n" "i + n \<le> length s" by auto
qed

text \<open>A byte after an ASCII byte starts a character.\<close>

text \<open>The first character of UTF-8 text: an ASCII byte, or a lead byte with its continuation bytes.\<close>

definition utf8_char :: "string \<Rightarrow> bool" where
  "utf8_char ch \<longleftrightarrow> ch \<noteq> [] \<and> \<not> is_continuation (hd ch)
     \<and> ((length ch = 1 \<and> is_ascii (hd ch)) \<or> (list_all (\<lambda>c. \<not> is_ascii c) ch \<and> 128 \<le> code_point ch))"

lemma code_point_2: "194 \<le> (x :: nat) \<Longrightarrow> x \<le> 223 \<Longrightarrow> 128 \<le> x mod 32 * 64 + d mod 64"
proof -
  assume x: "194 \<le> x" "x \<le> 223"
  then have "x mod 32 = x - 192" by (simp add: mod_nat_eqI)
  then show ?thesis using x by simp
qed

lemma code_point_3:
  assumes "224 \<le> (x :: nat)" "x \<le> 239" "x = 224 \<longrightarrow> 160 \<le> d" "128 \<le> d" "d \<le> 191"
  shows "128 \<le> (x mod 16 * 64 + d mod 64) * 64 + e mod 64"
proof -
  have "x mod 16 = x - 224" "d mod 64 = d - 128" using assms by (simp_all add: mod_nat_eqI)
  then show ?thesis using assms by (cases "x = 224") simp_all
qed

lemma code_point_4:
  assumes "240 \<le> (x :: nat)" "x \<le> 244" "x = 240 \<longrightarrow> 144 \<le> d" "128 \<le> d" "d \<le> 191"
  shows "128 \<le> ((x mod 8 * 64 + d mod 64) * 64 + e mod 64) * 64 + f mod 64"
proof -
  have "x mod 8 = x - 240" "d mod 64 = d - 128" using assms by (simp_all add: mod_nat_eqI)
  then show ?thesis using assms by (cases "x = 240") simp_all
qed

lemma high_byte: "byte_in lo hi c \<Longrightarrow> 128 \<le> lo \<Longrightarrow> lo = 128 \<or> hi \<le> 191 \<Longrightarrow> hi \<le> 191 \<Longrightarrow> \<not> is_ascii c \<and> is_continuation c"
  by (auto simp: byte_in_def is_ascii_def is_continuation_def)

lemma valid_utf8_step:
  assumes "valid_utf8 (x # xs)"
  shows "\<exists>ys zs. xs = ys @ zs \<and> list_all is_continuation ys \<and> utf8_char (x # ys) \<and> valid_utf8 zs"
proof (cases "byte_in 0 127 x")
  case True
  then show ?thesis using assms valid_utf8_head [OF assms]
    by (intro exI [of _ "[]"] exI [of _ xs]) (simp add: utf8_char_def byte_in_def is_ascii_def)
next
  case n1: False
  note head = valid_utf8_head [OF assms]
  show ?thesis
  proof (cases "byte_in 194 223 x")
    case True
    then obtain d r where "xs = d # r" "byte_in 128 191 d" "valid_utf8 r" using assms n1 by (cases xs) auto
    then show ?thesis using True head code_point_2
      by (intro exI [of _ "[d]"] exI [of _ r])
        (simp add: utf8_char_def byte_in_def is_ascii_def is_continuation_def code_point_def)
  next
    case n2: False
    show ?thesis
    proof (cases "byte_in 224 239 x")
      case True
      then obtain d e r where "xs = d # e # r" "valid_utf8 r" "byte_in 128 191 e"
          "byte_in (if of_char x = (224 :: nat) then 160 else 128) (if of_char x = (237 :: nat) then 159 else 191) d"
        using assms n1 n2 by (simp split: list.splits)
      then show ?thesis using True head code_point_3 [of "of_char x" "of_char d" "of_char e"]
        by (intro exI [of _ "[d, e]"] exI [of _ r])
          (simp add: utf8_char_def byte_in_def is_ascii_def is_continuation_def code_point_def split: if_splits)
    next
      case False
      then have four: "byte_in 240 244 x" using assms n1 n2 by (simp split: if_splits)
      then obtain d e f r where "xs = d # e # f # r" "valid_utf8 r" "byte_in 128 191 e" "byte_in 128 191 f"
          "byte_in (if of_char x = (240 :: nat) then 144 else 128) (if of_char x = (244 :: nat) then 143 else 191) d"
        using assms n1 n2 False by (simp split: list.splits)
      then show ?thesis using four head code_point_4 [of "of_char x" "of_char d" "of_char e" "of_char f"]
        by (intro exI [of _ "[d, e, f]"] exI [of _ r])
          (simp add: utf8_char_def byte_in_def is_ascii_def is_continuation_def code_point_def split: if_splits)
    qed
  qed
qed

lemma valid_utf8_chars: "valid_utf8 s \<Longrightarrow> list_all utf8_char (chars s)"
proof (induction s rule: length_induct)
  case (1 s)
  show ?case
  proof (cases s)
    case (Cons x xs)
    then obtain ys zs where yz: "xs = ys @ zs" "list_all is_continuation ys" "utf8_char (x # ys)" "valid_utf8 zs"
      using valid_utf8_step "1.prems" by blast
    have "takeWhile is_continuation xs = ys" "dropWhile is_continuation xs = zs"
      using yz(1,2) valid_utf8_take [OF yz(4)] by (simp_all add: list_all_iff)
    then show ?thesis using "1.IH" yz Cons by simp
  qed simp
qed

lemma valid_utf8_after: "valid_utf8 (a @ c # b) \<Longrightarrow> is_ascii c \<Longrightarrow> valid_utf8 b"
proof (induction a rule: length_induct)
  case (1 a)
  show ?case
  proof (cases a)
    case Nil
    then show ?thesis using "1.prems" by (auto simp: byte_in_def is_ascii_def)
  next
    case (Cons x xs)
    then obtain ys zs where yz: "xs @ c # b = ys @ zs" "list_all is_continuation ys" "valid_utf8 zs"
      using valid_utf8_step [of x "xs @ c # b"] "1.prems"(1) by auto
    have "length ys \<le> length xs"
    proof (rule ccontr)
      assume long: "\<not> length ys \<le> length xs"
      then have "ys ! length xs = (xs @ c # b) ! length xs" using yz(1) by (simp add: nth_append)
      then have "\<not> is_ascii c" using yz(2) long by (force simp: list_all_length not_le is_continuation_def is_ascii_def)
      then show False using "1.prems"(2) by blast
    qed
    then have "drop (length ys) (xs @ c # b) = drop (length ys) xs @ c # b" by simp
    then have "zs = drop (length ys) xs @ c # b" using yz(1) by simp
    then show ?thesis using "1.IH" [rule_format, of "drop (length ys) xs"] "1.prems"(2) yz(3) Cons by simp
  qed
qed

lemma boundary_after_ascii:
  assumes "valid_utf8 s" "i < length s" "is_ascii (s ! i)"
  shows "is_char_boundary s (i + 1)" "is_char_boundary s i"
proof -
  have "valid_utf8 (take i s @ s ! i # drop (Suc i) s)" using assms(1,2) by (simp add: id_take_nth_drop [symmetric])
  then have "valid_utf8 (drop (Suc i) s)" using assms(3) by (rule valid_utf8_after)
  then show "is_char_boundary s (i + 1)"
    using assms(2) valid_utf8_head [of "s ! Suc i" "drop (Suc (Suc i)) s"]
    by (cases "Suc i < length s") (auto simp: is_char_boundary_def Cons_nth_drop_Suc)
  show "is_char_boundary s i" using assms(2,3) by (auto simp: is_char_boundary_def is_continuation_def is_ascii_def)
qed

lemma escape_at_boundary:
  assumes "valid_utf8 s" "escape_at s i = Some (c, n)"
  shows "is_char_boundary s (i + n)"
proof -
  obtain esc where esc: "byte_at s (i + 1) = Some esc" using assms(2) by (auto simp: escape_at_def bind_eq_Some_conv)
  then have at: "i + 1 < length s" "s ! (i + 1) = esc" by (auto simp: byte_at_Some)
  consider "n = 2" "is_ascii esc" | "n = 6" "slice s (i + 2) (i + 6) \<noteq> None"
    using assms(2) esc by (auto simp: escape_at_def bind_eq_Some_conv is_ascii_def split: if_splits)
  then show ?thesis
  proof cases
    case 1
    then show ?thesis using boundary_after_ascii(1) [OF assms(1) at(1)] at(2) by simp
  qed (simp add: slice_def split: if_splits)
qed

definition read_ok :: "string \<Rightarrow> nat \<Rightarrow> bool \<Rightarrow> (string \<times> nat) scan \<Rightarrow> bool" where
  "read_ok s i safe r \<longleftrightarrow>
     (case r of Got te \<Rightarrow> i < snd te \<and> snd te \<le> length s | Gave_up \<Rightarrow> True | Panics \<Rightarrow> \<not> safe)"

lemma read_ok_mono: "read_ok s j safe r \<Longrightarrow> i \<le> j \<Longrightarrow> read_ok s i safe r"
  by (auto simp: read_ok_def split: scan.splits)

lemma read_loop_returns:
  assumes "safe \<Longrightarrow> valid_utf8 s \<and> is_char_boundary s run_start \<and> run_start \<le> i"
  shows "\<exists>r. read_loop s i run_start out = Some r \<and> read_ok s i safe r"
  using assms
proof (induction "length s - i" arbitrary: i run_start out rule: less_induct)
  case less
  show ?case
  proof (cases "i < length s \<and> s ! i \<in> {dquote, backslash}")
    case True
    then have "is_ascii (s ! i)" by (auto simp: is_ascii_def)
    then have run: "slice s run_start i \<noteq> None" if safe
      using boundary_after_ascii(2) [of s i] True less.prems that by (simp add: slice_def)
    show ?thesis
    proof (cases "slice s run_start i = None \<or> s ! i = dquote \<or> escape_at s i = None")
      case True
      then show ?thesis using run \<open>i < length s \<and> _\<close>
        by (subst read_loop.simps) (auto simp: read_ok_def split: option.split)
    next
      case False
      then obtain t c n where tcn: "slice s run_start i = Some t" "escape_at s i = Some (c, n)" by auto
      have step: "read_loop s i run_start out = read_loop s (i + n) (i + n) (out @ t @ c)"
        using True False tcn by (subst read_loop.simps) auto
      have "\<exists>r. read_loop s (i + n) (i + n) (out @ t @ c) = Some r \<and> read_ok s (i + n) safe r"
        using less.hyps [of "i + n" "i + n" "out @ t @ c"] escape_at_bounds [OF tcn(2)] escape_at_boundary [OF _ tcn(2)]
          less.prems True by auto
      then show ?thesis using read_ok_mono [of s "i + n" safe _ i] by (auto simp: step)
    qed
  next
    case False
    show ?thesis
    proof (cases "i < length s")
      case True
      have step: "read_loop s i run_start out = read_loop s (i + 1) run_start out"
        using False True by (subst read_loop.simps) simp
      have "\<exists>r. read_loop s (i + 1) run_start out = Some r \<and> read_ok s (i + 1) safe r"
      proof (rule less.hyps)
        show "length s - (i + 1) < length s - i" using True by simp
        show "valid_utf8 s \<and> is_char_boundary s run_start \<and> run_start \<le> i + 1" if safe using less.prems [OF that] by simp
      qed
      then show ?thesis using read_ok_mono [of s "i + 1" safe _ i] by (auto simp: step)
    qed (subst read_loop.simps, simp add: read_ok_def)
  qed
qed

lemma read_json_string_returns:
  assumes "safe \<Longrightarrow> valid_utf8 s"
  shows "\<exists>r. read_json_string s i = Some r \<and> read_ok s i safe r"
proof (cases "byte_at s i = Some dquote")
  case True
  then have "is_char_boundary s (i + 1)" if safe
    using boundary_after_ascii(1) [of s i] assms that by (auto simp: byte_at_Some is_ascii_def)
  then obtain r where "read_loop s (i + 1) (i + 1) [] = Some r" "read_ok s (i + 1) safe r"
    using read_loop_returns [of safe s "i + 1" "i + 1" "[]"] assms by auto
  then show ?thesis using read_ok_mono [of s "i + 1" safe r i] True by (simp add: read_json_string_def)
qed (simp add: read_json_string_def read_ok_def)

lemma skip_ws_le: "j \<le> skip_ws s j"
  by (simp add: skip_ws_def)

lemma scan_loop_returns:
  assumes "safe \<Longrightarrow> valid_utf8 s"
  shows "\<exists>r. scan_loop s field i depth found = Some r \<and> (safe \<longrightarrow> r \<noteq> Panics)"
proof (induction "length s - i" arbitrary: i depth found rule: less_induct)
  case less
  note unfold = scan_loop.simps [of s field i depth found]
  note next' = less.hyps [of "i + 1"]
  show ?case
  proof (cases "i < length s")
    case in_range: True
    show ?thesis
    proof (cases "s ! i = dquote")
      case True
      obtain r where r: "read_json_string s i = Some r" "read_ok s i safe r" using read_json_string_returns [OF assms] by blast
      let ?k = "skip_ws s (skip_ws s (snd (case r of Got ve \<Rightarrow> ve)) + 1)"
      obtain r2 where r2: "read_json_string s ?k = Some r2" "read_ok s ?k safe r2" using read_json_string_returns [OF assms] by blast
      show ?thesis
      proof (cases r)
        case (Got ve)
        then have ve: "i < snd ve" "snd ve \<le> length s" using r(2) by (auto simp: read_ok_def)
        then have "i < ?k" using skip_ws_le [of "snd ve" s] skip_ws_le [of "skip_ws s (snd ve) + 1" s] Got by simp
        then have "length s - snd vv < length s - i" if "r2 = Got vv" for vv using r2(2) that in_range by (auto simp: read_ok_def)
        then show ?thesis
          using less.hyps [of "snd ve"] less.hyps ve in_range True r(1) r2 Got
          by (subst unfold) (auto simp: Let_def read_ok_def split: scan.split)
      qed (use in_range True r in \<open>auto simp: unfold read_ok_def\<close>)
    qed (use next' in_range in \<open>auto simp: unfold\<close>)
  qed (simp add: unfold split: option.split)
qed

text \<open>
  C32. Reading the field returns, and never panics. Whatever bytes the harness sends, the scan for the field
  ends after finitely many rounds; and when the bytes are UTF-8, as those of a Rust string are, every slice it takes is at
  the boundary of a character, so that it returns a value or gives up.
\<close>

theorem extract_field_returns:
  "\<exists>r. extract_json_string_field input field = Some r \<and> (valid_utf8 input \<longrightarrow> r \<noteq> Panics)"
  using scan_loop_returns [of "valid_utf8 input" input field] by (simp add: extract_json_string_field_def Let_def)

section \<open>Reading back what was written\<close>

definition starts_char :: "string \<Rightarrow> bool" where
  "starts_char s \<longleftrightarrow> s = [] \<or> \<not> is_continuation (hd s)"

lemma boundary_mid: "starts_char post \<Longrightarrow> is_char_boundary (pre @ post) (length pre)"
  by (cases post) (auto simp: starts_char_def is_char_boundary_def)

lemma slice_mid:
  assumes "starts_char (mid @ post)" "starts_char post"
  shows "slice (pre @ mid @ post) (length pre) (length pre + length mid) = Some mid"
  using boundary_mid [OF assms(1), of pre] boundary_mid [OF assms(2), of "pre @ mid"] by (simp add: slice_def)

definition plain_bytes :: "string \<Rightarrow> bool" where
  "plain_bytes c \<longleftrightarrow> list_all (\<lambda>b. b \<noteq> dquote \<and> b \<noteq> backslash) c"

lemma read_loop_plain:
  "plain_bytes c \<Longrightarrow> read_loop (pre @ c @ post) (length pre) rs out = read_loop (pre @ c @ post) (length pre + length c) rs out"
proof (induction c arbitrary: pre)
  case (Cons b c)
  have "read_loop (pre @ (b # c) @ post) (length pre) rs out = read_loop ((pre @ [b]) @ c @ post) (length (pre @ [b])) rs out"
    using Cons.prems by (subst read_loop.simps) (simp add: plain_bytes_def)
  then show ?case using Cons.IH [of "pre @ [b]"] Cons.prems by (simp add: plain_bytes_def)
qed simp

text \<open>A control character and its escape.\<close>

definition hex_reads :: "nat \<Rightarrow> bool" where
  "hex_reads n \<longleftrightarrow> length (hex4 n) = 4 \<and> from_str_radix_16 (hex4 n) = Some (int n) \<and> push_code (int n) = [char_of n]
     \<and> \<not> is_continuation (hd (hex4 n))"

lemma hex_of_control: "n < 32 \<Longrightarrow> hex_reads n"
proof -
  have "list_all hex_reads [0..<32]" by code_simp
  moreover assume "n < 32"
  then have "n \<in> set [0..<32]" unfolding set_upt by simp
  ultimately show ?thesis unfolding list_all_iff by blast
qed

lemma starts_char_append: "s \<noteq> [] \<Longrightarrow> starts_char (s @ t) \<longleftrightarrow> \<not> is_continuation (hd s)"
  by (cases s) (simp_all add: starts_char_def)

lemma special_starts [simp]: "\<not> is_continuation dquote" "\<not> is_continuation backslash"
  by code_simp+

lemma code_point_ascii: "is_ascii b \<Longrightarrow> code_point [b] = of_char b"
  by (simp add: code_point_def is_ascii_def)

lemma json_char_cases:
  assumes "utf8_char c"
  shows "json_char c = c \<and> plain_bytes c \<or>
    (\<exists>es. json_char c = backslash # es \<and> (\<forall>pre post. starts_char post \<longrightarrow>
       escape_at (pre @ json_char c @ post) (length pre) = Some (c, length (json_char c))))"
proof (cases "length c = 1 \<and> is_ascii (hd c)")
  case True
  then obtain b where b: "c = [b]" "is_ascii b" by (cases c) auto
  consider (simple) "b \<in> {dquote, backslash, nl, cr, CHR 0x09}" | (control) "b \<notin> {dquote, backslash, nl, cr, CHR 0x09}" "of_char b < (32 :: nat)"
    | (plain) "b \<notin> {dquote, backslash, nl, cr, CHR 0x09}" "\<not> of_char b < (32 :: nat)" by blast
  then show ?thesis
  proof cases
    case simple
    then show ?thesis by (auto simp: b(1) json_char_def escape_at_def byte_at_def nth_append)
  next
    case control
    let ?h = "hex4 (of_char b)"
    have h: "length ?h = 4" "from_str_radix_16 ?h = Some (int (of_char b))" "push_code (int (of_char b)) = [b]" "\<not> is_continuation (hd ?h)"
      using hex_of_control [OF control(2)] by (simp_all add: hex_reads_def)
    have json: "json_char c = backslash # CHR ''u'' # ?h" using control b by (simp add: json_char_def code_point_ascii)
    have "escape_at (pre @ json_char c @ post) (length pre) = Some (c, length (json_char c))" if "starts_char post" for pre post
    proof -
      have "slice ((pre @ [backslash, CHR ''u'']) @ ?h @ post) (length (pre @ [backslash, CHR ''u''])) (length (pre @ [backslash, CHR ''u'']) + length ?h) = Some ?h"
        using h(1,4) that starts_char_append [of ?h post] by (intro slice_mid) fastforce+
      then show ?thesis unfolding json using h by (simp add: escape_at_def byte_at_def nth_append b(1) add.commute)
    qed
    then show ?thesis using json by blast
  next
    case plain
    then show ?thesis using b by (simp add: json_char_def code_point_ascii plain_bytes_def)
  qed
next
  case False
  then have "list_all (\<lambda>c. \<not> is_ascii c) c" "128 \<le> code_point c" "c \<noteq> []" using assms by (auto simp: utf8_char_def)
  moreover from this have "c \<noteq> [x]" if "is_ascii x" for x using that by auto
  ultimately show ?thesis by (auto simp: json_char_def plain_bytes_def list_all_iff is_ascii_def)
qed

lemma starts_json: "list_all utf8_char cs \<Longrightarrow> starts_char (concat (map json_char cs) @ dquote # post)"
proof (cases cs)
  case (Cons c cs')
  assume "list_all utf8_char cs"
  then show ?thesis using json_char_cases [of c] Cons by (cases c) (auto simp: starts_char_def utf8_char_def)
qed (simp add: starts_char_def)

lemma read_loop_json:
  assumes "list_all utf8_char cs" "starts_char (mid @ concat (map json_char cs) @ dquote # post)"
  shows "read_loop (pre @ mid @ concat (map json_char cs) @ dquote # post) (length pre + length mid) (length pre) out
    = Some (Got (out @ mid @ concat cs, length pre + length mid + length (concat (map json_char cs)) + 1))"
  using assms
proof (induction cs arbitrary: pre mid out)
  case Nil
  then have "slice (pre @ mid @ dquote # post) (length pre) (length pre + length mid) = Some mid"
    by (intro slice_mid) (simp_all add: starts_char_def)
  then show ?case by (subst read_loop.simps) (simp add: nth_append)
next
  case (Cons c cs)
  let ?rest = "concat (map json_char cs) @ dquote # post"
  have c: "utf8_char c" "list_all utf8_char cs" using Cons.prems by simp_all
  consider "json_char c = c" "plain_bytes c"
    | es where "json_char c = backslash # es" "escape_at ((pre @ mid) @ json_char c @ ?rest) (length (pre @ mid)) = Some (c, length (json_char c))"
    using json_char_cases [OF c(1)] starts_json [OF c(2)] by blast
  then show ?case
  proof cases
    case 1
    then have "read_loop (pre @ mid @ c @ ?rest) (length pre + length mid) (length pre) out
        = read_loop (pre @ mid @ c @ ?rest) (length pre + length mid + length c) (length pre) out"
      using read_loop_plain [of c "pre @ mid" ?rest] by simp
    moreover have "starts_char ((mid @ c) @ ?rest)" using Cons.prems(2) 1 by simp
    ultimately show ?thesis using Cons.IH [OF c(2), of "mid @ c" pre out] 1 by (simp add: add.assoc)
  next
    case 2
    let ?s = "pre @ mid @ json_char c @ ?rest"
    have "slice ?s (length pre) (length pre + length mid) = Some mid"
      using Cons.prems(2) 2(1) by (intro slice_mid) (simp_all add: starts_char_def)
    then have "read_loop ?s (length pre + length mid) (length pre) out
        = read_loop ?s (length (pre @ mid @ json_char c)) (length (pre @ mid @ json_char c)) (out @ mid @ c)"
      using 2 by (subst read_loop.simps) (simp add: nth_append add.assoc)
    also have "\<dots> = Some (Got ((out @ mid @ c) @ [] @ concat cs, length (pre @ mid @ json_char c) + length (concat (map json_char cs)) + 1))"
      using Cons.IH [OF c(2), of "[]" "pre @ mid @ json_char c" "out @ mid @ c"] starts_json [OF c(2)] by simp
    finally show ?thesis by (simp add: add.assoc)
  qed
qed

lemma read_json_string_written:
  assumes "valid_utf8 v"
  shows "read_json_string (pre @ search_json_string v @ post) (length pre)
    = Some (Got (v, length pre + length (search_json_string v)))"
proof -
  note ok = valid_utf8_chars [OF assms]
  from read_loop_json [OF ok, where pre = "pre @ [dquote]" and mid = "[]" and out = "[]" and post = post] starts_json [OF ok]
  show ?thesis by (simp add: read_json_string_def byte_at_def nth_append search_json_string_def add.assoc)
qed

section \<open>The field of an object\<close>

text \<open>
  JSON without spaces, as a harness writes it: a number, a truth value or null is its text.
\<close>

datatype json = JText string | JString string | JArray "json list" | JObject "(string \<times> json) list"

fun render_json :: "json \<Rightarrow> string" where
  "render_json (JText t) = t"
| "render_json (JString v) = search_json_string v"
| "render_json (JArray vs) = [CHR 0x5B] @ join '','' (map render_json vs) @ [CHR 0x5D]"
| "render_json (JObject kvs) = [CHR 0x7B] @ join '','' (map (\<lambda>(k, v). search_json_string k @ '':'' @ render_json v) kvs) @ [CHR 0x7D]"

definition text_byte :: "char \<Rightarrow> bool" where
  "text_byte c \<longleftrightarrow> is_ascii_alphanumeric c \<or> c \<in> {CHR ''-'', CHR ''+'', CHR ''.''}"

fun json_ok :: "json \<Rightarrow> bool" where
  "json_ok (JText t) \<longleftrightarrow> t \<noteq> [] \<and> list_all text_byte t"
| "json_ok (JString v) \<longleftrightarrow> valid_utf8 v"
| "json_ok (JArray vs) \<longleftrightarrow> (\<forall>v \<in> set vs. json_ok v)"
| "json_ok (JObject kvs) \<longleftrightarrow> (\<forall>kv \<in> set kvs. valid_utf8 (fst kv) \<and> json_ok (snd kv))"

text \<open>The value of the last field of that name, if every field of that name is a string.\<close>

fun last_field :: "string \<Rightarrow> (string \<times> json) list \<Rightarrow> string option \<Rightarrow> string scan" where
  "last_field field [] found = (case found of None \<Rightarrow> Gave_up | Some v \<Rightarrow> Got v)"
| "last_field field ((k, v) # kvs) found =
     (if k = field then (case v of JString t \<Rightarrow> last_field field kvs (Some t) | _ \<Rightarrow> Gave_up)
      else last_field field kvs found)"

text \<open>One step of the scan at a byte that is no quote and no bracket, and at a string that is no matching key.\<close>

lemma scan_plain:
  assumes "b \<noteq> dquote" "b \<notin> {CHR 0x7B, CHR 0x5B, CHR 0x7D, CHR 0x5D}"
  shows "scan_loop (pre @ b # post) field (length pre) depth found = scan_loop (pre @ b # post) field (length pre + 1) depth found"
  using assms by (subst scan_loop.simps) simp

lemma scan_text:
  "list_all text_byte t \<Longrightarrow>
     scan_loop (pre @ t @ post) field (length pre) depth found = scan_loop (pre @ t @ post) field (length pre + length t) depth found"
proof (induction t arbitrary: pre)
  case (Cons b t)
  have "text_byte b" using Cons.prems by simp
  then have "b \<noteq> dquote" "b \<notin> {CHR 0x7B, CHR 0x5B, CHR 0x7D, CHR 0x5D}"
    by (auto simp: text_byte_def is_ascii_alphanumeric_def is_ascii_digit_def)
  from scan_plain [OF this] show ?case using Cons.IH [of "pre @ [b]"] Cons.prems by simp
qed simp

lemma scan_open:
  assumes "b = CHR 0x7B \<or> b = CHR 0x5B"
  shows "scan_loop (pre @ b # post) field (length pre) depth found = scan_loop (pre @ b # post) field (length pre + 1) (depth + 1) found"
  using assms by (subst scan_loop.simps) auto

lemma scan_close:
  assumes "b = CHR 0x7D \<or> b = CHR 0x5D" "1 \<le> depth"
  shows "scan_loop (pre @ b # post) field (length pre) depth found = scan_loop (pre @ b # post) field (length pre + 1) (depth - 1) found"
  using assms by (subst scan_loop.simps) auto

text \<open>What may follow a value.\<close>

definition ends_value :: "string \<Rightarrow> bool" where
  "ends_value post \<longleftrightarrow> post \<noteq> [] \<and> hd post \<in> {CHR '','', CHR 0x7D, CHR 0x5D}"

lemma skip_none: "post \<noteq> [] \<Longrightarrow> \<not> ascii_whitespace (hd post) \<Longrightarrow> skip_ws (pre @ post) (length pre) = length pre"
  by (cases post) (simp_all add: skip_ws_def)

lemma scan_string_at:
  assumes "i < length s" "s ! i = dquote" "read_json_string s i = Some (Got (v, e))" "skip_ws s e = e"
    and "depth \<noteq> 1 \<or> byte_at s e \<noteq> Some (CHR '':'') \<or> v \<noteq> field"
  shows "scan_loop s field i depth found = scan_loop s field e depth found"
  using assms by (subst scan_loop.simps) auto

lemma scan_field_at:
  assumes "i < length s" "s ! i = dquote" "read_json_string s i = Some (Got (field, j))" "skip_ws s j = j"
    and "byte_at s j = Some (CHR '':'')" "skip_ws s (j + 1) = j + 1"
  shows "scan_loop s field i 1 found =
    (if byte_at s (j + 1) = Some dquote
     then Option.bind (read_json_string s (j + 1)) (\<lambda>r. case r of
         Panics \<Rightarrow> Some Panics | Gave_up \<Rightarrow> Some Gave_up | Got ve \<Rightarrow> scan_loop s field (snd ve) 1 (Some (fst ve)))
     else Some Gave_up)"
  using assms by (subst scan_loop.simps) simp

lemma json_string_first: "\<exists>t. search_json_string v = dquote # t"
  by (simp add: search_json_string_def)

lemma scan_string:
  assumes "valid_utf8 v" "post \<noteq> []" "\<not> ascii_whitespace (hd post)" "depth \<noteq> 1 \<or> hd post \<noteq> CHR '':'' \<or> v \<noteq> field"
  shows "scan_loop (pre @ search_json_string v @ post) field (length pre) depth found
    = scan_loop (pre @ search_json_string v @ post) field (length (pre @ search_json_string v)) depth found"
proof (rule scan_string_at)
  let ?s = "pre @ search_json_string v @ post"
  show "length pre < length ?s" "?s ! length pre = dquote" using json_string_first [of v] by (auto simp: nth_append)
  show "read_json_string ?s (length pre) = Some (Got (v, length (pre @ search_json_string v)))"
    using read_json_string_written [OF assms(1)] by simp
  show "skip_ws ?s (length (pre @ search_json_string v)) = length (pre @ search_json_string v)"
    using skip_none [OF assms(2,3), of "pre @ search_json_string v"] by simp
  have "byte_at ?s (length (pre @ search_json_string v)) = Some (hd post)"
    using assms(2) by (cases post) (simp_all add: byte_at_def nth_append)
  then show "depth \<noteq> 1 \<or> byte_at ?s (length (pre @ search_json_string v)) \<noteq> Some (CHR '':'') \<or> v \<noteq> field" using assms(4) by simp
qed

lemma scan_key:
  assumes "valid_utf8 field" "post \<noteq> []" "\<not> ascii_whitespace (hd post)"
  shows "scan_loop (pre @ search_json_string field @ '':'' @ post) field (length pre) 1 found =
    (if hd post = dquote
     then Option.bind (read_json_string (pre @ search_json_string field @ '':'' @ post) (length (pre @ search_json_string field @ '':''))) (\<lambda>r. case r of
         Panics \<Rightarrow> Some Panics | Gave_up \<Rightarrow> Some Gave_up
       | Got ve \<Rightarrow> scan_loop (pre @ search_json_string field @ '':'' @ post) field (snd ve) 1 (Some (fst ve)))
     else Some Gave_up)"
proof -
  let ?s = "pre @ search_json_string field @ '':'' @ post" and ?j = "length (pre @ search_json_string field)"
  have colon: "\<not> ascii_whitespace (CHR '':'')" by code_simp
  have s: "length pre < length ?s" "?s ! length pre = dquote" using json_string_first [of field] by (auto simp: nth_append)
  have key: "read_json_string ?s (length pre) = Some (Got (field, ?j))"
    using read_json_string_written [OF assms(1), of pre "'':'' @ post"] by simp
  have j: "skip_ws ?s ?j = ?j" "byte_at ?s ?j = Some (CHR '':'')" "skip_ws ?s (?j + 1) = ?j + 1"
    using colon skip_none [of "'':'' @ post" "pre @ search_json_string field"]
      skip_none [OF assms(2,3), of "pre @ search_json_string field @ '':''"]
    by (simp_all add: byte_at_def nth_append)
  have val: "byte_at ?s (?j + 1) = Some (hd post)" using assms(2) by (cases post) (simp_all add: byte_at_def nth_append)
  have len: "length (pre @ search_json_string field @ '':'') = ?j + 1" by simp
  show ?thesis by (simp only: len scan_field_at [OF s key j] val option.inject)
qed

text \<open>The scan passes over a value, whatever its depth.\<close>

definition passes_over :: "string \<Rightarrow> string \<Rightarrow> int \<Rightarrow> string option \<Rightarrow> bool" where
  "passes_over x field depth found \<longleftrightarrow> (\<forall>pre post. ends_value post \<longrightarrow>
     scan_loop (pre @ x @ post) field (length pre) depth found = scan_loop (pre @ x @ post) field (length (pre @ x)) depth found)"

lemma passes_overD:
  "passes_over x field depth found \<Longrightarrow> ends_value post \<Longrightarrow>
     scan_loop (pre @ x @ post) field (length pre) depth found = scan_loop (pre @ x @ post) field (length (pre @ x)) depth found"
  by (simp add: passes_over_def)

lemma separator_byte: "CHR '','' \<noteq> dquote" "CHR '','' \<notin> {CHR 0x7B, CHR 0x5B, CHR 0x7D, CHR 0x5D}"
    "CHR '':'' \<noteq> dquote" "CHR '':'' \<notin> {CHR 0x7B, CHR 0x5B, CHR 0x7D, CHR 0x5D}"
  by code_simp+

lemma passes_over_pieces:
  assumes "\<forall>x \<in> set xs. passes_over x field depth found"
  shows "passes_over (join '','' xs) field depth found"
  unfolding passes_over_def
proof (intro allI impI)
  fix pre post
  assume post: "ends_value post"
  show "scan_loop (pre @ join '','' xs @ post) field (length pre) depth found
      = scan_loop (pre @ join '','' xs @ post) field (length (pre @ join '','' xs)) depth found"
    using assms
  proof (induction xs arbitrary: pre)
    case (Cons x xs)
    show ?case
    proof (cases "xs = []")
      case True
      then show ?thesis using passes_overD [OF _ post, of x field depth found pre] Cons.prems by simp
    next
      case False
      let ?rest = "join '','' xs @ post" and ?s = "pre @ x @ '','' @ join '','' xs @ post"
      have "ends_value ('','' @ ?rest)" by (simp add: ends_value_def)
      from passes_overD [OF _ this, of x field depth found pre]
      have "scan_loop ?s field (length pre) depth found = scan_loop ?s field (length (pre @ x)) depth found" using Cons.prems by simp
      also have "\<dots> = scan_loop ?s field (length ((pre @ x) @ '','')) depth found"
        using scan_plain [OF separator_byte(1,2), of "pre @ x" ?rest] by simp
      also have "\<dots> = scan_loop ?s field (length (pre @ x @ '','' @ join '','' xs)) depth found"
        using Cons.IH [of "(pre @ x) @ '',''"] Cons.prems by simp
      finally show ?thesis using False by (simp add: join_Cons)
    qed
  qed simp
qed

lemma passes_over_brackets:
  assumes "passes_over x field (depth + 1) found" "1 \<le> depth + 1"
    and "(a = CHR 0x7B \<and> b = CHR 0x7D) \<or> (a = CHR 0x5B \<and> b = CHR 0x5D)"
  shows "passes_over ([a] @ x @ [b]) field depth found"
  unfolding passes_over_def
proof (intro allI impI)
  fix pre post
  let ?s = "pre @ ([a] @ x @ [b]) @ post"
  have "scan_loop ?s field (length pre) depth found = scan_loop ?s field (length (pre @ [a])) (depth + 1) found"
    using scan_open [of a pre "x @ b # post"] assms(3) by auto
  also have "ends_value (b # post)" using assms(3) by (auto simp: ends_value_def)
  from passes_overD [OF assms(1) this, of "pre @ [a]"]
  have "scan_loop ?s field (length (pre @ [a])) (depth + 1) found = scan_loop ?s field (length (pre @ [a] @ x)) (depth + 1) found"
    by simp
  also have "\<dots> = scan_loop ?s field (length (pre @ [a] @ x @ [b])) depth found"
    using scan_close [of b "depth + 1" "pre @ [a] @ x" post] assms(2,3) by auto
  finally show "scan_loop ?s field (length pre) depth found = scan_loop ?s field (length (pre @ [a] @ x @ [b])) depth found" .
qed

text \<open>A field of an object at any depth, unless its key is looked for at the top.\<close>

lemma passes_over_field:
  assumes "valid_utf8 k" "passes_over v field depth found" "depth \<noteq> 1 \<or> k \<noteq> field"
  shows "passes_over (search_json_string k @ '':'' @ v) field depth found"
  unfolding passes_over_def
proof (intro allI impI)
  fix pre post
  assume post: "ends_value post"
  let ?s = "pre @ (search_json_string k @ '':'' @ v) @ post"
  have colon: "\<not> ascii_whitespace (CHR '':'')" by code_simp
  have "scan_loop ?s field (length pre) depth found = scan_loop ?s field (length (pre @ search_json_string k)) depth found"
    using scan_string [OF assms(1), of "'':'' @ v @ post" depth field pre found] colon assms(3) by simp
  also have "\<dots> = scan_loop ?s field (length ((pre @ search_json_string k) @ '':'')) depth found"
    using scan_plain [OF separator_byte(3,4), of "pre @ search_json_string k" "v @ post"] by simp
  also have "\<dots> = scan_loop ?s field (length (pre @ search_json_string k @ '':'' @ v)) depth found"
    using passes_overD [OF assms(2) post, of "(pre @ search_json_string k) @ '':''"] by simp
  finally show "scan_loop ?s field (length pre) depth found = scan_loop ?s field (length (pre @ search_json_string k @ '':'' @ v)) depth found" .
qed

lemma passes_over_json: "json_ok v \<Longrightarrow> 1 \<le> depth \<Longrightarrow> passes_over (render_json v) field depth found"
proof (induction v arbitrary: depth)
  case (JText t)
  then show ?case using scan_text by (simp add: passes_over_def)
next
  case (JString v)
  have "post \<noteq> []" "\<not> ascii_whitespace (hd post)" "hd post \<noteq> CHR '':''" if "ends_value post" for post
    using that by (auto simp: ends_value_def ascii_whitespace_def)
  then show ?case using JString scan_string [of v _ depth field] unfolding passes_over_def by simp
next
  case (JArray vs)
  then have "passes_over (join '','' (map render_json vs)) field (depth + 1) found" by (intro passes_over_pieces) auto
  then show ?case using JArray.prems passes_over_brackets [of _ field depth found "CHR 0x5B" "CHR 0x5D"] by simp
next
  case (JObject kvs)
  have "passes_over (search_json_string k @ '':'' @ render_json v) field (depth + 1) found" if "(k, v) \<in> set kvs" for k v
    using JObject.IH [OF that, of v "depth + 1"] JObject.prems that by (intro passes_over_field) force+
  then have "passes_over (join '','' (map (\<lambda>(k, v). search_json_string k @ '':'' @ render_json v) kvs)) field (depth + 1) found"
    by (intro passes_over_pieces) auto
  then show ?case using JObject.prems passes_over_brackets [of _ field depth found "CHR 0x7B" "CHR 0x7D"] by simp
qed

text \<open>The fields of the outermost object, one after the other.\<close>

definition field_text :: "string \<times> json \<Rightarrow> string" where
  "field_text kv = search_json_string (fst kv) @ '':'' @ render_json (snd kv)"

definition fields_text :: "(string \<times> json) list \<Rightarrow> string" where
  "fields_text kvs = join '','' (map field_text kvs) @ [CHR 0x7D]"

lemma render_object: "render_json (JObject kvs) = CHR 0x7B # fields_text kvs"
proof -
  have "(\<lambda>(k, v). search_json_string k @ '':'' @ render_json v) = field_text" by (auto simp: field_text_def)
  then show ?thesis by (simp only: render_json.simps fields_text_def append_Cons append_Nil)
qed

definition tail_text :: "(string \<times> json) list \<Rightarrow> string" where
  "tail_text kvs = (if kvs = [] then [] else '','') @ fields_text kvs"

lemma fields_text_Cons: "fields_text (kv # kvs) = field_text kv @ tail_text kvs"
  by (cases kvs) (simp_all add: fields_text_def tail_text_def)

lemma tail_text_ends: "ends_value (tail_text kvs)"
  by (simp add: tail_text_def ends_value_def fields_text_def)

lemma ends_value_starts: "ends_value post \<Longrightarrow> post \<noteq> [] \<and> \<not> ascii_whitespace (hd post)"
  by (auto simp: ends_value_def ascii_whitespace_def)

lemma render_first:
  assumes "json_ok v"
  shows "render_json v \<noteq> []" "\<not> ascii_whitespace (hd (render_json v))"
    "hd (render_json v) = dquote \<longleftrightarrow> (\<exists>t. v = JString t)"
proof -
  have plain: "\<not> ascii_whitespace b \<and> b \<noteq> dquote" if "text_byte b" for b
    using that by (auto simp: text_byte_def ascii_whitespace_def is_ascii_alphanumeric_def is_ascii_digit_def)
  have bytes: "\<not> ascii_whitespace dquote" "\<not> ascii_whitespace (CHR 0x5B)" "\<not> ascii_whitespace (CHR 0x7B)" by code_simp+
  show "render_json v \<noteq> []" "\<not> ascii_whitespace (hd (render_json v))" "hd (render_json v) = dquote \<longleftrightarrow> (\<exists>t. v = JString t)"
    using assms plain bytes by (cases v; auto simp: search_json_string_def list_all_iff hd_append)+
qed

lemma scan_tail:
  assumes "\<And>pre. scan_loop (pre @ fields_text kvs) field (length pre) 1 found = r"
  shows "scan_loop (pre @ tail_text kvs) field (length pre) 1 found = r"
proof (cases "kvs = []")
  case True
  then show ?thesis using assms [of pre] by (simp add: tail_text_def)
next
  case False
  then have "scan_loop (pre @ tail_text kvs) field (length pre) 1 found
      = scan_loop ((pre @ '','') @ fields_text kvs) field (length (pre @ '','')) 1 found"
    using scan_plain [OF separator_byte(1,2), of pre "fields_text kvs"] by (simp add: tail_text_def)
  then show ?thesis using assms [of "pre @ '',''"] by simp
qed

lemma scan_fields:
  assumes "valid_utf8 field" "json_ok (JObject kvs)"
  shows "scan_loop (pre @ fields_text kvs) field (length pre) 1 found = Some (last_field field kvs found)"
  using assms(2)
proof (induction kvs arbitrary: pre found)
  case Nil
  have "scan_loop (pre @ [CHR 0x7D]) field (length pre) 1 found = scan_loop (pre @ [CHR 0x7D]) field (length pre + 1) 0 found"
    using scan_close [of "CHR 0x7D" 1 pre "[]"] by simp
  also have "\<dots> = Some (last_field field [] found)" by (subst scan_loop.simps) (simp split: option.split)
  finally show ?case by (simp add: fields_text_def)
next
  case (Cons kv kvs)
  obtain k v where kv: "kv = (k, v)" by (cases kv)
  have ok: "valid_utf8 k" "json_ok v" "json_ok (JObject kvs)" using Cons.prems kv by auto
  have rest: "scan_loop (pre @ tail_text kvs) field (length pre) 1 found = Some (last_field field kvs found)" for pre found
    using Cons.IH [OF ok(3)] by (rule scan_tail)
  let ?s = "pre @ field_text kv @ tail_text kvs"
  show ?case
  proof (cases "k = field")
    case False
    have "passes_over (field_text kv) field 1 found"
      using passes_over_field [OF ok(1) passes_over_json [OF ok(2)]] False by (simp add: kv field_text_def)
    from passes_overD [OF this tail_text_ends, of pre kvs] show ?thesis
      using rest [of "pre @ field_text kv" found] False by (simp add: fields_text_Cons kv)
  next
    case True
    have first: "render_json v @ tail_text kvs \<noteq> []" "\<not> ascii_whitespace (hd (render_json v @ tail_text kvs))"
      "hd (render_json v @ tail_text kvs) = dquote \<longleftrightarrow> (\<exists>t. v = JString t)"
      using render_first [OF ok(2)] by simp_all
    show ?thesis
    proof (cases "\<exists>t. v = JString t")
      case string: True
      then obtain t where t: "v = JString t" "valid_utf8 t" using ok(2) by auto
      have read: "read_json_string ((pre @ search_json_string field @ '':'') @ search_json_string t @ tail_text kvs)
            (length (pre @ search_json_string field @ '':'')) = Some (Got (t, length (pre @ field_text kv)))"
        using read_json_string_written [OF t(2), of "pre @ search_json_string field @ '':''" "tail_text kvs"]
        by (simp add: field_text_def kv True t(1) add.assoc)
      show ?thesis
        using scan_key [OF assms(1) first(1,2), of pre found] first(3) string read rest [of "pre @ field_text kv" "Some t"] t(1)
        by (simp add: fields_text_Cons field_text_def kv True)
    next
      case False
      then have "last_field field (kv # kvs) found = Gave_up" by (cases v) (simp_all add: kv True)
      then show ?thesis
        using scan_key [OF assms(1) first(1,2), of pre found] first(3) False by (simp add: fields_text_Cons field_text_def kv True)
    qed
  qed
qed

text \<open>
  C33. The field that is read is the right one. On any JSON object a harness writes, with values nested to any
  depth and strings of any text, the scan yields the value of the last field of the outermost object with that
  name, and gives up when there is none or when one of them is no string. Text inside strings and
  fields of nested objects are never taken for it.
\<close>

theorem extract_field_correct:
  assumes "valid_utf8 field" "json_ok (JObject kvs)"
  shows "extract_json_string_field (render_json (JObject kvs)) field = Some (last_field field kvs None)"
proof -
  have "\<not> ascii_ws (CHR 0x7B)" "is_ascii (CHR 0x7B)" by code_simp+
  then have "trim_start (CHR 0x7B # fields_text kvs) = CHR 0x7B # fields_text kvs" by (simp only: trim_start_code if_False if_True)
  moreover have "scan_loop (CHR 0x7B # fields_text kvs) field 0 0 None = scan_loop ([CHR 0x7B] @ fields_text kvs) field (length [CHR 0x7B]) 1 None"
    using scan_open [of "CHR 0x7B" "[]" "fields_text kvs" field 0 None] by simp
  ultimately show ?thesis
    using scan_fields [OF assms, of "[CHR 0x7B]" None]
    by (simp only: render_object extract_json_string_field_def) (simp add: Let_def byte_at_def)
qed

definition demo_payload :: "(string \<times> json) list" where
  "demo_payload = [(''event'', JObject [(''prompt'', JString ''inner'')]), (''n'', JArray [JText ''1'', JText ''null'']),
     (''prompt'', JString [CHR ''a'', dquote, backslash, nl, CHR 0x01, CHR 0xC3, CHR 0xA9])]"

theorem extract_field_correct_witness:
  "extract_json_string_field (render_json (JObject demo_payload)) ''prompt''
     = Some (Got [CHR ''a'', dquote, backslash, nl, CHR 0x01, CHR 0xC3, CHR 0xA9])"
proof -
  have "json_ok (JObject demo_payload)" "valid_utf8 ''prompt''" by code_simp+
  moreover have "last_field ''prompt'' demo_payload None = Got [CHR ''a'', dquote, backslash, nl, CHR 0x01, CHR 0xC3, CHR 0xA9]"
    by code_simp
  ultimately show ?thesis using extract_field_correct [of "''prompt''" demo_payload] by simp
qed

theorem extract_field_returns_witness:
  "\<exists>r. extract_json_string_field (''{'' @ [dquote, backslash]) ''prompt'' = Some r \<and> r \<noteq> Panics"
proof -
  have "valid_utf8 (''{'' @ [dquote, backslash])" by code_simp
  then show ?thesis using extract_field_returns [of "''{'' @ [dquote, backslash]" "''prompt''"] by blast
qed

end
