(* ===== verification/Wkpd.thy ===== *)
theory Wkpd
  imports CliRead CliSync
begin

text \<open>
  The daemon \<open>wkpd\<close> (crates/wkp-cli/src/wkpd.rs): its arguments, one cycle (commit, index, synchronize), the
  loop around it with its coalescing of events, and the control socket. The file watcher, the
  channel of its events, sockets and their peers are parameters. What is printed is not modelled.
\<close>

section \<open>Arguments\<close>

record wkpd_options =
  wk_path :: string
  wk_principal :: string
  wk_signing_key_file :: string
  wk_remote :: string
  wk_socket_path :: "string option"
  wk_debounce_ms :: nat

record wkpd_args =
  wa_path :: string
  wa_principal :: "string option"
  wa_signing_key_file :: "string option"
  wa_remote :: string
  wa_socket_path :: "string option"
  wa_debounce_ms :: nat

definition wkpd_flag :: "string \<Rightarrow> (string \<times> (string \<Rightarrow> wkpd_args \<Rightarrow> (string, wkpd_args) result)) option" where
  "wkpd_flag arg =
     (if arg = ''--path'' then Some (arg, \<lambda>v a. Inr (a\<lparr>wa_path := v\<rparr>))
      else if arg = ''--principal'' then Some (arg, \<lambda>v a. Inr (a\<lparr>wa_principal := Some v\<rparr>))
      else if arg = ''--signing-key-file'' then Some (arg, \<lambda>v a. Inr (a\<lparr>wa_signing_key_file := Some v\<rparr>))
      else if arg = ''--remote'' then Some (arg, \<lambda>v a. Inr (a\<lparr>wa_remote := v\<rparr>))
      else if arg = ''--socket-path'' then Some (arg, \<lambda>v a. Inr (a\<lparr>wa_socket_path := Some v\<rparr>))
      else if arg = ''--debounce-ms'' then
        Some (arg, \<lambda>v a. bind_result (parsed ''--debounce-ms'' parse_usize v) (\<lambda>ms. Inr (a\<lparr>wa_debounce_ms := ms\<rparr>)))
      else None)"

definition wkpd_example :: string where
  "wkpd_example = ''e.g. `wkp wkpd --principal device:laptop --signing-key-file ~/.ssh/id_ed25519`''"

definition parse_wkpd_args :: "(string, string) result \<Rightarrow> string list \<Rightarrow> (string, wkpd_options) result" where
  "parse_wkpd_args cwd args =
     bind_result cwd (\<lambda>path.
     bind_result (value_loop wkpd_flag unrecognized args
       \<lparr>wa_path = path, wa_principal = None, wa_signing_key_file = None, wa_remote = ''origin'', wa_socket_path = None,
        wa_debounce_ms = 2000\<rparr>) (\<lambda>a.
     bind_result (required (''wkpd requires --principal <principal>, '' @ wkpd_example) (wa_principal a)) (\<lambda>who.
     bind_result (required (''wkpd requires --signing-key-file <path>, '' @ wkpd_example) (wa_signing_key_file a)) (\<lambda>key.
     Inr \<lparr>wk_path = wa_path a, wk_principal = who, wk_signing_key_file = key, wk_remote = wa_remote a,
          wk_socket_path = wa_socket_path a, wk_debounce_ms = wa_debounce_ms a\<rparr>))))"

section \<open>The control socket\<close>

definition socket_path_for :: "wkpd_options \<Rightarrow> string" where
  "socket_path_for opts =
     (case wk_socket_path opts of Some p \<Rightarrow> p | None \<Rightarrow> join_path (wk_path opts) ''.wkp/wkpd.sock'')"

text \<open>Binding and setting the mode are calls of the operating system.\<close>

record 'w sockets =
  sk_bind :: "string \<Rightarrow> ('w, unit) prog"
  sk_chmod :: "string \<Rightarrow> nat \<Rightarrow> ('w, unit) prog"

definition bind_socket :: "'g world sockets \<Rightarrow> string \<Rightarrow> ('g world, unit) prog" where
  "bind_socket so path =
     andthen (create_parent path) (\<lambda>_.
     attempt (fs_remove (components path)) (\<lambda>_.
     andthen (map_err (\<lambda>e. ''binding '' @ path @ '': '' @ e) (sk_bind so path)) (\<lambda>_.
     sk_chmod so path 384)))"

definition peer_is_self :: "nat \<Rightarrow> (string, nat) result \<Rightarrow> bool" where
  "peer_is_self my_uid peer \<longleftrightarrow> (case peer of Inr uid \<Rightarrow> uid = my_uid | Inl _ \<Rightarrow> False)"

definition respond_ok :: string where
  "respond_ok = ''ok'' @ [nl]"

text \<open>What each incoming connection is answered: nothing when it could not be accepted or its peer is another user.\<close>

definition serve_control_socket :: "nat \<Rightarrow> (string, (string, nat) result) result list \<Rightarrow> string option list" where
  "serve_control_socket my_uid incoming =
     map (\<lambda>c. case c of Inl _ \<Rightarrow> None | Inr peer \<Rightarrow> if peer_is_self my_uid peer then Some respond_ok else None) incoming"

section \<open>A cycle\<close>

definition changed_paths :: "change_set \<Rightarrow> string list" where
  "changed_paths changes = cs_added changes @ cs_modified changes @ map rn_to (cs_renamed changes)"

definition wkpd_trailers :: "string \<Rightarrow> trailers" where
  "wkpd_trailers who = \<lparr>tr_actor = Some who, tr_session = None, tr_source = Some ''wkpd'', tr_confidence = None\<rparr>"

definition auto_commit :: "'g git \<Rightarrow> env \<Rightarrow> wkpd_options \<Rightarrow> change_set \<Rightarrow> ('g world, unit) prog" where
  "auto_commit git ev opts changes =
     (let paths = changed_paths changes in
      if paths = [] then ret ()
      else andthen (device_id (en_urandom ev) (wk_path opts)) (\<lambda>dev.
           andthen (commit_to_device_branch git (wk_path opts) dev paths
             (''wkpd: auto-commit '' @ show_nat (length paths) @ '' changed file(s)'')
             (wk_principal opts) (wk_signing_key_file opts) (wkpd_trailers (wk_principal opts))) (\<lambda>_. ret ())))"

definition run_cycle ::
  "index_env \<Rightarrow> 'g git \<Rightarrow> env \<Rightarrow> wkpd_options \<Rightarrow> 'g world \<times> index_file \<Rightarrow> (index_cmd_error, unit) result \<times> 'g world \<times> index_file" where
  "run_cycle ie git ev opts s =
     (case s of (w, file) \<Rightarrow>
      case andthen (detect_changes git (wk_path opts)) (auto_commit git ev opts) w of
        (Inl e, w1) \<Rightarrow> (Inl (Message e), w1, file)
      | (Inr _, w1) \<Rightarrow>
          (case run_index_cli ie git \<lparr>io_path = wk_path opts, io_embed_url = None, io_embed_model = None, io_embed_key_file = None\<rparr> (w1, file) of
             (Inl e, w2, file2) \<Rightarrow> (Inl e, w2, file2)
           | (Inr _, w2, file2) \<Rightarrow>
               (case run_sync git ev \<lparr>so_path = wk_path opts, so_remote = wk_remote opts\<rparr> w2 of
                  (_, w3) \<Rightarrow> (Inr (), w3, file2))))"

section \<open>The loop\<close>

text \<open>
  Waiting for an event fails when the channel is closed; waiting with a limit tells whether an event came. The
  states pass through both: the world goes on while the daemon waits.
\<close>

record 's events =
  ev_recv :: "'s \<Rightarrow> bool \<times> 's"
  ev_recv_timeout :: "nat \<Rightarrow> 's \<Rightarrow> bool \<times> 's"

partial_function (option) drain :: "'s events \<Rightarrow> nat \<Rightarrow> 's \<Rightarrow> 's option" where
  "drain evs ms s = (case ev_recv_timeout evs ms s of (came, s') \<Rightarrow> if came then drain evs ms s' else Some s')"

partial_function (option) watch_loop :: "'s events \<Rightarrow> nat \<Rightarrow> ('s \<Rightarrow> 's) \<Rightarrow> 's \<Rightarrow> 's option" where
  "watch_loop evs ms cycle s =
     (case ev_recv evs s of (came, s1) \<Rightarrow>
        if \<not> came then Some s1
        else Option.bind (drain evs ms s1) (\<lambda>s2. watch_loop evs ms cycle (cycle s2)))"

definition run_wkpd ::
  "index_env \<Rightarrow> 'g git \<Rightarrow> env \<Rightarrow> 'g world sockets \<Rightarrow> ('g world, unit) prog \<Rightarrow> ('g world \<times> index_file) events \<Rightarrow> wkpd_options
    \<Rightarrow> 'g world \<times> index_file \<Rightarrow> ((string, unit) result \<times> 'g world \<times> index_file) option" where
  "run_wkpd ie git ev so watch evs opts s =
     (case s of (w, file) \<Rightarrow>
      case andthen (bind_socket so (socket_path_for opts)) (\<lambda>_. watch) w of
        (Inl e, w1) \<Rightarrow> Some (Inl e, w1, file)
      | (Inr _, w1) \<Rightarrow>
          map_option (\<lambda>s'. (Inr (), s'))
            (watch_loop evs (wk_debounce_ms opts) (\<lambda>s. snd (run_cycle ie git ev opts s)) (w1, file)))"

section \<open>What a cycle commits\<close>

text \<open>A command once logged stays logged, whatever runs.\<close>

interpretation logged: log_property "\<lambda>_. True" "\<lambda>w. a \<in> set (wd_log w)" for a
  by unfold_locales auto

definition hash_command :: "string \<Rightarrow> string \<Rightarrow> string list" where
  "hash_command repo_dir path = [''hash-object'', ''-w'', ''--'', join_path repo_dir path]"

lemma run_git_stdout_logs: "run_git_stdout git repo args w = (r, w') \<Longrightarrow> args \<in> set (wd_log w')"
  by (auto simp: run_git_stdout_def spawn_git_def split: prod.splits git_outcome.splits)

lemma stage_blob_logs: "stage_blob git repo path w = (Inr u, w') \<Longrightarrow> hash_command repo path \<in> set (wd_log w')"
  unfolding stage_blob_def hash_command_def
  by (elim andthen_ok) (blast intro: keepsD [OF logged.keeps_git(4)] run_git_stdout_logs)

lemma logged_stage: "keeps (\<lambda>w. a \<in> set (wd_log w)) (stage_blob git repo path)"
  unfolding stage_blob_def by (intro logged.keeps_all TrueI)

lemma logged_commit: "keeps (\<lambda>w. a \<in> set (wd_log w)) (commit_current_index git repo subject who key p)"
  unfolding commit_current_index_def format_message_def Let_def by (intro logged.keeps_all TrueI)

lemma stage_all_logs:
  "for_each (stage_blob git repo) paths w = (Inr u, w') \<Longrightarrow> p \<in> set paths \<Longrightarrow> hash_command repo p \<in> set (wd_log w')"
proof (induction paths arbitrary: w)
  case (Cons q paths)
  then obtain w1 v where first: "stage_blob git repo q w = (Inr v, w1)" "for_each (stage_blob git repo) paths w1 = (Inr u, w')"
    by (auto elim: andthen_ok)
  show ?case
  proof (cases "p = q")
    case True
    then show ?thesis using keepsD [OF keeps_for_each [OF logged_stage] first(2) stage_blob_logs [OF first(1)]] by simp
  qed (use Cons first in auto)
qed simp

lemma signed_commit_logs:
  assumes "signed_commit git repo paths subject who key t w = (Inr c, w')" "p \<in> set paths"
  shows "hash_command repo p \<in> set (wd_log w')"
proof -
  obtain u w1 where staged: "for_each (stage_blob git repo) paths w = (Inr u, w1)"
      "commit_current_index git repo subject who key t w1 = (Inr c, w')"
    using assms by (auto simp: signed_commit_def elim: andthen_ok split: if_splits)
  then show ?thesis using keepsD [OF logged_commit staged(2) stage_all_logs [OF staged(1) assms(2)]] by simp
qed

lemma branch_commit_logs:
  assumes "commit_to_device_branch git repo dev paths subject who key t w = (Inr c, w')" "p \<in> set paths"
  shows "hash_command repo p \<in> set (wd_log w')"
proof -
  let ?git = "run_git git repo" and ?commit = "signed_commit git repo paths subject who key t"
  obtain has w1 where head: "?git [''rev-parse'', ''--verify'', ''-q'', ''HEAD''] w = (has, w1)" by fastforce
  show ?thesis
  proof (cases "isl has")
    case True
    then obtain v w2 where "?commit w2 = (Inr c, w')"
      using assms(1) head by (auto simp: commit_to_device_branch_def Let_def attempt_def elim: andthen_ok)
    then show ?thesis using signed_commit_logs assms(2) by blast
  next
    case False
    then obtain previous w2 where "attempt ?commit (\<lambda>committed.
          attempt (restore_ref git repo previous) (\<lambda>restored. case committed of Inl e \<Rightarrow> err e
          | Inr c \<Rightarrow> (case restored of Inr _ \<Rightarrow> ret c | Inl e \<Rightarrow> err (''commit succeeded but failed to restore the previous branch: '' @ e)))) w2
        = (Inr c, w')"
      using assms(1) head by (auto simp: commit_to_device_branch_def Let_def attempt_def [of "?git [''rev-parse'', ''--verify'', ''-q'', ''HEAD'']"]
          elim!: andthen_ok)
    then obtain r w3 w4 restored where run: "?commit w3 = (r, w4)" "restore_ref git repo previous w4 = (restored, w')" "r = Inr c"
      by (auto simp: attempt_def elim!: andthen_ok split: prod.splits sum.splits)
    have kept: "keeps (\<lambda>w. hash_command repo p \<in> set (wd_log w)) (restore_ref git repo previous)"
      unfolding restore_ref_def by (intro logged.keeps_all TrueI)
    from keepsD [OF kept run(2)] signed_commit_logs [OF run(1) [unfolded run(3)] assms(2)] show ?thesis by simp
  qed
qed


section \<open>What a cycle indexes\<close>


section \<open>A registered device\<close>

text \<open>One bit of state: whether the commit has been made.\<close>

definition committing_git :: "string \<Rightarrow> string \<Rightarrow> bool git" where
  "committing_git status tracked args stdin w =
     (case args of
        _ # _ # cmd # _ \<Rightarrow>
          if cmd = ''status'' then (GitExit True (if wd_git w then [] else status) [], w)
          else if cmd = ''ls-files'' then (GitExit True tracked [], w)
          else if cmd = ''update-ref'' then (GitExit True [] [], w\<lparr>wd_git := True\<rparr>)
          else (GitExit True ''c0'' [], w)
      | _ \<Rightarrow> (GitExit True [] [], w))"

lemma committed_reports:
  "reports wd_git (committing_git status tracked) path no_changes (lines tracked) (\<lambda>_. parse_signer_line ''c0'')"
proof -
  have "parse_porcelain_v2 [] = no_changes" by (simp add: parse_porcelain_v2_def lines_def)
  then show ?thesis
    by (simp add: reports_def detect_changes_def list_tracked_files_def last_signer_for_path_def attempt_def
        andthen_def run_git_def run_git_stdout_def spawn_git_def committing_git_def)
qed

definition daemon_world :: "bool world" where
  "daemon_world = \<lparr>wd_files = (\<lambda>_. None), wd_dirs = [], wd_fault = (\<lambda>_ _. None), wd_nanos = 7, wd_pid = 1, wd_git = False, wd_log = []\<rparr>"

definition daemon_env :: env where
  "daemon_env = \<lparr>en_np = (\<lambda>_. False), en_entropy = (\<lambda>_. 0), en_rules = [], en_urandom = Inr [1, 2]\<rparr>"

definition daemon_options :: wkpd_options where
  "daemon_options = \<lparr>wk_path = ''s'', wk_principal = ''device:d'', wk_signing_key_file = ''k'', wk_remote = ''origin'',
     wk_socket_path = None, wk_debounce_ms = 2000\<rparr>"

definition daemon_status :: string where
  "daemon_status = unlines [''1 .M N... 100644 100644 100644 aaa bbb user/a.md'', ''? .wkp/hub-device-key.pem'']"

abbreviation daemon_git :: "bool git" where
  "daemon_git \<equiv> committing_git daemon_status (unlines [''user/a.md''])"

abbreviation daemon_changes :: change_set where
  "daemon_changes \<equiv> no_changes\<lparr>cs_added := [''.wkp/hub-device-key.pem''], cs_modified := [''user/a.md'']\<rparr>"

lemma daemon_run:
  obtains w1 w2 where "detect_changes daemon_git (wk_path daemon_options) daemon_world = (Inr daemon_changes, w1)"
    "auto_commit daemon_git daemon_env daemon_options daemon_changes w1 = (Inr (), w2)" "wd_git w2"
proof -
  let ?detect = "detect_changes daemon_git (wk_path daemon_options) daemon_world"
  let ?commit = "auto_commit daemon_git daemon_env daemon_options daemon_changes (snd ?detect)"
  have "fst ?detect = Inr daemon_changes" "\<not> isl (fst ?commit)" "wd_git (snd ?commit)" by code_simp+
  then show ?thesis using that [of "snd ?detect" "snd ?commit"] by (cases "fst ?commit") (simp_all add: prod_eq_iff)
qed



end
