(* ===== verification/CliMain.thy ===== *)
theory CliMain
  imports CliHelp UsageCmd PromptHook HubRegister Wkpd
begin

text \<open>
  The program \<open>wkp\<close> (crates/wkp-cli/src/main.rs): what each subcommand does with its arguments, what is
  printed, the exit code, and the recording of every invocation; with the two commands that have no theory of their own
  (purge.rs, podman_sandbox.rs). What the process gets from elsewhere is the record \<open>cli_env\<close>.
\<close>

section \<open>State, environment, outcomes\<close>

text \<open>
  The index and the metrics of a store are keyed by the components of the store's path. A value of option is
  \<open>None\<close> when the command does not return.
\<close>

record ('f, 'g) cli_state =
  cs_world :: "'g world"
  cs_index :: "component list \<Rightarrow> index_file"
  cs_metrics :: "component list \<Rightarrow> 'f usage_db option"
  cs_out :: string
  cs_err :: string

datatype cli_outcome = Exited int | CliPanic

type_synonym ('f, 'g) cli_command = "('f, 'g) cli_state \<Rightarrow> (cli_outcome \<times> ('f, 'g) cli_state) option"

text \<open>
  The standard input is its bytes and the error that ended them, if one did. Running podman gives its exit code, or none when a
  signal ended it. The restrictions of the kernel are programs over the world.
\<close>

record ('r, 'i, 'c, 's, 'k, 'f, 'g) cli_env =
  ce_init :: "('r, 'i, 'g) init_env"
  ce_register :: "('c, 's, 'k, 'g) register_env"
  ce_read :: read_env
  ce_write :: env
  ce_usage :: "'f usage_env"
  ce_sockets :: "'g world sockets"
  ce_watch :: "('g world, unit) prog"
  ce_events :: "('g world \<times> index_file) events"
  ce_cwd :: "(string, string) result"
  ce_git_version :: "(bool \<times> string) option"
  ce_stdin :: "string \<times> string option"
  ce_parse_f64 :: "string \<Rightarrow> rat option"
  ce_podman :: "string list \<Rightarrow> ('g world, int option) prog"
  ce_restrict_writes :: "string list \<Rightarrow> ('g world, unit) prog"
  ce_restrict_syscalls :: "('g world, unit) prog"
  ce_error_text :: "index_cmd_error \<Rightarrow> string"
  ce_now :: int
  ce_millis :: 'f

abbreviation ce_git :: "('r, 'i, 'c, 's, 'k, 'f, 'g) cli_env \<Rightarrow> 'g git" where
  "ce_git ce \<equiv> iv_git (ce_init ce)"

abbreviation ce_np :: "('r, 'i, 'c, 's, 'k, 'f, 'g) cli_env \<Rightarrow> string \<Rightarrow> bool" where
  "ce_np ce \<equiv> iv_np (ce_init ce)"

definition say :: "string \<Rightarrow> ('f, 'g) cli_state \<Rightarrow> ('f, 'g) cli_state" where
  "say s st = st\<lparr>cs_out := cs_out st @ s @ [nl]\<rparr>"

definition warn :: "string \<Rightarrow> ('f, 'g) cli_state \<Rightarrow> ('f, 'g) cli_state" where
  "warn s st = st\<lparr>cs_err := cs_err st @ s @ [nl]\<rparr>"

definition done_with :: "('f, 'g) cli_command" where
  "done_with st = Some (Exited 0, st)"

definition complain :: "string \<Rightarrow> ('f, 'g) cli_command" where
  "complain msg st = Some (Exited 1, warn msg st)"

section \<open>The frame of a subcommand\<close>

definition guard_git :: "('r, 'i, 'c, 's, 'k, 'f, 'g) cli_env \<Rightarrow> ('f, 'g) cli_command \<Rightarrow> ('f, 'g) cli_command" where
  "guard_git ce command = (case ensure_min_git_version (ce_np ce) (ce_git_version ce) of Inl msg \<Rightarrow> complain msg | Inr _ \<Rightarrow> command)"

definition help_or :: "string \<Rightarrow> string list \<Rightarrow> ('f, 'g) cli_command \<Rightarrow> ('f, 'g) cli_command" where
  "help_or text args command = (if wants_help args then (\<lambda>st. done_with (say text st)) else command)"

definition with_args :: "(string, 'o) result \<Rightarrow> ('o \<Rightarrow> ('f, 'g) cli_command) \<Rightarrow> ('f, 'g) cli_command" where
  "with_args r command = (case r of Inl msg \<Rightarrow> complain (''wkp: '' @ msg) | Inr opts \<Rightarrow> command opts)"

definition conclude ::
  "string \<Rightarrow> ('a \<Rightarrow> ('f, 'g) cli_state \<Rightarrow> ('f, 'g) cli_state) \<Rightarrow> (string, 'a) result \<times> ('f, 'g) cli_state
    \<Rightarrow> (cli_outcome \<times> ('f, 'g) cli_state) option" where
  "conclude name present p =
     (case p of
        (Inl msg, st) \<Rightarrow> complain (''wkp: '' @ name @ '' failed: '' @ msg) st
      | (Inr a, st) \<Rightarrow> done_with (present a st))"

definition on_world :: "('g world, 'a) prog \<Rightarrow> ('f, 'g) cli_state \<Rightarrow> (string, 'a) result \<times> ('f, 'g) cli_state" where
  "on_world m st = (case m (cs_world st) of (r, w) \<Rightarrow> (r, st\<lparr>cs_world := w\<rparr>))"

definition on_index ::
  "('r, 'i, 'c, 's, 'k, 'f, 'g) cli_env \<Rightarrow> string
    \<Rightarrow> ('g world \<times> index_file \<Rightarrow> (index_cmd_error, 'a) result \<times> 'g world \<times> index_file)
    \<Rightarrow> ('f, 'g) cli_state \<Rightarrow> (string, 'a) result \<times> ('f, 'g) cli_state" where
  "on_index ce path m st =
     (case m (cs_world st, cs_index st (components path)) of
        (r, w, file) \<Rightarrow> (map_error (ce_error_text ce) r, st\<lparr>cs_world := w, cs_index := (cs_index st)(components path := file)\<rparr>))"

definition on_reader ::
  "('r, 'i, 'c, 's, 'k, 'f, 'g) cli_env \<Rightarrow> string \<Rightarrow> ('g world \<times> index_file \<Rightarrow> (index_cmd_error, 'a) result \<times> index_file)
    \<Rightarrow> ('f, 'g) cli_state \<Rightarrow> (string, 'a) result \<times> ('f, 'g) cli_state" where
  "on_reader ce path m st =
     (case m (cs_world st, cs_index st (components path)) of
        (r, file) \<Rightarrow> (map_error (ce_error_text ce) r, st\<lparr>cs_index := (cs_index st)(components path := file)\<rparr>))"

definition apply_write_sandbox :: "('r, 'i, 'c, 's, 'k, 'f, 'g) cli_env \<Rightarrow> string \<Rightarrow> ('f, 'g) cli_state \<Rightarrow> ('f, 'g) cli_state" where
  "apply_write_sandbox ce store_path st =
     (case on_world (ce_restrict_writes ce [store_path, ''/dev/null'']) st of
        (Inl e, st1) \<Rightarrow> warn (''wkp: write-sandbox setup failed, continuing without it: '' @ e) st1
      | (Inr _, st1) \<Rightarrow> st1)"

text \<open>The one position of init and import: the current directory when it is missing, and it must not look like a flag.\<close>

definition path_argument ::
  "('r, 'i, 'c, 's, 'k, 'f, 'g) cli_env \<Rightarrow> string list \<Rightarrow> (string \<Rightarrow> ('f, 'g) cli_command) \<Rightarrow> ('f, 'g) cli_command" where
  "path_argument ce args command =
     (case args of
        [] \<Rightarrow> (case ce_cwd ce of Inl _ \<Rightarrow> (\<lambda>st. Some (CliPanic, st)) | Inr p \<Rightarrow> command p)
      | p # rest \<Rightarrow>
          if starts_with p ''-'' then complain (''wkp: unrecognized argument: '' @ p)
          else (case rest of [] \<Rightarrow> command p | extra # _ \<Rightarrow> complain (''wkp: unrecognized argument: '' @ extra)))"

section \<open>wkp purge\<close>

record purge_options =
  pu_path :: string
  pu_item_path :: string

definition purge_other :: "string \<Rightarrow> string \<times> string option \<Rightarrow> (string, string \<times> string option) result" where
  "purge_other arg a =
     (case a of (path, item_path) \<Rightarrow>
      if item_path = None \<and> \<not> starts_with arg ''-'' then Inr (path, Some arg) else unrecognized arg a)"

definition parse_purge_args :: "(string, string) result \<Rightarrow> string list \<Rightarrow> (string, purge_options) result" where
  "parse_purge_args cwd args =
     bind_result cwd (\<lambda>path.
     bind_result (arg_loop (\<lambda>arg. if arg = ''--path'' then Some (\<lambda>v (_, item_path). (v, item_path)) else None) purge_other args (path, None)) (\<lambda>(path, item_path).
     bind_result (required ''purge requires a path, e.g. `wkp purge secret.md`'' item_path) (\<lambda>item_path.
     Inr \<lparr>pu_path = path, pu_item_path = item_path\<rparr>)))"

definition purge_summary_str :: "string \<Rightarrow> string" where
  "purge_summary_str path = join [nl]
    [''wkp: purged '' @ path @ '' from every commit in this repository's local history.'',
     [],
     ''This rewrote every commit that touched '' @ path @ '' -- their hashes, and every commit after them, are now different from what any other clone of this repository still has. Required next steps, not optional:'',
     [],
     ''1. Force-push every branch this repository shares with a remote:'',
     ''   git push --force --all && git push --force --tags'',
     ''2. Every OTHER clone of this repository (every other device, any bare remote a hub or NAS holds) is now diverged history, not just ''
       @ [dquote] @ ''behind'' @ [dquote] @ '' -- pulling into one will not converge and may resurrect the purged content from that clone's own copy. ''
       @ ''Each one must be discarded and re-cloned fresh from the repository you just purged, never merged or rebased onto.'',
     ''3. '' @ path @ '' is still recoverable by anyone who already has a copy of this repository's history from before this purge ''
       @ ''(a stale clone, a backup, a bundle) -- purging this repository does not reach into those. If that is a real concern, ''
       @ ''treat every such copy as compromised, not just this one.'']"

definition run_purge :: "'g git \<Rightarrow> purge_options \<Rightarrow> ('g world, string) prog" where
  "run_purge git opts = purge_path git (pu_path opts) (pu_item_path opts)"

section \<open>Running in a container\<close>

definition PKG_VERSION :: string where "PKG_VERSION = ''1.2.0''"
definition PKG_REPOSITORY :: string where "PKG_REPOSITORY = ''https://github.com/agent-wkp/wkp''"

definition image_reference :: "string option \<Rightarrow> (string, string) result" where
  "image_reference override =
     (case override of
        Some img \<Rightarrow> Inr img
      | None \<Rightarrow>
          (case rev (split_char (CHR ''/'') PKG_REPOSITORY) of
             _ # owner # _ \<Rightarrow> Inr (''ghcr.io/'' @ owner @ ''/wkp:v'' @ PKG_VERSION @ ''-sandbox'')
           | _ \<Rightarrow> Inl (''wkp: cannot derive an image owner from repository URL ''  @ [squote] @ PKG_REPOSITORY @ [squote])))"

text \<open>A version that cannot be asked for is a podman that is missing.\<close>

definition podman_missing :: "('r, 'i, 'c, 's, 'k, 'f, 'g) cli_env \<Rightarrow> ('g world, bool) prog" where
  "podman_missing ce = attempt (ce_podman ce [''--version'']) (\<lambda>r. ret (r \<noteq> Inr (Some 0)))"

text \<open>A value of the environment that is not UTF-8 counts as not set.\<close>

definition var_ok :: "('r, 'i, 'c, 's, 'k, 'f, 'g) cli_env \<Rightarrow> string \<Rightarrow> string option" where
  "var_ok ce name = (case iv_var (ce_init ce) name of Some v \<Rightarrow> if valid_utf8 v then Some v else None | None \<Rightarrow> None)"

definition run_podman_sandbox :: "('r, 'i, 'c, 's, 'k, 'f, 'g) cli_env \<Rightarrow> string list \<Rightarrow> ('g world, int) prog" where
  "run_podman_sandbox ce subcommand_args =
     andthen (podman_missing ce) (\<lambda>missing.
     andthen (check (\<not> missing) (''podman not found on PATH -- --sandbox podman needs a working podman install ''
       @ ''(on macOS, a running `podman machine`)'')) (\<lambda>_.
     andthen (given (map_error (\<lambda>e. ''cannot read cwd: '' @ e) (ce_cwd ce))) (\<lambda>cwd.
     andthen (given (image_reference (var_ok ce ''WKP_SANDBOX_IMAGE''))) (\<lambda>img.
     andthen (map_err (\<lambda>e. ''failed to run podman: '' @ e)
       (ce_podman ce ([''run'', ''--rm'', ''-v'', cwd @ '':'' @ cwd @ '':Z'', ''-w'', cwd, img] @ subcommand_args))) (\<lambda>status.
     ret (case status of Some code \<Rightarrow> code | None \<Rightarrow> 1))))))"

definition sandbox_arm :: "('r, 'i, 'c, 's, 'k, 'f, 'g) cli_env \<Rightarrow> string list \<Rightarrow> ('f, 'g) cli_command" where
  "sandbox_arm ce args st =
     (case args of
        [] \<Rightarrow> complain ''wkp: --sandbox requires a backend, e.g. `wkp --sandbox podman index`'' st
      | backend # remaining \<Rightarrow>
          if backend \<noteq> ''podman'' then complain (''wkp: unknown --sandbox backend '' @ [squote] @ backend @ [squote] @ '' (supported: podman)'') st
          else if remaining = [] then complain ''wkp: --sandbox podman requires a command, e.g. `wkp --sandbox podman index`'' st
          else (case on_world (run_podman_sandbox ce remaining) st of
              (Inr code, st1) \<Rightarrow> Some (Exited code, st1)
            | (Inl msg, st1) \<Rightarrow> complain (''wkp: --sandbox podman failed: '' @ msg) st1))"

section \<open>Subcommands that make and fill a store\<close>

definition init_arm :: "('r, 'i, 'c, 's, 'k, 'f, 'g) cli_env \<Rightarrow> string list \<Rightarrow> ('f, 'g) cli_command" where
  "init_arm ce args =
     guard_git ce (help_or HELP_INIT args (path_argument ce args (\<lambda>path st.
       conclude ''init'' (\<lambda>_. say (''wkp: initialized store at '' @ path)) (on_index ce path (run_init (ce_init ce) path) st))))"

definition import_arm :: "('r, 'i, 'c, 's, 'k, 'f, 'g) cli_env \<Rightarrow> string list \<Rightarrow> ('f, 'g) cli_command" where
  "import_arm ce args =
     guard_git ce (help_or HELP_IMPORT args (path_argument ce args (\<lambda>path st.
       conclude ''import'' (\<lambda>s. say (import_summary_str s))
         (on_world (run_import (iv_list_dir (ce_init ce)) (ce_np ce) path (claude_home_from_env (iv_var (ce_init ce)))) st))))"

definition index_arm :: "('r, 'i, 'c, 's, 'k, 'f, 'g) cli_env \<Rightarrow> string list \<Rightarrow> ('f, 'g) cli_command" where
  "index_arm ce args =
     guard_git ce (help_or HELP_INDEX args (with_args (parse_index_args (ce_cwd ce) args) (\<lambda>opts st.
       conclude ''index'' (\<lambda>s. say (index_summary_str s))
         (on_index ce (io_path opts) (run_index_cli (re_index (ce_read ce)) (ce_git ce) opts) (apply_write_sandbox ce (io_path opts) st)))))"

section \<open>Subcommands that read\<close>

definition search_arm :: "('r, 'i, 'c, 's, 'k, 'f, 'g) cli_env \<Rightarrow> string list \<Rightarrow> ('f, 'g) cli_command" where
  "search_arm ce args =
     guard_git ce (help_or HELP_SEARCH args (with_args (parse_search_args (ce_cwd ce) args) (\<lambda>req st.
       conclude ''search'' say (on_reader ce (sr_path (snd req)) (run_search (ce_read ce) req) st))))"

definition context_arm :: "('r, 'i, 'c, 's, 'k, 'f, 'g) cli_env \<Rightarrow> string list \<Rightarrow> ('f, 'g) cli_command" where
  "context_arm ce args =
     guard_git ce (help_or HELP_CONTEXT args (with_args (parse_search_args (ce_cwd ce) args) (\<lambda>req st.
       conclude ''context'' say (on_reader ce (sr_path (snd req)) (run_context (ce_read ce) req) st))))"

definition traverse_arm :: "('r, 'i, 'c, 's, 'k, 'f, 'g) cli_env \<Rightarrow> string list \<Rightarrow> ('f, 'g) cli_command" where
  "traverse_arm ce args =
     guard_git ce (help_or HELP_TRAVERSE args (with_args (parse_traverse_args (ce_cwd ce) args) (\<lambda>req st.
       conclude ''traverse'' say (on_reader ce (tv_path (snd req)) (run_traverse (ce_read ce) req) st))))"

definition materialize_arm :: "('r, 'i, 'c, 's, 'k, 'f, 'g) cli_env \<Rightarrow> string list \<Rightarrow> ('f, 'g) cli_command" where
  "materialize_arm ce args =
     guard_git ce (help_or HELP_MATERIALIZE args (with_args (parse_materialize_args (ce_cwd ce) args) (\<lambda>req st.
       conclude ''materialize'' (\<lambda>_. id) (on_index ce (mo_path (snd req)) (run_materialize req) st))))"

definition hooks_arm :: "string list \<Rightarrow> ('f, 'g) cli_command" where
  "hooks_arm args =
     help_or HELP_HOOKS args (with_args (parse_hooks_args args) (\<lambda>framework.
       with_args (render_hooks framework) (\<lambda>s st. done_with (say s st))))"

text \<open>What cannot be read as text is read as nothing.\<close>

definition prompt_hook_arm :: "('r, 'i, 'c, 's, 'k, 'f, 'g) cli_env \<Rightarrow> string list \<Rightarrow> ('f, 'g) cli_command" where
  "prompt_hook_arm ce args =
     help_or HELP_PROMPT_HOOK args (case args of
         extra # _ \<Rightarrow> complain (''wkp: unrecognized argument: '' @ extra)
       | [] \<Rightarrow>
           (case ce_cwd ce of
              Inl _ \<Rightarrow> (\<lambda>st. Some (CliPanic, st))
            | Inr path \<Rightarrow>
                let payload = (if valid_utf8 (fst (ce_stdin ce)) then fst (ce_stdin ce) else []);
                    opts = prompt_hook_options_with (ce_parse_f64 ce) path (iv_var (ce_init ce)) in
                (\<lambda>st. case run_prompt_hook (ce_read ce) payload opts (cs_world st, cs_index st (components (ph_path opts))) of
                    (output, file) \<Rightarrow>
                      let st1 = st\<lparr>cs_index := (cs_index st)(components (ph_path opts) := file)\<rparr> in
                      (case output of
                         None \<Rightarrow> Some (CliPanic, st1)
                       | Some s \<Rightarrow> done_with (if s = [] then st1 else say s st1)))))"

definition usage_arm :: "('r, 'i, 'c, 's, 'k, 'f, 'g) cli_env \<Rightarrow> string list \<Rightarrow> ('f, 'g) cli_command" where
  "usage_arm ce args =
     help_or HELP_USAGE args (with_args (parse_usage_args (ce_cwd ce) args) (\<lambda>opts st.
       case run_usage (ce_usage ce) opts (ce_now ce) (cs_metrics st (components (us_path opts))) of
         None \<Rightarrow> Some (CliPanic, st)
       | Some output \<Rightarrow> done_with (say output st)))"

section \<open>Subcommands that write\<close>

definition run_remember :: "('r, 'i, 'c, 's, 'k, 'f, 'g) cli_env \<Rightarrow> remember_options \<Rightarrow> ('g world, string write_summary) prog" where
  "run_remember ce opts =
     (case ce_stdin ce of
        (bytes, Some e) \<Rightarrow> err (''reading stdin: '' @ e)
      | (bytes, None) \<Rightarrow>
          if valid_utf8 bytes then run_remember_with_body (ce_git ce) (ce_write ce) opts bytes
          else err (''reading stdin: stream did not contain valid UTF-8''))"

definition remember_arm :: "('r, 'i, 'c, 's, 'k, 'f, 'g) cli_env \<Rightarrow> string list \<Rightarrow> ('f, 'g) cli_command" where
  "remember_arm ce args =
     guard_git ce (help_or HELP_REMEMBER args (with_args (parse_remember_args (ce_cwd ce) args) (\<lambda>opts st.
       conclude ''remember'' (\<lambda>s. say (remember_summary_str s)) (on_world (run_remember ce opts) (apply_write_sandbox ce (ro_path opts) st)))))"

definition promote_arm :: "('r, 'i, 'c, 's, 'k, 'f, 'g) cli_env \<Rightarrow> string list \<Rightarrow> ('f, 'g) cli_command" where
  "promote_arm ce args =
     guard_git ce (help_or HELP_PROMOTE args (with_args (parse_promote_args (ce_cwd ce) args) (\<lambda>opts st.
       conclude ''promote'' (\<lambda>s. say (promote_summary_str s))
         (on_world (run_promote (ce_git ce) opts) (apply_write_sandbox ce (po_path opts) st)))))"

definition forget_arm :: "('r, 'i, 'c, 's, 'k, 'f, 'g) cli_env \<Rightarrow> string list \<Rightarrow> ('f, 'g) cli_command" where
  "forget_arm ce args =
     guard_git ce (help_or HELP_FORGET args (with_args (parse_forget_args (ce_cwd ce) args) (\<lambda>opts st.
       conclude ''forget'' say
         (on_world
           (case fo_target opts of
              ForgetItem item_path \<Rightarrow> andthen (run_forget_item (ce_git ce) opts item_path) (\<lambda>s. ret (forget_item_summary_str s))
            | ForgetDevice dev \<Rightarrow> andthen (run_forget_device (ce_git ce) (iv_age (ce_init ce)) opts dev) (\<lambda>s. ret (forget_device_summary_str s)))
           (apply_write_sandbox ce (fo_path opts) st)))))"

definition purge_arm :: "('r, 'i, 'c, 's, 'k, 'f, 'g) cli_env \<Rightarrow> string list \<Rightarrow> ('f, 'g) cli_command" where
  "purge_arm ce args =
     guard_git ce (help_or HELP_PURGE args (with_args (parse_purge_args (ce_cwd ce) args) (\<lambda>opts st.
       conclude ''purge'' (\<lambda>path. say (purge_summary_str path)) (on_world (run_purge (ce_git ce) opts) st))))"

definition resolve_arm :: "('r, 'i, 'c, 's, 'k, 'f, 'g) cli_env \<Rightarrow> string list \<Rightarrow> ('f, 'g) cli_command" where
  "resolve_arm ce args =
     guard_git ce (help_or HELP_RESOLVE_CONFLICTS args (with_args (parse_resolve_conflicts_args (ce_cwd ce) args) (\<lambda>path st.
       conclude ''resolve-conflicts''
         (\<lambda>inbox_paths st.
            if inbox_paths = [] then say ''wkp: no modify/delete conflicts found'' st
            else fold (\<lambda>p. say (''wkp: kept modification, proposed deletion at '' @ p)) inbox_paths st)
         (on_world (resolve_modify_delete_conflicts (ce_git ce) (ce_np ce) path) st))))"

section \<open>Subcommands that exchange\<close>

definition sync_arm :: "('r, 'i, 'c, 's, 'k, 'f, 'g) cli_env \<Rightarrow> string list \<Rightarrow> ('f, 'g) cli_command" where
  "sync_arm ce args =
     guard_git ce
       (if args \<noteq> [] \<and> hd args \<in> {''--help'', ''-h''} then (\<lambda>st. done_with (say HELP_SYNC st))
        else if args \<noteq> [] \<and> hd args = ''status'' then
          help_or HELP_SYNC (tl args) (with_args (parse_sync_status_args (ce_cwd ce) (tl args)) (\<lambda>path st.
            conclude ''sync status'' (\<lambda>cs. say (sync_status_str cs)) (on_world (run_sync_status (ce_git ce) path) st)))
        else help_or HELP_SYNC args (with_args (parse_sync_args (ce_cwd ce) args) (\<lambda>opts st.
            conclude ''sync'' (\<lambda>s. say (sync_summary_str s)) (on_world (run_sync (ce_git ce) (ce_write ce) opts) st))))"

definition bundle_arm :: "('r, 'i, 'c, 's, 'k, 'f, 'g) cli_env \<Rightarrow> string list \<Rightarrow> ('f, 'g) cli_command" where
  "bundle_arm ce args =
     guard_git ce
       (let sub = (case args of [] \<Rightarrow> None | a # _ \<Rightarrow> Some a); rest = tl args in
        if sub = Some ''--help'' \<or> sub = Some ''-h'' then (\<lambda>st. done_with (say HELP_BUNDLE st))
        else if sub = Some ''export'' then
          help_or HELP_BUNDLE rest (with_args (parse_bundle_export_args (ce_cwd ce) rest) (\<lambda>opts st.
            conclude ''bundle export'' (\<lambda>s. say (bundle_export_summary_str s))
              (on_world (run_bundle_export (ce_git ce) (ce_write ce) opts) st)))
        else if sub = Some ''import'' then
          help_or HELP_BUNDLE rest (with_args (parse_bundle_import_args (ce_cwd ce) rest) (\<lambda>opts st.
            conclude ''bundle import'' (\<lambda>s. say (bundle_import_summary_str s))
              (on_world (run_bundle_import (ce_git ce) (ce_write ce) opts) st)))
        else complain (''wkp: bundle requires a subcommand: export or import (got '' @ debug_opt (ce_np ce) sub @ '')''))"

definition hub_arm :: "('r, 'i, 'c, 's, 'k, 'f, 'g) cli_env \<Rightarrow> string list \<Rightarrow> ('f, 'g) cli_command" where
  "hub_arm ce args =
     (if args \<noteq> [] \<and> hd args \<in> {''--help'', ''-h''} then (\<lambda>st. done_with (say HELP_HUB st))
      else if args \<noteq> [] \<and> hd args = ''register'' then
        help_or HELP_HUB (tl args) (with_args (parse_hub_register_args (ce_cwd ce) (tl args)) (\<lambda>opts st.
          case run_hub_register (ce_register ce) opts (cs_world st) of
            None \<Rightarrow> None
          | Some (Inl DeadlinePanic, w) \<Rightarrow> Some (CliPanic, st\<lparr>cs_world := w\<rparr>)
          | Some (Inl (Failed msg), w) \<Rightarrow> complain (''wkp: hub register failed: '' @ msg) (st\<lparr>cs_world := w\<rparr>)
          | Some (Inr s, w) \<Rightarrow> done_with (say (hub_register_summary_str s) (st\<lparr>cs_world := w\<rparr>))))
      else complain ''wkp: usage: wkp hub register --hub-url <url> --tenant <slug> --ca-cert <path> [--path <dir>]'')"

definition wkpd_arm :: "('r, 'i, 'c, 's, 'k, 'f, 'g) cli_env \<Rightarrow> string list \<Rightarrow> ('f, 'g) cli_command" where
  "wkpd_arm ce args =
     guard_git ce (help_or HELP_WKPD args (with_args (parse_wkpd_args (ce_cwd ce) args) (\<lambda>opts st.
       case run_wkpd (re_index (ce_read ce)) (ce_git ce) (ce_write ce) (ce_sockets ce) (ce_watch ce) (ce_events ce) opts
              (cs_world st, cs_index st (components (wk_path opts))) of
         None \<Rightarrow> None
       | Some (r, w, file) \<Rightarrow>
           conclude ''wkpd'' (\<lambda>_. id) (r, st\<lparr>cs_world := w, cs_index := (cs_index st)(components (wk_path opts) := file)\<rparr>))))"

section \<open>Subcommands git runs\<close>

definition merge_driver_arm :: "('r, 'i, 'c, 's, 'k, 'f, 'g) cli_env \<Rightarrow> string list \<Rightarrow> ('f, 'g) cli_command" where
  "merge_driver_arm ce args =
     (case args of
        ancestor # ours # theirs # _ \<Rightarrow>
          (\<lambda>st. conclude ''merge-driver'' (\<lambda>_. id) (on_world (run_merge_driver (ce_np ce) ancestor ours theirs) st))
      | _ \<Rightarrow> complain (''wkp: merge-driver requires three paths: <ancestor> <ours> <theirs> ''
          @ ''(git supplies these itself per its merge-driver protocol)''))"

text \<open>The identity is only asked for when the content is ciphertext.\<close>

definition smudge :: "('r, 'i, 'g) init_env \<Rightarrow> string \<Rightarrow> string \<Rightarrow> ('g world, string) prog" where
  "smudge iv store_root content =
     (if \<not> starts_with content AGE_HEADER then ret content
      else attempt
        (andthen (device_id (iv_urandom iv) store_root) (\<lambda>dev.
         crypto (device_identity_ensure (iv_keys iv) (iv_keystore iv) dev (join_path store_root ''.wkp/device-identity''))))
        (\<lambda>identity. ret (run_filter_smudge (iv_age iv) identity content)))"

definition filter_arm :: "('r, 'i, 'c, 's, 'k, 'f, 'g) cli_env \<Rightarrow> string list \<Rightarrow> ('f, 'g) cli_command" where
  "filter_arm ce args st =
     (case (ce_cwd ce, ce_stdin ce) of
        (Inr store_root, content, None) \<Rightarrow>
          (if args \<noteq> [] \<and> hd args = ''clean'' then
             conclude ''filter clean'' (\<lambda>output st. st\<lparr>cs_out := cs_out st @ output\<rparr>)
               (on_world (run_filter_clean (iv_age (ce_init ce)) store_root content) st)
           else if args \<noteq> [] \<and> hd args = ''smudge'' then
             conclude ''filter smudge'' (\<lambda>output st. st\<lparr>cs_out := cs_out st @ output\<rparr>) (on_world (smudge (ce_init ce) store_root content) st)
           else complain ''wkp: filter requires a direction: clean|smudge'' st)
      | _ \<Rightarrow> Some (CliPanic, st))"

section \<open>Probes of the restrictions\<close>

definition probe_write :: "string \<Rightarrow> string \<Rightarrow> ('g world, bool) prog" where
  "probe_write path content = attempt (fs_write (components path) content) (\<lambda>r. ret (\<not> isl r))"

definition show_bool :: "bool \<Rightarrow> string" where
  "show_bool b = (if b then ''true'' else ''false'')"

definition setup_error :: "string \<Rightarrow> ('f, 'g) cli_command" where
  "setup_error e st = Some (Exited 2, warn (''SANDBOX_SETUP_ERROR: '' @ e) st)"

definition write_test_arm :: "('r, 'i, 'c, 's, 'k, 'f, 'g) cli_env \<Rightarrow> string list \<Rightarrow> ('f, 'g) cli_command" where
  "write_test_arm ce args st =
     (case args of
        allowed # denied # _ \<Rightarrow>
          (case on_world (ce_restrict_writes ce [allowed]) st of
             (Inl e, st1) \<Rightarrow> setup_error e st1
           | (Inr _, st1) \<Rightarrow>
               (case on_world (andthen (probe_write (join_path allowed ''ok.txt'') ''ok'') (\<lambda>inside_ok.
                   andthen (probe_write (join_path denied ''nope.txt'') ''nope'') (\<lambda>written. ret (inside_ok, \<not> written)))) st1 of
                  (Inl e, st2) \<Rightarrow> setup_error e st2
                | (Inr (inside_ok, outside_denied), st2) \<Rightarrow>
                    Some (Exited (if inside_ok \<and> outside_denied then 0 else 1),
                      say (''INSIDE_WRITE_OK='' @ show_bool inside_ok @ '' OUTSIDE_WRITE_DENIED='' @ show_bool outside_denied) st2)))
      | _ \<Rightarrow> Some (Exited 2, warn ''wkp: usage: wkp __sandbox-self-test-write <allowed-dir> <denied-dir>'' st))"

definition syscall_test_arm :: "('r, 'i, 'c, 's, 'k, 'f, 'g) cli_env \<Rightarrow> string list \<Rightarrow> ('f, 'g) cli_command" where
  "syscall_test_arm ce args st =
     (case args of
        [] \<Rightarrow> Some (Exited 2, warn ''wkp: usage: wkp __sandbox-self-test-syscalls <writable-dir>'' st)
      | probe_dir # _ \<Rightarrow>
          (case on_world (ce_restrict_syscalls ce) st of
             (Inl e, st1) \<Rightarrow> setup_error e st1
           | (Inr _, st1) \<Rightarrow>
               (case on_world (probe_write (join_path probe_dir ''ok.txt'') ''ok'') st1 of
                  (Inl e, st2) \<Rightarrow> setup_error e st2
                | (Inr ok, st2) \<Rightarrow> Some (Exited (if ok then 0 else 1), say (''ORDINARY_WRITE_OK='' @ show_bool ok) st2))))"

section \<open>The program\<close>

definition dispatch :: "('r, 'i, 'c, 's, 'k, 'f, 'g) cli_env \<Rightarrow> string list \<Rightarrow> ('f, 'g) cli_command" where
  "dispatch ce argv =
     (case argv of
        [] \<Rightarrow> complain USAGE
      | command # args \<Rightarrow>
          if command = ''--sandbox'' then sandbox_arm ce args
          else if command \<in> {''--help'', ''-h'', ''help''} then (\<lambda>st. done_with (say USAGE st))
          else if command \<in> {''--version'', ''-V''} then (\<lambda>st. done_with (say (''wkp '' @ PKG_VERSION) st))
          else if command = ''init'' then init_arm ce args
          else if command = ''import'' then import_arm ce args
          else if command = ''search'' then search_arm ce args
          else if command = ''context'' then context_arm ce args
          else if command = ''traverse'' then traverse_arm ce args
          else if command = ''index'' then index_arm ce args
          else if command = ''materialize'' then materialize_arm ce args
          else if command = ''remember'' then remember_arm ce args
          else if command = ''promote'' then promote_arm ce args
          else if command = ''hub'' then hub_arm ce args
          else if command = ''forget'' then forget_arm ce args
          else if command = ''purge'' then purge_arm ce args
          else if command = ''hooks'' then hooks_arm args
          else if command = ''prompt-hook'' then prompt_hook_arm ce args
          else if command = ''merge-driver'' then merge_driver_arm ce args
          else if command = ''filter'' then filter_arm ce args
          else if command = ''resolve-conflicts'' then resolve_arm ce args
          else if command = ''sync'' then sync_arm ce args
          else if command = ''bundle'' then bundle_arm ce args
          else if command = ''wkpd'' then wkpd_arm ce args
          else if command = ''usage'' then usage_arm ce args
          else if command = ''__sandbox-self-test-write'' then write_test_arm ce args
          else if command = ''__sandbox-self-test-syscalls'' then syscall_test_arm ce args
          else (\<lambda>st. complain USAGE (warn (''wkp: unknown subcommand '' @ [squote] @ command @ [squote] @ [nl]) st)))"

text \<open>
  A panic ends the process before anything is recorded. The metrics cannot be opened when the restrictions the command put on
  the process keep it from writing in the current directory.
\<close>

definition main :: "('r, 'i, 'c, 's, 'k, 'f, 'g) cli_env \<Rightarrow> string list \<Rightarrow> ('f, 'g) cli_command" where
  "main ce argv st =
     (case dispatch ce argv st of
        None \<Rightarrow> None
      | Some (CliPanic, st1) \<Rightarrow> Some (CliPanic, st1)
      | Some (Exited code, st1) \<Rightarrow>
          let tool = (case argv of [] \<Rightarrow> [] | command # _ \<Rightarrow> command) in
          (case ce_cwd ce of
             Inl _ \<Rightarrow> Some (Exited code, st1)
           | Inr cwd \<Rightarrow>
               let is_store = components (join_path cwd ''.wkp'') \<in> set (wd_dirs (cs_world st1));
                   opens = wd_fault (cs_world st1) FsWrite (components (join_path cwd ''.wkp/metrics.db'')) = None in
               Some (Exited code, if opens then st1\<lparr>cs_metrics := (cs_metrics st1)(components cwd :=
                   record_invocation (ue_ops (ce_usage ce)) is_store tool (ce_millis ce) code (ce_now ce) (cs_metrics st1 (components cwd)))\<rparr>
                 else st1)))"

end
