(* ===== verification/CliMainProps.thy ===== *)
theory CliMainProps
  imports CliMain
begin

text \<open>
  What holds of every way the program is called: which subcommands answer a request for help and nothing else, which only
  read, and what is handed on to a container.
\<close>

text \<open>Which arm a subcommand leads to.\<close>

lemma dispatch_simps:
  "dispatch ce (''init'' # args) = init_arm ce args"
  "dispatch ce (''import'' # args) = import_arm ce args"
  "dispatch ce (''search'' # args) = search_arm ce args"
  "dispatch ce (''context'' # args) = context_arm ce args"
  "dispatch ce (''traverse'' # args) = traverse_arm ce args"
  "dispatch ce (''index'' # args) = index_arm ce args"
  "dispatch ce (''materialize'' # args) = materialize_arm ce args"
  "dispatch ce (''remember'' # args) = remember_arm ce args"
  "dispatch ce (''promote'' # args) = promote_arm ce args"
  "dispatch ce (''forget'' # args) = forget_arm ce args"
  "dispatch ce (''purge'' # args) = purge_arm ce args"
  "dispatch ce (''hooks'' # args) = hooks_arm args"
  "dispatch ce (''prompt-hook'' # args) = prompt_hook_arm ce args"
  "dispatch ce (''resolve-conflicts'' # args) = resolve_arm ce args"
  "dispatch ce (''sync'' # args) = sync_arm ce args"
  "dispatch ce (''wkpd'' # args) = wkpd_arm ce args"
  "dispatch ce (''usage'' # args) = usage_arm ce args"
  "dispatch ce (''merge-driver'' # args) = merge_driver_arm ce args"
  "dispatch ce (''filter'' # args) = filter_arm ce args"
  by (simp_all add: dispatch_def)

lemma dispatch_prints:
  "dispatch ce (''--help'' # args) = (\<lambda>st. done_with (say USAGE st))"
  "dispatch ce (''--version'' # args) = (\<lambda>st. done_with (say (''wkp '' @ PKG_VERSION) st))"
  by (simp_all add: dispatch_def)

section \<open>Help\<close>

definition helpful :: "string list" where
  "helpful =
     [''init'', ''import'', ''search'', ''context'', ''traverse'', ''index'', ''materialize'', ''remember'', ''promote'', ''forget'', ''purge'',
      ''hooks'', ''prompt-hook'', ''resolve-conflicts'', ''sync'', ''wkpd'', ''usage'']"

lemmas arm_defs = init_arm_def import_arm_def search_arm_def context_arm_def traverse_arm_def index_arm_def materialize_arm_def
  remember_arm_def promote_arm_def forget_arm_def purge_arm_def hooks_arm_def prompt_hook_arm_def resolve_arm_def
  wkpd_arm_def usage_arm_def

lemma guard_git_ok [simp]: "ensure_min_git_version (ce_np ce) (ce_git_version ce) = Inr u \<Longrightarrow> guard_git ce command = command"
  by (simp add: guard_git_def)

lemma help_or_help [simp]: "wants_help args \<Longrightarrow> help_or text args command st = done_with (say text st)"
  by (simp add: help_or_def)

text \<open>
  With a git that is recent enough, each of these subcommands answers a request for help, wherever it stands among the
  arguments, by printing its text, and does nothing else.
\<close>

lemma help_runs_nothing:
  assumes "ensure_min_git_version (ce_np ce) (ce_git_version ce) = Inr u" "command \<in> set helpful" "wants_help args"
  shows "\<exists>text. dispatch ce (command # args) st = Some (Exited 0, say text st)"
proof -
  have status: "\<exists>text. sync_arm ce args st = Some (Exited 0, say text st)"
  proof (cases "args \<noteq> [] \<and> hd args = ''status''")
    case True
    then have "wants_help (tl args)" using assms(3) by (cases args) (simp_all add: wants_help_def)
    then show ?thesis using True assms(1) by (auto simp: sync_arm_def done_with_def)
  next
    case False
    then show ?thesis using assms(1,3) by (auto simp: sync_arm_def done_with_def)
  qed
  show ?thesis
    using assms(2) status unfolding helpful_def
    by (auto simp only: set_simps insert_iff empty_iff dispatch_simps arm_defs guard_git_ok [OF assms(1)] help_or_help [OF assms(3)] done_with_def)
qed

text \<open>The two subcommands git runs have no help: an argument that asks for it is taken for a path, or for a direction.\<close>

lemma plumbing_has_no_help:
  "dispatch ce [''merge-driver'', ''--help''] st
     = complain (''wkp: merge-driver requires three paths: <ancestor> <ours> <theirs> (git supplies these itself per its merge-driver protocol)'') st"
  "ce_cwd ce = Inr p \<Longrightarrow> ce_stdin ce = (bytes, None) \<Longrightarrow>
     dispatch ce [''filter'', ''--help''] st = complain ''wkp: filter requires a direction: clean|smudge'' st"
  by (simp_all add: dispatch_simps merge_driver_arm_def filter_arm_def)

section \<open>Reading commands\<close>

text \<open>What reading may do to an index file: SQLite makes an empty one where there was none.\<close>

definition only_opened :: "index_file \<Rightarrow> index_file \<Rightarrow> bool" where
  "only_opened file file' \<longleftrightarrow> file' = file \<or> (file = NoIndex \<and> file' = EmptyIndex)"

definition only_read :: "('f, 'g) cli_state \<Rightarrow> ('f, 'g) cli_state \<Rightarrow> bool" where
  "only_read st st' \<longleftrightarrow> cs_world st' = cs_world st \<and> cs_metrics st' = cs_metrics st \<and> (\<forall>p. only_opened (cs_index st p) (cs_index st' p))"

definition reads_only :: "('f, 'g) cli_command \<Rightarrow> bool" where
  "reads_only command \<longleftrightarrow> (\<forall>st out st'. command st = Some (out, st') \<longrightarrow> only_read st st')"

named_theorems reads_intros

lemma only_opened_refl [simp]: "only_opened file file"
  by (simp add: only_opened_def)

lemma only_read_simps [simp]:
  "only_read st st" "only_read st (say s st') = only_read st st'" "only_read st (warn s st') = only_read st st'"
  by (simp_all add: only_read_def say_def warn_def)

lemma opened_index: "open_index path w file = (r, file') \<Longrightarrow> only_opened file file'"
  by (auto simp: open_index_def only_opened_def split: index_file.splits if_splits)

lemma with_index_opens: "only_opened (snd s) (snd (with_index path q s))"
  by (auto simp: with_index_def split: prod.split sum.split dest: opened_index)

lemma reads_basic [reads_intros]:
  "reads_only (complain msg)" "reads_only (\<lambda>st. done_with (say s st))" "reads_only (\<lambda>st. Some (CliPanic, st))"
  by (simp_all add: reads_only_def complain_def done_with_def)

lemma reads_frames [reads_intros]:
  "reads_only command \<Longrightarrow> reads_only (guard_git ce command)" "reads_only command \<Longrightarrow> reads_only (help_or text args command)"
  "(\<And>opts. reads_only (run opts)) \<Longrightarrow> reads_only (with_args r run)"
  by (auto simp: guard_git_def help_or_def with_args_def split: sum.split intro: reads_basic)

lemma reads_reader [reads_intros]:
  assumes "\<And>s. only_opened (snd s) (snd (m s))"
  shows "reads_only (\<lambda>st. conclude name say (on_reader ce path m st))"
proof -
  have "m (w, f1) = (r, f2) \<Longrightarrow> only_opened f1 f2" for w f1 r f2 using assms [of "(w, f1)"] by simp
  then show ?thesis
    by (auto simp: reads_only_def conclude_def on_reader_def only_read_def complain_def done_with_def say_def warn_def
        split: prod.splits sum.splits)
qed

lemma searches_open:
  "only_opened (snd s) (snd (run_search env req s))" "only_opened (snd s) (snd (run_context env req s))"
  "only_opened (snd s) (snd (run_traverse env treq s))"
  by (auto simp: run_search_def run_context_def run_traverse_def Let_def with_index_opens split: prod.split)

lemma hook_opens: "only_opened (snd s) (snd (run_prompt_hook env payload opts s))"
  by (auto simp: run_prompt_hook_def Let_def split: option.split scan.split prod.split sum.split dest: opened_index)

lemma reads_hook: "reads_only (prompt_hook_arm ce args)"
proof -
  have "run_prompt_hook env payload opts (w, f1) = (r, f2) \<Longrightarrow> only_opened f1 f2" for env payload opts w f1 r f2
    using hook_opens [of "(w, f1)" env payload opts] by simp
  then show ?thesis
    unfolding prompt_hook_arm_def
    by (auto intro!: reads_frames reads_basic split: list.split sum.split)
       (auto simp: reads_only_def Let_def only_read_def done_with_def say_def split: prod.splits option.splits if_splits)
qed


text \<open>A search where no index has been made: it fails, and what appears is the empty file.\<close>

definition demo_cli :: "(string, string, string, string, string, int, unit) cli_env" where
  "demo_cli =
     \<lparr>ce_init = quiet_env,
      ce_register = \<lparr>rv_urandom = Inl ''none'',
        rv_keys = \<lparr>sk_generate = (\<lambda>w. (Inl ''none'', w)), sk_public = Inr, sk_show = Inr, sk_read = Inr, sk_raw = Some, sk_pkcs8 = Inr,
          sk_key_pair = Inr, sk_request = Inr, sk_pem = id\<rparr>,
        rv_keystore = iv_keystore quiet_env, rv_cert = Inr, rv_post = (\<lambda>_ _ _. err ''offline''), rv_code = (\<lambda>_. Inl ''none''),
        rv_token = (\<lambda>_. Inl ''none''), rv_status_text = show_nat, rv_instant = (\<lambda>w. int (wd_nanos w)), rv_sleep = (\<lambda>_. id), rv_chmod = (\<lambda>_ _. ret ())\<rparr>,
      ce_read = \<lparr>re_index = demo_env, re_fts = any_match, re_vectors = int_vectors, re_show3 = (\<lambda>_. []), re_show = (\<lambda>_. [])\<rparr>,
      ce_write = daemon_env, ce_usage = int_usage_env,
      ce_sockets = \<lparr>sk_bind = (\<lambda>_. ret ()), sk_chmod = (\<lambda>_ _. ret ())\<rparr>, ce_watch = ret (),
      ce_events = \<lparr>ev_recv = (\<lambda>s. (False, s)), ev_recv_timeout = (\<lambda>_ s. (False, s))\<rparr>,
      ce_cwd = Inr ''s'', ce_git_version = Some (True, ''git version 2.43.0''), ce_stdin = ([], None), ce_parse_f64 = (\<lambda>_. None),
      ce_podman = (\<lambda>_. ret (Some 0)), ce_restrict_writes = (\<lambda>_. ret ()), ce_restrict_syscalls = ret (), ce_error_text = (\<lambda>_. ''no such table''),
      ce_now = 1000, ce_millis = 5\<rparr>"

definition bare_store :: "(int, unit) cli_state" where
  "bare_store = \<lparr>cs_world = empty_world\<lparr>wd_dirs := [components ''s'', components ''s/.wkp'']\<rparr>, cs_index = (\<lambda>_. NoIndex), cs_metrics = (\<lambda>_. None),
     cs_out = [], cs_err = []\<rparr>"


section \<open>Containers\<close>

text \<open>What follows the backend is handed on as it is, a further request for a container included.\<close>

lemma sandbox_passes_on:
  assumes "ce_podman ce [''--version''] (cs_world st) = (Inr (Some 0), w)" "ce_cwd ce = Inr cwd" "var_ok ce ''WKP_SANDBOX_IMAGE'' = Some img"
    and "ce_podman ce ([''run'', ''--rm'', ''-v'', cwd @ '':'' @ cwd @ '':Z'', ''-w'', cwd, img] @ [''--sandbox'', ''podman'', ''index'']) w
      = (Inr (Some code), w')"
  shows "dispatch ce [''--sandbox'', ''podman'', ''--sandbox'', ''podman'', ''index''] st = Some (Exited code, st\<lparr>cs_world := w'\<rparr>)"
  using assms
  by (simp add: dispatch_def sandbox_arm_def run_podman_sandbox_def podman_missing_def on_world_def andthen_def attempt_def map_err_def
      given_def map_error_def image_reference_def)

end
