(* ===== verification/Spec2Isabelle.thy ===== *)
theory Spec2Isabelle
  imports Merge IndexSearch Secrets Usage RememberProps WriteProps DeviceBranch CliSync HubClientUsage TenantRepo PodLife HubMainProps
    DeviceEnrol CliMainProps
begin

text \<open>
  A verification library for wkp, a store of markdown items with frontmatter in a git repository, its
  command-line tool and daemon, and the hub that stores synchronize through. Paths below are relative to crates/.

  \<^bold>\<open>The program.\<close> An item is a markdown file with a header (wkp-core: frontmatter.rs). The text of items refers
  to other items (graph.rs); a derived database (index/*.rs) holds every item with its tier, which says whether it may be
  injected into a session (tier.rs), and answers searches. The crate wkp-git runs git; wkp-crypto encrypts private items
  for the devices named in a file of the store. The commands of wkp-cli are functions over these: remember, promote and
  forget write the store, index brings the database up to date, search, context, traverse, materialize and prompt-hook
  read it, sync and bundle exchange branches with other devices, hub register obtains a certificate, wkpd does all of
  it by itself. The hub (wkp-hub) keeps tenants, devices and grants in Postgres, signs device certificates, lets a
  device with a certificate reach the repository of its tenant in a pod, indexes the shared items, and closes the
  connections of a revoked device.

  \<^bold>\<open>How a program is modelled.\<close> A fallible function returns a sum (\<open>Inl\<close> the error, \<open>Inr\<close> the
  value; Prelude). A panic is a value: \<open>None\<close>, the error of a result, or an outcome of its own, as each
  theory says. A command is a program (World.prog): a function of the world that returns a result and the world it leaves,
  composed with \<open>andthen\<close>, which is the question-mark operator. The world is the files by the components of their
  path, the directories, the refusals of the operating system, the clock, and the rest of the system as a value of any
  type; git is a function from arguments, standard input and world to an exit and a world, and every call of it is
  logged. What is not under the repository is a parameter: git, podman, kubectl, the full-text engine and failures of
  SQLite, the regular expression engine, floating-point arithmetic, age and the certificate libraries, JSON readers
  where the sources use a library, the web framework, clocks and random devices. Strings are lists of bytes; a machine integer is a
  word where its width matters (token counts, embedding floats) and an integer or number with its bounds written out elsewhere.

  \<^bold>\<open>Shared theories.\<close> Prelude: the result type, generic lemmas, collections. RustStr: Rust's operations on str, and
  paths. Sql: tables as lists of rows, with two contracts as locales, \<open>unique_key\<close> and \<open>row_store\<close>,
  interpreted on the catalog of metrics (Usage), on rowid tables (Sql) and on the index (IndexStore). World: the world,
  programs, and the locale \<open>log_property\<close> for what every program built from the combinators keeps. LineFile: the
  contract \<open>line_file\<close> of a file of one entry per line, interpreted on the signers file (Signers) and the recipients
  file (Recipients). Args: the argument loops.

  \<^bold>\<open>wkp-core.\<close> Frontmatter (frontmatter.rs): parser, serializer, and that parsing inverts rendering. Merge (merge.rs):
  the three-way merge, what it keeps of each side. Graph (graph.rs): links and their normal form. Tier (index/tier.rs): the
  tier gate and the calendar. Embed, Hybrid (embed.rs, index/hybrid.rs): vectors and the fused ranking. IndexStore
  (index/schema.rs, store.rs): building, and that updating in place gives the rows of rebuilding. IndexSearch
  (index/search.rs): the sanitized query reads back as the words asked for, budget, traversal as shortest paths. Secrets
  (secrets.rs): the scan. Usage (usage/*.rs): the rings of a metric; RingSpec is the abstract ring that both Usage and
  HubUsage refine.

  \<^bold>\<open>wkp-git and wkp-crypto.\<close> GitStatus (plumbing.rs, changes.rs, conflicts.rs), Signers (allowed_signers.rs), GitCmd (the
  other files of wkp-git), DeviceBranch (sync.rs: a commit to the device's branch leaves HEAD where it was, from laws of
  git stated as hypotheses), Recipients (recipients.rs, lib.rs, and the filters of wkp-cli), Identity (device_identity.rs,
  signing_identity.rs: a key once made is the key ever after).

  \<^bold>\<open>wkp-cli.\<close> CliWrite with RememberProps and WriteProps (remember.rs, promote.rs, forget.rs): an agent's note is
  proposed, nothing is promoted or removed without authority. CliSync (sync_cmd.rs, bundle.rs, resolve_conflicts.rs,
  merge_driver.rs): only the device's own branch is pushed. CliIndex (index_cmd.rs): the index holds what is read, and a
  hand-edited item is injected although nobody signed the edit. CliRead (search.rs, context.rs, materialize.rs): a
  tier file is replaced whole. PromptHook (prompt_hook.rs, hooks.rs): the JSON reader returns, and finds the field.
  ImportCmd (import.rs). StoreInit (init.rs): what an initialized store holds; its locale \<open>watched_file\<close> says which
  programs leave one file alone and is interpreted on \<open>grown\<close>. Wkpd (wkpd.rs): what the daemon commits, and that it
  does not index what it commits. HubRegister (hub_register.rs): registering returns, and leaves the certificate and
  its key. UsageCmd (usage_cmd.rs): the report
  counts every recorded invocation. CliHelp, CliMain and CliMainProps (main.rs, purge.rs, podman_sandbox.rs): every
  subcommand from its arguments to its exit code, and that the commands that only read write nothing.

  \<^bold>\<open>wkp-hub.\<close> ControlPlane (control_plane/mod.rs, grants.rs): tables and statements, any call of which may fail
  before or after it was carried out. CpInv: the constraints of the schema hold over any history, and a revoked device
  stays revoked, by the locales \<open>durable\<close> and \<open>control_plane_relation\<close>. HubUsage, HubUsageProps, HubClientUsage
  (control_plane/usage.rs): the hub keeps per tenant and metric what the client keeps. Registry (connection_registry.rs): a
  step relation of connections, revocations and the listener; connections of a revoked device are closed. HubCa
  (hub_ca.rs), WebText and HubHttp (http.rs): handlers, and that git is served only to a device of the tenant. FrontDoor
  (front_door.rs), Enrolment: three requests end in a certificate. DeviceEnrol composes
  both ends: the client of HubRegister, talking to this front door while somebody submits the form, ends registered. TenantPod, PodProps, PodLife, K8sPod (tenant_pod.rs,
  k8s_orchestrator.rs): the confinement of a pod and its life, with the contract \<open>container_runtime\<close> interpreted on
  podman and on kubernetes. TenantRepo (tenant_repo.rs): the index of a tenant is exactly the shared items. HubMain,
  HubMainProps (main.rs): the subcommands, and the index worker.

  \<^bold>\<open>Loops.\<close> Loops over a list or a number are recursive functions that end. Loops that may not end are partial
  functions whose value is \<open>None\<close> when they do not return: the reader of JSON (PromptHook; it returns for every input), the polling of a registration (HubRegister; it returns
  when time passes between two polls), and the loop of the daemon (Wkpd; it is meant to run until its channel is closed). The loops of
  the hub run over a list of what the environment does: notifications and database answers (Registry), requests (Enrolment,
  PodLife), changes of the world between two rounds (HubMain). No fuel is used: the depth of a traversal
  and the number of retries are the sources' own.

  \<^bold>\<open>Not modelled.\<close> Failures of SQLite itself and of the replacement of a database file; permissions of files beyond
  their being set; what is printed to standard error as a warning; threads beyond the interleavings of Registry (the
  control socket of the daemon shares no state with its loop); the TLS configuration and the server loops of the hub; the
  Landlock and seccomp set-up of wkp-cli/src/sandbox.rs, which are lists of system calls handed to the kernel; opening a
  database in wkp-sys; test support, benchmarks and the injection corpus, which are tests.
\<close>

end
